(* ===== verification/Prelude.thy ===== *)
theory Prelude
  imports Main "HOL-Library.Word" "HOL-Library.Multiset" "HOL-Library.Code_Target_Nat"
begin

text \<open>
  Shared vocabulary of the development: the Rust standard-library operations the
  sources use on vectors, options and machine integers, written out once, with the
  lemmas every component needs about them.

  \<^item> \<open>find_pos\<close> is \<open>Iterator::position\<close>, \<open>nth_opt\<close> is \<open>slice::get\<close>, \<open>remove_at\<close> is
    \<open>Vec::remove\<close> and \<open>insert_at\<close> is \<open>Vec::insert\<close> / \<open>splice(at..at, _)\<close>. The last two panic
    out of range in Rust; every model below calls them under the source's own guard, and
    the lemmas here carry that guard.
  \<^item> \<open>dedup_by\<close> is the idiom \<open>iter().filter(|x| seen.insert(key(x)))\<close>.
  \<^item> A vector index or length is a \<open>nat\<close>: a \<open>Vec\<close> never holds more than \<open>isize::MAX\<close>
    elements, so \<open>i + 1\<close> on an in-range index cannot wrap.
  \<^item> An \<open>i64\<close> is an \<open>int\<close>; the places where the code saturates use \<open>i64_sat\<close>,
    and those where a client's number can make it overflow use \<open>i64_wrap\<close>.
\<close>

named_theorems option_norm \<open>rewriting of option-valued lookups\<close>
named_theorems table_simps \<open>reading a table after it was written\<close>

type_synonym u64 = "64 word"

subsection \<open>Fallible results\<close>

text \<open>\<open>Result<T, E>\<close> is \<open>'e + 'a\<close> with \<open>Inl\<close> the error; \<open>?\<close> is a \<open>case\<close> that passes it on.\<close>

abbreviation is_ok :: "'e + 'a \<Rightarrow> bool" where
  "is_ok r \<equiv> (case r of Inl _ \<Rightarrow> False | Inr _ \<Rightarrow> True)"

subsection \<open>Saturating 64-bit arithmetic\<close>

definition i64_max :: int where
  "i64_max = 9223372036854775807"

definition i64_min :: int where
  "i64_min = - 9223372036854775808"

definition i64_sat :: "int \<Rightarrow> int" where
  "i64_sat x = max i64_min (min i64_max x)"

text \<open>Plain \<open>i64\<close> arithmetic in the release profile, which does not check for overflow.\<close>

definition i64_wrap :: "int \<Rightarrow> int" where
  "i64_wrap x = (x + 2 ^ 63) mod 2 ^ 64 - 2 ^ 63"

definition is_i64 :: "int \<Rightarrow> bool" where
  "is_i64 x \<longleftrightarrow> i64_min \<le> x \<and> x \<le> i64_max"

lemma i64_sat_id [simp]: "is_i64 x \<Longrightarrow> i64_sat x = x"
  by (simp add: is_i64_def i64_sat_def)

lemma is_i64_sat [simp]: "is_i64 (i64_sat x)"
  by (simp add: is_i64_def i64_sat_def i64_min_def i64_max_def)

lemma i64_sat_mono: "x \<le> y \<Longrightarrow> i64_sat x \<le> i64_sat y"
  by (auto simp: i64_sat_def)

lemma i64_sat_ge: "is_i64 x \<Longrightarrow> x \<le> y \<Longrightarrow> x \<le> i64_sat y"
  by (auto simp: i64_sat_def is_i64_def)

subsection \<open>Vectors\<close>

fun find_pos :: "('a \<Rightarrow> bool) \<Rightarrow> 'a list \<Rightarrow> nat option" where
  "find_pos P [] = None"
| "find_pos P (x # xs) = (if P x then Some 0 else map_option Suc (find_pos P xs))"

definition nth_opt :: "'a list \<Rightarrow> nat \<Rightarrow> 'a option" where
  "nth_opt xs i = (if i < length xs then Some (xs ! i) else None)"

definition remove_at :: "nat \<Rightarrow> 'a list \<Rightarrow> 'a list" where
  "remove_at i xs = take i xs @ drop (Suc i) xs"

definition insert_at :: "nat \<Rightarrow> 'a list \<Rightarrow> 'a list \<Rightarrow> 'a list" where
  "insert_at i ys xs = take i xs @ ys @ drop i xs"

fun dedup_by :: "('a \<Rightarrow> 'k) \<Rightarrow> 'k set \<Rightarrow> 'a list \<Rightarrow> 'a list" where
  "dedup_by key seen [] = []"
| "dedup_by key seen (x # xs) =
     (if key x \<in> seen then dedup_by key seen xs
      else x # dedup_by key (insert (key x) seen) xs)"

lemma nth_opt_Some [option_norm]: "nth_opt xs i = Some x \<longleftrightarrow> i < length xs \<and> xs ! i = x"
  by (auto simp: nth_opt_def)

lemma nth_opt_None [option_norm]: "nth_opt xs i = None \<longleftrightarrow> length xs \<le> i"
  by (auto simp: nth_opt_def)

lemma nth_opt_map: "nth_opt (map f xs) i = map_option f (nth_opt xs i)"
  by (simp add: nth_opt_def)

lemma find_pos_None [option_norm]: "find_pos P xs = None \<longleftrightarrow> (\<forall>x \<in> set xs. \<not> P x)"
  by (induction xs) auto

lemma find_pos_Some:
  "find_pos P xs = Some i \<Longrightarrow> i < length xs \<and> P (xs ! i) \<and> (\<forall>j < i. \<not> P (xs ! j))"
proof (induction xs arbitrary: i)
  case Nil
  then show ?case by simp
next
  case (Cons x xs)
  show ?case
  proof (cases "P x")
    case True
    with Cons.prems show ?thesis by simp
  next
    case False
    with Cons.prems obtain k where k: "find_pos P xs = Some k" "i = Suc k" by auto
    with Cons.IH [OF k(1)] False show ?thesis by (auto simp: less_Suc_eq_0_disj)
  qed
qed

lemma find_pos_bound: "find_pos P xs = Some i \<Longrightarrow> i < length xs"
  by (simp add: find_pos_Some)

lemma find_pos_unique:
  assumes "i < length xs" "P (xs ! i)" "\<And>j. j < length xs \<Longrightarrow> P (xs ! j) \<Longrightarrow> j = i"
  shows "find_pos P xs = Some i"
proof (cases "find_pos P xs")
  case None
  then have "\<not> P (xs ! i)" using assms(1) by (simp add: find_pos_None)
  then show ?thesis using assms(2) by contradiction
next
  case (Some k)
  from find_pos_Some [OF Some] have "k < length xs" "P (xs ! k)" by simp_all
  from assms(3) [OF this] Some show ?thesis by simp
qed

lemma find_pos_key:
  assumes "distinct (map f xs)" "i < length xs"
  shows "find_pos (\<lambda>x. f x = f (xs ! i)) xs = Some i"
proof (rule find_pos_unique)
  show "i < length xs" by fact
  show "f (xs ! i) = f (xs ! i)" by simp
next
  fix j
  assume j: "j < length xs" "f (xs ! j) = f (xs ! i)"
  then have "map f xs ! j = map f xs ! i" using assms(2) by simp
  with nth_eq_iff_index_eq [OF assms(1), of j i] j(1) assms(2) show "j = i" by simp
qed

lemma length_remove_at [simp]: "i < length xs \<Longrightarrow> length (remove_at i xs) = length xs - 1"
  by (simp add: remove_at_def min_def)

lemma remove_at_Nil: "i < length xs \<Longrightarrow> remove_at i xs = [] \<longleftrightarrow> length xs = 1"
  by (cases xs) (auto simp: remove_at_def)

lemma length_insert_at [simp]: "length (insert_at i ys xs) = length xs + length ys"
  by (simp add: insert_at_def)

lemma map_remove_at: "map f (remove_at i xs) = remove_at i (map f xs)"
  by (simp add: remove_at_def take_map drop_map)

lemma map_insert_at: "map f (insert_at i ys xs) = insert_at i (map f ys) (map f xs)"
  by (simp add: insert_at_def take_map drop_map)

lemma nth_remove_at:
  "i < length xs \<Longrightarrow> j < length xs - 1 \<Longrightarrow>
   remove_at i xs ! j = xs ! (if j < i then j else Suc j)"
  by (auto simp: remove_at_def nth_append min_def)

lemma nth_insert_at:
  "i \<le> length xs \<Longrightarrow> j < length xs + length ys \<Longrightarrow>
   insert_at i ys xs ! j =
     (if j < i then xs ! j
      else if j < i + length ys then ys ! (j - i) else xs ! (j - length ys))"
  by (auto simp: insert_at_def nth_append min_def)

lemma remove_insert_at: "t \<le> length xs \<Longrightarrow> remove_at t (insert_at t [x] xs) = xs"
  by (simp add: remove_at_def insert_at_def)

lemma set_remove_at_subset: "set (remove_at i xs) \<subseteq> set xs"
  by (auto simp: remove_at_def dest: in_set_takeD in_set_dropD)

lemma mset_remove_at: "i < length xs \<Longrightarrow> mset (remove_at i xs) = mset xs - {# xs ! i #}"
proof -
  assume i: "i < length xs"
  then have "mset (take i xs @ [xs ! i] @ drop (Suc i) xs) = mset xs"
    by (metis append_Cons append_Nil id_take_nth_drop)
  then show ?thesis
    by (metis add_mset_remove_trivial mset.simps(2) mset_append remove_at_def
        append_Cons append_Nil union_mset_add_mset_right)
qed

lemma mset_insert_at: "mset (insert_at i ys xs) = mset xs + mset ys"
proof -
  have "mset (take i xs) + mset (drop i xs) = mset xs"
    by (metis append_take_drop_id mset_append)
  then show ?thesis by (simp add: insert_at_def ac_simps)
qed

lemma distinct_remove_at: "distinct xs \<Longrightarrow> distinct (remove_at i xs)"
  by (simp add: remove_at_def set_take_disj_set_drop_if_distinct)

subsection \<open>Filtering out repeated keys\<close>

lemma dedup_by_keys_fresh: "x \<in> set (dedup_by key seen xs) \<Longrightarrow> key x \<notin> seen"
  by (induction xs arbitrary: seen) (auto split: if_splits)

lemma set_dedup_by: "set (dedup_by key seen xs) \<subseteq> set xs"
  by (induction xs arbitrary: seen) auto

lemma length_dedup_by: "length (dedup_by key seen xs) \<le> length xs"
  by (induction xs arbitrary: seen) (simp_all add: le_SucI)

lemma distinct_dedup_by: "distinct (map key (dedup_by key seen xs))"
  by (induction xs arbitrary: seen) (auto dest: dedup_by_keys_fresh)

lemma dedup_by_covers:
  "x \<in> set xs \<Longrightarrow> key x \<in> seen \<or> key x \<in> key ` set (dedup_by key seen xs)"
proof (induction xs arbitrary: seen)
  case Nil
  then show ?case by simp
next
  case (Cons a xs)
  show ?case
  proof (cases "x = a")
    case True
    then show ?thesis by simp
  next
    case False
    with Cons.prems have "x \<in> set xs" by simp
    from Cons.IH [OF this, of seen] Cons.IH [OF this, of "insert (key a) seen"]
    show ?thesis by auto
  qed
qed

lemma dedup_by_id:
  "distinct (map key xs) \<Longrightarrow> key ` set xs \<inter> seen = {} \<Longrightarrow> dedup_by key seen xs = xs"
  by (induction xs arbitrary: seen) auto

lemma distinct_append_dedup_by:
  "distinct (map key kept) \<Longrightarrow> distinct (map key (kept @ dedup_by key (key ` set kept) xs))"
proof -
  assume "distinct (map key kept)"
  moreover have "key ` set kept \<inter> key ` set (dedup_by key (key ` set kept) xs) = {}"
    by (metis (no_types, lifting) dedup_by_keys_fresh disjoint_iff imageE)
  ultimately show ?thesis by (simp add: distinct_dedup_by)
qed

lemma same_key_same_elem:
  "distinct (map f xs) \<Longrightarrow> x \<in> set xs \<Longrightarrow> y \<in> set xs \<Longrightarrow> f x = f y \<Longrightarrow> x = y"
  by (auto simp: distinct_map inj_on_def)

subsection \<open>Decimal printing\<close>

text \<open>\<open>to_string()\<close> and \<open>{}\<close> on unsigned and signed integers.\<close>

definition digit_char :: "nat \<Rightarrow> char" where
  "digit_char d = char_of (48 + d)"

fun nat_str :: "nat \<Rightarrow> string" where
  "nat_str n = (if n < 10 then [digit_char n] else nat_str (n div 10) @ [digit_char (n mod 10)])"

declare nat_str.simps [simp del]

definition int_str :: "int \<Rightarrow> string" where
  "int_str x = (if x < 0 then ''-'' @ nat_str (nat (- x)) else nat_str (nat x))"

lemma of_digit_char: "d < 10 \<Longrightarrow> of_char (digit_char d) = 48 + d"
  by (simp add: digit_char_def)

lemma digit_char_inj: "d < 10 \<Longrightarrow> e < 10 \<Longrightarrow> digit_char d = digit_char e \<longleftrightarrow> d = e"
  by (metis add_left_cancel of_digit_char)

lemma nat_str_nonempty: "nat_str n \<noteq> []"
  by (subst nat_str.simps) simp

lemma nat_str_digits: "c \<in> set (nat_str n) \<Longrightarrow> 48 \<le> (of_char c :: nat) \<and> (of_char c :: nat) < 58"
proof (induction n rule: nat_str.induct)
  case (1 n)
  show ?case
  proof (cases "n < 10")
    case True
    with "1.prems" show ?thesis by (simp add: nat_str.simps [of n] of_digit_char)
  next
    case False
    then have "c \<in> set (nat_str (n div 10)) \<or> c = digit_char (n mod 10)"
      using "1.prems" by (auto simp: nat_str.simps [of n])
    then show ?thesis using "1.IH" [OF False] by (auto simp: of_digit_char)
  qed
qed

text \<open>Reading a run of digits back; \<open>str::parse\<close> on a digit string.\<close>

fun digits_val :: "nat \<Rightarrow> string \<Rightarrow> nat" where
  "digits_val acc [] = acc"
| "digits_val acc (c # cs) = digits_val (10 * acc + (of_char c - 48)) cs"

lemma digits_val_append: "digits_val acc (xs @ ys) = digits_val (digits_val acc xs) ys"
  by (induction xs arbitrary: acc) auto

lemma digits_val_nat_str: "digits_val 0 (nat_str n) = n"
proof (induction n rule: nat_str.induct)
  case (1 n)
  show ?case
  proof (cases "n < 10")
    case True
    then show ?thesis by (simp add: nat_str.simps [of n] of_digit_char)
  next
    case False
    with "1.IH" show ?thesis
      by (simp add: nat_str.simps [of n] digits_val_append of_digit_char)
  qed
qed

lemma nat_str_inj: "nat_str m = nat_str n \<longleftrightarrow> m = n"
  by (metis digits_val_nat_str)

subsection \<open>Counting up on machine words\<close>

lemma word_inc_less:
  fixes c mx :: "'a :: len word"
  assumes "c < mx"
  shows "unat (c + 1) = Suc (unat c)" "c + 1 \<le> mx"
proof -
  have lt: "unat c < unat mx" using assms by (simp add: word_less_nat_alt)
  have "unat mx < 2 ^ LENGTH('a)" by (rule unsigned_less)
  with lt have "Suc (unat c) < 2 ^ LENGTH('a)" by linarith
  then show inc: "unat (c + 1) = Suc (unat c)" by (simp add: unat_word_ariths(1))
  with lt show "c + 1 \<le> mx" by (simp add: word_le_nat_alt)
qed

end
