(* ===== verification/Core_Types.thy ===== *)
theory Core_Types
  imports Prelude "HOL-Library.List_Lexorder" "HOL-Library.Char_ord"
begin

text \<open>
  The domain types of the crate \<open>music-core\<close> (\<open>src/crates/music-core/src\<close>).

  The opaque identifiers of \<open>ids.rs\<close> are one-constructor datatypes over \<open>string\<close>, so that a
  track id and an album id are different types here as they are in Rust. A \<open>string\<close> is the
  list of UTF-8 bytes of the Rust \<open>String\<close>; identifiers are only compared, and the derived
  \<open>Ord\<close> is the byte-wise lexicographic order of \<open>List_Lexorder\<close> and \<open>Char_ord\<close>.

  \<open>QueueItem\<close>, \<open>PlaySource\<close>, \<open>Queue\<close>, \<open>SessionAnchor\<close>, \<open>PlaybackState\<close>, \<open>Track\<close>, \<open>Album\<close>
  and \<open>Artist\<close> are records with the fields of the structs; serde attributes only concern the
  JSON encoding and are not modelled. A \<open>Duration\<close> is its number of nanoseconds.
\<close>

section \<open>Identifiers (ids.rs)\<close>

datatype track_id = TrackId (track_str: string)
datatype album_id = AlbumId (album_str: string)
datatype artist_id = ArtistId (artist_str: string)
datatype queue_item_id = QueueItemId (queue_item_str: string)
datatype session_id = SessionId (session_str: string)

instantiation track_id :: linorder
begin

definition less_eq_track_id :: "track_id \<Rightarrow> track_id \<Rightarrow> bool" where
  "less_eq_track_id a b \<longleftrightarrow> track_str a \<le> track_str b"

definition less_track_id :: "track_id \<Rightarrow> track_id \<Rightarrow> bool" where
  "less_track_id a b \<longleftrightarrow> track_str a < track_str b"

instance
proof
  fix x y z :: track_id
  show "x < y \<longleftrightarrow> x \<le> y \<and> \<not> y \<le> x"
    by (auto simp: less_eq_track_id_def less_track_id_def)
  show "x \<le> x" by (simp add: less_eq_track_id_def)
  show "x \<le> y \<Longrightarrow> y \<le> z \<Longrightarrow> x \<le> z" by (auto simp: less_eq_track_id_def)
  show "x \<le> y \<Longrightarrow> y \<le> x \<Longrightarrow> x = y"
    by (auto simp: less_eq_track_id_def intro: track_id.expand)
  show "x \<le> y \<or> y \<le> x" by (auto simp: less_eq_track_id_def)
qed

end

section \<open>Catalog entities (track.rs, album.rs, artist.rs)\<close>

text \<open>\<open>Duration::from_secs(n)\<close> in nanoseconds.\<close>

definition duration_from_secs :: "nat \<Rightarrow> nat" where
  "duration_from_secs n = n * 1000000000"

record track =
  t_id :: track_id
  t_title :: string
  t_album_id :: "album_id option"
  t_album_name :: "string option"
  t_artist_id :: "artist_id option"
  t_artist_name :: "string option"
  t_track_number :: "32 word option"
  t_disc_number :: "32 word option"
  t_duration_seconds :: "32 word option"
  t_bit_rate_kbps :: "32 word option"
  t_content_type :: "string option"
  t_suffix :: "string option"
  t_year :: "16 word option"
  t_genre :: "string option"
  t_play_count :: "32 word option"
  t_played_at :: "string option"

definition track_duration :: "track \<Rightarrow> nat option" where
  "track_duration t = map_option (\<lambda>s. duration_from_secs (unat s)) (t_duration_seconds t)"

record album =
  al_id :: album_id
  al_name :: string
  al_artist_name :: "string option"
  al_artist_id :: "artist_id option"
  al_year :: "16 word option"
  al_song_count :: "32 word"
  al_duration_seconds :: "32 word"
  al_cover_art_id :: "string option"
  al_play_count :: "32 word option"
  al_played_at :: "string option"

definition album_duration :: "album \<Rightarrow> nat" where
  "album_duration a = duration_from_secs (unat (al_duration_seconds a))"

record artist =
  ar_id :: artist_id
  ar_name :: string
  ar_album_count :: "32 word option"

section \<open>Queue and playback state (queue.rs, playback.rs)\<close>

record play_source =
  ps_kind :: string
  ps_id :: "string option"

record queue_item =
  item_id :: queue_item_id
  track_id :: track_id
  source :: "play_source option"

record queue =
  items :: "queue_item list"

definition position_of :: "queue \<Rightarrow> queue_item_id \<Rightarrow> nat option" where
  "position_of q k = find_pos (\<lambda>i. item_id i = k) (items q)"

record session_anchor =
  anchor_session_id :: session_id
  anchor_track_id :: track_id
  anchor_started_ms :: int

record playback_state =
  queue :: queue
  now_playing_index :: "nat option"
  position_ms :: u64
  is_playing :: bool
  session_anchor :: "session_anchor option"

definition default_playback :: playback_state where
  "default_playback = \<lparr>queue = \<lparr>items = []\<rparr>, now_playing_index = None, position_ms = 0,
     is_playing = False, session_anchor = None\<rparr>"

text \<open>\<open>None\<close> when there is no cursor or it is out of bounds.\<close>

definition now_playing :: "playback_state \<Rightarrow> queue_item option" where
  "now_playing p =
     (case now_playing_index p of
        None \<Rightarrow> None
      | Some i \<Rightarrow> nth_opt (items (queue p)) i)"

section \<open>Lemmas on queues\<close>

definition queue_ids :: "queue \<Rightarrow> queue_item_id list" where
  "queue_ids q = map item_id (items q)"

lemma position_of_None [option_norm]: "position_of q k = None \<longleftrightarrow> k \<notin> set (queue_ids q)"
  by (auto simp: position_of_def queue_ids_def find_pos_None)

lemma position_of_Some:
  "position_of q k = Some i \<Longrightarrow> i < length (items q) \<and> item_id (items q ! i) = k"
  by (auto simp: position_of_def dest: find_pos_Some)

lemma position_of_nth:
  "distinct (queue_ids q) \<Longrightarrow> i < length (items q) \<Longrightarrow>
   position_of q (item_id (items q ! i)) = Some i"
  unfolding position_of_def queue_ids_def by (rule find_pos_key)

end
