(* ===== verification/Linearizer.thy ===== *)
theory Linearizer
  imports Prelude
begin

text \<open>
  The interface between the sync state machine and everything that distributes it: the
  gateway's room registry applies operations in arrival order and broadcasts the accepted
  ones; replicas re-apply them with their own clock. What both rely on is the locale
  \<open>linearizer\<close>: an accepted operation moves the version by one, and whether an operation is
  accepted, and its effect on the observable part of the state (\<open>view\<close>), do not depend on the
  clock it is applied with.

  \<open>run_log\<close> applies a log in which every entry has to be accepted.
\<close>

fun run_log :: "('op \<Rightarrow> int \<Rightarrow> 'st \<Rightarrow> 'e + 'st) \<Rightarrow> ('op \<times> int) list \<Rightarrow> 'st \<Rightarrow> 'st option" where
  "run_log step [] s = Some s"
| "run_log step ((op, now) # log) s =
     (case step op now s of
        Inl _ \<Rightarrow> None
      | Inr s' \<Rightarrow> run_log step log s')"

lemma run_log_append:
  "run_log step (xs @ ys) s = Option.bind (run_log step xs s) (run_log step ys)"
  by (induction xs arbitrary: s) (auto split: sum.splits)

locale linearizer =
  fixes step :: "'op \<Rightarrow> int \<Rightarrow> 'st \<Rightarrow> 'err + 'st"
    and version :: "'st \<Rightarrow> u64"
    and view :: "'st \<Rightarrow> 'v"
  assumes step_version: "step op n s = Inr s' \<Longrightarrow> version s' = version s + 1"
    and step_view: "view s = view t \<Longrightarrow> step op n s = Inr s' \<Longrightarrow>
      \<exists>t'. step op m t = Inr t' \<and> view t' = view s'"
    and view_version: "view s = view t \<Longrightarrow> version s = version t"
begin

lemma run_log_version:
  "run_log step log s = Some s' \<Longrightarrow> version s' = version s + of_nat (length log)"
  by (induction log arbitrary: s)
    (auto split: sum.splits prod.splits dest!: step_version simp: algebra_simps)

lemma run_log_view:
  assumes "view s = view t" "run_log step log s = Some s'" "map fst log' = map fst log"
  shows "\<exists>t'. run_log step log' t = Some t' \<and> view t' = view s'"
  using assms
proof (induction log arbitrary: s t log')
  case Nil
  then show ?case by simp
next
  case (Cons e log)
  obtain op n where e: "e = (op, n)" by (cases e)
  with Cons.prems(3) obtain m rest where log': "log' = (op, m) # rest" "map fst rest = map fst log"
    by (cases log') auto
  from Cons.prems(2) e obtain s1 where s1: "step op n s = Inr s1" "run_log step log s1 = Some s'"
    by (auto split: sum.splits)
  from step_view [OF Cons.prems(1) s1(1), of m] obtain t1 where
    t1: "step op m t = Inr t1" "view t1 = view s1" by blast
  from Cons.IH [OF t1(2) [symmetric] s1(2) log'(2)] t1(1) log'(1) show ?case by simp
qed

lemma echo_version:
  assumes "view s = view t" "step op n s = Inr s'"
  shows "version s' = version t + 1"
  using step_version [OF assms(2)] view_version [OF assms(1)] by simp

end

end
