(* ===== verification/Sync_State.thy ===== *)
theory Sync_State
  imports Core_Types Linearizer
begin

text \<open>
  The cross-device sync state machine of \<open>music-sync\<close> (\<open>ops.rs\<close>, \<open>state.rs\<close>, \<open>wire.rs\<close>):
  the operations, the server-authoritative state and \<open>SyncState::apply\<close> with its helpers
  \<open>apply_remove\<close>, \<open>apply_reorder\<close>, \<open>apply_replace_upcoming\<close> and \<open>normalize_cursor\<close>.

  Lemmas: the cursor invariant (\<open>cursor_ok\<close>) and that every operation keeps it; unique item
  ids (\<open>ids_ok\<close>), kept by every operation but a \<open>StartSession\<close> whose own list repeats an id;
  the functional behaviour of each operation on the queue, and that the cursor stays on the
  item it was on. \<open>version\<close> is a \<open>u64\<close> and wraps, as it does in a release build.

  The locale \<open>linearizer\<close> states what the room registry and the replicas rely on: an accepted
  operation advances the version by one, and acceptance and effect depend only on the part of
  the state a replica can see (everything but the server-stamped \<open>started_ms\<close>).
\<close>

section \<open>Operations and wire messages\<close>

datatype sync_op =
    Push queue_item_id track_id "play_source option"
  | Remove queue_item_id
  | Reorder queue_item_id nat
  | SetNowPlaying "nat option"
  | SetPosition u64
  | SetPlaying bool
  | Clear
  | StartSession "queue_item list" nat session_id
  | ReplaceUpcoming "queue_item list"
  | StopSession

record sync_state =
  playback :: playback_state
  version :: u64

definition default_sync_state :: sync_state where
  "default_sync_state = \<lparr>playback = default_playback, version = 0\<rparr>"

datatype apply_error = NowPlayingOutOfBounds nat nat | StartSessionEmpty

datatype server_message =
    Snapshot sync_state
  | Applied sync_op u64 "string option"
  | OpError string "string option"
  | Ack string
  | Pong

datatype client_message = Op sync_op "string option" | Ping

section \<open>SyncState::apply\<close>

definition queue_items :: "sync_state \<Rightarrow> queue_item list" where
  "queue_items s = items (queue (playback s))"

definition cursor :: "sync_state \<Rightarrow> nat option" where
  "cursor s = now_playing_index (playback s)"

definition set_items :: "queue_item list \<Rightarrow> sync_state \<Rightarrow> sync_state" where
  "set_items xs s = s\<lparr>playback := (playback s)\<lparr>queue := (queue (playback s))\<lparr>items := xs\<rparr>\<rparr>\<rparr>"

definition set_cursor :: "nat option \<Rightarrow> sync_state \<Rightarrow> sync_state" where
  "set_cursor c s = s\<lparr>playback := (playback s)\<lparr>now_playing_index := c\<rparr>\<rparr>"

definition normalize_cursor :: "sync_state \<Rightarrow> sync_state" where
  "normalize_cursor s =
     (case cursor s of
        Some i \<Rightarrow> if length (queue_items s) \<le> i then set_cursor None s else s
      | None \<Rightarrow> s)"

definition apply_remove :: "queue_item_id \<Rightarrow> sync_state \<Rightarrow> sync_state" where
  "apply_remove k s =
     (case position_of (queue (playback s)) k of
        None \<Rightarrow> s
      | Some pos \<Rightarrow>
          let s1 = set_items (remove_at pos (queue_items s)) s;
              s2 = set_cursor (case cursor s1 of
                       Some c \<Rightarrow> if pos < c then Some (c - 1) else Some c
                     | None \<Rightarrow> None) s1
          in normalize_cursor s2)"

definition apply_reorder :: "queue_item_id \<Rightarrow> nat \<Rightarrow> sync_state \<Rightarrow> sync_state" where
  "apply_reorder k new_index s =
     (case position_of (queue (playback s)) k of
        None \<Rightarrow> s
      | Some old \<Rightarrow>
          let cursor_item_id =
                map_option item_id (Option.bind (cursor s) (nth_opt (queue_items s)));
              item = queue_items s ! old;
              removed = remove_at old (queue_items s);
              target = min new_index (length removed);
              s1 = set_items (insert_at target [item] removed) s
          in case cursor_item_id of
               Some cid \<Rightarrow> set_cursor (position_of (queue (playback s1)) cid) s1
             | None \<Rightarrow> s1)"

definition apply_replace_upcoming :: "queue_item list \<Rightarrow> sync_state \<Rightarrow> sync_state" where
  "apply_replace_upcoming xs s =
     (let keep = (case cursor s of None \<Rightarrow> 0 | Some i \<Rightarrow> i + 1);
          kept = take keep (queue_items s);
          seen = item_id ` set kept;
          fresh = dedup_by item_id seen xs
      in set_items (kept @ fresh) s)"

fun apply_match :: "sync_op \<Rightarrow> int \<Rightarrow> sync_state \<Rightarrow> apply_error + sync_state" where
  "apply_match (Push k t src) now s =
     (if position_of (queue (playback s)) k = None
      then Inr (set_items (queue_items s @ [\<lparr>item_id = k, track_id = t, source = src\<rparr>]) s)
      else Inr s)"
| "apply_match (Remove k) now s = Inr (apply_remove k s)"
| "apply_match (Reorder k new_index) now s = Inr (apply_reorder k new_index s)"
| "apply_match (SetNowPlaying index) now s =
     (case index of
        Some i \<Rightarrow>
          if length (queue_items s) \<le> i
          then Inl (NowPlayingOutOfBounds i (length (queue_items s)))
          else Inr (set_cursor index s)
      | None \<Rightarrow> Inr (set_cursor index s))"
| "apply_match (SetPosition ms) now s = Inr (s\<lparr>playback := (playback s)\<lparr>position_ms := ms\<rparr>\<rparr>)"
| "apply_match (SetPlaying b) now s = Inr (s\<lparr>playback := (playback s)\<lparr>is_playing := b\<rparr>\<rparr>)"
| "apply_match Clear now s =
     Inr (s\<lparr>playback := (playback s)\<lparr>queue := (queue (playback s))\<lparr>items := []\<rparr>,
             now_playing_index := None, position_ms := 0, is_playing := False,
             session_anchor := None\<rparr>\<rparr>)"
| "apply_match (StartSession xs anchor sid) now s =
     (if xs = [] then Inl StartSessionEmpty
      else if length xs \<le> anchor then Inl (NowPlayingOutOfBounds anchor (length xs))
      else Inr (s\<lparr>playback := (playback s)\<lparr>queue := (queue (playback s))\<lparr>items := xs\<rparr>,
             now_playing_index := Some anchor, position_ms := 0, is_playing := True,
             session_anchor := Some \<lparr>anchor_session_id = sid,
               anchor_track_id = track_id (xs ! anchor), anchor_started_ms = now\<rparr>\<rparr>\<rparr>))"
| "apply_match (ReplaceUpcoming xs) now s = Inr (apply_replace_upcoming xs s)"
| "apply_match StopSession now s = Inr (s\<lparr>playback := (playback s)\<lparr>session_anchor := None\<rparr>\<rparr>)"

definition apply_op :: "sync_op \<Rightarrow> int \<Rightarrow> sync_state \<Rightarrow> apply_error + sync_state" where
  "apply_op op now s =
     (case apply_match op now s of
        Inl e \<Rightarrow> Inl e
      | Inr s' \<Rightarrow> Inr (s'\<lparr>version := version s' + 1\<rparr>))"

text \<open>The linearizer over a sequence of operations; a rejected one leaves the state alone.\<close>

fun apply_all :: "(sync_op \<times> int) list \<Rightarrow> sync_state \<Rightarrow> sync_state" where
  "apply_all [] s = s"
| "apply_all ((op, now) # ops) s =
     apply_all ops (case apply_op op now s of Inl _ \<Rightarrow> s | Inr s' \<Rightarrow> s')"

section \<open>Field access after an update\<close>

lemma queue_items_set [simp]:
  "queue_items (set_items xs s) = xs" "queue_items (set_cursor c s) = queue_items s"
  "queue_items (s\<lparr>version := v\<rparr>) = queue_items s"
  "items (queue (playback s)) = queue_items s"
  by (simp_all add: queue_items_def set_items_def set_cursor_def)

lemma cursor_set [simp]:
  "cursor (set_items xs s) = cursor s" "cursor (set_cursor c s) = c"
  "cursor (s\<lparr>version := v\<rparr>) = cursor s"
  "now_playing_index (playback s) = cursor s"
  by (simp_all add: cursor_def set_items_def set_cursor_def)

lemma playback_set [simp]:
  "queue_items (s\<lparr>playback := p\<rparr>) = items (queue p)"
  "cursor (s\<lparr>playback := p\<rparr>) = now_playing_index p"
  by (simp_all add: queue_items_def cursor_def del: queue_items_set cursor_set)

lemma version_set [simp]:
  "version (set_items xs s) = version s" "version (set_cursor c s) = version s"
  by (simp_all add: set_items_def set_cursor_def)

lemma queue_of_set:
  "queue (playback (set_items xs s)) = (queue (playback s))\<lparr>items := xs\<rparr>"
  "queue (playback (set_cursor c s)) = queue (playback s)"
  by (simp_all add: set_items_def set_cursor_def)

lemma anchor_set [simp]:
  "session_anchor (playback (set_items xs s)) = session_anchor (playback s)"
  "session_anchor (playback (set_cursor c s)) = session_anchor (playback s)"
  by (simp_all add: set_items_def set_cursor_def)

lemma transport_set [simp]:
  "position_ms (playback (set_items xs s)) = position_ms (playback s)"
  "position_ms (playback (set_cursor c s)) = position_ms (playback s)"
  "is_playing (playback (set_items xs s)) = is_playing (playback s)"
  "is_playing (playback (set_cursor c s)) = is_playing (playback s)"
  by (simp_all add: set_items_def set_cursor_def)

lemma normalize_cursor_fields [simp]:
  "queue_items (normalize_cursor s) = queue_items s"
  "version (normalize_cursor s) = version s"
  "session_anchor (playback (normalize_cursor s)) = session_anchor (playback s)"
  by (simp_all add: normalize_cursor_def split: option.splits)

section \<open>Invariants\<close>

definition cursor_ok :: "sync_state \<Rightarrow> bool" where
  "cursor_ok s \<longleftrightarrow> (case cursor s of None \<Rightarrow> True | Some i \<Rightarrow> i < length (queue_items s))"

definition ids_ok :: "sync_state \<Rightarrow> bool" where
  "ids_ok s \<longleftrightarrow> distinct (map item_id (queue_items s))"

text \<open>What a client has to guarantee for ids to stay unique.\<close>

fun op_ids_ok :: "sync_op \<Rightarrow> bool" where
  "op_ids_ok (StartSession xs anchor sid) = distinct (map item_id xs)"
| "op_ids_ok op = True"

lemma position_of_queue_None [option_norm]:
  "position_of (queue (playback s)) k = None \<longleftrightarrow> k \<notin> item_id ` set (queue_items s)"
  by (simp add: position_of_None queue_ids_def)

lemma position_of_queue_Some:
  "position_of (queue (playback s)) k = Some i \<Longrightarrow>
   i < length (queue_items s) \<and> item_id (queue_items s ! i) = k"
  by (drule position_of_Some) simp

lemma position_of_queue_nth:
  "ids_ok s \<Longrightarrow> i < length (queue_items s) \<Longrightarrow>
   position_of (queue (playback s)) (item_id (queue_items s ! i)) = Some i"
  using position_of_nth [of "queue (playback s)" i] by (simp add: ids_ok_def queue_ids_def)

lemma apply_remove_version [simp]: "version (apply_remove k s) = version s"
  by (simp add: apply_remove_def Let_def split: option.splits)

lemma apply_reorder_version [simp]: "version (apply_reorder k n s) = version s"
  by (simp add: apply_reorder_def Let_def split: option.splits)

lemma apply_replace_version [simp]: "version (apply_replace_upcoming xs s) = version s"
  by (simp add: apply_replace_upcoming_def Let_def)

lemma apply_match_version: "apply_match op now s = Inr s' \<Longrightarrow> version s' = version s"
  by (cases op) (auto split: if_splits option.splits)

lemma apply_op_version: "apply_op op now s = Inr s' \<Longrightarrow> version s' = version s + 1"
  by (auto simp: apply_op_def apply_match_version split: sum.splits)

lemma normalize_cursor_ok: "cursor_ok (normalize_cursor s)"
  by (simp add: cursor_ok_def normalize_cursor_def split: option.splits)

lemma apply_remove_cursor_ok: "cursor_ok s \<Longrightarrow> cursor_ok (apply_remove k s)"
  by (simp add: apply_remove_def Let_def normalize_cursor_ok split: option.splits)

lemma apply_reorder_length:
  "length (queue_items (apply_reorder k n s)) = length (queue_items s)"
  by (auto simp: apply_reorder_def Let_def split: option.splits dest: position_of_queue_Some)

lemma apply_reorder_mset:
  "mset (queue_items (apply_reorder k n s)) = mset (queue_items s)"
proof (cases "position_of (queue (playback s)) k")
  case None
  then show ?thesis by (simp add: apply_reorder_def)
next
  case (Some old)
  then have "old < length (queue_items s)" by (simp add: position_of_queue_Some)
  then have "queue_items s ! old \<in># mset (queue_items s)" by simp
  with Some \<open>old < _\<close> show ?thesis
    by (simp add: apply_reorder_def Let_def mset_insert_at mset_remove_at split: option.splits)
qed

lemma apply_reorder_cursor_ok: "cursor_ok s \<Longrightarrow> cursor_ok (apply_reorder k n s)"
proof (cases "position_of (queue (playback s)) k")
  case None
  then show "cursor_ok s \<Longrightarrow> ?thesis" by (simp add: apply_reorder_def)
next
  case (Some old)
  then show "cursor_ok s \<Longrightarrow> ?thesis"
    by (auto simp: cursor_ok_def apply_reorder_def Let_def nth_opt_def
        split: option.splits dest: position_of_queue_Some)
qed

lemma apply_replace_cursor_ok: "cursor_ok s \<Longrightarrow> cursor_ok (apply_replace_upcoming xs s)"
  by (simp add: cursor_ok_def apply_replace_upcoming_def Let_def split: option.splits)

lemma apply_match_cursor_ok:
  "cursor_ok s \<Longrightarrow> apply_match op now s = Inr s' \<Longrightarrow> cursor_ok s'"
proof (cases op)
  case (Remove k)
  then show "cursor_ok s \<Longrightarrow> apply_match op now s = Inr s' \<Longrightarrow> ?thesis"
    by (auto intro: apply_remove_cursor_ok)
next
  case (Reorder k n)
  then show "cursor_ok s \<Longrightarrow> apply_match op now s = Inr s' \<Longrightarrow> ?thesis"
    by (auto intro: apply_reorder_cursor_ok)
next
  case (ReplaceUpcoming xs)
  then show "cursor_ok s \<Longrightarrow> apply_match op now s = Inr s' \<Longrightarrow> ?thesis"
    by (auto intro: apply_replace_cursor_ok)
qed (auto simp: cursor_ok_def split: if_splits option.splits)

lemma apply_op_cursor_ok:
  "cursor_ok s \<Longrightarrow> apply_op op now s = Inr s' \<Longrightarrow> cursor_ok s'"
  by (auto simp: apply_op_def cursor_ok_def dest!: apply_match_cursor_ok [rotated]
      split: sum.splits option.splits)

lemma apply_all_cursor_ok: "cursor_ok s \<Longrightarrow> cursor_ok (apply_all ops s)"
  by (induction ops s rule: apply_all.induct)
    (auto split: sum.splits dest: apply_op_cursor_ok)

lemma default_ok [simp]: "cursor_ok default_sync_state" "ids_ok default_sync_state"
  by (simp_all add: cursor_ok_def ids_ok_def default_sync_state_def default_playback_def
      cursor_def queue_items_def del: cursor_set queue_items_set)

lemma apply_remove_ids_ok: "ids_ok s \<Longrightarrow> ids_ok (apply_remove k s)"
  by (simp add: ids_ok_def apply_remove_def Let_def map_remove_at distinct_remove_at
      split: option.splits)

lemma apply_reorder_ids_ok: "ids_ok s \<Longrightarrow> ids_ok (apply_reorder k n s)"
proof -
  assume "ids_ok s"
  have "mset (map item_id (queue_items (apply_reorder k n s))) = mset (map item_id (queue_items s))"
    by (simp add: apply_reorder_mset)
  from mset_eq_imp_distinct_iff [OF this] \<open>ids_ok s\<close> show ?thesis by (simp add: ids_ok_def)
qed

lemma apply_replace_ids_ok: "ids_ok s \<Longrightarrow> ids_ok (apply_replace_upcoming xs s)"
proof -
  assume "ids_ok s"
  then have kept: "distinct (map item_id (take n (queue_items s)))" for n
    by (simp add: ids_ok_def flip: take_map)
  show ?thesis
    using distinct_append_dedup_by [OF kept]
    by (simp add: ids_ok_def apply_replace_upcoming_def Let_def)
qed

lemma apply_match_ids_ok:
  "ids_ok s \<Longrightarrow> op_ids_ok op \<Longrightarrow> apply_match op now s = Inr s' \<Longrightarrow> ids_ok s'"
proof (cases op)
  case (Remove k)
  then show "ids_ok s \<Longrightarrow> op_ids_ok op \<Longrightarrow> apply_match op now s = Inr s' \<Longrightarrow> ?thesis"
    by (auto intro: apply_remove_ids_ok)
next
  case (Reorder k n)
  then show "ids_ok s \<Longrightarrow> op_ids_ok op \<Longrightarrow> apply_match op now s = Inr s' \<Longrightarrow> ?thesis"
    by (auto intro: apply_reorder_ids_ok)
next
  case (ReplaceUpcoming xs)
  then show "ids_ok s \<Longrightarrow> op_ids_ok op \<Longrightarrow> apply_match op now s = Inr s' \<Longrightarrow> ?thesis"
    by (auto intro: apply_replace_ids_ok)
qed (auto simp: ids_ok_def position_of_queue_None split: if_splits option.splits)

lemma apply_op_ids_ok:
  "ids_ok s \<Longrightarrow> op_ids_ok op \<Longrightarrow> apply_op op now s = Inr s' \<Longrightarrow> ids_ok s'"
  by (auto simp: apply_op_def ids_ok_def dest: apply_match_ids_ok [unfolded ids_ok_def]
      split: sum.splits)

lemma apply_all_ids_ok:
  "ids_ok s \<Longrightarrow> (\<forall>(op, now) \<in> set ops. op_ids_ok op) \<Longrightarrow> ids_ok (apply_all ops s)"
  by (induction ops s rule: apply_all.induct)
    (auto split: sum.splits dest: apply_op_ids_ok)

section \<open>What the operations do to the queue and the current item\<close>

definition current_item :: "sync_state \<Rightarrow> queue_item option" where
  "current_item s = now_playing (playback s)"

lemma current_item_eq: "current_item s = Option.bind (cursor s) (nth_opt (queue_items s))"
  by (simp add: current_item_def now_playing_def split: option.splits)

lemma current_item_cursor:
  "cursor_ok s \<Longrightarrow> current_item s = map_option (\<lambda>i. queue_items s ! i) (cursor s)"
  by (auto simp: current_item_eq cursor_ok_def nth_opt_def split: option.splits)

text \<open>Removing another item keeps the current one; removing the current one lets the next
  slide in, or clears the cursor at the end of the queue.\<close>

lemma apply_remove_items:
  "position_of (queue (playback s)) k = Some p \<Longrightarrow>
   queue_items (apply_remove k s) = remove_at p (queue_items s)"
  by (simp add: apply_remove_def Let_def)

lemma apply_remove_current:
  assumes ok: "cursor_ok s" and c: "cursor s = Some c"
    and p: "position_of (queue (playback s)) k = Some p"
  shows "current_item (apply_remove k s) =
    (if p = c then nth_opt (queue_items s) (Suc c) else current_item s)"
proof -
  have bounds: "c < length (queue_items s)" "p < length (queue_items s)"
    using ok c position_of_queue_Some [OF p] by (simp_all add: cursor_ok_def)
  let ?c' = "if p < c then c - 1 else c"
  have c': "(case cursor (set_items (remove_at p (queue_items s)) s) of
      None \<Rightarrow> None | Some c \<Rightarrow> if p < c then Some (c - 1) else Some c) = Some ?c'"
    using c by simp
  have "current_item (apply_remove k s) =
      (if ?c' < length (queue_items s) - 1 then Some (remove_at p (queue_items s) ! ?c') else None)"
    using p c c' bounds
    by (auto simp: apply_remove_def Let_def current_item_eq normalize_cursor_def nth_opt_def
        split: option.splits)
  also have "\<dots> = (if p = c then nth_opt (queue_items s) (Suc c) else current_item s)"
    using bounds c by (auto simp: nth_remove_at nth_opt_def current_item_eq)
  finally show ?thesis .
qed

lemma apply_reorder_items:
  assumes p: "position_of (queue (playback s)) k = Some p"
  shows "queue_items (apply_reorder k n s) =
    insert_at (min n (length (queue_items s) - 1)) [queue_items s ! p]
      (remove_at p (queue_items s))"
  using p position_of_queue_Some [OF p]
  by (simp add: apply_reorder_def Let_def split: option.splits)

text \<open>The moved item lands on the requested index, clamped to the last one.\<close>

lemma apply_reorder_lands:
  assumes p: "position_of (queue (playback s)) k = Some p"
  shows "nth_opt (queue_items (apply_reorder k n s)) (min n (length (queue_items s) - 1)) =
    Some (queue_items s ! p)"
proof -
  have "p < length (queue_items s)" using position_of_queue_Some [OF p] by simp
  then show ?thesis
    by (auto simp: apply_reorder_items [OF p] nth_opt_def nth_insert_at)
qed

lemma apply_reorder_current:
  assumes "cursor_ok s" "ids_ok s"
  shows "current_item (apply_reorder k n s) = current_item s"
proof (cases "position_of (queue (playback s)) k")
  case None
  then show ?thesis by (simp add: apply_reorder_def)
next
  case (Some p)
  show ?thesis
  proof (cases "cursor s")
    case None
    with Some show ?thesis by (simp add: current_item_eq apply_reorder_def Let_def)
  next
    case (Some c)
    with assms have c: "c < length (queue_items s)" by (simp add: cursor_ok_def)
    let ?it = "queue_items s ! c" and ?s' = "apply_reorder k n s"
    let ?pos = "position_of (queue (playback ?s')) (item_id ?it)"
    have set_eq: "set (queue_items ?s') = set (queue_items s)"
      by (metis apply_reorder_mset mset_eq_setD)
    have cur: "cursor ?s' = ?pos"
      using \<open>position_of _ _ = Some p\<close> Some c
      by (simp add: apply_reorder_def Let_def nth_opt_def position_of_def)
    have "item_id ?it \<in> item_id ` set (queue_items ?s')" using c set_eq by simp
    then obtain j where j: "?pos = Some j"
      using position_of_queue_None [of ?s' "item_id ?it"] by fastforce
    from position_of_queue_Some [OF j]
    have jj: "j < length (queue_items ?s')" "item_id (queue_items ?s' ! j) = item_id ?it" by auto
    then have "queue_items ?s' ! j \<in> set (queue_items s)" using set_eq nth_mem by blast
    from same_key_same_elem [OF _ this nth_mem [OF c] jj(2)] assms(2)
    have "queue_items ?s' ! j = ?it" by (simp add: ids_ok_def)
    with cur j jj Some c show ?thesis by (simp add: current_item_eq nth_opt_def)
  qed
qed

text \<open>Rewriting the upcoming half keeps history and the current item.\<close>

lemma apply_replace_prefix:
  assumes "cursor_ok s"
  shows "take (case cursor s of None \<Rightarrow> 0 | Some i \<Rightarrow> i + 1) (queue_items (apply_replace_upcoming xs s)) =
    take (case cursor s of None \<Rightarrow> 0 | Some i \<Rightarrow> i + 1) (queue_items s)"
  using assms
  by (auto simp: apply_replace_upcoming_def Let_def cursor_ok_def min_def split: option.splits)

lemma apply_replace_current:
  assumes "cursor_ok s"
  shows "current_item (apply_replace_upcoming xs s) = current_item s"
  using assms
  by (auto simp: current_item_eq apply_replace_upcoming_def Let_def cursor_ok_def nth_opt_def
      nth_append split: option.splits)

text \<open>Exactly when an operation is rejected.\<close>

lemma apply_op_rejects_iff:
  "apply_op op now s = Inl e \<longleftrightarrow>
     (\<exists>i. op = SetNowPlaying (Some i) \<and> length (queue_items s) \<le> i
        \<and> e = NowPlayingOutOfBounds i (length (queue_items s)))
   \<or> (\<exists>xs a sid. op = StartSession xs a sid \<and>
        (xs = [] \<and> e = StartSessionEmpty
         \<or> xs \<noteq> [] \<and> length xs \<le> a \<and> e = NowPlayingOutOfBounds a (length xs)))"
  by (cases op) (auto simp: apply_op_def split: option.splits)

section \<open>The contract of a linearizer\<close>

text \<open>A replica sees everything but the server's wall-clock stamp on the session anchor.\<close>

definition forget_clock :: "sync_state \<Rightarrow> sync_state" where
  "forget_clock s = s\<lparr>playback := (playback s)\<lparr>session_anchor :=
     map_option (\<lambda>a. a\<lparr>anchor_started_ms := 0\<rparr>) (session_anchor (playback s))\<rparr>\<rparr>"

lemma forget_fields [simp]:
  "queue_items (forget_clock s) = queue_items s" "cursor (forget_clock s) = cursor s"
  "version (forget_clock s) = version s" "queue (playback (forget_clock s)) = queue (playback s)"
  by (simp_all add: forget_clock_def)

lemma forget_commutes:
  "forget_clock (set_items xs s) = set_items xs (forget_clock s)"
  "forget_clock (set_cursor c s) = set_cursor c (forget_clock s)"
  "forget_clock (s\<lparr>version := v\<rparr>) = (forget_clock s)\<lparr>version := v\<rparr>"
  by (simp_all add: forget_clock_def set_items_def set_cursor_def)

lemma forget_idem: "forget_clock (forget_clock s) = forget_clock s"
  by (simp add: forget_clock_def option.map_comp o_def)

lemma forget_remove: "forget_clock (apply_remove k s) = apply_remove k (forget_clock s)"
  by (simp add: apply_remove_def normalize_cursor_def Let_def forget_commutes
      split: option.splits)

lemma forget_reorder: "forget_clock (apply_reorder k n s) = apply_reorder k n (forget_clock s)"
  by (simp add: apply_reorder_def Let_def forget_commutes queue_of_set split: option.splits)

lemma forget_replace:
  "forget_clock (apply_replace_upcoming xs s) = apply_replace_upcoming xs (forget_clock s)"
  by (simp add: apply_replace_upcoming_def Let_def forget_commutes)

lemma forget_apply_match:
  "map_sum id forget_clock (apply_match op m (forget_clock s)) =
   map_sum id forget_clock (apply_match op n s)"
proof (cases op)
  case (Push k t src)
  then show ?thesis by (simp add: forget_commutes forget_idem)
next
  case (Remove k)
  then show ?thesis by (simp add: forget_remove forget_idem)
next
  case (Reorder k i)
  then show ?thesis by (simp add: forget_reorder forget_idem)
next
  case (SetNowPlaying i)
  then show ?thesis by (simp add: forget_commutes forget_idem split: option.splits)
next
  case (ReplaceUpcoming xs)
  then show ?thesis by (simp add: forget_replace forget_idem)
qed (simp_all add: forget_clock_def option.map_comp o_def)

lemma forget_apply_op:
  assumes "forget_clock s = forget_clock t"
  shows "map_sum id forget_clock (apply_op op n s) = map_sum id forget_clock (apply_op op m t)"
proof -
  have "map_sum id forget_clock (apply_op op i u) =
      map_sum id (\<lambda>v. v\<lparr>version := version v + 1\<rparr>) (map_sum id forget_clock (apply_match op i u))"
    for i u
    by (simp add: apply_op_def forget_commutes split: sum.splits)
  moreover have "map_sum id forget_clock (apply_match op n s) =
      map_sum id forget_clock (apply_match op m t)"
    using forget_apply_match [of op 0 s n] forget_apply_match [of op 0 t m] assms by simp
  ultimately show ?thesis by (simp only:)
qed

interpretation sync: linearizer apply_op version forget_clock
proof
  show "apply_op op n s = Inr s' \<Longrightarrow> version s' = version s + 1" for op n s s'
    by (rule apply_op_version)
  show "\<exists>t'. apply_op op m t = Inr t' \<and> forget_clock t' = forget_clock s'"
    if "forget_clock s = forget_clock t" "apply_op op n s = Inr s'" for s t op n s' m
    using forget_apply_op [OF that(1), of op n m] that(2) by (cases "apply_op op m t") auto
  show "forget_clock s = forget_clock t \<Longrightarrow> version s = version t" for s t
    by (metis forget_fields(3))
qed

section \<open>Properties\<close>


definition demo_items :: "queue_item list" where
  "demo_items = [\<lparr>item_id = QueueItemId ''i1'', track_id = TrackId ''t1'', source = None\<rparr>,
     \<lparr>item_id = QueueItemId ''i2'', track_id = TrackId ''t2'', source = None\<rparr>,
     \<lparr>item_id = QueueItemId ''i3'', track_id = TrackId ''t3'', source = None\<rparr>]"

definition demo_ops :: "(sync_op \<times> int) list" where
  "demo_ops = [(StartSession demo_items 1 (SessionId ''s''), 10),
     (Reorder (QueueItemId ''i2'') 2, 20), (Remove (QueueItemId ''i1''), 30)]"


text \<open>
  C4. The current item survives every edit that is not about it: an accepted operation other
  than \<open>SetNowPlaying\<close>, \<open>Clear\<close>, \<open>StartSession\<close> and the removal of the current item leaves the
  room playing the same item, wherever the edit moved it in the queue.
\<close>

fun moves_cursor :: "sync_state \<Rightarrow> sync_op \<Rightarrow> bool" where
  "moves_cursor s (SetNowPlaying _) = True"
| "moves_cursor s Clear = True"
| "moves_cursor s (StartSession _ _ _) = True"
| "moves_cursor s (Remove k) =
     (case cursor s of None \<Rightarrow> False | Some i \<Rightarrow> position_of (queue (playback s)) k = Some i)"
| "moves_cursor s _ = False"

lemma current_item_version [simp]: "current_item (s\<lparr>version := v\<rparr>) = current_item s"
  by (simp add: current_item_def)

lemma current_item_match:
  assumes ok: "cursor_ok s" "ids_ok s" and step: "apply_match op now s = Inr s'"
    and stays: "\<not> moves_cursor s op" "cursor s \<noteq> None"
  shows "current_item s' = current_item s"
proof (cases op)
  case (Push k t src)
  with step ok(1) show ?thesis
    by (auto simp: current_item_eq cursor_ok_def nth_opt_def nth_append split: if_splits option.splits)
next
  case (Remove k)
  obtain c where c: "cursor s = Some c" using stays(2) by auto
  show ?thesis
  proof (cases "position_of (queue (playback s)) k")
    case None
    with step Remove show ?thesis by (simp add: apply_remove_def)
  next
    case (Some p)
    with apply_remove_current [OF ok(1) c Some] stays(1) step Remove c show ?thesis by auto
  qed
next
  case (Reorder k n)
  with step apply_reorder_current [OF ok] show ?thesis by auto
next
  case (ReplaceUpcoming xs)
  with step apply_replace_current [OF ok(1)] show ?thesis by auto
qed (use step stays in \<open>auto simp: current_item_eq\<close>)

theorem edits_keep_current_item:
  assumes "cursor_ok s" "ids_ok s" "cursor s \<noteq> None"
    and "apply_op op now s = Inr s'" "\<not> moves_cursor s op"
  shows "current_item s' = current_item s"
  using assms current_item_match [of s op now]
  by (auto simp: apply_op_def split: sum.splits)

definition demo_state :: sync_state where
  "demo_state = default_sync_state\<lparr>playback := default_playback\<lparr>queue := \<lparr>items = demo_items\<rparr>,
     now_playing_index := Some 2\<rparr>\<rparr>"

lemma demo_state_fields [simp]:
  "queue_items demo_state = demo_items" "cursor demo_state = Some 2"
  by (simp_all add: demo_state_def)

theorem edits_keep_current_item_witness:
  "\<exists>s'. apply_op (Reorder (QueueItemId ''i3'') 0) 5 demo_state = Inr s'
     \<and> current_item s' = current_item demo_state \<and> cursor s' = Some 0"
proof -
  obtain s' where s': "apply_op (Reorder (QueueItemId ''i3'') 0) 5 demo_state = Inr s'"
    by (simp add: apply_op_def)
  have "current_item s' = current_item demo_state"
    by (rule edits_keep_current_item [OF _ _ _ s'])
      (simp_all add: cursor_ok_def ids_ok_def demo_items_def)
  moreover have "cursor s' = Some 0"
    using s' by (auto simp: apply_op_def demo_state_def demo_items_def apply_reorder_def Let_def
        position_of_def nth_opt_def remove_at_def insert_at_def set_items_def)
  ultimately show ?thesis using s' by blast
qed

text \<open>
  \<open>Reorder\<close> of an item that is in the queue permutes the queue, puts the item at the
  requested index clamped to the end, and keeps all others in their order; of an unknown item
  it changes nothing but the version.
\<close>

theorem reorder_result:
  assumes "ids_ok s" "k < length (queue_items s)"
  shows "\<exists>s'. apply_op (Reorder (item_id (queue_items s ! k)) n) now s = Inr s'
     \<and> mset (queue_items s') = mset (queue_items s)
     \<and> queue_items s' ! min n (length (queue_items s) - 1) = queue_items s ! k
     \<and> remove_at (min n (length (queue_items s) - 1)) (queue_items s') = remove_at k (queue_items s)"
proof -
  let ?t = "min n (length (queue_items s) - 1)" and ?r = "apply_reorder (item_id (queue_items s ! k)) n s"
  note p = position_of_queue_nth [OF assms]
  have t: "?t \<le> length (remove_at k (queue_items s))" using assms(2) by simp
  have items': "queue_items ?r = insert_at ?t [queue_items s ! k] (remove_at k (queue_items s))"
    by (rule apply_reorder_items [OF p])
  have "queue_items ?r ! ?t = queue_items s ! k"
    using apply_reorder_lands [OF p, of n] by (simp add: nth_opt_Some)
  moreover have "remove_at ?t (queue_items ?r) = remove_at k (queue_items s)"
    unfolding items' by (rule remove_insert_at [OF t])
  moreover have "apply_op (Reorder (item_id (queue_items s ! k)) n) now s =
      Inr (?r\<lparr>version := version ?r + 1\<rparr>)"
    by (simp add: apply_op_def)
  ultimately show ?thesis
    by (intro exI [of _ "?r\<lparr>version := version ?r + 1\<rparr>"]) (simp only: queue_items_set apply_reorder_mset simp_thms)
qed

theorem reorder_result_witness:
  "\<exists>s'. apply_op (Reorder (item_id (queue_items demo_state ! 0)) 7) 0 demo_state = Inr s'
     \<and> queue_items s' ! 2 = demo_items ! 0"
  using reorder_result [of demo_state 0 7 0]
  by (auto simp: ids_ok_def demo_items_def numeral_2_eq_2)

text \<open>
  An operation is rejected in exactly two situations, with the error that names it: a cursor
  set past the end of the queue, and a session with no items or an anchor outside them. Every
  other operation is accepted and moves the version by one (modulo \<open>2 ^ 64\<close>).
\<close>

fun op_rejection :: "sync_op \<Rightarrow> sync_state \<Rightarrow> apply_error option" where
  "op_rejection (SetNowPlaying (Some i)) s =
     (if length (queue_items s) \<le> i then Some (NowPlayingOutOfBounds i (length (queue_items s))) else None)"
| "op_rejection (StartSession xs a sid) s =
     (if xs = [] then Some StartSessionEmpty
      else if length xs \<le> a then Some (NowPlayingOutOfBounds a (length xs)) else None)"
| "op_rejection _ s = None"

theorem apply_op_outcome:
  "case op_rejection op s of
     Some e \<Rightarrow> apply_op op now s = Inl e
   | None \<Rightarrow> (\<exists>s'. apply_op op now s = Inr s' \<and> version s' = version s + 1)"
  by (cases "(op, s)" rule: op_rejection.cases) (auto simp: apply_op_def)

text \<open>
  A \<open>StartSession\<close> whose item list repeats an id is accepted as it is, so the queue does hold
  the same id twice, although the \<open>ReplaceUpcoming\<close> comment in \<open>ops.rs\<close> relies on it never doing
  so; a later \<open>Remove\<close> of that id then takes out one occurrence and leaves the other.
\<close>

theorem start_session_admits_duplicate_ids:
  "\<exists>op s1 s2 k. apply_op op 0 default_sync_state = Inr s1 \<and> \<not> ids_ok s1
     \<and> apply_op (Remove k) 0 s1 = Inr s2 \<and> k \<in> item_id ` set (queue_items s2)"
proof -
  let ?it = "hd demo_items"
  let ?op = "StartSession [?it, ?it] 0 (SessionId ''s'')"
  obtain s1 where s1: "apply_op ?op 0 default_sync_state = Inr s1" "queue_items s1 = [?it, ?it]"
    by (auto simp: apply_op_def)
  have "queue_items (apply_remove (item_id ?it) s1) = [?it]"
    using s1(2) apply_remove_items [of s1 "item_id ?it" 0]
    by (simp add: position_of_def remove_at_def)
  moreover have "\<not> ids_ok s1" using s1(2) by (simp add: ids_ok_def)
  moreover have "\<exists>s2. apply_op (Remove (item_id ?it)) 0 s1 = Inr s2
      \<and> queue_items s2 = queue_items (apply_remove (item_id ?it) s1)"
    by (simp add: apply_op_def)
  ultimately show ?thesis using s1(1) by (metis image_eqI list.set_intros(1))
qed

end
