(* ===== verification/Play_Queue.thy ===== *)
theory Play_Queue
  imports Sync_State
begin

text \<open>
  The local transport queue of \<open>music-player/src/queue.rs\<close>: a list of tracks and a cursor.
  Every method is one function; methods that return the track they landed on return it beside
  the new queue.

  Lemmas: the cursor stays in range (\<open>pq_ok\<close>), what each method does to the current track, and
  how the local queue relates to the shared one: \<open>move_item\<close> does what the protocol's
  \<open>Reorder\<close> does, \<open>remove\<close> agrees with \<open>Remove\<close> except that it clamps the cursor where the
  protocol clears it.
\<close>

record queued_track =
  qt_id :: string
  qt_title :: string
  qt_artist :: "string option"
  qt_album :: "string option"
  qt_artist_id :: "string option"
  qt_album_id :: "string option"
  qt_duration :: "nat option"

record play_queue =
  pq_items :: "queued_track list"
  pq_current :: "nat option"

definition pq_new :: play_queue where
  "pq_new = \<lparr>pq_items = [], pq_current = None\<rparr>"

definition current :: "play_queue \<Rightarrow> queued_track option" where
  "current q = Option.bind (pq_current q) (nth_opt (pq_items q))"

definition replace :: "queued_track list \<Rightarrow> nat \<Rightarrow> play_queue \<Rightarrow> queued_track option \<times> play_queue" where
  "replace xs start q =
     (let q1 = q\<lparr>pq_items := xs\<rparr>;
          q2 = q1\<lparr>pq_current := if pq_items q1 = [] then None
                               else Some (min start (length (pq_items q1) - 1))\<rparr>
      in (current q2, q2))"

definition enqueue :: "queued_track list \<Rightarrow> play_queue \<Rightarrow> play_queue" where
  "enqueue xs q = q\<lparr>pq_items := pq_items q @ xs\<rparr>"

definition enqueue_next :: "queued_track list \<Rightarrow> play_queue \<Rightarrow> play_queue" where
  "enqueue_next xs q =
     (let at = (case pq_current q of None \<Rightarrow> 0 | Some i \<Rightarrow> i + 1)
      in q\<lparr>pq_items := insert_at at xs (pq_items q)\<rparr>)"

definition remove :: "nat \<Rightarrow> play_queue \<Rightarrow> play_queue" where
  "remove index q =
     (if length (pq_items q) \<le> index then q
      else let xs = remove_at index (pq_items q)
           in q\<lparr>pq_items := xs,
                pq_current := (case pq_current q of
                   Some c \<Rightarrow> if xs = [] then None
                             else if index < c then Some (c - 1)
                             else Some (min c (length xs - 1))
                 | None \<Rightarrow> None)\<rparr>)"

definition clear :: "play_queue \<Rightarrow> play_queue" where
  "clear q = q\<lparr>pq_items := [], pq_current := None\<rparr>"

definition advance :: "play_queue \<Rightarrow> queued_track option \<times> play_queue" where
  "advance q =
     (case pq_current q of
        Some i \<Rightarrow> if i + 1 < length (pq_items q)
                  then let q' = q\<lparr>pq_current := Some (i + 1)\<rparr> in (current q', q')
                  else (None, q\<lparr>pq_current := None\<rparr>)
      | None \<Rightarrow> (None, q\<lparr>pq_current := None\<rparr>))"

definition previous :: "play_queue \<Rightarrow> queued_track option \<times> play_queue" where
  "previous q =
     (case pq_current q of
        Some i \<Rightarrow> let q' = q\<lparr>pq_current := Some (i - 1)\<rparr> in (current q', q')
      | None \<Rightarrow> if pq_items q \<noteq> []
                then let q' = q\<lparr>pq_current := Some (length (pq_items q) - 1)\<rparr> in (current q', q')
                else (None, q))"

definition pq_set_items :: "queued_track list \<Rightarrow> nat option \<Rightarrow> play_queue \<Rightarrow> play_queue" where
  "pq_set_items xs c q =
     q\<lparr>pq_items := xs,
       pq_current := (case c of Some i \<Rightarrow> if i < length xs then Some i else None | None \<Rightarrow> None)\<rparr>"

definition move_item :: "nat \<Rightarrow> nat \<Rightarrow> play_queue \<Rightarrow> play_queue" where
  "move_item src to q =
     (if length (pq_items q) \<le> src then q
      else let item = pq_items q ! src;
               removed = remove_at src (pq_items q);
               target = min to (length removed)
           in q\<lparr>pq_items := insert_at target [item] removed,
                pq_current := map_option (\<lambda>c.
                  if c = src then target
                  else let after_remove = if src < c then c - 1 else c
                       in if target \<le> after_remove then after_remove + 1 else after_remove)
                  (pq_current q)\<rparr>)"

definition jump :: "nat \<Rightarrow> play_queue \<Rightarrow> queued_track option \<times> play_queue" where
  "jump index q =
     (if index < length (pq_items q)
      then let q' = q\<lparr>pq_current := Some index\<rparr> in (current q', q')
      else (None, q))"

definition next_up :: "play_queue \<Rightarrow> queued_track option" where
  "next_up q = Option.bind (pq_current q) (\<lambda>i. nth_opt (pq_items q) (i + 1))"

section \<open>The cursor stays in range\<close>

definition pq_ok :: "play_queue \<Rightarrow> bool" where
  "pq_ok q \<longleftrightarrow> (case pq_current q of None \<Rightarrow> True | Some i \<Rightarrow> i < length (pq_items q))"

lemma pq_ok_new [simp]: "pq_ok pq_new"
  by (simp add: pq_ok_def pq_new_def)

lemma pq_ok_ops:
  "pq_ok (snd (replace xs start q))"
  "pq_ok (pq_set_items xs c q)"
  "pq_ok (clear q)"
  "pq_ok (snd (advance q))"
  "pq_ok q \<Longrightarrow> pq_ok (enqueue xs q)"
  "pq_ok q \<Longrightarrow> pq_ok (enqueue_next xs q)"
  "pq_ok q \<Longrightarrow> pq_ok (remove i q)"
  "pq_ok q \<Longrightarrow> pq_ok (snd (previous q))"
  "pq_ok q \<Longrightarrow> pq_ok (move_item i j q)"
  "pq_ok q \<Longrightarrow> pq_ok (snd (jump i q))"
  by (auto simp: pq_ok_def replace_def pq_set_items_def clear_def advance_def enqueue_def
      enqueue_next_def remove_def previous_def move_item_def jump_def Let_def min_def
      simp flip: length_greater_0_conv split: option.splits if_splits)

lemma current_ok:
  "pq_ok q \<Longrightarrow> current q = map_option (\<lambda>i. pq_items q ! i) (pq_current q)"
  by (auto simp: current_def pq_ok_def nth_opt_def split: option.splits)

section \<open>What the methods do to the current track\<close>

lemma advance_result:
  "fst (advance q) = (case pq_current q of None \<Rightarrow> None | Some i \<Rightarrow> nth_opt (pq_items q) (Suc i))"
  "pq_items (snd (advance q)) = pq_items q"
  by (auto simp: advance_def current_def Let_def nth_opt_def split: option.splits)

lemma advance_current: "current (snd (advance q)) = fst (advance q)"
  by (auto simp: advance_def current_def Let_def split: option.splits)

lemma next_up_advance: "next_up q = fst (advance q)"
  by (auto simp: next_up_def advance_result split: option.splits)

text \<open>\<open>previous\<close> undoes \<open>advance\<close>, also from a finished queue.\<close>

lemma previous_advance:
  assumes "pq_ok q" "pq_current q = Some i"
  shows "snd (previous (snd (advance q))) = q"
proof -
  have "i < length (pq_items q)" using assms by (simp add: pq_ok_def)
  then show ?thesis
    using assms(2) by (cases q) (auto simp: previous_def advance_def Let_def)
qed

text \<open>Where a moved element and the others land.\<close>

definition moved_to :: "nat \<Rightarrow> nat \<Rightarrow> nat \<Rightarrow> nat" where
  "moved_to i t c =
     (if c = i then t
      else let a = if i < c then c - 1 else c in if t \<le> a then a + 1 else a)"

lemma moved_to_bound: "i < n \<Longrightarrow> c < n \<Longrightarrow> t < n \<Longrightarrow> moved_to i t c < n"
  by (auto simp: moved_to_def Let_def)

lemma nth_moved:
  assumes i: "i < length xs" and c: "c < length xs" and t: "t < length xs"
  shows "insert_at t [xs ! i] (remove_at i xs) ! moved_to i t c = xs ! c"
proof -
  have len: "length (remove_at i xs) = length xs - 1" using i by simp
  let ?m = "moved_to i t c"
  have "?m < length xs" by (rule moved_to_bound [OF i c t])
  then have "insert_at t [xs ! i] (remove_at i xs) ! ?m = (if ?m < t then remove_at i xs ! ?m
      else if ?m = t then xs ! i else remove_at i xs ! (?m - 1))"
    using nth_insert_at [of t "remove_at i xs" ?m "[xs ! i]"] len t by auto
  also have "\<dots> = xs ! c"
  proof (cases "c = i")
    case True
    then show ?thesis by (simp add: moved_to_def)
  next
    case False
    define a where "a = (if i < c then c - 1 else c)"
    have a: "remove_at i xs ! a = xs ! c"
      using False i c by (auto simp: a_def nth_remove_at)
    have "?m = (if t \<le> a then a + 1 else a)" using False by (simp add: moved_to_def a_def Let_def)
    with a show ?thesis by auto
  qed
  finally show ?thesis .
qed

lemma move_item_fields:
  fixes j :: nat
  assumes "i < length (pq_items q)"
  defines "t \<equiv> min j (length (pq_items q) - 1)"
  shows "pq_items (move_item i j q) = insert_at t [pq_items q ! i] (remove_at i (pq_items q))"
    and "pq_current (move_item i j q) = map_option (moved_to i t) (pq_current q)"
proof -
  have len: "length (remove_at i (pq_items q)) = length (pq_items q) - 1" using assms(1) by simp
  show "pq_items (move_item i j q) = insert_at t [pq_items q ! i] (remove_at i (pq_items q))"
    using assms(1) len by (simp add: move_item_def t_def Let_def)
  show "pq_current (move_item i j q) = map_option (moved_to i t) (pq_current q)"
    using assms(1)
    by (cases "pq_current q") (simp_all add: move_item_def t_def moved_to_def Let_def len)
qed

lemma move_item_current:
  assumes "pq_ok q"
  shows "current (move_item i j q) = current q"
proof (cases "i < length (pq_items q)")
  case False
  then show ?thesis by (simp add: move_item_def)
next
  case i: True
  show ?thesis
  proof (cases "pq_current q")
    case None
    with i show ?thesis by (simp add: current_def move_item_fields)
  next
    case (Some c)
    with assms have c: "c < length (pq_items q)" by (simp add: pq_ok_def)
    have t: "min j (length (pq_items q) - 1) < length (pq_items q)" using i by auto
    show ?thesis
      using i Some c moved_to_bound [OF i c t] nth_moved [OF i c t]
      by (simp add: current_def move_item_fields nth_opt_def)
  qed
qed

lemma move_item_mset: "mset (pq_items (move_item i j q)) = mset (pq_items q)"
proof (cases "i < length (pq_items q)")
  case True
  then have "pq_items q ! i \<in># mset (pq_items q)" by simp
  with True show ?thesis
    by (simp add: move_item_def Let_def mset_insert_at mset_remove_at)
qed (simp add: move_item_def)

lemma remove_current:
  assumes ok: "pq_ok q" and i: "i < length (pq_items q)" and c: "pq_current q = Some c"
  shows "current (remove i q) =
    (if i \<noteq> c then current q
     else if Suc c < length (pq_items q) then Some (pq_items q ! Suc c)
     else if c = 0 then None else Some (pq_items q ! (c - 1)))"
proof -
  have cl: "c < length (pq_items q)" using ok c by (simp add: pq_ok_def)
  have len: "length (remove_at i (pq_items q)) = length (pq_items q) - 1" using i by simp
  note nil = remove_at_Nil [OF i]
  show ?thesis
  proof (cases "Suc c < length (pq_items q)")
    case True
    then show ?thesis
      using i c cl len nil by (auto simp: remove_def current_def Let_def nth_opt_def nth_remove_at)
  next
    case False
    with cl have "length (pq_items q) = Suc c" by simp
    then show ?thesis
      using i c len nil by (auto simp: remove_def current_def Let_def nth_opt_def nth_remove_at)
  qed
qed

section \<open>The local queue and the shared one\<close>

text \<open>The local queue shows the shared state, each item resolved by \<open>f\<close>.\<close>

definition shows_room :: "(queue_item \<Rightarrow> queued_track) \<Rightarrow> sync_state \<Rightarrow> play_queue \<Rightarrow> bool" where
  "shows_room f s q \<longleftrightarrow> pq_items q = map f (queue_items s) \<and> pq_current q = cursor s"

lemma shows_room_ok: "shows_room f s q \<Longrightarrow> cursor_ok s \<Longrightarrow> pq_ok q"
  by (auto simp: shows_room_def cursor_ok_def pq_ok_def split: option.splits)

lemma shows_set_items:
  "cursor_ok s \<Longrightarrow> shows_room f s (pq_set_items (map f (queue_items s)) (cursor s) q)"
  by (auto simp: shows_room_def pq_set_items_def cursor_ok_def split: option.splits)

lemma move_item_shows_reorder:
  assumes s: "shows_room f s q" "cursor_ok s" "ids_ok s" and i: "i < length (queue_items s)"
  shows "shows_room f (apply_reorder (item_id (queue_items s ! i)) j s) (move_item i j q)"
proof -
  let ?s' = "apply_reorder (item_id (queue_items s ! i)) j s"
  let ?ys = "insert_at (min j (length (queue_items s) - 1)) [queue_items s ! i]
      (remove_at i (queue_items s))"
  have p: "position_of (queue (playback s)) (item_id (queue_items s ! i)) = Some i"
    by (rule position_of_queue_nth [OF s(3) i])
  have items': "queue_items ?s' = ?ys" by (rule apply_reorder_items [OF p])
  have len: "length (remove_at i (queue_items s)) = length (queue_items s) - 1" using i by simp
  have "pq_items (move_item i j q) = map f (queue_items ?s')"
    using s(1) i len unfolding items'
    by (simp add: move_item_def shows_room_def Let_def map_insert_at map_remove_at)
  moreover have "pq_current (move_item i j q) = cursor ?s'"
  proof (cases "cursor s")
    case None
    then show ?thesis
      using s(1) i p by (simp add: move_item_def shows_room_def Let_def apply_reorder_def)
  next
    case (Some c)
    with s(2) have c: "c < length (queue_items s)" by (simp add: cursor_ok_def)
    define t where "t = min j (length (queue_items s) - 1)"
    have t: "t < length (queue_items s)" using i by (auto simp: t_def)
    have m: "moved_to i t c < length (queue_items ?s')"
      using i t moved_to_bound [OF i c t] unfolding items' by (simp flip: t_def)
    have "queue_items ?s' ! moved_to i t c = queue_items s ! c"
      using nth_moved [OF i c t] unfolding items' t_def .
    with position_of_queue_nth [OF apply_reorder_ids_ok [OF s(3)] m]
    have "position_of (queue (playback ?s')) (item_id (queue_items s ! c)) = Some (moved_to i t c)"
      by simp
    moreover have "cursor ?s' = position_of (queue (playback ?s')) (item_id (queue_items s ! c))"
      using p Some c by (simp add: apply_reorder_def Let_def nth_opt_def position_of_def)
    moreover have "pq_current (move_item i j q) = Some (moved_to i t c)"
      using s(1) i Some by (simp add: move_item_fields shows_room_def t_def)
    ultimately show ?thesis by simp
  qed
  ultimately show ?thesis by (simp add: shows_room_def)
qed

lemma remove_shows_remove:
  assumes s: "shows_room f s q" "cursor_ok s" "ids_ok s" and i: "i < length (queue_items s)"
    and last: "\<not> (cursor s = Some i \<and> Suc i = length (queue_items s))"
  shows "shows_room f (apply_remove (item_id (queue_items s ! i)) s) (remove i q)"
proof -
  have p: "position_of (queue (playback s)) (item_id (queue_items s ! i)) = Some i"
    by (rule position_of_queue_nth [OF s(3) i])
  have len: "length (remove_at i (queue_items s)) = length (queue_items s) - 1" using i by simp
  have nil: "remove_at i (map f (queue_items s)) = [] \<longleftrightarrow> length (queue_items s) = 1"
    using i by (simp add: remove_at_Nil)
  show ?thesis
  proof (cases "cursor s")
    case None
    then show ?thesis
      using s(1) i p by (simp add: shows_room_def remove_def apply_remove_def Let_def
          normalize_cursor_def map_remove_at)
  next
    case (Some c)
    with s(2) have "c < length (queue_items s)" by (simp add: cursor_ok_def)
    with Some s(1) i p last len nil show ?thesis
      by (auto simp: shows_room_def remove_def apply_remove_def Let_def normalize_cursor_def
          map_remove_at min_def)
  qed
qed

end
