(* ===== verification/Binary_Float.thy ===== *)
theory Binary_Float
  imports Prelude Complex_Main
begin

text \<open>
  The floating-point arithmetic the recommender is written in: Rust's \<open>f32\<close> and \<open>f64\<close>, that is
  IEEE 754 binary32 and binary64 with rounding to nearest, ties to even. A value is \<open>NaN\<close>, an
  infinity or a finite number, which is the rational \<open>m * 2 ^ e\<close> it denotes; the two zeros are one
  value, since no comparison, branch or sum of the modelled code tells them apart. Each operation
  computes exactly on rationals and rounds once, as the standard asks (square root included, on
  exact integers). \<open>exp\<close>, \<open>ln\<close> and \<open>tanh\<close> are not determined by the standard; the code that uses
  them takes them as an argument.

  The second part is \<open>slice::sort_by\<close>: a stable sort by a comparator. Where the comparator is a
  total preorder the result is the one of the standard library; what the properties use of it
  (a permutation) holds for every comparator.
\<close>

section \<open>Values\<close>

datatype fp = NaN | Inf bool | Fin rat

text \<open>\<open>Inf True\<close> is positive infinity.\<close>

definition fp0 :: fp where "fp0 = Fin 0"
definition fp1 :: fp where "fp1 = Fin 1"

definition is_finite :: "fp \<Rightarrow> bool" where
  "is_finite x = (case x of Fin _ \<Rightarrow> True | _ \<Rightarrow> False)"

section \<open>Rounding\<close>

fun bit_len :: "nat \<Rightarrow> nat" where
  "bit_len n = (if n = 0 then 0 else Suc (bit_len (n div 2)))"

declare bit_len.simps [simp del]

definition two_powi :: "int \<Rightarrow> rat" where
  "two_powi e = (if 0 \<le> e then of_int (2 ^ nat e) else 1 / of_int (2 ^ nat (- e)))"

text \<open>The exponent of a positive rational: \<open>two_powi (ilog2 q) \<le> q < two_powi (ilog2 q + 1)\<close>.\<close>

definition ilog2 :: "rat \<Rightarrow> int" where
  "ilog2 q =
     (let (a, b) = quotient_of q;
          e = int (bit_len (nat a)) - int (bit_len (nat b))
      in if two_powi e \<le> q then e else e - 1)"

definition round_half_even :: "rat \<Rightarrow> int" where
  "round_half_even q =
     (let n = \<lfloor>q\<rfloor>; d = q - of_int n
      in if d < 1 / 2 then n else if 1 / 2 < d then n + 1 else if even n then n else n + 1)"

text \<open>A format is its precision in bits and its exponent range.\<close>

record fp_format =
  f_prec :: int
  f_emin :: int
  f_emax :: int

definition binary32 :: fp_format where
  "binary32 = \<lparr>f_prec = 24, f_emin = - 126, f_emax = 127\<rparr>"

definition binary64 :: fp_format where
  "binary64 = \<lparr>f_prec = 53, f_emin = - 1022, f_emax = 1023\<rparr>"

definition round_to :: "fp_format \<Rightarrow> rat \<Rightarrow> fp" where
  "round_to f q =
     (if q = 0 then Fin 0
      else let e = max (f_emin f) (ilog2 \<bar>q\<bar>);
               u = two_powi (e - f_prec f + 1);
               y = of_int (round_half_even (q / u)) * u
           in if two_powi (f_emax f + 1) \<le> \<bar>y\<bar> then Inf (0 < q) else Fin y)"

section \<open>Arithmetic and comparison\<close>

definition fp_neg :: "fp \<Rightarrow> fp" where
  "fp_neg x = (case x of NaN \<Rightarrow> NaN | Inf s \<Rightarrow> Inf (\<not> s) | Fin q \<Rightarrow> Fin (- q))"

definition fp_add :: "fp_format \<Rightarrow> fp \<Rightarrow> fp \<Rightarrow> fp" where
  "fp_add f x y =
     (case (x, y) of
        (Fin a, Fin b) \<Rightarrow> round_to f (a + b)
      | (Inf s, Inf t) \<Rightarrow> if s = t then Inf s else NaN
      | (Inf s, Fin _) \<Rightarrow> Inf s
      | (Fin _, Inf t) \<Rightarrow> Inf t
      | _ \<Rightarrow> NaN)"

definition fp_sub :: "fp_format \<Rightarrow> fp \<Rightarrow> fp \<Rightarrow> fp" where
  "fp_sub f x y = fp_add f x (fp_neg y)"

definition fp_mul :: "fp_format \<Rightarrow> fp \<Rightarrow> fp \<Rightarrow> fp" where
  "fp_mul f x y =
     (case (x, y) of
        (Fin a, Fin b) \<Rightarrow> round_to f (a * b)
      | (Inf s, Inf t) \<Rightarrow> Inf (s = t)
      | (Inf s, Fin b) \<Rightarrow> if b = 0 then NaN else Inf (s = (0 < b))
      | (Fin a, Inf t) \<Rightarrow> if a = 0 then NaN else Inf (t = (0 < a))
      | _ \<Rightarrow> NaN)"

text \<open>Division by zero does not occur in the modelled code (each divisor is tested); it is \<open>NaN\<close>
  here, which is the value the unsigned zero leaves undetermined.\<close>

definition fp_div :: "fp_format \<Rightarrow> fp \<Rightarrow> fp \<Rightarrow> fp" where
  "fp_div f x y =
     (case (x, y) of
        (Fin a, Fin b) \<Rightarrow> if b = 0 then NaN else round_to f (a / b)
      | (Inf s, Fin b) \<Rightarrow> if b = 0 then NaN else Inf (s = (0 < b))
      | (Fin _, Inf _) \<Rightarrow> Fin 0
      | _ \<Rightarrow> NaN)"

fun isqrt :: "nat \<Rightarrow> nat" where
  "isqrt n =
     (if n = 0 then 0
      else let r = 2 * isqrt (n div 4) in if (r + 1) * (r + 1) \<le> n then r + 1 else r)"

declare isqrt.simps [simp del]

text \<open>The square root of \<open>q\<close> lies in \<open>[n * u, (n + 1) * u)\<close> for the integer square root \<open>n\<close> of
  \<open>q / u\<^sup>2\<close>; comparing \<open>q / u\<^sup>2\<close> with \<open>(n + 1/2)\<^sup>2\<close> rounds it exactly.\<close>

definition fp_sqrt :: "fp_format \<Rightarrow> fp \<Rightarrow> fp" where
  "fp_sqrt f x =
     (case x of
        NaN \<Rightarrow> NaN
      | Inf s \<Rightarrow> if s then Inf True else NaN
      | Fin q \<Rightarrow>
          if q < 0 then NaN
          else if q = 0 then Fin 0
          else let e = ilog2 q div 2;
                   u = two_powi (e - f_prec f + 1);
                   v = q / (u * u);
                   n = isqrt (nat \<lfloor>v\<rfloor>);
                   h = (of_nat n + 1 / 2) * (of_nat n + 1 / 2)
               in Fin (u * of_nat (if v < h then n else if h < v then n + 1
                                   else if even n then n else n + 1)))"

text \<open>\<open>partial_cmp\<close>, and the relational operators, which are false on a \<open>NaN\<close>.\<close>

datatype ordering = Less | Equal | Greater

definition fp_cmp :: "fp \<Rightarrow> fp \<Rightarrow> ordering option" where
  "fp_cmp x y =
     (case (x, y) of
        (NaN, _) \<Rightarrow> None
      | (_, NaN) \<Rightarrow> None
      | (Inf s, Inf t) \<Rightarrow> Some (if s = t then Equal else if t then Less else Greater)
      | (Inf s, Fin _) \<Rightarrow> Some (if s then Greater else Less)
      | (Fin _, Inf t) \<Rightarrow> Some (if t then Less else Greater)
      | (Fin a, Fin b) \<Rightarrow> Some (if a < b then Less else if b < a then Greater else Equal))"

definition fp_less :: "fp \<Rightarrow> fp \<Rightarrow> bool" where
  "fp_less x y \<longleftrightarrow> fp_cmp x y = Some Less"

definition fp_le :: "fp \<Rightarrow> fp \<Rightarrow> bool" where
  "fp_le x y \<longleftrightarrow> fp_cmp x y = Some Less \<or> fp_cmp x y = Some Equal"

definition fp_eq :: "fp \<Rightarrow> fp \<Rightarrow> bool" where
  "fp_eq x y \<longleftrightarrow> fp_cmp x y = Some Equal"

text \<open>\<open>f32::max\<close> and \<open>min\<close> ignore a \<open>NaN\<close>; \<open>clamp\<close> keeps it.\<close>

definition fp_max :: "fp \<Rightarrow> fp \<Rightarrow> fp" where
  "fp_max x y = (if x = NaN then y else if fp_less x y then y else x)"

definition fp_min :: "fp \<Rightarrow> fp \<Rightarrow> fp" where
  "fp_min x y = (if x = NaN then y else if fp_less y x then y else x)"

definition fp_clamp :: "fp \<Rightarrow> fp \<Rightarrow> fp \<Rightarrow> fp" where
  "fp_clamp x lo hi = (if fp_less x lo then lo else if fp_less hi x then hi else x)"

abbreviation add32 :: "fp \<Rightarrow> fp \<Rightarrow> fp" where "add32 \<equiv> fp_add binary32"
abbreviation sub32 :: "fp \<Rightarrow> fp \<Rightarrow> fp" where "sub32 \<equiv> fp_sub binary32"
abbreviation mul32 :: "fp \<Rightarrow> fp \<Rightarrow> fp" where "mul32 \<equiv> fp_mul binary32"
abbreviation div32 :: "fp \<Rightarrow> fp \<Rightarrow> fp" where "div32 \<equiv> fp_div binary32"

text \<open>A literal such as \<open>0.15\<close>, \<open>n as f32\<close>, and the casts between the two formats.\<close>

definition lit32 :: "rat \<Rightarrow> fp" where
  "lit32 q = round_to binary32 q"

definition fp_cast :: "fp_format \<Rightarrow> fp \<Rightarrow> fp" where
  "fp_cast f x = (case x of Fin q \<Rightarrow> round_to f q | _ \<Rightarrow> x)"

text \<open>\<open>f32::from_bits\<close>.\<close>

definition decode32 :: "32 word \<Rightarrow> fp" where
  "decode32 w =
     (let s = drop_bit 31 w = 1;
          e = int (unat (take_bit 8 (drop_bit 23 w)));
          m = int (unat (take_bit 23 w));
          q = (if e = 0 then of_int m * two_powi (- 149)
               else of_int (m + 2 ^ 23) * two_powi (e - 150))
      in if e = 255 then (if m = 0 then Inf (\<not> s) else NaN) else Fin (if s then - q else q))"

section \<open>Facts about the comparison\<close>

lemma fp_cmp_self: "fp_cmp x x = (if x = NaN then None else Some Equal)"
  by (cases x) (auto simp: fp_cmp_def)

lemma fp_cmp_None: "fp_cmp x y = None \<longleftrightarrow> x = NaN \<or> y = NaN"
  by (cases x; cases y) (auto simp: fp_cmp_def)

lemma fp_cmp_Equal: "fp_cmp x y = Some Equal \<longleftrightarrow> x = y \<and> x \<noteq> NaN"
  by (cases x; cases y) (auto simp: fp_cmp_def)

lemma fp_cmp_swap: "fp_cmp x y = Some Less \<longleftrightarrow> fp_cmp y x = Some Greater"
  by (cases x; cases y) (auto simp: fp_cmp_def)

lemma fp_less_trans: "fp_less x y \<Longrightarrow> fp_less y z \<Longrightarrow> fp_less x z"
  by (cases x; cases y; cases z) (auto simp: fp_less_def fp_cmp_def split: if_splits)

lemma fp_le_trans: "fp_le x y \<Longrightarrow> fp_le y z \<Longrightarrow> fp_le x z"
  by (cases x; cases y; cases z) (auto simp: fp_le_def fp_cmp_def split: if_splits)

lemma fp_le_linear: "x \<noteq> NaN \<Longrightarrow> y \<noteq> NaN \<Longrightarrow> fp_le x y \<or> fp_less y x"
  by (cases x; cases y) (auto simp: fp_le_def fp_less_def fp_cmp_def split: if_splits)

lemma isqrt_bounds: "isqrt n * isqrt n \<le> n \<and> n < (isqrt n + 1) * (isqrt n + 1)"
proof (induction n rule: isqrt.induct)
  case (1 n)
  show ?case
  proof (cases "n = 0")
    case True
    then show ?thesis by (simp add: isqrt.simps)
  next
    case False
    define k where "k = isqrt (n div 4)"
    have k: "k * k \<le> n div 4" "n div 4 < (k + 1) * (k + 1)"
      using "1.IH" [OF False] by (simp_all add: k_def)
    have "4 * (k * k) \<le> n" using k(1) by (simp add: less_eq_div_iff_mult_less_eq)
    moreover have "n < 4 * ((k + 1) * (k + 1))"
      using k(2) by (simp add: div_less_iff_less_mult)
    ultimately have "2 * k * (2 * k) \<le> n" "n < (2 * k + 2) * (2 * k + 2)"
      by (simp_all add: algebra_simps)
    then show ?thesis
      using False by (auto simp: isqrt.simps [of n] k_def [symmetric] Let_def algebra_simps)
  qed
qed

section \<open>Stable sorting by a comparator\<close>

fun insert_by :: "('a \<Rightarrow> 'a \<Rightarrow> ordering) \<Rightarrow> 'a \<Rightarrow> 'a list \<Rightarrow> 'a list" where
  "insert_by cmp x [] = [x]"
| "insert_by cmp x (y # ys) =
     (if cmp x y = Greater then y # insert_by cmp x ys else x # y # ys)"

definition sort_by :: "('a \<Rightarrow> 'a \<Rightarrow> ordering) \<Rightarrow> 'a list \<Rightarrow> 'a list" where
  "sort_by cmp xs = foldr (insert_by cmp) xs []"

text \<open>\<open>Ordering::then_with\<close>, \<open>cmp\<close> on an \<open>Ord\<close> type, and the idiom
  \<open>partial_cmp(..).unwrap_or(Equal)\<close>.\<close>

definition then_with :: "ordering \<Rightarrow> ordering \<Rightarrow> ordering" where
  "then_with a b = (if a = Equal then b else a)"

definition ord_cmp :: "'a :: linorder \<Rightarrow> 'a \<Rightarrow> ordering" where
  "ord_cmp a b = (if a < b then Less else if b < a then Greater else Equal)"

definition fp_cmp_or_eq :: "fp \<Rightarrow> fp \<Rightarrow> ordering" where
  "fp_cmp_or_eq x y = (case fp_cmp x y of Some c \<Rightarrow> c | None \<Rightarrow> Equal)"

lemma mset_insert_by: "mset (insert_by cmp x xs) = add_mset x (mset xs)"
  by (induction xs) auto

lemma mset_sort_by: "mset (sort_by cmp xs) = mset xs"
  by (induction xs) (simp_all add: sort_by_def mset_insert_by)

lemma set_sort_by [simp]: "set (sort_by cmp xs) = set xs"
  by (metis mset_sort_by set_mset_mset)

lemma length_sort_by [simp]: "length (sort_by cmp xs) = length xs"
  by (metis mset_sort_by size_mset)

lemma distinct_map_sort_by: "distinct (map f (sort_by cmp xs)) \<longleftrightarrow> distinct (map f xs)"
proof -
  have "mset (map f (sort_by cmp xs)) = mset (map f xs)" by (simp add: mset_sort_by)
  then show ?thesis by (rule mset_eq_imp_distinct_iff)
qed

text \<open>A list whose neighbours are in order is left as it is: sorting is a no-op when the
  comparator finds nothing to swap.\<close>

lemma sort_by_ordered:
  "sorted_wrt (\<lambda>a b. cmp a b \<noteq> Greater) xs \<Longrightarrow> sort_by cmp xs = xs"
proof (induction xs)
  case (Cons x xs)
  then have "sort_by cmp (x # xs) = insert_by cmp x xs" by (simp add: sort_by_def)
  with Cons.prems show ?case by (cases xs) simp_all
qed (simp add: sort_by_def)

lemma insert_by_ordered:
  assumes total: "\<And>a b. cmp a b = Greater \<Longrightarrow> cmp b a \<noteq> Greater"
    and trans: "\<And>a b c. cmp a b \<noteq> Greater \<Longrightarrow> cmp b c \<noteq> Greater \<Longrightarrow> cmp a c \<noteq> Greater"
    and sorted: "sorted_wrt (\<lambda>a b. cmp a b \<noteq> Greater) xs"
  shows "sorted_wrt (\<lambda>a b. cmp a b \<noteq> Greater) (insert_by cmp x xs)"
  using sorted
proof (induction xs)
  case (Cons y ys)
  have set_ins: "set (insert_by cmp x ys) = insert x (set ys)"
    by (metis mset_insert_by set_mset_add_mset_insert set_mset_mset)
  show ?case
  proof (cases "cmp x y = Greater")
    case True
    with Cons total [OF True] show ?thesis by (auto simp: set_ins)
  next
    case False
    with Cons.prems trans [OF False] show ?thesis by auto
  qed
qed simp

lemma sort_by_sorted:
  assumes "\<And>a b. cmp a b = Greater \<Longrightarrow> cmp b a \<noteq> Greater"
    and "\<And>a b c. cmp a b \<noteq> Greater \<Longrightarrow> cmp b c \<noteq> Greater \<Longrightarrow> cmp a c \<noteq> Greater"
  shows "sorted_wrt (\<lambda>a b. cmp a b \<noteq> Greater) (sort_by cmp xs)"
proof (induction xs)
  case (Cons x xs)
  then show ?case using insert_by_ordered [of cmp, OF assms] by (simp add: sort_by_def)
qed (simp add: sort_by_def)

end
