(* ===== verification/Player.thy ===== *)
theory Player
  imports Binary_Float
begin

text \<open>
  The handle side of the audio thread (\<open>music-player/src/player.rs\<close>): its commands, the
  snapshot it publishes, its events, and the relative-seek arithmetic. A \<open>Duration\<close> is its
  number of nanoseconds, \<open>bytes\<close> a list of bytes. The handle's \<open>send\<close> puts a command on a
  channel: the model keeps the commands in the order they were sent. The thread itself drives
  \<open>rodio\<close> and is not modelled.
\<close>

record playback_snapshot =
  ps_track_id :: "string option"
  ps_position :: nat
  ps_duration :: "nat option"
  ps_playing :: bool
  ps_volume :: fp

definition default_snapshot :: playback_snapshot where
  "default_snapshot = \<lparr>ps_track_id = None, ps_position = 0, ps_duration = None, ps_playing = False,
     ps_volume = fp1\<rparr>"

datatype player_event = TrackEnded | PlayerError string

datatype cmd =
    CmdLoad "8 word list" string "nat option"
  | CmdPlay
  | CmdPause
  | CmdToggle
  | CmdSeek nat
  | CmdSetVolume fp
  | CmdStop

definition NANOS :: nat where
  "NANOS = 1000000000"

text \<open>\<open>Duration::MAX\<close>, where \<open>saturating_add\<close> saturates.\<close>

definition duration_max :: nat where
  "duration_max = (2 ^ 64 - 1) * NANOS + 999999999"

definition clamp_seek :: "nat \<Rightarrow> nat option \<Rightarrow> int \<Rightarrow> nat" where
  "clamp_seek position duration delta_secs =
     (let target = (if delta_secs < 0
                    then position - nat \<bar>delta_secs\<bar> * NANOS
                    else min (position + nat \<bar>delta_secs\<bar> * NANOS) duration_max)
      in case duration of None \<Rightarrow> target | Some d \<Rightarrow> min target d)"

text \<open>\<open>set_volume\<close>, up to the sending of the command.\<close>

definition set_volume_cmd :: "fp \<Rightarrow> cmd" where
  "set_volume_cmd v = CmdSetVolume (fp_clamp v fp0 (Fin 2))"

lemma clamp_seek_le_duration: "clamp_seek p (Some d) x \<le> d"
  by (simp add: clamp_seek_def Let_def)

lemma clamp_seek_mono:
  assumes "x \<le> y" "p \<le> duration_max"
  shows "clamp_seek p d x \<le> clamp_seek p d y"
proof -
  define A B where "A = nat \<bar>x\<bar> * NANOS" and "B = nat \<bar>y\<bar> * NANOS"
  have "y < 0 \<Longrightarrow> B \<le> A" "\<not> x < 0 \<Longrightarrow> A \<le> B"
    unfolding A_def B_def using assms(1) by (auto intro: mult_le_mono1)
  with assms show ?thesis
    unfolding clamp_seek_def Let_def A_def [symmetric] B_def [symmetric]
    by (cases d) auto
qed

end
