(* ===== verification/Tui_App.thy ===== *)
theory Tui_App
  imports Play_Queue Player
begin

text \<open>
  The playback part of the TUI state (\<open>music-cli/src/tui/state.rs\<close>), the listening-signal
  policy (\<open>signal.rs\<close>) and the effects the reducer asks for (\<open>msg.rs\<close>).

  \<open>app\<close> has the fields of \<open>App\<close> that playback, the sync room and autoplay use; the view state
  of the other sections is left out. \<open>ap_player\<close> is \<open>None\<close> without an audio device and
  otherwise the commands sent to the audio thread, in order. Sets are \<open>HashSet\<close>s, partial
  maps \<open>HashMap\<close>s. The clock, the id generator and the audio thread's snapshot are arguments
  or fields set from outside.

  Lemmas: when a scrobble or a skip is reported.
\<close>

section \<open>Ratings and listening signal (signal.rs)\<close>

datatype rating = Like | Dislike

datatype feedback_vote = VoteUp | VoteDown

definition MIN_SIGNAL_DURATION :: nat where
  "MIN_SIGNAL_DURATION = 30 * NANOS"

definition SUBMISSION_CAP :: nat where
  "SUBMISSION_CAP = 4 * 60 * NANOS"

record track_signal =
  sg_track_id :: string
  sg_now_playing_sent :: bool
  sg_submission_sent :: bool
  sg_abandoned :: bool

definition track_signal_new :: "string \<Rightarrow> track_signal" where
  "track_signal_new tid = \<lparr>sg_track_id = tid, sg_now_playing_sent = False,
     sg_submission_sent = False, sg_abandoned = False\<rparr>"

datatype scrobble_decision = ScrobbleNone | ScrobbleNowPlaying | ScrobbleSubmission

definition evaluate_scrobble :: "nat option \<Rightarrow> nat \<Rightarrow> track_signal \<Rightarrow> scrobble_decision" where
  "evaluate_scrobble duration position sig =
     (if sg_abandoned sig then ScrobbleNone
      else case duration of
        None \<Rightarrow> ScrobbleNone
      | Some d \<Rightarrow>
          if d < MIN_SIGNAL_DURATION then ScrobbleNone
          else if \<not> sg_now_playing_sent sig then ScrobbleNowPlaying
          else if \<not> sg_submission_sent sig \<and> min (d div 2) SUBMISSION_CAP \<le> position
          then ScrobbleSubmission
          else ScrobbleNone)"

definition evaluate_skip :: "nat option \<Rightarrow> nat \<Rightarrow> nat option" where
  "evaluate_skip duration position =
     (case duration of
        None \<Rightarrow> None
      | Some d \<Rightarrow>
          if d < MIN_SIGNAL_DURATION then None
          else if position = 0 then None
          else Some (min (min position d div 1000000) (2 ^ 64 - 1)))"

record pending_event =
  pe_event_type :: string
  pe_track_id :: string
  pe_occurred_at :: int
  pe_played_ms :: "nat option"
  pe_attempts :: "8 word"

definition MAX_EVENT_ATTEMPTS :: "8 word" where
  "MAX_EVENT_ATTEMPTS = 3"

definition pending_skip :: "string \<Rightarrow> nat \<Rightarrow> int \<Rightarrow> pending_event" where
  "pending_skip tid played_ms now = \<lparr>pe_event_type = ''skip'', pe_track_id = tid,
     pe_occurred_at = now, pe_played_ms = Some played_ms, pe_attempts = 0\<rparr>"

type_synonym ratings = "string \<rightharpoonup> rating"

definition is_disliked :: "queued_track \<Rightarrow> ratings \<Rightarrow> bool" where
  "is_disliked item rs \<longleftrightarrow>
     (let disliked = (\<lambda>k. rs k = Some Dislike)
      in disliked (qt_id item)
         \<or> (case qt_album_id item of Some k \<Rightarrow> disliked k | None \<Rightarrow> False)
         \<or> (case qt_artist_id item of Some k \<Rightarrow> disliked k | None \<Rightarrow> False))"

section \<open>The sync room's client state (state.rs)\<close>

datatype sync_phase = Disabled | Offline | Online

text \<open>\<open>advance_dir: i8\<close> is only ever assigned 1 and -1.\<close>

datatype advance_dir = Forward | Backward

record room_state =
  rs_phase :: sync_phase
  rs_room :: sync_state
  rs_meta :: "string \<rightharpoonup> queued_track"
  rs_hydrating :: "string set"
  rs_hydrate_failed :: "string set"
  rs_output_on :: bool
  rs_last_classified :: "string option"
  rs_direct_play :: "string option"
  rs_advance_dir :: advance_dir

definition room_state_new :: "bool \<Rightarrow> room_state" where
  "room_state_new gateway = \<lparr>rs_phase = (if gateway then Offline else Disabled),
     rs_room = default_sync_state, rs_meta = Map.empty, rs_hydrating = {},
     rs_hydrate_failed = {}, rs_output_on = False, rs_last_classified = None,
     rs_direct_play = None, rs_advance_dir = Forward\<rparr>"

definition online :: "room_state \<Rightarrow> bool" where
  "online r \<longleftrightarrow> rs_phase r = Online"

definition client_session_anchor :: "room_state \<Rightarrow> session_anchor option" where
  "client_session_anchor r = session_anchor (playback (rs_room r))"

definition cursor_track_id :: "room_state \<Rightarrow> string option" where
  "cursor_track_id r =
     (case cursor (rs_room r) of
        None \<Rightarrow> None
      | Some i \<Rightarrow> map_option (\<lambda>it. track_str (track_id it)) (nth_opt (queue_items (rs_room r)) i))"

record autoplay_state =
  au_enabled :: bool
  au_min_upcoming :: nat
  au_recommended :: "string set"
  au_pending_push :: "string set"
  au_votes :: "string \<rightharpoonup> feedback_vote"
  au_feedback_inflight :: "string set"
  au_inflight :: bool
  au_cooldown_until :: nat
  au_generation :: nat
  au_feedback_session :: string

definition autoplay_state_new :: "nat \<Rightarrow> string \<Rightarrow> autoplay_state" where
  "autoplay_state_new min_upcoming fresh_session = \<lparr>au_enabled = False,
     au_min_upcoming = min_upcoming, au_recommended = {}, au_pending_push = {},
     au_votes = Map.empty, au_feedback_inflight = {}, au_inflight = False,
     au_cooldown_until = 0, au_generation = 0, au_feedback_session = fresh_session\<rparr>"

record status_line =
  sl_text :: string
  sl_is_error :: bool
  sl_expires_at :: nat

record app =
  ap_tick :: nat
  ap_status :: "status_line option"
  ap_player :: "cmd list option"
  ap_no_audio_device :: bool
  ap_playback :: playback_snapshot
  ap_queue :: play_queue
  ap_queue_table :: "nat option"
  ap_prefetched :: "(string \<times> 8 word list) option"
  ap_pending_load :: "nat option"
  ap_ratings :: ratings
  ap_signal :: "track_signal option"
  ap_events_outbox :: "pending_event list"
  ap_events_inflight :: bool
  ap_events_enabled :: bool
  ap_sync :: room_state
  ap_autoplay :: autoplay_state

definition app_new :: "bool \<Rightarrow> bool \<Rightarrow> bool \<Rightarrow> nat \<Rightarrow> string \<Rightarrow> app" where
  "app_new has_player no_audio gateway min_upcoming fresh_session = \<lparr>ap_tick = 0, ap_status = None,
     ap_player = (if has_player then Some [] else None), ap_no_audio_device = no_audio,
     ap_playback = default_snapshot, ap_queue = pq_new, ap_queue_table = None,
     ap_prefetched = None, ap_pending_load = None, ap_ratings = Map.empty, ap_signal = None,
     ap_events_outbox = [], ap_events_inflight = False, ap_events_enabled = gateway,
     ap_sync = room_state_new gateway,
     ap_autoplay = autoplay_state_new min_upcoming fresh_session\<rparr>"

text \<open>The UTF-8 bytes of the em dash used in status lines.\<close>

definition EM_DASH :: string where
  "EM_DASH = [CHR 0xE2, CHR 0x80, CHR 0x94]"

definition set_status :: "string \<Rightarrow> bool \<Rightarrow> app \<Rightarrow> app" where
  "set_status txt is_error a =
     a\<lparr>ap_status := Some \<lparr>sl_text = txt, sl_is_error = is_error, sl_expires_at = ap_tick a + 20\<rparr>\<rparr>"

definition send_cmd :: "cmd \<Rightarrow> app \<Rightarrow> app" where
  "send_cmd c a = a\<lparr>ap_player := map_option (\<lambda>hist. hist @ [c]) (ap_player a)\<rparr>"

definition player_load :: "8 word list \<Rightarrow> string \<Rightarrow> nat option \<Rightarrow> app \<Rightarrow> app" where
  "player_load bytes tid duration = send_cmd (CmdLoad bytes tid duration)"

definition player_stop :: "app \<Rightarrow> app" where
  "player_stop = send_cmd CmdStop"

definition player_resume :: "app \<Rightarrow> app" where
  "player_resume = send_cmd CmdPlay"

definition player_pause :: "app \<Rightarrow> app" where
  "player_pause = send_cmd CmdPause"

definition player_seek_by :: "int \<Rightarrow> app \<Rightarrow> app" where
  "player_seek_by delta a =
     send_cmd (CmdSeek (clamp_seek (ps_position (ap_playback a)) (ps_duration (ap_playback a)) delta)) a"

definition player_seek_to :: "nat \<Rightarrow> app \<Rightarrow> app" where
  "player_seek_to pos = send_cmd (CmdSeek pos)"

definition player_set_volume :: "fp \<Rightarrow> app \<Rightarrow> app" where
  "player_set_volume v = send_cmd (set_volume_cmd v)"

definition to_queued :: "track \<Rightarrow> queued_track" where
  "to_queued t = \<lparr>qt_id = track_str (t_id t), qt_title = t_title t, qt_artist = t_artist_name t,
     qt_album = t_album_name t, qt_artist_id = map_option artist_str (t_artist_id t),
     qt_album_id = map_option album_str (t_album_id t), qt_duration = track_duration t\<rparr>"

section \<open>Effects (msg.rs)\<close>

datatype effect =
    Scrobble string bool
  | FlushEvents "pending_event list"
  | ResolveAudio nat string
  | PrefetchAudio string
  | SyncSubmit sync_op
  | SyncResync
  | HydrateTracks "string list"
  | AutoplayRefill "string list" nat "string set" "string option" string nat nat
  | SubmitFeedback string "feedback_vote option" string "feedback_vote option"
  | SetRating string string "rating option" "rating option"
  | RecommendNext string nat

type_synonym reducer = "app \<Rightarrow> effect list \<times> app"

section \<open>Field access\<close>

lemma set_status_fields [simp]:
  "ap_sync (set_status t e a) = ap_sync a" "ap_queue (set_status t e a) = ap_queue a"
  "ap_player (set_status t e a) = ap_player a" "ap_autoplay (set_status t e a) = ap_autoplay a"
  "ap_pending_load (set_status t e a) = ap_pending_load a"
  "ap_queue_table (set_status t e a) = ap_queue_table a"
  "ap_playback (set_status t e a) = ap_playback a"
  "ap_ratings (set_status t e a) = ap_ratings a"
  "ap_events_outbox (set_status t e a) = ap_events_outbox a"
  "ap_signal (set_status t e a) = ap_signal a"
  "ap_no_audio_device (set_status t e a) = ap_no_audio_device a"
  "ap_prefetched (set_status t e a) = ap_prefetched a"
  "ap_tick (set_status t e a) = ap_tick a"
  by (simp_all add: set_status_def)

lemma send_cmd_fields [simp]:
  "ap_sync (send_cmd c a) = ap_sync a" "ap_queue (send_cmd c a) = ap_queue a"
  "ap_autoplay (send_cmd c a) = ap_autoplay a" "ap_pending_load (send_cmd c a) = ap_pending_load a"
  "ap_queue_table (send_cmd c a) = ap_queue_table a" "ap_playback (send_cmd c a) = ap_playback a"
  "ap_ratings (send_cmd c a) = ap_ratings a" "ap_signal (send_cmd c a) = ap_signal a"
  "ap_events_outbox (send_cmd c a) = ap_events_outbox a"
  "ap_no_audio_device (send_cmd c a) = ap_no_audio_device a"
  "ap_prefetched (send_cmd c a) = ap_prefetched a"
  "ap_tick (send_cmd c a) = ap_tick a"
  by (simp_all add: send_cmd_def)

lemmas player_defs = player_load_def player_stop_def player_resume_def player_pause_def

section \<open>When a signal is emitted\<close>

lemma evaluate_scrobble_submission_iff:
  "evaluate_scrobble duration position sig = ScrobbleSubmission \<longleftrightarrow>
     (\<exists>d. duration = Some d \<and> MIN_SIGNAL_DURATION \<le> d \<and> \<not> sg_abandoned sig
        \<and> sg_now_playing_sent sig \<and> \<not> sg_submission_sent sig
        \<and> (d \<le> 2 * position + 1 \<or> SUBMISSION_CAP \<le> position))"
  by (auto simp: evaluate_scrobble_def min_le_iff_disj split: option.splits if_splits)

lemma evaluate_skip_bound:
  assumes "evaluate_skip duration position = Some ms"
  shows "\<exists>d. duration = Some d \<and> ms * 1000000 \<le> min position d"
proof -
  from assms obtain d where d: "duration = Some d"
      "ms = min (min position d div 1000000) (2 ^ 64 - 1)"
    by (auto simp: evaluate_skip_def split: option.splits if_splits)
  have "ms \<le> min position d div 1000000" unfolding d(2) by (rule min.cobounded1)
  then have "ms * 1000000 \<le> min position d div 1000000 * 1000000" by (rule mult_le_mono1)
  also have "\<dots> \<le> min position d" by (rule div_times_less_eq_dividend)
  finally show ?thesis using d(1) by blast
qed

end
