(* ===== verification/Tui_Room.thy ===== *)
theory Tui_Room
  imports Tui_App
begin

text \<open>
  The sync-room reducer of the TUI (\<open>music-cli/src/tui/update/room.rs\<close>) with the helpers it
  takes from \<open>playback.rs\<close> (\<open>note_abandonment\<close>, \<open>start_current\<close>, \<open>prefetch_next\<close>,
  \<open>move_target\<close>). Every reducer function maps the state to the effects it asks for and the new
  state. The wall clock is the argument \<open>now\<close>, the item ids drawn from the id generator are
  \<open>fresh 0, fresh 1, ...\<close>.

  Lemmas: server frames keep the replica at a state the server was in, whatever is lost,
  repeated or reordered (\<open>replica_step\<close>); the projection shows the replica; \<open>next_playable\<close>
  finds the nearest playable row; pushing with "play next" lands where the local queue's
  \<open>enqueue_next\<close> would put the tracks.
\<close>

section \<open>Helpers of playback.rs\<close>

datatype advance_cause = Manual | Natural

datatype move_kind = Down | Up | Top | AfterCursor

definition note_abandonment :: "int \<Rightarrow> string option \<Rightarrow> app \<Rightarrow> app" where
  "note_abandonment now next_id a =
     (if \<not> ap_events_enabled a then a
      else case ps_track_id (ap_playback a) of
        None \<Rightarrow> a
      | Some tid \<Rightarrow>
          if next_id = Some tid then a
          else if (case ap_signal a of Some s \<Rightarrow> sg_track_id s = tid \<and> sg_abandoned s | None \<Rightarrow> False)
          then a
          else
            let a1 = (case evaluate_skip (ps_duration (ap_playback a)) (ps_position (ap_playback a)) of
                        Some played_ms \<Rightarrow>
                          a\<lparr>ap_events_outbox := ap_events_outbox a @ [pending_skip tid played_ms now]\<rparr>
                      | None \<Rightarrow> a)
            in (case ap_signal a1 of
                  Some s \<Rightarrow>
                    if sg_track_id s = tid then a1\<lparr>ap_signal := Some (s\<lparr>sg_abandoned := True\<rparr>)\<rparr>
                    else a1\<lparr>ap_signal := Some ((track_signal_new tid)\<lparr>sg_abandoned := True\<rparr>)\<rparr>
                | None \<Rightarrow> a1\<lparr>ap_signal := Some ((track_signal_new tid)\<lparr>sg_abandoned := True\<rparr>)\<rparr>))"

definition prefetch_next :: "app \<Rightarrow> effect list" where
  "prefetch_next a =
     (case next_up (ap_queue a) of
        Some t \<Rightarrow>
          if (case ap_prefetched a of None \<Rightarrow> True | Some (tid, _) \<Rightarrow> tid \<noteq> qt_id t)
          then [PrefetchAudio (qt_id t)] else []
      | None \<Rightarrow> [])"

definition start_current :: reducer where
  "start_current a =
     (if ap_no_audio_device a
      then ([], set_status (''no audio device '' @ EM_DASH @ '' playback disabled'') True a)
      else case pq_current (ap_queue a) of
        None \<Rightarrow> ([], a)
      | Some idx \<Rightarrow>
          (case current (ap_queue a) of
             None \<Rightarrow> ([], a)
           | Some cur \<Rightarrow>
               (case ap_prefetched a of
                  Some (tid, bytes) \<Rightarrow>
                    if tid = qt_id cur
                    then let a1 = (player_load bytes tid (qt_duration cur) (a\<lparr>ap_prefetched := None\<rparr>))
                                    \<lparr>ap_pending_load := None\<rparr>
                         in (prefetch_next a1, a1)
                    else ([ResolveAudio idx (qt_id cur)], a\<lparr>ap_pending_load := Some idx\<rparr>)
                | None \<Rightarrow> ([ResolveAudio idx (qt_id cur)], a\<lparr>ap_pending_load := Some idx\<rparr>))))"

definition move_target :: "nat \<Rightarrow> nat \<Rightarrow> nat option \<Rightarrow> move_kind \<Rightarrow> nat option" where
  "move_target sel len c kind =
     (if len \<le> sel then None
      else case kind of
        Down \<Rightarrow> if sel + 1 < len then Some (sel + 1) else None
      | Up \<Rightarrow> if sel = 0 then None else Some (sel - 1)
      | Top \<Rightarrow> if 0 < sel then Some 0 else None
      | AfterCursor \<Rightarrow>
          (case c of
             None \<Rightarrow> None
           | Some c \<Rightarrow> if sel = c then None else Some (if sel < c then c else c + 1)))"

section \<open>Replica to local model\<close>

text \<open>Fields of the nested \<open>RoomState\<close> are written through \<open>upd_sync\<close>.\<close>

definition upd_sync :: "(room_state \<Rightarrow> room_state) \<Rightarrow> app \<Rightarrow> app" where
  "upd_sync f a = a\<lparr>ap_sync := f (ap_sync a)\<rparr>"

definition unhydrated :: "string \<Rightarrow> queued_track" where
  "unhydrated k = \<lparr>qt_id = k, qt_title = k, qt_artist = None, qt_album = None,
     qt_artist_id = None, qt_album_id = None, qt_duration = None\<rparr>"

definition resolve_item :: "(string \<rightharpoonup> queued_track) \<Rightarrow> queue_item \<Rightarrow> queued_track" where
  "resolve_item meta it =
     (case meta (track_str (track_id it)) of
        Some qt \<Rightarrow> qt
      | None \<Rightarrow> unhydrated (track_str (track_id it)))"

definition project :: "app \<Rightarrow> app" where
  "project a =
     (let room = rs_room (ap_sync a);
          xs = map (resolve_item (rs_meta (ap_sync a))) (queue_items room);
          q = pq_set_items xs (cursor room) (ap_queue a);
          len = length (pq_items q);
          table = (case ap_queue_table a of
              Some s \<Rightarrow> if len = 0 then None else if len \<le> s then Some (len - 1) else Some s
            | None \<Rightarrow> if 0 < len then Some 0 else None)
      in a\<lparr>ap_queue := q, ap_queue_table := table\<rparr>)"

definition track_disliked :: "app \<Rightarrow> string \<Rightarrow> bool" where
  "track_disliked a tid =
     (case rs_meta (ap_sync a) tid of
        Some qt \<Rightarrow> is_disliked qt (ap_ratings a)
      | None \<Rightarrow> ap_ratings a tid = Some Dislike)"

fun dir_step :: "advance_dir \<Rightarrow> int" where
  "dir_step Forward = 1"
| "dir_step Backward = -1"

function next_playable_loop :: "(nat \<Rightarrow> bool) \<Rightarrow> advance_dir \<Rightarrow> int \<Rightarrow> int \<Rightarrow> nat option" where
  "next_playable_loop disliked dir len idx =
     (let idx' = idx + dir_step dir
      in if idx' < 0 \<or> len \<le> idx' then None
         else if \<not> disliked (nat idx') then Some (nat idx')
         else next_playable_loop disliked dir len idx')"
  by auto
termination
  by (relation "measure (\<lambda>(disliked, dir, len, idx). case dir of Forward \<Rightarrow> nat (len - idx)
      | Backward \<Rightarrow> nat (idx + 1))")
    (auto split: advance_dir.splits)

declare next_playable_loop.simps [simp del]

definition next_playable :: "app \<Rightarrow> nat option" where
  "next_playable a =
     (let xs = queue_items (rs_room (ap_sync a))
      in case cursor (rs_room (ap_sync a)) of
           None \<Rightarrow> None
         | Some from \<Rightarrow>
             next_playable_loop (\<lambda>i. track_disliked a (track_str (track_id (xs ! i))))
               (rs_advance_dir (ap_sync a)) (int (length xs)) (int from))"

definition hydrate_missing :: reducer where
  "hydrate_missing a =
     (let s = ap_sync a;
          ids = dedup_by id {} (filter (\<lambda>k. rs_meta s k = None \<and> k \<notin> rs_hydrating s
                    \<and> k \<notin> rs_hydrate_failed s)
                  (map (\<lambda>it. track_str (track_id it)) (queue_items (rs_room s))))
      in if ids = [] then ([], a)
         else ([HydrateTracks ids],
               upd_sync (\<lambda>s. s\<lparr>rs_hydrating := rs_hydrating s \<union> set ids\<rparr>) a))"

text \<open>Part 2 of \<open>follow\<close>: drive local audio toward the cursor and \<open>is_playing\<close>.\<close>

definition drive_audio :: "string \<Rightarrow> reducer" where
  "drive_audio tid a =
     (if rs_output_on (ap_sync a) \<and> \<not> ap_no_audio_device a
      then
        let room_playing = is_playing (playback (rs_room (ap_sync a)));
            loaded = (ps_track_id (ap_playback a) = Some tid);
            loading = (case ap_pending_load a of
                None \<Rightarrow> False
              | Some idx \<Rightarrow> (case nth_opt (pq_items (ap_queue a)) idx of
                    None \<Rightarrow> False | Some t \<Rightarrow> qt_id t = tid))
        in if loaded then
             (if room_playing \<and> \<not> ps_playing (ap_playback a) then ([], player_resume a)
              else if \<not> room_playing \<and> ps_playing (ap_playback a) then ([], player_pause a)
              else ([], a))
           else if \<not> loading then
             (if room_playing then start_current a
              else if ps_track_id (ap_playback a) \<noteq> None
              then ([], (player_stop a)\<lparr>ap_pending_load := None\<rparr>)
              else ([], a))
           else ([], a)
      else ([], a))"

definition follow :: reducer where
  "follow a =
     (case cursor_track_id (ap_sync a) of
        None \<Rightarrow>
          let a1 = upd_sync (\<lambda>s. s\<lparr>rs_last_classified := None\<rparr>) a;
              a2 = (if ps_track_id (ap_playback a1) \<noteq> None \<and> rs_output_on (ap_sync a1)
                    then (player_stop a1)\<lparr>ap_pending_load := None\<rparr> else a1)
          in hydrate_missing a2
      | Some tid \<Rightarrow>
          let advanced = (rs_last_classified (ap_sync a) \<noteq> Some tid);
              a1 = upd_sync (\<lambda>s. s\<lparr>rs_last_classified := Some tid\<rparr>) a
          in if rs_direct_play (ap_sync a1) \<noteq> Some tid \<and> rs_output_on (ap_sync a1)
                  \<and> advanced \<and> track_disliked a1 tid
             then
               let skip_to = next_playable a1;
                   (eh, a2) = hydrate_missing a1;
                   a3 = set_status ''auto-skipping a disliked track'' False a2
               in (eh @ [SyncSubmit (case skip_to of
                           Some target \<Rightarrow> SetNowPlaying (Some target)
                         | None \<Rightarrow> SetPlaying False)], a3)
             else
               let a2 = (if rs_direct_play (ap_sync a1) = Some tid
                         then upd_sync (\<lambda>s. s\<lparr>rs_direct_play := None\<rparr>) a1 else a1);
                   (e1, a3) = drive_audio tid a2;
                   (e2, a4) = hydrate_missing a3
               in (e1 @ e2, a4))"

section \<open>Server frames\<close>

datatype sync_event = Frame server_message | Down_ev string

definition adopt_snapshot :: "sync_state \<Rightarrow> reducer" where
  "adopt_snapshot state a =
     (let a1 = (if \<not> online (ap_sync a)
                then set_status
                  (if pq_items (ap_queue a) = []
                   then ''sync connected '' @ EM_DASH @ '' queue is shared''
                   else ''sync connected '' @ EM_DASH @ '' local queue replaced by the shared one'')
                  False a
                else a);
          a2 = upd_sync (\<lambda>s. s\<lparr>rs_phase := Online, rs_room := state, rs_hydrate_failed := {}\<rparr>) a1
      in follow (project a2))"

definition is_growth :: "sync_op \<Rightarrow> bool" where
  "is_growth op = (case op of Push _ _ _ \<Rightarrow> True | StartSession _ _ _ \<Rightarrow> True
     | ReplaceUpcoming _ \<Rightarrow> True | _ \<Rightarrow> False)"

definition applied :: "int \<Rightarrow> sync_op \<Rightarrow> u64 \<Rightarrow> reducer" where
  "applied now op v a =
     (if \<not> online (ap_sync a) then ([SyncResync], a)
      else if v \<le> version (rs_room (ap_sync a)) then ([], a)
      else if version (rs_room (ap_sync a)) + 1 < v then ([SyncResync], a)
      else case apply_op op now (rs_room (ap_sync a)) of
        Inl e \<Rightarrow> ([SyncResync], a)
      | Inr s' \<Rightarrow>
          let a1 = upd_sync (\<lambda>s. s\<lparr>rs_room := s'\<lparr>version := v\<rparr>\<rparr>) a;
              a2 = (if is_growth op then upd_sync (\<lambda>s. s\<lparr>rs_hydrate_failed := {}\<rparr>) a1 else a1)
          in follow (project a2))"

definition go_offline :: "string \<Rightarrow> reducer" where
  "go_offline reason a =
     (case rs_phase (ap_sync a) of
        Online \<Rightarrow>
          ([], set_status (''sync offline '' @ EM_DASH @ '' queue is local until reconnect (''
                 @ reason @ '')'') True (upd_sync (\<lambda>s. s\<lparr>rs_phase := Offline\<rparr>) a))
      | Offline \<Rightarrow> ([], a)
      | Disabled \<Rightarrow> ([], a))"

definition room_handle :: "int \<Rightarrow> sync_event \<Rightarrow> reducer" where
  "room_handle now ev a =
     (case ev of
        Frame (Snapshot state) \<Rightarrow> adopt_snapshot state a
      | Frame (Applied op v _) \<Rightarrow> applied now op v a
      | Frame (OpError message _) \<Rightarrow> ([], set_status (''sync: '' @ message) True a)
      | Frame (Ack _) \<Rightarrow> ([], a)
      | Frame Pong \<Rightarrow> ([], a)
      | Down_ev reason \<Rightarrow> go_offline reason a)"

section \<open>Gestures to ops\<close>

definition add_meta :: "queued_track list \<Rightarrow> (string \<rightharpoonup> queued_track) \<Rightarrow> string \<rightharpoonup> queued_track" where
  "add_meta queued meta = fold (\<lambda>t m. m(qt_id t \<mapsto> t)) queued meta"

definition start_session ::
  "(nat \<Rightarrow> string) \<Rightarrow> string \<Rightarrow> int \<Rightarrow> queued_track list \<Rightarrow> nat \<Rightarrow> reducer" where
  "start_session fresh sid now queued start a =
     (if queued = [] then ([], a)
      else
        let st = min start (length queued - 1);
            anchor_id = qt_id (queued ! st);
            a1 = note_abandonment now (Some anchor_id) a;
            a2 = upd_sync (\<lambda>s. s\<lparr>rs_meta := add_meta queued (rs_meta s),
                   rs_direct_play := Some anchor_id, rs_advance_dir := Forward,
                   rs_output_on := True\<rparr>) a1;
            a3 = a2\<lparr>ap_queue_table := Some st\<rparr>;
            xs = map (\<lambda>(k, t). \<lparr>item_id = QueueItemId (fresh k), track_id = TrackId (qt_id t),
                   source = None\<rparr>) (enumerate 0 queued)
        in ([SyncSubmit (StartSession xs st (SessionId sid))], a3))"

definition push_tracks :: "(nat \<Rightarrow> string) \<Rightarrow> queued_track list \<Rightarrow> bool \<Rightarrow> reducer" where
  "push_tracks fresh queued play_next a =
     (let c = cursor (rs_room (ap_sync a));
          effects = concat (map (\<lambda>(k, t).
            SyncSubmit (Push (QueueItemId (fresh k)) (TrackId (qt_id t)) None)
            # (if play_next
               then [SyncSubmit (Reorder (QueueItemId (fresh k))
                      (case c of None \<Rightarrow> k | Some c \<Rightarrow> c + 1 + k))]
               else [])) (enumerate 0 queued))
      in (effects, upd_sync (\<lambda>s. s\<lparr>rs_meta := add_meta queued (rs_meta s)\<rparr>) a))"

definition jump_selected :: "int \<Rightarrow> nat \<Rightarrow> reducer" where
  "jump_selected now sel a =
     (case nth_opt (queue_items (rs_room (ap_sync a))) sel of
        None \<Rightarrow> ([], a)
      | Some item \<Rightarrow>
          let tid = track_str (track_id item);
              a1 = note_abandonment now (Some tid) a;
              a2 = upd_sync (\<lambda>s. s\<lparr>rs_direct_play := Some tid, rs_advance_dir := Forward,
                     rs_output_on := True\<rparr>) a1
          in (SyncSubmit (SetNowPlaying (Some sel))
              # (if \<not> is_playing (playback (rs_room (ap_sync a2)))
                 then [SyncSubmit (SetPlaying True)] else []), a2))"

definition toggle_playing :: reducer where
  "toggle_playing a =
     (let pb = playback (rs_room (ap_sync a))
      in if items (queue pb) = [] then ([], a)
         else if now_playing_index pb = None
         then
           let a1 = upd_sync (\<lambda>s. s\<lparr>rs_advance_dir := Forward\<rparr>) a;
               a2 = (if \<not> rs_output_on (ap_sync a1)
                     then set_status (''room started '' @ EM_DASH
                            @ '' this device is a silent remote (o for audio)'') False a1
                     else a1)
           in ([SyncSubmit (SetNowPlaying (Some 0)), SyncSubmit (SetPlaying True)], a2)
         else
           let resuming = (\<not> is_playing pb);
               a1 = (if resuming \<and> \<not> rs_output_on (ap_sync a)
                     then set_status (''room resumed '' @ EM_DASH
                            @ '' this device is a silent remote (o for audio)'') False a
                     else a)
           in ([SyncSubmit (SetPlaying resuming)], a1))"

definition room_advance :: "int \<Rightarrow> advance_cause \<Rightarrow> reducer" where
  "room_advance now cause a =
     (let pb = playback (rs_room (ap_sync a))
      in case now_playing_index pb of
           None \<Rightarrow> ([], a)
         | Some i \<Rightarrow>
             let a1 = upd_sync (\<lambda>s. s\<lparr>rs_advance_dir := Forward\<rparr>) a
             in if i + 1 < length (items (queue pb))
                then
                  let next_id = track_str (track_id (items (queue pb) ! (i + 1)));
                      a2 = (if cause = Manual then note_abandonment now (Some next_id) a1 else a1)
                  in ([SyncSubmit (SetNowPlaying (Some (i + 1)))], a2)
                else if cause = Natural \<and> is_playing pb
                then ([SyncSubmit (SetPlaying False)], a1)
                else ([], a1))"

definition room_prev :: "int \<Rightarrow> reducer" where
  "room_prev now a =
     (let cursor_loaded = (case cursor_track_id (ap_sync a) of
              None \<Rightarrow> False | Some tid \<Rightarrow> ps_track_id (ap_playback a) = Some tid)
      in if cursor_loaded \<and> 3 < ps_position (ap_playback a) div NANOS
         then ([], send_cmd (CmdSeek 0) a)
         else case cursor (rs_room (ap_sync a)) of
           None \<Rightarrow> ([], a)
         | Some i \<Rightarrow>
             if i = 0 then
               (if cursor_loaded then ([], send_cmd (CmdSeek 0) a)
                else if rs_output_on (ap_sync a) \<and> is_playing (playback (rs_room (ap_sync a)))
                then start_current a
                else ([], a))
             else
               let prev_id = track_str (track_id (queue_items (rs_room (ap_sync a)) ! (i - 1)));
                   a1 = upd_sync (\<lambda>s. s\<lparr>rs_advance_dir := Backward\<rparr>) a;
                   a2 = note_abandonment now (Some prev_id) a1
               in ([SyncSubmit (SetNowPlaying (Some (i - 1)))], a2))"

definition remove_selected :: "int \<Rightarrow> reducer" where
  "remove_selected now a =
     (case ap_queue_table a of
        None \<Rightarrow> ([], a)
      | Some sel \<Rightarrow>
          (case nth_opt (queue_items (rs_room (ap_sync a))) sel of
             None \<Rightarrow> ([], a)
           | Some it \<Rightarrow>
               let a1 = (if cursor (rs_room (ap_sync a)) = Some sel
                         then note_abandonment now None a else a)
               in ([SyncSubmit (Remove (item_id it))], a1)))"

definition clear_upcoming :: reducer where
  "clear_upcoming a =
     (let room = rs_room (ap_sync a);
          effects = map (\<lambda>(i, item). SyncSubmit (Remove (item_id item)))
            (filter (\<lambda>(i, item). cursor room \<noteq> Some i) (enumerate 0 (queue_items room)))
      in (effects, if effects \<noteq> [] then set_status ''cleared upcoming tracks'' False a else a))"

definition reorder_selected :: "move_kind \<Rightarrow> reducer" where
  "reorder_selected kind a =
     (case ap_queue_table a of
        None \<Rightarrow> ([], a)
      | Some sel \<Rightarrow>
          let room = rs_room (ap_sync a)
          in case move_target sel (length (queue_items room)) (cursor room) kind of
               None \<Rightarrow> ([], a)
             | Some target \<Rightarrow>
                 (case nth_opt (queue_items room) sel of
                    None \<Rightarrow> ([], a)
                  | Some item \<Rightarrow>
                      ([SyncSubmit (Reorder (item_id item) target)],
                       a\<lparr>ap_queue_table := Some target\<rparr>)))"

definition toggle_output :: reducer where
  "toggle_output a =
     (if \<not> online (ap_sync a)
      then ([], set_status (case rs_phase (ap_sync a) of
                  Disabled \<Rightarrow> ''audio output is always on in local mode''
                | _ \<Rightarrow> ''audio output toggle needs a live sync connection'') False a)
      else
        let a1 = upd_sync (\<lambda>s. s\<lparr>rs_output_on := \<not> rs_output_on s\<rparr>) a
        in if rs_output_on (ap_sync a1)
           then follow (set_status ''audio output: this device'' False a1)
           else ([], set_status ''audio output: off (silent remote)'' False
                       ((player_stop a1)\<lparr>ap_pending_load := None\<rparr>)))"

section \<open>What follows the replica does not change it\<close>

lemma upd_sync_sync [simp]: "ap_sync (upd_sync f a) = f (ap_sync a)"
  by (simp add: upd_sync_def)

lemma upd_sync_fields [simp]:
  "ap_queue (upd_sync f a) = ap_queue a" "ap_player (upd_sync f a) = ap_player a"
  "ap_playback (upd_sync f a) = ap_playback a" "ap_pending_load (upd_sync f a) = ap_pending_load a"
  "ap_ratings (upd_sync f a) = ap_ratings a" "ap_queue_table (upd_sync f a) = ap_queue_table a"
  "ap_no_audio_device (upd_sync f a) = ap_no_audio_device a"
  "ap_prefetched (upd_sync f a) = ap_prefetched a"
  "ap_autoplay (upd_sync f a) = ap_autoplay a"
  by (simp_all add: upd_sync_def)

lemma project_sync [simp]: "ap_sync (project a) = ap_sync a"
  by (simp add: project_def Let_def)

lemma note_abandonment_fields [simp]:
  "ap_sync (note_abandonment now nid a) = ap_sync a"
  "ap_queue (note_abandonment now nid a) = ap_queue a"
  "ap_player (note_abandonment now nid a) = ap_player a"
  by (auto simp: note_abandonment_def Let_def split: option.splits)

lemma start_current_fields [simp]:
  "ap_sync (snd (start_current a)) = ap_sync a"
  "ap_queue (snd (start_current a)) = ap_queue a"
  by (auto simp: start_current_def Let_def player_defs split: option.splits)

lemma hydrate_missing_fields [simp]:
  "rs_room (ap_sync (snd (hydrate_missing a))) = rs_room (ap_sync a)"
  "rs_phase (ap_sync (snd (hydrate_missing a))) = rs_phase (ap_sync a)"
  "rs_output_on (ap_sync (snd (hydrate_missing a))) = rs_output_on (ap_sync a)"
  "ap_queue (snd (hydrate_missing a)) = ap_queue a"
  "ap_player (snd (hydrate_missing a)) = ap_player a"
  by (auto simp: hydrate_missing_def Let_def)

lemma drive_audio_fields [simp]:
  "ap_sync (snd (drive_audio tid a)) = ap_sync a"
  "ap_queue (snd (drive_audio tid a)) = ap_queue a"
  by (auto simp: drive_audio_def Let_def player_defs)

lemma follow_fields [simp]:
  "rs_room (ap_sync (snd (follow a))) = rs_room (ap_sync a)"
  "rs_phase (ap_sync (snd (follow a))) = rs_phase (ap_sync a)"
  "rs_output_on (ap_sync (snd (follow a))) = rs_output_on (ap_sync a)"
  "ap_queue (snd (follow a)) = ap_queue a"
  by (auto simp: follow_def Let_def player_defs split_beta split: option.splits)

section \<open>The replica only shows states the server was in\<close>

text \<open>The server's history is a list of accepted operations from the empty room; \<open>log_state hist k\<close>
  is its state after \<open>k\<close> of them.\<close>

definition log_state :: "(sync_op \<times> int) list \<Rightarrow> nat \<Rightarrow> sync_state option" where
  "log_state hist k =
     (if k \<le> length hist then run_log apply_op (take k hist) default_sync_state else None)"

text \<open>A frame the server may send about that history, in any order and any number of times.\<close>

definition server_event :: "(sync_op \<times> int) list \<Rightarrow> sync_event \<Rightarrow> bool" where
  "server_event hist ev =
     (case ev of
        Frame (Snapshot s) \<Rightarrow> list_ex (\<lambda>k. log_state hist k = Some s) [0..<Suc (length hist)]
      | Frame (Applied op v _) \<Rightarrow>
          list_ex (\<lambda>k. op = fst (hist ! k) \<and> map_option version (log_state hist (Suc k)) = Some v)
            [0..<length hist]
      | _ \<Rightarrow> True)"

definition replica_at :: "(sync_op \<times> int) list \<Rightarrow> nat \<Rightarrow> app \<Rightarrow> bool" where
  "replica_at hist k a \<longleftrightarrow>
     map_option forget_clock (log_state hist k) = Some (forget_clock (rs_room (ap_sync a)))"

lemma log_state_version: "log_state hist k = Some s \<Longrightarrow> version s = of_nat k"
  using sync.run_log_version [of "take k hist" default_sync_state s]
  by (auto simp: log_state_def default_sync_state_def min_def split: if_splits)

lemma log_state_Suc:
  assumes "log_state hist (Suc k) = Some t"
  obtains s where "log_state hist k = Some s" "apply_op (fst (hist ! k)) (snd (hist ! k)) s = Inr t"
proof -
  from assms have k: "k < length hist" and t: "run_log apply_op (take (Suc k) hist) default_sync_state = Some t"
    by (auto simp: log_state_def split: if_splits)
  from t k obtain s where s: "run_log apply_op (take k hist) default_sync_state = Some s"
      "run_log apply_op [hist ! k] s = Some t"
    by (auto simp: take_Suc_conv_app_nth run_log_append bind_eq_Some_conv)
  from s(2) have "apply_op (fst (hist ! k)) (snd (hist ! k)) s = Inr t"
    by (cases "hist ! k") (auto split: sum.splits)
  with s(1) k that show ?thesis by (simp add: log_state_def)
qed

lemma replica_at_version: "replica_at hist k a \<Longrightarrow> version (rs_room (ap_sync a)) = of_nat k"
proof -
  assume "replica_at hist k a"
  then obtain s where s: "log_state hist k = Some s"
      "forget_clock s = forget_clock (rs_room (ap_sync a))"
    by (auto simp: replica_at_def)
  from arg_cong [OF s(2), of version] log_state_version [OF s(1)] show ?thesis by simp
qed

lemma replica_at_le: "replica_at hist k a \<Longrightarrow> k \<le> length hist"
  by (auto simp: replica_at_def log_state_def split: if_splits)

lemma u64_of_nat_compare:
  assumes "a < 2 ^ 64" "b < 2 ^ 64"
  shows "(of_nat a :: u64) \<le> of_nat b \<longleftrightarrow> a \<le> b" "(of_nat a :: u64) < of_nat b \<longleftrightarrow> a < b"
  using assms by (simp_all add: word_le_nat_alt word_less_nat_alt unat_of_nat)

text \<open>The guard of \<open>applied\<close> in terms of positions in the history.\<close>

lemma applied_cases:
  assumes at: "replica_at hist k a" and bound: "length hist < 2 ^ 64 - 1"
    and j: "j < length hist" "log_state hist (Suc j) = Some t"
    and on: "online (ap_sync a)"
  shows "j < k \<Longrightarrow> applied now (fst (hist ! j)) (version t) a = ([], a)"
    and "k < j \<Longrightarrow> applied now (fst (hist ! j)) (version t) a = ([SyncResync], a)"
    and "j = k \<Longrightarrow> replica_at hist (Suc k) (snd (applied now (fst (hist ! j)) (version t) a))"
proof -
  have v: "version t = of_nat (Suc j)" "version (rs_room (ap_sync a)) = of_nat k"
    using log_state_version [OF j(2)] replica_at_version [OF at] by simp_all
  have bd: "Suc j < 2 ^ 64" "Suc k < 2 ^ 64"
    using j(1) bound replica_at_le [OF at] by simp_all
  have v1: "version (rs_room (ap_sync a)) + 1 = of_nat (Suc k)" using v by simp
  show "applied now (fst (hist ! j)) (version t) a = ([], a)" if "j < k"
  proof -
    have "version t \<le> version (rs_room (ap_sync a))"
      unfolding v using u64_of_nat_compare(1) [of "Suc j" k] bd that by simp
    with on show ?thesis by (simp add: applied_def)
  qed
  show "applied now (fst (hist ! j)) (version t) a = ([SyncResync], a)" if "k < j"
  proof -
    have "\<not> version t \<le> version (rs_room (ap_sync a))" "version (rs_room (ap_sync a)) + 1 < version t"
      unfolding v1 unfolding v
      using u64_of_nat_compare [of "Suc j" k] u64_of_nat_compare [of "Suc k" "Suc j"] bd that
      by (simp_all del: of_nat_Suc)
    with on show ?thesis by (simp add: applied_def)
  qed
  show "replica_at hist (Suc k) (snd (applied now (fst (hist ! j)) (version t) a))" if jk: "j = k"
  proof -
    from log_state_Suc [OF j(2)] jk obtain s where s: "log_state hist k = Some s"
        "apply_op (fst (hist ! k)) (snd (hist ! k)) s = Inr t" by metis
    from at s(1) have view: "forget_clock s = forget_clock (rs_room (ap_sync a))"
      by (simp add: replica_at_def)
    from sync.step_view [OF view s(2), of now] obtain r where
      r: "apply_op (fst (hist ! k)) now (rs_room (ap_sync a)) = Inr r" "forget_clock r = forget_clock t"
      by auto
    have "version r = version t" using r(2) by (metis forget_fields(3))
    then have rv: "r\<lparr>version := version t\<rparr> = r" by simp
    have "\<not> version t \<le> version (rs_room (ap_sync a))"
        "\<not> version (rs_room (ap_sync a)) + 1 < version t"
      unfolding v1 unfolding v
      using u64_of_nat_compare [of "Suc j" k] u64_of_nat_compare [of "Suc k" "Suc j"] bd jk
      by (simp_all del: of_nat_Suc)
    with on r(1) jk have "rs_room (ap_sync (snd (applied now (fst (hist ! j)) (version t) a))) = r"
      by (simp add: applied_def Let_def rv)
    with r(2) j(2) jk show ?thesis by (simp add: replica_at_def)
  qed
qed

lemma replica_at_room:
  "rs_room (ap_sync b) = rs_room (ap_sync a) \<Longrightarrow> replica_at hist k b \<longleftrightarrow> replica_at hist k a"
  by (simp add: replica_at_def)

lemma adopt_snapshot_room [simp]:
  "rs_room (ap_sync (snd (adopt_snapshot s a))) = s"
  "rs_phase (ap_sync (snd (adopt_snapshot s a))) = Online"
  by (simp_all add: adopt_snapshot_def Let_def)

lemma go_offline_room [simp]: "rs_room (ap_sync (snd (go_offline reason a))) = rs_room (ap_sync a)"
  by (simp add: go_offline_def split: sync_phase.split)

lemma replica_step:
  assumes at: "replica_at hist k a" and bound: "length hist < 2 ^ 64 - 1"
    and ev: "server_event hist ev"
  shows "\<exists>k'. replica_at hist k' (snd (room_handle now ev a))"
proof (cases ev)
  case (Down_ev reason)
  then have "rs_room (ap_sync (snd (room_handle now ev a))) = rs_room (ap_sync a)"
    by (simp add: room_handle_def)
  with at show ?thesis by (metis replica_at_room)
next
  case (Frame m)
  show ?thesis
  proof (cases m)
    case (Snapshot s)
    with ev Frame obtain j where "log_state hist j = Some s"
      by (auto simp: server_event_def list_ex_iff)
    then have "replica_at hist j (snd (room_handle now ev a))"
      using Frame Snapshot by (simp add: room_handle_def replica_at_def)
    then show ?thesis ..
  next
    case (Applied op v oid)
    with ev Frame obtain j t where j: "j < length hist" "log_state hist (Suc j) = Some t"
        "op = fst (hist ! j)" "v = version t"
      by (auto simp: server_event_def list_ex_iff)
    have h: "snd (room_handle now ev a) = snd (applied now (fst (hist ! j)) (version t) a)"
      using Frame Applied j(3,4) by (simp add: room_handle_def)
    show ?thesis
    proof (cases "online (ap_sync a)")
      case False
      with at show ?thesis unfolding h by (auto simp: applied_def)
    next
      case True
      from applied_cases [OF at bound j(1,2) True, of now] at
      show ?thesis unfolding h by (metis linorder_neqE_nat snd_conv)
    qed
  next
    case (OpError x y)
    with Frame have "rs_room (ap_sync (snd (room_handle now ev a))) = rs_room (ap_sync a)"
      by (simp add: room_handle_def)
    with at show ?thesis by (metis replica_at_room)
  qed (use at Frame in \<open>auto simp: room_handle_def\<close>)
qed

lemma project_shows:
  "cursor_ok (rs_room (ap_sync a)) \<Longrightarrow>
   shows_room (resolve_item (rs_meta (ap_sync a))) (rs_room (ap_sync a)) (ap_queue (project a))"
  by (simp add: project_def Let_def shows_set_items)

section \<open>Auto-skip finds the nearest playable row\<close>

fun between :: "advance_dir \<Rightarrow> int \<Rightarrow> int \<Rightarrow> int \<Rightarrow> bool" where
  "between Forward idx bd i \<longleftrightarrow> idx < i \<and> i < bd"
| "between Backward idx bd i \<longleftrightarrow> bd < i \<and> i < idx"

lemma next_playable_loop_Some:
  assumes "next_playable_loop disliked dir len idx = Some i"
  shows "int i < len" "\<not> disliked i" "between dir idx (int i + dir_step dir) (int i)"
    "\<And>j. between dir idx (int i) (int j) \<Longrightarrow> disliked j"
proof -
  have "int i < len \<and> \<not> disliked i \<and> between dir idx (int i + dir_step dir) (int i)
      \<and> (\<forall>j. between dir idx (int i) (int j) \<longrightarrow> disliked j)"
    using assms
  proof (induction disliked dir len idx rule: next_playable_loop.induct)
    case (1 disliked dir len idx)
    show ?case
    proof (cases "idx + dir_step dir < 0 \<or> len \<le> idx + dir_step dir")
      case True
      with "1.prems" show ?thesis by (subst (asm) next_playable_loop.simps) simp
    next
      case rng: False
      show ?thesis
      proof (cases "disliked (nat (idx + dir_step dir))")
        case False
        with rng "1.prems" show ?thesis
          by (cases dir; subst (asm) next_playable_loop.simps) auto
      next
        case True
        with rng "1.prems" have rec: "next_playable_loop disliked dir len (idx + dir_step dir) = Some i"
          by (subst (asm) next_playable_loop.simps) simp
        note IH = "1.IH" [OF refl rng _ rec]
        have IH': "int i < len \<and> \<not> disliked i
            \<and> between dir (idx + dir_step dir) (int i + dir_step dir) (int i)
            \<and> (\<forall>j. between dir (idx + dir_step dir) (int i) (int j) \<longrightarrow> disliked j)"
          using IH True by simp
        have "disliked j" if "between dir idx (int i) (int j)" for j
        proof (cases "int j = idx + dir_step dir")
          case eq: True
          then show ?thesis using True by (metis nat_int)
        next
          case False
          with that IH' show ?thesis by (cases dir) auto
        qed
        with IH' show ?thesis by (cases dir) auto
      qed
    qed
  qed
  then show "int i < len" "\<not> disliked i" "between dir idx (int i + dir_step dir) (int i)"
    "\<And>j. between dir idx (int i) (int j) \<Longrightarrow> disliked j" by blast+
qed

lemma next_playable_loop_None:
  assumes "next_playable_loop disliked dir len idx = None" "idx < len" "-1 < idx"
    and "between dir idx (case dir of Forward \<Rightarrow> len | Backward \<Rightarrow> -1) (int j)"
  shows "disliked j"
  using assms
proof (induction disliked dir len idx rule: next_playable_loop.induct)
  case (1 disliked dir len idx)
  show ?case
  proof (cases "idx + dir_step dir < 0 \<or> len \<le> idx + dir_step dir")
    case True
    with "1.prems" show ?thesis by (cases dir) auto
  next
    case rng: False
    with "1.prems" have d: "disliked (nat (idx + dir_step dir))"
      and rec: "next_playable_loop disliked dir len (idx + dir_step dir) = None"
      by (auto simp: next_playable_loop.simps [of disliked dir len idx] Let_def split: if_splits)
    show ?thesis
    proof (cases "int j = idx + dir_step dir")
      case True
      then show ?thesis using d by (metis nat_int)
    next
      case False
      with "1.prems"(4) have "between dir (idx + dir_step dir)
          (case dir of Forward \<Rightarrow> len | Backward \<Rightarrow> -1) (int j)"
        by (cases dir) auto
      then show ?thesis using "1.IH" [OF refl rng _ rec] d rng by auto
    qed
  qed
qed

section \<open>Play next in the room lands where the local queue would put it\<close>

fun submitted :: "effect list \<Rightarrow> sync_op list" where
  "submitted [] = []"
| "submitted (SyncSubmit op # es) = op # submitted es"
| "submitted (_ # es) = submitted es"

definition run_ops :: "sync_op list \<Rightarrow> int \<Rightarrow> sync_state \<Rightarrow> sync_state" where
  "run_ops ops now s = apply_all (map (\<lambda>op. (op, now)) ops) s"

lemma run_ops_simps [simp]:
  "run_ops [] now s = s"
  "run_ops (op # ops) now s =
     run_ops ops now (case apply_op op now s of Inl _ \<Rightarrow> s | Inr s' \<Rightarrow> s')"
  by (simp_all add: run_ops_def)

lemma submitted_append [simp]: "submitted (xs @ ys) = submitted xs @ submitted ys"
  by (induction xs rule: submitted.induct) simp_all

lemma run_ops_append: "run_ops (xs @ ys) now s = run_ops ys now (run_ops xs now s)"
  by (induction xs arbitrary: s) simp_all

definition push_at :: "queue_item \<Rightarrow> nat \<Rightarrow> sync_op list" where
  "push_at it t = [Push (item_id it) (track_id it) (source it), Reorder (item_id it) t]"

lemma insert_at_end_remove:
  "remove_at (length xs) (xs @ [x]) = xs"
  by (simp add: remove_at_def)

lemma run_push_at:
  assumes ok: "cursor_ok s" "ids_ok s" and new: "item_id it \<notin> item_id ` set (queue_items s)"
    and t: "t \<le> length (queue_items s)" "\<And>c. cursor s = Some c \<Longrightarrow> c < t"
  shows "queue_items (run_ops (push_at it t) now s) = insert_at t [it] (queue_items s)"
    and "cursor (run_ops (push_at it t) now s) = cursor s"
    and "ids_ok (run_ops (push_at it t) now s)"
    and "cursor_ok (run_ops (push_at it t) now s)"
proof -
  let ?push = "Push (item_id it) (track_id it) (source it)"
  obtain s1 where s1: "apply_op ?push now s = Inr s1"
    by (cases "apply_op ?push now s") (auto simp: apply_op_rejects_iff)
  have i1: "queue_items s1 = queue_items s @ [it]" "cursor s1 = cursor s"
    using s1 new by (auto simp: apply_op_def position_of_queue_None split: if_splits)
  have ok1: "ids_ok s1" "cursor_ok s1"
    using apply_op_ids_ok [OF ok(2) _ s1] apply_op_cursor_ok [OF ok(1) s1] by simp_all
  have len: "length (queue_items s) < length (queue_items s1)" by (simp add: i1)
  from position_of_queue_nth [OF ok1(1) len]
  have p: "position_of (queue (playback s1)) (item_id it) = Some (length (queue_items s))"
    by (simp add: i1)
  define s2 where "s2 = (apply_reorder (item_id it) t s1)\<lparr>version := version (apply_reorder (item_id it) t s1) + 1\<rparr>"
  have s2: "apply_op (Reorder (item_id it) t) now s1 = Inr s2"
    by (simp add: apply_op_def s2_def)
  have run: "run_ops (push_at it t) now s = s2"
    by (simp add: push_at_def s1 s2)
  have items2: "queue_items s2 = insert_at t [it] (queue_items s)"
    using apply_reorder_items [OF p, of t] t(1) by (simp add: s2_def i1 insert_at_end_remove)
  have ok2: "ids_ok s2" "cursor_ok s2"
    using apply_op_ids_ok [OF ok1(1) _ s2] apply_op_cursor_ok [OF ok1(2) s2] by simp_all
  have "cursor s2 = cursor s"
  proof (cases "cursor s")
    case None
    then show ?thesis by (simp add: s2_def apply_reorder_def p Let_def i1)
  next
    case (Some c)
    with ok(1) have c: "c < length (queue_items s)" by (simp add: cursor_ok_def)
    have "cursor s2 = position_of (queue (playback s2)) (item_id (queue_items s ! c))"
      using Some c i1 p
      by (simp add: s2_def apply_reorder_def Let_def nth_opt_def nth_append queue_of_set
          position_of_def)
    moreover have "queue_items s2 ! c = queue_items s ! c" "c < length (queue_items s2)"
      unfolding items2 using t(1) t(2) [OF Some] c by (simp_all add: nth_insert_at)
    ultimately show ?thesis
      using position_of_queue_nth [OF ok2(1), of c] Some by simp
  qed
  with items2 ok2 show
    "queue_items (run_ops (push_at it t) now s) = insert_at t [it] (queue_items s)"
    "cursor (run_ops (push_at it t) now s) = cursor s"
    "ids_ok (run_ops (push_at it t) now s)" "cursor_ok (run_ops (push_at it t) now s)"
    by (simp_all add: run)
qed

lemma insert_at_snoc:
  "t \<le> length xs \<Longrightarrow> insert_at (Suc t) ys (insert_at t [x] xs) = insert_at t (x # ys) xs"
  by (simp add: insert_at_def min_def)

lemma set_insert_at: "set (insert_at t ys xs) = set xs \<union> set ys"
proof -
  have "set (take t xs) \<union> set (drop t xs) = set xs" by (metis append_take_drop_id set_append)
  then show ?thesis by (auto simp: insert_at_def)
qed

lemma run_push_list:
  assumes "cursor_ok s" "ids_ok s" "distinct (map item_id its)"
    and "item_id ` set its \<inter> item_id ` set (queue_items s) = {}"
    and "t + n \<le> length (queue_items s)" "\<And>c. cursor s = Some c \<Longrightarrow> c < t + n"
  shows "queue_items (run_ops (concat (map (\<lambda>(k, it). push_at it (t + k)) (enumerate n its))) now s)
        = insert_at (t + n) its (queue_items s)
    \<and> cursor (run_ops (concat (map (\<lambda>(k, it). push_at it (t + k)) (enumerate n its))) now s) = cursor s"
  using assms
proof (induction its arbitrary: n s)
  case Nil
  then show ?case by (simp add: insert_at_def)
next
  case (Cons it its)
  let ?s1 = "run_ops (push_at it (t + n)) now s"
  have new: "item_id it \<notin> item_id ` set (queue_items s)" using Cons.prems(4) by auto
  note step = run_push_at [OF Cons.prems(1,2) new Cons.prems(5,6), where now = now]
  have "queue_items (run_ops (concat (map (\<lambda>(k, it). push_at it (t + k)) (enumerate (Suc n) its))) now ?s1)
        = insert_at (t + Suc n) its (queue_items ?s1)
    \<and> cursor (run_ops (concat (map (\<lambda>(k, it). push_at it (t + k)) (enumerate (Suc n) its))) now ?s1)
        = cursor ?s1"
  proof (rule Cons.IH)
    show "cursor_ok ?s1" "ids_ok ?s1" using step by simp_all
    show "distinct (map item_id its)" using Cons.prems(3) by simp
    show "item_id ` set its \<inter> item_id ` set (queue_items ?s1) = {}"
      using Cons.prems(3,4) by (auto simp: step(1) set_insert_at)
    show "t + Suc n \<le> length (queue_items ?s1)" using Cons.prems(5) by (simp add: step(1))
    show "c < t + Suc n" if "cursor ?s1 = Some c" for c
      using Cons.prems(6) [of c] that by (simp add: step(2))
  qed
  then show ?case
    using Cons.prems(5) by (simp add: run_ops_append step(1,2) insert_at_snoc)
qed

lemma submitted_concat: "submitted (concat xss) = concat (map submitted xss)"
  by (induction xss) simp_all

lemma push_tracks_submits:
  "submitted (fst (push_tracks fresh queued True a)) =
     (let t = (case cursor (rs_room (ap_sync a)) of None \<Rightarrow> 0 | Some c \<Rightarrow> c + 1)
      in concat (map (\<lambda>(k, it). push_at it (t + k))
          (enumerate 0 (map (\<lambda>(k, qt). \<lparr>item_id = QueueItemId (fresh k),
             track_id = TrackId (qt_id qt), source = None\<rparr>) (enumerate 0 queued)))))"
proof -
  have enum: "enumerate n (map f (enumerate n xs)) = map (\<lambda>(k, x). (k, f (k, x))) (enumerate n xs)"
    for n and f :: "nat \<times> queued_track \<Rightarrow> queue_item" and xs
    by (induction xs arbitrary: n) simp_all
  show ?thesis
    by (auto simp: push_tracks_def Let_def submitted_concat enum comp_def push_at_def
        split: option.split intro!: arg_cong [where f = concat])
qed

section \<open>Properties\<close>

fun run_events :: "(int \<times> sync_event) list \<Rightarrow> app \<Rightarrow> app" where
  "run_events [] a = a"
| "run_events ((now, ev) # evs) a = run_events evs (snd (room_handle now ev a))"

text \<open>
  C2. The replica never shows a state the server was not in. Whatever snapshots and \<open>Applied\<close>
  frames of one server history arrive, lost, repeated or reordered, mixed with errors, pongs and
  disconnects, the replica stays at the server's state after some number of its operations (up to
  the time stamp on the session anchor), for histories of fewer than \<open>2 ^ 64 - 1\<close> operations.
\<close>

theorem replica_within_history:
  assumes "replica_at hist k a" "length hist < 2 ^ 64 - 1"
    and "\<forall>e \<in> set evs. server_event hist (snd e)"
  shows "\<exists>k'. replica_at hist k' (run_events evs a)"
  using assms(1,3)
proof (induction evs a arbitrary: k rule: run_events.induct)
  case (2 now ev evs a)
  from replica_step [OF "2.prems"(1) assms(2), of ev now] "2.prems"(2)
  obtain k' where "replica_at hist k' (snd (room_handle now ev a))" by auto
  from "2.IH" [OF this] "2.prems"(2) show ?case by simp
qed auto

definition demo_log :: "(sync_op \<times> int) list" where
  "demo_log = [(SetPosition 5, 10), (SetPlaying True, 11), (SetPosition 9, 12)]"

definition demo_app :: app where
  "demo_app = upd_sync (\<lambda>s. s\<lparr>rs_phase := Online\<rparr>) (app_new True False True 5 ''f'')"

definition demo_events :: "(int \<times> sync_event) list" where
  "demo_events = [(1, Frame (Applied (SetPosition 5) 1 None)), (2, Frame (Applied (SetPosition 9) 3 None)),
     (3, Frame (Applied (SetPlaying True) 2 None)), (4, Frame (Applied (SetPosition 5) 1 None))]"

theorem replica_within_history_witness:
  "(\<exists>k'. replica_at demo_log k' (run_events demo_events demo_app))
   \<and> version (rs_room (ap_sync (run_events demo_events demo_app))) = 2"
proof (rule conjI)
  have start: "replica_at demo_log 0 demo_app" by code_simp
  have evs: "\<forall>e \<in> set demo_events. server_event demo_log (snd e)" by code_simp
  have bound: "length demo_log < 2 ^ 64 - 1" by (simp add: demo_log_def)
  show "\<exists>k'. replica_at demo_log k' (run_events demo_events demo_app)"
    by (rule replica_within_history [OF start bound evs])
  show "version (rs_room (ap_sync (run_events demo_events demo_app))) = 2" by code_simp
qed

text \<open>
  What one \<open>Applied\<close> frame does to an online replica: the frame that is next in the history
  moves it forward by exactly one operation, an older frame is ignored, and a frame from further
  ahead leaves the replica alone and asks for a fresh snapshot.
\<close>

theorem applied_frame_effect:
  assumes "replica_at hist k a" "length hist < 2 ^ 64 - 1" "online (ap_sync a)"
    and "j < length hist" "log_state hist (Suc j) = Some t"
  shows "if j < k then room_handle now (Frame (Applied (fst (hist ! j)) (version t) oid)) a = ([], a)
    else if k < j then
      room_handle now (Frame (Applied (fst (hist ! j)) (version t) oid)) a = ([SyncResync], a)
    else replica_at hist (Suc k)
      (snd (room_handle now (Frame (Applied (fst (hist ! j)) (version t) oid)) a))"
  using applied_cases [OF assms(1,2,4,5,3)] by (auto simp: room_handle_def)

theorem applied_frame_effect_witness:
  "replica_at demo_log 1 (snd (room_handle 3 (Frame (Applied (SetPosition 5) 1 None)) demo_app))"
proof -
  have start: "replica_at demo_log 0 demo_app" "online (ap_sync demo_app)" by code_simp+
  have bound: "length demo_log < 2 ^ 64 - 1" "0 < length demo_log" by (simp_all add: demo_log_def)
  obtain t where t: "log_state demo_log (Suc 0) = Some t"
    by (auto simp: log_state_def demo_log_def apply_op_def)
  have v: "version t = 1" "fst (demo_log ! 0) = SetPosition 5"
    using log_state_version [OF t] by (simp_all add: demo_log_def)
  from applied_frame_effect [OF start(1) bound(1) start(2) bound(2) t, of 3 None]
  show ?thesis by (simp add: v)
qed

text \<open>
  C15. "Play next" lands in the same place in the room as in the local queue: if the local queue
  shows the room, the operations \<open>push_tracks\<close> submits, once applied, make the room show what
  \<open>enqueue_next\<close> makes of the local queue (the drawn item ids being fresh and distinct).
\<close>

theorem push_next_matches_enqueue_next:
  assumes shown: "shows_room f (rs_room (ap_sync a)) (ap_queue a)"
    and ok: "cursor_ok (rs_room (ap_sync a))" "ids_ok (rs_room (ap_sync a))"
    and fresh: "inj fresh" "\<forall>k. QueueItemId (fresh k) \<notin> item_id ` set (queue_items (rs_room (ap_sync a)))"
    and f: "\<forall>k. \<forall>t \<in> set queued. f \<lparr>item_id = k, track_id = TrackId (qt_id t), source = None\<rparr> = t"
  shows "shows_room f (run_ops (submitted (fst (push_tracks fresh queued True a))) now (rs_room (ap_sync a)))
    (enqueue_next queued (ap_queue a))"
proof -
  let ?s = "rs_room (ap_sync a)"
  let ?its = "map (\<lambda>(k, qt). \<lparr>item_id = QueueItemId (fresh k), track_id = TrackId (qt_id qt),
      source = None\<rparr>) (enumerate 0 queued)"
  define t where "t = (case cursor ?s of None \<Rightarrow> 0 | Some c \<Rightarrow> c + 1)"
  have t: "t + 0 \<le> length (queue_items ?s)" "\<And>c. cursor ?s = Some c \<Longrightarrow> c < t + 0"
    using ok(1) by (auto simp: t_def cursor_ok_def split: option.splits)
  have ids: "map item_id ?its = map (\<lambda>k. QueueItemId (fresh k)) [0..<length queued]"
  proof -
    have "map item_id ?its = map (\<lambda>k. QueueItemId (fresh k)) (map fst (enumerate 0 queued))"
      by (simp add: split_beta comp_def del: map_fst_enumerate)
    then show ?thesis by simp
  qed
  have "distinct (map item_id ?its)"
    unfolding ids using fresh(1) by (simp add: distinct_map inj_on_def inj_def)
  moreover have rng: "item_id ` set ?its = (\<lambda>k. QueueItemId (fresh k)) ` {0..<length queued}"
    using arg_cong [OF ids, of set] by (simp only: set_map set_upt)
  have "item_id ` set ?its \<inter> item_id ` set (queue_items ?s) = {}"
    unfolding rng using fresh(2) by blast
  ultimately have run: "queue_items (run_ops (submitted (fst (push_tracks fresh queued True a))) now ?s)
        = insert_at t ?its (queue_items ?s)"
      "cursor (run_ops (submitted (fst (push_tracks fresh queued True a))) now ?s) = cursor ?s"
    using run_push_list [OF ok _ _ t, of ?its now]
    unfolding push_tracks_submits Let_def t_def [symmetric] by simp_all
  have "map f ?its = queued"
    by (rule nth_equalityI) (simp_all add: f nth_enumerate_eq split_beta)
  with shown run show ?thesis
    by (auto simp: shows_room_def enqueue_next_def Let_def map_insert_at t_def split: option.split)
qed

definition fresh_ids :: "nat \<Rightarrow> string" where
  "fresh_ids k = CHR ''n'' # nat_str k"

definition demo_track :: "string \<Rightarrow> queued_track" where
  "demo_track k = unhydrated k"

definition demo_online :: app where
  "demo_online = project (upd_sync (\<lambda>s. s\<lparr>rs_room := demo_state\<rparr>) demo_app)"

theorem push_next_matches_enqueue_next_witness:
  "shows_room (resolve_item Map.empty)
     (run_ops (submitted (fst (push_tracks fresh_ids [demo_track ''x'', demo_track ''y''] True demo_online)))
        0 demo_state)
     (enqueue_next [demo_track ''x'', demo_track ''y''] (ap_queue demo_online))"
proof -
  have room: "rs_room (ap_sync demo_online) = demo_state" by (simp add: demo_online_def)
  have ok: "cursor_ok demo_state" "ids_ok demo_state"
    by (simp_all add: cursor_ok_def ids_ok_def demo_items_def)
  have "shows_room (resolve_item (rs_meta (ap_sync demo_app))) demo_state (ap_queue demo_online)"
    using project_shows [of "upd_sync (\<lambda>s. s\<lparr>rs_room := demo_state\<rparr>) demo_app"] ok
    by (simp add: demo_online_def)
  moreover have "rs_meta (ap_sync demo_app) = Map.empty"
    by (simp add: demo_app_def app_new_def room_state_new_def)
  ultimately have shown: "shows_room (resolve_item Map.empty) demo_state (ap_queue demo_online)" by simp
  have inj: "inj fresh_ids" by (rule injI) (simp add: fresh_ids_def nat_str_inj)
  have new: "\<forall>k. QueueItemId (fresh_ids k) \<notin> item_id ` set (queue_items demo_state)"
    by (simp add: fresh_ids_def demo_items_def)
  have res: "\<forall>k. \<forall>t \<in> set [demo_track ''x'', demo_track ''y'']. resolve_item Map.empty
      \<lparr>item_id = k, track_id = TrackId (qt_id t), source = None\<rparr> = t"
    by (simp add: resolve_item_def demo_track_def unhydrated_def)
  from push_next_matches_enqueue_next [of "resolve_item Map.empty" demo_online fresh_ids
      "[demo_track ''x'', demo_track ''y'']" 0, unfolded room, OF shown ok inj new res]
  show ?thesis .
qed

text \<open>
  "Clear upcoming" in the room removes every row but the one under the cursor, so it also
  drops the rows already played, which are not upcoming.
\<close>

theorem clear_upcoming_drops_history:
  "\<exists>a s. cursor (rs_room (ap_sync a)) = Some 2 \<and> length (queue_items (rs_room (ap_sync a))) = 3
     \<and> s = run_ops (submitted (fst (clear_upcoming a))) 0 (rs_room (ap_sync a))
     \<and> queue_items s = [demo_items ! 2] \<and> cursor s = Some 0"
proof -
  have "queue_items (run_ops (submitted (fst (clear_upcoming demo_online))) 0 demo_state) = [demo_items ! 2]"
      "cursor (run_ops (submitted (fst (clear_upcoming demo_online))) 0 demo_state) = Some 0"
    by code_simp+
  then show ?thesis
    by (intro exI [of _ demo_online]) (simp add: demo_online_def demo_items_def)
qed

end
