(* ===== verification/Tui_Playback.thy ===== *)
theory Tui_Playback
  imports Tui_Room
begin

text \<open>
  Transport and queue gestures of the TUI (\<open>music-cli/src/tui/update/playback.rs\<close>): while the
  sync room is online every gesture becomes operations (\<open>Tui_Room\<close>), otherwise the local queue
  changes directly.

  Lemmas: the dislike auto-skip stops at the first track that is not disliked and never lands on
  a disliked one; \<open>prev_track\<close> picks the nearest playable row behind; \<open>move_target\<close> and
  \<open>queue_move\<close> agree with the room path; the outbox keeps failed events in order and drops
  them after three attempts; every local gesture keeps the queue cursor in range.
\<close>

section \<open>Listening signal\<close>

definition FLUSH_EVERY_TICKS :: nat where
  "FLUSH_EVERY_TICKS = 20"

definition signal_tick :: reducer where
  "signal_tick a =
     (let (effects, a1) =
        (case ps_track_id (ap_playback a) of
           None \<Rightarrow> ([], a)
         | Some tid \<Rightarrow>
             let sig = (case ap_signal a of
                     Some s \<Rightarrow> if sg_track_id s \<noteq> tid then track_signal_new tid else s
                   | None \<Rightarrow> track_signal_new tid)
             in (case evaluate_scrobble (ps_duration (ap_playback a)) (ps_position (ap_playback a)) sig of
                   ScrobbleNowPlaying \<Rightarrow>
                     ([Scrobble tid False], a\<lparr>ap_signal := Some (sig\<lparr>sg_now_playing_sent := True\<rparr>)\<rparr>)
                 | ScrobbleSubmission \<Rightarrow>
                     ([Scrobble tid True], a\<lparr>ap_signal := Some (sig\<lparr>sg_submission_sent := True\<rparr>)\<rparr>)
                 | ScrobbleNone \<Rightarrow> ([], a\<lparr>ap_signal := Some sig\<rparr>)))
      in if ap_events_outbox a1 \<noteq> [] \<and> \<not> ap_events_inflight a1 \<and> FLUSH_EVERY_TICKS dvd ap_tick a1
         then (effects @ [FlushEvents (ap_events_outbox a1)],
               a1\<lparr>ap_events_inflight := True, ap_events_outbox := []\<rparr>)
         else (effects, a1))"

definition requeue_failed_events :: "pending_event list \<Rightarrow> app \<Rightarrow> app" where
  "requeue_failed_events events a =
     (let retained = filter (\<lambda>ev. pe_attempts ev < MAX_EVENT_ATTEMPTS)
            (map (\<lambda>ev. ev\<lparr>pe_attempts := pe_attempts ev + 1\<rparr>) events)
      in a\<lparr>ap_events_outbox := retained @ ap_events_outbox a\<rparr>)"

section \<open>Transport\<close>

definition sync_queue_cursor :: "app \<Rightarrow> app" where
  "sync_queue_cursor a = a\<lparr>ap_queue_table := pq_current (ap_queue a)\<rparr>"

text \<open>The loop of \<open>auto_skip_forward\<close>: the number of skips and the queue it stops at.\<close>

function auto_skip_loop :: "ratings \<Rightarrow> nat \<Rightarrow> play_queue \<Rightarrow> nat \<times> play_queue" where
  "auto_skip_loop rs skipped q =
     (case current q of
        None \<Rightarrow> (skipped, q)
      | Some t \<Rightarrow>
          if \<not> is_disliked t rs then (skipped, q)
          else (case advance q of
                  (None, q') \<Rightarrow> (skipped + 1, q')
                | (Some _, q') \<Rightarrow> auto_skip_loop rs (skipped + 1) q'))"
  by auto
termination
  by (relation "measure (\<lambda>(rs, n, q). case pq_current q of None \<Rightarrow> 0
      | Some i \<Rightarrow> length (pq_items q) - i)")
    (auto simp: advance_def current_def Let_def nth_opt_def split: option.splits if_splits)

declare auto_skip_loop.simps [simp del]

definition auto_skip_forward :: "app \<Rightarrow> app" where
  "auto_skip_forward a =
     (let (skipped, q) = auto_skip_loop (ap_ratings a) 0 (ap_queue a);
          a1 = a\<lparr>ap_queue := q\<rparr>
      in if 0 < skipped
         then sync_queue_cursor (set_status (''auto-skipped '' @ nat_str skipped
                @ '' disliked track(s)'') False a1)
         else a1)"

definition start_current_playable :: reducer where
  "start_current_playable a =
     (let a1 = auto_skip_forward a
      in if current (ap_queue a1) \<noteq> None then start_current a1
         else ([], player_stop (a1\<lparr>ap_pending_load := None\<rparr>)))"

definition transport_toggle :: reducer where
  "transport_toggle a =
     (if online (ap_sync a) then toggle_playing a
      else if ps_track_id (ap_playback a) = None \<and> ap_pending_load a = None
      then
        let a1 = (if current (ap_queue a) = None \<and> pq_items (ap_queue a) \<noteq> []
                  then a\<lparr>ap_queue := snd (jump 0 (ap_queue a))\<rparr> else a)
        in if current (ap_queue a1) \<noteq> None then start_current_playable a1 else ([], a1)
      else ([], send_cmd CmdToggle a))"

definition next_track :: "int \<Rightarrow> advance_cause \<Rightarrow> reducer" where
  "next_track now cause a =
     (if online (ap_sync a) then room_advance now cause a
      else
        let a1 = (if cause = Manual then note_abandonment now None a else a);
            (r, q) = advance (ap_queue a1);
            a2 = a1\<lparr>ap_queue := q\<rparr>
        in if r = None
           then ([], player_stop (a2\<lparr>ap_pending_load := None\<rparr>))
           else start_current_playable a2)"

text \<open>\<open>(0..n).rev().find(p)\<close>.\<close>

fun rev_find :: "(nat \<Rightarrow> bool) \<Rightarrow> nat \<Rightarrow> nat option" where
  "rev_find p 0 = None"
| "rev_find p (Suc n) = (if p n then Some n else rev_find p n)"

definition prev_track :: "int \<Rightarrow> reducer" where
  "prev_track now a =
     (if online (ap_sync a) then room_prev now a
      else if 3 < ps_position (ap_playback a) div NANOS then ([], send_cmd (CmdSeek 0) a)
      else
        let not_disliked = (\<lambda>i. \<not> is_disliked (pq_items (ap_queue a) ! i) (ap_ratings a));
            target = (case pq_current (ap_queue a) of
                Some cur \<Rightarrow> rev_find not_disliked cur
              | None \<Rightarrow> rev_find not_disliked (length (pq_items (ap_queue a))))
        in case target of
             None \<Rightarrow>
               let current_loaded = (case current (ap_queue a) of
                       None \<Rightarrow> False | Some t \<Rightarrow> ps_track_id (ap_playback a) = Some (qt_id t))
               in if current_loaded then ([], send_cmd (CmdSeek 0) a)
                  else if current (ap_queue a) \<noteq> None then start_current a
                  else ([], a)
           | Some target \<Rightarrow>
               let a1 = note_abandonment now None a;
                   (r, q) = jump target (ap_queue a1);
                   a2 = a1\<lparr>ap_queue := q\<rparr>
               in if r \<noteq> None then start_current (sync_queue_cursor a2) else ([], a2))"

definition on_player_event :: "int \<Rightarrow> player_event \<Rightarrow> reducer" where
  "on_player_event now ev a =
     (case ev of
        TrackEnded \<Rightarrow> next_track now Natural a
      | PlayerError e \<Rightarrow> ([], set_status e True a))"

section \<open>Queue edits\<close>

definition queue_remove_selected :: "int \<Rightarrow> reducer" where
  "queue_remove_selected now a =
     (if online (ap_sync a) then remove_selected now a
      else case ap_queue_table a of
        None \<Rightarrow> ([], a)
      | Some sel \<Rightarrow>
          let was_current = (pq_current (ap_queue a) = Some sel);
              a1 = (if was_current then note_abandonment now None a else a);
              a2 = a1\<lparr>ap_queue := remove sel (ap_queue a1)\<rparr>;
              len = length (pq_items (ap_queue a2))
          in if len = 0
             then let a3 = a2\<lparr>ap_queue_table := None\<rparr>
                  in ([], if was_current then (player_stop a3)\<lparr>ap_pending_load := None\<rparr> else a3)
             else let a3 = a2\<lparr>ap_queue_table := Some (min sel (len - 1))\<rparr>
                  in if was_current then start_current_playable a3 else ([], a3))"

definition queue_clear_upcoming :: reducer where
  "queue_clear_upcoming a =
     (if online (ap_sync a) then clear_upcoming a
      else
        let a1 = (case current (ap_queue a) of
              Some t \<Rightarrow> a\<lparr>ap_queue := pq_set_items [t] (Some 0) (ap_queue a), ap_queue_table := Some 0\<rparr>
            | None \<Rightarrow> a\<lparr>ap_queue := clear (ap_queue a), ap_queue_table := None\<rparr>)
        in ([], set_status ''cleared upcoming tracks'' False (a1\<lparr>ap_prefetched := None\<rparr>)))"

definition queue_move :: "move_kind \<Rightarrow> reducer" where
  "queue_move kind a =
     (if online (ap_sync a) then reorder_selected kind a
      else case ap_queue_table a of
        None \<Rightarrow> ([], a)
      | Some sel \<Rightarrow>
          (case move_target sel (length (pq_items (ap_queue a))) (pq_current (ap_queue a)) kind of
             None \<Rightarrow> ([], a)
           | Some target \<Rightarrow>
               ([], a\<lparr>ap_queue := move_item sel target (ap_queue a),
                      ap_queue_table := Some target\<rparr>)))"

definition play_new_queue ::
  "(nat \<Rightarrow> string) \<Rightarrow> string \<Rightarrow> int \<Rightarrow> queued_track list \<Rightarrow> nat \<Rightarrow> reducer" where
  "play_new_queue fresh sid now queued start a =
     (if online (ap_sync a) then start_session fresh sid now queued start a
      else
        let next_id = map_option qt_id (nth_opt queued start);
            a1 = note_abandonment now next_id a;
            a2 = a1\<lparr>ap_queue := snd (replace queued start (ap_queue a1)), ap_prefetched := None\<rparr>
        in start_current (sync_queue_cursor a2))"

definition enqueue_tracks :: "(nat \<Rightarrow> string) \<Rightarrow> queued_track list \<Rightarrow> bool \<Rightarrow> reducer" where
  "enqueue_tracks fresh queued play_next a =
     (if queued = [] then ([], a)
      else if online (ap_sync a) then push_tracks fresh queued play_next a
      else ([], a\<lparr>ap_queue := if play_next then enqueue_next queued (ap_queue a)
                              else enqueue queued (ap_queue a)\<rparr>))"

section \<open>Auto-skip\<close>

lemma auto_skip_loop_current:
  "current (snd (auto_skip_loop rs n q)) = Some t \<Longrightarrow> \<not> is_disliked t rs"
proof (induction rs n q rule: auto_skip_loop.induct)
  case (1 rs n q)
  show ?case
  proof (cases "current q")
    case None
    with "1.prems" show ?thesis by (simp add: auto_skip_loop.simps [of rs n q])
  next
    case (Some u)
    show ?thesis
    proof (cases "is_disliked u rs")
      case False
      with Some "1.prems" show ?thesis by (simp add: auto_skip_loop.simps [of rs n q])
    next
      case True
      obtain r q' where adv: "advance q = (r, q')" by (cases "advance q")
      show ?thesis
      proof (cases r)
        case None
        then have "current q' = None" using advance_current [of q] adv by simp
        with "1.prems" Some True adv None show ?thesis by (simp add: auto_skip_loop.simps [of rs n q])
      next
        case (Some v)
        with "1.prems" \<open>current q = _\<close> True adv
        have "current (snd (auto_skip_loop rs (n + 1) q')) = Some t"
          by (simp add: auto_skip_loop.simps [of rs n q])
        from "1.IH" [OF \<open>current q = Some u\<close> _ adv [symmetric] Some this] True show ?thesis by simp
      qed
    qed
  qed
qed

text \<open>Where the loop stops: everything between the old and the new cursor is disliked.\<close>

lemma auto_skip_loop_spec:
  assumes "pq_ok q" "pq_current q = Some i"
  shows "case auto_skip_loop rs n q of (m, q') \<Rightarrow>
     pq_items q' = pq_items q
     \<and> (\<forall>j. i \<le> j \<and> j < i + (m - n) \<longrightarrow> is_disliked (pq_items q ! j) rs)
     \<and> n \<le> m
     \<and> (if i + (m - n) < length (pq_items q) then pq_current q' = Some (i + (m - n))
        else pq_current q' = None \<and> i + (m - n) = length (pq_items q))"
  using assms
proof (induction rs n q arbitrary: i rule: auto_skip_loop.induct)
  case (1 rs n q)
  have i: "i < length (pq_items q)" using "1.prems" by (simp add: pq_ok_def)
  have cur: "current q = Some (pq_items q ! i)" using "1.prems" by (simp add: current_ok)
  show ?case
  proof (cases "is_disliked (pq_items q ! i) rs")
    case False
    with cur i "1.prems"(2) show ?thesis by (auto simp: auto_skip_loop.simps [of rs n q])
  next
    case dis: True
    show ?thesis
    proof (cases "i + 1 < length (pq_items q)")
      case False
      with dis cur i "1.prems"(2) show ?thesis
        by (auto simp: auto_skip_loop.simps [of rs n q] advance_def le_less_Suc_eq)
    next
      case True
      let ?q = "q\<lparr>pq_current := Some (i + 1)\<rparr>"
      have adv: "advance q = (Some (pq_items q ! (i + 1)), ?q)"
        using True "1.prems"(2) by (simp add: advance_def current_def nth_opt_def)
      have step: "auto_skip_loop rs n q = auto_skip_loop rs (n + 1) ?q"
        using dis cur adv by (simp add: auto_skip_loop.simps [of rs n q])
      obtain m q' where m: "auto_skip_loop rs (n + 1) ?q = (m, q')" by (cases "auto_skip_loop rs (n + 1) ?q")
      have "pq_ok ?q" using True by (simp add: pq_ok_def)
      from "1.IH" [OF cur _ adv [symmetric] refl this, of "i + 1"] dis m
      have IH: "pq_items q' = pq_items q" "Suc n \<le> m"
          "\<And>j. i + 1 \<le> j \<Longrightarrow> j < i + 1 + (m - Suc n) \<Longrightarrow> is_disliked (pq_items q ! j) rs"
          "i + 1 + (m - Suc n) < length (pq_items q) \<Longrightarrow> pq_current q' = Some (i + 1 + (m - Suc n))"
          "\<not> i + 1 + (m - Suc n) < length (pq_items q) \<Longrightarrow>
             pq_current q' = None \<and> i + 1 + (m - Suc n) = length (pq_items q)"
        by (auto split: if_splits)
      have shift: "i + 1 + (m - Suc n) = i + (m - n)" using IH(2) by simp
      have "is_disliked (pq_items q ! j) rs" if "i \<le> j" "j < i + (m - n)" for j
        using IH(3) [of j] that dis shift by (cases "j = i") simp_all
      with IH(1,2,4,5) show ?thesis unfolding step m shift by auto
    qed
  qed
qed

lemma rev_find_Some:
  "rev_find p n = Some i \<longleftrightarrow> i < n \<and> p i \<and> (\<forall>j. i < j \<and> j < n \<longrightarrow> \<not> p j)"
  by (induction n) (auto simp: less_Suc_eq)

lemma rev_find_None: "rev_find p n = None \<longleftrightarrow> (\<forall>j < n. \<not> p j)"
  by (induction n) (auto simp: less_Suc_eq)

section \<open>Outbox\<close>

lemma requeue_failed_events_outbox:
  "ap_events_outbox (requeue_failed_events evs a) =
     filter (\<lambda>ev. pe_attempts ev < MAX_EVENT_ATTEMPTS)
       (map (\<lambda>ev. ev\<lparr>pe_attempts := pe_attempts ev + 1\<rparr>) evs) @ ap_events_outbox a"
  by (simp add: requeue_failed_events_def)

text \<open>One flush that fails: the events leave the outbox and come back with one more attempt.\<close>

fun failed_flushes :: "nat \<Rightarrow> pending_event list \<Rightarrow> pending_event list" where
  "failed_flushes 0 evs = evs"
| "failed_flushes (Suc n) evs =
     failed_flushes n (filter (\<lambda>ev. pe_attempts ev < MAX_EVENT_ATTEMPTS)
       (map (\<lambda>ev. ev\<lparr>pe_attempts := pe_attempts ev + 1\<rparr>) evs))"

lemma attempts_left:
  "(1 :: 8 word) < MAX_EVENT_ATTEMPTS" "(2 :: 8 word) < MAX_EVENT_ATTEMPTS"
  "\<not> (3 :: 8 word) < MAX_EVENT_ATTEMPTS"
  unfolding MAX_EVENT_ATTEMPTS_def by code_simp+

lemma failed_flush_step:
  assumes "\<forall>ev \<in> set evs. pe_attempts ev = n"
  shows "filter (\<lambda>ev. pe_attempts ev < MAX_EVENT_ATTEMPTS)
       (map (\<lambda>ev. ev\<lparr>pe_attempts := pe_attempts ev + 1\<rparr>) evs) =
     (if n + 1 < MAX_EVENT_ATTEMPTS then map (\<lambda>ev. ev\<lparr>pe_attempts := n + 1\<rparr>) evs else [])"
  using assms by (induction evs) (auto simp: filter_empty_conv)

lemma failed_flushes_drop:
  assumes "\<forall>ev \<in> set evs. pe_attempts ev = 0"
  shows "failed_flushes 2 evs = map (\<lambda>ev. ev\<lparr>pe_attempts := 2\<rparr>) evs"
    and "failed_flushes 3 evs = []"
proof -
  let ?e1 = "map (\<lambda>ev. ev\<lparr>pe_attempts := 1\<rparr>) evs"
  let ?e2 = "map (\<lambda>ev. ev\<lparr>pe_attempts := 2\<rparr>) evs"
  have 1: "failed_flushes (Suc n) evs = failed_flushes n ?e1" for n
    using failed_flush_step [OF assms] attempts_left(1) by simp
  have 2: "failed_flushes (Suc n) ?e1 = failed_flushes n ?e2" for n
    using failed_flush_step [of ?e1 1] attempts_left(2) by (simp add: comp_def)
  have 3: "failed_flushes (Suc n) ?e2 = failed_flushes n []" for n
    using failed_flush_step [of ?e2 2] attempts_left(3) by simp
  show "failed_flushes 2 evs = ?e2"
    by (simp only: numeral_2_eq_2 1 2 failed_flushes.simps(1))
  show "failed_flushes 3 evs = []"
    by (simp only: numeral_3_eq_3 1 2 3 failed_flushes.simps(1))
qed

section \<open>The local queue stays in range\<close>

lemma auto_skip_loop_ok: "pq_ok q \<Longrightarrow> pq_ok (snd (auto_skip_loop rs n q))"
proof (induction rs n q rule: auto_skip_loop.induct)
  case (1 rs n q)
  show ?case
    using 1 pq_ok_ops(4) [of q]
    by (subst auto_skip_loop.simps) (auto split: option.splits prod.splits)
qed

lemma auto_skip_forward_queue [simp]:
  "ap_queue (auto_skip_forward a) = snd (auto_skip_loop (ap_ratings a) 0 (ap_queue a))"
  by (simp add: auto_skip_forward_def sync_queue_cursor_def split_beta Let_def)

lemma start_current_playable_queue [simp]:
  "ap_queue (snd (start_current_playable a)) = snd (auto_skip_loop (ap_ratings a) 0 (ap_queue a))"
  by (simp add: start_current_playable_def Let_def player_stop_def)

lemma sync_queue_cursor_fields [simp]:
  "ap_queue (sync_queue_cursor a) = ap_queue a" "ap_sync (sync_queue_cursor a) = ap_sync a"
  by (simp_all add: sync_queue_cursor_def)

lemma room_gestures_queue [simp]:
  "ap_queue (snd (toggle_playing a)) = ap_queue a"
  "ap_queue (snd (room_advance now cause a)) = ap_queue a"
  "ap_queue (snd (room_prev now a)) = ap_queue a"
  "ap_queue (snd (remove_selected now a)) = ap_queue a"
  "ap_queue (snd (clear_upcoming a)) = ap_queue a"
  "ap_queue (snd (reorder_selected kind a)) = ap_queue a"
  "ap_queue (snd (start_session fresh sid now queued start a)) = ap_queue a"
  "ap_queue (snd (push_tracks fresh queued pn a)) = ap_queue a"
  "ap_queue (snd (jump_selected now sel a)) = ap_queue a"
  by (auto simp: toggle_playing_def room_advance_def room_prev_def remove_selected_def
      clear_upcoming_def reorder_selected_def start_session_def push_tracks_def jump_selected_def
      Let_def split: option.split)

text \<open>While the room is online no gesture touches the replica: the model is echo-driven.\<close>

lemma room_gestures_replica [simp]:
  "rs_room (ap_sync (snd (toggle_playing a))) = rs_room (ap_sync a)"
  "rs_room (ap_sync (snd (room_advance now cause a))) = rs_room (ap_sync a)"
  "rs_room (ap_sync (snd (room_prev now a))) = rs_room (ap_sync a)"
  "rs_room (ap_sync (snd (remove_selected now a))) = rs_room (ap_sync a)"
  "rs_room (ap_sync (snd (clear_upcoming a))) = rs_room (ap_sync a)"
  "rs_room (ap_sync (snd (reorder_selected kind a))) = rs_room (ap_sync a)"
  "rs_room (ap_sync (snd (start_session fresh sid now queued start a))) = rs_room (ap_sync a)"
  "rs_room (ap_sync (snd (push_tracks fresh queued pn a))) = rs_room (ap_sync a)"
  "rs_room (ap_sync (snd (jump_selected now sel a))) = rs_room (ap_sync a)"
  by (auto simp: toggle_playing_def room_advance_def room_prev_def remove_selected_def
      clear_upcoming_def reorder_selected_def start_session_def push_tracks_def jump_selected_def
      Let_def split: option.split)

lemma local_gestures_ok:
  assumes "pq_ok (ap_queue a)"
  shows "pq_ok (ap_queue (snd (transport_toggle a)))"
    and "pq_ok (ap_queue (snd (next_track now cause a)))"
    and "pq_ok (ap_queue (snd (prev_track now a)))"
    and "pq_ok (ap_queue (snd (queue_remove_selected now a)))"
    and "pq_ok (ap_queue (snd (queue_clear_upcoming a)))"
    and "pq_ok (ap_queue (snd (queue_move kind a)))"
    and "pq_ok (ap_queue (snd (play_new_queue fresh sid now queued start a)))"
    and "pq_ok (ap_queue (snd (enqueue_tracks fresh queued pn a)))"
proof -
  show "pq_ok (ap_queue (snd (transport_toggle a)))"
    using assms by (auto simp: transport_toggle_def Let_def auto_skip_loop_ok pq_ok_ops)
  show "pq_ok (ap_queue (snd (next_track now cause a)))"
    using assms pq_ok_ops(4) [of "ap_queue a"]
    by (auto simp: next_track_def Let_def auto_skip_loop_ok split_beta player_stop_def)
  show "pq_ok (ap_queue (snd (prev_track now a)))"
    using assms pq_ok_ops(10) [of "ap_queue a"]
    by (auto simp: prev_track_def Let_def split_beta split: option.split)
  show "pq_ok (ap_queue (snd (queue_remove_selected now a)))"
    using assms
    by (auto simp: queue_remove_selected_def Let_def auto_skip_loop_ok pq_ok_ops player_stop_def
        split: option.split)
  show "pq_ok (ap_queue (snd (queue_clear_upcoming a)))"
    using assms
    by (auto simp: queue_clear_upcoming_def Let_def pq_ok_ops split: option.split)
  show "pq_ok (ap_queue (snd (queue_move kind a)))"
    using assms by (auto simp: queue_move_def pq_ok_ops split: option.split)
  show "pq_ok (ap_queue (snd (play_new_queue fresh sid now queued start a)))"
    using assms by (simp add: play_new_queue_def Let_def pq_ok_ops)
  show "pq_ok (ap_queue (snd (enqueue_tracks fresh queued pn a)))"
    using assms by (simp add: enqueue_tracks_def pq_ok_ops)
qed

text \<open>Local and room moves reorder identically: the ops a move submits, once applied, show what
  the local move does.\<close>

lemma queue_move_matches_room:
  assumes "shows_room f (rs_room (ap_sync a)) (ap_queue a)"
    and ok: "cursor_ok (rs_room (ap_sync a))" "ids_ok (rs_room (ap_sync a))"
  shows "shows_room f (run_ops (submitted (fst (reorder_selected kind a))) now (rs_room (ap_sync a)))
     (ap_queue (snd (queue_move kind (upd_sync (\<lambda>s. s\<lparr>rs_phase := Offline\<rparr>) a))))"
proof -
  let ?room = "rs_room (ap_sync a)"
  have q: "pq_current (ap_queue a) = cursor ?room" "length (pq_items (ap_queue a)) = length (queue_items ?room)"
    using assms(1) by (auto simp: shows_room_def)
  show ?thesis
  proof (cases "ap_queue_table a")
    case None
    then show ?thesis using assms(1) by (simp add: queue_move_def reorder_selected_def online_def)
  next
    case (Some sel)
    show ?thesis
    proof (cases "move_target sel (length (queue_items ?room)) (cursor ?room) kind")
      case None
      with Some q assms(1) show ?thesis
        by (simp add: queue_move_def reorder_selected_def online_def Let_def)
    next
      case (Some t)
      then have sel: "sel < length (queue_items ?room)" by (simp add: move_target_def split: if_splits)
      note shown = move_item_shows_reorder [OF assms(1) ok sel, of t]
      have "shows_room f (s\<lparr>version := v\<rparr>) q \<longleftrightarrow> shows_room f s q" for s v q
        by (simp add: shows_room_def)
      with shown Some \<open>ap_queue_table a = Some sel\<close> q sel show ?thesis
        by (simp add: queue_move_def reorder_selected_def online_def Let_def nth_opt_def apply_op_def)
    qed
  qed
qed

section \<open>Properties\<close>

text \<open>
  Moving a queue row offline and in the room do the same: if the local queue shows the room,
  then after the operations the room gesture submits, the room shows the queue the local gesture
  leaves, cursor included, for every kind of move and every selection.
\<close>

theorem moves_agree_local_and_room:
  assumes "shows_room f (rs_room (ap_sync a)) (ap_queue a)"
    and "cursor_ok (rs_room (ap_sync a))" "ids_ok (rs_room (ap_sync a))"
  shows "shows_room f (run_ops (submitted (fst (reorder_selected kind a))) now (rs_room (ap_sync a)))
     (ap_queue (snd (queue_move kind (upd_sync (\<lambda>s. s\<lparr>rs_phase := Offline\<rparr>) a))))"
  using assms by (rule queue_move_matches_room)

theorem moves_agree_local_and_room_witness:
  "shows_room (resolve_item Map.empty)
     (run_ops (submitted (fst (reorder_selected Down demo_online))) 0 demo_state)
     (ap_queue (snd (queue_move Down (upd_sync (\<lambda>s. s\<lparr>rs_phase := Offline\<rparr>) demo_online))))"
proof -
  have room: "rs_room (ap_sync demo_online) = demo_state" by (simp add: demo_online_def)
  have ok: "cursor_ok demo_state" "ids_ok demo_state"
    by (simp_all add: cursor_ok_def ids_ok_def demo_items_def)
  have "shows_room (resolve_item (rs_meta (ap_sync demo_app))) demo_state (ap_queue demo_online)"
    using project_shows [of "upd_sync (\<lambda>s. s\<lparr>rs_room := demo_state\<rparr>) demo_app"] ok
    by (simp add: demo_online_def)
  then have shown: "shows_room (resolve_item Map.empty) demo_state (ap_queue demo_online)"
    by (simp add: demo_app_def app_new_def room_state_new_def)
  show ?thesis
    using moves_agree_local_and_room [of "resolve_item Map.empty" demo_online Down 0, unfolded room,
      OF shown ok] .
qed

text \<open>
  Dislike auto-skip of the local queue: from cursor \<open>i\<close> the loop counts exactly the disliked
  rows it walks over, stops at the first row that is not disliked, and clears the cursor when only
  disliked rows are left. The rows themselves do not change.
\<close>

theorem auto_skip_stops_at_first_playable:
  assumes "pq_ok q" "pq_current q = Some i"
  shows "case auto_skip_loop rs 0 q of (m, q') \<Rightarrow>
     pq_items q' = pq_items q
     \<and> (\<forall>j \<in> {i ..< i + m}. is_disliked (pq_items q ! j) rs)
     \<and> (if i + m < length (pq_items q)
        then pq_current q' = Some (i + m) \<and> \<not> is_disliked (pq_items q ! (i + m)) rs
        else pq_current q' = None \<and> i + m = length (pq_items q))"
proof -
  obtain m q' where r: "auto_skip_loop rs 0 q = (m, q')" by (cases "auto_skip_loop rs 0 q")
  from auto_skip_loop_spec [OF assms, where rs = rs and n = 0] r have spec:
    "pq_items q' = pq_items q" "\<And>j. i \<le> j \<Longrightarrow> j < i + m \<Longrightarrow> is_disliked (pq_items q ! j) rs"
    "if i + m < length (pq_items q) then pq_current q' = Some (i + m)
     else pq_current q' = None \<and> i + m = length (pq_items q)" by (auto split: if_splits)
  have "\<not> is_disliked (pq_items q ! (i + m)) rs" if "i + m < length (pq_items q)"
  proof -
    have "current q' = Some (pq_items q ! (i + m))"
      using spec(1,3) that by (simp add: current_def nth_opt_def)
    with r show ?thesis using auto_skip_loop_current [where rs = rs and n = 0 and q = q] by simp
  qed
  with spec r show ?thesis by simp
qed

theorem auto_skip_stops_at_first_playable_witness:
  "auto_skip_loop [''a'' \<mapsto> Dislike] 0
     \<lparr>pq_items = [demo_track ''a'', demo_track ''b''], pq_current = Some 0\<rparr> =
   (1, \<lparr>pq_items = [demo_track ''a'', demo_track ''b''], pq_current = Some 1\<rparr>)"
proof -
  let ?q = "\<lparr>pq_items = [demo_track ''a'', demo_track ''b''], pq_current = Some 0\<rparr>"
  let ?rs = "[''a'' \<mapsto> Dislike]"
  have dis: "is_disliked (demo_track ''a'') ?rs" "\<not> is_disliked (demo_track ''b'') ?rs"
    by (simp_all add: is_disliked_def demo_track_def unhydrated_def)
  have ok: "pq_ok ?q" "pq_current ?q = Some 0" by (simp_all add: pq_ok_def)
  obtain m q' where r: "auto_skip_loop ?rs 0 ?q = (m, q')" by (cases "auto_skip_loop ?rs 0 ?q")
  from auto_skip_stops_at_first_playable [OF ok, where rs = ?rs] r have
    spec: "pq_items q' = pq_items ?q" "\<forall>j \<in> {0 ..< m}. is_disliked (pq_items ?q ! j) ?rs"
    "if m < 2 then pq_current q' = Some m \<and> \<not> is_disliked (pq_items ?q ! m) ?rs
     else pq_current q' = None \<and> m = 2" by (auto simp: numeral_2_eq_2 split: if_splits)
  have "m \<noteq> 0"
  proof
    assume "m = 0"
    with spec(3) dis(1) show False by simp
  qed
  moreover have "m \<noteq> 2"
  proof
    assume "m = 2"
    have "is_disliked (pq_items ?q ! 1) ?rs" by (rule bspec [OF spec(2)]) (simp add: \<open>m = 2\<close>)
    with dis(2) show False by simp
  qed
  ultimately have "m = 1" using spec(3) by (simp split: if_splits)
  with r spec(1,3) show ?thesis by simp
qed

text \<open>
  Every transport and queue gesture keeps the local queue's cursor absent or in range.
\<close>

datatype gesture = GToggle | GNext advance_cause | GPrev | GRemove | GClearUpcoming | GMove move_kind
  | GPlayNew "queued_track list" nat | GEnqueue "queued_track list" bool

fun run_gesture :: "(nat \<Rightarrow> string) \<Rightarrow> string \<Rightarrow> int \<Rightarrow> gesture \<Rightarrow> reducer" where
  "run_gesture fresh sid now GToggle a = transport_toggle a"
| "run_gesture fresh sid now (GNext c) a = next_track now c a"
| "run_gesture fresh sid now GPrev a = prev_track now a"
| "run_gesture fresh sid now GRemove a = queue_remove_selected now a"
| "run_gesture fresh sid now GClearUpcoming a = queue_clear_upcoming a"
| "run_gesture fresh sid now (GMove kind) a = queue_move kind a"
| "run_gesture fresh sid now (GPlayNew xs start) a = play_new_queue fresh sid now xs start a"
| "run_gesture fresh sid now (GEnqueue xs pn) a = enqueue_tracks fresh xs pn a"

theorem gestures_keep_queue_in_range:
  assumes "pq_ok (ap_queue a)"
  shows "pq_ok (ap_queue (fold (\<lambda>g b. snd (run_gesture fresh sid now g b)) gs a))"
  using assms
proof (induction gs arbitrary: a)
  case (Cons g gs)
  have "pq_ok (ap_queue (snd (run_gesture fresh sid now g a)))"
    using Cons.prems by (cases g) (simp_all add: local_gestures_ok)
  from Cons.IH [OF this] show ?case by simp
qed simp

theorem gestures_keep_queue_in_range_witness:
  "pq_ok (ap_queue (fold (\<lambda>g b. snd (run_gesture fresh_ids ''s'' 0 g b))
     [GPlayNew [demo_track ''a'', demo_track ''b''] 5, GNext Manual, GPrev, GClearUpcoming]
     (app_new True False False 5 ''f'')))"
  by (rule gestures_keep_queue_in_range) (simp add: app_new_def)

text \<open>
  A batch of fresh listening events whose flush keeps failing goes out three times: after two
  failures it is still there, complete and in order, after the third it is dropped.
\<close>

theorem failed_events_sent_three_times:
  assumes "\<forall>ev \<in> set evs. pe_attempts ev = 0" "ap_events_outbox a = []"
  shows "let flush = (\<lambda>b. requeue_failed_events (ap_events_outbox b) (b\<lparr>ap_events_outbox := []\<rparr>));
             a0 = a\<lparr>ap_events_outbox := evs\<rparr>
         in ap_events_outbox (flush (flush a0)) = map (\<lambda>ev. ev\<lparr>pe_attempts := 2\<rparr>) evs
            \<and> ap_events_outbox (flush (flush (flush a0))) = []"
proof -
  define flush where
    "flush b = requeue_failed_events (ap_events_outbox b) (b\<lparr>ap_events_outbox := []\<rparr>)" for b
  have step: "ap_events_outbox (flush b) = failed_flushes 1 (ap_events_outbox b)" for b
    by (simp add: flush_def requeue_failed_events_outbox)
  have two: "failed_flushes 1 (failed_flushes 1 xs) = failed_flushes 2 xs" for xs
    by (simp add: numeral_2_eq_2)
  have three: "failed_flushes 1 (failed_flushes 1 (failed_flushes 1 xs)) = failed_flushes 3 xs" for xs
    by (simp add: numeral_3_eq_3)
  have "ap_events_outbox (flush (flush (a\<lparr>ap_events_outbox := evs\<rparr>))) = failed_flushes 2 evs"
    by (simp only: step two) simp
  moreover have "ap_events_outbox (flush (flush (flush (a\<lparr>ap_events_outbox := evs\<rparr>)))) = failed_flushes 3 evs"
    by (simp only: step three) simp
  ultimately show ?thesis
    using failed_flushes_drop [OF assms(1)] unfolding Let_def flush_def [symmetric] by simp
qed

theorem failed_events_sent_three_times_witness:
  "let flush = (\<lambda>b. requeue_failed_events (ap_events_outbox b) (b\<lparr>ap_events_outbox := []\<rparr>));
       a0 = (app_new True False True 5 ''f'')\<lparr>ap_events_outbox := [pending_skip ''t'' 1000 5]\<rparr>
   in ap_events_outbox (flush (flush a0)) = map (\<lambda>ev. ev\<lparr>pe_attempts := 2\<rparr>) [pending_skip ''t'' 1000 5]
      \<and> ap_events_outbox (flush (flush (flush a0))) = []"
  by (rule failed_events_sent_three_times) (simp_all add: pending_skip_def app_new_def)

end
