(* ===== verification/Tui_Autoplay.thy ===== *)
theory Tui_Autoplay
  imports Tui_Playback
begin

text \<open>
  Autoplay (\<open>music-cli/src/tui/update/autoplay.rs\<close>) and the playback arms of the dispatcher
  (\<open>update/mod.rs\<close>): the tick, audio resolution, prefetch, hydration and flush completions.
  \<open>tick\<close> and the counters are \<open>u64\<close>s that count 250 ms ticks and toggles, modelled as naturals.

  Lemmas: at most one refill is in flight, a completion of an older generation changes nothing,
  and what a completion adds is new to the queue, without repetitions and within the shortfall;
  an online device whose output is off never starts the player.
\<close>

section \<open>autoplay.rs\<close>

definition COOLDOWN_TICKS :: nat where
  "COOLDOWN_TICKS = 6"

definition UNDERDELIVERY_TICKS :: nat where
  "UNDERDELIVERY_TICKS = 120"

definition upd_auto :: "(autoplay_state \<Rightarrow> autoplay_state) \<Rightarrow> app \<Rightarrow> app" where
  "upd_auto f a = a\<lparr>ap_autoplay := f (ap_autoplay a)\<rparr>"

lemma upd_auto_fields [simp]:
  "ap_autoplay (upd_auto f a) = f (ap_autoplay a)" "ap_sync (upd_auto f a) = ap_sync a"
  "ap_queue (upd_auto f a) = ap_queue a" "ap_tick (upd_auto f a) = ap_tick a"
  "ap_player (upd_auto f a) = ap_player a" "ap_playback (upd_auto f a) = ap_playback a"
  by (simp_all add: upd_auto_def)

definition auto_session_id :: "app \<Rightarrow> string" where
  "auto_session_id a =
     (case client_session_anchor (ap_sync a) of
        None \<Rightarrow> au_feedback_session (ap_autoplay a)
      | Some anchor \<Rightarrow> session_str (anchor_session_id anchor))"

definition upcoming_after_cursor :: "app \<Rightarrow> nat" where
  "upcoming_after_cursor a =
     (case pq_current (ap_queue a) of
        Some c \<Rightarrow> length (pq_items (ap_queue a)) - (c + 1)
      | None \<Rightarrow> 0)"

definition reconcile :: "app \<Rightarrow> app" where
  "reconcile a =
     (if au_recommended (ap_autoplay a) = {} \<and> au_pending_push (ap_autoplay a) = {} then a
      else let in_queue = set (map qt_id (pq_items (ap_queue a)))
           in upd_auto (\<lambda>s. s\<lparr>au_recommended := {k \<in> au_recommended s. k \<in> in_queue},
                              au_pending_push := {k \<in> au_pending_push s. k \<notin> in_queue}\<rparr>) a)"

definition maybe_refill :: reducer where
  "maybe_refill a =
     (if \<not> au_enabled (ap_autoplay a) \<or> au_inflight (ap_autoplay a) then ([], a)
      else if rs_phase (ap_sync a) = Disabled then ([], a)
      else if ap_tick a < au_cooldown_until (ap_autoplay a) then ([], a)
      else case pq_current (ap_queue a) of
        None \<Rightarrow> ([], a)
      | Some c \<Rightarrow>
          let a1 = reconcile a;
              upcoming = upcoming_after_cursor a1 + card (au_pending_push (ap_autoplay a1));
              min_upcoming = au_min_upcoming (ap_autoplay a1)
          in if min_upcoming \<le> upcoming then ([], a1)
             else
               let need = min_upcoming - upcoming;
                   ids = map qt_id (pq_items (ap_queue a1))
               in if ids = [] then ([], a1)
                  else
                    let anchor = map_option (\<lambda>x. track_str (anchor_track_id x))
                          (client_session_anchor (ap_sync a1));
                        a2 = upd_auto (\<lambda>s. s\<lparr>au_inflight := True\<rparr>) a1
                    in ([AutoplayRefill ids c (au_recommended (ap_autoplay a2)) anchor
                          (auto_session_id a2) need (au_generation (ap_autoplay a2))], a2))"

definition autoplay_toggle :: reducer where
  "autoplay_toggle a =
     (let a1 = upd_auto (\<lambda>s. s\<lparr>au_enabled := \<not> au_enabled s, au_generation := au_generation s + 1,
            au_inflight := False, au_cooldown_until := 0, au_pending_push := {}\<rparr>) a;
          a2 = set_status (if au_enabled (ap_autoplay a1)
                 then ''autoplay on '' @ EM_DASH @ '' keeping the queue topped up''
                 else ''autoplay off'') False a1
      in if au_enabled (ap_autoplay a2) then maybe_refill a2 else ([], a2))"

datatype station_error = Unavailable | StationOther string

definition arm_cooldown :: "nat \<Rightarrow> nat \<Rightarrow> app \<Rightarrow> app" where
  "arm_cooldown added need a =
     upd_auto (\<lambda>s. s\<lparr>au_cooldown_until :=
       ap_tick a + (if added < need then UNDERDELIVERY_TICKS else COOLDOWN_TICKS)\<rparr>) a"

definition refill_fresh :: "app \<Rightarrow> track list \<Rightarrow> track list" where
  "refill_fresh a tracks =
     (let in_queue = set (map qt_id (pq_items (ap_queue a)));
          live_need = au_min_upcoming (ap_autoplay a) - upcoming_after_cursor a
      in take live_need (dedup_by (\<lambda>t. track_str (t_id t)) {}
           (filter (\<lambda>t. track_str (t_id t) \<notin> in_queue) tracks)))"

definition on_refilled ::
  "(nat \<Rightarrow> string) \<Rightarrow> nat \<Rightarrow> nat \<Rightarrow> station_error + track list \<Rightarrow> reducer" where
  "on_refilled fresh_id generation need result a =
     (if generation \<noteq> au_generation (ap_autoplay a) then ([], a)
      else
        let a1 = upd_auto (\<lambda>s. s\<lparr>au_inflight := False\<rparr>) a
        in case result of
             Inl Unavailable \<Rightarrow> ([], arm_cooldown 0 need a1)
           | Inl (StationOther e) \<Rightarrow>
               ([], arm_cooldown 0 need (set_status (''autoplay refill failed: '' @ e) True a1))
           | Inr tracks \<Rightarrow>
               let fresh = refill_fresh a1 tracks;
                   added = length fresh;
                   (effects, a2) =
                     (if 0 < added then
                        let ids = set (map (\<lambda>t. track_str (t_id t)) fresh);
                            b1 = upd_auto (\<lambda>s. s\<lparr>au_recommended := au_recommended s \<union> ids,
                                   au_pending_push := (if online (ap_sync a1)
                                     then au_pending_push s \<union> ids else au_pending_push s)\<rparr>) a1;
                            b2 = set_status (''autoplay added '' @ nat_str added @ '' track(s)'') False b1
                        in enqueue_tracks fresh_id (map to_queued fresh) False b2
                      else ([], a1))
               in (effects, arm_cooldown added need a2))"

definition set_vote :: "string \<Rightarrow> feedback_vote option \<Rightarrow> app \<Rightarrow> app" where
  "set_vote tid v a = upd_auto (\<lambda>s. s\<lparr>au_votes := (au_votes s)(tid := v)\<rparr>) a"

text \<open>The UTF-8 bytes of the thumbs-up and thumbs-down emoji.\<close>

definition THUMBS_UP :: string where
  "THUMBS_UP = [CHR 0xF0, CHR 0x9F, CHR 0x91, CHR 0x8D]"

definition THUMBS_DOWN :: string where
  "THUMBS_DOWN = [CHR 0xF0, CHR 0x9F, CHR 0x91, CHR 0x8E]"

definition feedback :: "feedback_vote \<Rightarrow> reducer" where
  "feedback vote a =
     (case current (ap_queue a) of
        None \<Rightarrow> ([], set_status ''nothing playing to rate'' False a)
      | Some t \<Rightarrow>
          let tid = qt_id t
          in if tid \<notin> au_recommended (ap_autoplay a)
             then ([], set_status ''thumbs only apply to autoplay picks'' False a)
             else if tid \<in> au_feedback_inflight (ap_autoplay a)
             then ([], set_status (''feedback still saving '' @ EM_DASH @ '' try again'') False a)
             else
               let before = au_votes (ap_autoplay a) tid;
                   target = (if before = Some vote then None else Some vote);
                   a1 = set_vote tid target a;
                   a2 = upd_auto (\<lambda>s. s\<lparr>au_feedback_inflight := insert tid (au_feedback_inflight s)\<rparr>) a1;
                   note = (case target of
                       Some VoteUp \<Rightarrow> THUMBS_UP @ '' more like this''
                     | Some VoteDown \<Rightarrow> THUMBS_DOWN @ '' less like this''
                     | None \<Rightarrow> ''cleared feedback'');
                   a3 = set_status note False a2
               in ([SubmitFeedback tid target (auto_session_id a3) before], a3))"

definition on_feedback_done ::
  "string \<Rightarrow> feedback_vote option \<Rightarrow> string + unit \<Rightarrow> reducer" where
  "on_feedback_done tid before result a =
     (let a1 = upd_auto (\<lambda>s. s\<lparr>au_feedback_inflight := au_feedback_inflight s - {tid}\<rparr>) a
      in case result of
           Inl e \<Rightarrow> ([], set_status (''feedback failed: '' @ e) True (set_vote tid before a1))
         | Inr _ \<Rightarrow> ([], a1))"

section \<open>The playback arms of update\<close>

definition tick :: reducer where
  "tick a =
     (let a1 = a\<lparr>ap_tick := ap_tick a + 1\<rparr>;
          a2 = (case ap_status a1 of
              Some s \<Rightarrow> if sl_expires_at s \<le> ap_tick a1 then a1\<lparr>ap_status := None\<rparr> else a1
            | None \<Rightarrow> a1);
          (e1, a3) = signal_tick a2;
          (e2, a4) = maybe_refill a3
      in (e1 @ e2, a4))"

definition audio_ready :: "nat \<Rightarrow> string \<Rightarrow> 8 word list \<Rightarrow> reducer" where
  "audio_ready idx tid bytes a =
     (let cur = current (ap_queue a)
      in if pq_current (ap_queue a) \<noteq> Some idx
            \<or> (case cur of None \<Rightarrow> True | Some t \<Rightarrow> qt_id t \<noteq> tid)
         then
           let a1 = (if ap_pending_load a = Some idx then a\<lparr>ap_pending_load := None\<rparr> else a)
           in if online (ap_sync a1) then follow a1 else ([], a1)
         else if online (ap_sync a) \<and> \<not> rs_output_on (ap_sync a)
         then ([], a\<lparr>ap_pending_load := None\<rparr>)
         else
           let a1 = (player_load bytes tid (Option.bind cur qt_duration) a)\<lparr>ap_pending_load := None\<rparr>
           in (prefetch_next a1, a1))"

definition audio_failed :: "int \<Rightarrow> nat \<Rightarrow> string \<Rightarrow> string \<Rightarrow> reducer" where
  "audio_failed now idx tid error a =
     (if pq_current (ap_queue a) \<noteq> Some idx
         \<or> (case current (ap_queue a) of None \<Rightarrow> True | Some t \<Rightarrow> qt_id t \<noteq> tid)
      then
        let a1 = (if ap_pending_load a = Some idx then a\<lparr>ap_pending_load := None\<rparr> else a)
        in if online (ap_sync a1) then follow a1 else ([], a1)
      else
        next_track now Natural
          (set_status (''skipping '' @ tid @ '': '' @ error) True (a\<lparr>ap_pending_load := None\<rparr>)))"

definition prefetch_ready :: "string \<Rightarrow> 8 word list \<Rightarrow> reducer" where
  "prefetch_ready tid bytes a =
     ([], if (case next_up (ap_queue a) of None \<Rightarrow> False | Some t \<Rightarrow> qt_id t = tid)
          then a\<lparr>ap_prefetched := Some (tid, bytes)\<rparr> else a)"

definition events_flushed :: "pending_event list \<Rightarrow> string + unit \<Rightarrow> reducer" where
  "events_flushed events result a =
     (let a1 = a\<lparr>ap_events_inflight := False\<rparr>
      in ([], case result of Inl _ \<Rightarrow> requeue_failed_events events a1 | Inr _ \<Rightarrow> a1))"

definition tracks_hydrated :: "string list \<Rightarrow> string + track list \<Rightarrow> reducer" where
  "tracks_hydrated ids result a =
     (let a1 = upd_sync (\<lambda>s. s\<lparr>rs_hydrating := rs_hydrating s - set ids\<rparr>) a
      in case result of
           Inr tracks \<Rightarrow>
             let resolved = set (map (\<lambda>t. track_str (t_id t)) tracks);
                 a2 = upd_sync (\<lambda>s. s\<lparr>rs_hydrate_failed := rs_hydrate_failed s \<union> (set ids - resolved),
                        rs_meta := fold (\<lambda>t m. m(track_str (t_id t) \<mapsto> to_queued t)) tracks (rs_meta s)\<rparr>) a1
             in if online (ap_sync a2)
                then
                  let a3 = (if (case cursor_track_id (ap_sync a2) of
                                  None \<Rightarrow> False | Some tid \<Rightarrow> tid \<in> set ids)
                            then upd_sync (\<lambda>s. s\<lparr>rs_last_classified := None\<rparr>) a2 else a2)
                  in follow (project a3)
                else ([], a2)
         | Inl e \<Rightarrow>
             ([], upd_sync (\<lambda>s. s\<lparr>rs_hydrate_failed := rs_hydrate_failed s \<union> set ids\<rparr>) a1))"

definition rating_set :: "string \<Rightarrow> rating option \<Rightarrow> string + unit \<Rightarrow> reducer" where
  "rating_set k before result a =
     ([], case result of
            Inl e \<Rightarrow> set_status (''rating failed: '' @ e) True
                      (a\<lparr>ap_ratings := (ap_ratings a)(k := before)\<rparr>)
          | Inr _ \<Rightarrow> a)"

definition recommend_done :: "(nat \<Rightarrow> string) \<Rightarrow> station_error + track list \<Rightarrow> reducer" where
  "recommend_done fresh_id result a =
     (case result of
        Inr tracks \<Rightarrow>
          enqueue_tracks fresh_id (map to_queued tracks) False
            (set_status (''queued '' @ nat_str (length tracks) @ '' similar track(s)'') False a)
      | Inl Unavailable \<Rightarrow>
          ([], set_status (''recommendations unavailable '' @ EM_DASH
                @ '' recommender warming up or seed not embedded'') True a)
      | Inl (StationOther e) \<Rightarrow> ([], set_status (''recommend failed: '' @ e) True a))"

definition recommend_from_now_playing :: reducer where
  "recommend_from_now_playing a =
     (case (case ps_track_id (ap_playback a) of
              Some k \<Rightarrow> Some k | None \<Rightarrow> map_option qt_id (current (ap_queue a))) of
        None \<Rightarrow> ([], set_status ''nothing playing to seed recommendations from'' False a)
      | Some seed \<Rightarrow>
          ([RecommendNext seed 20],
           set_status (''finding similar tracks'' @ [CHR 0xE2, CHR 0x80, CHR 0xA6]) False a))"

section \<open>Refills\<close>

lemma reconcile_fields [simp]:
  "ap_queue (reconcile a) = ap_queue a" "ap_sync (reconcile a) = ap_sync a"
  "au_inflight (ap_autoplay (reconcile a)) = au_inflight (ap_autoplay a)"
  "au_min_upcoming (ap_autoplay (reconcile a)) = au_min_upcoming (ap_autoplay a)"
  "au_generation (ap_autoplay (reconcile a)) = au_generation (ap_autoplay a)"
  "upcoming_after_cursor (reconcile a) = upcoming_after_cursor a"
  by (simp_all add: reconcile_def Let_def upcoming_after_cursor_def split: option.split)

fun is_refill :: "effect \<Rightarrow> bool" where
  "is_refill (AutoplayRefill _ _ _ _ _ _ _) = True"
| "is_refill _ = False"

text \<open>A refill goes out exactly when the in-flight lock is taken.\<close>

lemma maybe_refill_lock:
  "au_inflight (ap_autoplay (snd (maybe_refill a))) \<longleftrightarrow>
     au_inflight (ap_autoplay a) \<or> fst (maybe_refill a) \<noteq> []"
  "list_all is_refill (fst (maybe_refill a))"
  "length (fst (maybe_refill a)) \<le> 1"
  "au_inflight (ap_autoplay a) \<Longrightarrow> fst (maybe_refill a) = []"
  by (auto simp: maybe_refill_def Let_def split: option.split)

lemma maybe_refill_generation:
  "AutoplayRefill ids c rec anchor sid need g \<in> set (fst (maybe_refill a)) \<Longrightarrow>
     g = au_generation (ap_autoplay a) \<and> 0 < need
     \<and> need \<le> au_min_upcoming (ap_autoplay a) - upcoming_after_cursor a
     \<and> ids = map qt_id (pq_items (ap_queue a)) \<and> pq_current (ap_queue a) = Some c"
  by (auto simp: maybe_refill_def Let_def split: option.splits if_splits)

lemma refill_fresh_distinct: "distinct (map (\<lambda>t. track_str (t_id t)) (refill_fresh a tracks))"
  unfolding refill_fresh_def Let_def by (simp add: distinct_dedup_by flip: take_map)

lemma refill_fresh_new:
  "t \<in> set (refill_fresh a tracks) \<Longrightarrow>
     track_str (t_id t) \<notin> qt_id ` set (pq_items (ap_queue a)) \<and> t \<in> set tracks"
  unfolding refill_fresh_def Let_def
  by (auto dest!: in_set_takeD set_dedup_by [THEN subsetD])

lemma refill_fresh_length:
  "length (refill_fresh a tracks) \<le> au_min_upcoming (ap_autoplay a) - upcoming_after_cursor a"
  by (simp add: refill_fresh_def Let_def)

lemma refill_fresh_upd [simp]:
  "refill_fresh (upd_auto (\<lambda>s. s\<lparr>au_inflight := b\<rparr>) a) tracks = refill_fresh a tracks"
  by (simp add: refill_fresh_def upcoming_after_cursor_def split: option.split)

text \<open>What a completed refill does to the local queue (offline): the fresh tracks at its end.\<close>

lemma on_refilled_queue:
  assumes "\<not> online (ap_sync a)" "generation = au_generation (ap_autoplay a)"
  shows "ap_queue (snd (on_refilled f generation need (Inr tracks) a)) =
    enqueue (map to_queued (refill_fresh a tracks)) (ap_queue a)"
  using assms
  by (simp add: on_refilled_def Let_def arm_cooldown_def enqueue_tracks_def split_beta enqueue_def)

lemma on_refilled_submits:
  assumes "online (ap_sync a)" "generation = au_generation (ap_autoplay a)"
  shows "submitted (fst (on_refilled f generation need (Inr tracks) a)) =
    map (\<lambda>(k, t). Push (QueueItemId (f k)) (t_id t) None) (enumerate 0 (refill_fresh a tracks))"
proof -
  have conc: "concat (map (\<lambda>(k, t). [Push (QueueItemId (f k)) (TrackId (qt_id t)) None])
        (enumerate n (map to_queued xs))) =
      map (\<lambda>(k, t). Push (QueueItemId (f k)) (t_id t) None) (enumerate n xs)" for n xs
    by (induction xs arbitrary: n) (simp_all add: to_queued_def)
  have sub: "submitted (concat (map (\<lambda>(k, t). [SyncSubmit (Push (QueueItemId (f k)) (TrackId (qt_id t)) None)])
        (enumerate n (map to_queued xs)))) =
      concat (map (\<lambda>(k, t). [Push (QueueItemId (f k)) (TrackId (qt_id t)) None])
        (enumerate n (map to_queued xs)))" for n xs
    by (induction xs arbitrary: n) simp_all
  show ?thesis
    using assms sub [of 0 "refill_fresh a tracks"] conc [of 0 "refill_fresh a tracks"]
    by (auto simp: on_refilled_def Let_def enqueue_tracks_def push_tracks_def split_beta)
qed

section \<open>A silent remote stays silent\<close>

text \<open>The commands that make sound: loading starts the sink, playing resumes it.\<close>

fun audible :: "cmd \<Rightarrow> bool" where
  "audible (CmdLoad _ _ _) = True"
| "audible CmdPlay = True"
| "audible CmdToggle = True"
| "audible _ = False"

definition audible_log :: "app \<Rightarrow> cmd list" where
  "audible_log a = (case ap_player a of None \<Rightarrow> [] | Some hist \<Rightarrow> filter audible hist)"

lemma audible_log_send [simp]:
  "audible_log (send_cmd c a) = audible_log a @
     (if audible c \<and> ap_player a \<noteq> None then [c] else [])"
  by (simp add: audible_log_def send_cmd_def split: option.split)

lemma audible_log_fields [simp]:
  "audible_log (set_status t e a) = audible_log a" "audible_log (upd_sync f a) = audible_log a"
  "audible_log (a\<lparr>ap_pending_load := p\<rparr>) = audible_log a" "audible_log (project a) = audible_log a"
  "audible_log (snd (hydrate_missing a)) = audible_log a"
  by (simp_all add: audible_log_def project_def Let_def)

lemma follow_silent:
  "\<not> rs_output_on (ap_sync a) \<Longrightarrow> audible_log (snd (follow a)) = audible_log a"
  by (auto simp: follow_def drive_audio_def Let_def split_beta split: option.split)

lemma room_handle_silent:
  "\<not> rs_output_on (ap_sync a) \<Longrightarrow> audible_log (snd (room_handle now ev a)) = audible_log a"
  by (auto simp: room_handle_def adopt_snapshot_def applied_def go_offline_def Let_def
      intro!: follow_silent [THEN trans]
      split: sync_event.split server_message.split sum.split sync_phase.split)

lemma audio_ready_silent:
  "online (ap_sync a) \<Longrightarrow> \<not> rs_output_on (ap_sync a) \<Longrightarrow>
   audible_log (snd (audio_ready idx tid bytes a)) = audible_log a"
  by (auto simp: audio_ready_def Let_def intro!: follow_silent [THEN trans])

section \<open>Properties\<close>

text \<open>
  A silent remote stays silent: while "play audio on this device" is off, no server frame and
  no completed audio resolve of an online room sends the player a command that makes sound
  (\<open>load\<close>, \<open>play\<close>, \<open>toggle\<close>).
\<close>

theorem silent_remote:
  assumes "\<not> rs_output_on (ap_sync a)"
  shows "audible_log (snd (room_handle now ev a)) = audible_log a
    \<and> audible_log (snd (audio_ready idx tid bytes
        (upd_sync (\<lambda>s. s\<lparr>rs_phase := Online\<rparr>) a))) = audible_log a"
  using assms room_handle_silent audio_ready_silent [of "upd_sync (\<lambda>s. s\<lparr>rs_phase := Online\<rparr>) a"]
  by (simp add: online_def)

theorem silent_remote_witness:
  "audible_log (snd (room_handle 0 (Frame (Snapshot demo_state)) demo_app)) = audible_log demo_app"
proof -
  have "\<not> rs_output_on (ap_sync demo_app)" by code_simp
  from silent_remote [OF this] show ?thesis by simp
qed

text \<open>
  Autoplay refills. At most one refill is in flight, and only one goes out per tick; a
  completion from before the last toggle changes nothing; a current one appends to the local queue
  exactly tracks that are not in it, without repetition, and no more than the shortfall against
  \<open>min_upcoming\<close> at that moment.
\<close>

theorem autoplay_refill:
  "length (fst (maybe_refill a)) \<le> 1
   \<and> (if au_inflight (ap_autoplay a) then fst (maybe_refill a) = [] else True)
   \<and> (if g \<noteq> au_generation (ap_autoplay a) then on_refilled f g need r a = ([], a) else True)
   \<and> (\<exists>xs. ap_queue (snd (on_refilled f (au_generation (ap_autoplay a)) need (Inr tracks)
            (upd_sync (\<lambda>s. s\<lparr>rs_phase := Offline\<rparr>) a))) = enqueue (map to_queued xs) (ap_queue a)
        \<and> distinct (map (\<lambda>t. track_str (t_id t)) xs)
        \<and> (\<lambda>t. track_str (t_id t)) ` set xs \<inter> qt_id ` set (pq_items (ap_queue a)) = {}
        \<and> set xs \<subseteq> set tracks
        \<and> length xs \<le> au_min_upcoming (ap_autoplay a) - upcoming_after_cursor a)"
proof -
  let ?b = "upd_sync (\<lambda>s. s\<lparr>rs_phase := Offline\<rparr>) a"
  have "ap_queue (snd (on_refilled f (au_generation (ap_autoplay a)) need (Inr tracks) ?b)) =
      enqueue (map to_queued (refill_fresh ?b tracks)) (ap_queue a)"
    using on_refilled_queue [of ?b "au_generation (ap_autoplay a)" f need tracks]
    by (simp add: online_def)
  moreover have "upcoming_after_cursor ?b = upcoming_after_cursor a"
    by (simp add: upcoming_after_cursor_def split: option.split)
  then have "length (refill_fresh ?b tracks) \<le> au_min_upcoming (ap_autoplay a) - upcoming_after_cursor a"
    using refill_fresh_length [of ?b tracks] by simp
  moreover have "(\<lambda>t. track_str (t_id t)) ` set (refill_fresh ?b tracks) \<inter> qt_id ` set (pq_items (ap_queue a)) = {}"
      "set (refill_fresh ?b tracks) \<subseteq> set tracks"
    using refill_fresh_new [of _ ?b tracks] by auto
  moreover have "(if g \<noteq> au_generation (ap_autoplay a) then on_refilled f g need r a = ([], a) else True)"
    by (simp add: on_refilled_def)
  ultimately show ?thesis
    using refill_fresh_distinct [of ?b tracks] maybe_refill_lock(3,4) [of a] by auto
qed

end
