(* ===== verification/Session_Store.thy ===== *)
theory Session_Store
  imports Core_Types
begin

text \<open>
  The durable session-lifecycle table of \<open>music-recommend/src/sessions.rs\<close>. The SQLite table
  \<open>recommend_sessions\<close> is the list of its rows in insertion order, with \<open>session_id\<close> its
  primary key. Each method is the effect of its SQL: \<open>UPDATE ... WHERE\<close> is a \<open>map\<close>, an
  \<open>INSERT\<close> of an existing key is the error \<open>UniqueViolation\<close>, and the two statements of
  \<open>start\<close> run in one transaction, so the error leaves the table as it was.
  Where \<open>ORDER BY\<close> ties, rows come in insertion order.
\<close>

record session_row =
  sr_session_id :: session_id
  sr_anchor_track_id :: track_id
  sr_items_count :: int
  sr_started_ms :: int
  sr_ended_ms :: "int option"

datatype session_error = UniqueViolation

type_synonym session_table = "session_row list"

definition session_close :: "int \<Rightarrow> session_row \<Rightarrow> session_row" where
  "session_close ms r = (if sr_ended_ms r = None then r\<lparr>sr_ended_ms := Some ms\<rparr> else r)"

definition session_start ::
  "session_id \<Rightarrow> track_id \<Rightarrow> int \<Rightarrow> int \<Rightarrow> session_table \<Rightarrow> session_error + session_table" where
  "session_start sid anchor n started db =
     (let closed = map (session_close started) db
      in if sid \<in> sr_session_id ` set closed then Inl UniqueViolation
         else Inr (closed @ [\<lparr>sr_session_id = sid, sr_anchor_track_id = anchor,
                sr_items_count = n, sr_started_ms = started, sr_ended_ms = None\<rparr>]))"

definition session_stop :: "session_id \<Rightarrow> int \<Rightarrow> session_table \<Rightarrow> session_table" where
  "session_stop sid ended db =
     map (\<lambda>r. if sr_session_id r = sid \<and> sr_ended_ms r = None
              then r\<lparr>sr_ended_ms := Some ended\<rparr> else r) db"

definition newest_first :: "session_table \<Rightarrow> session_table" where
  "newest_first db = sort_key (\<lambda>r. - sr_started_ms r) db"

definition session_active :: "session_table \<Rightarrow> session_row option" where
  "session_active db =
     (case newest_first (filter (\<lambda>r. sr_ended_ms r = None) db) of [] \<Rightarrow> None | r # _ \<Rightarrow> Some r)"

definition session_get :: "session_id \<Rightarrow> session_table \<Rightarrow> session_row option" where
  "session_get sid db = find (\<lambda>r. sr_session_id r = sid) db"

text \<open>SQLite reads a negative \<open>LIMIT\<close> as no limit.\<close>

definition session_recent :: "int \<Rightarrow> session_table \<Rightarrow> session_table" where
  "session_recent limit db =
     (if limit < 0 then newest_first db else take (nat limit) (newest_first db))"

section \<open>Invariant: unique ids, at most one open row\<close>

definition open_rows :: "session_table \<Rightarrow> session_table" where
  "open_rows db = filter (\<lambda>r. sr_ended_ms r = None) db"

definition sessions_ok :: "session_table \<Rightarrow> bool" where
  "sessions_ok db \<longleftrightarrow> distinct (map sr_session_id db) \<and> length (open_rows db) \<le> 1"

lemma close_id [simp]: "sr_session_id (session_close ms r) = sr_session_id r"
  by (simp add: session_close_def)

lemma close_closed [simp]: "sr_ended_ms (session_close ms r) \<noteq> None"
  by (simp add: session_close_def)

lemma map_close_ids [simp]: "map sr_session_id (map (session_close ms) db) = map sr_session_id db"
  by simp

lemma open_rows_start:
  "session_start sid t n ms db = Inr db' \<Longrightarrow>
   open_rows db' = [\<lparr>sr_session_id = sid, sr_anchor_track_id = t,
      sr_items_count = n, sr_started_ms = ms, sr_ended_ms = None\<rparr>]"
  by (auto simp: session_start_def Let_def open_rows_def filter_empty_conv split: if_splits)

lemma session_start_ok:
  "sessions_ok db \<Longrightarrow> session_start sid t n ms db = Inr db' \<Longrightarrow> sessions_ok db'"
  by (frule open_rows_start)
    (auto simp: sessions_ok_def session_start_def Let_def comp_def image_image split: if_splits)

lemma session_stop_ids [simp]: "map sr_session_id (session_stop sid ms db) = map sr_session_id db"
  by (simp add: session_stop_def comp_def if_distrib cong: if_cong)

lemma open_rows_stop:
  "open_rows (session_stop sid ms db) = filter (\<lambda>r. sr_session_id r \<noteq> sid) (open_rows db)"
  by (induction db) (auto simp: open_rows_def session_stop_def)

lemma session_stop_ok: "sessions_ok db \<Longrightarrow> sessions_ok (session_stop sid ms db)"
  by (auto simp: sessions_ok_def open_rows_stop intro: order_trans [OF length_filter_le])

lemma session_active_open: "session_active db = Some r \<Longrightarrow> r \<in> set (open_rows db)"
proof -
  assume "session_active db = Some r"
  then obtain rs where "newest_first (open_rows db) = r # rs"
    by (auto simp: session_active_def open_rows_def split: list.splits)
  then have "r \<in> set (newest_first (open_rows db))" by simp
  then show ?thesis by (simp add: newest_first_def)
qed

lemma session_active_start:
  "session_start sid t n ms db = Inr db' \<Longrightarrow> map_option sr_session_id (session_active db') = Some sid"
  by (drule open_rows_start) (simp add: session_active_def newest_first_def open_rows_def)

text \<open>A closed row is never touched again: first stop wins.\<close>

lemma closed_row_frozen:
  assumes "r \<in> set db" "sr_ended_ms r \<noteq> None"
  shows "r \<in> set (session_stop sid ms db)"
    and "session_start sid t n ms db = Inr db' \<Longrightarrow> r \<in> set db'"
proof -
  show "r \<in> set (session_stop sid ms db)"
    using assms by (force simp: session_stop_def)
  show "session_start sid t n ms db = Inr db' \<Longrightarrow> r \<in> set db'"
    using assms by (force simp: session_start_def session_close_def Let_def split: if_splits)
qed

end
