(* ===== verification/Principal.thy ===== *)
theory Principal
  imports Core_Types
begin

text \<open>
  Identity and authorization of the gateway (\<open>music-gateway/src/principal.rs\<close>): roles, the
  capability map, principals and the room a principal reads and writes. \<open>require_admin\<close> is
  the route guard as a function of the injected principal: \<open>Inl\<close> the status it answers
  with, \<open>Inr\<close> when the request goes on. The HTTP status codes the modelled handlers answer
  with are the datatype \<open>status\<close>.
\<close>

datatype status =
    S_OK | S_CREATED | S_NO_CONTENT | S_SEE_OTHER | S_BAD_REQUEST | S_UNAUTHORIZED | S_FORBIDDEN
  | S_NOT_FOUND | S_CONFLICT | S_GONE | S_UNPROCESSABLE_ENTITY | S_TOO_MANY_REQUESTS
  | S_INTERNAL_SERVER_ERROR | S_ACCEPTED | S_PAYLOAD_TOO_LARGE | S_BAD_GATEWAY | S_SERVICE_UNAVAILABLE

definition OWNER_USER_ID :: int where
  "OWNER_USER_ID = 1"

datatype role = Admin | User | Guest

definition from_db_str :: "string \<Rightarrow> role option" where
  "from_db_str s =
     (if s = ''admin'' then Some Admin
      else if s = ''user'' then Some User
      else if s = ''guest'' then Some Guest
      else None)"

fun as_db_str :: "role \<Rightarrow> string" where
  "as_db_str Admin = ''admin''"
| "as_db_str User = ''user''"
| "as_db_str Guest = ''guest''"

datatype capability = AdminTools | WriteTaste | WritePlaylist | ControlRoom

fun role_can :: "role \<Rightarrow> capability \<Rightarrow> bool" where
  "role_can r AdminTools = (r = Admin)"
| "role_can r WriteTaste = (r = Admin \<or> r = User)"
| "role_can r WritePlaylist = (r = Admin \<or> r = User)"
| "role_can r ControlRoom = (r = Admin \<or> r = User \<or> r = Guest)"

record principal =
  pr_user_id :: int
  pr_role :: role
  pr_host_user_id :: "int option"

definition owner :: principal where
  "owner = \<lparr>pr_user_id = OWNER_USER_ID, pr_role = Admin, pr_host_user_id = None\<rparr>"

definition room_id :: "principal \<Rightarrow> int" where
  "room_id p = (case pr_host_user_id p of Some h \<Rightarrow> h | None \<Rightarrow> pr_user_id p)"

definition can :: "principal \<Rightarrow> capability \<Rightarrow> bool" where
  "can p cap = role_can (pr_role p) cap"

definition require_admin :: "principal option \<Rightarrow> status + principal" where
  "require_admin ext =
     (case ext of
        Some p \<Rightarrow> if can p AdminTools then Inr p else Inl S_FORBIDDEN
      | None \<Rightarrow> Inl S_UNAUTHORIZED)"

lemma role_db_roundtrip [simp]: "from_db_str (as_db_str r) = Some r"
  by (cases r) (simp_all add: from_db_str_def)

lemma from_db_str_iff: "from_db_str s = Some r \<longleftrightarrow> s = as_db_str r"
  by (cases r) (auto simp: from_db_str_def)

lemma require_admin_iff: "require_admin ext = Inr p \<longleftrightarrow> ext = Some p \<and> pr_role p = Admin"
  by (auto simp: require_admin_def can_def split: option.splits)

lemma admin_can_all: "role_can Admin cap"
  by (cases cap) simp_all

lemma guest_only_controls_room: "role_can Guest cap \<longleftrightarrow> cap = ControlRoom"
  by (cases cap) simp_all

lemma owner_room: "room_id owner = OWNER_USER_ID"
  by (simp add: room_id_def owner_def)

end
