(* ===== verification/Sync_Store.thy ===== *)
theory Sync_Store
  imports Sync_State Session_Store Principal
begin

text \<open>
  The gateway's room registry (\<open>music-gateway/src/sync/store.rs\<close>), its REST handlers
  (\<open>handlers.rs\<close>) and its WebSocket loop (\<open>ws.rs\<close>).

  A room is its \<open>SyncState\<close>, the events sent on its broadcast bus so far (oldest first) and
  the recently seen client op ids. The registry is a map from room id to room, filled on first
  access. Every method that holds the room's write lock is one function on the registry; the
  wall clock it reads is its argument \<open>now\<close>. \<open>tokio::broadcast\<close> is read through
  \<open>bus_recv\<close>: a receiver is its position in the bus, and one that lags by more than the
  capacity is told so and moved to the oldest retained event. JSON decoding is the library's:
  the handlers take the decoded body or the decoder's message.

  Lemmas: a receiver that replays what follows its snapshot reaches the room's state
  (\<open>room_tail_view\<close>), rooms do not affect each other's playback, a resent op id is not applied
  again while it is remembered, and the session table.
\<close>

section \<open>Recently seen op ids\<close>

definition SEEN_OP_IDS :: nat where
  "SEEN_OP_IDS = 512"

definition BROADCAST_CAPACITY :: nat where
  "BROADCAST_CAPACITY = 256"

definition MAX_OP_ID_LEN :: nat where
  "MAX_OP_ID_LEN = 64"

record seen_ops =
  seen_order :: "string list"
  seen_ids :: "string set"

definition seen_default :: seen_ops where
  "seen_default = \<lparr>seen_order = [], seen_ids = {}\<rparr>"

definition seen_contains :: "string \<Rightarrow> seen_ops \<Rightarrow> bool" where
  "seen_contains k s \<longleftrightarrow> k \<in> seen_ids s"

definition seen_insert :: "string \<Rightarrow> seen_ops \<Rightarrow> seen_ops" where
  "seen_insert k s =
     (if k \<in> seen_ids s then s
      else let order1 = seen_order s @ [k]; ids1 = insert k (seen_ids s)
           in if SEEN_OP_IDS < length order1
              then case order1 of
                     [] \<Rightarrow> \<lparr>seen_order = order1, seen_ids = ids1\<rparr>
                   | oldest # rest \<Rightarrow> \<lparr>seen_order = rest, seen_ids = ids1 - {oldest}\<rparr>
              else \<lparr>seen_order = order1, seen_ids = ids1\<rparr>)"

section \<open>Rooms and the registry\<close>

record applied_event =
  ev_op :: sync_op
  ev_version :: u64
  ev_op_id :: "string option"

record room_sync =
  inner :: sync_state
  bus :: "applied_event list"
  seen :: seen_ops

definition new_room :: room_sync where
  "new_room = \<lparr>inner = default_sync_state, bus = [], seen = seen_default\<rparr>"

record sync_store =
  rooms :: "int \<rightharpoonup> room_sync"
  sessions :: "session_table option"

definition new_store :: sync_store where
  "new_store = \<lparr>rooms = Map.empty, sessions = None\<rparr>"

definition with_sessions :: "session_table \<Rightarrow> sync_store" where
  "with_sessions db = new_store\<lparr>sessions := Some db\<rparr>"

text \<open>\<open>SyncStore::room\<close>: the room, created on first access.\<close>

definition get_room :: "int \<Rightarrow> sync_store \<Rightarrow> room_sync" where
  "get_room rid st = (case rooms st rid of Some r \<Rightarrow> r | None \<Rightarrow> new_room)"

definition put_room :: "int \<Rightarrow> room_sync \<Rightarrow> sync_store \<Rightarrow> sync_store" where
  "put_room rid r st = st\<lparr>rooms := (rooms st)(rid \<mapsto> r)\<rparr>"

definition touch_room :: "int \<Rightarrow> sync_store \<Rightarrow> room_sync \<times> sync_store" where
  "touch_room rid st = (get_room rid st, put_room rid (get_room rid st) st)"

definition active_session_id :: "int \<Rightarrow> sync_store \<Rightarrow> session_id option \<times> sync_store" where
  "active_session_id rid st =
     (let (r, st') = touch_room rid st
      in (map_option anchor_session_id (session_anchor (playback (inner r))), st'))"

definition now_playing_source ::
  "int \<Rightarrow> track_id \<Rightarrow> sync_store \<Rightarrow> play_source option \<times> sync_store" where
  "now_playing_source rid tid st =
     (let (r, st') = touch_room rid st; pb = playback (inner r)
      in (case Option.bind (now_playing_index pb) (nth_opt (items (queue pb))) of
            None \<Rightarrow> None
          | Some item \<Rightarrow> if track_id item \<noteq> tid then None else source item, st'))"

definition snapshot :: "int \<Rightarrow> sync_store \<Rightarrow> sync_state \<times> sync_store" where
  "snapshot rid st = (let (r, st') = touch_room rid st in (inner r, st'))"

text \<open>A receiver is the number of events sent before it subscribed.\<close>

definition subscribe :: "int \<Rightarrow> sync_store \<Rightarrow> (sync_state \<times> nat) \<times> sync_store" where
  "subscribe rid st = (let (r, st') = touch_room rid st in ((inner r, length (bus r)), st'))"

datatype bus_result = Received applied_event | Lagged nat | NothingYet

definition bus_recv :: "applied_event list \<Rightarrow> nat \<Rightarrow> bus_result \<times> nat" where
  "bus_recv b pos =
     (if length b \<le> pos then (NothingYet, pos)
      else if BROADCAST_CAPACITY < length b - pos
      then (Lagged (length b - BROADCAST_CAPACITY - pos), length b - BROADCAST_CAPACITY)
      else (Received (b ! pos), Suc pos))"

section \<open>apply\<close>

datatype apply_outcome = OutApplied u64 | OutDuplicate u64

text \<open>\<open>mirror_session_lifecycle\<close>: best effort, a failing write is logged and dropped.\<close>

definition mirror_session_lifecycle ::
  "sync_op \<Rightarrow> session_id option \<Rightarrow> int \<Rightarrow> sync_store \<Rightarrow> sync_store" where
  "mirror_session_lifecycle op active_before now st =
     (case sessions st of
        None \<Rightarrow> st
      | Some db \<Rightarrow>
          (case op of
             StartSession xs anchor sid \<Rightarrow>
               (case nth_opt xs anchor of
                  None \<Rightarrow> st
                | Some item \<Rightarrow>
                    (case session_start sid (track_id item) (i64_sat (int (length xs))) now db of
                       Inl _ \<Rightarrow> st
                     | Inr db' \<Rightarrow> st\<lparr>sessions := Some db'\<rparr>))
           | StopSession \<Rightarrow>
               (case active_before of
                  None \<Rightarrow> st
                | Some sid \<Rightarrow> st\<lparr>sessions := Some (session_stop sid now db)\<rparr>)
           | Clear \<Rightarrow>
               (case active_before of
                  None \<Rightarrow> st
                | Some sid \<Rightarrow> st\<lparr>sessions := Some (session_stop sid now db)\<rparr>)
           | _ \<Rightarrow> st))"

definition apply_with_id ::
  "int \<Rightarrow> sync_op \<Rightarrow> string option \<Rightarrow> int \<Rightarrow> sync_store \<Rightarrow> (apply_error + apply_outcome) \<times> sync_store" where
  "apply_with_id rid op op_id now st =
     (let (room, st1) = touch_room rid st;
          active_before = map_option anchor_session_id (session_anchor (playback (inner room)))
      in if (case op_id of Some k \<Rightarrow> seen_contains k (seen room) | None \<Rightarrow> False)
         then (Inr (OutDuplicate (version (inner room))), st1)
         else
           (case apply_op op now (inner room) of
              Inl e \<Rightarrow> (Inl e, st1)
            | Inr s' \<Rightarrow>
                let seen' = (case op_id of Some k \<Rightarrow> seen_insert k (seen room) | None \<Rightarrow> seen room);
                    ev = \<lparr>ev_op = op, ev_version = version s', ev_op_id = op_id\<rparr>;
                    st2 = put_room rid \<lparr>inner = s', bus = bus room @ [ev], seen = seen'\<rparr> st1
                in (Inr (OutApplied (version s')),
                    mirror_session_lifecycle op active_before now st2)))"

definition store_apply ::
  "int \<Rightarrow> sync_op \<Rightarrow> int \<Rightarrow> sync_store \<Rightarrow> (apply_error + u64) \<times> sync_store" where
  "store_apply rid op now st =
     (case apply_with_id rid op None now st of
        (Inl e, st') \<Rightarrow> (Inl e, st')
      | (Inr (OutApplied v), st') \<Rightarrow> (Inr v, st')
      | (Inr (OutDuplicate v), st') \<Rightarrow> (Inr v, st'))"

section \<open>REST handlers\<close>

definition snapshot_handler :: "principal \<Rightarrow> sync_store \<Rightarrow> sync_state \<times> sync_store" where
  "snapshot_handler p st = snapshot (room_id p) st"

definition submit_op ::
  "principal \<Rightarrow> string + sync_op \<Rightarrow> int \<Rightarrow> sync_store \<Rightarrow> (status \<times> string + u64) \<times> sync_store" where
  "submit_op p body now st =
     (case body of
        Inl rejection \<Rightarrow> (Inl (S_BAD_REQUEST, rejection), st)
      | Inr op \<Rightarrow>
          (case store_apply (room_id p) op now st of
             (Inr v, st') \<Rightarrow> (Inr v, st')
           | (Inl (NowPlayingOutOfBounds _ _), st') \<Rightarrow>
               (Inl (S_UNPROCESSABLE_ENTITY, ''now_playing index out of bounds''), st')
           | (Inl StartSessionEmpty, st') \<Rightarrow>
               (Inl (S_UNPROCESSABLE_ENTITY, ''start_session items must not be empty''), st')))"

section \<open>WebSocket loop\<close>

text \<open>\<open>Display\<close> of \<open>ApplyError\<close> (the \<open>#[error(...)]\<close> attributes in \<open>state.rs\<close>).\<close>

fun error_text :: "apply_error \<Rightarrow> string" where
  "error_text (NowPlayingOutOfBounds i n) =
     ''now_playing index '' @ nat_str i @ '' is out of bounds (queue length '' @ nat_str n @ '')''"
| "error_text StartSessionEmpty = ''start_session items must not be empty''"

text \<open>
  A frame is sent with \<open>send_text\<close>; \<open>alive\<close> is whether the socket takes it. The result is
  whether to keep the socket open, and the frames that reached it.
\<close>

definition send_text :: "bool \<Rightarrow> server_message \<Rightarrow> bool \<times> server_message list" where
  "send_text alive m = (if alive then (True, [m]) else (False, []))"

definition handle_client_text ::
  "bool \<Rightarrow> int \<Rightarrow> string + client_message \<Rightarrow> int \<Rightarrow> sync_store
     \<Rightarrow> (bool \<times> server_message list) \<times> sync_store" where
  "handle_client_text alive rid parsed now st =
     (case parsed of
        Inr (Op op op_id) \<Rightarrow>
          if (case op_id of Some k \<Rightarrow> k = [] \<or> MAX_OP_ID_LEN < length k | None \<Rightarrow> False)
          then (send_text alive
                  (OpError (''op_id must be 1-'' @ nat_str MAX_OP_ID_LEN @ '' bytes'') None), st)
          else
            (case apply_with_id rid op op_id now st of
               (Inr (OutApplied _), st') \<Rightarrow> ((True, []), st')
             | (Inr (OutDuplicate _), st') \<Rightarrow>
                 ((case op_id of Some k \<Rightarrow> send_text alive (Ack k) | None \<Rightarrow> (True, [])), st')
             | (Inl e, st') \<Rightarrow> (send_text alive (OpError (error_text e) op_id), st'))
      | Inr Ping \<Rightarrow> (send_text alive Pong, st)
      | Inl e \<Rightarrow> (send_text alive (OpError (''malformed message: '' @ e) None), st))"

definition forward_broadcast ::
  "bool \<Rightarrow> int \<Rightarrow> nat \<Rightarrow> sync_store \<Rightarrow> (bool \<times> server_message list) \<times> nat \<times> sync_store" where
  "forward_broadcast alive rid pos st =
     (case bus_recv (bus (get_room rid st)) pos of
        (Received ev, pos') \<Rightarrow>
          (send_text alive (Applied (ev_op ev) (ev_version ev) (ev_op_id ev)), pos', st)
      | (Lagged _, pos') \<Rightarrow>
          (let (snap, st') = snapshot rid st in (send_text alive (Snapshot snap), pos', st'))
      | (NothingYet, pos') \<Rightarrow> ((True, []), pos', st))"

section \<open>Registry access\<close>

lemma get_put_room [simp]:
  "get_room r (put_room rid x st) = (if r = rid then x else get_room r st)"
  by (simp add: get_room_def put_room_def)

lemma sessions_put_room [simp]: "sessions (put_room rid x st) = sessions st"
  by (simp add: put_room_def)

lemma touch_room_simps [simp]:
  "fst (touch_room rid st) = get_room rid st"
  "get_room r (snd (touch_room rid st)) = get_room r st"
  "sessions (snd (touch_room rid st)) = sessions st"
  by (auto simp: touch_room_def)

lemma get_room_sessions [simp]: "get_room r (st\<lparr>sessions := x\<rparr>) = get_room r st"
  by (simp add: get_room_def)

lemma mirror_rooms [simp]:
  "get_room r (mirror_session_lifecycle op active now st) = get_room r st"
  by (cases op) (auto simp: mirror_session_lifecycle_def split: option.splits sum.splits)

lemma read_only_calls:
  "get_room r (snd (snapshot rid st)) = get_room r st"
  "get_room r (snd (subscribe rid st)) = get_room r st"
  "get_room r (snd (active_session_id rid st)) = get_room r st"
  "get_room r (snd (now_playing_source rid tid st)) = get_room r st"
  "fst (snapshot rid st) = inner (get_room rid st)"
  "fst (subscribe rid st) = (inner (get_room rid st), length (bus (get_room rid st)))"
  by (auto simp: snapshot_def subscribe_def active_session_id_def now_playing_source_def
      touch_room_def Let_def)

lemma sessions_read_only:
  "sessions (snd (snapshot rid st)) = sessions st"
  by (auto simp: snapshot_def touch_room_def)

text \<open>What one call does to the room it addresses, case by case.\<close>

lemma apply_with_id_duplicate:
  assumes "seen_contains k (seen (get_room rid st))"
  shows "fst (apply_with_id rid op (Some k) now st) =
      Inr (OutDuplicate (version (inner (get_room rid st))))"
    and "get_room r (snd (apply_with_id rid op (Some k) now st)) = get_room r st"
    and "sessions (snd (apply_with_id rid op (Some k) now st)) = sessions st"
  using assms by (auto simp: apply_with_id_def touch_room_def)

lemma apply_with_id_rejected:
  assumes "\<nexists>k. op_id = Some k \<and> seen_contains k (seen (get_room rid st))"
    and "apply_op op now (inner (get_room rid st)) = Inl e"
  shows "fst (apply_with_id rid op op_id now st) = Inl e"
    and "get_room r (snd (apply_with_id rid op op_id now st)) = get_room r st"
    and "sessions (snd (apply_with_id rid op op_id now st)) = sessions st"
  using assms by (auto simp: apply_with_id_def touch_room_def split: option.splits)

lemma apply_with_id_applied:
  assumes "\<nexists>k. op_id = Some k \<and> seen_contains k (seen (get_room rid st))"
    and "apply_op op now (inner (get_room rid st)) = Inr s'"
  shows "fst (apply_with_id rid op op_id now st) = Inr (OutApplied (version s'))"
    and "get_room r (snd (apply_with_id rid op op_id now st)) =
      (if r = rid
       then \<lparr>inner = s',
             bus = bus (get_room rid st) @ [\<lparr>ev_op = op, ev_version = version s', ev_op_id = op_id\<rparr>],
             seen = (case op_id of Some k \<Rightarrow> seen_insert k (seen (get_room rid st))
                                 | None \<Rightarrow> seen (get_room rid st))\<rparr>
       else get_room r st)"
  using assms by (auto simp: apply_with_id_def touch_room_def Let_def split: option.splits)

lemma apply_with_id_room_cases [consumes 0, case_names duplicate rejected applied]:
  obtains k where "op_id = Some k" "seen_contains k (seen (get_room rid st))"
  | e where "\<nexists>k. op_id = Some k \<and> seen_contains k (seen (get_room rid st))"
      "apply_op op now (inner (get_room rid st)) = Inl e"
  | s' where "\<nexists>k. op_id = Some k \<and> seen_contains k (seen (get_room rid st))"
      "apply_op op now (inner (get_room rid st)) = Inr s'"
  by (metis sum.exhaust)

section \<open>A receiver that replays the bus reaches the room\<close>

text \<open>\<open>room_extends a b\<close>: room \<open>b\<close> is room \<open>a\<close> after the operations its bus has gained.\<close>

definition room_extends :: "room_sync \<Rightarrow> room_sync \<Rightarrow> bool" where
  "room_extends a b \<longleftrightarrow>
     (\<exists>evs log. bus b = bus a @ evs \<and> map fst log = map ev_op evs \<and>
        run_log apply_op log (inner a) = Some (inner b) \<and>
        map ev_version evs =
          map (\<lambda>i. version (inner a) + of_nat (Suc i)) [0..<length evs])"

lemma room_extends_refl: "room_extends a a"
  unfolding room_extends_def by (rule exI [of _ "[]"], rule exI [of _ "[]"]) simp

lemma room_extends_trans:
  assumes "room_extends a b" "room_extends b c"
  shows "room_extends a c"
proof -
  from assms(1) obtain evs log where a: "bus b = bus a @ evs" "map fst log = map ev_op evs"
      "run_log apply_op log (inner a) = Some (inner b)"
      "map ev_version evs = map (\<lambda>i. version (inner a) + of_nat (Suc i)) [0..<length evs]"
    by (auto simp: room_extends_def)
  from assms(2) obtain evs' log' where b: "bus c = bus b @ evs'" "map fst log' = map ev_op evs'"
      "run_log apply_op log' (inner b) = Some (inner c)"
      "map ev_version evs' = map (\<lambda>i. version (inner b) + of_nat (Suc i)) [0..<length evs']"
    by (auto simp: room_extends_def)
  have "length log = length evs" using a(2) map_eq_imp_length_eq by blast
  then have v: "version (inner b) = version (inner a) + of_nat (length evs)"
    using sync.run_log_version [OF a(3)] by simp
  have shift: "[0..<length (evs @ evs')] =
      [0..<length evs] @ map (\<lambda>i. i + length evs) [0..<length evs']"
    using upt_add_eq_append [of 0 "length evs" "length evs'"]
    by (simp add: map_add_upt add.commute)
  have "map ev_version (evs @ evs') =
      map (\<lambda>i. version (inner a) + of_nat (Suc i)) [0..<length (evs @ evs')]"
    unfolding shift map_append a(4) b(4) by (simp add: v comp_def add.assoc add.commute add.left_commute)
  moreover have "run_log apply_op (log @ log') (inner a) = Some (inner c)"
    using a(3) b(3) by (simp add: run_log_append)
  ultimately show ?thesis
    unfolding room_extends_def using a(1,2) b(1,2)
    by (intro exI [of _ "evs @ evs'"] exI [of _ "log @ log'"]) simp
qed

lemma room_extends_step:
  "room_extends (get_room r st) (get_room r (snd (apply_with_id rid op op_id now st)))"
proof (cases rule: apply_with_id_room_cases [where op_id = op_id and op = op and now = now and rid = rid and st = st])
  case (duplicate k)
  then show ?thesis by (simp add: apply_with_id_duplicate room_extends_refl)
next
  case (rejected e)
  then show ?thesis by (simp add: apply_with_id_rejected room_extends_refl)
next
  case (applied s')
  show ?thesis
  proof (cases "r = rid")
    case True
    let ?ev = "\<lparr>ev_op = op, ev_version = version s', ev_op_id = op_id\<rparr>"
    show ?thesis
      unfolding room_extends_def apply_with_id_applied(2) [OF applied]
      using True applied(2) apply_op_version [OF applied(2)]
      by (intro exI [of _ "[?ev]"] exI [of _ "[(op, now)]"]) simp
  next
    case False
    then show ?thesis by (simp add: apply_with_id_applied(2) [OF applied] room_extends_refl)
  qed
qed

text \<open>A run of calls, on any rooms.\<close>

fun run_calls :: "(int \<times> sync_op \<times> string option \<times> int) list \<Rightarrow> sync_store \<Rightarrow> sync_store" where
  "run_calls [] st = st"
| "run_calls ((rid, op, op_id, now) # cs) st =
     run_calls cs (snd (apply_with_id rid op op_id now st))"

lemma run_calls_extends: "room_extends (get_room r st) (get_room r (run_calls cs st))"
  by (induction cs st rule: run_calls.induct)
    (auto intro: room_extends_refl room_extends_trans room_extends_step)

lemma room_extends_replay:
  assumes "room_extends a b" "forget_clock s = forget_clock (inner a)"
    and "map fst log = map ev_op (drop (length (bus a)) (bus b))"
  shows "\<exists>t. run_log apply_op log s = Some t \<and> forget_clock t = forget_clock (inner b)"
proof -
  from assms(1) obtain evs log0 where *: "bus b = bus a @ evs" "map fst log0 = map ev_op evs"
      "run_log apply_op log0 (inner a) = Some (inner b)"
    by (auto simp: room_extends_def)
  show ?thesis
    by (rule sync.run_log_view [OF assms(2) [symmetric] *(3)]) (use assms(3) * in simp)
qed

lemma run_calls_other_room:
  "\<forall>c \<in> set cs. fst c \<noteq> r \<Longrightarrow> get_room r (run_calls cs st) = get_room r st"
proof (induction cs st rule: run_calls.induct)
  case (2 rid op op_id now cs st)
  then have "r \<noteq> rid" by auto
  then have "get_room r (snd (apply_with_id rid op op_id now st)) = get_room r st"
    by (cases rule: apply_with_id_room_cases [where op_id = op_id and op = op and now = now and rid = rid and st = st])
      (simp_all add: apply_with_id_duplicate apply_with_id_rejected apply_with_id_applied)
  with 2 show ?case by simp
qed simp

section \<open>The op-id memory\<close>

definition seen_ok :: "seen_ops \<Rightarrow> bool" where
  "seen_ok s \<longleftrightarrow> distinct (seen_order s) \<and> set (seen_order s) = seen_ids s
     \<and> length (seen_order s) \<le> SEEN_OP_IDS"

lemma seen_default_ok [simp]: "seen_ok seen_default"
  by (simp add: seen_ok_def seen_default_def)

lemma seen_insert_ok: "seen_ok s \<Longrightarrow> seen_ok (seen_insert k s)"
  by (cases "seen_order s") (auto simp: seen_ok_def seen_insert_def Let_def SEEN_OP_IDS_def)

text \<open>\<open>k\<close> was inserted and at most \<open>n\<close> ids came after it.\<close>

definition seen_since :: "string \<Rightarrow> nat \<Rightarrow> seen_ops \<Rightarrow> bool" where
  "seen_since k n s \<longleftrightarrow> (\<exists>pre post. seen_order s = pre @ k # post \<and> length post \<le> n)"

lemma seen_since_insert_same:
  assumes "seen_ok s" "k \<notin> seen_ids s" shows "seen_since k 0 (seen_insert k s)"
proof (cases "seen_order s")
  case Nil
  then show ?thesis
    using assms by (simp add: seen_since_def seen_insert_def Let_def SEEN_OP_IDS_def)
next
  case (Cons a xs)
  then show ?thesis
    using assms(2) by (auto simp: seen_since_def seen_insert_def Let_def)
qed

lemma seen_since_mono: "seen_since k m s \<Longrightarrow> m \<le> n \<Longrightarrow> seen_since k n s"
  unfolding seen_since_def by (meson order_trans)

lemma seen_since_insert:
  assumes "seen_ok s" "seen_since k n s" "Suc n < SEEN_OP_IDS"
  shows "seen_since k (Suc n) (seen_insert j s)"
proof (cases "j \<in> seen_ids s")
  case True
  with assms(2) show ?thesis by (simp add: seen_insert_def seen_since_mono)
next
  case False
  obtain pre post where *: "seen_order s = pre @ k # post" "length post \<le> n"
    using assms(2) by (auto simp: seen_since_def)
  show ?thesis
  proof (cases "SEEN_OP_IDS < length (seen_order s @ [j])")
    case True
    then have "pre \<noteq> []" using * assms(3) by auto
    then obtain a pre' where "pre = a # pre'" by (cases pre) auto
    with * True False have "seen_order (seen_insert j s) = pre' @ k # (post @ [j])"
      by (simp add: seen_insert_def Let_def)
    with *(2) show ?thesis unfolding seen_since_def by fastforce
  next
    case le: False
    with * False have "seen_order (seen_insert j s) = pre @ k # (post @ [j])"
      by (simp add: seen_insert_def Let_def)
    with *(2) show ?thesis unfolding seen_since_def by fastforce
  qed
qed

lemma seen_since_contains: "seen_ok s \<Longrightarrow> seen_since k n s \<Longrightarrow> seen_contains k s"
  unfolding seen_ok_def seen_since_def seen_contains_def by (metis in_set_conv_decomp)

lemma seen_contains_since:
  assumes "seen_ok s" "seen_contains k s"
  shows "seen_since k (SEEN_OP_IDS - 1) s"
proof -
  have "k \<in> set (seen_order s)" using assms by (simp add: seen_ok_def seen_contains_def)
  then obtain pre post where *: "seen_order s = pre @ k # post" by (meson split_list)
  then have "length post < length (seen_order s)" by simp
  also have "\<dots> \<le> SEEN_OP_IDS" using assms(1) by (simp add: seen_ok_def)
  finally show ?thesis unfolding seen_since_def using * by fastforce
qed

section \<open>Invariant of the registry\<close>

definition room_ok :: "room_sync \<Rightarrow> bool" where
  "room_ok r \<longleftrightarrow> cursor_ok (inner r) \<and> seen_ok (seen r)"

definition store_ok :: "sync_store \<Rightarrow> bool" where
  "store_ok st \<longleftrightarrow> (\<forall>r x. rooms st r = Some x \<longrightarrow> room_ok x)
     \<and> (case sessions st of None \<Rightarrow> True | Some db \<Rightarrow> sessions_ok db)"

lemma new_room_ok [simp]: "room_ok new_room"
  by (simp add: room_ok_def new_room_def)

lemma get_room_ok: "store_ok st \<Longrightarrow> room_ok (get_room r st)"
  by (simp add: store_ok_def get_room_def split: option.splits)

lemma put_room_ok: "store_ok st \<Longrightarrow> room_ok x \<Longrightarrow> store_ok (put_room r x st)"
  by (simp add: store_ok_def put_room_def)

lemma touch_room_ok: "store_ok st \<Longrightarrow> store_ok (snd (touch_room r st))"
  by (simp add: touch_room_def put_room_ok get_room_ok)

lemma with_sessions_ok: "sessions_ok db \<Longrightarrow> store_ok (with_sessions db)"
  by (simp add: store_ok_def with_sessions_def new_store_def)

lemma new_store_ok [simp]: "store_ok new_store"
  by (simp add: store_ok_def new_store_def)

lemma mirror_ok: "store_ok st \<Longrightarrow> store_ok (mirror_session_lifecycle op active now st)"
  unfolding mirror_session_lifecycle_def store_ok_def
  by (cases op; cases "sessions st"; cases active)
    (simp_all add: session_stop_ok split: option.split sum.split, auto intro: session_start_ok)

lemma apply_with_id_ok:
  assumes "store_ok st"
  shows "store_ok (snd (apply_with_id rid op op_id now st))"
proof -
  let ?room = "get_room rid st"
  have room: "room_ok ?room" using assms by (rule get_room_ok)
  have st1: "store_ok (put_room rid ?room st)" using assms room by (rule put_room_ok)
  show ?thesis
  proof (cases "apply_op op now (inner ?room)")
    case (Inl e)
    with st1 show ?thesis by (simp add: apply_with_id_def touch_room_def)
  next
    case (Inr s')
    have "room_ok \<lparr>inner = s', bus = b,
        seen = (case op_id of Some k \<Rightarrow> seen_insert k (seen ?room) | None \<Rightarrow> seen ?room)\<rparr>" for b
      using room Inr
      by (cases op_id) (simp_all add: room_ok_def apply_op_cursor_ok [OF _ Inr] seen_insert_ok)
    note ok = mirror_ok [OF put_room_ok [OF st1 this]]
    show ?thesis
      by (simp add: apply_with_id_def touch_room_def Let_def Inr st1 ok)
  qed
qed

lemma run_calls_ok: "store_ok st \<Longrightarrow> store_ok (run_calls cs st)"
  by (induction cs st rule: run_calls.induct) (simp_all add: apply_with_id_ok)

text \<open>A remembered id stays remembered through the next calls.\<close>

lemma seen_since_call:
  assumes "store_ok st" "seen_since k n (seen (get_room r st))" "Suc n < SEEN_OP_IDS"
  shows "seen_since k (Suc n) (seen (get_room r (snd (apply_with_id rid op op_id now st))))"
proof (cases rule: apply_with_id_room_cases [where op_id = op_id and op = op and now = now and rid = rid and st = st])
  case (applied s')
  have "seen_ok (seen (get_room r st))" using get_room_ok [OF assms(1)] by (simp add: room_ok_def)
  with assms(2,3) show ?thesis
    by (auto simp: apply_with_id_applied [OF applied] seen_since_insert seen_since_mono
        split: option.splits)
qed (use assms(2) in \<open>auto simp: apply_with_id_duplicate apply_with_id_rejected seen_since_mono\<close>)

lemma seen_since_calls:
  assumes "store_ok st" "seen_since k n (seen (get_room r st))" "n + length cs < SEEN_OP_IDS"
  shows "seen_since k (n + length cs) (seen (get_room r (run_calls cs st)))"
  using assms
proof (induction cs st arbitrary: n rule: run_calls.induct)
  case (2 rid op op_id now cs st)
  from "2.prems" have "seen_since k (Suc n) (seen (get_room r (snd (apply_with_id rid op op_id now st))))"
    by (intro seen_since_call) auto
  from "2.IH" [OF apply_with_id_ok [OF "2.prems"(1)] this] "2.prems"(3) show ?case by simp
qed simp

text \<open>An accepted id is the youngest one right after its call.\<close>

lemma seen_after_apply:
  assumes "store_ok st" "fst (apply_with_id rid op (Some k) now st) = Inr (OutApplied v)"
  shows "seen_since k 0 (seen (get_room rid (snd (apply_with_id rid op (Some k) now st))))"
proof (cases rule: apply_with_id_room_cases [where op_id = "Some k" and op = op and now = now and rid = rid and st = st])
  case (applied s')
  have "seen_ok (seen (get_room rid st))" using get_room_ok [OF assms(1)] by (simp add: room_ok_def)
  with applied(1) show ?thesis
    by (simp add: apply_with_id_applied [OF applied] seen_since_insert_same seen_contains_def)
qed (use assms(2) in \<open>auto simp: apply_with_id_duplicate apply_with_id_rejected\<close>)

section \<open>The session table mirrors the anchor\<close>

text \<open>With one room only, and fresh session ids, the open row is the room's active session.\<close>

definition anchor_mirrored :: "int \<Rightarrow> sync_store \<Rightarrow> bool" where
  "anchor_mirrored rid st \<longleftrightarrow>
     (case sessions st of
        None \<Rightarrow> False
      | Some db \<Rightarrow> map sr_session_id (open_rows db) =
          (case session_anchor (playback (inner (get_room rid st))) of
             None \<Rightarrow> [] | Some a \<Rightarrow> [anchor_session_id a]))"

lemma apply_op_anchor:
  assumes "apply_op op now s = Inr s'"
  shows "session_anchor (playback s') =
    (case op of
       StartSession xs a sid \<Rightarrow> Some \<lparr>anchor_session_id = sid,
         anchor_track_id = track_id (xs ! a), anchor_started_ms = now\<rparr>
     | Clear \<Rightarrow> None
     | StopSession \<Rightarrow> None
     | _ \<Rightarrow> session_anchor (playback s))"
  using assms
  by (cases op)
    (auto simp: apply_op_def apply_remove_def apply_reorder_def apply_replace_upcoming_def Let_def
      split: if_splits option.splits)

lemma apply_op_start:
  "apply_op (StartSession xs a sid) now s = Inr s' \<Longrightarrow> nth_opt xs a = Some (xs ! a)"
  by (simp add: apply_op_def nth_opt_def split: if_splits)

definition call_fresh :: "sync_op \<Rightarrow> session_table \<Rightarrow> bool" where
  "call_fresh op db = (case op of StartSession xs a sid \<Rightarrow> sid \<notin> sr_session_id ` set db | _ \<Rightarrow> True)"

lemma mirror_tracks_anchor:
  assumes db: "sessions st = Some db" "call_fresh op db"
    and step: "apply_op op now s = Inr s'"
    and before: "map sr_session_id (open_rows db) =
      (case session_anchor (playback s) of None \<Rightarrow> [] | Some a \<Rightarrow> [anchor_session_id a])"
  defines "st' \<equiv> mirror_session_lifecycle op
      (map_option anchor_session_id (session_anchor (playback s))) now st"
  shows "\<exists>db'. sessions st' = Some db' \<and> map sr_session_id (open_rows db') =
      (case session_anchor (playback s') of None \<Rightarrow> [] | Some a \<Rightarrow> [anchor_session_id a])"
proof -
  have stop: "map sr_session_id (open_rows (session_stop sid now db)) = []"
    if "session_anchor (playback s) = Some a" "sid = anchor_session_id a" for a sid
    using before that by (simp add: open_rows_stop filter_empty_conv) fastforce
  show ?thesis
  proof (cases op)
    case (StartSession xs a sid)
    with db(2) have "sid \<notin> sr_session_id ` set (map (session_close now) db)"
      by (simp add: call_fresh_def image_image)
    then obtain db' where
      db': "session_start sid (track_id (xs ! a)) (i64_sat (int (length xs))) now db = Inr db'"
      by (simp add: session_start_def)
    from open_rows_start [OF db'] apply_op_start step apply_op_anchor [OF step] show ?thesis
      using StartSession db(1) db' by (auto simp: st'_def mirror_session_lifecycle_def)
  next
    case Clear
    with db(1) before stop show ?thesis
      by (cases "session_anchor (playback s)")
        (auto simp: st'_def mirror_session_lifecycle_def apply_op_anchor [OF step])
  next
    case StopSession
    with db(1) before stop show ?thesis
      by (cases "session_anchor (playback s)")
        (auto simp: st'_def mirror_session_lifecycle_def apply_op_anchor [OF step])
  qed (use db(1) before in \<open>simp_all add: st'_def mirror_session_lifecycle_def apply_op_anchor [OF step]\<close>)
qed

lemma anchor_mirrored_step:
  assumes "anchor_mirrored rid st" "\<And>db. sessions st = Some db \<Longrightarrow> call_fresh op db"
  shows "anchor_mirrored rid (snd (apply_with_id rid op op_id now st))"
proof (cases rule: apply_with_id_room_cases [where op_id = op_id and op = op and now = now and rid = rid and st = st])
  case (applied s')
  let ?room = "get_room rid st"
  let ?active = "map_option anchor_session_id (session_anchor (playback (inner ?room)))"
  from assms(1) obtain db where db: "sessions st = Some db" by (auto simp: anchor_mirrored_def split: option.splits)
  obtain st2 where st2: "snd (apply_with_id rid op op_id now st) = mirror_session_lifecycle op ?active now st2"
      "sessions st2 = Some db"
    using applied db
    by (cases op_id) (auto simp: apply_with_id_def touch_room_def Let_def)
  have "map sr_session_id (open_rows db) =
      (case session_anchor (playback (inner ?room)) of None \<Rightarrow> [] | Some a \<Rightarrow> [anchor_session_id a])"
    using assms(1) db by (simp add: anchor_mirrored_def)
  from mirror_tracks_anchor [OF st2(2) assms(2) [OF db] applied(2) this]
  show ?thesis
    using apply_with_id_applied(2) [OF applied, of rid] st2(1)
    by (auto simp: anchor_mirrored_def simp del: mirror_rooms)
next
  case (duplicate k)
  show ?thesis
    using assms(1)
    by (simp only: anchor_mirrored_def duplicate(1) apply_with_id_duplicate [OF duplicate(2)])
next
  case (rejected e)
  show ?thesis
    using assms(1) by (simp only: anchor_mirrored_def apply_with_id_rejected [OF rejected])
qed

section \<open>Transport handlers\<close>

text \<open>What a socket's text frame does to the store is one \<open>apply_with_id\<close> at most.\<close>

lemma handle_client_text_store:
  "snd (handle_client_text alive rid parsed now st) =
     (case parsed of
        Inr (Op op op_id) \<Rightarrow>
          (case op_id of
             Some k \<Rightarrow> if k = [] \<or> MAX_OP_ID_LEN < length k then st
                       else snd (apply_with_id rid op op_id now st)
           | None \<Rightarrow> snd (apply_with_id rid op op_id now st))
      | _ \<Rightarrow> st)"
  by (auto simp: handle_client_text_def split: sum.splits client_message.splits option.splits
      prod.splits apply_outcome.splits if_splits)

lemma submit_op_store:
  "snd (submit_op p body now st) =
     (case body of Inl _ \<Rightarrow> st | Inr op \<Rightarrow> snd (apply_with_id (room_id p) op None now st))"
  by (auto simp: submit_op_def store_apply_def split: sum.splits prod.splits apply_outcome.splits
      apply_error.splits)

section \<open>Properties\<close>

text \<open>
  C1. A client that subscribes to a room and then applies, with its own clock, the operations the
  room's bus carries after the subscription reaches the room's state, whatever calls on whatever
  rooms happen meanwhile (up to the server's time stamp on the session anchor); and the versions
  on the bus are consecutive from the snapshot's.
\<close>

theorem subscriber_converges:
  assumes "subscribe r st = ((snap, pos), st1)"
    and "map fst log = map ev_op (drop pos (bus (get_room r (run_calls cs st1))))"
  shows "(\<exists>t. run_log apply_op log snap = Some t
        \<and> forget_clock t = forget_clock (inner (get_room r (run_calls cs st1))))
    \<and> map ev_version (drop pos (bus (get_room r (run_calls cs st1)))) =
        map (\<lambda>i. version snap + of_nat (Suc i)) [0..<length log]"
proof -
  from assms(1) have sub: "get_room r st1 = get_room r st" "snap = inner (get_room r st)"
      "pos = length (bus (get_room r st))"
    using read_only_calls(2) [of r r st] read_only_calls(6) [of r st] by simp_all
  have ext: "room_extends (get_room r st) (get_room r (run_calls cs st1))"
    using run_calls_extends [of r st1 cs] sub(1) by simp
  have len: "length log = length (drop pos (bus (get_room r (run_calls cs st1))))"
    using map_eq_imp_length_eq [OF assms(2)] .
  from ext have "map ev_version (drop pos (bus (get_room r (run_calls cs st1)))) =
      map (\<lambda>i. version snap + of_nat (Suc i)) [0..<length log]"
    unfolding len sub(2,3) by (auto simp: room_extends_def)
  with room_extends_replay [OF ext refl] assms(2) sub show ?thesis by simp
qed

definition demo_calls :: "(int \<times> sync_op \<times> string option \<times> int) list" where
  "demo_calls = [(1, SetPosition 5, None, 10), (2, SetPlaying True, None, 11),
     (1, SetNowPlaying (Some 7), None, 12)]"

theorem subscriber_converges_witness:
  "\<exists>t. run_log apply_op [(SetPosition 5, 98)]
       default_sync_state = Some t
     \<and> forget_clock t = forget_clock (inner (get_room 1 (run_calls demo_calls (snd (subscribe 1 new_store)))))"
proof -
  have "subscribe 1 new_store = ((default_sync_state, 0), snd (subscribe 1 new_store))"
    by (simp add: subscribe_def touch_room_def get_room_def new_store_def new_room_def)
  moreover have "map fst [(SetPosition 5, 98 :: int)] = map ev_op (drop 0 (bus (get_room 1
      (run_calls demo_calls (snd (subscribe 1 new_store))))))"
    by code_simp
  ultimately show ?thesis
    using subscriber_converges by blast
qed

text \<open>
  C5. A client that resends an operation under the same op id gets the acknowledgement of a
  duplicate and the operation is not applied again, as long as fewer than 512 calls came in
  between; nothing in any room and nothing in the session table changes.
\<close>

theorem resent_op_not_applied_twice:
  assumes "store_ok st"
    and "apply_with_id rid op (Some k) now st = (Inr (OutApplied v), st1)"
    and "length cs < SEEN_OP_IDS"
  shows "fst (apply_with_id rid op' (Some k) now' (run_calls cs st1)) =
      Inr (OutDuplicate (version (inner (get_room rid (run_calls cs st1)))))
    \<and> get_room r (snd (apply_with_id rid op' (Some k) now' (run_calls cs st1))) =
        get_room r (run_calls cs st1)
    \<and> sessions (snd (apply_with_id rid op' (Some k) now' (run_calls cs st1))) =
        sessions (run_calls cs st1)"
proof -
  have st1: "st1 = snd (apply_with_id rid op (Some k) now st)" using assms(2) by simp
  have ok: "store_ok st1" unfolding st1 by (rule apply_with_id_ok [OF assms(1)])
  have "seen_since k 0 (seen (get_room rid st1))"
    unfolding st1 by (rule seen_after_apply [OF assms(1)]) (simp add: assms(2))
  from seen_since_calls [OF ok this] assms(3)
  have "seen_since k (length cs) (seen (get_room rid (run_calls cs st1)))" by simp
  moreover have "seen_ok (seen (get_room rid (run_calls cs st1)))"
    using get_room_ok [OF run_calls_ok [OF ok]] by (simp add: room_ok_def)
  ultimately have "seen_contains k (seen (get_room rid (run_calls cs st1)))"
    by (rule seen_since_contains [rotated])
  then show ?thesis by (simp add: apply_with_id_duplicate)
qed

theorem resent_op_not_applied_twice_witness:
  "fst (apply_with_id 1 (SetPlaying True) (Some ''k'') 9
      (run_calls demo_calls (snd (apply_with_id 1 (SetPlaying True) (Some ''k'') 5 new_store)))) =
   Inr (OutDuplicate (version (inner (get_room 1
      (run_calls demo_calls (snd (apply_with_id 1 (SetPlaying True) (Some ''k'') 5 new_store)))))))"
proof -
  have "apply_with_id 1 (SetPlaying True) (Some ''k'') 5 new_store =
      (Inr (OutApplied 1), snd (apply_with_id 1 (SetPlaying True) (Some ''k'') 5 new_store))"
    by (simp add: apply_with_id_def touch_room_def get_room_def new_store_def new_room_def
        seen_contains_def seen_default_def apply_op_def default_sync_state_def Let_def)
  from resent_op_not_applied_twice [OF new_store_ok this, of demo_calls "SetPlaying True" 9 1]
  show ?thesis by (simp add: demo_calls_def SEEN_OP_IDS_def)
qed

text \<open>
  C14. The registry's invariant: after any sequence of calls from an empty store with or without a
  session table, every room has its cursor in range and an op-id memory that is consistent, free
  of repetitions and at most 512 long, and the session table has unique ids and at most one open
  row.
\<close>

theorem registry_invariant:
  "store_ok (run_calls cs new_store) \<and> store_ok (run_calls cs (with_sessions []))"
  by (simp add: run_calls_ok with_sessions_ok sessions_ok_def open_rows_def)

text \<open>
  Rooms are isolated: calls on other rooms change nothing of a room, neither its playback nor
  its version, bus or op-id memory.
\<close>

theorem rooms_isolated:
  assumes "\<forall>c \<in> set cs. fst c \<noteq> r"
  shows "get_room r (run_calls cs st) = get_room r st"
  using assms by (rule run_calls_other_room)

theorem rooms_isolated_witness:
  "get_room 3 (run_calls demo_calls new_store) = get_room 3 new_store"
  by (rule rooms_isolated) (simp add: demo_calls_def)

text \<open>
  With one room and session ids that are not in the table yet, the session table mirrors the
  room: the open row is the room's active session, and there is none when the room has none.
\<close>

fun calls_fresh :: "int \<Rightarrow> (int \<times> sync_op \<times> string option \<times> int) list \<Rightarrow> sync_store \<Rightarrow> bool" where
  "calls_fresh r [] st = True"
| "calls_fresh r ((rid, op, op_id, now) # cs) st =
     (rid = r \<and> (case sessions st of None \<Rightarrow> True | Some db \<Rightarrow> call_fresh op db)
      \<and> calls_fresh r cs (snd (apply_with_id rid op op_id now st)))"

lemma anchor_mirrored_calls:
  "anchor_mirrored r st \<Longrightarrow> calls_fresh r cs st \<Longrightarrow> anchor_mirrored r (run_calls cs st)"
proof (induction r cs st rule: calls_fresh.induct)
  case (2 r rid op op_id now cs st)
  from "2.prems"(2) have "call_fresh op db" if "sessions st = Some db" for db using that by simp
  from anchor_mirrored_step [OF "2.prems"(1) this]
  have step: "anchor_mirrored r (snd (apply_with_id r op op_id now st))" .
  from "2.prems"(2) have "rid = r" "calls_fresh r cs (snd (apply_with_id rid op op_id now st))"
    by auto
  with step "2.IH" show ?case by simp
qed simp

theorem session_table_mirrors_room:
  assumes "calls_fresh r cs (with_sessions [])"
  shows "\<exists>db. sessions (run_calls cs (with_sessions [])) = Some db
    \<and> map sr_session_id (open_rows db) =
      (case session_anchor (playback (inner (get_room r (run_calls cs (with_sessions []))))) of
         None \<Rightarrow> [] | Some a \<Rightarrow> [anchor_session_id a])"
proof -
  have "anchor_mirrored r (with_sessions [])"
    by (simp add: anchor_mirrored_def with_sessions_def new_store_def get_room_def new_room_def
        open_rows_def default_sync_state_def default_playback_def)
  from anchor_mirrored_calls [OF this assms] show ?thesis
    by (auto simp: anchor_mirrored_def split: option.splits)
qed

definition demo_session_calls :: "(int \<times> sync_op \<times> string option \<times> int) list" where
  "demo_session_calls = [(1, StartSession demo_items 0 (SessionId ''s''), None, 10),
     (1, StartSession demo_items 1 (SessionId ''t''), None, 20)]"

theorem session_table_mirrors_room_witness:
  "calls_fresh 1 demo_session_calls (with_sessions [])
   \<and> (\<exists>db. sessions (run_calls demo_session_calls (with_sessions [])) = Some db
    \<and> map sr_session_id (open_rows db) =
      (case session_anchor (playback (inner (get_room 1 (run_calls demo_session_calls (with_sessions []))))) of
         None \<Rightarrow> [] | Some a \<Rightarrow> [anchor_session_id a]))"
proof (rule conjI)
  show "calls_fresh 1 demo_session_calls (with_sessions [])"
    by (simp add: demo_session_calls_def demo_items_def call_fresh_def with_sessions_def new_store_def
        apply_with_id_def touch_room_def get_room_def new_room_def apply_op_def Let_def put_room_def
        mirror_session_lifecycle_def nth_opt_def session_start_def default_sync_state_def
        default_playback_def)
  then show "\<exists>db. sessions (run_calls demo_session_calls (with_sessions [])) = Some db
    \<and> map sr_session_id (open_rows db) =
      (case session_anchor (playback (inner (get_room 1 (run_calls demo_session_calls (with_sessions []))))) of
         None \<Rightarrow> [] | Some a \<Rightarrow> [anchor_session_id a])"
    by (rule session_table_mirrors_room)
qed

text \<open>
  With two rooms it does not: the table is shared, \<open>SessionStore::start\<close> closes any open row,
  so a session started in room 2 ends the stored session of room 1 while room 1's own state still
  has it as the active session.
\<close>

theorem other_room_ends_session:
  "\<exists>cs st a db. st = run_calls cs (with_sessions []) \<and> sessions st = Some db
     \<and> session_anchor (playback (inner (get_room 1 st))) = Some a
     \<and> anchor_session_id a \<notin> sr_session_id ` set (open_rows db)
     \<and> (\<exists>row \<in> set db. sr_session_id row = anchor_session_id a \<and> sr_ended_ms row = Some 20)"
  by (intro exI [of _ "[(1, StartSession demo_items 0 (SessionId ''s''), None, 10),
        (2, StartSession demo_items 0 (SessionId ''t''), None, 20)]"])
    (simp add: demo_items_def with_sessions_def new_store_def
      apply_with_id_def touch_room_def get_room_def new_room_def apply_op_def Let_def put_room_def
      mirror_session_lifecycle_def nth_opt_def session_start_def default_sync_state_def
      default_playback_def session_close_def open_rows_def, auto)

end
