(* ===== verification/Gateway_Db.thy ===== *)
theory Gateway_Db
  imports Principal
begin

text \<open>
  The SQLite schema of the gateway's state database (\<open>music-gateway/migrations\<close>): one record per
  row and one list per table. Column constraints are what the operations check: primary keys and
  \<open>UNIQUE\<close> columns, \<open>CHECK (role IN ...)\<close>, and the foreign keys, which \<open>sqlx\<close> enforces on every
  connection. Deleting users follows \<open>ON DELETE CASCADE\<close>. An \<open>INTEGER PRIMARY KEY\<close> without
  \<open>AUTOINCREMENT\<close> takes the largest id in the table plus one; \<open>guest_codes\<close> has \<open>AUTOINCREMENT\<close>
  and never reuses one. I/O errors are not modelled.

  Times are Unix milliseconds in \<open>i64\<close>; \<open>saturating_add\<close> is \<open>i64_sat\<close> of the sum.
\<close>

section \<open>Rows\<close>

record user_row =
  u_id :: int
  u_username :: "string option"
  u_display_name :: "string option"
  u_role :: string
  u_password_hash :: "string option"
  u_host_user_id :: "int option"
  u_expires_at :: "int option"
  u_created_at :: int

record client_row =
  oc_client_id :: string
  oc_name :: string
  oc_redirect_uris :: "string list"
  oc_created_at :: int

record auth_code_row =
  ac_code_hash :: string
  ac_client_id :: string
  ac_redirect_uri :: string
  ac_code_challenge :: string
  ac_issued_at :: int
  ac_expires_at :: int
  ac_consumed_at :: "int option"
  ac_user_id :: "int option"

record refresh_row =
  rt_token_hash :: string
  rt_client_id :: string
  rt_issued_at :: int
  rt_expires_at :: "int option"
  rt_revoked_at :: "int option"
  rt_user_id :: "int option"
  rt_family_id :: string

record access_row =
  at_token_hash :: string
  at_client_id :: string
  at_refresh_token_hash :: "string option"
  at_issued_at :: int
  at_expires_at :: int
  at_revoked_at :: "int option"
  at_user_id :: "int option"

record browser_session_row =
  bs_token_hash :: string
  bs_issued_at :: int
  bs_expires_at :: int
  bs_revoked_at :: "int option"
  bs_user_id :: "int option"

record device_code_row =
  dc_device_code_hash :: string
  dc_user_code :: string
  dc_client_id :: string
  dc_issued_at :: int
  dc_expires_at :: int
  dc_interval_secs :: int
  dc_approved_at :: "int option"
  dc_denied_at :: "int option"
  dc_consumed_at :: "int option"
  dc_user_id :: "int option"

record guest_code_row =
  gc_id :: int
  gc_code_hash :: string
  gc_host_user_id :: int
  gc_label :: "string option"
  gc_created_at :: int
  gc_expires_at :: "int option"
  gc_max_uses :: "int option"
  gc_uses :: int
  gc_revoked_at :: "int option"

record playlist_row =
  pl_id :: string
  pl_owner_user_id :: int
  pl_name :: string
  pl_visibility :: string
  pl_created_ms :: int
  pl_updated_ms :: int

record playlist_track_row =
  pt_playlist_id :: string
  pt_position :: int
  pt_track_id :: string

record gateway_db =
  users :: "user_row list"
  oauth_clients :: "client_row list"
  auth_codes :: "auth_code_row list"
  refresh_tokens :: "refresh_row list"
  access_tokens :: "access_row list"
  browser_sessions :: "browser_session_row list"
  device_codes :: "device_code_row list"
  guest_codes :: "guest_code_row list"
  guest_seq :: int
  playlists :: "playlist_row list"
  playlist_tracks :: "playlist_track_row list"

definition empty_db :: gateway_db where
  "empty_db = \<lparr>users = [], oauth_clients = [], auth_codes = [], refresh_tokens = [],
     access_tokens = [], browser_sessions = [], device_codes = [], guest_codes = [], guest_seq = 0,
     playlists = [], playlist_tracks = []\<rparr>"

datatype sql_error = SqlUnique | SqlForeignKey | SqlCheck | UsernameTaken

section \<open>Statements\<close>

text \<open>\<open>UPDATE t SET ... WHERE P\<close>, \<open>DELETE FROM t WHERE P\<close> and the number of affected rows.\<close>

definition update_where :: "('r \<Rightarrow> bool) \<Rightarrow> ('r \<Rightarrow> 'r) \<Rightarrow> 'r list \<Rightarrow> 'r list" where
  "update_where P f = map (\<lambda>r. if P r then f r else r)"

definition affected :: "('r \<Rightarrow> bool) \<Rightarrow> 'r list \<Rightarrow> nat" where
  "affected P rows = length (filter P rows)"

text \<open>A nullable foreign key.\<close>

definition fk_ok :: "'k option \<Rightarrow> 'k set \<Rightarrow> bool" where
  "fk_ok v keys \<longleftrightarrow> (case v of None \<Rightarrow> True | Some k \<Rightarrow> k \<in> keys)"

definition user_ids :: "gateway_db \<Rightarrow> int set" where
  "user_ids db = u_id ` set (users db)"

definition client_ids :: "gateway_db \<Rightarrow> string set" where
  "client_ids db = oc_client_id ` set (oauth_clients db)"

definition next_rowid :: "int list \<Rightarrow> int" where
  "next_rowid ids = (if ids = [] then 1 else Max (set ids) + 1)"

text \<open>The users a deletion takes along through \<open>host_user_id\<close>: as many rounds as there are users.\<close>

fun cascade_rounds :: "nat \<Rightarrow> user_row list \<Rightarrow> int set \<Rightarrow> int set" where
  "cascade_rounds 0 us D = D"
| "cascade_rounds (Suc n) us D =
     cascade_rounds n us (D \<union> u_id ` set (filter (\<lambda>u. case u_host_user_id u of
        None \<Rightarrow> False | Some h \<Rightarrow> h \<in> D) us))"

definition cascade_users :: "user_row list \<Rightarrow> int set \<Rightarrow> int set" where
  "cascade_users us D = cascade_rounds (length us) us D"

definition keeps :: "'k option \<Rightarrow> 'k set \<Rightarrow> bool" where
  "keeps v gone \<longleftrightarrow> (case v of None \<Rightarrow> True | Some k \<Rightarrow> k \<notin> gone)"

definition delete_users_where :: "(user_row \<Rightarrow> bool) \<Rightarrow> gateway_db \<Rightarrow> gateway_db" where
  "delete_users_where P db =
     (let gone = cascade_users (users db) (u_id ` set (filter P (users db)));
          gone_refresh = rt_token_hash ` set (filter (\<lambda>r. \<not> keeps (rt_user_id r) gone) (refresh_tokens db));
          gone_lists = pl_id ` set (filter (\<lambda>r. pl_owner_user_id r \<in> gone) (playlists db))
      in db\<lparr>users := filter (\<lambda>u. u_id u \<notin> gone) (users db),
            auth_codes := filter (\<lambda>r. keeps (ac_user_id r) gone) (auth_codes db),
            refresh_tokens := filter (\<lambda>r. keeps (rt_user_id r) gone) (refresh_tokens db),
            access_tokens := filter (\<lambda>r. keeps (at_user_id r) gone
                \<and> keeps (at_refresh_token_hash r) gone_refresh) (access_tokens db),
            browser_sessions := filter (\<lambda>r. keeps (bs_user_id r) gone) (browser_sessions db),
            device_codes := filter (\<lambda>r. keeps (dc_user_id r) gone) (device_codes db),
            guest_codes := filter (\<lambda>r. gc_host_user_id r \<notin> gone) (guest_codes db),
            playlists := filter (\<lambda>r. pl_owner_user_id r \<notin> gone) (playlists db),
            playlist_tracks := filter (\<lambda>r. pt_playlist_id r \<notin> gone_lists) (playlist_tracks db)\<rparr>)"

section \<open>Facts about statements\<close>

named_theorems sql_simps

lemma find_SomeD: "find P xs = Some x \<Longrightarrow> x \<in> set xs \<and> P x"
  by (auto simp: find_Some_iff in_set_conv_nth)

lemma find_Some_ex: "x \<in> set xs \<Longrightarrow> P x \<Longrightarrow> \<exists>y. find P xs = Some y"
  by (induction xs) auto

lemma find_snoc: "find P (xs @ [y]) = (case find P xs of Some x \<Rightarrow> Some x | None \<Rightarrow> if P y then Some y else None)"
  by (induction xs) auto

lemma in_update_where: "y \<in> set (update_where P f xs) \<longleftrightarrow>
    (\<exists>x \<in> set xs. y = (if P x then f x else x))"
  by (auto simp: update_where_def)

lemma map_update_where [sql_simps]:
  "(\<And>r. g (f r) = g r) \<Longrightarrow> map g (update_where P f xs) = map g xs"
  by (simp add: update_where_def)

lemma update_where_Nil [simp]: "update_where P f [] = []"
  by (simp add: update_where_def)

lemma update_where_Cons [simp]:
  "update_where P f (x # xs) = (if P x then f x else x) # update_where P f xs"
  by (simp add: update_where_def)

lemma update_where_append [simp]:
  "update_where P f (xs @ ys) = update_where P f xs @ update_where P f ys"
  by (simp add: update_where_def)

lemma update_where_none: "(\<And>x. x \<in> set xs \<Longrightarrow> \<not> P x) \<Longrightarrow> update_where P f xs = xs"
  by (induction xs) auto

lemma cascade_rounds_mono: "D \<subseteq> cascade_rounds n us D"
  by (induction n us D rule: cascade_rounds.induct) auto

lemma cascade_users_superset: "D \<subseteq> cascade_users us D"
  by (simp add: cascade_users_def cascade_rounds_mono)

end
