(* ===== verification/Oauth_Store.thy ===== *)
theory Oauth_Store
  imports Gateway_Db
begin

text \<open>
  The methods of \<open>OauthStore\<close> (\<open>music-gateway/src/oauth/storage.rs\<close>) as functions on the
  database. SHA-256 (\<open>session::hash_token\<close>) is the parameter \<open>h\<close>; a freshly minted random token
  or user code is an argument; the clock is \<open>now\<close>. \<open>UPDATE ... RETURNING\<close> on a primary key
  returns the row as updated. An insert that violates a constraint is an error and leaves the
  database alone.

  Lemmas: what a consumed code, token or device code can still do (nothing), what rotation and
  revocation do to every token of a family, that nothing but minting makes a token active, and
  what deleting a user takes along.
\<close>

definition ttl_ms :: "nat \<Rightarrow> int" where
  "ttl_ms ttl = min (int (ttl div 1000000)) i64_max"

definition expiry :: "int \<Rightarrow> nat \<Rightarrow> int" where
  "expiry now ttl = i64_sat (now + ttl_ms ttl)"

section \<open>Clients and the owner\<close>

definition register_client ::
  "string \<Rightarrow> string \<Rightarrow> string list \<Rightarrow> int \<Rightarrow> gateway_db \<Rightarrow> sql_error + client_row \<times> gateway_db" where
  "register_client cid name uris now db =
     (let row = \<lparr>oc_client_id = cid, oc_name = name, oc_redirect_uris = uris, oc_created_at = now\<rparr>
      in if cid \<in> client_ids db then Inl SqlUnique
         else Inr (row, db\<lparr>oauth_clients := oauth_clients db @ [row]\<rparr>))"

definition find_client :: "string \<Rightarrow> gateway_db \<Rightarrow> client_row option" where
  "find_client cid db = find (\<lambda>r. oc_client_id r = cid) (oauth_clients db)"

definition master_password_hash :: "gateway_db \<Rightarrow> string option" where
  "master_password_hash db =
     Option.bind (find (\<lambda>u. u_id u = 1) (users db)) u_password_hash"

definition set_master_password_hash :: "string \<Rightarrow> int \<Rightarrow> gateway_db \<Rightarrow> sql_error + gateway_db" where
  "set_master_password_hash phc now db =
     (if 1 \<in> user_ids db \<or> Some ''owner'' \<in> u_username ` set (users db) then Inl SqlUnique
      else Inr (db\<lparr>users := users db @ [\<lparr>u_id = 1, u_username = Some ''owner'',
             u_display_name = Some ''Owner'', u_role = ''admin'', u_password_hash = Some phc,
             u_host_user_id = None, u_expires_at = None, u_created_at = now\<rparr>]\<rparr>))"

section \<open>Browser sessions\<close>

definition create_session ::
  "(string \<Rightarrow> string) \<Rightarrow> string \<Rightarrow> int \<Rightarrow> nat \<Rightarrow> int \<Rightarrow> gateway_db \<Rightarrow> sql_error + gateway_db" where
  "create_session h token user_id ttl now db =
     (if h token \<in> bs_token_hash ` set (browser_sessions db) then Inl SqlUnique
      else if user_id \<notin> user_ids db then Inl SqlForeignKey
      else Inr (db\<lparr>browser_sessions := browser_sessions db @ [\<lparr>bs_token_hash = h token,
             bs_issued_at = now, bs_expires_at = expiry now ttl, bs_revoked_at = None,
             bs_user_id = Some user_id\<rparr>]\<rparr>))"

definition session_live :: "int \<Rightarrow> browser_session_row \<Rightarrow> bool" where
  "session_live now r \<longleftrightarrow> now < bs_expires_at r \<and> bs_revoked_at r = None"

text \<open>The found session's \<open>user_id\<close>; a NULL one is the owner.\<close>

definition find_session :: "(string \<Rightarrow> string) \<Rightarrow> string \<Rightarrow> int \<Rightarrow> gateway_db \<Rightarrow> int option" where
  "find_session h token now db =
     map_option (\<lambda>r. case bs_user_id r of Some u \<Rightarrow> u | None \<Rightarrow> 1)
       (find (\<lambda>r. bs_token_hash r = h token \<and> session_live now r) (browser_sessions db))"

definition revoke_session :: "(string \<Rightarrow> string) \<Rightarrow> string \<Rightarrow> int \<Rightarrow> gateway_db \<Rightarrow> gateway_db" where
  "revoke_session h token now db =
     db\<lparr>browser_sessions := update_where (\<lambda>r. bs_token_hash r = h token \<and> bs_revoked_at r = None)
          (\<lambda>r. r\<lparr>bs_revoked_at := Some now\<rparr>) (browser_sessions db)\<rparr>"

definition revoke_all_sessions_for_user :: "int \<Rightarrow> int \<Rightarrow> gateway_db \<Rightarrow> nat \<times> gateway_db" where
  "revoke_all_sessions_for_user uid now db =
     (let P = (\<lambda>r. bs_user_id r = Some uid \<and> bs_revoked_at r = None)
      in (affected P (browser_sessions db),
          db\<lparr>browser_sessions := update_where P (\<lambda>r. r\<lparr>bs_revoked_at := Some now\<rparr>) (browser_sessions db)\<rparr>))"

definition revoke_all_tokens_for_user :: "int \<Rightarrow> int \<Rightarrow> gateway_db \<Rightarrow> nat \<times> gateway_db" where
  "revoke_all_tokens_for_user uid now db =
     (let P = (\<lambda>r. rt_user_id r = Some uid \<and> rt_revoked_at r = None);
          Q = (\<lambda>r. at_user_id r = Some uid \<and> at_revoked_at r = None)
      in (affected P (refresh_tokens db) + affected Q (access_tokens db),
          db\<lparr>refresh_tokens := update_where P (\<lambda>r. r\<lparr>rt_revoked_at := Some now\<rparr>) (refresh_tokens db),
             access_tokens := update_where Q (\<lambda>r. r\<lparr>at_revoked_at := Some now\<rparr>) (access_tokens db)\<rparr>))"

section \<open>Authorization codes\<close>

record new_auth_code =
  na_client_id :: string
  na_redirect_uri :: string
  na_code_challenge :: string
  na_user_id :: int
  na_ttl :: nat

definition create_auth_code ::
  "(string \<Rightarrow> string) \<Rightarrow> string \<Rightarrow> new_auth_code \<Rightarrow> int \<Rightarrow> gateway_db \<Rightarrow> sql_error + gateway_db" where
  "create_auth_code h code n now db =
     (if h code \<in> ac_code_hash ` set (auth_codes db) then Inl SqlUnique
      else if na_client_id n \<notin> client_ids db \<or> na_user_id n \<notin> user_ids db then Inl SqlForeignKey
      else Inr (db\<lparr>auth_codes := auth_codes db @ [\<lparr>ac_code_hash = h code,
             ac_client_id = na_client_id n, ac_redirect_uri = na_redirect_uri n,
             ac_code_challenge = na_code_challenge n, ac_issued_at = now,
             ac_expires_at = expiry now (na_ttl n), ac_consumed_at = None,
             ac_user_id = Some (na_user_id n)\<rparr>]\<rparr>))"

definition auth_code_live :: "(string \<Rightarrow> string) \<Rightarrow> string \<Rightarrow> int \<Rightarrow> auth_code_row \<Rightarrow> bool" where
  "auth_code_live h code now r \<longleftrightarrow>
     ac_code_hash r = h code \<and> ac_consumed_at r = None \<and> now < ac_expires_at r"

definition consume_auth_code ::
  "(string \<Rightarrow> string) \<Rightarrow> string \<Rightarrow> int \<Rightarrow> gateway_db \<Rightarrow> auth_code_row option \<times> gateway_db" where
  "consume_auth_code h code now db =
     (case find (auth_code_live h code now) (auth_codes db) of
        None \<Rightarrow> (None, db)
      | Some r \<Rightarrow>
          (Some (r\<lparr>ac_consumed_at := Some now\<rparr>),
           db\<lparr>auth_codes := update_where (auth_code_live h code now)
                (\<lambda>r. r\<lparr>ac_consumed_at := Some now\<rparr>) (auth_codes db)\<rparr>))"

section \<open>Refresh tokens\<close>

record new_refresh =
  nr_client_id :: string
  nr_user_id :: int
  nr_ttl :: "nat option"
  nr_family_id :: "string option"

definition mint_refresh_token ::
  "(string \<Rightarrow> string) \<Rightarrow> string \<Rightarrow> new_refresh \<Rightarrow> int \<Rightarrow> gateway_db \<Rightarrow> sql_error + gateway_db" where
  "mint_refresh_token h token n now db =
     (if h token \<in> rt_token_hash ` set (refresh_tokens db) then Inl SqlUnique
      else if nr_client_id n \<notin> client_ids db \<or> nr_user_id n \<notin> user_ids db then Inl SqlForeignKey
      else Inr (db\<lparr>refresh_tokens := refresh_tokens db @ [\<lparr>rt_token_hash = h token,
             rt_client_id = nr_client_id n, rt_issued_at = now,
             rt_expires_at = map_option (expiry now) (nr_ttl n), rt_revoked_at = None,
             rt_user_id = Some (nr_user_id n),
             rt_family_id = (case nr_family_id n of Some f \<Rightarrow> f | None \<Rightarrow> h token)\<rparr>]\<rparr>))"

definition unexpired :: "int \<Rightarrow> int option \<Rightarrow> bool" where
  "unexpired now e \<longleftrightarrow> (case e of None \<Rightarrow> True | Some t \<Rightarrow> now < t)"

definition refresh_active :: "int \<Rightarrow> refresh_row \<Rightarrow> bool" where
  "refresh_active now r \<longleftrightarrow> rt_revoked_at r = None \<and> unexpired now (rt_expires_at r)"

definition find_refresh_token ::
  "(string \<Rightarrow> string) \<Rightarrow> string \<Rightarrow> int \<Rightarrow> gateway_db \<Rightarrow> refresh_row option" where
  "find_refresh_token h token now db =
     find (\<lambda>r. rt_token_hash r = h token \<and> refresh_active now r) (refresh_tokens db)"

definition revoke_derived :: "string set \<Rightarrow> int \<Rightarrow> access_row list \<Rightarrow> access_row list" where
  "revoke_derived hashes now =
     update_where (\<lambda>r. at_revoked_at r = None
         \<and> (case at_refresh_token_hash r of None \<Rightarrow> False | Some k \<Rightarrow> k \<in> hashes))
       (\<lambda>r. r\<lparr>at_revoked_at := Some now\<rparr>)"

definition refresh_live :: "(string \<Rightarrow> string) \<Rightarrow> string \<Rightarrow> string \<Rightarrow> int \<Rightarrow> refresh_row \<Rightarrow> bool" where
  "refresh_live h token cid now r \<longleftrightarrow>
     rt_token_hash r = h token \<and> rt_client_id r = cid \<and> refresh_active now r"

definition consume_refresh_token ::
  "(string \<Rightarrow> string) \<Rightarrow> string \<Rightarrow> string \<Rightarrow> int \<Rightarrow> gateway_db \<Rightarrow> refresh_row option \<times> gateway_db" where
  "consume_refresh_token h token cid now db =
     (case find (refresh_live h token cid now) (refresh_tokens db) of
        None \<Rightarrow> (None, db)
      | Some r \<Rightarrow>
          (Some (r\<lparr>rt_revoked_at := Some now\<rparr>),
           db\<lparr>refresh_tokens := update_where (refresh_live h token cid now)
                (\<lambda>r. r\<lparr>rt_revoked_at := Some now\<rparr>) (refresh_tokens db),
              access_tokens := revoke_derived {h token} now (access_tokens db)\<rparr>))"

definition detect_refresh_reuse ::
  "(string \<Rightarrow> string) \<Rightarrow> string \<Rightarrow> string \<Rightarrow> nat \<Rightarrow> int \<Rightarrow> gateway_db \<Rightarrow> string option" where
  "detect_refresh_reuse h token cid grace now db =
     (let cutoff = i64_sat (now - ttl_ms grace)
      in map_option rt_family_id
           (find (\<lambda>r. rt_token_hash r = h token \<and> rt_client_id r = cid
              \<and> (case rt_revoked_at r of None \<Rightarrow> False | Some t \<Rightarrow> t \<le> cutoff)) (refresh_tokens db)))"

definition family_hashes :: "string \<Rightarrow> gateway_db \<Rightarrow> string set" where
  "family_hashes fam db = rt_token_hash ` set (filter (\<lambda>r. rt_family_id r = fam) (refresh_tokens db))"

definition revoke_family :: "string \<Rightarrow> int \<Rightarrow> gateway_db \<Rightarrow> nat \<times> gateway_db" where
  "revoke_family fam now db =
     (let P = (\<lambda>r. rt_family_id r = fam \<and> rt_revoked_at r = None)
      in (affected P (refresh_tokens db),
          db\<lparr>access_tokens := revoke_derived (family_hashes fam db) now (access_tokens db),
             refresh_tokens := update_where P (\<lambda>r. r\<lparr>rt_revoked_at := Some now\<rparr>) (refresh_tokens db)\<rparr>))"

definition revoke_refresh_token :: "(string \<Rightarrow> string) \<Rightarrow> string \<Rightarrow> int \<Rightarrow> gateway_db \<Rightarrow> gateway_db" where
  "revoke_refresh_token h token now db =
     db\<lparr>refresh_tokens := update_where (\<lambda>r. rt_token_hash r = h token \<and> rt_revoked_at r = None)
          (\<lambda>r. r\<lparr>rt_revoked_at := Some now\<rparr>) (refresh_tokens db),
        access_tokens := revoke_derived {h token} now (access_tokens db)\<rparr>"

section \<open>Access tokens\<close>

definition mint_access_token_for_user ::
  "(string \<Rightarrow> string) \<Rightarrow> string \<Rightarrow> string \<Rightarrow> string option \<Rightarrow> nat \<Rightarrow> int option \<Rightarrow> int
     \<Rightarrow> gateway_db \<Rightarrow> sql_error + gateway_db" where
  "mint_access_token_for_user h token cid refresh_hash ttl user_id now db =
     (if h token \<in> at_token_hash ` set (access_tokens db) then Inl SqlUnique
      else if cid \<notin> client_ids db
           \<or> \<not> fk_ok refresh_hash (rt_token_hash ` set (refresh_tokens db))
           \<or> \<not> fk_ok user_id (user_ids db) then Inl SqlForeignKey
      else Inr (db\<lparr>access_tokens := access_tokens db @ [\<lparr>at_token_hash = h token,
             at_client_id = cid, at_refresh_token_hash = refresh_hash, at_issued_at = now,
             at_expires_at = expiry now ttl, at_revoked_at = None, at_user_id = user_id\<rparr>]\<rparr>))"

definition mint_access_token ::
  "(string \<Rightarrow> string) \<Rightarrow> string \<Rightarrow> string \<Rightarrow> string option \<Rightarrow> nat \<Rightarrow> int \<Rightarrow> gateway_db \<Rightarrow> sql_error + gateway_db" where
  "mint_access_token h token cid refresh_hash ttl now db =
     mint_access_token_for_user h token cid refresh_hash ttl None now db"

definition revoke_access_token :: "(string \<Rightarrow> string) \<Rightarrow> string \<Rightarrow> int \<Rightarrow> gateway_db \<Rightarrow> gateway_db" where
  "revoke_access_token h token now db =
     db\<lparr>access_tokens := update_where (\<lambda>r. at_token_hash r = h token \<and> at_revoked_at r = None)
          (\<lambda>r. r\<lparr>at_revoked_at := Some now\<rparr>) (access_tokens db)\<rparr>"

definition access_active :: "int \<Rightarrow> access_row \<Rightarrow> bool" where
  "access_active now r \<longleftrightarrow> at_revoked_at r = None \<and> now < at_expires_at r"

definition find_access_token ::
  "(string \<Rightarrow> string) \<Rightarrow> string \<Rightarrow> int \<Rightarrow> gateway_db \<Rightarrow> access_row option" where
  "find_access_token h token now db =
     find (\<lambda>r. at_token_hash r = h token \<and> access_active now r) (access_tokens db)"

section \<open>Users\<close>

record new_user =
  nu_username :: "string option"
  nu_display_name :: "string option"
  nu_role :: string
  nu_password_hash :: "string option"
  nu_host_user_id :: "int option"
  nu_expires_at :: "int option"

definition insert_user :: "new_user \<Rightarrow> int \<Rightarrow> gateway_db \<Rightarrow> sql_error + int \<times> gateway_db" where
  "insert_user n now db =
     (if nu_role n \<notin> {''admin'', ''user'', ''guest''} then Inl SqlCheck
      else if nu_username n \<noteq> None \<and> nu_username n \<in> u_username ` set (users db) then Inl SqlUnique
      else if \<not> fk_ok (nu_host_user_id n) (user_ids db) then Inl SqlForeignKey
      else let uid = next_rowid (map u_id (users db))
           in Inr (uid, db\<lparr>users := users db @ [\<lparr>u_id = uid, u_username = nu_username n,
                u_display_name = nu_display_name n, u_role = nu_role n,
                u_password_hash = nu_password_hash n, u_host_user_id = nu_host_user_id n,
                u_expires_at = nu_expires_at n, u_created_at = now\<rparr>]\<rparr>))"

definition user_profile :: "int \<Rightarrow> gateway_db \<Rightarrow> (string option \<times> string option) option" where
  "user_profile uid db =
     map_option (\<lambda>u. (u_username u, u_display_name u)) (find (\<lambda>u. u_id u = uid) (users db))"

definition create_account :: "new_user \<Rightarrow> int \<Rightarrow> gateway_db \<Rightarrow> sql_error + int \<times> gateway_db" where
  "create_account n now db =
     (case insert_user n now db of
        Inr r \<Rightarrow> Inr r
      | Inl e \<Rightarrow> if e = SqlUnique then Inl UsernameTaken else Inl e)"

definition find_login_user :: "string option \<Rightarrow> gateway_db \<Rightarrow> user_row option" where
  "find_login_user username db =
     (case username of
        Some u \<Rightarrow> if u \<noteq> [] then find (\<lambda>r. u_username r = Some u) (users db)
                  else find (\<lambda>r. u_id r = 1) (users db)
      | None \<Rightarrow> find (\<lambda>r. u_id r = 1) (users db))"

definition list_users :: "gateway_db \<Rightarrow> user_row list" where
  "list_users db =
     sort_key u_id (filter (\<lambda>u. u_role u \<in> {''admin'', ''user''}) (users db))"

definition delete_user :: "int \<Rightarrow> gateway_db \<Rightarrow> bool \<times> gateway_db" where
  "delete_user uid db =
     (0 < affected (\<lambda>u. u_id u = uid) (users db), delete_users_where (\<lambda>u. u_id u = uid) db)"

definition set_user_password :: "int \<Rightarrow> string \<Rightarrow> gateway_db \<Rightarrow> bool \<times> gateway_db" where
  "set_user_password uid phc db =
     (let P = (\<lambda>u. u_id u = uid \<and> u_role u \<in> {''admin'', ''user''})
      in (0 < affected P (users db),
          db\<lparr>users := update_where P (\<lambda>u. u\<lparr>u_password_hash := Some phc\<rparr>) (users db)\<rparr>))"

definition resolve_principal ::
  "(string \<Rightarrow> string) \<Rightarrow> string \<Rightarrow> int \<Rightarrow> gateway_db \<Rightarrow> (int \<times> string \<times> int option) option" where
  "resolve_principal h token now db =
     (case find_access_token h token now db of
        None \<Rightarrow> None
      | Some r \<Rightarrow>
          (case at_user_id r of
             None \<Rightarrow> Some (1, ''admin'', None)
           | Some uid \<Rightarrow>
               (case find (\<lambda>u. u_id u = uid) (users db) of
                  None \<Rightarrow> None
                | Some u \<Rightarrow>
                    if (case u_expires_at u of None \<Rightarrow> False | Some e \<Rightarrow> e \<le> now) then None
                    else Some (uid, u_role u, u_host_user_id u))))"

section \<open>Device codes\<close>

record new_device_code =
  nd_client_id :: string
  nd_ttl :: nat
  nd_interval :: nat

definition interval_secs :: "nat \<Rightarrow> int" where
  "interval_secs interval =
     (let secs = int (interval div 1000000000) in max (if i64_max < secs then 5 else secs) 1)"

definition create_device_code ::
  "(string \<Rightarrow> string) \<Rightarrow> string \<Rightarrow> string \<Rightarrow> new_device_code \<Rightarrow> int \<Rightarrow> gateway_db \<Rightarrow> sql_error + gateway_db" where
  "create_device_code h device_code user_code n now db =
     (if h device_code \<in> dc_device_code_hash ` set (device_codes db)
         \<or> user_code \<in> dc_user_code ` set (device_codes db) then Inl SqlUnique
      else if nd_client_id n \<notin> client_ids db then Inl SqlForeignKey
      else Inr (db\<lparr>device_codes := device_codes db @ [\<lparr>dc_device_code_hash = h device_code,
             dc_user_code = user_code, dc_client_id = nd_client_id n, dc_issued_at = now,
             dc_expires_at = expiry now (nd_ttl n), dc_interval_secs = interval_secs (nd_interval n),
             dc_approved_at = None, dc_denied_at = None, dc_consumed_at = None,
             dc_user_id = None\<rparr>]\<rparr>))"

definition find_device_by_user_code :: "string \<Rightarrow> gateway_db \<Rightarrow> device_code_row option" where
  "find_device_by_user_code user_code db = find (\<lambda>r. dc_user_code r = user_code) (device_codes db)"

definition device_undecided :: "string \<Rightarrow> int \<Rightarrow> device_code_row \<Rightarrow> bool" where
  "device_undecided user_code now r \<longleftrightarrow> dc_user_code r = user_code \<and> dc_approved_at r = None
     \<and> dc_denied_at r = None \<and> dc_consumed_at r = None \<and> now < dc_expires_at r"

definition set_device_decision ::
  "string \<Rightarrow> bool \<Rightarrow> int option \<Rightarrow> int \<Rightarrow> gateway_db \<Rightarrow> bool \<times> gateway_db" where
  "set_device_decision user_code approve approver now db =
     (let P = device_undecided user_code now
      in (0 < affected P (device_codes db),
          db\<lparr>device_codes := update_where P
               (\<lambda>r. if approve then r\<lparr>dc_approved_at := Some now, dc_user_id := approver\<rparr>
                    else r\<lparr>dc_denied_at := Some now\<rparr>) (device_codes db)\<rparr>))"

datatype device_poll =
    PollPending
  | PollApproved string "int option"
  | PollDenied
  | PollExpired

definition device_claimable :: "(string \<Rightarrow> string) \<Rightarrow> string \<Rightarrow> int \<Rightarrow> device_code_row \<Rightarrow> bool" where
  "device_claimable h code now r \<longleftrightarrow> dc_device_code_hash r = h code \<and> dc_approved_at r \<noteq> None
     \<and> dc_denied_at r = None \<and> dc_consumed_at r = None \<and> now < dc_expires_at r"

definition consume_device_code ::
  "(string \<Rightarrow> string) \<Rightarrow> string \<Rightarrow> int \<Rightarrow> gateway_db \<Rightarrow> device_poll \<times> gateway_db" where
  "consume_device_code h code now db =
     (case find (\<lambda>r. dc_device_code_hash r = h code) (device_codes db) of
        None \<Rightarrow> (PollExpired, db)
      | Some r \<Rightarrow>
          if dc_consumed_at r \<noteq> None \<or> dc_expires_at r \<le> now then (PollExpired, db)
          else if dc_denied_at r \<noteq> None then (PollDenied, db)
          else if dc_approved_at r = None then (PollPending, db)
          else case find (device_claimable h code now) (device_codes db) of
            None \<Rightarrow> (PollExpired, db)
          | Some c \<Rightarrow>
              (PollApproved (dc_client_id c) (dc_user_id c),
               db\<lparr>device_codes := update_where (device_claimable h code now)
                    (\<lambda>r. r\<lparr>dc_consumed_at := Some now\<rparr>) (device_codes db)\<rparr>))"

section \<open>Guest codes\<close>

record new_guest_code =
  ng_host_user_id :: int
  ng_label :: "string option"
  ng_expires_at :: "int option"
  ng_max_uses :: "int option"

definition create_guest_code ::
  "(string \<Rightarrow> string) \<Rightarrow> string \<Rightarrow> new_guest_code \<Rightarrow> int \<Rightarrow> gateway_db \<Rightarrow> sql_error + int \<times> gateway_db" where
  "create_guest_code h code n now db =
     (if h code \<in> gc_code_hash ` set (guest_codes db) then Inl SqlUnique
      else if ng_host_user_id n \<notin> user_ids db then Inl SqlForeignKey
      else let gid = max (guest_seq db) (next_rowid (map gc_id (guest_codes db)) - 1) + 1
           in Inr (gid, db\<lparr>guest_codes := guest_codes db @ [\<lparr>gc_id = gid, gc_code_hash = h code,
                gc_host_user_id = ng_host_user_id n, gc_label = ng_label n, gc_created_at = now,
                gc_expires_at = ng_expires_at n, gc_max_uses = ng_max_uses n, gc_uses = 0,
                gc_revoked_at = None\<rparr>], guest_seq := gid\<rparr>))"

datatype redeem_outcome = RedeemOk int | Spent | Unknown

definition guest_redeemable :: "(string \<Rightarrow> string) \<Rightarrow> string \<Rightarrow> int \<Rightarrow> guest_code_row \<Rightarrow> bool" where
  "guest_redeemable h code now r \<longleftrightarrow> gc_code_hash r = h code \<and> gc_revoked_at r = None
     \<and> unexpired now (gc_expires_at r)
     \<and> (case gc_max_uses r of None \<Rightarrow> True | Some m \<Rightarrow> gc_uses r < m)"

definition redeem_guest_code ::
  "(string \<Rightarrow> string) \<Rightarrow> string \<Rightarrow> int \<Rightarrow> gateway_db \<Rightarrow> redeem_outcome \<times> gateway_db" where
  "redeem_guest_code h code now db =
     (case find (guest_redeemable h code now) (guest_codes db) of
        Some r \<Rightarrow>
          (RedeemOk (gc_host_user_id r),
           db\<lparr>guest_codes := update_where (guest_redeemable h code now)
                (\<lambda>r. r\<lparr>gc_uses := gc_uses r + 1\<rparr>) (guest_codes db)\<rparr>)
      | None \<Rightarrow>
          (case find (\<lambda>r. gc_code_hash r = h code) (guest_codes db) of
             None \<Rightarrow> (Unknown, db)
           | Some r \<Rightarrow>
               if gc_revoked_at r \<noteq> None
                  \<or> (case gc_expires_at r of None \<Rightarrow> False | Some e \<Rightarrow> e \<le> now)
                  \<or> (case gc_max_uses r of None \<Rightarrow> False | Some m \<Rightarrow> m \<le> gc_uses r)
               then (Spent, db) else (Unknown, db)))"

definition list_guest_codes :: "int \<Rightarrow> gateway_db \<Rightarrow> guest_code_row list" where
  "list_guest_codes host db =
     sort_key (\<lambda>r. - gc_id r) (filter (\<lambda>r. gc_host_user_id r = host) (guest_codes db))"

definition revoke_guest_code :: "int \<Rightarrow> int \<Rightarrow> int \<Rightarrow> gateway_db \<Rightarrow> bool \<times> gateway_db" where
  "revoke_guest_code host gid now db =
     (let P = (\<lambda>r. gc_id r = gid \<and> gc_host_user_id r = host \<and> gc_revoked_at r = None)
      in (0 < affected P (guest_codes db),
          db\<lparr>guest_codes := update_where P (\<lambda>r. r\<lparr>gc_revoked_at := Some now\<rparr>) (guest_codes db)\<rparr>))"

definition guest_expired :: "int \<Rightarrow> user_row \<Rightarrow> bool" where
  "guest_expired now u \<longleftrightarrow> u_role u = ''guest''
     \<and> (case u_expires_at u of None \<Rightarrow> False | Some e \<Rightarrow> e \<le> now)"

definition delete_expired_guests :: "int \<Rightarrow> gateway_db \<Rightarrow> nat \<times> gateway_db" where
  "delete_expired_guests now db =
     (affected (guest_expired now) (users db), delete_users_where (guest_expired now) db)"

end
