(* ===== verification/Db_Integrity.thy ===== *)
theory Db_Integrity
  imports Oauth_Store
begin

text \<open>
  What every statement keeps of the state database. \<open>db_ok\<close> is its integrity: primary keys and
  \<open>UNIQUE\<close> columns without repetition, no dangling foreign key. \<open>db_evolves M\<close> is its history: each
  row was there before and has only moved forward (consumed, revoked or decided stays so, a use
  count never falls, nothing else changes), or its key was minted, that is, is in \<open>M\<close>.
  Each method of \<open>Oauth_Store\<close> has one lemma for each of the two in the collections \<open>db_ok_intros\<close>
  and \<open>evolve_intros\<close>, which carry the proofs about the handlers.
\<close>

named_theorems db_ok_intros
named_theorems evolve_intros

section \<open>Integrity\<close>

definition table_ok :: "('r \<Rightarrow> 'k) \<Rightarrow> ('r \<Rightarrow> bool) \<Rightarrow> 'r list \<Rightarrow> bool" where
  "table_ok key Q rows \<longleftrightarrow> distinct (map key rows) \<and> (\<forall>r \<in> set rows. Q r)"

definition names_ok :: "user_row list \<Rightarrow> bool" where
  "names_ok us \<longleftrightarrow> distinct (filter (\<lambda>v. v \<noteq> None) (map u_username us))"

definition refresh_hashes :: "gateway_db \<Rightarrow> string set" where
  "refresh_hashes db = rt_token_hash ` set (refresh_tokens db)"

definition db_ok :: "gateway_db \<Rightarrow> bool" where
  "db_ok db \<longleftrightarrow>
     table_ok u_id (\<lambda>u. fk_ok (u_host_user_id u) (user_ids db)) (users db) \<and> names_ok (users db)
     \<and> table_ok oc_client_id (\<lambda>_. True) (oauth_clients db)
     \<and> table_ok ac_code_hash
          (\<lambda>r. ac_client_id r \<in> client_ids db \<and> fk_ok (ac_user_id r) (user_ids db)) (auth_codes db)
     \<and> table_ok rt_token_hash
          (\<lambda>r. rt_client_id r \<in> client_ids db \<and> fk_ok (rt_user_id r) (user_ids db)) (refresh_tokens db)
     \<and> table_ok at_token_hash
          (\<lambda>r. at_client_id r \<in> client_ids db \<and> fk_ok (at_user_id r) (user_ids db)
             \<and> fk_ok (at_refresh_token_hash r) (refresh_hashes db)) (access_tokens db)
     \<and> table_ok bs_token_hash (\<lambda>r. fk_ok (bs_user_id r) (user_ids db)) (browser_sessions db)
     \<and> table_ok dc_device_code_hash (\<lambda>r. dc_client_id r \<in> client_ids db) (device_codes db)
     \<and> table_ok dc_user_code (\<lambda>_. True) (device_codes db)
     \<and> table_ok gc_code_hash (\<lambda>r. gc_host_user_id r \<in> user_ids db) (guest_codes db)
     \<and> table_ok gc_id (\<lambda>r. gc_id r \<le> guest_seq db) (guest_codes db)"

lemma table_ok_append:
  "table_ok key Q rows \<Longrightarrow> key r \<notin> key ` set rows \<Longrightarrow> Q r \<Longrightarrow> table_ok key Q (rows @ [r])"
  by (auto simp: table_ok_def)

lemma table_ok_update:
  "table_ok key Q rows \<Longrightarrow> (\<And>r. key (f r) = key r) \<Longrightarrow> (\<And>r. Q r \<Longrightarrow> Q (f r)) \<Longrightarrow>
   table_ok key Q (update_where P f rows)"
  by (auto simp: table_ok_def map_update_where in_update_where)

lemma table_ok_filter: "table_ok key Q rows \<Longrightarrow> table_ok key Q (filter P rows)"
  by (auto simp: table_ok_def distinct_map_filter)

lemma table_ok_mono:
  "table_ok key Q rows \<Longrightarrow> (\<And>r. r \<in> set rows \<Longrightarrow> Q r \<Longrightarrow> Q' r) \<Longrightarrow> table_ok key Q' rows"
  by (auto simp: table_ok_def)

text \<open>Which tables the key sets depend on.\<close>

lemma user_ids_upd [simp]:
  "user_ids (db\<lparr>oauth_clients := a\<rparr>) = user_ids db" "user_ids (db\<lparr>auth_codes := b\<rparr>) = user_ids db"
  "user_ids (db\<lparr>refresh_tokens := c\<rparr>) = user_ids db" "user_ids (db\<lparr>access_tokens := d\<rparr>) = user_ids db"
  "user_ids (db\<lparr>browser_sessions := e\<rparr>) = user_ids db" "user_ids (db\<lparr>device_codes := f\<rparr>) = user_ids db"
  "user_ids (db\<lparr>guest_codes := g\<rparr>) = user_ids db" "user_ids (db\<lparr>guest_seq := n\<rparr>) = user_ids db"
  by (simp_all add: user_ids_def)

lemma client_ids_upd [simp]:
  "client_ids (db\<lparr>users := a\<rparr>) = client_ids db" "client_ids (db\<lparr>auth_codes := b\<rparr>) = client_ids db"
  "client_ids (db\<lparr>refresh_tokens := c\<rparr>) = client_ids db" "client_ids (db\<lparr>access_tokens := d\<rparr>) = client_ids db"
  "client_ids (db\<lparr>browser_sessions := e\<rparr>) = client_ids db" "client_ids (db\<lparr>device_codes := f\<rparr>) = client_ids db"
  "client_ids (db\<lparr>guest_codes := g\<rparr>) = client_ids db" "client_ids (db\<lparr>guest_seq := n\<rparr>) = client_ids db"
  by (simp_all add: client_ids_def)

lemma refresh_hashes_upd [simp]:
  "refresh_hashes (db\<lparr>users := a\<rparr>) = refresh_hashes db" "refresh_hashes (db\<lparr>auth_codes := b\<rparr>) = refresh_hashes db"
  "refresh_hashes (db\<lparr>oauth_clients := c\<rparr>) = refresh_hashes db" "refresh_hashes (db\<lparr>access_tokens := d\<rparr>) = refresh_hashes db"
  "refresh_hashes (db\<lparr>browser_sessions := e\<rparr>) = refresh_hashes db" "refresh_hashes (db\<lparr>device_codes := f\<rparr>) = refresh_hashes db"
  "refresh_hashes (db\<lparr>guest_codes := g\<rparr>) = refresh_hashes db" "refresh_hashes (db\<lparr>guest_seq := n\<rparr>) = refresh_hashes db"
  by (simp_all add: refresh_hashes_def)

lemma fk_ok_mono: "fk_ok v A \<Longrightarrow> A \<subseteq> B \<Longrightarrow> fk_ok v B"
  by (auto simp: fk_ok_def split: option.splits)

lemma fk_ok_None [simp]: "fk_ok None A"
  by (simp add: fk_ok_def)

lemma fk_ok_Some [simp]: "fk_ok (Some k) A \<longleftrightarrow> k \<in> A"
  by (simp add: fk_ok_def)

lemma fk_ok_insert: "fk_ok v A \<Longrightarrow> fk_ok v (insert a A)"
  by (auto simp: fk_ok_def split: option.splits)

lemma ball_update_where:
  "\<forall>r \<in> set rows. Q r \<Longrightarrow> (\<And>r. Q r \<Longrightarrow> Q (f r)) \<Longrightarrow> \<forall>r \<in> set (update_where P f rows). Q r"
  by (auto simp: in_update_where)

lemma image_update_where: "(\<And>r. g (f r) = g r) \<Longrightarrow> g ` set (update_where P f rows) = g ` set rows"
  by (metis (no_types, lifting) map_update_where set_map)

lemma next_rowid_fresh: "next_rowid ids \<notin> set ids"
proof (cases "ids = []")
  case False
  have "x < next_rowid ids" if "x \<in> set ids" for x
    using Max_ge [OF _ that] False unfolding next_rowid_def by simp
  then show ?thesis by blast
qed (simp add: next_rowid_def)

text \<open>Longer key columns only help.\<close>

lemma table_ok_mono_fk:
  "table_ok key (\<lambda>r. Q r \<and> fk_ok (f r) K) rows \<Longrightarrow> table_ok key (\<lambda>r. Q r \<and> fk_ok (f r) (insert k K)) rows"
  "table_ok key' (\<lambda>r. A r \<and> fk_ok (f' r) K \<and> B r) rows' \<Longrightarrow>
     table_ok key' (\<lambda>r. A r \<and> fk_ok (f' r) (insert k K) \<and> B r) rows'"
  "table_ok key'' (\<lambda>r. fk_ok (f'' r) K) rows'' \<Longrightarrow> table_ok key'' (\<lambda>r. fk_ok (f'' r) (insert k K)) rows''"
  by (auto simp: table_ok_def fk_ok_insert)

lemma table_ok_mono_in:
  "table_ok key (\<lambda>r. c r \<in> C \<and> Q r) rows \<Longrightarrow> table_ok key (\<lambda>r. (c r = k \<or> c r \<in> C) \<and> Q r) rows"
  "table_ok key' (\<lambda>r. c' r \<in> D) rows' \<Longrightarrow> table_ok key' (\<lambda>r. c' r = m \<or> c' r \<in> D) rows'"
  by (auto simp: table_ok_def)

section \<open>Deleting users takes all dependents along\<close>

definition hosted :: "user_row list \<Rightarrow> int set \<Rightarrow> int set" where
  "hosted us D = u_id ` set (filter (\<lambda>u. case u_host_user_id u of None \<Rightarrow> False | Some h \<Rightarrow> h \<in> D) us)"

lemma hosted_iff:
  "x \<in> hosted us D \<longleftrightarrow> (\<exists>u \<in> set us. u_id u = x \<and> (\<exists>h \<in> D. u_host_user_id u = Some h))"
  by (force simp: hosted_def split: option.splits)

lemma cascade_rounds_hosted:
  "cascade_rounds (Suc n) us D = cascade_rounds n us (D \<union> hosted us D)"
  by (simp add: hosted_def)

lemma cascade_rounds_closed: "hosted us D \<subseteq> D \<Longrightarrow> cascade_rounds n us D = D"
proof (induction n)
  case (Suc n)
  then have "D \<union> hosted us D = D" by blast
  with Suc show ?case by (simp only: cascade_rounds_hosted)
qed simp

lemma cascade_rounds_subset: "D \<subseteq> u_id ` set us \<Longrightarrow> cascade_rounds n us D \<subseteq> u_id ` set us"
proof (induction n arbitrary: D)
  case (Suc n)
  have "D \<union> hosted us D \<subseteq> u_id ` set us" using Suc.prems by (auto simp: hosted_def)
  from Suc.IH [OF this] show ?case by (simp only: cascade_rounds_hosted)
qed simp

lemma cascade_rounds_grow:
  "D \<subseteq> u_id ` set us \<Longrightarrow>
   hosted us (cascade_rounds n us D) \<subseteq> cascade_rounds n us D \<or> card D + n \<le> card (cascade_rounds n us D)"
proof (induction n arbitrary: D)
  case (Suc n)
  let ?D = "D \<union> hosted us D"
  have sub: "?D \<subseteq> u_id ` set us" using Suc.prems by (auto simp: hosted_def)
  show ?case
  proof (cases "hosted us D \<subseteq> D")
    case True
    then show ?thesis using cascade_rounds_closed [OF True, of "Suc n"] by simp
  next
    case False
    have fin: "finite ?D" using sub by (rule finite_subset) simp
    have "D \<subset> ?D" using False by blast
    from psubset_card_mono [OF fin this] have "card D + 1 \<le> card ?D" by simp
    with Suc.IH [OF sub] show ?thesis unfolding cascade_rounds_hosted by linarith
  qed
qed simp

lemma cascade_users_closed:
  assumes "D \<subseteq> u_id ` set us"
  shows "hosted us (cascade_users us D) \<subseteq> cascade_users us D"
proof (cases "D = {}")
  case True
  then have "hosted us D \<subseteq> D" by (auto simp: hosted_iff)
  from cascade_rounds_closed [OF this, of "length us"] this show ?thesis
    by (simp add: cascade_users_def)
next
  case False
  have fin: "finite D" using assms by (rule finite_subset) simp
  with False have pos: "0 < card D" by (simp add: card_gt_0_iff)
  have "card (cascade_users us D) \<le> card (u_id ` set us)"
    unfolding cascade_users_def by (rule card_mono) (simp, rule cascade_rounds_subset [OF assms])
  also have "\<dots> \<le> length us" using card_image_le card_length le_trans by blast
  finally show ?thesis
    using cascade_rounds_grow [OF assms, of "length us"] pos by (auto simp: cascade_users_def)
qed

lemma keeps_fk: "keeps v gone \<Longrightarrow> fk_ok v A \<Longrightarrow> fk_ok v (A - gone)"
  by (auto simp: keeps_def fk_ok_def split: option.splits)

lemma distinct_map_filter_fst: "distinct (map f xs) \<Longrightarrow> distinct (map f (filter P xs))"
  by (rule distinct_map_filter)

lemma distinct_filter_map_filter:
  "distinct (filter Q (map f xs)) \<Longrightarrow> distinct (filter Q (map f (filter P xs)))"
  by (induction xs) (auto simp: image_iff)

definition deleted_ids :: "(user_row \<Rightarrow> bool) \<Rightarrow> gateway_db \<Rightarrow> int set" where
  "deleted_ids P db = cascade_users (users db) (u_id ` set (filter P (users db)))"

definition deleted_refresh :: "(user_row \<Rightarrow> bool) \<Rightarrow> gateway_db \<Rightarrow> string set" where
  "deleted_refresh P db =
     rt_token_hash ` set (filter (\<lambda>r. \<not> keeps (rt_user_id r) (deleted_ids P db)) (refresh_tokens db))"

lemma delete_tables:
  "users (delete_users_where P db) = filter (\<lambda>u. u_id u \<notin> deleted_ids P db) (users db)"
  "oauth_clients (delete_users_where P db) = oauth_clients db"
  "auth_codes (delete_users_where P db) = filter (\<lambda>r. keeps (ac_user_id r) (deleted_ids P db)) (auth_codes db)"
  "refresh_tokens (delete_users_where P db) =
     filter (\<lambda>r. keeps (rt_user_id r) (deleted_ids P db)) (refresh_tokens db)"
  "access_tokens (delete_users_where P db) =
     filter (\<lambda>r. keeps (at_user_id r) (deleted_ids P db)
       \<and> keeps (at_refresh_token_hash r) (deleted_refresh P db)) (access_tokens db)"
  "browser_sessions (delete_users_where P db) =
     filter (\<lambda>r. keeps (bs_user_id r) (deleted_ids P db)) (browser_sessions db)"
  "device_codes (delete_users_where P db) =
     filter (\<lambda>r. keeps (dc_user_id r) (deleted_ids P db)) (device_codes db)"
  "guest_codes (delete_users_where P db) =
     filter (\<lambda>r. gc_host_user_id r \<notin> deleted_ids P db) (guest_codes db)"
  "guest_seq (delete_users_where P db) = guest_seq db"
  by (simp_all add: delete_users_where_def Let_def deleted_ids_def deleted_refresh_def)

lemma client_ids_delete: "client_ids (delete_users_where P db) = client_ids db"
  by (simp add: client_ids_def delete_tables)

lemma user_ids_delete: "user_ids (delete_users_where P db) = user_ids db - deleted_ids P db"
  by (auto simp: delete_tables user_ids_def)

lemma deleted_ids_hosted:
  assumes "u \<in> set (users db)" "u_id u \<notin> deleted_ids P db"
  shows "keeps (u_host_user_id u) (deleted_ids P db)"
proof -
  have "u_id ` set (filter P (users db)) \<subseteq> u_id ` set (users db)" by auto
  from cascade_users_closed [OF this]
  have "u_id u \<notin> hosted (users db) (deleted_ids P db)"
    using assms(2) unfolding deleted_ids_def [symmetric] by blast
  with assms(1) show ?thesis by (auto simp: keeps_def hosted_iff split: option.splits)
qed

lemma refresh_fk_delete:
  "fk_ok v (refresh_hashes db) \<Longrightarrow> keeps v (deleted_refresh P db) \<Longrightarrow>
   fk_ok v (refresh_hashes (delete_users_where P db))"
  by (force simp: refresh_hashes_def fk_ok_def keeps_def deleted_refresh_def delete_tables split: option.splits)

lemma table_ok_filter_mono:
  "table_ok key Q rows \<Longrightarrow> (\<And>r. r \<in> set rows \<Longrightarrow> P r \<Longrightarrow> Q r \<Longrightarrow> Q' r) \<Longrightarrow> table_ok key Q' (filter P rows)"
  by (auto simp: table_ok_def distinct_map_filter)

lemma db_ok_delete [db_ok_intros]: "db_ok db \<Longrightarrow> db_ok (delete_users_where P db)"
  unfolding db_ok_def client_ids_delete user_ids_delete delete_tables names_ok_def
  by (elim conjE, intro conjI;
      (rule distinct_filter_map_filter)?, (erule table_ok_filter_mono)?)
    (auto simp: keeps_fk deleted_ids_hosted refresh_fk_delete)

section \<open>Integrity of every method\<close>

lemma db_ok_append_user:
  assumes "db_ok db" "u_id u \<notin> user_ids db"
    and "u_username u = None \<or> u_username u \<notin> u_username ` set (users db)"
    and "fk_ok (u_host_user_id u) (user_ids db)"
  shows "db_ok (db\<lparr>users := users db @ [u]\<rparr>)"
proof -
  let ?db = "db\<lparr>users := users db @ [u]\<rparr>"
  have ids: "user_ids ?db = insert (u_id u) (user_ids db)" by (simp add: user_ids_def)
  have names: "names_ok (users db) \<Longrightarrow> names_ok (users db @ [u])"
    using assms(3) by (auto simp: names_ok_def)
  have us: "table_ok u_id (\<lambda>u. fk_ok (u_host_user_id u) (user_ids db)) (users db) \<Longrightarrow>
      table_ok u_id (\<lambda>u. fk_ok (u_host_user_id u) (user_ids ?db)) (users db @ [u])"
    using assms(2,4) by (auto simp: table_ok_def ids fk_ok_insert user_ids_def)
  show ?thesis
    using assms(1) unfolding db_ok_def
    by - (elim conjE, intro conjI; simp add: us [unfolded ids] names ids table_ok_mono_fk table_ok_mono_in)
qed

lemma db_ok_set_master [db_ok_intros]:
  "set_master_password_hash phc now db = Inr db' \<Longrightarrow> db_ok db \<Longrightarrow> db_ok db'"
  unfolding set_master_password_hash_def
  by (simp split: if_splits) (drule sym, simp add: db_ok_append_user)

lemma db_ok_insert_user [db_ok_intros]:
  "insert_user n now db = Inr (uid, db') \<Longrightarrow> db_ok db \<Longrightarrow> db_ok db'"
proof -
  assume a: "insert_user n now db = Inr (uid, db')" "db_ok db"
  have "next_rowid (map u_id (users db)) \<notin> user_ids db"
    using next_rowid_fresh [of "map u_id (users db)"] by (simp add: user_ids_def)
  with a show "db_ok db'"
    unfolding insert_user_def Let_def
    by (simp split: if_splits) (auto intro!: db_ok_append_user simp: image_iff)
qed

lemma create_account_insert: "create_account n now db = Inr r \<Longrightarrow> insert_user n now db = Inr r"
  by (auto simp: create_account_def split: sum.splits if_splits)

lemma db_ok_create_account [db_ok_intros]:
  "create_account n now db = Inr (uid, db') \<Longrightarrow> db_ok db \<Longrightarrow> db_ok db'"
  by (blast dest: create_account_insert intro: db_ok_insert_user)

lemma db_ok_update_password:
  "db_ok db \<Longrightarrow> db_ok (db\<lparr>users := update_where P (\<lambda>u. u\<lparr>u_password_hash := x\<rparr>) (users db)\<rparr>)"
proof -
  have "user_ids (db\<lparr>users := update_where P (\<lambda>u. u\<lparr>u_password_hash := x\<rparr>) (users db)\<rparr>) = user_ids db"
    by (simp add: user_ids_def image_update_where)
  then show "db_ok db \<Longrightarrow> ?thesis"
    by (simp add: db_ok_def names_ok_def map_update_where table_ok_update)
qed

lemma db_ok_set_user_password [db_ok_intros]:
  "set_user_password uid phc db = (ok, db') \<Longrightarrow> db_ok db \<Longrightarrow> db_ok db'"
  by (auto simp: set_user_password_def Let_def db_ok_update_password)

lemma db_ok_delete_user [db_ok_intros]: "delete_user uid db = (ok, db') \<Longrightarrow> db_ok db \<Longrightarrow> db_ok db'"
  by (auto simp: delete_user_def db_ok_delete)

lemma db_ok_delete_expired [db_ok_intros]:
  "delete_expired_guests now db = (n, db') \<Longrightarrow> db_ok db \<Longrightarrow> db_ok db'"
  by (auto simp: delete_expired_guests_def db_ok_delete)

lemma db_ok_register_client [db_ok_intros]:
  assumes "register_client cid name uris now db = Inr (row, db')" "db_ok db"
  shows "db_ok db'"
proof -
  have cid: "cid \<notin> oc_client_id ` set (oauth_clients db)"
    and db': "db' = db\<lparr>oauth_clients := oauth_clients db @ [row]\<rparr>" and row: "oc_client_id row = cid"
    using assms(1) by (auto simp: register_client_def Let_def client_ids_def split: if_splits)
  have ids: "client_ids (db\<lparr>oauth_clients := oauth_clients db @ [row]\<rparr>) = insert cid (client_ids db)"
    using row by (simp add: client_ids_def)
  show ?thesis
    using assms(2) cid row unfolding db' db_ok_def
    by (elim conjE, intro conjI) (simp_all add: ids table_ok_mono_in table_ok_append)
qed

lemma db_ok_create_session [db_ok_intros]:
  "create_session h token uid ttl now db = Inr db' \<Longrightarrow> db_ok db \<Longrightarrow> db_ok db'"
  by (auto simp: create_session_def db_ok_def table_ok_append split: if_splits)

lemma db_ok_revoke_session [db_ok_intros]: "db_ok db \<Longrightarrow> db_ok (revoke_session h token now db)"
  by (auto simp: revoke_session_def db_ok_def table_ok_update)

lemma db_ok_revoke_all_sessions [db_ok_intros]:
  "revoke_all_sessions_for_user uid now db = (n, db') \<Longrightarrow> db_ok db \<Longrightarrow> db_ok db'"
  by (auto simp: revoke_all_sessions_for_user_def Let_def db_ok_def table_ok_update)

lemma db_ok_update_tokens:
  assumes "db_ok db"
  shows "db_ok (db\<lparr>refresh_tokens := update_where P (\<lambda>r. r\<lparr>rt_revoked_at := x\<rparr>) (refresh_tokens db),
    access_tokens := update_where Q (\<lambda>r. r\<lparr>at_revoked_at := y\<rparr>) (access_tokens db)\<rparr>)"
proof -
  have "refresh_hashes (db\<lparr>refresh_tokens := update_where P (\<lambda>r. r\<lparr>rt_revoked_at := x\<rparr>) (refresh_tokens db),
      access_tokens := update_where Q (\<lambda>r. r\<lparr>at_revoked_at := y\<rparr>) (access_tokens db)\<rparr>) = refresh_hashes db"
    by (simp add: refresh_hashes_def image_update_where)
  with assms show ?thesis by (auto simp: db_ok_def table_ok_update)
qed

lemma db_ok_revoke_all_tokens [db_ok_intros]:
  "revoke_all_tokens_for_user uid now db = (n, db') \<Longrightarrow> db_ok db \<Longrightarrow> db_ok db'"
  by (auto simp: revoke_all_tokens_for_user_def Let_def intro!: db_ok_update_tokens)

lemma db_ok_consume_refresh [db_ok_intros]:
  "consume_refresh_token h token cid now db = (res, db') \<Longrightarrow> db_ok db \<Longrightarrow> db_ok db'"
  by (auto simp: consume_refresh_token_def revoke_derived_def split: option.splits intro!: db_ok_update_tokens)

lemma tokens_upd_commute:
  "db\<lparr>access_tokens := a, refresh_tokens := b\<rparr> = db\<lparr>refresh_tokens := b, access_tokens := a\<rparr>"
  by simp

lemma db_ok_revoke_family [db_ok_intros]:
  "revoke_family fam now db = (n, db') \<Longrightarrow> db_ok db \<Longrightarrow> db_ok db'"
  unfolding revoke_family_def revoke_derived_def Let_def tokens_upd_commute
  by (auto intro: db_ok_update_tokens)

lemma db_ok_revoke_refresh [db_ok_intros]: "db_ok db \<Longrightarrow> db_ok (revoke_refresh_token h token now db)"
  by (auto simp: revoke_refresh_token_def revoke_derived_def intro!: db_ok_update_tokens)

lemma db_ok_revoke_access [db_ok_intros]: "db_ok db \<Longrightarrow> db_ok (revoke_access_token h token now db)"
  by (auto simp: revoke_access_token_def db_ok_def table_ok_update)

lemma db_ok_create_auth_code [db_ok_intros]:
  "create_auth_code h code n now db = Inr db' \<Longrightarrow> db_ok db \<Longrightarrow> db_ok db'"
  by (auto simp: create_auth_code_def db_ok_def table_ok_append split: if_splits)

lemma db_ok_consume_auth_code [db_ok_intros]:
  "consume_auth_code h code now db = (res, db') \<Longrightarrow> db_ok db \<Longrightarrow> db_ok db'"
  by (auto simp: consume_auth_code_def db_ok_def table_ok_update split: option.splits)

lemma db_ok_mint_refresh [db_ok_intros]:
  assumes "mint_refresh_token h token n now db = Inr db'" "db_ok db"
  shows "db_ok db'"
proof -
  define r where "r = \<lparr>rt_token_hash = h token, rt_client_id = nr_client_id n, rt_issued_at = now,
      rt_expires_at = map_option (expiry now) (nr_ttl n), rt_revoked_at = None,
      rt_user_id = Some (nr_user_id n),
      rt_family_id = (case nr_family_id n of Some f \<Rightarrow> f | None \<Rightarrow> h token)\<rparr>"
  have r: "rt_token_hash r \<notin> rt_token_hash ` set (refresh_tokens db)"
      "rt_client_id r \<in> client_ids db" "fk_ok (rt_user_id r) (user_ids db)"
    and db': "db' = db\<lparr>refresh_tokens := refresh_tokens db @ [r]\<rparr>"
    using assms(1) by (auto simp: mint_refresh_token_def r_def split: if_splits)
  have ids: "refresh_hashes (db\<lparr>refresh_tokens := refresh_tokens db @ [r]\<rparr>) =
      insert (rt_token_hash r) (refresh_hashes db)" by (simp add: refresh_hashes_def)
  have access: "table_ok at_token_hash (\<lambda>r. at_client_id r \<in> client_ids db \<and> fk_ok (at_user_id r) (user_ids db)
        \<and> fk_ok (at_refresh_token_hash r) K) rows \<Longrightarrow>
      table_ok at_token_hash (\<lambda>r. at_client_id r \<in> client_ids db \<and> fk_ok (at_user_id r) (user_ids db)
        \<and> fk_ok (at_refresh_token_hash r) (insert k K)) rows" for k K rows
    by (auto simp: table_ok_def fk_ok_insert)
  show ?thesis
    using assms(2) r unfolding db' db_ok_def
    by (elim conjE, intro conjI) (simp_all add: ids access table_ok_append)
qed

lemma db_ok_mint_access [db_ok_intros]:
  "mint_access_token_for_user h token cid rh ttl uid now db = Inr db' \<Longrightarrow> db_ok db \<Longrightarrow> db_ok db'"
  by (auto simp: mint_access_token_for_user_def refresh_hashes_def [symmetric] db_ok_def table_ok_append
      split: if_splits)

lemma db_ok_create_device_code [db_ok_intros]:
  "create_device_code h dc uc n now db = Inr db' \<Longrightarrow> db_ok db \<Longrightarrow> db_ok db'"
  by (auto simp: create_device_code_def db_ok_def table_ok_append split: if_splits)

lemma db_ok_device_decision [db_ok_intros]:
  "set_device_decision uc approve who now db = (ok, db') \<Longrightarrow> db_ok db \<Longrightarrow> db_ok db'"
  by (auto simp: set_device_decision_def Let_def db_ok_def table_ok_update)

lemma db_ok_consume_device [db_ok_intros]:
  "consume_device_code h code now db = (res, db') \<Longrightarrow> db_ok db \<Longrightarrow> db_ok db'"
  by (auto simp: consume_device_code_def db_ok_def table_ok_update
      split: option.splits if_splits)

lemma db_ok_redeem [db_ok_intros]:
  "redeem_guest_code h code now db = (res, db') \<Longrightarrow> db_ok db \<Longrightarrow> db_ok db'"
  by (auto simp: redeem_guest_code_def db_ok_def table_ok_update
      split: option.splits if_splits)

lemma db_ok_revoke_guest [db_ok_intros]:
  "revoke_guest_code host gid now db = (ok, db') \<Longrightarrow> db_ok db \<Longrightarrow> db_ok db'"
  by (auto simp: revoke_guest_code_def Let_def db_ok_def table_ok_update)

lemma db_ok_create_guest_code [db_ok_intros]:
  assumes "create_guest_code h code n now db = Inr (gid, db')" "db_ok db"
  shows "db_ok db'"
proof -
  define r where "r = \<lparr>gc_id = gid, gc_code_hash = h code,
      gc_host_user_id = ng_host_user_id n, gc_label = ng_label n, gc_created_at = now,
      gc_expires_at = ng_expires_at n, gc_max_uses = ng_max_uses n, gc_uses = 0,
      gc_revoked_at = None\<rparr>"
  have r: "gc_code_hash r \<notin> gc_code_hash ` set (guest_codes db)"
      "gc_host_user_id r \<in> user_ids db" "gc_id r = gid"
    and db': "db' = db\<lparr>guest_codes := guest_codes db @ [r], guest_seq := gid\<rparr>"
    and seq: "guest_seq db < gid"
    using assms(1) by (auto simp: create_guest_code_def Let_def r_def split: if_splits)
  have ids: "table_ok gc_id (\<lambda>r. gc_id r \<le> guest_seq db) (guest_codes db) \<Longrightarrow>
      table_ok gc_id (\<lambda>r. gc_id r \<le> gid) (guest_codes db @ [r])"
    using seq r(3) by (force simp: table_ok_def)
  show ?thesis
    using assms(2) r ids unfolding db' db_ok_def
    by (elim conjE, intro conjI) (simp_all add: table_ok_append)
qed

end
