(* ===== verification/Db_History.thy ===== *)
theory Db_History
  imports Db_Integrity
begin

text \<open>
  The history of the credential tables. \<open>db_evolves M db db'\<close>: every credential row of \<open>db'\<close> is a
  row of \<open>db\<close> that has at most moved forward (a consumed, revoked or decided row keeps its stamp, a
  use count does not fall, no other column changes), or its table and hash are in \<open>M\<close>, what was
  minted on the way. Rows may disappear (a deleted account). The relation is reflexive and transitive, and
  each method of \<open>Oauth_Store\<close> is an instance (\<open>evolve_intros\<close>), so that a handler's history is
  composed from its calls.
\<close>

section \<open>Rows that only move forward\<close>

definition sticky :: "'a option \<Rightarrow> 'a option \<Rightarrow> bool" where
  "sticky a b \<longleftrightarrow> (a \<noteq> None \<longrightarrow> b = a)"

lemma sticky_simps [simp]: "sticky a a" "sticky None b" "sticky (Some x) b \<longleftrightarrow> b = Some x"
  by (auto simp: sticky_def)

lemma sticky_trans: "sticky a b \<Longrightarrow> sticky b c \<Longrightarrow> sticky a c"
  by (auto simp: sticky_def)

definition adv_code :: "auth_code_row \<Rightarrow> auth_code_row \<Rightarrow> bool" where
  "adv_code r r' \<longleftrightarrow> r' = r\<lparr>ac_consumed_at := ac_consumed_at r'\<rparr>
     \<and> sticky (ac_consumed_at r) (ac_consumed_at r')"

definition adv_refresh :: "refresh_row \<Rightarrow> refresh_row \<Rightarrow> bool" where
  "adv_refresh r r' \<longleftrightarrow> r' = r\<lparr>rt_revoked_at := rt_revoked_at r'\<rparr>
     \<and> sticky (rt_revoked_at r) (rt_revoked_at r')"

definition adv_access :: "access_row \<Rightarrow> access_row \<Rightarrow> bool" where
  "adv_access r r' \<longleftrightarrow> r' = r\<lparr>at_revoked_at := at_revoked_at r'\<rparr>
     \<and> sticky (at_revoked_at r) (at_revoked_at r')"

definition adv_session :: "browser_session_row \<Rightarrow> browser_session_row \<Rightarrow> bool" where
  "adv_session r r' \<longleftrightarrow> r' = r\<lparr>bs_revoked_at := bs_revoked_at r'\<rparr>
     \<and> sticky (bs_revoked_at r) (bs_revoked_at r')"

definition adv_device :: "device_code_row \<Rightarrow> device_code_row \<Rightarrow> bool" where
  "adv_device r r' \<longleftrightarrow> r' = r\<lparr>dc_approved_at := dc_approved_at r', dc_denied_at := dc_denied_at r',
        dc_consumed_at := dc_consumed_at r', dc_user_id := dc_user_id r'\<rparr>
     \<and> sticky (dc_approved_at r) (dc_approved_at r') \<and> sticky (dc_denied_at r) (dc_denied_at r')
     \<and> sticky (dc_consumed_at r) (dc_consumed_at r')
     \<and> (dc_approved_at r \<noteq> None \<longrightarrow> dc_user_id r' = dc_user_id r \<and> dc_denied_at r' = dc_denied_at r)"

definition adv_guest :: "guest_code_row \<Rightarrow> guest_code_row \<Rightarrow> bool" where
  "adv_guest r r' \<longleftrightarrow> r' = r\<lparr>gc_uses := gc_uses r', gc_revoked_at := gc_revoked_at r'\<rparr>
     \<and> sticky (gc_revoked_at r) (gc_revoked_at r') \<and> gc_uses r \<le> gc_uses r'"

lemma adv_refl [simp]:
  "adv_code a a" "adv_refresh b b" "adv_access c c" "adv_session d d" "adv_device e e" "adv_guest f f"
  by (simp_all add: adv_code_def adv_refresh_def adv_access_def adv_session_def adv_device_def adv_guest_def)

lemma adv_key:
  "adv_code a a' \<Longrightarrow> ac_code_hash a' = ac_code_hash a"
  "adv_refresh b b' \<Longrightarrow> rt_token_hash b' = rt_token_hash b"
  "adv_access c c' \<Longrightarrow> at_token_hash c' = at_token_hash c"
  "adv_session d d' \<Longrightarrow> bs_token_hash d' = bs_token_hash d"
  "adv_device e e' \<Longrightarrow> dc_device_code_hash e' = dc_device_code_hash e"
  "adv_guest f f' \<Longrightarrow> gc_code_hash f' = gc_code_hash f"
  unfolding adv_code_def adv_refresh_def adv_access_def adv_session_def adv_device_def adv_guest_def
  by (erule conjE, erule ssubst, simp)+

lemma adv_sticky:
  "adv_code a a' \<Longrightarrow> sticky (ac_consumed_at a) (ac_consumed_at a')"
  "adv_refresh b b' \<Longrightarrow> sticky (rt_revoked_at b) (rt_revoked_at b')"
  "adv_access c c' \<Longrightarrow> sticky (at_revoked_at c) (at_revoked_at c')"
  "adv_session d d' \<Longrightarrow> sticky (bs_revoked_at d) (bs_revoked_at d')"
  "adv_device e e' \<Longrightarrow> sticky (dc_consumed_at e) (dc_consumed_at e')"
  "adv_guest f f' \<Longrightarrow> sticky (gc_revoked_at f) (gc_revoked_at f')"
  by (simp_all add: adv_code_def adv_refresh_def adv_access_def adv_session_def adv_device_def adv_guest_def)

lemma adv_code_trans: "adv_code a b \<Longrightarrow> adv_code b c \<Longrightarrow> adv_code a c"
  by (cases a; cases b; cases c) (auto simp: adv_code_def dest: sticky_trans)

lemma adv_refresh_trans: "adv_refresh a b \<Longrightarrow> adv_refresh b c \<Longrightarrow> adv_refresh a c"
  by (cases a; cases b; cases c) (auto simp: adv_refresh_def dest: sticky_trans)

lemma adv_access_trans: "adv_access a b \<Longrightarrow> adv_access b c \<Longrightarrow> adv_access a c"
  by (cases a; cases b; cases c) (auto simp: adv_access_def dest: sticky_trans)

lemma adv_session_trans: "adv_session a b \<Longrightarrow> adv_session b c \<Longrightarrow> adv_session a c"
  by (cases a; cases b; cases c) (auto simp: adv_session_def dest: sticky_trans)

lemma adv_device_trans: "adv_device a b \<Longrightarrow> adv_device b c \<Longrightarrow> adv_device a c"
  by (cases a; cases b; cases c) (auto simp: adv_device_def dest: sticky_trans)

lemma adv_guest_trans: "adv_guest a b \<Longrightarrow> adv_guest b c \<Longrightarrow> adv_guest a c"
  by (cases a; cases b; cases c) (auto simp: adv_guest_def dest: sticky_trans)

lemma adv_trans:
  "transp adv_code" "transp adv_refresh" "transp adv_access" "transp adv_session"
  "transp adv_device" "transp adv_guest"
  by (blast intro: transpI adv_code_trans adv_refresh_trans adv_access_trans adv_session_trans
      adv_device_trans adv_guest_trans)+

section \<open>Tables\<close>

definition evolves :: "('r \<Rightarrow> 'r \<Rightarrow> bool) \<Rightarrow> ('r \<Rightarrow> 'k) \<Rightarrow> 'k set \<Rightarrow> 'r list \<Rightarrow> 'r list \<Rightarrow> bool" where
  "evolves adv key M rows rows' \<longleftrightarrow> (\<forall>r' \<in> set rows'. key r' \<in> M \<or> (\<exists>r \<in> set rows. adv r r'))"

lemma evolves_refl: "(\<And>r. adv r r) \<Longrightarrow> evolves adv key M rows rows"
  by (auto simp: evolves_def)

lemma evolves_trans:
  assumes "evolves adv key M a b" "evolves adv key N b c"
    and "transp adv" "\<And>r r'. adv r r' \<Longrightarrow> key r' = key r"
  shows "evolves adv key (M \<union> N) a c"
  using assms unfolding evolves_def transp_def by (metis UnCI)

lemma evolves_update:
  "(\<And>r. adv r r) \<Longrightarrow> (\<And>r. P r \<Longrightarrow> adv r (f r)) \<Longrightarrow> evolves adv key M rows (update_where P f rows)"
  by (fastforce simp: evolves_def in_update_where)

lemma evolves_append:
  "(\<And>r. adv r r) \<Longrightarrow> key r \<in> M \<Longrightarrow> evolves adv key M rows (rows @ [r])"
  by (auto simp: evolves_def)

lemma evolves_filter: "(\<And>r. adv r r) \<Longrightarrow> evolves adv key M rows (filter P rows)"
  by (auto simp: evolves_def)

section \<open>The database\<close>

datatype credential_table = AuthCodes | RefreshTokens | AccessTokens | BrowserSessions | DeviceCodes | GuestCodes

text \<open>A minted hash together with the table it goes to.\<close>

type_synonym minted_key = "credential_table \<times> string"

definition db_evolves :: "minted_key set \<Rightarrow> gateway_db \<Rightarrow> gateway_db \<Rightarrow> bool" where
  "db_evolves M db db' \<longleftrightarrow>
     evolves adv_code (\<lambda>r. (AuthCodes, ac_code_hash r)) M (auth_codes db) (auth_codes db')
     \<and> evolves adv_refresh (\<lambda>r. (RefreshTokens, rt_token_hash r)) M (refresh_tokens db) (refresh_tokens db')
     \<and> evolves adv_access (\<lambda>r. (AccessTokens, at_token_hash r)) M (access_tokens db) (access_tokens db')
     \<and> evolves adv_session (\<lambda>r. (BrowserSessions, bs_token_hash r)) M (browser_sessions db) (browser_sessions db')
     \<and> evolves adv_device (\<lambda>r. (DeviceCodes, dc_device_code_hash r)) M (device_codes db) (device_codes db')
     \<and> evolves adv_guest (\<lambda>r. (GuestCodes, gc_code_hash r)) M (guest_codes db) (guest_codes db')"

lemma db_evolves_refl [simp]: "db_evolves M db db"
  by (simp add: db_evolves_def evolves_refl)

lemma db_evolves_trans: "db_evolves M a b \<Longrightarrow> db_evolves N b c \<Longrightarrow> db_evolves (M \<union> N) a c"
  unfolding db_evolves_def
  by (elim conjE, intro conjI; rule evolves_trans; (assumption | rule adv_trans | simp add: adv_key))

lemma evolves_mono: "evolves adv key M a b \<Longrightarrow> M \<subseteq> N \<Longrightarrow> evolves adv key N a b"
  by (auto simp: evolves_def)

lemma db_evolves_mono: "db_evolves M a b \<Longrightarrow> M \<subseteq> N \<Longrightarrow> db_evolves N a b"
  unfolding db_evolves_def by (blast intro: evolves_mono)

text \<open>Two steps that mint within the same set.\<close>

lemma db_evolves_step: "db_evolves M a b \<Longrightarrow> db_evolves M b c \<Longrightarrow> db_evolves M a c"
  using db_evolves_trans [of M a b M c] by simp

subsection \<open>Every method\<close>

lemmas evolve_updates = evolves_refl evolves_append evolves_filter evolves_update

lemma evolve_users [evolve_intros]:
  "set_master_password_hash phc now db = Inr db1 \<Longrightarrow> db_evolves M db db1"
  "insert_user n now db = Inr (uid, db2) \<Longrightarrow> db_evolves M db db2"
  "create_account n now db = Inr (uid, db3) \<Longrightarrow> db_evolves M db db3"
  "set_user_password u phc db = (ok, db4) \<Longrightarrow> db_evolves M db db4"
  "register_client cid name uris now db = Inr (row, db5) \<Longrightarrow> db_evolves M db db5"
  by (auto simp: set_master_password_hash_def insert_user_def create_account_def set_user_password_def
      register_client_def Let_def db_evolves_def evolves_refl split: if_splits sum.splits)

lemma evolve_delete: "db_evolves M db (delete_users_where P db)"
  by (simp add: db_evolves_def delete_tables evolves_filter)

lemma evolve_deletes [evolve_intros]:
  "delete_user uid db = (ok, db1) \<Longrightarrow> db_evolves M db db1"
  "delete_expired_guests now db = (n, db2) \<Longrightarrow> db_evolves M db db2"
  by (auto simp: delete_user_def delete_expired_guests_def evolve_delete)

lemma evolve_create_session [evolve_intros]:
  "create_session h token uid ttl now db = Inr db' \<Longrightarrow> (BrowserSessions, h token) \<in> M \<Longrightarrow> db_evolves M db db'"
  by (auto simp: create_session_def db_evolves_def evolve_updates split: if_splits)

lemma evolve_revoke_session [evolve_intros]: "db_evolves M db (revoke_session h token now db)"
  by (auto simp: revoke_session_def db_evolves_def evolves_refl adv_session_def intro!: evolves_update)

lemma evolve_revoke_all_sessions [evolve_intros]:
  "revoke_all_sessions_for_user uid now db = (n, db') \<Longrightarrow> db_evolves M db db'"
  by (auto simp: revoke_all_sessions_for_user_def Let_def db_evolves_def evolves_refl adv_session_def
      intro!: evolves_update)

lemma evolve_update_tokens:
  "(\<And>r. P r \<Longrightarrow> rt_revoked_at r = None) \<Longrightarrow> (\<And>r. Q r \<Longrightarrow> at_revoked_at r = None) \<Longrightarrow>
   db_evolves M db (db\<lparr>refresh_tokens := update_where P (\<lambda>r. r\<lparr>rt_revoked_at := x\<rparr>) (refresh_tokens db),
     access_tokens := update_where Q (\<lambda>r. r\<lparr>at_revoked_at := y\<rparr>) (access_tokens db)\<rparr>)"
  by (auto simp: db_evolves_def evolves_refl adv_refresh_def adv_access_def intro!: evolves_update)

lemma evolve_revoke_all_tokens [evolve_intros]:
  "revoke_all_tokens_for_user uid now db = (n, db') \<Longrightarrow> db_evolves M db db'"
  by (auto simp: revoke_all_tokens_for_user_def Let_def intro!: evolve_update_tokens)

lemma evolve_consume_refresh [evolve_intros]:
  "consume_refresh_token h token cid now db = (res, db') \<Longrightarrow> db_evolves M db db'"
  by (auto simp: consume_refresh_token_def revoke_derived_def refresh_live_def refresh_active_def
      split: option.splits intro!: evolve_update_tokens)

lemma evolve_revoke_family [evolve_intros]:
  "revoke_family fam now db = (n, db') \<Longrightarrow> db_evolves M db db'"
  unfolding revoke_family_def revoke_derived_def Let_def tokens_upd_commute
  by (auto intro!: evolve_update_tokens)

lemma evolve_revoke_refresh [evolve_intros]: "db_evolves M db (revoke_refresh_token h token now db)"
  by (auto simp: revoke_refresh_token_def revoke_derived_def intro!: evolve_update_tokens)

lemma evolve_revoke_access [evolve_intros]: "db_evolves M db (revoke_access_token h token now db)"
  by (auto simp: revoke_access_token_def db_evolves_def evolves_refl adv_access_def intro!: evolves_update)

lemma evolve_create_auth_code [evolve_intros]:
  "create_auth_code h code n now db = Inr db' \<Longrightarrow> (AuthCodes, h code) \<in> M \<Longrightarrow> db_evolves M db db'"
  by (auto simp: create_auth_code_def db_evolves_def evolve_updates split: if_splits)

lemma evolve_consume_auth_code [evolve_intros]:
  "consume_auth_code h code now db = (res, db') \<Longrightarrow> db_evolves M db db'"
  by (auto simp: consume_auth_code_def auth_code_live_def db_evolves_def evolves_refl adv_code_def
      split: option.splits intro!: evolves_update)

lemma evolve_mint_refresh [evolve_intros]:
  "mint_refresh_token h token n now db = Inr db' \<Longrightarrow> (RefreshTokens, h token) \<in> M \<Longrightarrow> db_evolves M db db'"
  by (auto simp: mint_refresh_token_def db_evolves_def evolve_updates split: if_splits)

lemma evolve_mint_access [evolve_intros]:
  "mint_access_token_for_user h token cid rh ttl uid now db = Inr db' \<Longrightarrow> (AccessTokens, h token) \<in> M \<Longrightarrow>
   db_evolves M db db'"
  by (auto simp: mint_access_token_for_user_def db_evolves_def evolve_updates split: if_splits)

lemma evolve_create_device_code [evolve_intros]:
  "create_device_code h dc uc n now db = Inr db' \<Longrightarrow> (DeviceCodes, h dc) \<in> M \<Longrightarrow> db_evolves M db db'"
  by (auto simp: create_device_code_def db_evolves_def evolve_updates split: if_splits)

lemma evolve_device_decision [evolve_intros]:
  "set_device_decision uc approve who now db = (ok, db') \<Longrightarrow> db_evolves M db db'"
  by (auto simp: set_device_decision_def Let_def device_undecided_def db_evolves_def evolves_refl
      adv_device_def intro!: evolves_update)

lemma evolve_consume_device [evolve_intros]:
  "consume_device_code h code now db = (res, db') \<Longrightarrow> db_evolves M db db'"
  by (auto simp: consume_device_code_def device_claimable_def db_evolves_def evolves_refl adv_device_def
      split: option.splits if_splits intro!: evolves_update)

lemma evolve_create_guest_code [evolve_intros]:
  "create_guest_code h code n now db = Inr (gid, db') \<Longrightarrow> (GuestCodes, h code) \<in> M \<Longrightarrow> db_evolves M db db'"
  by (auto simp: create_guest_code_def Let_def db_evolves_def evolve_updates split: if_splits)

lemma evolve_redeem [evolve_intros]:
  "redeem_guest_code h code now db = (res, db') \<Longrightarrow> db_evolves M db db'"
  by (auto simp: redeem_guest_code_def db_evolves_def evolves_refl adv_guest_def
      split: option.splits if_splits intro!: evolves_update)

lemma evolve_revoke_guest [evolve_intros]:
  "revoke_guest_code host gid now db = (ok, db') \<Longrightarrow> db_evolves M db db'"
  by (auto simp: revoke_guest_code_def Let_def db_evolves_def evolves_refl adv_guest_def
      intro!: evolves_update)

end
