(* ===== verification/Rate_Limit.thy ===== *)
theory Rate_Limit
  imports Prelude
begin

text \<open>
  The in-memory rate limiters of \<open>music-gateway/src/ratelimit.rs\<close>. An \<open>Instant\<close> is a number of
  nanoseconds on a clock that never goes back; an \<open>IpAddr\<close> is its text. \<open>failures\<close> and \<open>count\<close>
  are \<open>u32\<close>; a window's \<open>max\<close> is a \<open>u32\<close> too.

  Lemmas: a source is locked out after five failures for exactly the lockout and then starts
  afresh; a window never lets more than \<open>max\<close> requests through; sources do not affect each
  other.
\<close>

type_synonym instant = nat
type_synonym ip_addr = string

definition MAX_FAILURES :: "32 word" where
  "MAX_FAILURES = 5"

definition LOCKOUT :: nat where
  "LOCKOUT = 60 * 1000000000"

definition MAX_TRACKED_SOURCES :: nat where
  "MAX_TRACKED_SOURCES = 10000"

section \<open>LoginLimiter\<close>

record attempt =
  at_failures :: "32 word"
  at_locked_until :: "instant option"

definition default_attempt :: attempt where
  "default_attempt = \<lparr>at_failures = 0, at_locked_until = None\<rparr>"

type_synonym login_limiter = "ip_addr \<rightharpoonup> attempt"

definition login_check :: "ip_addr \<Rightarrow> instant \<Rightarrow> login_limiter \<Rightarrow> (nat + unit) \<times> login_limiter" where
  "login_check ip now m =
     (case m ip of
        Some a \<Rightarrow>
          (case at_locked_until a of
             Some until \<Rightarrow>
               if now < until then (Inl (until - now), m)
               else (Inr (), m(ip \<mapsto> default_attempt))
           | None \<Rightarrow> (Inr (), m))
      | None \<Rightarrow> (Inr (), m))"

definition record_failure :: "ip_addr \<Rightarrow> instant \<Rightarrow> login_limiter \<Rightarrow> login_limiter" where
  "record_failure ip now m =
     (let a = (case m ip of Some a \<Rightarrow> a | None \<Rightarrow> default_attempt);
          a1 = a\<lparr>at_failures := at_failures a + 1\<rparr>
      in m(ip \<mapsto> (if MAX_FAILURES \<le> at_failures a1
                   then a1\<lparr>at_locked_until := Some (now + LOCKOUT)\<rparr> else a1)))"

definition record_success :: "ip_addr \<Rightarrow> login_limiter \<Rightarrow> login_limiter" where
  "record_success ip m = m(ip := None)"

section \<open>RateLimiter\<close>

record rate_window =
  rw_count :: "32 word"
  rw_started :: instant

text \<open>The map is an association list, so that its length is its number of buckets.\<close>

type_synonym rate_limiter = "((string \<times> ip_addr) \<times> rate_window) list"

definition rate_sweep :: "instant \<Rightarrow> nat \<Rightarrow> rate_limiter \<Rightarrow> rate_limiter" where
  "rate_sweep now window m = filter (\<lambda>(k, w). now - rw_started w < window) m"

fun put_window :: "string \<times> ip_addr \<Rightarrow> rate_window \<Rightarrow> rate_limiter \<Rightarrow> rate_limiter" where
  "put_window k w [] = [(k, w)]"
| "put_window k w ((k', w') # m) = (if k' = k then (k, w) # m else (k', w') # put_window k w m)"

definition rate_check ::
  "string \<Rightarrow> ip_addr \<Rightarrow> 32 word \<Rightarrow> nat \<Rightarrow> instant \<Rightarrow> rate_limiter \<Rightarrow> (nat + unit) \<times> rate_limiter" where
  "rate_check endpoint ip mx window now m =
     (let k = (endpoint, ip);
          m1 = (if MAX_TRACKED_SOURCES \<le> length m \<and> map_of m k = None
                then rate_sweep now window m else m);
          w = (case map_of m1 k of Some w \<Rightarrow> w | None \<Rightarrow> \<lparr>rw_count = 0, rw_started = now\<rparr>);
          w1 = (if window \<le> now - rw_started w then \<lparr>rw_count = 0, rw_started = now\<rparr> else w)
      in if mx \<le> rw_count w1
         then (Inl (window - (now - rw_started w1)), put_window k w1 m1)
         else (Inr (), put_window k (w1\<lparr>rw_count := rw_count w1 + 1\<rparr>) m1))"

section \<open>Lockout\<close>

lemma map_of_put_window [simp]: "map_of (put_window k w m) = (map_of m)(k \<mapsto> w)"
  by (induction k w m rule: put_window.induct) (auto simp: fun_eq_iff)

lemma login_check_other:
  "j \<noteq> ip \<Longrightarrow> snd (login_check ip now m) j = m j"
  "j \<noteq> ip \<Longrightarrow> record_failure ip now m j = m j"
  "j \<noteq> ip \<Longrightarrow> record_success ip m j = m j"
  by (auto simp: login_check_def record_failure_def record_success_def Let_def split: option.splits)

fun failures_at :: "ip_addr \<Rightarrow> instant list \<Rightarrow> login_limiter \<Rightarrow> login_limiter" where
  "failures_at ip [] m = m"
| "failures_at ip (t # ts) m = failures_at ip ts (record_failure ip t m)"

lemma failures_at_append:
  "failures_at ip (xs @ ys) m = failures_at ip ys (failures_at ip xs m)"
  by (induction ip xs m rule: failures_at.induct) simp_all

text \<open>A run of at most four failures never locks; the fifth does.\<close>

lemma record_failure_fields:
  "record_failure ip now m ip = Some
     (let a = (case m ip of Some a \<Rightarrow> a | None \<Rightarrow> default_attempt)
      in \<lparr>at_failures = at_failures a + 1,
          at_locked_until = (if MAX_FAILURES \<le> at_failures a + 1 then Some (now + LOCKOUT)
                             else at_locked_until a)\<rparr>)"
  by (auto simp: record_failure_def Let_def split: option.split)

lemma unat_max_failures: "unat MAX_FAILURES = 5"
  unfolding MAX_FAILURES_def by code_simp

lemma failures_below:
  assumes "m ip = None" "length ts < 5"
  shows "failures_at ip ts m ip =
    (if ts = [] then None else Some \<lparr>at_failures = of_nat (length ts), at_locked_until = None\<rparr>)"
  using assms(2)
proof (induction ts rule: rev_induct)
  case Nil
  then show ?case using assms(1) by simp
next
  case (snoc t ts)
  have "unat (of_nat (Suc (length ts)) :: 32 word) = Suc (length ts)"
    using snoc.prems by (simp add: unat_of_nat del: of_nat_Suc)
  then have le: "\<not> MAX_FAILURES \<le> of_nat (length ts) + 1"
    using snoc.prems unat_max_failures by (simp add: word_le_nat_alt add.commute)
  show ?case
    using snoc le
    by (cases "ts = []") (simp_all add: failures_at_append record_failure_fields default_attempt_def
        Let_def MAX_FAILURES_def)
qed

lemma fifth_failure_locks:
  assumes "m ip = None" "length ts = 4"
  shows "failures_at ip (ts @ [t]) m ip =
    Some \<lparr>at_failures = 5, at_locked_until = Some (t + LOCKOUT)\<rparr>"
proof -
  have "ts \<noteq> []" "length ts < 5" using assms(2) by auto
  with failures_below [where m = m and ip = ip and ts = ts, OF assms(1)] assms(2) show ?thesis
    by (simp add: failures_at_append record_failure_fields MAX_FAILURES_def)
qed

section \<open>Requests per window\<close>

text \<open>What a check does to its own bucket, when no sweep removes it.\<close>

lemma rate_sweep_None: "map_of m k = None \<Longrightarrow> map_of (rate_sweep now window m) k = None"
proof (induction m)
  case (Cons e m)
  then show ?case by (cases e) (simp add: rate_sweep_def split: if_splits)
qed (simp add: rate_sweep_def)

text \<open>The bucket the check works on, after the sweep that may precede it.\<close>

lemma rate_swept:
  "map_of (if P \<and> map_of m k = None then rate_sweep now window m else m) k = map_of m k"
  by (simp add: rate_sweep_None)

lemma rate_check_bucket:
  "map_of (snd (rate_check ep ip mx window now m)) (ep, ip) = Some
     (let w = (case map_of m (ep, ip) of Some w \<Rightarrow> w | None \<Rightarrow> \<lparr>rw_count = 0, rw_started = now\<rparr>);
          w1 = (if window \<le> now - rw_started w then \<lparr>rw_count = 0, rw_started = now\<rparr> else w)
      in if mx \<le> rw_count w1 then w1 else w1\<lparr>rw_count := rw_count w1 + 1\<rparr>)"
proof -
  let ?w = "(if window \<le> now - rw_started (case map_of m (ep, ip) of Some w \<Rightarrow> w | None \<Rightarrow> \<lparr>rw_count = 0, rw_started = now\<rparr>)
      then \<lparr>rw_count = 0, rw_started = now\<rparr>
      else (case map_of m (ep, ip) of Some w \<Rightarrow> w | None \<Rightarrow> \<lparr>rw_count = 0, rw_started = now\<rparr>))"
  show ?thesis
    unfolding rate_check_def Let_def rate_swept
    by (cases "mx \<le> rw_count ?w") (simp_all only: if_True if_False snd_conv map_of_put_window fun_upd_same)
qed

lemma rate_check_result:
  "is_ok (fst (rate_check ep ip mx window now m)) \<longleftrightarrow>
     (let w = (case map_of m (ep, ip) of Some w \<Rightarrow> w | None \<Rightarrow> \<lparr>rw_count = 0, rw_started = now\<rparr>);
          w1 = (if window \<le> now - rw_started w then \<lparr>rw_count = 0, rw_started = now\<rparr> else w)
      in rw_count w1 < mx)"
proof -
  let ?w = "(if window \<le> now - rw_started (case map_of m (ep, ip) of Some w \<Rightarrow> w | None \<Rightarrow> \<lparr>rw_count = 0, rw_started = now\<rparr>)
      then \<lparr>rw_count = 0, rw_started = now\<rparr>
      else (case map_of m (ep, ip) of Some w \<Rightarrow> w | None \<Rightarrow> \<lparr>rw_count = 0, rw_started = now\<rparr>))"
  show ?thesis
    unfolding rate_check_def Let_def rate_swept
    by (cases "mx \<le> rw_count ?w")
      (simp_all only: if_True if_False fst_conv sum.case not_le [symmetric] not_True_eq_False not_False_eq_True)
qed

text \<open>A run of requests of several sources against several endpoints.\<close>

record rate_request =
  rr_endpoint :: string
  rr_ip :: ip_addr
  rr_max :: "32 word"
  rr_now :: instant

fun run_requests :: "nat \<Rightarrow> rate_request list \<Rightarrow> rate_limiter \<Rightarrow> (rate_request \<times> bool) list \<times> rate_limiter" where
  "run_requests window [] m = ([], m)"
| "run_requests window (r # rs) m =
     (let (res, m1) = rate_check (rr_endpoint r) (rr_ip r) (rr_max r) window (rr_now r) m;
          (rest, m2) = run_requests window rs m1
      in ((r, is_ok res) # rest, m2))"

definition accepted_of :: "string \<times> ip_addr \<Rightarrow> (rate_request \<times> bool) list \<Rightarrow> nat" where
  "accepted_of k res = length (filter (\<lambda>(r, ok). ok \<and> (rr_endpoint r, rr_ip r) = k) res)"

text \<open>A bucket of the current window, and the same bucket after a request of somebody else.\<close>

lemma rate_check_other:
  assumes "(ep, ip) \<noteq> k" "map_of m k = Some w" "now - rw_started w < window"
  shows "map_of (snd (rate_check ep ip mx window now m)) k = Some w"
proof -
  have "map_of (rate_sweep now window m) k = Some w"
    using assms(2,3)
  proof (induction m)
    case (Cons e m)
    then show ?case by (cases e) (auto simp: rate_sweep_def split: if_splits)
  qed simp
  with assms(1,2) show ?thesis by (auto simp: rate_check_def Let_def)
qed

lemma rate_check_other_None:
  assumes "(ep, ip) \<noteq> k" "map_of m k = None"
  shows "map_of (snd (rate_check ep ip mx window now m)) k = None"
  using assms by (auto simp: rate_check_def Let_def rate_sweep_None)

definition bucket_count :: "string \<times> ip_addr \<Rightarrow> instant \<Rightarrow> rate_limiter \<Rightarrow> 32 word option" where
  "bucket_count k t0 m =
     (case map_of m k of
        None \<Rightarrow> Some 0
      | Some w \<Rightarrow> if t0 \<le> rw_started w then Some (rw_count w) else None)"

lemma bucket_step:
  assumes "bucket_count k t0 m = Some c" "t0 \<le> rr_now r" "rr_now r < t0 + window"
    and "(rr_endpoint r, rr_ip r) = k" "rr_max r = mx" "c \<le> mx"
  shows "\<exists>c'. bucket_count k t0 (snd (rate_check (rr_endpoint r) (rr_ip r) (rr_max r) window (rr_now r) m)) = Some c'
    \<and> c' \<le> mx \<and> unat c' =
        unat c + (if is_ok (fst (rate_check (rr_endpoint r) (rr_ip r) (rr_max r) window (rr_now r) m)) then 1 else 0)"
proof -
  let ?w = "case map_of m k of Some w \<Rightarrow> w | None \<Rightarrow> \<lparr>rw_count = 0, rw_started = rr_now r\<rparr>"
  have w: "t0 \<le> rw_started ?w" "rw_count ?w = c"
    using assms(1,2) by (auto simp: bucket_count_def split: option.splits if_splits)
  have "\<not> window \<le> rr_now r - rw_started ?w"
    using w(1) assms(2,3) by linarith
  then have after: "map_of (snd (rate_check (rr_endpoint r) (rr_ip r) (rr_max r) window (rr_now r) m)) k =
        Some (if mx \<le> c then ?w else ?w\<lparr>rw_count := c + 1\<rparr>)"
    and ok: "is_ok (fst (rate_check (rr_endpoint r) (rr_ip r) (rr_max r) window (rr_now r) m)) \<longleftrightarrow> c < mx"
    using rate_check_bucket [of "rr_endpoint r" "rr_ip r" "rr_max r" window "rr_now r" m]
      rate_check_result [of "rr_endpoint r" "rr_ip r" "rr_max r" window "rr_now r" m]
      assms(4,5) w(2) by (simp_all add: Let_def)
  show ?thesis
  proof (cases "c < mx")
    case False
    then have "mx \<le> c" by simp
    with after ok w assms(6) show ?thesis by (simp add: bucket_count_def)
  next
    case True
    note inc = word_inc_less [OF True]
    from True have "\<not> mx \<le> c" by simp
    with True after ok w inc show ?thesis by (simp add: bucket_count_def)
  qed
qed

lemma window_bound:
  assumes "bucket_count k t0 m = Some c" "c \<le> mx"
    and "\<forall>r \<in> set rs. t0 \<le> rr_now r \<and> rr_now r < t0 + window
      \<and> ((rr_endpoint r, rr_ip r) = k \<longrightarrow> rr_max r = mx)"
  shows "unat c + accepted_of k (fst (run_requests window rs m)) \<le> unat mx"
  using assms
proof (induction window rs m arbitrary: c rule: run_requests.induct)
  case (1 window m)
  then show ?case by (simp add: accepted_of_def word_le_nat_alt)
next
  case (2 window r rs m)
  let ?res = "fst (rate_check (rr_endpoint r) (rr_ip r) (rr_max r) window (rr_now r) m)"
  let ?m1 = "snd (rate_check (rr_endpoint r) (rr_ip r) (rr_max r) window (rr_now r) m)"
  have t: "t0 \<le> rr_now r" "rr_now r < t0 + window" using "2.prems"(3) by auto
  have rest: "\<forall>r \<in> set rs. t0 \<le> rr_now r \<and> rr_now r < t0 + window
      \<and> ((rr_endpoint r, rr_ip r) = k \<longrightarrow> rr_max r = mx)" using "2.prems"(3) by auto
  have acc: "accepted_of k (fst (run_requests window (r # rs) m)) =
      (if is_ok ?res \<and> (rr_endpoint r, rr_ip r) = k then 1 else 0)
      + accepted_of k (fst (run_requests window rs ?m1))"
    by (simp add: accepted_of_def split_beta Let_def)
  have IH: "bucket_count k t0 ?m1 = Some c \<Longrightarrow> c \<le> mx \<Longrightarrow>
      unat c + accepted_of k (fst (run_requests window rs ?m1)) \<le> unat mx" for c
    using "2.IH" [OF refl, of ?res ?m1 c] rest by simp
  show ?case
  proof (cases "(rr_endpoint r, rr_ip r) = k")
    case True
    have "rr_max r = mx" using "2.prems"(3) True by auto
    from bucket_step [OF "2.prems"(1) t True this "2.prems"(2)] obtain c' where
      c': "bucket_count k t0 ?m1 = Some c'" "c' \<le> mx" "unat c' = unat c + (if is_ok ?res then 1 else 0)"
      by blast
    from IH [OF c'(1,2)] acc c'(3) True show ?thesis by auto
  next
    case False
    have "bucket_count k t0 ?m1 = Some c"
    proof (cases "map_of m k")
      case None
      with False "2.prems"(1) show ?thesis by (simp add: bucket_count_def rate_check_other_None)
    next
      case (Some w)
      with "2.prems"(1) have "t0 \<le> rw_started w" by (simp add: bucket_count_def split: if_splits)
      with t have "rr_now r - rw_started w < window" by linarith
      from rate_check_other [OF False Some this] Some "2.prems"(1) show ?thesis
        by (simp add: bucket_count_def)
    qed
    from IH [OF this "2.prems"(2)] acc False show ?thesis by auto
  qed
qed

section \<open>Property\<close>

text \<open>
  In any stretch of time shorter than the window, one source gets at most \<open>max\<close> requests to an
  endpoint through, whatever other sources do in between (their requests may sweep expired buckets
  out of the map), and the requests themselves arrive in any order.
\<close>

theorem window_admits_at_most_max:
  assumes "\<forall>r \<in> set rs. t0 \<le> rr_now r \<and> rr_now r < t0 + window \<and> ((rr_endpoint r, rr_ip r) = k \<longrightarrow> rr_max r = mx)"
  shows "accepted_of k (fst (run_requests window rs [])) \<le> unat mx"
proof -
  have "bucket_count k t0 [] = Some 0" by (simp add: bucket_count_def)
  from window_bound [OF this _ assms] show ?thesis by simp
qed

definition demo_requests :: "rate_request list" where
  "demo_requests = map (\<lambda>(ip, t). \<lparr>rr_endpoint = ''guest'', rr_ip = ip, rr_max = 2, rr_now = t\<rparr>)
     [(''a'', 100), (''a'', 101), (''b'', 102), (''a'', 103)]"

theorem window_admits_at_most_max_witness:
  "accepted_of (''guest'', ''a'') (fst (run_requests 60 demo_requests [])) \<le> 2
   \<and> accepted_of (''guest'', ''a'') (fst (run_requests 60 demo_requests [])) = 2"
proof
  have "\<forall>r \<in> set demo_requests. 100 \<le> rr_now r \<and> rr_now r < 100 + 60
      \<and> ((rr_endpoint r, rr_ip r) = (''guest'', ''a'') \<longrightarrow> rr_max r = 2)"
    by (simp add: demo_requests_def)
  from window_admits_at_most_max [OF this]
  show "accepted_of (''guest'', ''a'') (fst (run_requests 60 demo_requests [])) \<le> 2" by simp
  show "accepted_of (''guest'', ''a'') (fst (run_requests 60 demo_requests [])) = 2" by code_simp
qed

end
