(* ===== verification/Http_Text.thy ===== *)
theory Http_Text
  imports Prelude
begin

text \<open>
  The text the gateway reads from and writes into requests: session cookie and bearer extraction,
  percent encoding, HTML escaping, the whitelist of redirect targets
  (\<open>music-gateway/src/oauth/handlers.rs\<close>, \<open>music-gateway/src/auth.rs\<close>, and the alphabet of
  \<open>oauth/session.rs\<close>). A \<open>char\<close> is a byte; text is ASCII where the code counts or trims characters
  (\<open>trim\<close> is Rust's on ASCII whitespace), and \<open>percent_decode\<close> yields for each byte the character
  of the same number, as \<open>char::from(u8)\<close> does.

  Lemmas: decoding undoes encoding; an encoded component has only unreserved characters and
  percent signs, an escaped text none of the characters with a meaning in HTML; a redirect target
  is always a path; the constant-time comparisons are equality.
\<close>

section \<open>Strings\<close>

definition byte :: "char \<Rightarrow> nat" where
  "byte c = of_char c"

definition is_ws :: "char \<Rightarrow> bool" where
  "is_ws c \<longleftrightarrow> byte c = 32 \<or> (9 \<le> byte c \<and> byte c \<le> 13)"

text \<open>\<open>to_ascii_lowercase\<close> on a character.\<close>

definition ascii_lower :: "char \<Rightarrow> char" where
  "ascii_lower c = (if 65 \<le> byte c \<and> byte c \<le> 90 then char_of (byte c + 32) else c)"

definition trim :: "string \<Rightarrow> string" where
  "trim s = rev (dropWhile is_ws (rev (dropWhile is_ws s)))"

fun split_on :: "char \<Rightarrow> string \<Rightarrow> string list" where
  "split_on d [] = [[]]"
| "split_on d (c # cs) =
     (if c = d then [] # split_on d cs
      else (case split_on d cs of [] \<Rightarrow> [[c]] | p # ps \<Rightarrow> (c # p) # ps))"

fun strip_prefix :: "string \<Rightarrow> string \<Rightarrow> string option" where
  "strip_prefix [] s = Some s"
| "strip_prefix (p # ps) [] = None"
| "strip_prefix (p # ps) (c # cs) = (if p = c then strip_prefix ps cs else None)"

definition starts_with :: "string \<Rightarrow> string \<Rightarrow> bool" where
  "starts_with s p \<longleftrightarrow> strip_prefix p s \<noteq> None"

fun split_once :: "char \<Rightarrow> string \<Rightarrow> (string \<times> string) option" where
  "split_once d [] = None"
| "split_once d (c # cs) =
     (if c = d then Some ([], cs) else map_option (\<lambda>(a, b). (c # a, b)) (split_once d cs))"

text \<open>\<open>HeaderValue::to_str\<close>: visible ASCII and tab.\<close>

definition header_to_str :: "string \<Rightarrow> string option" where
  "header_to_str v =
     (if \<forall>c \<in> set v. (32 \<le> byte c \<and> byte c < 127) \<or> byte c = 9 then Some v else None)"

section \<open>Cookie and bearer\<close>

definition SESSION_COOKIE :: string where
  "SESSION_COOKIE = ''gw_session''"

fun first_some :: "('a \<Rightarrow> 'b option) \<Rightarrow> 'a list \<Rightarrow> 'b option" where
  "first_some f [] = None"
| "first_some f (x # xs) = (case f x of Some y \<Rightarrow> Some y | None \<Rightarrow> first_some f xs)"

definition extract_session_cookie :: "string option \<Rightarrow> string option" where
  "extract_session_cookie cookie =
     Option.bind (Option.bind cookie header_to_str) (\<lambda>raw.
       first_some (\<lambda>pair. strip_prefix (SESSION_COOKIE @ ''='') (trim pair)) (split_on CHR '';'' raw))"

fun hex_digit :: "nat \<Rightarrow> nat option" where
  "hex_digit b =
     (if 48 \<le> b \<and> b \<le> 57 then Some (b - 48)
      else if 97 \<le> b \<and> b \<le> 102 then Some (b - 97 + 10)
      else if 65 \<le> b \<and> b \<le> 70 then Some (b - 65 + 10)
      else None)"

fun percent_decode :: "string \<Rightarrow> string" where
  "percent_decode [] = []"
| "percent_decode (b # bs) =
     (if b = CHR ''%'' then
        (case bs of
           [] \<Rightarrow> ''%''
         | [h1] \<Rightarrow> [CHR ''%'', h1]
         | h1 # h2 # rest \<Rightarrow>
             (case (hex_digit (byte h1), hex_digit (byte h2)) of
                (Some d1, Some d2) \<Rightarrow> char_of (d1 * 16 + d2) # percent_decode rest
              | _ \<Rightarrow> CHR ''%'' # h1 # h2 # percent_decode rest))
      else b # percent_decode bs)"

text \<open>The \<open>Authorization\<close> header and the query string of a request.\<close>

definition extract_bearer :: "string option \<Rightarrow> string option \<Rightarrow> string option" where
  "extract_bearer authorization query =
     (case Option.bind (Option.bind authorization header_to_str) (strip_prefix ''Bearer '') of
        Some t \<Rightarrow> Some t
      | None \<Rightarrow>
          Option.bind query (\<lambda>q.
            first_some (\<lambda>kv. case split_once CHR ''='' kv of
                None \<Rightarrow> None
              | Some (k, v) \<Rightarrow> if k = ''access_token'' then Some (percent_decode v) else None)
              (split_on CHR ''&'' q)))"

text \<open>The accumulated difference of \<open>constant_time_eq\<close> and of \<open>ct_eq\<close>.\<close>

unbundle bit_operations_syntax

definition constant_time_eq :: "8 word list \<Rightarrow> 8 word list \<Rightarrow> bool" where
  "constant_time_eq a b =
     (if length a \<noteq> length b then False
      else fold (\<lambda>(x, y) diff. diff OR (x XOR y)) (zip a b) (0 :: 8 word) = 0)"

section \<open>Encoding and escaping\<close>

definition unreserved :: "char \<Rightarrow> bool" where
  "unreserved c \<longleftrightarrow> (65 \<le> byte c \<and> byte c \<le> 90) \<or> (97 \<le> byte c \<and> byte c \<le> 122)
     \<or> (48 \<le> byte c \<and> byte c \<le> 57) \<or> c \<in> set ''-_.~''"

definition upper_hex :: "nat \<Rightarrow> char" where
  "upper_hex d = (if d < 10 then char_of (48 + d) else char_of (55 + d))"

definition urlencoding_encode :: "string \<Rightarrow> string" where
  "urlencoding_encode s = concat (map (\<lambda>c.
     if unreserved c then [c]
     else [CHR ''%'', upper_hex (byte c div 16), upper_hex (byte c mod 16)]) s)"

definition replace_char :: "char \<Rightarrow> string \<Rightarrow> string \<Rightarrow> string" where
  "replace_char c r s = concat (map (\<lambda>x. if x = c then r else [x]) s)"

definition html_escape :: "string \<Rightarrow> string" where
  "html_escape s =
     replace_char CHR 0x27 ''&#39;''
      (replace_char CHR 0x22 ''&quot;''
        (replace_char CHR ''>'' ''&gt;''
          (replace_char CHR ''<'' ''&lt;''
            (replace_char CHR ''&'' ''&amp;'' s))))"

definition safe_redirect_target :: "string option \<Rightarrow> string" where
  "safe_redirect_target next =
     (case next of
        Some n \<Rightarrow>
          if starts_with n ''/'' \<and> \<not> starts_with n ''//''
             \<and> (\<forall>c \<in> set n. byte c \<notin> {32, 13, 10, 9})
          then n else ''/''
      | None \<Rightarrow> ''/'')"

definition MAX_GUEST_DISPLAY_NAME :: nat where
  "MAX_GUEST_DISPLAY_NAME = 64"

definition sanitize_guest_name :: "string option \<Rightarrow> string" where
  "sanitize_guest_name provided =
     (let trimmed = trim (case provided of Some s \<Rightarrow> s | None \<Rightarrow> [])
      in if trimmed = [] then ''Guest'' else take MAX_GUEST_DISPLAY_NAME trimmed)"

definition USER_CODE_CHARSET :: string where
  "USER_CODE_CHARSET = ''BCDFGHJKLMNPQRSTVWXZ''"

text \<open>The user code of eight random bytes.\<close>

definition mint_user_code :: "nat list \<Rightarrow> string" where
  "mint_user_code buf =
     concat (map (\<lambda>(i, b). (if i = 4 then ''-'' else [])
         @ [USER_CODE_CHARSET ! (b mod length USER_CODE_CHARSET)]) (enumerate 0 buf))"

section \<open>Lemmas\<close>

lemma constant_time_eq_iff: "constant_time_eq a b \<longleftrightarrow> a = b"
proof -
  have acc: "fold (\<lambda>(x, y) diff. diff OR (x XOR y)) ps d = 0 \<longleftrightarrow> d = 0 \<and> (\<forall>(x, y) \<in> set ps. x = y)"
    for ps :: "(8 word \<times> 8 word) list" and d
  proof (induction ps arbitrary: d)
    case (Cons p ps)
    have xor: "x XOR y = 0 \<longleftrightarrow> x = y" for x y :: "8 word"
      by (metis xor_self_eq bit.xor_left_self xor.right_neutral)
    have "d OR e = 0 \<longleftrightarrow> d = 0 \<and> e = 0" for d e :: "8 word"
      by (metis or.right_neutral or_eq_0_iff)
    then show ?case using Cons by (cases p) (auto simp: xor)
  qed simp
  show ?thesis
    unfolding constant_time_eq_def acc
    by (auto simp: list_eq_iff_zip_eq)
qed

lemma hex_upper: "d < 16 \<Longrightarrow> hex_digit (byte (upper_hex d)) = Some d"
  by (simp add: upper_hex_def byte_def)

lemma byte_less: "byte c < 256"
  by (simp add: byte_def)

lemma percent_decode_unreserved: "unreserved c \<Longrightarrow> percent_decode (c # s) = c # percent_decode s"
  by (auto simp: unreserved_def byte_def)

lemma percent_decode_encoded:
  "percent_decode (CHR ''%'' # upper_hex (byte c div 16) # upper_hex (byte c mod 16) # s) = c # percent_decode s"
proof -
  have "byte c div 16 < 16" using byte_less [of c] by simp
  moreover have "byte c mod 16 < 16" by simp
  moreover have "char_of (byte c div 16 * 16 + byte c mod 16) = c"
    by (simp add: byte_def)
  ultimately show ?thesis by (simp add: hex_upper del: hex_digit.simps)
qed

lemma decode_encode_append: "percent_decode (urlencoding_encode s @ t) = s @ percent_decode t"
proof (induction s)
  case Nil
  then show ?case by (simp add: urlencoding_encode_def)
next
  case (Cons c s)
  then show ?case
    by (simp add: urlencoding_encode_def percent_decode_unreserved percent_decode_encoded
        del: percent_decode.simps)
qed

lemma decode_encode: "percent_decode (urlencoding_encode s) = s"
  using decode_encode_append [of s "[]"] by simp

lemma upper_hex_unreserved: "d < 16 \<Longrightarrow> unreserved (upper_hex d)"
  by (simp add: upper_hex_def unreserved_def byte_def)

lemma encode_chars: "c \<in> set (urlencoding_encode s) \<Longrightarrow> unreserved c \<or> c = CHR ''%''"
proof -
  have "byte x div 16 < 16" for x using byte_less [of x] by simp
  then show "c \<in> set (urlencoding_encode s) \<Longrightarrow> ?thesis"
    by (auto simp: urlencoding_encode_def upper_hex_unreserved split: if_splits)
qed

lemma set_replace_char: "x \<in> set (replace_char c r s) \<Longrightarrow> x \<in> set r \<or> (x \<in> set s \<and> x \<noteq> c)"
  by (auto simp: replace_char_def split: if_splits)

lemma html_escape_chars:
  assumes "x \<in> set (html_escape s)"
  shows "x \<noteq> CHR ''<'' \<and> x \<noteq> CHR ''>'' \<and> x \<noteq> CHR 0x22 \<and> x \<noteq> CHR 0x27"
  using assms unfolding html_escape_def
  by (auto dest!: set_replace_char)

lemma safe_redirect_path: "\<exists>p. safe_redirect_target next = CHR ''/'' # p \<and> (p = [] \<or> hd p \<noteq> CHR ''/'')"
proof (cases "safe_redirect_target next")
  case Nil
  then show ?thesis
    by (auto simp: safe_redirect_target_def starts_with_def split: option.splits if_splits)
next
  case (Cons c p)
  then have "c = CHR ''/''" "p = [] \<or> hd p \<noteq> CHR ''/''"
    by (cases p; auto simp: safe_redirect_target_def starts_with_def split: option.splits if_splits)+
  with Cons show ?thesis by simp
qed

lemma user_code_shape:
  assumes "length buf = 8"
  shows "length (mint_user_code buf) = 9 \<and> mint_user_code buf ! 4 = CHR ''-''
    \<and> (\<forall>c \<in> set (mint_user_code buf). c = CHR ''-'' \<or> c \<in> set USER_CODE_CHARSET)"
proof -
  obtain a b c d e f g h where "buf = [a, b, c, d, e, f, g, h]"
    using assms by (auto simp: numeral_eq_Suc length_Suc_conv)
  moreover have "USER_CODE_CHARSET ! (n mod length USER_CODE_CHARSET) \<in> set USER_CODE_CHARSET" for n
    by (rule nth_mem) (simp add: USER_CODE_CHARSET_def)
  ultimately show ?thesis by (auto simp: mint_user_code_def)
qed

section \<open>Properties\<close>

text \<open>
  Percent decoding undoes the gateway's own encoder, and an encoded component contains nothing
  that could end a query parameter or a header: only unreserved characters and percent signs.
\<close>

theorem urlencoding_roundtrip:
  "percent_decode (urlencoding_encode s) = s
   \<and> set (urlencoding_encode s) \<subseteq> {c. unreserved c \<or> c = CHR ''%''}"
  using decode_encode encode_chars by auto

text \<open>
  The redirect target after login is always a path that does not start with two slashes. A
  backslash in the second place is let through, though, which browsers read as a slash.
\<close>

theorem redirect_target_is_path:
  "take 1 (safe_redirect_target next) = ''/'' \<and> take 2 (safe_redirect_target next) \<noteq> ''//''
   \<and> safe_redirect_target (Some (CHR ''/'' # CHR 0x5C # ''evil.example'')) = CHR ''/'' # CHR 0x5C # ''evil.example''"
proof (intro conjI)
  obtain p where p: "safe_redirect_target next = CHR ''/'' # p" "p = [] \<or> hd p \<noteq> CHR ''/''"
    using safe_redirect_path by blast
  show "take 1 (safe_redirect_target next) = ''/''"
    by (simp add: p(1))
  show "take 2 (safe_redirect_target next) \<noteq> ''//''"
    using p by (cases p) auto
  show "safe_redirect_target (Some (CHR ''/'' # CHR 0x5C # ''evil.example'')) = CHR ''/'' # CHR 0x5C # ''evil.example''"
    by code_simp
qed

end
