(* ===== verification/Oauth_Handlers.thy ===== *)
theory Oauth_Handlers
  imports Db_History Rate_Limit Http_Text
begin

text \<open>
  The OAuth endpoints of the gateway (\<open>music-gateway/src/oauth/handlers.rs\<close>, with
  \<open>oauth/setup.rs\<close>), each as a function of the environment, the request and the state: the
  database, the setup token and the two limiters. A handler reads the clock once (in the code every
  store call reads it anew). What the code takes from libraries is a field of \<open>gw_env\<close>: SHA-256,
  Argon2 (which may fail), URL parsing and the header syntax check; random tokens are arguments.
  \<open>Inl\<close> is the error answer, with its status and message.
\<close>

section \<open>State and environment\<close>

record gw_state =
  gw_db :: gateway_db
  gw_setup_token :: "string option"
  gw_login :: login_limiter
  gw_public :: rate_limiter

record gw_env =
  hash_token :: "string \<Rightarrow> string"
  sha256_b64 :: "string \<Rightarrow> string"
  pw_hash :: "string \<Rightarrow> string option"
  pw_verify :: "string \<Rightarrow> string \<Rightarrow> bool option"
  url_with_query :: "string \<Rightarrow> (string \<times> string) list \<Rightarrow> string option"
  header_valid :: "string \<Rightarrow> bool"
  guest_session_ttl_seconds :: nat
  guest_sweep_interval :: nat
  static_bearer :: string

record clock =
  now_ms :: int
  now_mono :: instant

type_synonym http_err = "status \<times> string"

record oauth_err =
  oe_status :: status
  oe_error :: string
  oe_description :: string

definition internal :: http_err where
  "internal = (S_INTERNAL_SERVER_ERROR, ''internal error'')"

definition oauth_error :: "status \<Rightarrow> string \<Rightarrow> string \<Rightarrow> oauth_err" where
  "oauth_error st code desc = \<lparr>oe_status = st, oe_error = code, oe_description = desc\<rparr>"

definition oauth_internal :: oauth_err where
  "oauth_internal = oauth_error S_INTERNAL_SERVER_ERROR ''server_error'' ''internal error''"

definition secs :: "nat \<Rightarrow> nat" where
  "secs n = n * 1000000000"

definition SESSION_TTL :: nat where "SESSION_TTL = secs (24 * 60 * 60)"
definition AUTH_CODE_TTL :: nat where "AUTH_CODE_TTL = secs (10 * 60)"
definition ACCESS_TOKEN_TTL :: nat where "ACCESS_TOKEN_TTL = secs (60 * 60)"
definition REFRESH_TOKEN_TTL :: nat where "REFRESH_TOKEN_TTL = secs (90 * 24 * 60 * 60)"
definition REFRESH_REUSE_GRACE :: nat where "REFRESH_REUSE_GRACE = secs 10"
definition DEVICE_CODE_TTL :: nat where "DEVICE_CODE_TTL = secs (10 * 60)"
definition DEVICE_POLL_INTERVAL :: nat where "DEVICE_POLL_INTERVAL = secs 5"
definition MIN_PASSWORD_LEN :: nat where "MIN_PASSWORD_LEN = 12"
definition PUBLIC_OAUTH_RL_WINDOW :: nat where "PUBLIC_OAUTH_RL_WINDOW = secs 60"
definition GUEST_REDEEM_MAX_PER_WINDOW :: "32 word" where "GUEST_REDEEM_MAX_PER_WINDOW = 10"
definition DEVICE_AUTH_MAX_PER_WINDOW :: "32 word" where "DEVICE_AUTH_MAX_PER_WINDOW = 30"
definition REVOKE_MAX_PER_WINDOW :: "32 word" where "REVOKE_MAX_PER_WINDOW = 30"

definition peer_ip :: "ip_addr option \<Rightarrow> ip_addr" where
  "peer_ip connect = (case connect of Some ip \<Rightarrow> ip | None \<Rightarrow> ''0.0.0.0'')"

definition too_many_requests :: "nat \<Rightarrow> oauth_err" where
  "too_many_requests retry_after = oauth_error S_TOO_MANY_REQUESTS ''slow_down''
     (''too many requests; retry in '' @ nat_str (retry_after div 1000000000 + 1) @ ''s'')"

section \<open>Setup\<close>

definition setup_is_active :: "string option \<Rightarrow> bool" where
  "setup_is_active tok \<longleftrightarrow> tok \<noteq> None"

definition setup_matches :: "string option \<Rightarrow> string \<Rightarrow> bool" where
  "setup_matches tok presented =
     (case tok of
        None \<Rightarrow> False
      | Some stored \<Rightarrow>
          if length stored \<noteq> length presented then False
          else constant_time_eq (map (\<lambda>c. of_nat (byte c)) stored) (map (\<lambda>c. of_nat (byte c)) presented))"

definition oauth_setup :: "gw_env \<Rightarrow> clock \<Rightarrow> string \<Rightarrow> string \<Rightarrow> gw_state \<Rightarrow> (http_err + unit) \<times> gw_state" where
  "oauth_setup E c token password st =
     (if master_password_hash (gw_db st) \<noteq> None then
        (Inl (S_GONE, ''gateway is already configured''), st)
      else if \<not> setup_is_active (gw_setup_token st) then
        (Inl (S_GONE, ''setup token is not active''), st)
      else if \<not> setup_matches (gw_setup_token st) token then
        (Inl (S_FORBIDDEN, ''invalid setup token''), st)
      else if length password < MIN_PASSWORD_LEN then
        (Inl (S_BAD_REQUEST, ''password must be at least 12 characters''), st)
      else
        (case pw_hash E password of
           None \<Rightarrow> (Inl (S_INTERNAL_SERVER_ERROR, ''could not hash password''), st)
         | Some phc \<Rightarrow>
             (case set_master_password_hash phc (now_ms c) (gw_db st) of
                Inl _ \<Rightarrow> (Inl internal, st)
              | Inr db \<Rightarrow> (Inr (), st\<lparr>gw_db := db, gw_setup_token := None\<rparr>))))"

section \<open>Login and logout\<close>

text \<open>A header value that is not valid panics in \<open>expect\<close>, after the session was stored.\<close>

datatype login_err = LoginError status string | LoginPanic

definition login_cookie :: "string \<Rightarrow> string" where
  "login_cookie token = SESSION_COOKIE @ ''='' @ token
     @ ''; Path=/; HttpOnly; Secure; SameSite=Lax; Max-Age='' @ nat_str (SESSION_TTL div 1000000000)"

definition check_login :: "gw_env \<Rightarrow> string option \<Rightarrow> string \<Rightarrow> gateway_db \<Rightarrow> (int \<times> bool) option" where
  "check_login E username password db =
     (case find_login_user username db of
        Some u \<Rightarrow>
          (case u_password_hash u of
             Some phc \<Rightarrow> map_option (\<lambda>ok. (u_id u, ok)) (pw_verify E password phc)
           | None \<Rightarrow> Some (u_id u, False))
      | None \<Rightarrow> Some (0, False))"

definition login_post ::
  "gw_env \<Rightarrow> clock \<Rightarrow> ip_addr option \<Rightarrow> string option \<Rightarrow> string option \<Rightarrow> string \<Rightarrow> string \<Rightarrow> gw_state
     \<Rightarrow> (login_err + string \<times> string) \<times> gw_state" where
  "login_post E c connect next username password token st =
     (let ip = peer_ip connect;
          (allowed, lim) = login_check ip (now_mono c) (gw_login st);
          st = st\<lparr>gw_login := lim\<rparr>
      in case allowed of
           Inl remaining \<Rightarrow>
             (Inl (LoginError S_TOO_MANY_REQUESTS (''too many login attempts; retry in ''
                 @ nat_str (remaining div 1000000000 + 1) @ ''s'')), st)
         | Inr _ \<Rightarrow>
             (case check_login E username password (gw_db st) of
                None \<Rightarrow> (Inl (LoginError S_INTERNAL_SERVER_ERROR ''internal error''), st)
              | Some (user_id, ok) \<Rightarrow>
                  if \<not> ok then
                    (Inl (LoginError S_UNAUTHORIZED ''invalid credentials''),
                     st\<lparr>gw_login := record_failure ip (now_mono c) (gw_login st)\<rparr>)
                  else
                    let st = st\<lparr>gw_login := record_success ip (gw_login st)\<rparr>
                    in case create_session (hash_token E) token user_id SESSION_TTL (now_ms c) (gw_db st) of
                         Inl _ \<Rightarrow> (Inl (LoginError S_INTERNAL_SERVER_ERROR ''internal error''), st)
                       | Inr db \<Rightarrow>
                           let st = st\<lparr>gw_db := db\<rparr>; target = safe_redirect_target next
                           in if header_valid E (login_cookie token) \<and> header_valid E target
                              then (Inr (login_cookie token, target), st) else (Inl LoginPanic, st)))"

definition logout :: "gw_env \<Rightarrow> clock \<Rightarrow> string option \<Rightarrow> gw_state \<Rightarrow> status \<times> gw_state" where
  "logout E c cookie st =
     (case extract_session_cookie cookie of
        None \<Rightarrow> (S_NO_CONTENT, st)
      | Some token \<Rightarrow>
          (S_NO_CONTENT, st\<lparr>gw_db := revoke_session (hash_token E) token (now_ms c) (gw_db st)\<rparr>))"

section \<open>Authorize\<close>

record authorize_query =
  aq_response_type :: string
  aq_client_id :: string
  aq_redirect_uri :: string
  aq_code_challenge :: "string option"
  aq_code_challenge_method :: "string option"
  aq_state :: "string option"
  aq_prompt :: "string option"

fun join_params :: "(string \<times> string) list \<Rightarrow> string" where
  "join_params [] = []"
| "join_params [(k, v)] = k @ ''='' @ urlencoding_encode v"
| "join_params ((k, v) # p # ps) = k @ ''='' @ urlencoding_encode v @ ''&'' @ join_params (p # ps)"

definition authorize_next :: "authorize_query \<Rightarrow> string \<Rightarrow> string" where
  "authorize_next q challenge = ''/oauth/authorize?'' @ join_params
     ([(''response_type'', aq_response_type q), (''client_id'', aq_client_id q),
       (''redirect_uri'', aq_redirect_uri q), (''code_challenge'', challenge),
       (''code_challenge_method'', ''S256'')]
      @ (case aq_state q of Some s \<Rightarrow> [(''state'', s)] | None \<Rightarrow> []))"

definition authorize ::
  "gw_env \<Rightarrow> clock \<Rightarrow> authorize_query \<Rightarrow> string option \<Rightarrow> string \<Rightarrow> gw_state
     \<Rightarrow> (http_err + string) \<times> gw_state" where
  "authorize E c q cookie code st =
     (if aq_response_type q \<noteq> ''code'' then
        (Inl (S_BAD_REQUEST, ''only response_type=code is supported''), st)
      else case aq_code_challenge q of
        None \<Rightarrow> (Inl (S_BAD_REQUEST, ''PKCE is mandatory: code_challenge is required''), st)
      | Some challenge \<Rightarrow>
          if aq_code_challenge_method q \<noteq> Some ''S256'' then
            (Inl (S_BAD_REQUEST, ''only code_challenge_method=S256 is supported''), st)
          else case find_client (aq_client_id q) (gw_db st) of
            None \<Rightarrow> (Inl (S_BAD_REQUEST, ''unknown client_id''), st)
          | Some client \<Rightarrow>
              if aq_redirect_uri q \<notin> set (oc_redirect_uris client) then
                (Inl (S_BAD_REQUEST, ''redirect_uri is not registered for this client''), st)
              else
                let session_token = extract_session_cookie cookie;
                    found = Option.bind session_token
                      (\<lambda>t. find_session (hash_token E) t (now_ms c) (gw_db st));
                    (session, st) =
                      (if aq_prompt q = Some ''login'' then
                         (None, case session_token of
                            Some t \<Rightarrow> st\<lparr>gw_db := revoke_session (hash_token E) t (now_ms c) (gw_db st)\<rparr>
                          | None \<Rightarrow> st)
                       else (found, st))
                in case session of
                     None \<Rightarrow>
                       (Inr (''/oauth/login?next='' @ urlencoding_encode (authorize_next q challenge)), st)
                   | Some user_id \<Rightarrow>
                       (case create_auth_code (hash_token E) code
                               \<lparr>na_client_id = aq_client_id q, na_redirect_uri = aq_redirect_uri q,
                                na_code_challenge = challenge, na_user_id = user_id,
                                na_ttl = AUTH_CODE_TTL\<rparr> (now_ms c) (gw_db st) of
                          Inl _ \<Rightarrow> (Inl internal, st)
                        | Inr db \<Rightarrow>
                            (case url_with_query E (aq_redirect_uri q)
                                    ((''code'', code) # (case aq_state q of Some s \<Rightarrow> [(''state'', s)] | None \<Rightarrow> [])) of
                               None \<Rightarrow> (Inl (S_BAD_REQUEST, ''redirect_uri is not a valid URL''), st\<lparr>gw_db := db\<rparr>)
                             | Some url \<Rightarrow> (Inr url, st\<lparr>gw_db := db\<rparr>))))"

section \<open>Token\<close>

record token_form =
  tf_grant_type :: string
  tf_code :: "string option"
  tf_client_id :: "string option"
  tf_redirect_uri :: "string option"
  tf_code_verifier :: "string option"
  tf_refresh_token :: "string option"
  tf_device_code :: "string option"

record token_response =
  tr_access_token :: string
  tr_refresh_token :: string
  tr_expires_in :: nat

text \<open>The two tokens a grant may mint.\<close>

record fresh_pair =
  fp_refresh :: string
  fp_access :: string

type_synonym token_result = "(oauth_err + token_response) \<times> gateway_db"

definition mint_pair ::
  "gw_env \<Rightarrow> clock \<Rightarrow> fresh_pair \<Rightarrow> string \<Rightarrow> int \<Rightarrow> string option \<Rightarrow> gateway_db \<Rightarrow> token_result" where
  "mint_pair E c fp client_id user_id family_id db =
     (case mint_refresh_token (hash_token E) (fp_refresh fp)
             \<lparr>nr_client_id = client_id, nr_user_id = user_id, nr_ttl = Some REFRESH_TOKEN_TTL,
              nr_family_id = family_id\<rparr> (now_ms c) db of
        Inl _ \<Rightarrow> (Inl oauth_internal, db)
      | Inr db1 \<Rightarrow>
          (case mint_access_token_for_user (hash_token E) (fp_access fp) client_id
                  (Some (hash_token E (fp_refresh fp))) ACCESS_TOKEN_TTL (Some user_id) (now_ms c) db1 of
             Inl _ \<Rightarrow> (Inl oauth_internal, db1)
           | Inr db2 \<Rightarrow>
               (Inr \<lparr>tr_access_token = fp_access fp, tr_refresh_token = fp_refresh fp,
                     tr_expires_in = ACCESS_TOKEN_TTL div 1000000000\<rparr>, db2)))"

definition pkce_s256 :: "gw_env \<Rightarrow> string \<Rightarrow> string" where
  "pkce_s256 E verifier = sha256_b64 E verifier"

definition ct_eq_str :: "string \<Rightarrow> string \<Rightarrow> bool" where
  "ct_eq_str a b \<longleftrightarrow> length a = length b
     \<and> constant_time_eq (map (\<lambda>c. of_nat (byte c)) a) (map (\<lambda>c. of_nat (byte c)) b)"

definition missing :: "string \<Rightarrow> oauth_err" where
  "missing what = oauth_error S_BAD_REQUEST ''invalid_request'' (''missing '' @ what)"

definition invalid_grant :: "string \<Rightarrow> oauth_err" where
  "invalid_grant what = oauth_error S_BAD_REQUEST ''invalid_grant'' what"

definition user_or_owner :: "int option \<Rightarrow> int" where
  "user_or_owner u = (case u of Some i \<Rightarrow> i | None \<Rightarrow> 1)"

definition grant_authorization_code ::
  "gw_env \<Rightarrow> clock \<Rightarrow> fresh_pair \<Rightarrow> token_form \<Rightarrow> gateway_db \<Rightarrow> token_result" where
  "grant_authorization_code E c fp form db =
     (case tf_code form of
        None \<Rightarrow> (Inl (missing ''code''), db)
      | Some code \<Rightarrow>
     (case tf_client_id form of
        None \<Rightarrow> (Inl (missing ''client_id''), db)
      | Some client_id \<Rightarrow>
     (case tf_redirect_uri form of
        None \<Rightarrow> (Inl (missing ''redirect_uri''), db)
      | Some redirect_uri \<Rightarrow>
     (case tf_code_verifier form of
        None \<Rightarrow> (Inl (missing ''code_verifier (PKCE is mandatory)''), db)
      | Some code_verifier \<Rightarrow>
     (case consume_auth_code (hash_token E) code (now_ms c) db of
        (None, db1) \<Rightarrow>
          (Inl (invalid_grant ''authorization code is invalid, expired, or already used''), db1)
      | (Some consumed, db1) \<Rightarrow>
          if ac_client_id consumed \<noteq> client_id then
            (Inl (invalid_grant ''client_id does not match the authorization code''), db1)
          else if ac_redirect_uri consumed \<noteq> redirect_uri then
            (Inl (invalid_grant ''redirect_uri does not match the authorization code''), db1)
          else if \<not> ct_eq_str (pkce_s256 E code_verifier) (ac_code_challenge consumed) then
            (Inl (invalid_grant ''PKCE verification failed''), db1)
          else mint_pair E c fp client_id (user_or_owner (ac_user_id consumed)) None db1)))))"

definition grant_refresh_token ::
  "gw_env \<Rightarrow> clock \<Rightarrow> fresh_pair \<Rightarrow> token_form \<Rightarrow> gateway_db \<Rightarrow> token_result" where
  "grant_refresh_token E c fp form db =
     (case tf_refresh_token form of
        None \<Rightarrow> (Inl (missing ''refresh_token''), db)
      | Some refresh \<Rightarrow>
     (case tf_client_id form of
        None \<Rightarrow> (Inl (missing ''client_id''), db)
      | Some client_id \<Rightarrow>
     (case consume_refresh_token (hash_token E) refresh client_id (now_ms c) db of
        (None, db1) \<Rightarrow>
          (Inl (invalid_grant ''refresh token is invalid, expired, revoked, or for a different client''),
           case detect_refresh_reuse (hash_token E) refresh client_id REFRESH_REUSE_GRACE (now_ms c) db1 of
             Some family_id \<Rightarrow> snd (revoke_family family_id (now_ms c) db1)
           | None \<Rightarrow> db1)
      | (Some consumed, db1) \<Rightarrow>
          mint_pair E c fp client_id (user_or_owner (rt_user_id consumed)) (Some (rt_family_id consumed)) db1)))"

definition grant_device_code ::
  "gw_env \<Rightarrow> clock \<Rightarrow> fresh_pair \<Rightarrow> token_form \<Rightarrow> gateway_db \<Rightarrow> token_result" where
  "grant_device_code E c fp form db =
     (case tf_device_code form of
        None \<Rightarrow> (Inl (missing ''device_code''), db)
      | Some device_code \<Rightarrow>
     (case tf_client_id form of
        None \<Rightarrow> (Inl (missing ''client_id''), db)
      | Some client_id \<Rightarrow>
     (case consume_device_code (hash_token E) device_code (now_ms c) db of
        (PollPending, db1) \<Rightarrow>
          (Inl (oauth_error S_BAD_REQUEST ''authorization_pending''
             ''the user has not yet approved this device''), db1)
      | (PollDenied, db1) \<Rightarrow>
          (Inl (oauth_error S_BAD_REQUEST ''access_denied'' ''the authorization request was denied''), db1)
      | (PollExpired, db1) \<Rightarrow>
          (Inl (oauth_error S_BAD_REQUEST ''expired_token''
             ''the device code has expired or is no longer valid''), db1)
      | (PollApproved code_client user_id, db1) \<Rightarrow>
          if code_client \<noteq> client_id then
            (Inl (invalid_grant ''client_id does not match the device code''), db1)
          else mint_pair E c fp client_id (user_or_owner user_id) None db1)))"

definition token_grant ::
  "gw_env \<Rightarrow> clock \<Rightarrow> fresh_pair \<Rightarrow> token_form \<Rightarrow> gateway_db \<Rightarrow> token_result" where
  "token_grant E c fp form db =
     (if tf_grant_type form = ''authorization_code'' then grant_authorization_code E c fp form db
      else if tf_grant_type form = ''refresh_token'' then grant_refresh_token E c fp form db
      else if tf_grant_type form = ''urn:ietf:params:oauth:grant-type:device_code''
      then grant_device_code E c fp form db
      else (Inl (oauth_error S_BAD_REQUEST ''unsupported_grant_type''
              (''unsupported grant_type: '' @ tf_grant_type form)), db))"

section \<open>Guests\<close>

record guest_response =
  gr_access_token :: string
  gr_expires_in :: nat
  gr_host_user_id :: int

definition guest_grant ::
  "gw_env \<Rightarrow> clock \<Rightarrow> ip_addr option \<Rightarrow> string \<Rightarrow> string \<Rightarrow> string option \<Rightarrow> string \<Rightarrow> gw_state
     \<Rightarrow> (oauth_err + guest_response) \<times> gw_state" where
  "guest_grant E c connect code client_id display_name token st =
     (let (allowed, lim) = rate_check ''guest'' (peer_ip connect) GUEST_REDEEM_MAX_PER_WINDOW
            PUBLIC_OAUTH_RL_WINDOW (now_mono c) (gw_public st);
          st = st\<lparr>gw_public := lim\<rparr>
      in case allowed of
           Inl retry \<Rightarrow> (Inl (too_many_requests retry), st)
         | Inr _ \<Rightarrow>
             (case find_client client_id (gw_db st) of
                None \<Rightarrow> (Inl (oauth_error S_BAD_REQUEST ''invalid_client'' ''unknown client_id''), st)
              | Some _ \<Rightarrow>
                  (case redeem_guest_code (hash_token E) code (now_ms c) (gw_db st) of
                     (Spent, db1) \<Rightarrow> (Inl (invalid_grant ''this guest code is no longer valid''), st\<lparr>gw_db := db1\<rparr>)
                   | (Unknown, db1) \<Rightarrow> (Inl (invalid_grant ''unknown guest code''), st\<lparr>gw_db := db1\<rparr>)
                   | (RedeemOk host_user_id, db1) \<Rightarrow>
                       let ttl = secs (guest_session_ttl_seconds E);
                           expires_at = i64_sat (now_ms c + ttl_ms ttl)
                       in case insert_user \<lparr>nu_username = None,
                                 nu_display_name = Some (sanitize_guest_name display_name),
                                 nu_role = ''guest'', nu_password_hash = None,
                                 nu_host_user_id = Some host_user_id, nu_expires_at = Some expires_at\<rparr>
                               (now_ms c) db1 of
                            Inl _ \<Rightarrow> (Inl oauth_internal, st\<lparr>gw_db := db1\<rparr>)
                          | Inr (guest_id, db2) \<Rightarrow>
                              (case mint_access_token_for_user (hash_token E) token client_id None ttl
                                      (Some guest_id) (now_ms c) db2 of
                                 Inl _ \<Rightarrow> (Inl oauth_internal, st\<lparr>gw_db := db2\<rparr>)
                               | Inr db3 \<Rightarrow>
                                   (Inr \<lparr>gr_access_token = token, gr_expires_in = guest_session_ttl_seconds E,
                                         gr_host_user_id = host_user_id\<rparr>, st\<lparr>gw_db := db3\<rparr>)))))"

section \<open>Revoke\<close>

definition revoke :: "gw_env \<Rightarrow> clock \<Rightarrow> ip_addr option \<Rightarrow> string \<Rightarrow> gw_state \<Rightarrow> status \<times> gw_state" where
  "revoke E c connect token st =
     (let (allowed, lim) = rate_check ''revoke'' (peer_ip connect) REVOKE_MAX_PER_WINDOW
            PUBLIC_OAUTH_RL_WINDOW (now_mono c) (gw_public st);
          st = st\<lparr>gw_public := lim\<rparr>
      in case allowed of
           Inl _ \<Rightarrow> (S_TOO_MANY_REQUESTS, st)
         | Inr _ \<Rightarrow>
             (S_OK, st\<lparr>gw_db := revoke_access_token (hash_token E) token (now_ms c)
                (revoke_refresh_token (hash_token E) token (now_ms c) (gw_db st))\<rparr>))"

section \<open>Device authorization\<close>

text \<open>\<open>request_base_url\<close> of the three headers and the request's authority.\<close>

definition first_part :: "string option \<Rightarrow> string option" where
  "first_part v =
     (case Option.bind v header_to_str of
        None \<Rightarrow> None
      | Some s \<Rightarrow>
          (case split_on CHR '','' s of
             [] \<Rightarrow> None
           | p # _ \<Rightarrow> if trim p = [] then None else Some (trim p)))"

definition or_else :: "'a option \<Rightarrow> 'a option \<Rightarrow> 'a option" where
  "or_else a b = (case a of Some _ \<Rightarrow> a | None \<Rightarrow> b)"

record request_head =
  rh_forwarded_proto :: "string option"
  rh_forwarded_host :: "string option"
  rh_host :: "string option"
  rh_authority :: "string option"

definition request_base_url :: "request_head \<Rightarrow> string" where
  "request_base_url r =
     (let scheme = (case first_part (rh_forwarded_proto r) of Some s \<Rightarrow> s | None \<Rightarrow> ''https'');
          header_host = (case Option.bind (rh_host r) header_to_str of
             Some s \<Rightarrow> if s = [] then None else Some s | None \<Rightarrow> None)
      in case or_else (or_else (first_part (rh_forwarded_host r)) header_host) (rh_authority r) of
           Some host \<Rightarrow> scheme @ ''://'' @ host
         | None \<Rightarrow> [])"

record device_response =
  dr_device_code :: string
  dr_user_code :: string
  dr_verification_uri :: string
  dr_verification_uri_complete :: string
  dr_expires_in :: nat
  dr_interval :: nat

definition device_authorization ::
  "gw_env \<Rightarrow> clock \<Rightarrow> ip_addr option \<Rightarrow> request_head \<Rightarrow> string \<Rightarrow> string \<Rightarrow> string \<Rightarrow> gw_state
     \<Rightarrow> (oauth_err + device_response) \<times> gw_state" where
  "device_authorization E c connect head client_id device_code user_code st =
     (let (allowed, lim) = rate_check ''device_authorization'' (peer_ip connect) DEVICE_AUTH_MAX_PER_WINDOW
            PUBLIC_OAUTH_RL_WINDOW (now_mono c) (gw_public st);
          st = st\<lparr>gw_public := lim\<rparr>
      in case allowed of
           Inl retry \<Rightarrow> (Inl (too_many_requests retry), st)
         | Inr _ \<Rightarrow>
             (case find_client client_id (gw_db st) of
                None \<Rightarrow> (Inl (oauth_error S_BAD_REQUEST ''invalid_client'' ''unknown client_id''), st)
              | Some _ \<Rightarrow>
                  (case create_device_code (hash_token E) device_code user_code
                          \<lparr>nd_client_id = client_id, nd_ttl = DEVICE_CODE_TTL,
                           nd_interval = DEVICE_POLL_INTERVAL\<rparr> (now_ms c) (gw_db st) of
                     Inl _ \<Rightarrow> (Inl oauth_internal, st)
                   | Inr db \<Rightarrow>
                       let uri = request_base_url head @ ''/oauth/device''
                       in (Inr \<lparr>dr_device_code = device_code, dr_user_code = user_code,
                                dr_verification_uri = uri,
                                dr_verification_uri_complete = uri @ ''?user_code='' @ urlencoding_encode user_code,
                                dr_expires_in = DEVICE_CODE_TTL div 1000000000,
                                dr_interval = nat (interval_secs DEVICE_POLL_INTERVAL)\<rparr>,
                           st\<lparr>gw_db := db\<rparr>))))"

text \<open>The pages of \<open>/oauth/device\<close>; the HTML around them is not modelled.\<close>

datatype device_page =
    DeviceEntry
  | DeviceMessage string string
  | DeviceConfirm string string
  | LoginRedirect string

definition session_user_id :: "gw_env \<Rightarrow> clock \<Rightarrow> string option \<Rightarrow> gateway_db \<Rightarrow> int option" where
  "session_user_id E c cookie db =
     Option.bind (extract_session_cookie cookie) (\<lambda>t. find_session (hash_token E) t (now_ms c) db)"

definition is_signed_in :: "gw_env \<Rightarrow> clock \<Rightarrow> string option \<Rightarrow> gateway_db \<Rightarrow> bool" where
  "is_signed_in E c cookie db =
     (case extract_session_cookie cookie of
        None \<Rightarrow> False
      | Some t \<Rightarrow> find_session (hash_token E) t (now_ms c) db \<noteq> None)"

definition device_login_redirect :: "string option \<Rightarrow> string" where
  "device_login_redirect user_code =
     (let next = (case user_code of
            Some uc \<Rightarrow> ''/oauth/device?user_code='' @ urlencoding_encode uc
          | None \<Rightarrow> ''/oauth/device'')
      in ''/oauth/login?next='' @ urlencoding_encode next)"

definition render_device_for_row :: "int \<Rightarrow> device_code_row \<Rightarrow> device_page" where
  "render_device_for_row now row =
     (if dc_consumed_at row \<noteq> None \<or> dc_expires_at row \<le> now then
        DeviceMessage ''Code expired''
          ''This code has expired or was already used. Start over from your terminal.''
      else if dc_approved_at row \<noteq> None then
        DeviceMessage ''Already approved'' ''This device was already approved. Return to your terminal.''
      else if dc_denied_at row \<noteq> None then
        DeviceMessage ''Already denied'' ''This sign-in request was denied.''
      else DeviceConfirm (html_escape (dc_user_code row)) (html_escape (dc_client_id row)))"

definition device_verify_get ::
  "gw_env \<Rightarrow> clock \<Rightarrow> string option \<Rightarrow> string option \<Rightarrow> gw_state \<Rightarrow> device_page" where
  "device_verify_get E c user_code cookie st =
     (if \<not> is_signed_in E c cookie (gw_db st) then LoginRedirect (device_login_redirect user_code)
      else case user_code of
        None \<Rightarrow> DeviceEntry
      | Some uc \<Rightarrow>
          (case find_device_by_user_code uc (gw_db st) of
             None \<Rightarrow> DeviceMessage ''Unknown code''
               ''That code wasn't found. Check the code shown in your terminal.''
           | Some row \<Rightarrow> render_device_for_row (now_ms c) row))"

definition device_verify_post ::
  "gw_env \<Rightarrow> clock \<Rightarrow> string option \<Rightarrow> string \<Rightarrow> string \<Rightarrow> gw_state
     \<Rightarrow> (http_err + device_page) \<times> gw_state" where
  "device_verify_post E c cookie user_code action st =
     (case session_user_id E c cookie (gw_db st) of
        None \<Rightarrow> (Inr (LoginRedirect (device_login_redirect (Some user_code))), st)
      | Some approver \<Rightarrow>
          if action \<noteq> ''approve'' \<and> action \<noteq> ''deny'' then
            (Inl (S_BAD_REQUEST, ''action must be '' @ CHR 0x27 # ''approve'' @ CHR 0x27 # '' or ''
               @ CHR 0x27 # ''deny'' @ [CHR 0x27]), st)
          else
            let approve = (action = ''approve'');
                (recorded, db) = set_device_decision user_code approve (Some approver) (now_ms c) (gw_db st)
            in (Inr (if \<not> recorded then DeviceMessage ''Code not available''
                       ''That code is unknown, already decided, or expired. Start over from your terminal.''
                     else if approve then DeviceMessage ''Device approved''
                       ''You can return to your terminal - it will finish signing in shortly.''
                     else DeviceMessage ''Device denied''
                       ''The sign-in request was denied. You can close this tab.''),
                st\<lparr>gw_db := db\<rparr>))"

end
