(* ===== verification/Accounts.thy ===== *)
theory Accounts
  imports Oauth_Handlers
begin

text \<open>
  Authentication of protected routes (\<open>music-gateway/src/auth.rs\<close>), the admin's user management
  (\<open>users.rs\<close>) and the host's guest codes (\<open>guest_codes.rs\<close>). The handlers here run behind
  \<open>require_bearer\<close>, those of \<open>users.rs\<close> also behind \<open>require_admin\<close> (\<open>app.rs\<close>); \<open>protected_route\<close>
  and \<open>admin_route\<close> are these two layers. Best-effort revocations of \<open>reset_password\<close> do not fail
  here (only I/O errors would).
\<close>

section \<open>Authentication\<close>

definition as_bytes :: "string \<Rightarrow> 8 word list" where
  "as_bytes s = map (\<lambda>c. of_nat (byte c)) s"

definition require_bearer ::
  "gw_env \<Rightarrow> clock \<Rightarrow> string option \<Rightarrow> string option \<Rightarrow> gateway_db \<Rightarrow> status + principal" where
  "require_bearer E c authorization query db =
     (case extract_bearer authorization query of
        None \<Rightarrow> Inl S_UNAUTHORIZED
      | Some presented \<Rightarrow>
          (case resolve_principal (hash_token E) presented (now_ms c) db of
             Some (user_id, role_str, host) \<Rightarrow>
               (case from_db_str role_str of
                  None \<Rightarrow> Inl S_UNAUTHORIZED
                | Some r \<Rightarrow> Inr \<lparr>pr_user_id = user_id, pr_role = r, pr_host_user_id = host\<rparr>)
           | None \<Rightarrow>
               if constant_time_eq (as_bytes presented) (as_bytes (static_bearer E))
               then Inr owner else Inl S_UNAUTHORIZED))"

type_synonym credentials = "string option \<times> string option"

definition protected_route ::
  "gw_env \<Rightarrow> clock \<Rightarrow> credentials \<Rightarrow> (principal \<Rightarrow> gw_state \<Rightarrow> status \<times> gw_state) \<Rightarrow> gw_state \<Rightarrow> status \<times> gw_state" where
  "protected_route E c cred handler st =
     (case require_bearer E c (fst cred) (snd cred) (gw_db st) of
        Inl s \<Rightarrow> (s, st)
      | Inr p \<Rightarrow> handler p st)"

definition admin_route ::
  "gw_env \<Rightarrow> clock \<Rightarrow> credentials \<Rightarrow> (gw_state \<Rightarrow> status \<times> gw_state) \<Rightarrow> gw_state \<Rightarrow> status \<times> gw_state" where
  "admin_route E c cred handler =
     protected_route E c cred (\<lambda>p st. case require_admin (Some p) of Inl s \<Rightarrow> (s, st) | Inr _ \<Rightarrow> handler st)"

section \<open>User management\<close>

record create_user_form =
  cu_username :: string
  cu_display_name :: "string option"
  cu_password :: string
  cu_role :: string

definition create_user :: "gw_env \<Rightarrow> clock \<Rightarrow> create_user_form \<Rightarrow> gw_state \<Rightarrow> status \<times> gw_state" where
  "create_user E c form st =
     (let username = trim (cu_username form)
      in if username = [] then (S_BAD_REQUEST, st)
         else if cu_role form \<noteq> ''admin'' \<and> cu_role form \<noteq> ''user'' then (S_BAD_REQUEST, st)
         else if length (cu_password form) < MIN_PASSWORD_LEN then (S_BAD_REQUEST, st)
         else case pw_hash E (cu_password form) of
           None \<Rightarrow> (S_INTERNAL_SERVER_ERROR, st)
         | Some phc \<Rightarrow>
             let display_name = (case cu_display_name form of
                   Some d \<Rightarrow> if trim d = [] then None else Some (trim d) | None \<Rightarrow> None)
             in case create_account \<lparr>nu_username = Some username, nu_display_name = display_name,
                       nu_role = cu_role form, nu_password_hash = Some phc, nu_host_user_id = None,
                       nu_expires_at = None\<rparr> (now_ms c) (gw_db st) of
                  Inr (_, db) \<Rightarrow> (S_CREATED, st\<lparr>gw_db := db\<rparr>)
                | Inl e \<Rightarrow> (if e = UsernameTaken then S_CONFLICT else S_INTERNAL_SERVER_ERROR, st))"

definition admin_delete_user :: "int \<Rightarrow> gw_state \<Rightarrow> status \<times> gw_state" where
  "admin_delete_user uid st =
     (if uid = OWNER_USER_ID then (S_BAD_REQUEST, st)
      else case delete_user uid (gw_db st) of
        (found, db) \<Rightarrow> (if found then S_NO_CONTENT else S_NOT_FOUND, st\<lparr>gw_db := db\<rparr>))"

definition reset_password :: "gw_env \<Rightarrow> clock \<Rightarrow> int \<Rightarrow> string \<Rightarrow> gw_state \<Rightarrow> status \<times> gw_state" where
  "reset_password E c uid password st =
     (if uid = OWNER_USER_ID then (S_BAD_REQUEST, st)
      else if length password < MIN_PASSWORD_LEN then (S_BAD_REQUEST, st)
      else case pw_hash E password of
        None \<Rightarrow> (S_INTERNAL_SERVER_ERROR, st)
      | Some phc \<Rightarrow>
          (case set_user_password uid phc (gw_db st) of
             (False, db) \<Rightarrow> (S_NOT_FOUND, st\<lparr>gw_db := db\<rparr>)
           | (True, db) \<Rightarrow>
               let (_, db1) = revoke_all_sessions_for_user uid (now_ms c) db;
                   (_, db2) = revoke_all_tokens_for_user uid (now_ms c) db1
               in (S_NO_CONTENT, st\<lparr>gw_db := db2\<rparr>)))"

text \<open>The rows \<open>GET /v1/admin/users\<close> answers: no password hash among them.\<close>

record user_view =
  uv_id :: int
  uv_username :: "string option"
  uv_display_name :: "string option"
  uv_role :: string
  uv_created_at :: int

definition list_users_handler :: "gw_state \<Rightarrow> user_view list" where
  "list_users_handler st =
     map (\<lambda>u. \<lparr>uv_id = u_id u, uv_username = u_username u, uv_display_name = u_display_name u,
               uv_role = u_role u, uv_created_at = u_created_at u\<rparr>) (list_users (gw_db st))"

section \<open>Guest codes of a host\<close>

definition MAX_LABEL_LEN :: nat where
  "MAX_LABEL_LEN = 128"

record create_code_form =
  cc_label :: "string option"
  cc_expires_in_seconds :: "u64 option"
  cc_max_uses :: "int option"

definition clean_label :: "string option \<Rightarrow> string option" where
  "clean_label label =
     (case label of
        None \<Rightarrow> None
      | Some l \<Rightarrow> if trim l = [] then None else Some (take MAX_LABEL_LEN (trim l)))"

text \<open>\<open>secs.saturating_mul(1000)\<close> is on \<open>u64\<close>.\<close>

definition code_expiry :: "int \<Rightarrow> u64 option \<Rightarrow> int option" where
  "code_expiry now expires_in =
     (case expires_in of
        None \<Rightarrow> None
      | Some s \<Rightarrow>
          if 0 < s
          then let ms = min (uint s * 1000) (2 ^ 64 - 1)
               in Some (i64_sat (now + (if ms \<le> i64_max then ms else i64_max)))
          else None)"

text \<open>\<open>body\<close> is \<open>None\<close> when the JSON extractor rejected the request. The answer carries the id.\<close>

definition create_code ::
  "gw_env \<Rightarrow> clock \<Rightarrow> create_code_form option \<Rightarrow> string \<Rightarrow> principal \<Rightarrow> gw_state \<Rightarrow> (status + int) \<times> gw_state" where
  "create_code E c body code p st =
     (if pr_role p = Guest then (Inl S_FORBIDDEN, st)
      else case body of
        None \<Rightarrow> (Inl S_BAD_REQUEST, st)
      | Some req \<Rightarrow>
          if (case cc_max_uses req of Some m \<Rightarrow> m < 1 | None \<Rightarrow> False) then (Inl S_BAD_REQUEST, st)
          else case create_guest_code (hash_token E) code
                      \<lparr>ng_host_user_id = pr_user_id p, ng_label = clean_label (cc_label req),
                       ng_expires_at = code_expiry (now_ms c) (cc_expires_in_seconds req),
                       ng_max_uses = cc_max_uses req\<rparr> (now_ms c) (gw_db st) of
                 Inl _ \<Rightarrow> (Inl S_INTERNAL_SERVER_ERROR, st)
               | Inr (gid, db) \<Rightarrow> (Inr gid, st\<lparr>gw_db := db\<rparr>))"

definition list_codes :: "principal \<Rightarrow> gw_state \<Rightarrow> status + guest_code_row list" where
  "list_codes p st =
     (if pr_role p = Guest then Inl S_FORBIDDEN else Inr (list_guest_codes (pr_user_id p) (gw_db st)))"

definition revoke_code :: "clock \<Rightarrow> int \<Rightarrow> principal \<Rightarrow> gw_state \<Rightarrow> status \<times> gw_state" where
  "revoke_code c gid p st =
     (if pr_role p = Guest then (S_FORBIDDEN, st)
      else case revoke_guest_code (pr_user_id p) gid (now_ms c) (gw_db st) of
        (True, db) \<Rightarrow> (S_NO_CONTENT, st\<lparr>gw_db := db\<rparr>)
      | (False, db) \<Rightarrow>
          (if gid \<in> gc_id ` set (list_guest_codes (pr_user_id p) db) then S_NO_CONTENT else S_NOT_FOUND,
           st\<lparr>gw_db := db\<rparr>))"

text \<open>One tick of the sweep of \<open>spawn_guest_sweep\<close>; a zero interval disables it.\<close>

definition guest_sweep :: "gw_env \<Rightarrow> clock \<Rightarrow> gw_state \<Rightarrow> gw_state" where
  "guest_sweep E c st =
     (if guest_sweep_interval E = 0 then st
      else st\<lparr>gw_db := snd (delete_expired_guests (now_ms c) (gw_db st))\<rparr>)"

section \<open>Start of the process\<close>

text \<open>Pre-declared clients are registered unless known; an unconfigured gateway gets a setup token.\<close>

record client_config =
  cf_client_id :: string
  cf_name :: string
  cf_redirect_uris :: "string list"

fun register_clients :: "int \<Rightarrow> client_config list \<Rightarrow> gateway_db \<Rightarrow> sql_error + gateway_db" where
  "register_clients now [] db = Inr db"
| "register_clients now (cl # cls) db =
     (case find_client (cf_client_id cl) db of
        Some _ \<Rightarrow> register_clients now cls db
      | None \<Rightarrow>
          (case register_client (cf_client_id cl) (cf_name cl) (cf_redirect_uris cl) now db of
             Inl e \<Rightarrow> Inl e
           | Inr (_, db1) \<Rightarrow> register_clients now cls db1))"

definition boot_setup_token :: "string \<Rightarrow> gateway_db \<Rightarrow> string option" where
  "boot_setup_token minted db = (if master_password_hash db = None then Some minted else None)"

section \<open>Lemmas\<close>

lemma map_byte_inj: "map (\<lambda>c. of_nat (byte c) :: 8 word) a = map (\<lambda>c. of_nat (byte c)) b \<longleftrightarrow> a = b"
proof -
  have "inj (\<lambda>c. of_nat (byte c) :: 8 word)"
  proof (rule injI)
    fix x y assume "(of_nat (byte x) :: 8 word) = of_nat (byte y)"
    then have "unat (of_nat (byte x) :: 8 word) = unat (of_nat (byte y) :: 8 word)" by simp
    then have "byte x = byte y" using byte_less [of x] byte_less [of y] by (simp add: unat_of_nat)
    then have "char_of (byte x) = (char_of (byte y) :: char)" by (rule arg_cong)
    then show "x = y" by (simp add: byte_def)
  qed
  then show ?thesis by (simp add: inj_map_eq_map)
qed

lemma as_bytes_eq [simp]: "as_bytes a = as_bytes b \<longleftrightarrow> a = b"
  unfolding as_bytes_def by (rule map_byte_inj)

lemma setup_matches_iff: "setup_matches tok presented \<longleftrightarrow> tok = Some presented"
  by (auto simp: setup_matches_def constant_time_eq_iff map_byte_inj split: option.splits)

lemma ct_eq_str_iff: "ct_eq_str a b \<longleftrightarrow> a = b"
  by (auto simp: ct_eq_str_def constant_time_eq_iff map_byte_inj)

lemma register_clients_ok:
  "register_clients now cls db = Inr db' \<Longrightarrow> db_ok db \<Longrightarrow> db_ok db'"
proof (induction now cls db rule: register_clients.induct)
  case (2 now cl cls db)
  show ?case
  proof (cases "find_client (cf_client_id cl) db")
    case None
    with "2.prems"(1) obtain row db1 where
      reg: "register_client (cf_client_id cl) (cf_name cl) (cf_redirect_uris cl) now db = Inr (row, db1)"
      and rest: "register_clients now cls db1 = Inr db'"
      by (auto split: sum.splits)
    from "2.IH"(1) [OF None reg refl rest db_ok_register_client [OF reg "2.prems"(2)]] show ?thesis .
  next
    case (Some row)
    with "2.IH"(2) [OF Some] "2.prems" show ?thesis by simp
  qed
qed simp

lemma register_clients_total: "\<exists>db'. register_clients now cls db = Inr db'"
proof (induction now cls db rule: register_clients.induct)
  case (2 now cl cls db)
  have "cf_client_id cl \<notin> client_ids db" if "find_client (cf_client_id cl) db = None"
    using that by (auto simp: find_client_def find_None_iff client_ids_def)
  then show ?case
    using 2 by (auto simp: register_client_def Let_def split: option.splits)
qed simp

end
