(* ===== verification/Metered.thy ===== *)
theory Metered
  imports Main
begin

text \<open>
  Two interfaces for things that can be used up. A request may be answered with a success for a
  key \<open>k\<close> (\<open>wins k r s\<close>); \<open>metered\<close> says that every success takes one unit of what is left for
  \<open>k\<close> and that nothing but a request that is not \<open>fresh\<close> for \<open>k\<close> (one that mints \<open>k\<close> again)
  puts units back. \<open>single_use\<close> is the instance of one unit: a success spends the key, and what
  is spent stays spent. The guarded state \<open>inv k\<close> is what the provider maintains.

  The gateway's guest codes are \<open>metered\<close>; its authorization codes, refresh tokens and device
  codes are \<open>single_use\<close> (\<open>Gateway\<close>).
\<close>

fun run_all :: "('r \<Rightarrow> 's \<Rightarrow> 's) \<Rightarrow> 'r list \<Rightarrow> 's \<Rightarrow> 's" where
  "run_all step [] s = s"
| "run_all step (r # rs) s = run_all step rs (step r s)"

fun successes :: "('r \<Rightarrow> 's \<Rightarrow> bool) \<Rightarrow> ('r \<Rightarrow> 's \<Rightarrow> 's) \<Rightarrow> 'r list \<Rightarrow> 's \<Rightarrow> nat" where
  "successes won step [] s = 0"
| "successes won step (r # rs) s = (if won r s then 1 else 0) + successes won step rs (step r s)"

lemma run_all_append: "run_all step (xs @ ys) s = run_all step ys (run_all step xs s)"
  by (induction step xs s rule: run_all.induct) simp_all

lemma successes_append:
  "successes won step (xs @ ys) s = successes won step xs s + successes won step ys (run_all step xs s)"
  by (induction won step xs s rule: successes.induct) simp_all

locale metered =
  fixes step :: "'r \<Rightarrow> 's \<Rightarrow> 's"
    and inv :: "'k \<Rightarrow> 's \<Rightarrow> bool"
    and fresh :: "'k \<Rightarrow> 'r \<Rightarrow> bool"
    and wins :: "'k \<Rightarrow> 'r \<Rightarrow> 's \<Rightarrow> bool"
    and left :: "'k \<Rightarrow> 's \<Rightarrow> nat"
  assumes inv_step: "inv k s \<Longrightarrow> fresh k r \<Longrightarrow> inv k (step r s)"
    and left_step: "inv k s \<Longrightarrow> fresh k r \<Longrightarrow> left k (step r s) + (if wins k r s then 1 else 0) \<le> left k s"
begin

lemma inv_run: "inv k s \<Longrightarrow> \<forall>r \<in> set rs. fresh k r \<Longrightarrow> inv k (run_all step rs s)"
  by (induction rs arbitrary: s) (simp_all add: inv_step)

lemma left_run:
  "inv k s \<Longrightarrow> \<forall>r \<in> set rs. fresh k r \<Longrightarrow>
     left k (run_all step rs s) + successes (wins k) step rs s \<le> left k s"
proof (induction rs arbitrary: s)
  case Nil
  then show ?case by simp
next
  case (Cons r rs)
  have r: "fresh k r" and rs: "\<forall>r \<in> set rs. fresh k r" using Cons.prems(2) by simp_all
  from Cons.IH [OF inv_step [OF Cons.prems(1) r] rs] left_step [OF Cons.prems(1) r]
  show ?case by simp
qed

lemma at_most_left:
  "inv k s \<Longrightarrow> \<forall>r \<in> set rs. fresh k r \<Longrightarrow> successes (wins k) step rs s \<le> left k s"
  using left_run [of k s rs] by simp

end

locale single_use =
  fixes step :: "'r \<Rightarrow> 's \<Rightarrow> 's"
    and inv :: "'s \<Rightarrow> bool"
    and fresh :: "'k \<Rightarrow> 'r \<Rightarrow> bool"
    and wins :: "'k \<Rightarrow> 'r \<Rightarrow> 's \<Rightarrow> bool"
    and spent :: "'k \<Rightarrow> 's \<Rightarrow> bool"
  assumes keeps_inv: "inv s \<Longrightarrow> inv (step r s)"
    and spent_stays: "inv s \<Longrightarrow> fresh k r \<Longrightarrow> spent k s \<Longrightarrow> spent k (step r s)"
    and win_spends: "inv s \<Longrightarrow> fresh k r \<Longrightarrow> wins k r s \<Longrightarrow> spent k (step r s)"
    and spent_cannot_win: "inv s \<Longrightarrow> spent k s \<Longrightarrow> \<not> wins k r s"

sublocale single_use \<subseteq> one: metered step "\<lambda>_. inv" fresh wins "\<lambda>k s. if spent k s then 0 else 1"
proof unfold_locales
  fix k s r
  assume inv: "inv s" and fr: "fresh k r"
  show "inv (step r s)" using keeps_inv inv .
  show "(if spent k (step r s) then 0 else 1) + (if wins k r s then 1 else 0) \<le> (if spent k s then 0 else (1::nat))"
    using spent_stays [OF inv fr] win_spends [OF inv fr] spent_cannot_win [OF inv] by auto
qed

context single_use
begin

lemma at_most_once:
  "inv s \<Longrightarrow> \<forall>r \<in> set rs. fresh k r \<Longrightarrow> successes (wins k) step rs s \<le> 1"
  using one.at_most_left [of s rs k] by (auto split: if_splits)

lemma spent_never:
  "inv s \<Longrightarrow> spent k s \<Longrightarrow> \<forall>r \<in> set rs. fresh k r \<Longrightarrow> successes (wins k) step rs s = 0"
  using one.at_most_left [of s rs k] by simp

end

end
