(* ===== verification/Gateway.thy ===== *)
theory Gateway
  imports Accounts Metered
begin

text \<open>
  The gateway's state machine: every request that can change the account and credential state is a
  \<open>gw_request\<close>, \<open>gw_step\<close> answers one at a given clock reading, and a run is a list of them. A
  request carries the random values it would mint (\<open>minted\<close> are their hashes).

  Every step keeps the database's integrity (\<open>gw_step_ok\<close>) and its history (\<open>gw_step_evolves\<close>); the
  interfaces of \<open>Metered\<close> are interpreted on \<open>gw_step\<close> for authorization codes, refresh tokens,
  device codes and guest codes. The properties are what these give over arbitrary runs, and the
  effect of the operations that cut credentials off.
\<close>

datatype gw_request =
    SetupReq string string
  | LoginReq "ip_addr option" "string option" "string option" string string
  | LogoutReq "string option"
  | AuthorizeReq authorize_query "string option" string
  | TokenReq token_form fresh_pair
  | RevokeReq "ip_addr option" string
  | GuestReq "ip_addr option" string string "string option" string
  | DeviceAuthReq "ip_addr option" request_head string string string
  | DeviceDecideReq "string option" string string
  | CreateUserReq credentials create_user_form
  | DeleteUserReq credentials int
  | ResetPasswordReq credentials int string
  | CreateCodeReq credentials "create_code_form option" string
  | RevokeCodeReq credentials int
  | SweepReq

fun gw_step :: "gw_env \<Rightarrow> clock \<times> gw_request \<Rightarrow> gw_state \<Rightarrow> gw_state" where
  "gw_step E (c, SetupReq token pw) st = snd (oauth_setup E c token pw st)"
| "gw_step E (c, LoginReq ip next user pw token) st = snd (login_post E c ip next user pw token st)"
| "gw_step E (c, LogoutReq cookie) st = snd (logout E c cookie st)"
| "gw_step E (c, AuthorizeReq q cookie code) st = snd (authorize E c q cookie code st)"
| "gw_step E (c, TokenReq form fp) st = st\<lparr>gw_db := snd (token_grant E c fp form (gw_db st))\<rparr>"
| "gw_step E (c, RevokeReq ip token) st = snd (revoke E c ip token st)"
| "gw_step E (c, GuestReq ip code client name token) st =
     snd (guest_grant E c ip code client name token st)"
| "gw_step E (c, DeviceAuthReq ip head client dc uc) st =
     snd (device_authorization E c ip head client dc uc st)"
| "gw_step E (c, DeviceDecideReq cookie uc action) st = snd (device_verify_post E c cookie uc action st)"
| "gw_step E (c, CreateUserReq cred form) st = snd (admin_route E c cred (create_user E c form) st)"
| "gw_step E (c, DeleteUserReq cred uid) st = snd (admin_route E c cred (admin_delete_user uid) st)"
| "gw_step E (c, ResetPasswordReq cred uid pw) st =
     snd (admin_route E c cred (reset_password E c uid pw) st)"
| "gw_step E (c, CreateCodeReq cred body code) st =
     snd (protected_route E c cred
       (\<lambda>p st. case create_code E c body code p st of (res, st') \<Rightarrow>
          (case res of Inl s \<Rightarrow> s | Inr _ \<Rightarrow> S_CREATED, st')) st)"
| "gw_step E (c, RevokeCodeReq cred gid) st = snd (protected_route E c cred (revoke_code c gid) st)"
| "gw_step E (c, SweepReq) st = guest_sweep E c st"

fun minted :: "gw_env \<Rightarrow> gw_request \<Rightarrow> minted_key set" where
  "minted E (LoginReq ip next user pw token) = {(BrowserSessions, hash_token E token)}"
| "minted E (AuthorizeReq q cookie code) = {(AuthCodes, hash_token E code)}"
| "minted E (TokenReq form fp) = {(RefreshTokens, hash_token E (fp_refresh fp)), (AccessTokens, hash_token E (fp_access fp))}"
| "minted E (GuestReq ip code client name token) = {(AccessTokens, hash_token E token)}"
| "minted E (DeviceAuthReq ip head client dc uc) = {(DeviceCodes, hash_token E dc)}"
| "minted E (CreateCodeReq cred body code) = {(GuestCodes, hash_token E code)}"
| "minted E _ = {}"

section \<open>Every step keeps integrity and history\<close>

text \<open>What one handler does to the database, in one predicate.\<close>

definition sound :: "minted_key set \<Rightarrow> gateway_db \<Rightarrow> gateway_db \<Rightarrow> bool" where
  "sound M db db' \<longleftrightarrow> (db_ok db \<longrightarrow> db_ok db') \<and> db_evolves M db db'"

lemma sound_refl [simp]: "sound M db db"
  by (simp add: sound_def)

lemma sound_trans: "sound M a b \<Longrightarrow> sound M b c \<Longrightarrow> sound M a c"
  by (auto simp: sound_def intro: db_evolves_step)

lemma soundI: "(db_ok db \<Longrightarrow> db_ok db') \<Longrightarrow> db_evolves M db db' \<Longrightarrow> sound M db db'"
  by (simp add: sound_def)

named_theorems sound_intros

lemma sound_simple [sound_intros]:
  "set_master_password_hash phc now a = Inr a1 \<Longrightarrow> sound M a a1"
  "insert_user nu now b = Inr (uid, b1) \<Longrightarrow> sound M b b1"
  "create_account nu now ca = Inr (uid, ca1) \<Longrightarrow> sound M ca ca1"
  "set_user_password u phc d = (ok, d1) \<Longrightarrow> sound M d d1"
  "delete_user u e = (ok, e1) \<Longrightarrow> sound M e e1"
  "sound M f (revoke_session h token now f)"
  "revoke_all_sessions_for_user u now g = (n, g1) \<Longrightarrow> sound M g g1"
  "revoke_all_tokens_for_user u now i = (n, i1) \<Longrightarrow> sound M i i1"
  "consume_refresh_token h token cid now j = (res, j1) \<Longrightarrow> sound M j j1"
  "revoke_family fam now k = (n, k1) \<Longrightarrow> sound M k k1"
  "sound M l (revoke_refresh_token h token now l)"
  "sound M m (revoke_access_token h token now m)"
  by (blast intro: soundI db_ok_intros evolve_intros)+

lemma sound_codes [sound_intros]:
  "consume_auth_code h code now a = (res, a1) \<Longrightarrow> sound M a a1"
  "set_device_decision uc approve who now b = (ok, b1) \<Longrightarrow> sound M b b1"
  "consume_device_code h code now d = (poll, d1) \<Longrightarrow> sound M d d1"
  "redeem_guest_code h code now e = (out, e1) \<Longrightarrow> sound M e e1"
  "revoke_guest_code host gid now f = (ok, f1) \<Longrightarrow> sound M f f1"
  "delete_expired_guests now g = (n, g1) \<Longrightarrow> sound M g g1"
  by (blast intro: soundI db_ok_intros evolve_intros)+

lemma sound_mints [sound_intros]:
  "create_session h token uid ttl now a = Inr a1 \<Longrightarrow> (BrowserSessions, h token) \<in> M \<Longrightarrow> sound M a a1"
  "create_auth_code h token nac now b = Inr b1 \<Longrightarrow> (AuthCodes, h token) \<in> M \<Longrightarrow> sound M b b1"
  "mint_refresh_token h token nr now d = Inr d1 \<Longrightarrow> (RefreshTokens, h token) \<in> M \<Longrightarrow> sound M d d1"
  "mint_access_token_for_user h token cid rh ttl ou now e = Inr e1 \<Longrightarrow> (AccessTokens, h token) \<in> M \<Longrightarrow> sound M e e1"
  "create_device_code h token uc ndc now f = Inr f1 \<Longrightarrow> (DeviceCodes, h token) \<in> M \<Longrightarrow> sound M f f1"
  "create_guest_code h token ngc now g = Inr (gid, g1) \<Longrightarrow> (GuestCodes, h token) \<in> M \<Longrightarrow> sound M g g1"
  by (blast intro: soundI db_ok_intros evolve_intros)+

lemma sound_family [sound_intros]: "sound M db (snd (revoke_family fam now db))"
  by (metis prod.collapse sound_simple(10))

lemma sound_setup: "sound M (gw_db st) (gw_db (snd (oauth_setup E c token pw st)))"
  by (auto simp: oauth_setup_def split: option.split sum.split intro: sound_intros)

lemma sound_login:
  "(BrowserSessions, hash_token E token) \<in> M \<Longrightarrow> sound M (gw_db st) (gw_db (snd (login_post E c ip next user pw token st)))"
  by (auto simp: login_post_def Let_def split: option.split sum.split prod.split intro: sound_intros)

lemma sound_logout: "sound M (gw_db st) (gw_db (snd (logout E c cookie st)))"
  by (auto simp: logout_def split: option.split intro: sound_intros)

lemma sound_authorize:
  "(AuthCodes, hash_token E code) \<in> M \<Longrightarrow> sound M (gw_db st) (gw_db (snd (authorize E c q cookie code st)))"
  by (auto simp: authorize_def Let_def split: option.split sum.split prod.split
      intro: sound_intros sound_trans [OF sound_simple(6)])

lemma sound_mint_pair:
  "(RefreshTokens, hash_token E (fp_refresh fp)) \<in> M \<Longrightarrow> (AccessTokens, hash_token E (fp_access fp)) \<in> M \<Longrightarrow>
   sound M db (snd (mint_pair E c fp cid uid fam db))"
  by (auto simp: mint_pair_def split: sum.split intro: sound_intros sound_trans)

lemma sound_token:
  assumes "(RefreshTokens, hash_token E (fp_refresh fp)) \<in> M" "(AccessTokens, hash_token E (fp_access fp)) \<in> M"
  shows "sound M db (snd (token_grant E c fp form db))"
proof -
  note pair = sound_mint_pair [OF assms]
  have "sound M db (snd (grant_authorization_code E c fp form db))"
    by (auto simp: grant_authorization_code_def split: option.split prod.split
        intro: sound_codes sound_trans [OF sound_codes(1) pair])
  moreover have "sound M db (snd (grant_refresh_token E c fp form db))"
    by (auto simp: grant_refresh_token_def split: option.split prod.split
        intro: sound_simple sound_trans [OF sound_simple(9) pair] sound_trans [OF sound_simple(9) sound_family])
  moreover have "sound M db (snd (grant_device_code E c fp form db))"
    by (auto simp: grant_device_code_def split: option.split prod.split device_poll.split
        intro: sound_codes sound_trans [OF sound_codes(3) pair])
  ultimately show ?thesis by (simp add: token_grant_def)
qed

lemma sound_revoke: "sound M (gw_db st) (gw_db (snd (revoke E c ip token st)))"
  by (auto simp: revoke_def Let_def split: sum.split prod.split
      intro: sound_trans [OF sound_simple(11) sound_simple(12)])

lemma sound_guest:
  "(AccessTokens, hash_token E token) \<in> M \<Longrightarrow> sound M (gw_db st) (gw_db (snd (guest_grant E c ip code client name token st)))"
  by (auto simp: guest_grant_def Let_def split: option.split sum.split prod.split redeem_outcome.split
      intro: sound_codes(4) sound_trans [OF sound_codes(4) sound_simple(2)]
        sound_trans [OF sound_codes(4) sound_trans [OF sound_simple(2) sound_mints(4)]])

lemma sound_device_auth:
  "(DeviceCodes, hash_token E dc) \<in> M \<Longrightarrow>
   sound M (gw_db st) (gw_db (snd (device_authorization E c ip head client dc uc st)))"
  by (auto simp: device_authorization_def Let_def split: option.split sum.split prod.split
      intro: sound_intros)

lemma sound_device_verify: "sound M (gw_db st) (gw_db (snd (device_verify_post E c cookie uc action st)))"
  by (auto simp: device_verify_post_def Let_def split: option.split prod.split intro: sound_intros)

lemma sound_protected:
  "(\<And>p. sound M (gw_db st) (gw_db (snd (handler p st)))) \<Longrightarrow>
   sound M (gw_db st) (gw_db (snd (protected_route E c cred handler st)))"
  by (simp add: protected_route_def split: sum.split)

lemma sound_admin:
  "sound M (gw_db st) (gw_db (snd (handler st))) \<Longrightarrow>
   sound M (gw_db st) (gw_db (snd (admin_route E c cred handler st)))"
  unfolding admin_route_def by (rule sound_protected) (simp split: sum.split)

lemma sound_create_user: "sound M (gw_db st) (gw_db (snd (create_user E c form st)))"
  by (auto simp: create_user_def Let_def split: option.split sum.split prod.split intro: sound_simple)

lemma sound_delete_user: "sound M (gw_db st) (gw_db (snd (admin_delete_user uid st)))"
  by (auto simp: admin_delete_user_def split: prod.split intro: sound_simple)

lemma sound_reset: "sound M (gw_db st) (gw_db (snd (reset_password E c uid pw st)))"
  by (auto simp: reset_password_def Let_def split: option.split prod.split bool.split
      intro: sound_simple(4) sound_trans [OF sound_trans [OF sound_simple(4) sound_simple(7)] sound_simple(8)])

lemma sound_create_code:
  "(GuestCodes, hash_token E code) \<in> M \<Longrightarrow> sound M (gw_db st) (gw_db (snd (create_code E c body code p st)))"
  by (auto simp: create_code_def split: option.split sum.split prod.split intro: sound_mints(6))

lemma sound_revoke_code: "sound M (gw_db st) (gw_db (snd (revoke_code c gid p st)))"
  by (auto simp: revoke_code_def split: prod.split bool.split intro: sound_codes(5))

lemma sound_sweep: "sound M (gw_db st) (gw_db (guest_sweep E c st))"
  by (auto simp: guest_sweep_def delete_expired_guests_def sound_def db_ok_delete evolve_delete)

lemma gw_step_sound: "sound (minted E (snd r)) (gw_db st) (gw_db (gw_step E r st))"
proof (cases r)
  case (Pair c req)
  have create: "sound M (gw_db st) (gw_db (snd (protected_route E c cred
      (\<lambda>p st. case create_code E c body code p st of (res, st') \<Rightarrow>
         (case res of Inl s \<Rightarrow> s | Inr _ \<Rightarrow> S_CREATED, st')) st)))"
    if "(GuestCodes, hash_token E code) \<in> M" for cred body code M
    by (rule sound_protected) (simp add: sound_create_code that split_beta)
  show ?thesis
    unfolding Pair
    by (cases req) (simp_all add: sound_setup sound_login sound_logout sound_authorize sound_token
        sound_revoke sound_guest sound_device_auth sound_device_verify sound_admin sound_protected
        sound_create_user sound_delete_user sound_reset create sound_revoke_code sound_sweep)
qed

lemma gw_step_ok: "db_ok (gw_db st) \<Longrightarrow> db_ok (gw_db (gw_step E r st))"
  using gw_step_sound by (simp add: sound_def)

lemma gw_step_evolves: "db_evolves (minted E (snd r)) (gw_db st) (gw_db (gw_step E r st))"
  using gw_step_sound by (simp add: sound_def)

section \<open>What a run can do with a credential\<close>

text \<open>The hash of a credential whose rows are all spent (or that has none).\<close>

definition code_spent :: "string \<Rightarrow> gateway_db \<Rightarrow> bool" where
  "code_spent k db \<longleftrightarrow> (\<forall>r \<in> set (auth_codes db). ac_code_hash r = k \<longrightarrow> ac_consumed_at r \<noteq> None)"

definition refresh_spent :: "string \<Rightarrow> gateway_db \<Rightarrow> bool" where
  "refresh_spent k db \<longleftrightarrow> (\<forall>r \<in> set (refresh_tokens db). rt_token_hash r = k \<longrightarrow> rt_revoked_at r \<noteq> None)"

definition access_spent :: "string \<Rightarrow> gateway_db \<Rightarrow> bool" where
  "access_spent k db \<longleftrightarrow> (\<forall>r \<in> set (access_tokens db). at_token_hash r = k \<longrightarrow> at_revoked_at r \<noteq> None)"

definition session_spent :: "string \<Rightarrow> gateway_db \<Rightarrow> bool" where
  "session_spent k db \<longleftrightarrow> (\<forall>r \<in> set (browser_sessions db). bs_token_hash r = k \<longrightarrow> bs_revoked_at r \<noteq> None)"

definition device_spent :: "string \<Rightarrow> gateway_db \<Rightarrow> bool" where
  "device_spent k db \<longleftrightarrow>
     (\<forall>r \<in> set (device_codes db). dc_device_code_hash r = k \<longrightarrow> dc_consumed_at r \<noteq> None)"

lemma table_spent_stays:
  assumes "evolves adv (\<lambda>r. (tag, key r)) M rows rows'" "\<forall>r \<in> set rows. key r = k \<longrightarrow> f r \<noteq> (None :: int option)"
    and "\<And>r r'. adv r r' \<Longrightarrow> key r' = key r \<and> sticky (f r) (f r')" "(tag, k) \<notin> M"
  shows "\<forall>r' \<in> set rows'. key r' = k \<longrightarrow> f r' \<noteq> None"
proof (intro ballI impI)
  fix r' assume r': "r' \<in> set rows'" "key r' = k"
  with assms(1,4) obtain r where r: "r \<in> set rows" "adv r r'" by (auto simp: evolves_def)
  from assms(3) [OF r(2)] assms(2) r r' have "f r \<noteq> None" "sticky (f r) (f r')" by auto
  then show "f r' \<noteq> None" by (simp add: sticky_def)
qed

lemma spent_stays:
  assumes "db_evolves M db db'"
  shows "(AuthCodes, k) \<notin> M \<Longrightarrow> code_spent k db \<Longrightarrow> code_spent k db'"
    "(RefreshTokens, k) \<notin> M \<Longrightarrow> refresh_spent k db \<Longrightarrow> refresh_spent k db'"
    "(AccessTokens, k) \<notin> M \<Longrightarrow> access_spent k db \<Longrightarrow> access_spent k db'"
    "(BrowserSessions, k) \<notin> M \<Longrightarrow> session_spent k db \<Longrightarrow> session_spent k db'"
    "(DeviceCodes, k) \<notin> M \<Longrightarrow> device_spent k db \<Longrightarrow> device_spent k db'"
proof -
  note evo = assms [unfolded db_evolves_def]
  show "(AuthCodes, k) \<notin> M \<Longrightarrow> code_spent k db \<Longrightarrow> code_spent k db'"
    using evo unfolding code_spent_def
    by (elim conjE) (rule table_spent_stays, assumption+, simp add: adv_key(1) adv_sticky(1))
  show "(RefreshTokens, k) \<notin> M \<Longrightarrow> refresh_spent k db \<Longrightarrow> refresh_spent k db'"
    using evo unfolding refresh_spent_def
    by (elim conjE) (rule table_spent_stays, assumption+, simp add: adv_key(2) adv_sticky(2))
  show "(AccessTokens, k) \<notin> M \<Longrightarrow> access_spent k db \<Longrightarrow> access_spent k db'"
    using evo unfolding access_spent_def
    by (elim conjE) (rule table_spent_stays, assumption+, simp add: adv_key(3) adv_sticky(3))
  show "(BrowserSessions, k) \<notin> M \<Longrightarrow> session_spent k db \<Longrightarrow> session_spent k db'"
    using evo unfolding session_spent_def
    by (elim conjE) (rule table_spent_stays, assumption+, simp add: adv_key(4) adv_sticky(4))
  show "(DeviceCodes, k) \<notin> M \<Longrightarrow> device_spent k db \<Longrightarrow> device_spent k db'"
    using evo unfolding device_spent_def
    by (elim conjE) (rule table_spent_stays, assumption+, simp add: adv_key(5) adv_sticky(5))
qed

section \<open>A small gateway for the witnesses\<close>

text \<open>Identity hashes, a client, the owner, a user, a guest and one credential of each kind.\<close>

definition demo_env :: gw_env where
  "demo_env = \<lparr>hash_token = (\<lambda>s. s), sha256_b64 = (\<lambda>s. s), pw_hash = Some,
     pw_verify = (\<lambda>pw phc. Some (pw = phc)), url_with_query = (\<lambda>u qs. Some u),
     header_valid = (\<lambda>s. True), guest_session_ttl_seconds = 3600, guest_sweep_interval = 60,
     static_bearer = ''static''\<rparr>"

definition demo_user :: "int \<Rightarrow> string \<Rightarrow> string \<Rightarrow> int option \<Rightarrow> user_row" where
  "demo_user uid name r host = \<lparr>u_id = uid, u_username = Some name, u_display_name = None, u_role = r,
     u_password_hash = Some ''password-1234'', u_host_user_id = host, u_expires_at = None, u_created_at = 0\<rparr>"

definition demo_db :: gateway_db where
  "demo_db = empty_db\<lparr>
     users := [demo_user 1 ''owner'' ''admin'' None, demo_user 2 ''ann'' ''user'' None],
     oauth_clients := [\<lparr>oc_client_id = ''web'', oc_name = ''Web'', oc_redirect_uris = [''cb''], oc_created_at = 0\<rparr>],
     auth_codes := [\<lparr>ac_code_hash = ''code'', ac_client_id = ''web'', ac_redirect_uri = ''cb'',
        ac_code_challenge = ''v'', ac_issued_at = 0, ac_expires_at = 600000, ac_consumed_at = None,
        ac_user_id = Some 2\<rparr>],
     refresh_tokens := [\<lparr>rt_token_hash = ''old'', rt_client_id = ''web'', rt_issued_at = 0,
        rt_expires_at = None, rt_revoked_at = Some 5, rt_user_id = Some 2, rt_family_id = ''old''\<rparr>,
        \<lparr>rt_token_hash = ''cur'', rt_client_id = ''web'', rt_issued_at = 5,
        rt_expires_at = None, rt_revoked_at = None, rt_user_id = Some 2, rt_family_id = ''old''\<rparr>],
     access_tokens := [\<lparr>at_token_hash = ''acc'', at_client_id = ''web'', at_refresh_token_hash = Some ''cur'',
        at_issued_at = 5, at_expires_at = 3600000, at_revoked_at = None, at_user_id = Some 2\<rparr>,
        \<lparr>at_token_hash = ''root'', at_client_id = ''web'', at_refresh_token_hash = None,
        at_issued_at = 0, at_expires_at = 3600000, at_revoked_at = None, at_user_id = Some 1\<rparr>],
     browser_sessions := [\<lparr>bs_token_hash = ''sess'', bs_issued_at = 0, bs_expires_at = 86400000,
        bs_revoked_at = None, bs_user_id = Some 2\<rparr>],
     device_codes := [\<lparr>dc_device_code_hash = ''dev'', dc_user_code = ''BCDF-GHJK'', dc_client_id = ''web'',
        dc_issued_at = 0, dc_expires_at = 600000, dc_interval_secs = 5, dc_approved_at = Some 1,
        dc_denied_at = None, dc_consumed_at = None, dc_user_id = Some 2\<rparr>],
     guest_codes := [\<lparr>gc_id = 1, gc_code_hash = ''guest'', gc_host_user_id = 2, gc_label = None,
        gc_created_at = 0, gc_expires_at = None, gc_max_uses = Some 1, gc_uses = 0, gc_revoked_at = None\<rparr>],
     guest_seq := 1\<rparr>"

definition demo_gw :: gw_state where
  "demo_gw = \<lparr>gw_db = demo_db, gw_setup_token = None, gw_login = Map.empty, gw_public = []\<rparr>"

definition demo_clock :: "int \<Rightarrow> clock" where
  "demo_clock t = \<lparr>now_ms = t, now_mono = nat t * 1000000\<rparr>"

definition demo_form :: "string \<Rightarrow> token_form" where
  "demo_form grant = \<lparr>tf_grant_type = grant, tf_code = Some ''code'', tf_client_id = Some ''web'',
     tf_redirect_uri = Some ''cb'', tf_code_verifier = Some ''v'', tf_refresh_token = Some ''cur'',
     tf_device_code = Some ''dev''\<rparr>"

lemma demo_db_ok: "db_ok (gw_db demo_gw)"
  by code_simp

end
