(* ===== verification/Credentials.thy ===== *)
theory Credentials
  imports Gateway
begin

text \<open>
  What the gateway's requests can do with a credential, as properties of arbitrary runs of
  \<open>gw_step\<close>: authorization codes, refresh tokens and device codes succeed at most once
  (interpretations of \<open>single_use\<close>), guest codes at most as often as they have uses left
  (\<open>metered\<close>), and a rotation family that was cut off stays cut off.
\<close>

section \<open>Successful redemptions\<close>

fun code_redeemed :: "gw_env \<Rightarrow> string \<Rightarrow> clock \<times> gw_request \<Rightarrow> gw_state \<Rightarrow> bool" where
  "code_redeemed E k (c, TokenReq form fp) st \<longleftrightarrow>
     tf_grant_type form = ''authorization_code'' \<and> map_option (hash_token E) (tf_code form) = Some k
     \<and> is_ok (fst (token_grant E c fp form (gw_db st)))"
| "code_redeemed E k _ st \<longleftrightarrow> False"

fun refresh_rotated :: "gw_env \<Rightarrow> string \<Rightarrow> clock \<times> gw_request \<Rightarrow> gw_state \<Rightarrow> bool" where
  "refresh_rotated E k (c, TokenReq form fp) st \<longleftrightarrow>
     tf_grant_type form = ''refresh_token'' \<and> map_option (hash_token E) (tf_refresh_token form) = Some k
     \<and> is_ok (fst (token_grant E c fp form (gw_db st)))"
| "refresh_rotated E k _ st \<longleftrightarrow> False"

fun device_redeemed :: "gw_env \<Rightarrow> string \<Rightarrow> clock \<times> gw_request \<Rightarrow> gw_state \<Rightarrow> bool" where
  "device_redeemed E k (c, TokenReq form fp) st \<longleftrightarrow>
     tf_grant_type form = ''urn:ietf:params:oauth:grant-type:device_code''
     \<and> map_option (hash_token E) (tf_device_code form) = Some k
     \<and> is_ok (fst (token_grant E c fp form (gw_db st)))"
| "device_redeemed E k _ st \<longleftrightarrow> False"

fun guest_joined :: "gw_env \<Rightarrow> string \<Rightarrow> clock \<times> gw_request \<Rightarrow> gw_state \<Rightarrow> bool" where
  "guest_joined E k (c, GuestReq ip code client name token) st \<longleftrightarrow>
     hash_token E code = k \<and> is_ok (fst (guest_grant E c ip code client name token st))"
| "guest_joined E k _ st \<longleftrightarrow> False"

section \<open>Consuming spends\<close>

lemma table_ok_unique:
  "table_ok key Q rows \<Longrightarrow> a \<in> set rows \<Longrightarrow> b \<in> set rows \<Longrightarrow> key a = key b \<Longrightarrow> a = b"
  by (auto simp: table_ok_def intro: same_key_same_elem)

lemma update_unique:
  assumes "table_ok key Q rows" "x \<in> set rows" "P x" "key x = k"
    and "\<And>r. S (f r)"
  shows "\<forall>r \<in> set (update_where P f rows). key r = k \<longrightarrow> S r"
proof (intro ballI impI)
  fix r assume r: "r \<in> set (update_where P f rows)" "key r = k"
  then obtain y where y: "y \<in> set rows" "r = (if P y then f y else y)" by (auto simp: in_update_where)
  show "S r"
  proof (cases "P y")
    case True
    then show ?thesis using y assms(5) by simp
  next
    case False
    then have "key y = key x" using y r assms(4) by simp
    from table_ok_unique [OF assms(1) y(1) assms(2) this] False assms(3) show ?thesis by simp
  qed
qed

lemma consume_auth_code_spends:
  assumes "db_ok db" "consume_auth_code h code now db = (Some r, db')"
  shows "code_spent (h code) db'"
proof -
  obtain x where x: "find (auth_code_live h code now) (auth_codes db) = Some x"
    and db': "auth_codes db' = update_where (auth_code_live h code now) (\<lambda>r. r\<lparr>ac_consumed_at := Some now\<rparr>) (auth_codes db)"
    using assms(2) by (auto simp: consume_auth_code_def split: option.splits)
  have live: "auth_code_live h code now x" "x \<in> set (auth_codes db)" using find_SomeD [OF x] by simp_all
  have "table_ok ac_code_hash (\<lambda>r. ac_client_id r \<in> client_ids db \<and> fk_ok (ac_user_id r) (user_ids db)) (auth_codes db)"
    using assms(1) by (simp add: db_ok_def)
  from update_unique [where P = "auth_code_live h code now" and k = "h code" and S = "\<lambda>r. ac_consumed_at r \<noteq> None"
      and f = "\<lambda>r. r\<lparr>ac_consumed_at := Some now\<rparr>", OF this live(2,1)] live(1)
  show ?thesis by (simp add: code_spent_def db' auth_code_live_def)
qed

lemma code_spent_not_consumed:
  "code_spent (h code) db \<Longrightarrow> consume_auth_code h code now db = (None, db)"
proof -
  assume "code_spent (h code) db"
  then have "find (auth_code_live h code now) (auth_codes db) = None"
    by (auto simp: code_spent_def find_None_iff auth_code_live_def)
  then show ?thesis by (simp add: consume_auth_code_def)
qed

lemma consume_refresh_spends:
  assumes "db_ok db" "consume_refresh_token h token cid now db = (Some r, db')"
  shows "refresh_spent (h token) db'"
proof -
  obtain x where x: "find (refresh_live h token cid now) (refresh_tokens db) = Some x"
    and db': "refresh_tokens db' =
      update_where (refresh_live h token cid now) (\<lambda>r. r\<lparr>rt_revoked_at := Some now\<rparr>) (refresh_tokens db)"
    using assms(2) by (auto simp: consume_refresh_token_def split: option.splits)
  have live: "refresh_live h token cid now x" "x \<in> set (refresh_tokens db)" using find_SomeD [OF x] by simp_all
  have "table_ok rt_token_hash (\<lambda>r. rt_client_id r \<in> client_ids db \<and> fk_ok (rt_user_id r) (user_ids db)) (refresh_tokens db)"
    using assms(1) by (simp add: db_ok_def)
  from update_unique [where P = "refresh_live h token cid now" and k = "h token" and S = "\<lambda>r. rt_revoked_at r \<noteq> None"
      and f = "\<lambda>r. r\<lparr>rt_revoked_at := Some now\<rparr>", OF this live(2,1)] live(1)
  show ?thesis by (simp add: refresh_spent_def db' refresh_live_def)
qed

lemma refresh_spent_not_consumed:
  "refresh_spent (h token) db \<Longrightarrow> consume_refresh_token h token cid now db = (None, db)"
proof -
  assume "refresh_spent (h token) db"
  then have "find (refresh_live h token cid now) (refresh_tokens db) = None"
    by (auto simp: refresh_spent_def find_None_iff refresh_live_def refresh_active_def)
  then show ?thesis by (simp add: consume_refresh_token_def)
qed

lemma consume_device_spends:
  assumes "db_ok db" "consume_device_code h code now db = (PollApproved cid u, db')"
  shows "device_spent (h code) db'"
proof -
  obtain x where x: "find (device_claimable h code now) (device_codes db) = Some x"
    and db': "device_codes db' =
      update_where (device_claimable h code now) (\<lambda>r. r\<lparr>dc_consumed_at := Some now\<rparr>) (device_codes db)"
    using assms(2) by (auto simp: consume_device_code_def split: option.splits if_splits)
  have live: "device_claimable h code now x" "x \<in> set (device_codes db)" using find_SomeD [OF x] by simp_all
  have "table_ok dc_device_code_hash (\<lambda>r. dc_client_id r \<in> client_ids db) (device_codes db)"
    using assms(1) by (simp add: db_ok_def)
  from update_unique [where P = "device_claimable h code now" and k = "h code" and S = "\<lambda>r. dc_consumed_at r \<noteq> None"
      and f = "\<lambda>r. r\<lparr>dc_consumed_at := Some now\<rparr>", OF this live(2,1)] live(1)
  show ?thesis by (simp add: device_spent_def db' device_claimable_def)
qed

lemma device_spent_not_approved:
  "device_spent (h code) db \<Longrightarrow> consume_device_code h code now db = (PollExpired, db)"
proof -
  assume a: "device_spent (h code) db"
  have "dc_consumed_at r \<noteq> None" if "find (\<lambda>r. dc_device_code_hash r = h code) (device_codes db) = Some r" for r
    using find_SomeD [OF that] a by (simp add: device_spent_def)
  then show ?thesis by (auto simp: consume_device_code_def split: option.split)
qed

section \<open>Grants and their credentials\<close>

lemma mint_pair_evolves:
  "db_evolves {(RefreshTokens, hash_token E (fp_refresh fp)), (AccessTokens, hash_token E (fp_access fp))}
     db (snd (mint_pair E c fp cid uid fam db))"
  using sound_mint_pair [where M = "{(RefreshTokens, hash_token E (fp_refresh fp)), (AccessTokens, hash_token E (fp_access fp))}"]
  by (simp add: sound_def)

lemma code_grant_ok:
  assumes "is_ok (fst (grant_authorization_code E c fp form db))"
  obtains code cid r db1 where "tf_code form = Some code" "tf_client_id form = Some cid"
    "consume_auth_code (hash_token E) code (now_ms c) db = (Some r, db1)"
    "ac_client_id r = cid" "tf_redirect_uri form = Some (ac_redirect_uri r)"
    "\<exists>v. tf_code_verifier form = Some v \<and> pkce_s256 E v = ac_code_challenge r"
    "grant_authorization_code E c fp form db = mint_pair E c fp cid (user_or_owner (ac_user_id r)) None db1"
  using assms
  by (auto simp: grant_authorization_code_def ct_eq_str_iff split: option.splits prod.splits if_splits)

lemma refresh_grant_ok:
  assumes "is_ok (fst (grant_refresh_token E c fp form db))"
  obtains token cid r db1 where "tf_refresh_token form = Some token" "tf_client_id form = Some cid"
    "consume_refresh_token (hash_token E) token cid (now_ms c) db = (Some r, db1)"
    "grant_refresh_token E c fp form db =
       mint_pair E c fp cid (user_or_owner (rt_user_id r)) (Some (rt_family_id r)) db1"
  using assms by (auto simp: grant_refresh_token_def split: option.splits prod.splits)

lemma device_grant_ok:
  assumes "is_ok (fst (grant_device_code E c fp form db))"
  obtains code cid u db1 where "tf_device_code form = Some code" "tf_client_id form = Some cid"
    "consume_device_code (hash_token E) code (now_ms c) db = (PollApproved cid u, db1)"
    "grant_device_code E c fp form db = mint_pair E c fp cid (user_or_owner u) None db1"
  using assms by (auto simp: grant_device_code_def split: option.splits prod.splits device_poll.splits if_splits)

lemma token_grant_kinds [simp]:
  "tf_grant_type form = ''authorization_code'' \<Longrightarrow> token_grant E c fp form db = grant_authorization_code E c fp form db"
  "tf_grant_type form = ''refresh_token'' \<Longrightarrow> token_grant E c fp form db = grant_refresh_token E c fp form db"
  "tf_grant_type form = ''urn:ietf:params:oauth:grant-type:device_code'' \<Longrightarrow>
   token_grant E c fp form db = grant_device_code E c fp form db"
  by (simp_all add: token_grant_def)

section \<open>Single use\<close>

lemma code_redeemed_cases:
  assumes "code_redeemed E k r st"
  obtains c form fp where "r = (c, TokenReq form fp)" "tf_grant_type form = ''authorization_code''"
    "map_option (hash_token E) (tf_code form) = Some k"
    "is_ok (fst (grant_authorization_code E c fp form (gw_db st)))"
  using assms by (cases "(E, k, r, st)" rule: code_redeemed.cases) auto

lemma refresh_rotated_cases:
  assumes "refresh_rotated E k r st"
  obtains c form fp where "r = (c, TokenReq form fp)" "tf_grant_type form = ''refresh_token''"
    "map_option (hash_token E) (tf_refresh_token form) = Some k"
    "is_ok (fst (grant_refresh_token E c fp form (gw_db st)))"
  using assms by (cases "(E, k, r, st)" rule: refresh_rotated.cases) auto

lemma device_redeemed_cases:
  assumes "device_redeemed E k r st"
  obtains c form fp where "r = (c, TokenReq form fp)"
    "tf_grant_type form = ''urn:ietf:params:oauth:grant-type:device_code''"
    "map_option (hash_token E) (tf_device_code form) = Some k"
    "is_ok (fst (grant_device_code E c fp form (gw_db st)))"
  using assms by (cases "(E, k, r, st)" rule: device_redeemed.cases) auto

interpretation auth_code: single_use "gw_step E" "\<lambda>st. db_ok (gw_db st)"
  "\<lambda>k r. (AuthCodes, k) \<notin> minted E (snd r)" "code_redeemed E" "\<lambda>k st. code_spent k (gw_db st)" for E
proof unfold_locales
  fix k r and st :: gw_state
  assume ok: "db_ok (gw_db st)"
  show "db_ok (gw_db (gw_step E r st))" using ok by (rule gw_step_ok)
  show "\<not> code_redeemed E k r st" if "code_spent k (gw_db st)"
    using that by (auto elim!: code_redeemed_cases code_grant_ok simp: code_spent_not_consumed)
  assume fresh: "(AuthCodes, k) \<notin> minted E (snd r)"
  show "code_spent k (gw_db (gw_step E r st))" if "code_spent k (gw_db st)"
    using spent_stays(1) [OF gw_step_evolves fresh that] .
  show "code_spent k (gw_db (gw_step E r st))" if "code_redeemed E k r st"
    using that
  proof (rule code_redeemed_cases)
    fix c form fp
    assume r: "r = (c, TokenReq form fp)" and g: "tf_grant_type form = ''authorization_code''"
      and k: "map_option (hash_token E) (tf_code form) = Some k"
      and win: "is_ok (fst (grant_authorization_code E c fp form (gw_db st)))"
    from win obtain code cid x db1 where
      x: "tf_code form = Some code" "consume_auth_code (hash_token E) code (now_ms c) (gw_db st) = (Some x, db1)"
        "grant_authorization_code E c fp form (gw_db st) = mint_pair E c fp cid (user_or_owner (ac_user_id x)) None db1"
      by (rule code_grant_ok)
    have "code_spent k db1" using consume_auth_code_spends [OF ok x(2)] k x(1) by simp
    then show ?thesis
      using spent_stays(1) [OF mint_pair_evolves [of E fp db1 c cid "user_or_owner (ac_user_id x)" None], of k]
      by (simp add: r g x(3))
  qed
qed

interpretation refresh: single_use "gw_step E" "\<lambda>st. db_ok (gw_db st)"
  "\<lambda>k r. (RefreshTokens, k) \<notin> minted E (snd r)" "refresh_rotated E" "\<lambda>k st. refresh_spent k (gw_db st)" for E
proof unfold_locales
  fix k r and st :: gw_state
  assume ok: "db_ok (gw_db st)"
  show "db_ok (gw_db (gw_step E r st))" using ok by (rule gw_step_ok)
  show "\<not> refresh_rotated E k r st" if "refresh_spent k (gw_db st)"
    using that by (auto elim!: refresh_rotated_cases refresh_grant_ok simp: refresh_spent_not_consumed)
  assume fresh: "(RefreshTokens, k) \<notin> minted E (snd r)"
  show "refresh_spent k (gw_db (gw_step E r st))" if "refresh_spent k (gw_db st)"
    using spent_stays(2) [OF gw_step_evolves fresh that] .
  show "refresh_spent k (gw_db (gw_step E r st))" if "refresh_rotated E k r st"
    using that
  proof (rule refresh_rotated_cases)
    fix c form fp
    assume r: "r = (c, TokenReq form fp)" and g: "tf_grant_type form = ''refresh_token''"
      and k: "map_option (hash_token E) (tf_refresh_token form) = Some k"
      and win: "is_ok (fst (grant_refresh_token E c fp form (gw_db st)))"
    from win obtain token cid x db1 where
      x: "tf_refresh_token form = Some token"
        "consume_refresh_token (hash_token E) token cid (now_ms c) (gw_db st) = (Some x, db1)"
        "grant_refresh_token E c fp form (gw_db st) =
           mint_pair E c fp cid (user_or_owner (rt_user_id x)) (Some (rt_family_id x)) db1"
      by (rule refresh_grant_ok)
    have "refresh_spent k db1" using consume_refresh_spends [OF ok x(2)] k x(1) by simp
    then show ?thesis
      using spent_stays(2) [OF mint_pair_evolves [of E fp db1 c cid "user_or_owner (rt_user_id x)"
            "Some (rt_family_id x)"], of k] fresh
      by (simp add: r g x(3))
  qed
qed

interpretation device: single_use "gw_step E" "\<lambda>st. db_ok (gw_db st)"
  "\<lambda>k r. (DeviceCodes, k) \<notin> minted E (snd r)" "device_redeemed E" "\<lambda>k st. device_spent k (gw_db st)" for E
proof unfold_locales
  fix k r and st :: gw_state
  assume ok: "db_ok (gw_db st)"
  show "db_ok (gw_db (gw_step E r st))" using ok by (rule gw_step_ok)
  show "\<not> device_redeemed E k r st" if "device_spent k (gw_db st)"
    using that by (auto elim!: device_redeemed_cases device_grant_ok simp: device_spent_not_approved)
  assume fresh: "(DeviceCodes, k) \<notin> minted E (snd r)"
  show "device_spent k (gw_db (gw_step E r st))" if "device_spent k (gw_db st)"
    using spent_stays(5) [OF gw_step_evolves fresh that] .
  show "device_spent k (gw_db (gw_step E r st))" if "device_redeemed E k r st"
    using that
  proof (rule device_redeemed_cases)
    fix c form fp
    assume r: "r = (c, TokenReq form fp)"
      and g: "tf_grant_type form = ''urn:ietf:params:oauth:grant-type:device_code''"
      and k: "map_option (hash_token E) (tf_device_code form) = Some k"
      and win: "is_ok (fst (grant_device_code E c fp form (gw_db st)))"
    from win obtain code cid u db1 where
      x: "tf_device_code form = Some code"
        "consume_device_code (hash_token E) code (now_ms c) (gw_db st) = (PollApproved cid u, db1)"
        "grant_device_code E c fp form (gw_db st) = mint_pair E c fp cid (user_or_owner u) None db1"
      by (rule device_grant_ok)
    have "device_spent k db1" using consume_device_spends [OF ok x(2)] k x(1) by simp
    then show ?thesis
      using spent_stays(5) [OF mint_pair_evolves [of E fp db1 c cid "user_or_owner u" None], of k]
      by (simp add: r g x(3))
  qed
qed

section \<open>Uses of a guest code\<close>

definition uses_left :: "guest_code_row \<Rightarrow> nat" where
  "uses_left r = (case gc_max_uses r of None \<Rightarrow> 0 | Some m \<Rightarrow> nat (m - gc_uses r))"

definition guest_left :: "string \<Rightarrow> gateway_db \<Rightarrow> nat" where
  "guest_left k db =
     (case find (\<lambda>r. gc_code_hash r = k) (guest_codes db) of None \<Rightarrow> 0 | Some r \<Rightarrow> uses_left r)"

definition guest_capped :: "string \<Rightarrow> gateway_db \<Rightarrow> bool" where
  "guest_capped k db \<longleftrightarrow> (\<forall>r \<in> set (guest_codes db). gc_code_hash r = k \<longrightarrow> gc_max_uses r \<noteq> None)"

lemma guest_unique:
  "db_ok db \<Longrightarrow> a \<in> set (guest_codes db) \<Longrightarrow> b \<in> set (guest_codes db) \<Longrightarrow>
   gc_code_hash a = gc_code_hash b \<Longrightarrow> a = b"
  by (auto simp: db_ok_def intro: table_ok_unique)

lemma guest_left_row:
  assumes "db_ok db" "r \<in> set (guest_codes db)" "gc_code_hash r = k"
  shows "guest_left k db = uses_left r"
proof -
  obtain x where x: "find (\<lambda>r. gc_code_hash r = k) (guest_codes db) = Some x"
    using find_Some_ex [of r "guest_codes db" "\<lambda>r. gc_code_hash r = k"] assms(2,3) by auto
  from find_SomeD [OF x] guest_unique [OF assms(1), of x r] assms(2,3) have "x = r" by auto
  with x show ?thesis by (simp add: guest_left_def)
qed

lemma guest_left_none: "\<forall>r \<in> set (guest_codes db). gc_code_hash r \<noteq> k \<Longrightarrow> guest_left k db = 0"
  by (auto simp: guest_left_def split: option.split dest: find_SomeD)

lemma uses_left_adv: "adv_guest r r' \<Longrightarrow> uses_left r' \<le> uses_left r"
  by (cases r; cases r') (auto simp: adv_guest_def uses_left_def split: option.split)

lemma guest_old_row:
  assumes "db_evolves M db db'" "(GuestCodes, k) \<notin> M" "r' \<in> set (guest_codes db')" "gc_code_hash r' = k"
  obtains r where "r \<in> set (guest_codes db)" "gc_code_hash r = k" "adv_guest r r'"
proof -
  from assms obtain r where r: "r \<in> set (guest_codes db)" "adv_guest r r'"
    by (auto simp: db_evolves_def evolves_def)
  with adv_key(6) [OF r(2)] assms(4) show ?thesis using that by simp
qed

lemma guest_left_evolves:
  assumes "db_ok db" "db_ok db'" "db_evolves M db db'" "(GuestCodes, k) \<notin> M"
  shows "guest_left k db' \<le> guest_left k db"
proof (cases "\<exists>r' \<in> set (guest_codes db'). gc_code_hash r' = k")
  case False
  then show ?thesis by (simp add: guest_left_none)
next
  case True
  then obtain r' where r': "r' \<in> set (guest_codes db')" "gc_code_hash r' = k" by blast
  from guest_old_row [OF assms(3,4) r'] obtain r where
    r: "r \<in> set (guest_codes db)" "gc_code_hash r = k" "adv_guest r r'" .
  from uses_left_adv [OF r(3)] show ?thesis
    using guest_left_row [OF assms(1) r(1,2)] guest_left_row [OF assms(2) r'] by simp
qed

lemma guest_capped_evolves:
  "db_evolves M db db' \<Longrightarrow> (GuestCodes, k) \<notin> M \<Longrightarrow> guest_capped k db \<Longrightarrow> guest_capped k db'"
proof (unfold guest_capped_def, intro ballI impI)
  fix r' assume a: "db_evolves M db db'" "(GuestCodes, k) \<notin> M"
    "\<forall>r \<in> set (guest_codes db). gc_code_hash r = k \<longrightarrow> gc_max_uses r \<noteq> None"
    "r' \<in> set (guest_codes db')" "gc_code_hash r' = k"
  from guest_old_row [OF a(1,2,4,5)] obtain r where
    "r \<in> set (guest_codes db)" "gc_code_hash r = k" "adv_guest r r'" .
  moreover from this(3) have "gc_max_uses r' = gc_max_uses r" by (cases r; cases r') (simp add: adv_guest_def)
  ultimately show "gc_max_uses r' \<noteq> None" using a(3) by auto
qed

lemma redeem_takes_one:
  assumes "db_ok db" "guest_capped (h code) db" "redeem_guest_code h code now db = (RedeemOk host, db')"
  shows "guest_left (h code) db' + 1 = guest_left (h code) db"
proof -
  from assms(3) obtain r where r: "find (guest_redeemable h code now) (guest_codes db) = Some r"
    and db': "db' = db\<lparr>guest_codes := update_where (guest_redeemable h code now)
      (\<lambda>r. r\<lparr>gc_uses := gc_uses r + 1\<rparr>) (guest_codes db)\<rparr>"
    by (auto simp: redeem_guest_code_def split: option.splits if_splits)
  from find_SomeD [OF r] have mem: "r \<in> set (guest_codes db)" and ok: "guest_redeemable h code now r" by simp_all
  then have key: "gc_code_hash r = h code" by (simp add: guest_redeemable_def)
  from assms(2) mem key obtain m where m: "gc_max_uses r = Some m" by (auto simp: guest_capped_def)
  have mem': "r\<lparr>gc_uses := gc_uses r + 1\<rparr> \<in> set (guest_codes db')"
    using mem ok by (force simp: db' in_update_where)
  have "guest_left (h code) db' = uses_left (r\<lparr>gc_uses := gc_uses r + 1\<rparr>)"
    using guest_left_row [OF db_ok_redeem [OF assms(3,1)] mem'] key by simp
  moreover have "guest_left (h code) db = uses_left r" using guest_left_row [OF assms(1) mem key] .
  moreover have "gc_uses r < m" using ok m by (simp add: guest_redeemable_def)
  ultimately show ?thesis using m by (simp add: uses_left_def)
qed

lemma guest_grant_ok:
  assumes "is_ok (fst (guest_grant E c ip code client name token st))"
  obtains host db1 where "redeem_guest_code (hash_token E) code (now_ms c) (gw_db st) = (RedeemOk host, db1)"
    "guest_codes (gw_db (snd (guest_grant E c ip code client name token st))) = guest_codes db1"
  using assms
  by (auto simp: guest_grant_def Let_def insert_user_def mint_access_token_for_user_def
      split: option.splits sum.splits prod.splits redeem_outcome.splits if_splits)

lemma guest_joined_cases:
  assumes "guest_joined E k r st"
  obtains c ip code client name token where "r = (c, GuestReq ip code client name token)"
    "hash_token E code = k" "is_ok (fst (guest_grant E c ip code client name token st))"
  using assms by (cases "(E, k, r, st)" rule: guest_joined.cases) auto

lemma guest_join_takes_one:
  assumes "db_ok (gw_db st)" "guest_capped k (gw_db st)" "guest_joined E k r st"
  shows "guest_left k (gw_db (gw_step E r st)) + 1 = guest_left k (gw_db st)"
  using assms(3)
proof (rule guest_joined_cases)
  fix c ip code client name token
  assume r: "r = (c, GuestReq ip code client name token)" and k: "hash_token E code = k"
    and ok: "is_ok (fst (guest_grant E c ip code client name token st))"
  from guest_grant_ok [OF ok] obtain host db1 where
    red: "redeem_guest_code (hash_token E) code (now_ms c) (gw_db st) = (RedeemOk host, db1)"
    and same: "guest_codes (gw_db (gw_step E r st)) = guest_codes db1" by (auto simp: r)
  from redeem_takes_one [OF assms(1) _ red] assms(2) k same show ?thesis
    by (simp add: guest_left_def)
qed

interpretation guest_code: metered "gw_step E" "\<lambda>k st. db_ok (gw_db st) \<and> guest_capped k (gw_db st)"
  "\<lambda>k r. (GuestCodes, k) \<notin> minted E (snd r)" "guest_joined E" "\<lambda>k st. guest_left k (gw_db st)" for E
proof unfold_locales
  fix k and r :: "clock \<times> gw_request" and st :: gw_state
  assume inv: "db_ok (gw_db st) \<and> guest_capped k (gw_db st)" and fresh: "(GuestCodes, k) \<notin> minted E (snd r)"
  then show "db_ok (gw_db (gw_step E r st)) \<and> guest_capped k (gw_db (gw_step E r st))"
    using gw_step_ok guest_capped_evolves [OF gw_step_evolves] by blast
  show "guest_left k (gw_db (gw_step E r st)) + (if guest_joined E k r st then 1 else 0)
      \<le> guest_left k (gw_db st)"
    using inv fresh guest_join_takes_one [of st k E r]
      guest_left_evolves [OF _ gw_step_ok gw_step_evolves, of st k E r]
    by (cases "guest_joined E k r st") auto
qed

section \<open>Properties\<close>

text \<open>
  C6. One-time credentials are one-time. Over any sequence of requests of any clients, in which the
  hash \<open>k\<close> is not minted anew, the token endpoint answers a given authorization code, a given
  refresh token and a given device code with a token pair at most once.
\<close>

theorem grants_succeed_at_most_once:
  assumes "db_ok (gw_db st)"
  shows "((\<forall>r \<in> set rs. (AuthCodes, k) \<notin> minted E (snd r)) \<longrightarrow>
        successes (code_redeemed E k) (gw_step E) rs st \<le> 1)
    \<and> ((\<forall>r \<in> set rs. (RefreshTokens, k) \<notin> minted E (snd r)) \<longrightarrow>
        successes (refresh_rotated E k) (gw_step E) rs st \<le> 1)
    \<and> ((\<forall>r \<in> set rs. (DeviceCodes, k) \<notin> minted E (snd r)) \<longrightarrow>
        successes (device_redeemed E k) (gw_step E) rs st \<le> 1)"
  using auth_code.at_most_once [OF assms] refresh.at_most_once [OF assms] device.at_most_once [OF assms]
  by blast

definition demo_tokens :: "(clock \<times> gw_request) list" where
  "demo_tokens =
     [(demo_clock 10, TokenReq (demo_form ''authorization_code'') \<lparr>fp_refresh = ''r1'', fp_access = ''a1''\<rparr>),
      (demo_clock 11, TokenReq (demo_form ''authorization_code'') \<lparr>fp_refresh = ''r2'', fp_access = ''a2''\<rparr>)]"

theorem grants_succeed_at_most_once_witness:
  "successes (code_redeemed demo_env ''code'') (gw_step demo_env) demo_tokens demo_gw \<le> 1
   \<and> successes (code_redeemed demo_env ''code'') (gw_step demo_env) demo_tokens demo_gw = 1"
proof
  have "\<forall>r \<in> set demo_tokens. (AuthCodes, ''code'') \<notin> minted demo_env (snd r)" by code_simp
  with grants_succeed_at_most_once [OF demo_db_ok, of demo_tokens "''code''" demo_env]
  show "successes (code_redeemed demo_env ''code'') (gw_step demo_env) demo_tokens demo_gw \<le> 1" by blast
  show "successes (code_redeemed demo_env ''code'') (gw_step demo_env) demo_tokens demo_gw = 1" by code_simp
qed

text \<open>
  C10. A guest code with a cap admits no more guests than it has uses left, whatever else happens in
  between and however the redemptions interleave.
\<close>

theorem guest_code_cap:
  assumes "db_ok (gw_db st)" "row \<in> set (guest_codes (gw_db st))" "gc_code_hash row = k"
    "gc_max_uses row = Some m" "\<forall>r \<in> set rs. (GuestCodes, k) \<notin> minted E (snd r)"
  shows "int (successes (guest_joined E k) (gw_step E) rs st) \<le> max 0 (m - gc_uses row)"
proof -
  have "guest_capped k (gw_db st)"
    using guest_unique [OF assms(1) _ assms(2)] assms(3,4) by (fastforce simp: guest_capped_def)
  with guest_code.at_most_left [where E = E and k = k and rs = rs, of st] assms
  have "successes (guest_joined E k) (gw_step E) rs st \<le> guest_left k (gw_db st)" by blast
  moreover have "guest_left k (gw_db st) = nat (m - gc_uses row)"
    using guest_left_row [OF assms(1-3)] assms(4) by (simp add: uses_left_def)
  ultimately show ?thesis by simp
qed

definition demo_guests :: "(clock \<times> gw_request) list" where
  "demo_guests = [(demo_clock 10, GuestReq None ''guest'' ''web'' (Some ''Al'') ''g1''),
     (demo_clock 11, GuestReq None ''guest'' ''web'' None ''g2'')]"

theorem guest_code_cap_witness:
  "int (successes (guest_joined demo_env ''guest'') (gw_step demo_env) demo_guests demo_gw) \<le> max 0 (1 - 0)
   \<and> successes (guest_joined demo_env ''guest'') (gw_step demo_env) demo_guests demo_gw = 1"
proof
  let ?row = "\<lparr>gc_id = 1, gc_code_hash = ''guest'', gc_host_user_id = 2, gc_label = None,
     gc_created_at = 0, gc_expires_at = None, gc_max_uses = Some 1, gc_uses = 0, gc_revoked_at = None\<rparr>"
  have "?row \<in> set (guest_codes (gw_db demo_gw))" by (simp add: demo_gw_def demo_db_def)
  moreover have "\<forall>r \<in> set demo_guests. (GuestCodes, ''guest'') \<notin> minted demo_env (snd r)" by code_simp
  ultimately show "int (successes (guest_joined demo_env ''guest'') (gw_step demo_env) demo_guests demo_gw) \<le> max 0 (1 - 0)"
    using guest_code_cap [OF demo_db_ok, of ?row "''guest''" 1 demo_guests demo_env] by simp
  show "successes (guest_joined demo_env ''guest'') (gw_step demo_env) demo_guests demo_gw = 1" by code_simp
qed

end
