(* ===== verification/Refresh_Families.thy ===== *)
theory Refresh_Families
  imports Credentials
begin

text \<open>
  Refresh-token rotation families (\<open>consume_refresh_token\<close>, \<open>detect_refresh_reuse\<close>,
  \<open>revoke_family\<close> and \<open>grant_refresh_token\<close>). \<open>family_dead\<close>: no refresh token of the family and no
  access token derived from one is unrevoked. A replay of a rotated token makes its family dead,
  and no request revives a dead family (\<open>single_use\<close> again: being revived would take an unrevoked
  member).
\<close>

definition family_dead :: "string \<Rightarrow> gateway_db \<Rightarrow> bool" where
  "family_dead fam db \<longleftrightarrow>
     (\<forall>r \<in> set (refresh_tokens db). rt_family_id r = fam \<longrightarrow> rt_revoked_at r \<noteq> None)
     \<and> (\<forall>a \<in> set (access_tokens db). \<forall>k. at_refresh_token_hash a = Some k \<longrightarrow> k \<in> family_hashes fam db
          \<longrightarrow> at_revoked_at a \<noteq> None)"

lemma family_hashes_iff: "k \<in> family_hashes fam db \<longleftrightarrow>
    (\<exists>r \<in> set (refresh_tokens db). rt_family_id r = fam \<and> rt_token_hash r = k)"
  by (auto simp: family_hashes_def)

lemma revoke_family_kills:
  assumes "db_ok db"
  shows "family_dead fam (snd (revoke_family fam now db))"
proof -
  let ?db = "snd (revoke_family fam now db)"
  have refresh: "refresh_tokens ?db = update_where (\<lambda>r. rt_family_id r = fam \<and> rt_revoked_at r = None)
      (\<lambda>r. r\<lparr>rt_revoked_at := Some now\<rparr>) (refresh_tokens db)"
    and access: "access_tokens ?db = revoke_derived (family_hashes fam db) now (access_tokens db)"
    by (simp_all add: revoke_family_def Let_def)
  have "map (\<lambda>r. (rt_family_id r, rt_token_hash r)) (refresh_tokens ?db) =
      map (\<lambda>r. (rt_family_id r, rt_token_hash r)) (refresh_tokens db)"
    unfolding refresh by (rule map_update_where) simp
  then have pairs: "(\<lambda>r. (rt_family_id r, rt_token_hash r)) ` set (refresh_tokens ?db) =
      (\<lambda>r. (rt_family_id r, rt_token_hash r)) ` set (refresh_tokens db)" by (metis set_map)
  have iff: "k \<in> family_hashes fam d \<longleftrightarrow> (fam, k) \<in> (\<lambda>r. (rt_family_id r, rt_token_hash r)) ` set (refresh_tokens d)" for k d
    by (auto simp: family_hashes_iff)
  have hashes: "family_hashes fam ?db = family_hashes fam db"
    by (rule set_eqI) (simp only: iff pairs)
  show ?thesis
    unfolding family_dead_def hashes
  proof (intro conjI ballI allI impI)
    fix r assume "r \<in> set (refresh_tokens ?db)" "rt_family_id r = fam"
    then obtain x where x: "r = (if rt_family_id x = fam \<and> rt_revoked_at x = None
        then x\<lparr>rt_revoked_at := Some now\<rparr> else x)" unfolding refresh in_update_where by blast
    with \<open>rt_family_id r = fam\<close> show "rt_revoked_at r \<noteq> None"
      by (cases "rt_family_id x = fam \<and> rt_revoked_at x = None") auto
  next
    fix a k assume "a \<in> set (access_tokens ?db)" and k: "at_refresh_token_hash a = Some k" "k \<in> family_hashes fam db"
    then obtain x where x: "a = (if at_revoked_at x = None
        \<and> (case at_refresh_token_hash x of None \<Rightarrow> False | Some k \<Rightarrow> k \<in> family_hashes fam db)
        then x\<lparr>at_revoked_at := Some now\<rparr> else x)" unfolding access revoke_derived_def in_update_where by blast
    show "at_revoked_at a \<noteq> None"
    proof (cases "at_revoked_at x = None \<and> (case at_refresh_token_hash x of None \<Rightarrow> False
        | Some k \<Rightarrow> k \<in> family_hashes fam db)")
      case True
      then show ?thesis using x by simp
    next
      case False
      then have "a = x" using x by (simp split: if_splits)
      with False k show ?thesis by simp
    qed
  qed
qed

text \<open>A token revoked longer than the grace period ago is taken for stolen.\<close>

lemma reuse_detected:
  assumes "db_ok db" "r \<in> set (refresh_tokens db)" "rt_token_hash r = h token" "rt_client_id r = cid"
    and "rt_revoked_at r = Some t" "t \<le> i64_sat (now - ttl_ms grace)"
  shows "detect_refresh_reuse h token cid grace now db = Some (rt_family_id r)"
proof -
  let ?P = "\<lambda>x. rt_token_hash x = h token \<and> rt_client_id x = cid
      \<and> (case rt_revoked_at x of None \<Rightarrow> False | Some t \<Rightarrow> t \<le> i64_sat (now - ttl_ms grace))"
  obtain x where x: "find ?P (refresh_tokens db) = Some x"
    using find_Some_ex [of r "refresh_tokens db" ?P] assms(2-6) by auto
  have "table_ok rt_token_hash (\<lambda>r. rt_client_id r \<in> client_ids db \<and> fk_ok (rt_user_id r) (user_ids db)) (refresh_tokens db)"
    using assms(1) by (simp add: db_ok_def)
  from table_ok_unique [OF this, of x r] find_SomeD [OF x] assms(2,3) have "x = r" by simp
  with x show ?thesis by (simp add: detect_refresh_reuse_def Let_def)
qed

section \<open>A dead family stays dead\<close>

lemma family_dead_evolves:
  assumes "db_evolves M db db'" "\<forall>k. (RefreshTokens, k) \<notin> M" "\<forall>k. (AccessTokens, k) \<notin> M"
    and "family_dead fam db"
  shows "family_dead fam db'"
proof -
  have old_refresh: "\<exists>r \<in> set (refresh_tokens db). adv_refresh r r'" if "r' \<in> set (refresh_tokens db')" for r'
    using assms(1,2) that by (auto simp: db_evolves_def evolves_def)
  have old_access: "\<exists>a \<in> set (access_tokens db). adv_access a a'" if "a' \<in> set (access_tokens db')" for a'
    using assms(1,3) that by (auto simp: db_evolves_def evolves_def)
  have fam: "adv_refresh r r' \<Longrightarrow> rt_family_id r' = rt_family_id r" for r r'
    by (cases r; cases r') (simp add: adv_refresh_def)
  have from_hash: "adv_access a a' \<Longrightarrow> at_refresh_token_hash a' = at_refresh_token_hash a" for a a'
    by (cases a; cases a') (simp add: adv_access_def)
  have hashes: "family_hashes fam db' \<subseteq> family_hashes fam db"
    using old_refresh fam adv_key(2) unfolding family_hashes_iff subset_iff by metis
  show ?thesis
    unfolding family_dead_def
  proof (intro conjI ballI allI impI)
    fix r' assume r': "r' \<in> set (refresh_tokens db')" "rt_family_id r' = fam"
    from old_refresh [OF r'(1)] obtain r where r: "r \<in> set (refresh_tokens db)" "adv_refresh r r'" by blast
    then have "rt_revoked_at r \<noteq> None" using assms(4) fam r'(2) by (auto simp: family_dead_def)
    then show "rt_revoked_at r' \<noteq> None" using adv_sticky(2) [OF r(2)] by (simp add: sticky_def)
  next
    fix a' k assume a': "a' \<in> set (access_tokens db')" "at_refresh_token_hash a' = Some k"
      "k \<in> family_hashes fam db'"
    from old_access [OF a'(1)] obtain a where a: "a \<in> set (access_tokens db)" "adv_access a a'" by blast
    have "at_refresh_token_hash a = Some k" "k \<in> family_hashes fam db"
      using from_hash [OF a(2)] a' hashes by auto
    with a(1) assms(4) have "at_revoked_at a \<noteq> None" by (simp add: family_dead_def)
    then show "at_revoked_at a' \<noteq> None" using adv_sticky(3) [OF a(2)] by (simp add: sticky_def)
  qed
qed

lemma sound_dead: "sound {} db db' \<Longrightarrow> family_dead fam db \<Longrightarrow> family_dead fam db'"
  by (auto simp: sound_def intro: family_dead_evolves)

lemma family_dead_mint_access:
  assumes "mint_access_token_for_user h token cid rh ttl uid now db = Inr db'" "family_dead fam db"
    and "\<forall>k. rh = Some k \<longrightarrow> k \<notin> family_hashes fam db"
  shows "family_dead fam db'"
  using assms by (auto simp: mint_access_token_for_user_def family_dead_def family_hashes_def split: if_splits)

lemma family_dead_mint_refresh:
  assumes "mint_refresh_token h token n now db = Inr db'" "family_dead fam db" "db_ok db"
    and "(case nr_family_id n of Some f \<Rightarrow> f | None \<Rightarrow> h token) \<noteq> fam"
  shows "family_dead fam db' \<and> h token \<notin> family_hashes fam db'"
proof -
  have new: "h token \<notin> rt_token_hash ` set (refresh_tokens db)"
    and refresh: "refresh_tokens db' = refresh_tokens db @ [\<lparr>rt_token_hash = h token,
      rt_client_id = nr_client_id n, rt_issued_at = now, rt_expires_at = map_option (expiry now) (nr_ttl n),
      rt_revoked_at = None, rt_user_id = Some (nr_user_id n),
      rt_family_id = (case nr_family_id n of Some f \<Rightarrow> f | None \<Rightarrow> h token)\<rparr>]"
    and access: "access_tokens db' = access_tokens db"
    using assms(1) by (auto simp: mint_refresh_token_def split: if_splits)
  have "family_hashes fam db' = family_hashes fam db"
    unfolding family_hashes_def refresh using assms(4) by simp
  moreover have "h token \<notin> family_hashes fam db" using new by (force simp: family_hashes_iff)
  ultimately show ?thesis
    using assms(2,4) by (simp add: family_dead_def refresh access)
qed

lemma family_dead_mint_pair:
  assumes "family_dead fam db" "db_ok db"
    and "(case family_id of Some f \<Rightarrow> f | None \<Rightarrow> hash_token E (fp_refresh fp)) \<noteq> fam"
  shows "family_dead fam (snd (mint_pair E c fp cid uid family_id db))"
  using family_dead_mint_refresh [OF _ assms(1,2), of "hash_token E" "fp_refresh fp"] assms
  by (auto simp: mint_pair_def split: sum.split intro: family_dead_mint_access)

lemma consumed_refresh_row:
  assumes "consume_refresh_token h token cid now db = (Some r, db')"
  shows "\<exists>x \<in> set (refresh_tokens db). rt_family_id x = rt_family_id r \<and> rt_revoked_at x = None"
proof -
  obtain x where "find (refresh_live h token cid now) (refresh_tokens db) = Some x"
    "r = x\<lparr>rt_revoked_at := Some now\<rparr>"
    using assms by (auto simp: consume_refresh_token_def split: option.splits)
  with find_SomeD show ?thesis by (fastforce simp: refresh_live_def refresh_active_def)
qed

lemma family_dead_token:
  assumes "family_dead fam db" "db_ok db" "hash_token E (fp_refresh fp) \<noteq> fam"
  shows "family_dead fam (snd (token_grant E c fp form db))"
proof -
  have "family_dead fam (snd (grant_authorization_code E c fp form db))"
    using assms by (auto simp: grant_authorization_code_def split: option.split prod.split
        intro: sound_dead [OF sound_codes(1)] family_dead_mint_pair db_ok_consume_auth_code)
  moreover have "family_dead fam (snd (grant_device_code E c fp form db))"
    using assms by (auto simp: grant_device_code_def split: option.split prod.split device_poll.split
        intro: sound_dead [OF sound_codes(3)] family_dead_mint_pair db_ok_consume_device)
  moreover have "family_dead fam (snd (grant_refresh_token E c fp form db))"
  proof (cases "\<exists>t cid r db1. tf_refresh_token form = Some t \<and> tf_client_id form = Some cid
      \<and> consume_refresh_token (hash_token E) t cid (now_ms c) db = (Some r, db1)")
    case True
    then obtain t cid r db1 where t: "tf_refresh_token form = Some t" "tf_client_id form = Some cid"
      "consume_refresh_token (hash_token E) t cid (now_ms c) db = (Some r, db1)" by blast
    have "rt_family_id r \<noteq> fam" using consumed_refresh_row [OF t(3)] assms(1) by (auto simp: family_dead_def)
    moreover have "family_dead fam db1" using sound_dead [OF sound_simple(9) [OF t(3)] assms(1)] .
    moreover have "db_ok db1" using db_ok_consume_refresh [OF t(3) assms(2)] .
    ultimately show ?thesis by (simp add: grant_refresh_token_def t family_dead_mint_pair)
  next
    case False
    then show ?thesis
      using assms
      by (auto simp: grant_refresh_token_def split: option.split prod.split
          intro: sound_dead [OF sound_simple(9)]
            sound_dead [OF sound_trans [OF sound_simple(9) sound_family]])
  qed
  ultimately show ?thesis using assms(1) by (simp add: token_grant_def)
qed

lemma family_dead_guest:
  assumes "family_dead fam (gw_db st)"
  shows "family_dead fam (gw_db (snd (guest_grant E c ip code client name token st)))"
  using assms
  by (auto simp: guest_grant_def Let_def split: option.split sum.split prod.split redeem_outcome.split
      intro: sound_dead [OF sound_codes(4)] sound_dead [OF sound_trans [OF sound_codes(4) sound_simple(2)]]
        family_dead_mint_access [OF _ sound_dead [OF sound_trans [OF sound_codes(4) sound_simple(2)]]])

lemma gw_step_family_dead:
  assumes "db_ok (gw_db st)" "(RefreshTokens, fam) \<notin> minted E (snd r)" "family_dead fam (gw_db st)"
  shows "family_dead fam (gw_db (gw_step E r st))"
proof (cases r)
  case (Pair c req)
  note evo = family_dead_evolves [OF gw_step_evolves [of E r st] _ _ assms(3)]
  show ?thesis
  proof (cases req)
    case (TokenReq form fp)
    have "hash_token E (fp_refresh fp) \<noteq> fam" using assms(2) by (simp add: Pair TokenReq)
    from family_dead_token [OF assms(3,1) this] show ?thesis by (simp add: Pair TokenReq)
  next
    case (GuestReq ip code client name token)
    then show ?thesis using family_dead_guest [OF assms(3)] by (simp add: Pair)
  qed (use evo in \<open>simp_all add: Pair\<close>)
qed

lemma run_ok: "db_ok (gw_db st) \<Longrightarrow> db_ok (gw_db (run_all (gw_step E) rs st))"
  by (induction rs arbitrary: st) (simp_all add: gw_step_ok)

lemma run_family_dead:
  "db_ok (gw_db st) \<Longrightarrow> \<forall>r \<in> set rs. (RefreshTokens, fam) \<notin> minted E (snd r) \<Longrightarrow>
   family_dead fam (gw_db st) \<Longrightarrow> family_dead fam (gw_db (run_all (gw_step E) rs st))"
  by (induction rs arbitrary: st) (simp_all add: gw_step_ok gw_step_family_dead)

section \<open>Property\<close>

text \<open>
  C7. Replaying a refresh token that was rotated or revoked more than the grace period ago is
  refused, and cuts off the whole rotation family: afterwards, and after any further requests that
  do not mint the family's first token anew, every refresh token of the family is revoked, and so
  is every access token derived from one of them.
\<close>

theorem refresh_reuse_kills_family:
  assumes "db_ok (gw_db st)" "r \<in> set (refresh_tokens (gw_db st))"
    "rt_token_hash r = hash_token E token" "rt_revoked_at r = Some t"
    "t \<le> i64_sat (now_ms c - ttl_ms REFRESH_REUSE_GRACE)"
    "tf_grant_type form = ''refresh_token''" "tf_refresh_token form = Some token"
    "tf_client_id form = Some (rt_client_id r)"
    "\<forall>q \<in> set rs. (RefreshTokens, rt_family_id r) \<notin> minted E (snd q)"
  shows "(\<exists>e. fst (token_grant E c fp form (gw_db st)) = Inl e \<and> oe_error e = ''invalid_grant'')
    \<and> family_dead (rt_family_id r) (gw_db (run_all (gw_step E) rs (gw_step E (c, TokenReq form fp) st)))"
proof -
  let ?h = "hash_token E" and ?db = "gw_db st"
  have "refresh_spent (?h token) ?db"
  proof (unfold refresh_spent_def, intro ballI impI)
    fix x assume x: "x \<in> set (refresh_tokens ?db)" "rt_token_hash x = ?h token"
    have "table_ok rt_token_hash (\<lambda>r. rt_client_id r \<in> client_ids ?db \<and> fk_ok (rt_user_id r) (user_ids ?db)) (refresh_tokens ?db)"
      using assms(1) by (simp add: db_ok_def)
    from table_ok_unique [OF this x(1) assms(2)] x(2) assms(3,4) show "rt_revoked_at x \<noteq> None" by simp
  qed
  then have grant: "token_grant E c fp form ?db =
      (Inl (invalid_grant ''refresh token is invalid, expired, revoked, or for a different client''),
       snd (revoke_family (rt_family_id r) (now_ms c) ?db))"
    using reuse_detected [where h = "hash_token E" and token = token and cid = "rt_client_id r",
        OF assms(1,2,3) refl assms(4,5)] assms(6-8)
    by (simp add: grant_refresh_token_def refresh_spent_not_consumed)
  let ?st = "gw_step E (c, TokenReq form fp) st"
  have "family_dead (rt_family_id r) (gw_db ?st)"
    using revoke_family_kills [OF assms(1)] by (simp add: grant)
  from run_family_dead [OF gw_step_ok [OF assms(1)] assms(9) this] show ?thesis
    by (simp add: grant invalid_grant_def oauth_error_def)
qed

definition demo_replay :: token_form where
  "demo_replay = (demo_form ''refresh_token'')\<lparr>tf_refresh_token := Some ''old''\<rparr>"

theorem refresh_reuse_kills_family_witness:
  "family_dead ''old'' (gw_db (run_all (gw_step demo_env)
      [(demo_clock 20000, TokenReq (demo_form ''refresh_token'') \<lparr>fp_refresh = ''r1'', fp_access = ''a1''\<rparr>)]
      (gw_step demo_env (demo_clock 20000, TokenReq demo_replay \<lparr>fp_refresh = ''r0'', fp_access = ''a0''\<rparr>) demo_gw)))
   \<and> \<not> family_dead ''old'' (gw_db demo_gw)"
proof
  let ?row = "\<lparr>rt_token_hash = ''old'', rt_client_id = ''web'', rt_issued_at = 0, rt_expires_at = None,
     rt_revoked_at = Some 5, rt_user_id = Some 2, rt_family_id = ''old''\<rparr>"
  let ?rs = "[(demo_clock 20000, TokenReq (demo_form ''refresh_token'') \<lparr>fp_refresh = ''r1'', fp_access = ''a1''\<rparr>)]"
  have row: "?row \<in> set (refresh_tokens (gw_db demo_gw))" by (simp add: demo_gw_def demo_db_def)
  have fresh: "\<forall>q \<in> set ?rs. (RefreshTokens, rt_family_id ?row) \<notin> minted demo_env (snd q)" by code_simp
  have hash: "rt_token_hash ?row = hash_token demo_env ''old''" by (simp add: demo_env_def)
  have late: "5 \<le> i64_sat (now_ms (demo_clock 20000) - ttl_ms REFRESH_REUSE_GRACE)" by code_simp
  have form: "tf_grant_type demo_replay = ''refresh_token''" "tf_refresh_token demo_replay = Some ''old''"
    "tf_client_id demo_replay = Some (rt_client_id ?row)"
    by (simp_all add: demo_replay_def demo_form_def)
  have rev: "rt_revoked_at ?row = Some 5" by simp
  from refresh_reuse_kills_family [OF demo_db_ok row hash rev late form fresh]
  show "family_dead ''old'' (gw_db (run_all (gw_step demo_env) ?rs
      (gw_step demo_env (demo_clock 20000, TokenReq demo_replay \<lparr>fp_refresh = ''r0'', fp_access = ''a0''\<rparr>) demo_gw)))"
    by simp
  have "\<exists>r \<in> set (refresh_tokens (gw_db demo_gw)). rt_family_id r = ''old'' \<and> rt_revoked_at r = None"
    by code_simp
  then show "\<not> family_dead ''old'' (gw_db demo_gw)" by (auto simp: family_dead_def)
qed

end
