(* ===== verification/Owner_Slot.thy ===== *)
theory Owner_Slot
  imports Gateway
begin

text \<open>
  Account 1, the owner. \<open>owner_slot\<close>: ids are positive and account 1 is neither a guest nor hosted,
  so that no sweep and no cascade takes it. Every request keeps the slot and, once the account is
  there, the very row: nobody deletes it, changes its role or resets its password
  (\<open>keeps_owner\<close>, collection \<open>owner_intros\<close>). From this follows that setup answers at most once
  (\<open>single_use\<close> on the setup endpoint).
\<close>

definition owner_slot :: "gateway_db \<Rightarrow> bool" where
  "owner_slot db \<longleftrightarrow> (\<forall>u \<in> set (users db). 0 < u_id u
     \<and> (u_id u = OWNER_USER_ID \<longrightarrow> u_host_user_id u = None \<and> u_role u \<noteq> ''guest''))"

definition keeps_owner :: "gateway_db \<Rightarrow> gateway_db \<Rightarrow> bool" where
  "keeps_owner db db' \<longleftrightarrow> (owner_slot db \<longrightarrow> owner_slot db'
     \<and> (\<forall>u \<in> set (users db). u_id u = OWNER_USER_ID \<longrightarrow> u \<in> set (users db')))"

named_theorems owner_intros

lemma keeps_owner_refl [simp]: "keeps_owner db db"
  by (simp add: keeps_owner_def)

lemma keeps_owner_trans: "keeps_owner a b \<Longrightarrow> keeps_owner b c \<Longrightarrow> keeps_owner a c"
  by (auto simp: keeps_owner_def)

lemma keeps_owner_same: "users db' = users db \<Longrightarrow> keeps_owner db db'"
  by (simp add: keeps_owner_def owner_slot_def)

section \<open>Statements\<close>

lemma owner_frame [owner_intros]:
  "keeps_owner f (revoke_session h token now f)"
  "revoke_all_sessions_for_user u now g = (n, g1) \<Longrightarrow> keeps_owner g g1"
  "revoke_all_tokens_for_user u now i = (n, i1) \<Longrightarrow> keeps_owner i i1"
  "consume_refresh_token h token cid now j = (res, j1) \<Longrightarrow> keeps_owner j j1"
  "keeps_owner k (snd (revoke_family fam now k))"
  "keeps_owner l (revoke_refresh_token h token now l)"
  "keeps_owner m (revoke_access_token h token now m)"
  "consume_auth_code h code now a = (res', a1) \<Longrightarrow> keeps_owner a a1"
  "set_device_decision uc approve who now b = (ok, b1) \<Longrightarrow> keeps_owner b b1"
  "consume_device_code h code now d = (poll, d1) \<Longrightarrow> keeps_owner d d1"
  "redeem_guest_code h code now e = (out, e1) \<Longrightarrow> keeps_owner e e1"
  "revoke_guest_code host gid now q = (ok, q1) \<Longrightarrow> keeps_owner q q1"
  by (auto intro!: keeps_owner_same
      simp: revoke_session_def revoke_all_sessions_for_user_def revoke_all_tokens_for_user_def
        consume_refresh_token_def revoke_family_def revoke_refresh_token_def revoke_access_token_def
        consume_auth_code_def set_device_decision_def consume_device_code_def redeem_guest_code_def
        revoke_guest_code_def Let_def
      split: option.splits if_splits)

lemma owner_mint [owner_intros]:
  "create_session h token uid ttl now a = Inr a1 \<Longrightarrow> keeps_owner a a1"
  "create_auth_code h token nac now b = Inr b1 \<Longrightarrow> keeps_owner b b1"
  "mint_refresh_token h token nr now d = Inr d1 \<Longrightarrow> keeps_owner d d1"
  "mint_access_token_for_user h token cid rh ttl ou now e = Inr e1 \<Longrightarrow> keeps_owner e e1"
  "create_device_code h token uc ndc now f = Inr f1 \<Longrightarrow> keeps_owner f f1"
  "create_guest_code h token ngc now g = Inr (gid, g1) \<Longrightarrow> keeps_owner g g1"
  by (auto intro!: keeps_owner_same
      simp: create_session_def create_auth_code_def mint_refresh_token_def mint_access_token_for_user_def
        create_device_code_def create_guest_code_def Let_def
      split: if_splits)

lemma owner_set_master [owner_intros]: "set_master_password_hash phc now a = Inr a1 \<Longrightarrow> keeps_owner a a1"
  by (auto simp: set_master_password_hash_def keeps_owner_def owner_slot_def split: if_splits)

text \<open>An inserted account gets id 1 only in an empty table, and then it has no host.\<close>

lemma next_rowid_bounds:
  "owner_slot db \<Longrightarrow> 0 < next_rowid (map u_id (users db))"
  "owner_slot db \<Longrightarrow> users db \<noteq> [] \<Longrightarrow> 1 < next_rowid (map u_id (users db))"
proof -
  assume slot: "owner_slot db"
  have mx: "0 < Max (u_id ` set (users db))" if "users db \<noteq> []"
  proof -
    have "Max (u_id ` set (users db)) \<in> u_id ` set (users db)" using that by (intro Max_in) auto
    with slot show ?thesis by (auto simp: owner_slot_def)
  qed
  show "0 < next_rowid (map u_id (users db))" using mx by (auto simp: next_rowid_def)
  show "users db \<noteq> [] \<Longrightarrow> 1 < next_rowid (map u_id (users db))" using mx by (auto simp: next_rowid_def)
qed

lemma owner_insert_user [owner_intros]:
  assumes "insert_user n now db = Inr (uid, db')" "nu_host_user_id n = None \<longrightarrow> nu_role n \<noteq> ''guest''"
  shows "keeps_owner db db'"
proof -
  let ?uid = "next_rowid (map u_id (users db))"
  have "nu_host_user_id n = None" if "users db = []"
    using assms(1) that by (cases "nu_host_user_id n") (auto simp: insert_user_def user_ids_def Let_def split: if_splits)
  then have "owner_slot db \<Longrightarrow> 0 < ?uid \<and> (?uid = 1 \<longrightarrow> nu_host_user_id n = None \<and> nu_role n \<noteq> ''guest'')"
    using next_rowid_bounds [of db] assms(2) by (cases "users db = []") auto
  then show ?thesis
    using assms(1) by (auto simp: insert_user_def keeps_owner_def owner_slot_def OWNER_USER_ID_def Let_def split: if_splits)
qed

lemma owner_create_account [owner_intros]:
  "create_account n now db = Inr (uid, db') \<Longrightarrow> nu_host_user_id n = None \<longrightarrow> nu_role n \<noteq> ''guest'' \<Longrightarrow>
   keeps_owner db db'"
  using owner_insert_user [OF create_account_insert] by simp

lemma owner_set_password [owner_intros]:
  "set_user_password uid phc db = (ok, db') \<Longrightarrow> uid \<noteq> OWNER_USER_ID \<Longrightarrow> keeps_owner db db'"
proof -
  assume a: "set_user_password uid phc db = (ok, db')" "uid \<noteq> OWNER_USER_ID"
  let ?P = "\<lambda>u. u_id u = uid \<and> u_role u \<in> {''admin'', ''user''}"
  have users: "users db' = update_where ?P (\<lambda>u. u\<lparr>u_password_hash := Some phc\<rparr>) (users db)"
    using a(1) by (auto simp: set_user_password_def Let_def)
  have "u \<in> set (users db')" if "u \<in> set (users db)" "u_id u = OWNER_USER_ID" for u
    unfolding users in_update_where using that a(2) by (intro bexI [of _ u]) auto
  moreover have "owner_slot db \<Longrightarrow> owner_slot db'"
    by (auto simp: owner_slot_def users in_update_where split: if_splits)
  ultimately show "keeps_owner db db'" by (simp add: keeps_owner_def)
qed

lemma not_hosted_survives: "x \<notin> D \<Longrightarrow> (\<forall>u \<in> set us. u_id u = x \<longrightarrow> u_host_user_id u = None) \<Longrightarrow>
   x \<notin> cascade_rounds n us D"
proof (induction n arbitrary: D)
  case (Suc n)
  then have "x \<notin> D \<union> hosted us D" by (fastforce simp: hosted_iff)
  from Suc.IH [OF this Suc.prems(2)] show ?case by (simp only: cascade_rounds_hosted not_False_eq_True)
qed simp

lemma owner_delete_where:
  assumes "owner_slot db \<Longrightarrow> \<forall>u \<in> set (users db). u_id u = OWNER_USER_ID \<longrightarrow> \<not> P u"
  shows "keeps_owner db (delete_users_where P db)"
  unfolding keeps_owner_def
proof (intro impI conjI ballI)
  assume slot: "owner_slot db"
  then show "owner_slot (delete_users_where P db)" by (simp add: owner_slot_def delete_tables)
  fix u assume u: "u \<in> set (users db)" "u_id u = OWNER_USER_ID"
  have "OWNER_USER_ID \<notin> u_id ` set (filter P (users db))" using assms [OF slot] by auto
  moreover have "\<forall>u \<in> set (users db). u_id u = OWNER_USER_ID \<longrightarrow> u_host_user_id u = None"
    using slot by (simp add: owner_slot_def)
  ultimately have "OWNER_USER_ID \<notin> deleted_ids P db"
    unfolding deleted_ids_def cascade_users_def by (rule not_hosted_survives)
  with u show "u \<in> set (users (delete_users_where P db))" by (simp add: delete_tables)
qed

lemma owner_delete [owner_intros]:
  "delete_user uid db = (ok, db1) \<Longrightarrow> uid \<noteq> OWNER_USER_ID \<Longrightarrow> keeps_owner db db1"
  by (auto simp: delete_user_def intro: owner_delete_where)

lemma owner_sweep: "keeps_owner db (snd (delete_expired_guests now db))"
  by (auto simp: delete_expired_guests_def guest_expired_def owner_slot_def intro!: owner_delete_where)

section \<open>Requests\<close>

lemma owner_mint_pair: "keeps_owner db (snd (mint_pair E c fp cid uid fam db))"
  by (auto simp: mint_pair_def split: sum.split intro: owner_mint keeps_owner_trans)

lemma owner_token: "keeps_owner db (snd (token_grant E c fp form db))"
proof -
  note pair = owner_mint_pair
  have "keeps_owner db (snd (grant_authorization_code E c fp form db))"
    by (auto simp: grant_authorization_code_def split: option.split prod.split
        intro: owner_frame(8) keeps_owner_trans [OF owner_frame(8) pair])
  moreover have "keeps_owner db (snd (grant_refresh_token E c fp form db))"
    by (auto simp: grant_refresh_token_def split: option.split prod.split
        intro: owner_frame(4) keeps_owner_trans [OF owner_frame(4) pair] keeps_owner_trans [OF owner_frame(4,5)])
  moreover have "keeps_owner db (snd (grant_device_code E c fp form db))"
    by (auto simp: grant_device_code_def split: option.split prod.split device_poll.split
        intro: owner_frame(10) keeps_owner_trans [OF owner_frame(10) pair])
  ultimately show ?thesis by (simp add: token_grant_def)
qed

lemma owner_public:
  "keeps_owner (gw_db st) (gw_db (snd (oauth_setup E c token pw st)))"
  "keeps_owner (gw_db st) (gw_db (snd (login_post E c ip next user pw token st)))"
  "keeps_owner (gw_db st) (gw_db (snd (logout E c cookie st)))"
  "keeps_owner (gw_db st) (gw_db (snd (revoke E c ip token st)))"
  "keeps_owner (gw_db st) (gw_db (snd (device_authorization E c ip head client dc uc st)))"
  "keeps_owner (gw_db st) (gw_db (snd (device_verify_post E c cookie uc action st)))"
  by (auto simp: oauth_setup_def login_post_def logout_def revoke_def device_authorization_def
      device_verify_post_def Let_def split: option.split sum.split prod.split
      intro: owner_intros keeps_owner_trans [OF owner_frame(6,7)])

lemma owner_authorize: "keeps_owner (gw_db st) (gw_db (snd (authorize E c q cookie code st)))"
  by (auto simp: authorize_def Let_def split: option.split sum.split prod.split
      intro: owner_mint(2) owner_frame(1))

lemma owner_guest: "keeps_owner (gw_db st) (gw_db (snd (guest_grant E c ip code client name token st)))"
proof -
  have ins: "insert_user n now db = Inr (uid, db') \<Longrightarrow> nu_host_user_id n = Some x \<Longrightarrow> keeps_owner db db'"
    for n now db uid db' x using owner_insert_user [of n now db uid db'] by simp
  show ?thesis
    by (auto simp: guest_grant_def Let_def split: option.split sum.split prod.split redeem_outcome.split
        intro: owner_frame(11) keeps_owner_trans [OF owner_frame(11) ins]
          keeps_owner_trans [OF owner_frame(11) keeps_owner_trans [OF ins owner_mint(4)]])
qed

lemma owner_protected:
  "(\<And>p. keeps_owner (gw_db st) (gw_db (snd (handler p st)))) \<Longrightarrow>
   keeps_owner (gw_db st) (gw_db (snd (protected_route E c cred handler st)))"
  by (simp add: protected_route_def split: sum.split)

lemma owner_admin:
  "keeps_owner (gw_db st) (gw_db (snd (handler st))) \<Longrightarrow>
   keeps_owner (gw_db st) (gw_db (snd (admin_route E c cred handler st)))"
  unfolding admin_route_def by (rule owner_protected) (simp split: sum.split)

lemma owner_users:
  "keeps_owner (gw_db st) (gw_db (snd (create_user E c form st)))"
  "keeps_owner (gw_db st) (gw_db (snd (admin_delete_user uid st)))"
  "keeps_owner (gw_db st) (gw_db (snd (reset_password E c uid pw st)))"
proof -
  have "cu_role form = ''admin'' \<or> cu_role form = ''user'' \<Longrightarrow> cu_role form \<noteq> ''guest''" by auto
  then show "keeps_owner (gw_db st) (gw_db (snd (create_user E c form st)))"
    by (auto simp: create_user_def Let_def split: option.split sum.split prod.split
        intro!: owner_create_account)
  show "keeps_owner (gw_db st) (gw_db (snd (admin_delete_user uid st)))"
    by (auto simp: admin_delete_user_def split: prod.split intro: owner_delete)
  show "keeps_owner (gw_db st) (gw_db (snd (reset_password E c uid pw st)))"
    by (auto simp: reset_password_def Let_def split: option.split prod.split bool.split
        intro: owner_set_password
          keeps_owner_trans [OF keeps_owner_trans [OF owner_set_password owner_frame(2)] owner_frame(3)])
qed

lemma owner_codes:
  "keeps_owner (gw_db st) (gw_db (snd (create_code E c body code p st)))"
  "keeps_owner (gw_db st) (gw_db (snd (revoke_code c gid p st)))"
  by (auto simp: create_code_def revoke_code_def split: option.split sum.split prod.split bool.split
      intro: owner_mint(6) owner_frame(12))

lemma gw_step_owner: "keeps_owner (gw_db st) (gw_db (gw_step E r st))"
proof (cases r)
  case (Pair c req)
  have create: "keeps_owner (gw_db st) (gw_db (snd (protected_route E c cred
      (\<lambda>p st. case create_code E c body code p st of (res, st') \<Rightarrow>
         (case res of Inl s \<Rightarrow> s | Inr _ \<Rightarrow> S_CREATED, st')) st)))" for cred body code
    by (rule owner_protected) (simp add: owner_codes split_beta)
  have "keeps_owner (gw_db st) (gw_db (guest_sweep E c st))" by (simp add: guest_sweep_def owner_sweep)
  then show ?thesis
    unfolding Pair
    by (cases req) (simp_all add: owner_public owner_authorize owner_token owner_guest owner_admin
        owner_protected owner_users create owner_codes)
qed

section \<open>Setup succeeds once\<close>

lemma owner_slot_step: "owner_slot (gw_db st) \<Longrightarrow> owner_slot (gw_db (gw_step E r st))"
  using gw_step_owner [of st E r] by (simp add: keeps_owner_def)

lemma master_row: "master_password_hash db \<noteq> None \<longleftrightarrow>
    (\<exists>u. find (\<lambda>u. u_id u = 1) (users db) = Some u \<and> u_password_hash u \<noteq> None)"
  by (auto simp: master_password_hash_def split: bind_splits)

lemma users_unique: "db_ok db \<Longrightarrow> u \<in> set (users db) \<Longrightarrow> v \<in> set (users db) \<Longrightarrow> u_id u = u_id v \<Longrightarrow> u = v"
  by (auto simp: db_ok_def table_ok_def intro: same_key_same_elem)

lemma master_stays:
  assumes "db_ok db'" "keeps_owner db db'" "owner_slot db" "master_password_hash db \<noteq> None"
  shows "master_password_hash db' = master_password_hash db"
proof -
  obtain u where u: "find (\<lambda>u. u_id u = 1) (users db) = Some u"
    using master_row [THEN iffD1, OF assms(4)] by blast
  then have u': "u \<in> set (users db')"
    using assms(2,3) find_SomeD [OF u] by (auto simp: keeps_owner_def OWNER_USER_ID_def)
  then obtain v where v: "find (\<lambda>u. u_id u = 1) (users db') = Some v"
    using find_Some_ex [of u "users db'" "\<lambda>u. u_id u = 1"] find_SomeD [OF u] by auto
  have "v = u" using users_unique [OF assms(1), of v u] find_SomeD [OF v] find_SomeD [OF u] u' by simp
  with u v show ?thesis by (simp add: master_password_hash_def)
qed

fun setup_succeeds :: "gw_env \<Rightarrow> unit \<Rightarrow> clock \<times> gw_request \<Rightarrow> gw_state \<Rightarrow> bool" where
  "setup_succeeds E _ (c, SetupReq token pw) st \<longleftrightarrow> is_ok (fst (oauth_setup E c token pw st))"
| "setup_succeeds E _ _ st \<longleftrightarrow> False"

lemma setup_succeeds_cases:
  assumes "setup_succeeds E k r st"
  obtains c token pw where "r = (c, SetupReq token pw)" "is_ok (fst (oauth_setup E c token pw st))"
  using assms by (cases "(E, k, r, st)" rule: setup_succeeds.cases) auto

lemma find_id_in: "find (\<lambda>u. u_id u = i) us = Some x \<Longrightarrow> i \<in> u_id ` set us"
  by (auto dest: find_SomeD)

lemma setup_installs:
  assumes "is_ok (fst (oauth_setup E c token pw st))"
  shows "master_password_hash (gw_db (snd (oauth_setup E c token pw st))) \<noteq> None
    \<and> gw_setup_token st = Some token \<and> MIN_PASSWORD_LEN \<le> length pw"
  using assms
  by (auto simp: oauth_setup_def set_master_password_hash_def master_password_hash_def setup_matches_iff
      user_ids_def find_snoc
      split: option.splits sum.splits if_splits dest: find_id_in)

interpretation boot: single_use "gw_step E" "\<lambda>st. db_ok (gw_db st) \<and> owner_slot (gw_db st)"
  "\<lambda>k r. True" "setup_succeeds E" "\<lambda>k st. master_password_hash (gw_db st) \<noteq> None" for E
proof unfold_locales
  fix k :: unit and r and st :: gw_state
  assume inv: "db_ok (gw_db st) \<and> owner_slot (gw_db st)"
  then show "db_ok (gw_db (gw_step E r st)) \<and> owner_slot (gw_db (gw_step E r st))"
    by (simp add: gw_step_ok owner_slot_step)
  show "master_password_hash (gw_db (gw_step E r st)) \<noteq> None" if "master_password_hash (gw_db st) \<noteq> None"
    using master_stays [OF gw_step_ok gw_step_owner _ that] inv that by simp
  show "master_password_hash (gw_db (gw_step E r st)) \<noteq> None" if "setup_succeeds E k r st"
    using that by (rule setup_succeeds_cases) (simp add: setup_installs)
  show "\<not> setup_succeeds E k r st" if "master_password_hash (gw_db st) \<noteq> None"
  proof
    assume "setup_succeeds E k r st"
    then show False by (rule setup_succeeds_cases) (use that in \<open>simp add: oauth_setup_def\<close>)
  qed
qed

section \<open>Properties\<close>

text \<open>
  C11. Whatever requests arrive, from whomever (other admins included), the owner's account row is
  never deleted, demoted or given another password, and the setup endpoint succeeds at most once:
  never again once a master password is stored.
\<close>

theorem owner_row_is_permanent:
  assumes "db_ok (gw_db st)" "owner_slot (gw_db st)"
  shows "(\<forall>u \<in> set (users (gw_db st)). u_id u = OWNER_USER_ID \<longrightarrow>
        u \<in> set (users (gw_db (run_all (gw_step E) rs st))))
    \<and> successes (setup_succeeds E ()) (gw_step E) rs st \<le> 1
    \<and> (master_password_hash (gw_db st) \<noteq> None \<longrightarrow> successes (setup_succeeds E ()) (gw_step E) rs st = 0)"
proof (intro conjI impI)
  show "\<forall>u \<in> set (users (gw_db st)). u_id u = OWNER_USER_ID \<longrightarrow>
      u \<in> set (users (gw_db (run_all (gw_step E) rs st)))"
    using assms(2)
  proof (induction rs arbitrary: st)
    case (Cons r rs)
    from gw_step_owner [of st E r] Cons.prems have "\<forall>u \<in> set (users (gw_db st)). u_id u = OWNER_USER_ID \<longrightarrow>
        u \<in> set (users (gw_db (gw_step E r st)))" by (simp add: keeps_owner_def)
    with Cons.IH [OF owner_slot_step [OF Cons.prems]] show ?case by auto
  qed simp
  show "successes (setup_succeeds E ()) (gw_step E) rs st \<le> 1"
    using boot.at_most_once [where E = E and k = "()" and rs = rs, of st] assms by simp
  show "successes (setup_succeeds E ()) (gw_step E) rs st = 0" if "master_password_hash (gw_db st) \<noteq> None"
    using boot.spent_never [where E = E and k = "()" and rs = rs, of st] assms that by simp
qed

definition demo_admin_attack :: "(clock \<times> gw_request) list" where
  "demo_admin_attack =
     [(demo_clock 1, DeleteUserReq (Some ''Bearer root'', None) 1),
      (demo_clock 2, ResetPasswordReq (Some ''Bearer root'', None) 1 ''another-password''),
      (demo_clock 3, SetupReq ''token'' ''another-password''), (demo_clock 4, SweepReq)]"

theorem owner_row_is_permanent_witness:
  "demo_user 1 ''owner'' ''admin'' None \<in> set (users (gw_db (run_all (gw_step demo_env) demo_admin_attack demo_gw)))
   \<and> successes (setup_succeeds demo_env ()) (gw_step demo_env) demo_admin_attack demo_gw = 0"
proof -
  have slot: "owner_slot (gw_db demo_gw)" by code_simp
  have u: "demo_user 1 ''owner'' ''admin'' None \<in> set (users (gw_db demo_gw))"
    by (simp add: demo_gw_def demo_db_def)
  have "master_password_hash (gw_db demo_gw) \<noteq> None" by code_simp
  with owner_row_is_permanent [OF demo_db_ok slot, of demo_env demo_admin_attack] u
  show ?thesis by (force simp: demo_user_def OWNER_USER_ID_def)
qed

end
