(* ===== verification/Account_Laws.thy ===== *)
theory Account_Laws
  imports Credentials
begin

text \<open>
  What the gateway promises about accounts: which credential authenticates as whom, what deleting an
  account and resetting its password cut off, what the lockout of the login does, and the three
  places where the code does less than it says (outstanding authorization codes survive a password
  reset, a wrong client burns an authorization code, the first account created through the admin
  route before setup becomes account 1).
\<close>

section \<open>Who a bearer is\<close>

lemma find_access_tokenD:
  "find_access_token h token now db = Some r \<Longrightarrow>
   r \<in> set (access_tokens db) \<and> at_token_hash r = h token \<and> access_active now r"
  by (auto simp: find_access_token_def dest: find_SomeD)

lemma not_in_image: "x \<notin> f ` A \<Longrightarrow> a \<in> A \<Longrightarrow> f a \<noteq> x"
  by blast

text \<open>The access row and the account a resolved principal rests on.\<close>

lemma resolve_principal_cases:
  assumes "resolve_principal h token now db = Some (uid, r, host)"
  obtains row where "row \<in> set (access_tokens db)" "at_token_hash row = h token" "access_active now row"
    "(at_user_id row = None \<and> uid = 1 \<and> r = ''admin'' \<and> host = None) \<or>
     (\<exists>u \<in> set (users db). at_user_id row = Some uid \<and> u_id u = uid \<and> u_role u = r
        \<and> u_host_user_id u = host \<and> unexpired now (u_expires_at u))"
proof -
  obtain row where row: "find_access_token h token now db = Some row"
    using assms by (auto simp: resolve_principal_def split: option.splits)
  show ?thesis
  proof (cases "at_user_id row")
    case None
    with assms row find_access_tokenD [OF row] show ?thesis
      by (intro that) (auto simp: resolve_principal_def)
  next
    case (Some i)
    then obtain u where u: "find (\<lambda>u. u_id u = i) (users db) = Some u"
      and alive: "\<not> (case u_expires_at u of None \<Rightarrow> False | Some e \<Rightarrow> e \<le> now)"
      and res: "uid = i" "r = u_role u" "host = u_host_user_id u"
      using assms row by (auto simp: resolve_principal_def split: option.splits if_splits)
    have "unexpired now (u_expires_at u)"
      using alive by (auto simp: unexpired_def not_le split: option.splits)
    with find_SomeD [OF u] Some res find_access_tokenD [OF row] show ?thesis by (intro that) auto
  qed
qed

lemma require_bearer_admin:
  assumes "require_bearer E c auth q db = Inr p" "pr_role p = Admin"
  shows "\<exists>token. extract_bearer auth q = Some token \<and> (token = static_bearer E
    \<or> (\<exists>row \<in> set (access_tokens db). at_token_hash row = hash_token E token \<and> access_active (now_ms c) row
        \<and> (at_user_id row = None \<or> (\<exists>u \<in> set (users db). at_user_id row = Some (u_id u)
              \<and> u_role u = ''admin'' \<and> unexpired (now_ms c) (u_expires_at u)))))"
proof -
  obtain token where t: "extract_bearer auth q = Some token"
    using assms(1) by (auto simp: require_bearer_def split: option.splits)
  show ?thesis
  proof (cases "resolve_principal (hash_token E) token (now_ms c) db")
    case None
    with assms(1) t have "token = static_bearer E"
      by (auto simp: require_bearer_def constant_time_eq_iff split: if_splits)
    with t show ?thesis by blast
  next
    case (Some res)
    obtain uid r host where res: "res = (uid, r, host)" by (cases res)
    from assms Some t res have "from_db_str r = Some Admin"
      by (auto simp: require_bearer_def split: option.splits)
    then have r: "r = ''admin''" by (simp add: from_db_str_iff)
    from Some res have "resolve_principal (hash_token E) token (now_ms c) db = Some (uid, r, host)" by simp
    then show ?thesis
      by (rule resolve_principal_cases) (use t r in auto)
  qed
qed

text \<open>
  C8. The admin tier is closed. If a request to an admin route is answered otherwise than with 401
  or 403, or changes anything, it carried a bearer that is the configured static token or an active
  access token, of an account that is an unexpired admin (or of the pre-multi-user owner, whose
  tokens have no account).
\<close>

theorem admin_route_needs_admin:
  assumes "fst (admin_route E c cred handler st) \<notin> {S_UNAUTHORIZED, S_FORBIDDEN}
    \<or> snd (admin_route E c cred handler st) \<noteq> st"
  shows "\<exists>token. extract_bearer (fst cred) (snd cred) = Some token \<and> (token = static_bearer E
    \<or> (\<exists>row \<in> set (access_tokens (gw_db st)). at_token_hash row = hash_token E token
        \<and> access_active (now_ms c) row
        \<and> (at_user_id row = None \<or> (\<exists>u \<in> set (users (gw_db st)). at_user_id row = Some (u_id u)
              \<and> u_role u = ''admin'' \<and> unexpired (now_ms c) (u_expires_at u)))))"
proof (cases "require_bearer E c (fst cred) (snd cred) (gw_db st)")
  case (Inl s)
  then have "s = S_UNAUTHORIZED"
    by (auto simp: require_bearer_def split: option.splits if_splits)
  with assms Inl show ?thesis by (simp add: admin_route_def protected_route_def)
next
  case (Inr p)
  have "pr_role p = Admin"
  proof (rule ccontr)
    assume "pr_role p \<noteq> Admin"
    then have "admin_route E c cred handler st = (S_FORBIDDEN, st)"
      by (simp add: admin_route_def protected_route_def Inr require_admin_def can_def)
    with assms show False by simp
  qed
  with require_bearer_admin [OF Inr] show ?thesis .
qed

theorem admin_route_needs_admin_witness:
  "\<exists>row \<in> set (access_tokens demo_db). at_token_hash row = ''root'' \<and> access_active 4 row
     \<and> (at_user_id row = None \<or> (\<exists>u \<in> set (users demo_db). at_user_id row = Some (u_id u)
           \<and> u_role u = ''admin'' \<and> unexpired 4 (u_expires_at u)))"
proof -
  let ?run = "admin_route demo_env (demo_clock 4) (Some ''Bearer root'', None) (admin_delete_user 1) demo_gw"
  have fst: "fst ?run = S_BAD_REQUEST" by code_simp
  have bearer: "extract_bearer (Some ''Bearer root'') None = Some ''root''" by code_simp
  from admin_route_needs_admin [of demo_env "demo_clock 4" "(Some ''Bearer root'', None)" "admin_delete_user 1" demo_gw]
    fst bearer show ?thesis by (simp add: demo_env_def demo_gw_def demo_clock_def)
qed

section \<open>Deleting an account\<close>

text \<open>
  C12. Deleting an account (not the owner's) leaves nothing of it: no account row, no session, code
  or token of it, none of its guests or guest codes, and no bearer resolves to it or to one of its
  guests any more.
\<close>

theorem deleted_account_is_gone:
  assumes "db_ok (gw_db st)" "uid \<in> user_ids (gw_db st)" "admin_delete_user uid st = (S_NO_CONTENT, st')"
  shows "uid \<notin> user_ids (gw_db st')
    \<and> (\<forall>u \<in> set (users (gw_db st')). u_host_user_id u \<noteq> Some uid)
    \<and> (\<forall>r \<in> set (auth_codes (gw_db st')). ac_user_id r \<noteq> Some uid)
    \<and> (\<forall>r \<in> set (refresh_tokens (gw_db st')). rt_user_id r \<noteq> Some uid)
    \<and> (\<forall>r \<in> set (access_tokens (gw_db st')). at_user_id r \<noteq> Some uid)
    \<and> (\<forall>r \<in> set (browser_sessions (gw_db st')). bs_user_id r \<noteq> Some uid)
    \<and> (\<forall>r \<in> set (device_codes (gw_db st')). dc_user_id r \<noteq> Some uid)
    \<and> (\<forall>r \<in> set (guest_codes (gw_db st')). gc_host_user_id r \<noteq> uid)
    \<and> (\<forall>h token now r host. resolve_principal h token now (gw_db st') \<noteq> Some (uid, r, host))
    \<and> (\<forall>h token now u r. resolve_principal h token now (gw_db st') \<noteq> Some (u, r, Some uid))"
proof -
  let ?db = "gw_db st'" and ?P = "\<lambda>u. u_id u = uid"
  have uid: "uid \<noteq> 1" and db: "?db = delete_users_where ?P (gw_db st)"
    using assms(3) by (auto simp: admin_delete_user_def delete_user_def OWNER_USER_ID_def split: if_splits)
  have "uid \<in> u_id ` set (filter ?P (users (gw_db st)))" using assms(2) by (auto simp: user_ids_def)
  then have gone: "uid \<in> deleted_ids ?P (gw_db st)"
    using cascade_users_superset by (fastforce simp: deleted_ids_def)
  then have no: "uid \<notin> user_ids ?db" by (simp add: db user_ids_delete)
  have ok: "db_ok ?db" unfolding db by (rule db_ok_delete [OF assms(1)])
  have fk: "fk_ok v (user_ids ?db) \<Longrightarrow> v \<noteq> Some uid" for v using no by auto
  have devices: "\<forall>r \<in> set (device_codes ?db). dc_user_id r \<noteq> Some uid"
    using gone by (auto simp: db delete_tables keeps_def)
  have hosts: "\<forall>u \<in> set (users ?db). u_host_user_id u \<noteq> Some uid"
    using ok fk by (auto simp: db_ok_def table_ok_def)
  have resolve: "resolve_principal h token now ?db \<noteq> Some (uid, r, host)" for h token now r host
    by (rule notI, erule resolve_principal_cases) (use uid no in \<open>auto simp: user_ids_def\<close>)
  have guests: "resolve_principal h token now ?db \<noteq> Some (u, r, Some uid)" for h token now u r
    by (rule notI, erule resolve_principal_cases) (use hosts in auto)
  show ?thesis
    using no hosts devices resolve guests ok fk by (fastforce simp: db_ok_def table_ok_def)
qed

theorem deleted_account_is_gone_witness:
  "2 \<notin> user_ids (gw_db (snd (admin_delete_user 2 demo_gw)))
   \<and> resolve_principal (\<lambda>s. s) ''acc'' 10 demo_db = Some (2, ''user'', None)
   \<and> resolve_principal (\<lambda>s. s) ''acc'' 10 (gw_db (snd (admin_delete_user 2 demo_gw))) \<noteq> Some (2, ''user'', None)"
proof -
  have "2 \<in> user_ids (gw_db demo_gw)" by code_simp
  moreover have "fst (admin_delete_user 2 demo_gw) = S_NO_CONTENT" by code_simp
  then have "admin_delete_user 2 demo_gw = (S_NO_CONTENT, snd (admin_delete_user 2 demo_gw))"
    by (metis prod.collapse)
  ultimately have gone: "2 \<notin> user_ids (gw_db (snd (admin_delete_user 2 demo_gw)))
      \<and> resolve_principal (\<lambda>s. s) ''acc'' 10 (gw_db (snd (admin_delete_user 2 demo_gw))) \<noteq> Some (2, ''user'', None)"
    using deleted_account_is_gone [OF demo_db_ok] by blast
  have "resolve_principal (\<lambda>s. s) ''acc'' 10 demo_db = Some (2, ''user'', None)" by code_simp
  with gone show ?thesis by blast
qed

section \<open>Resetting a password\<close>

lemma reset_tables:
  assumes "reset_password E c uid pw st = (S_NO_CONTENT, st')"
  shows "uid \<noteq> 1"
    "browser_sessions (gw_db st') = update_where (\<lambda>r. bs_user_id r = Some uid \<and> bs_revoked_at r = None)
       (\<lambda>r. r\<lparr>bs_revoked_at := Some (now_ms c)\<rparr>) (browser_sessions (gw_db st))"
    "refresh_tokens (gw_db st') = update_where (\<lambda>r. rt_user_id r = Some uid \<and> rt_revoked_at r = None)
       (\<lambda>r. r\<lparr>rt_revoked_at := Some (now_ms c)\<rparr>) (refresh_tokens (gw_db st))"
    "access_tokens (gw_db st') = update_where (\<lambda>r. at_user_id r = Some uid \<and> at_revoked_at r = None)
       (\<lambda>r. r\<lparr>at_revoked_at := Some (now_ms c)\<rparr>) (access_tokens (gw_db st))"
    "auth_codes (gw_db st') = auth_codes (gw_db st)" "oauth_clients (gw_db st') = oauth_clients (gw_db st)"
  using assms
  by (auto simp: reset_password_def set_user_password_def revoke_all_sessions_for_user_def
      revoke_all_tokens_for_user_def Let_def OWNER_USER_ID_def
      split: if_splits option.splits bool.splits prod.splits)

lemma update_revokes:
  assumes "r \<in> set (update_where (\<lambda>r. who r = x \<and> rvk r = None) f rows)"
    "\<And>r. rvk (f r) \<noteq> None" "\<And>r. who (f r) = who r" "who r = x"
  shows "rvk r \<noteq> None"
proof -
  from assms(1) obtain y where y: "r = (if who y = x \<and> rvk y = None then f y else y)"
    unfolding in_update_where by blast
  show ?thesis
  proof (cases "who y = x \<and> rvk y = None")
    case True
    then show ?thesis using y assms(2) by simp
  next
    case False
    then have "r = y" using y by (simp only: if_False)
    with False assms(4) show ?thesis by simp
  qed
qed

text \<open>
  After an admin has reset the password of an account, no session, refresh token or access token
  that existed for it still works, at any later time.
\<close>

theorem reset_revokes_sessions_and_tokens:
  assumes "reset_password E c uid pw st = (S_NO_CONTENT, st')"
  shows "find_session h token now (gw_db st') \<noteq> Some uid
    \<and> (\<forall>r. find_refresh_token h token now (gw_db st') = Some r \<longrightarrow> rt_user_id r \<noteq> Some uid)
    \<and> (\<forall>r host. resolve_principal h token now (gw_db st') \<noteq> Some (uid, r, host))"
proof (intro conjI allI impI notI)
  note t = reset_tables [OF assms]
  assume "find_session h token now (gw_db st') = Some uid"
  then obtain r where r: "r \<in> set (browser_sessions (gw_db st'))" "bs_revoked_at r = None"
    "(case bs_user_id r of Some u \<Rightarrow> u | None \<Rightarrow> 1) = uid"
    by (auto simp: find_session_def session_live_def dest: find_SomeD)
  then have "bs_user_id r = Some uid" using t(1) by (auto split: option.splits)
  with update_revokes [where who = bs_user_id and rvk = bs_revoked_at, OF r(1) [unfolded t(2)]] r(2)
  show False by simp
next
  note t = reset_tables [OF assms]
  fix r assume f: "find_refresh_token h token now (gw_db st') = Some r" and u: "rt_user_id r = Some uid"
  then have "r \<in> set (refresh_tokens (gw_db st'))" "rt_revoked_at r = None"
    by (auto simp: find_refresh_token_def refresh_active_def dest: find_SomeD)
  with update_revokes [where who = rt_user_id and rvk = rt_revoked_at and r = r and x = "Some uid"] u t(3)
  show False by fastforce
next
  note t = reset_tables [OF assms]
  fix ro host assume "resolve_principal h token now (gw_db st') = Some (uid, ro, host)"
  then obtain r where r: "r \<in> set (access_tokens (gw_db st'))" "access_active now r" "at_user_id r = Some uid"
    by (rule resolve_principal_cases) (use t(1) in auto)
  then have "at_revoked_at r = None" by (simp add: access_active_def)
  with update_revokes [where who = at_user_id and rvk = at_revoked_at and r = r and x = "Some uid"] r t(4)
  show False by fastforce
qed

theorem reset_revokes_sessions_and_tokens_witness:
  "find_session (\<lambda>s. s) ''sess'' 20 (gw_db (snd (reset_password demo_env (demo_clock 10) 2 ''new-password-1'' demo_gw))) \<noteq> Some 2
   \<and> find_session (\<lambda>s. s) ''sess'' 20 (gw_db demo_gw) = Some 2"
proof
  have "fst (reset_password demo_env (demo_clock 10) 2 ''new-password-1'' demo_gw) = S_NO_CONTENT" by code_simp
  then have "reset_password demo_env (demo_clock 10) 2 ''new-password-1'' demo_gw =
      (S_NO_CONTENT, snd (reset_password demo_env (demo_clock 10) 2 ''new-password-1'' demo_gw))"
    by (metis prod.collapse)
  from reset_revokes_sessions_and_tokens [OF this]
  show "find_session (\<lambda>s. s) ''sess'' 20 (gw_db (snd (reset_password demo_env (demo_clock 10) 2
      ''new-password-1'' demo_gw))) \<noteq> Some 2" by blast
  show "find_session (\<lambda>s. s) ''sess'' 20 (gw_db demo_gw) = Some 2" by code_simp
qed

text \<open>A mint into a consistent database with fresh hashes succeeds.\<close>

lemma mint_pair_succeeds:
  assumes "cid \<in> client_ids db" "uid \<in> user_ids db"
    "hash_token E (fp_refresh fp) \<notin> refresh_hashes db"
    "hash_token E (fp_access fp) \<notin> at_token_hash ` set (access_tokens db)"
  shows "is_ok (fst (mint_pair E c fp cid uid fam db))"
  using assms
  by (simp add: mint_pair_def mint_refresh_token_def mint_access_token_for_user_def refresh_hashes_def)

lemma code_grant_succeeds:
  assumes "db_ok db" "x \<in> set (auth_codes db)" "auth_code_live (hash_token E) code (now_ms c) x"
    "ac_user_id x = Some uid"
    "tf_code form = Some code" "tf_client_id form = Some (ac_client_id x)"
    "tf_redirect_uri form = Some (ac_redirect_uri x)"
    "tf_code_verifier form = Some v" "pkce_s256 E v = ac_code_challenge x"
    "hash_token E (fp_refresh fp) \<notin> refresh_hashes db"
    "hash_token E (fp_access fp) \<notin> at_token_hash ` set (access_tokens db)"
  shows "is_ok (fst (grant_authorization_code E c fp form db))"
proof -
  obtain y where y: "find (auth_code_live (hash_token E) code (now_ms c)) (auth_codes db) = Some y"
    using find_Some_ex [OF assms(2), of "auth_code_live (hash_token E) code (now_ms c)"] assms(3) by blast
  have tab: "table_ok ac_code_hash (\<lambda>r. ac_client_id r \<in> client_ids db \<and> fk_ok (ac_user_id r) (user_ids db)) (auth_codes db)"
    using assms(1) by (simp add: db_ok_def)
  have "y = x" using table_ok_unique [OF tab _ assms(2), of y] find_SomeD [OF y] assms(3) by (auto simp: auth_code_live_def)
  let ?db = "db\<lparr>auth_codes := update_where (auth_code_live (hash_token E) code (now_ms c))
      (\<lambda>r. r\<lparr>ac_consumed_at := Some (now_ms c)\<rparr>) (auth_codes db)\<rparr>"
  have "ac_client_id x \<in> client_ids db" "uid \<in> user_ids db"
    using tab assms(2,4) by (auto simp: table_ok_def)
  then have "is_ok (fst (mint_pair E c fp (ac_client_id x) uid None ?db))"
    using assms(10,11) by (intro mint_pair_succeeds) simp_all
  with y \<open>y = x\<close> assms(4-9) show ?thesis
    by (simp add: grant_authorization_code_def consume_auth_code_def ct_eq_str_iff user_or_owner_def)
qed

text \<open>
  An authorization code issued for the account before the reset is not among what a password
  reset cuts off: until it expires, it is still exchanged for a working token pair of the account.
\<close>

theorem reset_leaves_authorization_codes:
  assumes "db_ok (gw_db st)" "reset_password E c uid pw st = (S_NO_CONTENT, st')"
    "x \<in> set (auth_codes (gw_db st))" "auth_code_live (hash_token E) code (now_ms c') x"
    "ac_user_id x = Some uid" "tf_grant_type form = ''authorization_code''"
    "tf_code form = Some code" "tf_client_id form = Some (ac_client_id x)"
    "tf_redirect_uri form = Some (ac_redirect_uri x)"
    "tf_code_verifier form = Some v" "pkce_s256 E v = ac_code_challenge x"
    "hash_token E (fp_refresh fp) \<notin> refresh_hashes (gw_db st)"
    "hash_token E (fp_access fp) \<notin> at_token_hash ` set (access_tokens (gw_db st))"
  shows "is_ok (fst (token_grant E c' fp form (gw_db st')))"
proof -
  note t = reset_tables [OF assms(2)]
  have "db_ok (gw_db st')" using sound_reset [of "{}" st E c uid pw] assms(1,2) by (simp add: sound_def)
  moreover have "refresh_hashes (gw_db st') = refresh_hashes (gw_db st)"
    by (simp add: refresh_hashes_def t(3) image_update_where)
  moreover have "at_token_hash ` set (access_tokens (gw_db st')) = at_token_hash ` set (access_tokens (gw_db st))"
    by (simp add: t(4) image_update_where)
  ultimately show ?thesis
    using assms(3-13) code_grant_succeeds [where db = "gw_db st'" and x = x and E = E and code = code and c = c'
        and uid = uid and form = form and v = v and fp = fp] by (simp add: t(5))
qed

theorem reset_leaves_authorization_codes_witness:
  "is_ok (fst (token_grant demo_env (demo_clock 20) \<lparr>fp_refresh = ''r1'', fp_access = ''a1''\<rparr>
     (demo_form ''authorization_code'')
     (gw_db (snd (reset_password demo_env (demo_clock 10) 2 ''new-password-1'' demo_gw)))))"
proof -
  let ?run = "reset_password demo_env (demo_clock 10) 2 ''new-password-1'' demo_gw"
  let ?x = "\<lparr>ac_code_hash = ''code'', ac_client_id = ''web'', ac_redirect_uri = ''cb'',
        ac_code_challenge = ''v'', ac_issued_at = 0, ac_expires_at = 600000, ac_consumed_at = None,
        ac_user_id = Some 2\<rparr>"
  have "fst ?run = S_NO_CONTENT" by code_simp
  then have run: "?run = (S_NO_CONTENT, snd ?run)" by (metis prod.collapse)
  have x: "?x \<in> set (auth_codes (gw_db demo_gw))" by (simp add: demo_gw_def demo_db_def)
  have live: "auth_code_live (hash_token demo_env) ''code'' (now_ms (demo_clock 20)) ?x"
    by (simp add: auth_code_live_def demo_env_def demo_clock_def)
  show ?thesis
    by (rule reset_leaves_authorization_codes [OF demo_db_ok run x live, where v = "''v''"])
      (simp_all add: demo_form_def demo_env_def pkce_s256_def refresh_hashes_def demo_gw_def demo_db_def)
qed

section \<open>Exchanging an authorization code\<close>



text \<open>
  Presenting a credential with the wrong client: a live refresh token is left exactly as it is
  (the code says that such an attempt must not burn it), but a live authorization code is consumed
  before the client is compared, so that its rightful client can no longer exchange it.
\<close>

theorem wrong_client:
  assumes "db_ok db" "tf_client_id form = Some cid"
  shows "(\<forall>r token. r \<in> set (refresh_tokens db) \<longrightarrow> rt_token_hash r = hash_token E token \<longrightarrow>
        tf_refresh_token form = Some token \<longrightarrow> rt_client_id r \<noteq> cid \<longrightarrow>
        snd (grant_refresh_token E c fp form db) = db)
    \<and> (\<forall>x code. x \<in> set (auth_codes db) \<longrightarrow> auth_code_live (hash_token E) code (now_ms c) x \<longrightarrow>
        tf_code form = Some code \<longrightarrow> tf_redirect_uri form \<noteq> None \<longrightarrow> tf_code_verifier form \<noteq> None \<longrightarrow>
        ac_client_id x \<noteq> cid \<longrightarrow>
        \<not> is_ok (fst (grant_authorization_code E c fp form db))
        \<and> code_spent (hash_token E code) (snd (grant_authorization_code E c fp form db)))"
proof (intro conjI allI impI)
  fix r token
  assume r: "r \<in> set (refresh_tokens db)" "rt_token_hash r = hash_token E token"
    "tf_refresh_token form = Some token" "rt_client_id r \<noteq> cid"
  have tab: "table_ok rt_token_hash (\<lambda>r. rt_client_id r \<in> client_ids db \<and> fk_ok (rt_user_id r) (user_ids db)) (refresh_tokens db)"
    using assms(1) by (simp add: db_ok_def)
  have no: "rt_client_id y \<noteq> cid" if "y \<in> set (refresh_tokens db)" "rt_token_hash y = hash_token E token" for y
    using table_ok_unique [OF tab that(1) r(1)] that(2) r(2,4) by auto
  then have "find (refresh_live (hash_token E) token cid (now_ms c)) (refresh_tokens db) = None"
    by (auto simp: find_None_iff refresh_live_def)
  moreover have "detect_refresh_reuse (hash_token E) token cid g (now_ms c) db = None" for g
    using no by (auto simp: detect_refresh_reuse_def find_None_iff Let_def)
  ultimately show "snd (grant_refresh_token E c fp form db) = db"
    using r(3) assms(2) by (simp add: grant_refresh_token_def consume_refresh_token_def)
next
  fix x code
  assume x: "x \<in> set (auth_codes db)" "auth_code_live (hash_token E) code (now_ms c) x"
    "tf_code form = Some code" "tf_redirect_uri form \<noteq> None" "tf_code_verifier form \<noteq> None" "ac_client_id x \<noteq> cid"
  obtain y where y: "find (auth_code_live (hash_token E) code (now_ms c)) (auth_codes db) = Some y"
    using find_Some_ex [OF x(1), of "auth_code_live (hash_token E) code (now_ms c)"] x(2) by blast
  have tab: "table_ok ac_code_hash (\<lambda>r. ac_client_id r \<in> client_ids db \<and> fk_ok (ac_user_id r) (user_ids db)) (auth_codes db)"
    using assms(1) by (simp add: db_ok_def)
  have "y = x" using table_ok_unique [OF tab _ x(1), of y] find_SomeD [OF y] x(2) by (auto simp: auth_code_live_def)
  then obtain row db1 where con: "consume_auth_code (hash_token E) code (now_ms c) db = (Some row, db1)"
    "ac_client_id row \<noteq> cid" using y x(6) by (auto simp: consume_auth_code_def)
  have "grant_authorization_code E c fp form db =
      (Inl (invalid_grant ''client_id does not match the authorization code''), db1)"
    using con x(3-5) assms(2) by (auto simp: grant_authorization_code_def)
  with consume_auth_code_spends [OF assms(1) con(1)]
  show "\<not> is_ok (fst (grant_authorization_code E c fp form db))"
    "code_spent (hash_token E code) (snd (grant_authorization_code E c fp form db))" by simp_all
qed

theorem wrong_client_witness:
  "code_spent ''code'' (snd (grant_authorization_code demo_env (demo_clock 20) \<lparr>fp_refresh = ''r'', fp_access = ''a''\<rparr>
     ((demo_form ''authorization_code'')\<lparr>tf_client_id := Some ''cli''\<rparr>) demo_db))"
proof -
  let ?form = "(demo_form ''authorization_code'')\<lparr>tf_client_id := Some ''cli''\<rparr>"
  let ?x = "\<lparr>ac_code_hash = ''code'', ac_client_id = ''web'', ac_redirect_uri = ''cb'',
        ac_code_challenge = ''v'', ac_issued_at = 0, ac_expires_at = 600000, ac_consumed_at = None,
        ac_user_id = Some 2\<rparr>"
  have ok: "db_ok demo_db" using demo_db_ok by (simp add: demo_gw_def)
  have form: "tf_client_id ?form = Some ''cli''" by simp
  have x: "?x \<in> set (auth_codes demo_db)" "auth_code_live (hash_token demo_env) ''code'' (now_ms (demo_clock 20)) ?x"
    "tf_code ?form = Some ''code''" "tf_redirect_uri ?form \<noteq> None" "tf_code_verifier ?form \<noteq> None"
    "ac_client_id ?x \<noteq> ''cli''"
    by (simp_all add: demo_db_def demo_form_def auth_code_live_def demo_env_def demo_clock_def)
  from wrong_client [where E = demo_env and c = "demo_clock 20" and fp = "\<lparr>fp_refresh = ''r'', fp_access = ''a''\<rparr>",
      OF ok form, THEN conjunct2, rule_format, OF x]
  show ?thesis by (simp add: demo_env_def)
qed

section \<open>The login lockout\<close>

record login_try =
  lt_clock :: clock
  lt_next :: "string option"
  lt_username :: "string option"
  lt_password :: string
  lt_token :: string

definition try_login :: "gw_env \<Rightarrow> ip_addr option \<Rightarrow> login_try \<Rightarrow> gw_state \<Rightarrow> (login_err + string \<times> string) \<times> gw_state" where
  "try_login E ip l st = login_post E (lt_clock l) ip (lt_next l) (lt_username l) (lt_password l) (lt_token l) st"

definition login_run :: "gw_env \<Rightarrow> ip_addr option \<Rightarrow> login_try list \<Rightarrow> gw_state \<Rightarrow> gw_state" where
  "login_run E ip ls st = fold (\<lambda>l st. snd (try_login E ip l st)) ls st"

definition bad_login :: "gw_env \<Rightarrow> gateway_db \<Rightarrow> login_try \<Rightarrow> bool" where
  "bad_login E db l \<longleftrightarrow> (\<exists>uid. check_login E (lt_username l) (lt_password l) db = Some (uid, False))"

definition unlocked :: "ip_addr \<Rightarrow> login_limiter \<Rightarrow> bool" where
  "unlocked ip m \<longleftrightarrow> (case m ip of None \<Rightarrow> True | Some a \<Rightarrow> at_locked_until a = None)"

lemma bad_login_step:
  assumes "bad_login E (gw_db st) l" "unlocked (peer_ip ip) (gw_login st)"
  shows "snd (try_login E ip l st) =
    st\<lparr>gw_login := record_failure (peer_ip ip) (now_mono (lt_clock l)) (gw_login st)\<rparr>"
  using assms
  by (auto simp: try_login_def login_post_def bad_login_def unlocked_def login_check_def Let_def
      split: option.splits)

lemma failed_run:
  assumes "gw_login st (peer_ip ip) = None" "\<forall>l \<in> set ls. bad_login E (gw_db st) l" "length ls \<le> 5"
  shows "login_run E ip ls st =
    st\<lparr>gw_login := failures_at (peer_ip ip) (map (\<lambda>l. now_mono (lt_clock l)) ls) (gw_login st)\<rparr>"
  using assms(2,3)
proof (induction ls rule: rev_induct)
  case Nil
  then show ?case by (simp add: login_run_def)
next
  case (snoc l ls)
  let ?ts = "map (\<lambda>l. now_mono (lt_clock l)) ls"
  let ?st = "st\<lparr>gw_login := failures_at (peer_ip ip) ?ts (gw_login st)\<rparr>"
  have IH: "login_run E ip ls st = ?st" using snoc by simp
  have "length ?ts < 5" using snoc.prems(2) by simp
  from failures_below [where m = "gw_login st", OF assms(1) this] have "unlocked (peer_ip ip) (gw_login ?st)"
    by (simp add: unlocked_def)
  moreover have "bad_login E (gw_db ?st) l" using snoc.prems(1) by simp
  ultimately show ?case
    using bad_login_step [of E ?st l ip] IH by (simp add: login_run_def failures_at_append)
qed

lemma failures_at_other: "j \<noteq> ip \<Longrightarrow> failures_at ip ts m j = m j"
  by (induction ip ts m rule: failures_at.induct) (simp_all add: login_check_other)

text \<open>
  C13. After five wrong passwords in a row from one address, with whatever user names and however
  spaced, every login from that address is answered 429 for the next sixty seconds, even one with
  the right password, and changes nothing; the failures leave the database and every other
  address's standing alone.
\<close>

theorem five_failures_lock_out:
  assumes "gw_login st (peer_ip ip) = None" "length ls = 5" "\<forall>l \<in> set ls. bad_login E (gw_db st) l"
    and "st5 = login_run E ip ls st" "now_mono (lt_clock l) < now_mono (lt_clock (last ls)) + LOCKOUT"
  shows "(\<exists>msg. try_login E ip l st5 = (Inl (LoginError S_TOO_MANY_REQUESTS msg), st5))
    \<and> gw_db st5 = gw_db st \<and> (\<forall>j. j \<noteq> peer_ip ip \<longrightarrow> gw_login st5 j = gw_login st j)"
proof -
  let ?f = "\<lambda>l. now_mono (lt_clock l)"
  obtain xs x where xs: "ls = xs @ [x]" "length xs = 4" using assms(2)
    by (metis append_butlast_last_id length_butlast length_0_conv add_diff_cancel_right' numeral_eq_Suc
        pred_numeral_simps(3) diff_Suc_1 nat.simps(3) Suc_numeral semiring_norm(5) eval_nat_numeral(3))
  have st5: "st5 = st\<lparr>gw_login := failures_at (peer_ip ip) (map ?f ls) (gw_login st)\<rparr>"
    using failed_run [OF assms(1,3)] assms(2,4) by simp
  have "gw_login st5 (peer_ip ip) = Some \<lparr>at_failures = 5, at_locked_until = Some (?f x + LOCKOUT)\<rparr>"
    using fifth_failure_locks [where m = "gw_login st" and ts = "map ?f xs" and t = "?f x", OF assms(1)] xs
    by (simp add: st5)
  moreover have "?f l < ?f x + LOCKOUT" using assms(5) xs(1) by simp
  ultimately have "\<exists>msg. try_login E ip l st5 = (Inl (LoginError S_TOO_MANY_REQUESTS msg), st5)"
    by (simp add: try_login_def login_post_def login_check_def Let_def)
  then show ?thesis by (simp add: st5 failures_at_other)
qed

definition demo_try :: "int \<Rightarrow> string \<Rightarrow> login_try" where
  "demo_try t pw = \<lparr>lt_clock = demo_clock t, lt_next = None, lt_username = Some ''ann'', lt_password = pw, lt_token = ''s2''\<rparr>"

theorem five_failures_lock_out_witness:
  "(\<exists>msg. fst (try_login demo_env None (demo_try 6 ''password-1234'')
      (login_run demo_env None (map (\<lambda>t. demo_try t ''guess'') [1, 2, 3, 4, 5]) demo_gw))
     = Inl (LoginError S_TOO_MANY_REQUESTS msg))
   \<and> is_ok (fst (try_login demo_env None (demo_try 6 ''password-1234'') demo_gw))"
proof
  let ?ls = "map (\<lambda>t. demo_try t ''guess'') [1, 2, 3, 4, 5]"
  have bad: "\<forall>l \<in> set ?ls. bad_login demo_env (gw_db demo_gw) l"
    by (simp add: bad_login_def check_login_def demo_try_def demo_env_def demo_gw_def demo_db_def
        demo_user_def find_login_user_def)
  have none: "gw_login demo_gw (peer_ip None) = None" by (simp add: demo_gw_def)
  have soon: "now_mono (lt_clock (demo_try 6 ''password-1234'')) < now_mono (lt_clock (last ?ls)) + LOCKOUT"
    by (simp add: demo_try_def demo_clock_def LOCKOUT_def)
  have five: "length ?ls = 5" by simp
  from five_failures_lock_out [OF none five bad refl soon]
  show "\<exists>msg. fst (try_login demo_env None (demo_try 6 ''password-1234'') (login_run demo_env None ?ls demo_gw))
      = Inl (LoginError S_TOO_MANY_REQUESTS msg)" by auto
  show "is_ok (fst (try_login demo_env None (demo_try 6 ''password-1234'') demo_gw))" by code_simp
qed

section \<open>Account ids\<close>

text \<open>
  On a gateway without accounts (before setup) the first account an admin creates, with the
  static token, takes id 1 whatever its role. It is then the owner for the rest of the code: setup
  is answered 410 for good, and the account can neither be deleted nor have its password reset.
\<close>

theorem first_account_takes_owner_slot:
  assumes "users (gw_db st) = []" "create_user E c form st = (S_CREATED, st')"
  shows "(\<exists>u \<in> set (users (gw_db st')). u_id u = OWNER_USER_ID \<and> u_role u = cu_role form)
    \<and> (\<exists>msg. fst (oauth_setup E c' token pw st') = Inl (S_GONE, msg))
    \<and> fst (admin_delete_user OWNER_USER_ID st') = S_BAD_REQUEST
    \<and> fst (reset_password E c' OWNER_USER_ID pw st') = S_BAD_REQUEST"
proof -
  obtain u where u: "users (gw_db st') = [u]" "u_id u = 1" "u_role u = cu_role form" "u_password_hash u \<noteq> None"
    using assms
    by (auto simp: create_user_def create_account_def insert_user_def next_rowid_def Let_def
        split: if_splits option.splits sum.splits)
  then have "master_password_hash (gw_db st') \<noteq> None" by (simp add: master_password_hash_def)
  with u show ?thesis
    by (auto simp: oauth_setup_def admin_delete_user_def reset_password_def OWNER_USER_ID_def)
qed

theorem first_account_takes_owner_slot_witness:
  "\<exists>msg. fst (oauth_setup demo_env (demo_clock 1) ''token'' ''password-1234''
     (snd (create_user demo_env (demo_clock 0)
        \<lparr>cu_username = ''kid'', cu_display_name = None, cu_password = ''password-1234'', cu_role = ''user''\<rparr>
        (demo_gw\<lparr>gw_db := empty_db, gw_setup_token := Some ''token''\<rparr>)))) = Inl (S_GONE, msg)"
proof -
  let ?form = "\<lparr>cu_username = ''kid'', cu_display_name = None, cu_password = ''password-1234'', cu_role = ''user''\<rparr>"
  let ?st = "demo_gw\<lparr>gw_db := empty_db, gw_setup_token := Some ''token''\<rparr>"
  have "fst (create_user demo_env (demo_clock 0) ?form ?st) = S_CREATED" by code_simp
  then have "create_user demo_env (demo_clock 0) ?form ?st =
      (S_CREATED, snd (create_user demo_env (demo_clock 0) ?form ?st))" by (metis prod.collapse)
  moreover have "users (gw_db ?st) = []" by (simp add: empty_db_def)
  ultimately show ?thesis using first_account_takes_owner_slot by blast
qed

lemma create_user_succeeds:
  assumes "trim (cu_username form) \<noteq> []" "cu_role form = ''admin'' \<or> cu_role form = ''user''"
    "MIN_PASSWORD_LEN \<le> length (cu_password form)" "pw_hash E (cu_password form) = Some phc"
    "Some (trim (cu_username form)) \<notin> u_username ` set (users (gw_db st))"
  shows "fst (create_user E c form st) = S_CREATED"
  using assms
  by (auto simp: create_user_def create_account_def insert_user_def Let_def split: if_splits)

text \<open>
  Account ids are reused: once the newest account is deleted, the next one created gets its id,
  and with it whatever is keyed by account id outside this database, such as the deleted account's
  room with its queue (\<open>room_id\<close>).
\<close>

theorem deleted_id_is_reused:
  assumes "uid - 1 \<in> user_ids (gw_db st')" "\<forall>i \<in> user_ids (gw_db st). i \<le> uid"
    and "admin_delete_user uid st = (S_NO_CONTENT, st')" "create_user E c form st' = (S_CREATED, st'')"
  shows "\<exists>u \<in> set (users (gw_db st'')). u_id u = uid \<and> u_username u = Some (trim (cu_username form))
    \<and> u \<notin> set (users (gw_db st'))
    \<and> room_id \<lparr>pr_user_id = u_id u, pr_role = User, pr_host_user_id = u_host_user_id u\<rparr> = uid"
proof -
  have db: "gw_db st' = delete_users_where (\<lambda>u. u_id u = uid) (gw_db st)"
    using assms(3) by (auto simp: admin_delete_user_def delete_user_def split: if_splits)
  have gone: "uid \<notin> user_ids (gw_db st')"
  proof
    assume "uid \<in> user_ids (gw_db st')"
    then have "uid \<in> user_ids (gw_db st)" and no: "uid \<notin> deleted_ids (\<lambda>u. u_id u = uid) (gw_db st)"
      by (simp_all add: db user_ids_delete)
    then have "uid \<in> u_id ` set (filter (\<lambda>u. u_id u = uid) (users (gw_db st)))" by (auto simp: user_ids_def)
    with no show False unfolding deleted_ids_def using cascade_users_superset by blast
  qed
  have below: "i < uid" if "i \<in> user_ids (gw_db st')" for i
  proof -
    have "i \<in> user_ids (gw_db st)" using that by (simp add: db user_ids_delete)
    with assms(2) have "i \<le> uid" by blast
    moreover have "i \<noteq> uid" using that gone by blast
    ultimately show ?thesis by simp
  qed
  have mx: "Max (user_ids (gw_db st')) = uid - 1"
    using below assms(1) by (intro Max_eqI) (force simp: user_ids_def)+
  have next_id: "next_rowid (map u_id (users (gw_db st'))) = uid"
    using assms(1) mx by (auto simp: next_rowid_def user_ids_def)
  have "\<exists>u. users (gw_db st'') = users (gw_db st') @ [u] \<and> u_id u = uid \<and> u_host_user_id u = None
      \<and> u_username u = Some (trim (cu_username form))"
    using assms(4) next_id
    by (auto simp: create_user_def create_account_def insert_user_def Let_def
        split: if_splits option.splits sum.splits)
  then obtain u where "users (gw_db st'') = users (gw_db st') @ [u]" "u_id u = uid" "u_host_user_id u = None"
    "u_username u = Some (trim (cu_username form))" by blast
  moreover have "u \<notin> set (users (gw_db st'))" using gone calculation(2) by (auto simp: user_ids_def)
  ultimately show ?thesis by (intro bexI [of _ u]) (simp_all add: room_id_def)
qed

theorem deleted_id_is_reused_witness:
  "\<exists>u \<in> set (users (gw_db (snd (create_user demo_env (demo_clock 0)
        \<lparr>cu_username = ''bob'', cu_display_name = None, cu_password = ''password-1234'', cu_role = ''user''\<rparr>
        (snd (admin_delete_user 2 demo_gw)))))). u_id u = 2 \<and> u_username u = Some ''bob''"
proof -
  let ?form = "\<lparr>cu_username = ''bob'', cu_display_name = None, cu_password = ''password-1234'', cu_role = ''user''\<rparr>"
  let ?st1 = "snd (admin_delete_user 2 demo_gw)"
  have st1: "users (gw_db ?st1) = [demo_user 1 ''owner'' ''admin'' None]" by code_simp
  have "fst (admin_delete_user 2 demo_gw) = S_NO_CONTENT" by code_simp
  then have del: "admin_delete_user 2 demo_gw = (S_NO_CONTENT, ?st1)" by (metis prod.collapse)
  have "fst (create_user demo_env (demo_clock 0) ?form ?st1) = S_CREATED"
    by (rule create_user_succeeds [where phc = "''password-1234''"])
      (simp_all add: st1 demo_user_def demo_env_def MIN_PASSWORD_LEN_def trim_def is_ws_def byte_def)
  then have create: "create_user demo_env (demo_clock 0) ?form ?st1 =
      (S_CREATED, snd (create_user demo_env (demo_clock 0) ?form ?st1))" by (metis prod.collapse)
  have prev: "(2::int) - 1 \<in> user_ids (gw_db ?st1)" by (simp add: user_ids_def st1 demo_user_def)
  have max: "\<forall>i \<in> user_ids (gw_db demo_gw). i \<le> 2"
    by (simp add: user_ids_def demo_gw_def demo_db_def demo_user_def)
  have "trim ''bob'' = ''bob''" by code_simp
  with deleted_id_is_reused [OF prev max del create] show ?thesis by auto
qed

end
