(* ===== verification/Playlists.thy ===== *)
theory Playlists
  imports Accounts Db_Integrity
begin

text \<open>
  Gateway-owned playlists (\<open>music-gateway/src/playlists\<close>): the statements of \<open>PlaylistStore\<close> on the
  tables \<open>playlists\<close> and \<open>playlist_tracks\<close> (migration 0007), the handlers of \<open>/v1/playlists\<close> and
  their composition \<open>playlist_step\<close>. The random id of a new playlist and the clock are arguments.
  A transaction that fails leaves the tables as they were. \<open>ORDER BY\<close> keeps the table's order
  among equal keys.

  Lemmas: the membership of a playlist is an ordered list in which positions count up from zero
  (\<open>playlists_ok\<close>, kept by every request and by the deletion of users), and a membership write
  replaces or extends that list; what a caller may not read has no influence on its answers, and
  nobody changes a playlist of somebody else.
\<close>

section \<open>The store\<close>

record playlist_info =
  pi_id :: string
  pi_owner_user_id :: int
  pi_name :: string
  pi_visibility :: string
  pi_song_count :: int
  pi_created_ms :: int
  pi_updated_ms :: int

datatype track_mode = ModeReplace | ModeAppend

record track_write =
  tw_added :: nat
  tw_skipped :: nat

definition tracks_of :: "string \<Rightarrow> gateway_db \<Rightarrow> playlist_track_row list" where
  "tracks_of pid db = filter (\<lambda>t. pt_playlist_id t = pid) (playlist_tracks db)"

definition row_to_playlist :: "gateway_db \<Rightarrow> playlist_row \<Rightarrow> playlist_info" where
  "row_to_playlist db p =
     \<lparr>pi_id = pl_id p, pi_owner_user_id = pl_owner_user_id p, pi_name = pl_name p,
      pi_visibility = pl_visibility p, pi_song_count = int (length (tracks_of (pl_id p) db)),
      pi_created_ms = pl_created_ms p, pi_updated_ms = pl_updated_ms p\<rparr>"

definition pls_create :: "string \<Rightarrow> int \<Rightarrow> string \<Rightarrow> int \<Rightarrow> gateway_db \<Rightarrow> sql_error + playlist_info \<times> gateway_db" where
  "pls_create pid owner_id name now db =
     (if pid \<in> pl_id ` set (playlists db) then Inl SqlUnique
      else if owner_id \<notin> user_ids db then Inl SqlForeignKey
      else Inr (\<lparr>pi_id = pid, pi_owner_user_id = owner_id, pi_name = name, pi_visibility = ''private'',
                 pi_song_count = 0, pi_created_ms = now, pi_updated_ms = now\<rparr>,
                db\<lparr>playlists := playlists db @
                  [\<lparr>pl_id = pid, pl_owner_user_id = owner_id, pl_name = name,
                    pl_visibility = ''private'', pl_created_ms = now, pl_updated_ms = now\<rparr>]\<rparr>))"

definition pls_list_visible :: "int \<Rightarrow> gateway_db \<Rightarrow> playlist_info list" where
  "pls_list_visible uid db =
     map (row_to_playlist db)
       (sort_key (\<lambda>p. - pl_updated_ms p)
         (filter (\<lambda>p. pl_owner_user_id p = uid \<or> pl_visibility p = ''shared'') (playlists db)))"

definition pls_get :: "string \<Rightarrow> gateway_db \<Rightarrow> playlist_info option" where
  "pls_get pid db = map_option (row_to_playlist db) (find (\<lambda>p. pl_id p = pid) (playlists db))"

definition pls_track_ids :: "string \<Rightarrow> gateway_db \<Rightarrow> string list" where
  "pls_track_ids pid db = map pt_track_id (sort_key pt_position (tracks_of pid db))"

definition pls_patch ::
  "string \<Rightarrow> string option \<Rightarrow> string option \<Rightarrow> int \<Rightarrow> gateway_db \<Rightarrow> sql_error + playlist_info option \<times> gateway_db" where
  "pls_patch pid name visibility now db =
     (if (\<exists>p \<in> set (playlists db). pl_id p = pid)
         \<and> (case visibility of Some v \<Rightarrow> v \<noteq> ''private'' \<and> v \<noteq> ''shared'' | None \<Rightarrow> False)
      then Inl SqlCheck
      else let db1 = db\<lparr>playlists := update_where (\<lambda>p. pl_id p = pid)
                 (\<lambda>p. p\<lparr>pl_name := (case name of Some n \<Rightarrow> n | None \<Rightarrow> pl_name p),
                       pl_visibility := (case visibility of Some v \<Rightarrow> v | None \<Rightarrow> pl_visibility p),
                       pl_updated_ms := now\<rparr>) (playlists db)\<rparr>
           in Inr (pls_get pid db1, db1))"

text \<open>The insertions of \<open>set_tracks\<close>, one at a time.\<close>

fun insert_tracks :: "string \<Rightarrow> int \<Rightarrow> string list \<Rightarrow> gateway_db \<Rightarrow> sql_error + gateway_db" where
  "insert_tracks pid pos [] db = Inr db"
| "insert_tracks pid pos (t # ts) db =
     (if (pid, pos) \<in> (\<lambda>r. (pt_playlist_id r, pt_position r)) ` set (playlist_tracks db) then Inl SqlUnique
      else if pid \<notin> pl_id ` set (playlists db) then Inl SqlForeignKey
      else insert_tracks pid (pos + 1) ts
             (db\<lparr>playlist_tracks := playlist_tracks db @
                [\<lparr>pt_playlist_id = pid, pt_position = pos, pt_track_id = t\<rparr>]\<rparr>))"

definition next_position :: "string \<Rightarrow> gateway_db \<Rightarrow> int" where
  "next_position pid db =
     (if tracks_of pid db = [] then 0 else Max (set (map pt_position (tracks_of pid db))) + 1)"

definition pls_set_tracks ::
  "string \<Rightarrow> string list \<Rightarrow> track_mode \<Rightarrow> int \<Rightarrow> gateway_db \<Rightarrow> sql_error + track_write \<times> gateway_db" where
  "pls_set_tracks pid track_ids mode now db =
     (let (start, to_insert, db1) =
            (case mode of
               ModeReplace \<Rightarrow>
                 (0, track_ids, db\<lparr>playlist_tracks := filter (\<lambda>t. pt_playlist_id t \<noteq> pid) (playlist_tracks db)\<rparr>)
             | ModeAppend \<Rightarrow>
                 (next_position pid db,
                  dedup_by (\<lambda>t. t) (pt_track_id ` set (tracks_of pid db)) track_ids, db))
      in case insert_tracks pid start to_insert db1 of
           Inl e \<Rightarrow> Inl e
         | Inr db2 \<Rightarrow>
             let added = length to_insert;
                 db3 = (if 0 < added \<or> mode = ModeReplace
                        then db2\<lparr>playlists := update_where (\<lambda>p. pl_id p = pid)
                                   (\<lambda>p. p\<lparr>pl_updated_ms := now\<rparr>) (playlists db2)\<rparr>
                        else db2)
             in Inr (\<lparr>tw_added = added, tw_skipped = length track_ids - added\<rparr>, db3))"

definition pls_delete :: "string \<Rightarrow> gateway_db \<Rightarrow> gateway_db" where
  "pls_delete pid db =
     db\<lparr>playlists := filter (\<lambda>p. pl_id p \<noteq> pid) (playlists db),
        playlist_tracks := filter (\<lambda>t. pt_playlist_id t \<noteq> pid
          \<or> pid \<notin> pl_id ` set (playlists db)) (playlist_tracks db)\<rparr>"

section \<open>The handlers\<close>

definition MAX_NAME_LEN :: nat where
  "MAX_NAME_LEN = 200"

definition MAX_TRACKS :: nat where
  "MAX_TRACKS = 10000"

record playlist_wire =
  pw_info :: playlist_info
  pw_owned :: bool

datatype playlist_answer =
    PlError status string
  | PlList "playlist_wire list"
  | PlCreated playlist_wire
  | PlDetail playlist_wire "string list"
  | PlRow playlist_wire
  | PlWrite track_write
  | PlNoContent

definition playlist_json :: "playlist_info \<Rightarrow> int \<Rightarrow> playlist_wire" where
  "playlist_json p caller = \<lparr>pw_info = p, pw_owned = (pi_owner_user_id p = caller)\<rparr>"

definition quoted :: "string \<Rightarrow> string" where
  "quoted s = CHR 0x27 # s @ [CHR 0x27]"

definition validate_name :: "string \<Rightarrow> http_err + string" where
  "validate_name raw =
     (let name = trim raw
      in if name = [] then Inl (S_BAD_REQUEST, ''playlist name must not be empty'')
         else if MAX_NAME_LEN < length name then Inl (S_BAD_REQUEST, ''playlist name too long'')
         else Inr name)"

definition validate_visibility :: "string \<Rightarrow> http_err + string" where
  "validate_visibility raw =
     (if raw = ''private'' then Inr ''private''
      else if raw = ''shared'' then Inr ''shared''
      else Inl (S_BAD_REQUEST, ''visibility must be '' @ quoted ''private'' @ '' or '' @ quoted ''shared''))"

text \<open>\<open>Option::map(f).transpose()?\<close>.\<close>

definition transpose_opt :: "('a \<Rightarrow> 'e + 'b) \<Rightarrow> 'a option \<Rightarrow> 'e + 'b option" where
  "transpose_opt f v =
     (case v of None \<Rightarrow> Inr None
      | Some x \<Rightarrow> (case f x of Inl e \<Rightarrow> Inl e | Inr y \<Rightarrow> Inr (Some y)))"

definition require_write :: "principal \<Rightarrow> http_err + unit" where
  "require_write p =
     (if can p WritePlaylist then Inr () else Inl (S_FORBIDDEN, ''guests cannot modify playlists''))"

definition not_found :: http_err where
  "not_found = (S_NOT_FOUND, ''playlist not found'')"

definition store_error :: http_err where
  "store_error = (S_INTERNAL_SERVER_ERROR, ''playlist store error'')"

definition load_readable :: "principal \<Rightarrow> string \<Rightarrow> gateway_db \<Rightarrow> http_err + playlist_info" where
  "load_readable p pid db =
     (case pls_get pid db of
        None \<Rightarrow> Inl not_found
      | Some row \<Rightarrow>
          if pi_owner_user_id row = pr_user_id p \<or> pi_visibility row = ''shared''
          then Inr row else Inl not_found)"

definition load_owned :: "principal \<Rightarrow> string \<Rightarrow> gateway_db \<Rightarrow> http_err + playlist_info" where
  "load_owned p pid db =
     (case pls_get pid db of
        None \<Rightarrow> Inl not_found
      | Some row \<Rightarrow> if pi_owner_user_id row = pr_user_id p then Inr row else Inl not_found)"

text \<open>An answer together with the database it leaves.\<close>

type_synonym playlist_result = "playlist_answer \<times> gateway_db"

abbreviation pl_err :: "http_err \<Rightarrow> gateway_db \<Rightarrow> playlist_result" where
  "pl_err e db \<equiv> (PlError (fst e) (snd e), db)"

definition list_playlists :: "principal \<Rightarrow> gateway_db \<Rightarrow> playlist_result" where
  "list_playlists p db =
     (PlList (map (\<lambda>i. playlist_json i (pr_user_id p)) (pls_list_visible (pr_user_id p) db)), db)"

definition create_playlist :: "principal \<Rightarrow> string \<Rightarrow> string \<Rightarrow> int \<Rightarrow> gateway_db \<Rightarrow> playlist_result" where
  "create_playlist p raw_name pid now db =
     (case require_write p of
        Inl e \<Rightarrow> pl_err e db
      | Inr _ \<Rightarrow>
          (case validate_name raw_name of
             Inl e \<Rightarrow> pl_err e db
           | Inr name \<Rightarrow>
               (case pls_create pid (pr_user_id p) name now db of
                  Inl _ \<Rightarrow> pl_err store_error db
                | Inr (row, db1) \<Rightarrow> (PlCreated (playlist_json row (pr_user_id p)), db1))))"

definition get_playlist :: "principal \<Rightarrow> string \<Rightarrow> gateway_db \<Rightarrow> playlist_result" where
  "get_playlist p pid db =
     (case load_readable p pid db of
        Inl e \<Rightarrow> pl_err e db
      | Inr row \<Rightarrow> (PlDetail (playlist_json row (pr_user_id p)) (pls_track_ids pid db), db))"

definition patch_playlist ::
  "principal \<Rightarrow> string \<Rightarrow> string option \<Rightarrow> string option \<Rightarrow> int \<Rightarrow> gateway_db \<Rightarrow> playlist_result" where
  "patch_playlist p pid raw_name raw_visibility now db =
     (case require_write p of
        Inl e \<Rightarrow> pl_err e db
      | Inr _ \<Rightarrow>
     (case load_owned p pid db of
        Inl e \<Rightarrow> pl_err e db
      | Inr _ \<Rightarrow>
     (case transpose_opt validate_name raw_name of
        Inl e \<Rightarrow> pl_err e db
      | Inr name \<Rightarrow>
     (case transpose_opt validate_visibility raw_visibility of
        Inl e \<Rightarrow> pl_err e db
      | Inr visibility \<Rightarrow>
     (case pls_patch pid name visibility now db of
        Inl _ \<Rightarrow> pl_err store_error db
      | Inr (None, db1) \<Rightarrow> pl_err not_found db1
      | Inr (Some row, db1) \<Rightarrow> (PlRow (playlist_json row (pr_user_id p)), db1))))))"

definition put_tracks ::
  "principal \<Rightarrow> string \<Rightarrow> string list \<Rightarrow> string option \<Rightarrow> int \<Rightarrow> gateway_db \<Rightarrow> playlist_result" where
  "put_tracks p pid track_ids mode now db =
     (case require_write p of
        Inl e \<Rightarrow> pl_err e db
      | Inr _ \<Rightarrow>
     (case load_owned p pid db of
        Inl e \<Rightarrow> pl_err e db
      | Inr _ \<Rightarrow>
          if MAX_TRACKS < length track_ids then pl_err (S_BAD_REQUEST, ''too many track ids'') db
          else if \<exists>t \<in> set track_ids. trim t = []
          then pl_err (S_BAD_REQUEST, ''track ids must not be empty'') db
          else
     (case (case mode of
              None \<Rightarrow> Some ModeReplace
            | Some m \<Rightarrow> if m = ''replace'' then Some ModeReplace
                        else if m = ''append'' then Some ModeAppend else None) of
        None \<Rightarrow> pl_err (S_BAD_REQUEST, ''mode must be '' @ quoted ''replace'' @ '' or '' @ quoted ''append'') db
      | Some m \<Rightarrow>
     (case pls_set_tracks pid track_ids m now db of
        Inl _ \<Rightarrow> pl_err store_error db
      | Inr (w, db1) \<Rightarrow> (PlWrite w, db1)))))"

definition delete_playlist :: "principal \<Rightarrow> string \<Rightarrow> gateway_db \<Rightarrow> playlist_result" where
  "delete_playlist p pid db =
     (case require_write p of
        Inl e \<Rightarrow> pl_err e db
      | Inr _ \<Rightarrow>
          (case load_owned p pid db of
             Inl e \<Rightarrow> pl_err e db
           | Inr _ \<Rightarrow> (PlNoContent, pls_delete pid db)))"

text \<open>The routes under \<open>/v1/playlists\<close>.\<close>

datatype playlist_request =
    PlListReq
  | PlCreateReq string string
  | PlGetReq string
  | PlPatchReq string "string option" "string option"
  | PlTracksReq string "string list" "string option"
  | PlDeleteReq string

fun playlist_step :: "int \<Rightarrow> principal \<Rightarrow> playlist_request \<Rightarrow> gateway_db \<Rightarrow> playlist_result" where
  "playlist_step now p PlListReq db = list_playlists p db"
| "playlist_step now p (PlCreateReq name pid) db = create_playlist p name pid now db"
| "playlist_step now p (PlGetReq pid) db = get_playlist p pid db"
| "playlist_step now p (PlPatchReq pid name vis) db = patch_playlist p pid name vis now db"
| "playlist_step now p (PlTracksReq pid ts mode) db = put_tracks p pid ts mode now db"
| "playlist_step now p (PlDeleteReq pid) db = delete_playlist p pid db"


section \<open>The membership of a playlist\<close>

definition members :: "string \<Rightarrow> gateway_db \<Rightarrow> string list" where
  "members pid db = map pt_track_id (tracks_of pid db)"

definition dense :: "playlist_track_row list \<Rightarrow> bool" where
  "dense rows \<longleftrightarrow> map pt_position rows = map int [0..<length rows]"

definition playlists_ok :: "gateway_db \<Rightarrow> bool" where
  "playlists_ok db \<longleftrightarrow>
     table_ok pl_id (\<lambda>p. pl_owner_user_id p \<in> user_ids db \<and> pl_visibility p \<in> {''private'', ''shared''}
         \<and> dense (tracks_of (pl_id p) db)) (playlists db)
     \<and> (\<forall>t \<in> set (playlist_tracks db). pt_playlist_id t \<in> pl_id ` set (playlists db))"

definition new_members :: "track_mode \<Rightarrow> string list \<Rightarrow> string list \<Rightarrow> string list" where
  "new_members mode old ts =
     (case mode of ModeReplace \<Rightarrow> ts | ModeAppend \<Rightarrow> old @ dedup_by (\<lambda>t. t) (set old) ts)"

lemma tracks_of_upd [simp]:
  "tracks_of q (db\<lparr>playlists := ps\<rparr>) = tracks_of q db"
  "tracks_of q (db\<lparr>playlist_tracks := rows\<rparr>) = filter (\<lambda>t. pt_playlist_id t = q) rows"
  by (simp_all add: tracks_of_def)

lemma tracks_of_append [simp]:
  "tracks_of q (db\<lparr>playlist_tracks := playlist_tracks db @ rows\<rparr>) =
     tracks_of q db @ filter (\<lambda>t. pt_playlist_id t = q) rows"
  by (simp add: tracks_of_def)

lemma set_pt_track_id: "pt_track_id ` set (tracks_of pid db) = set (members pid db)"
  by (simp add: members_def)

lemma dense_sorted: "dense rows \<Longrightarrow> sort_key pt_position rows = rows"
  by (rule sort_key_id_if_sorted) (simp add: dense_def sorted_map sorted_wrt_upt sorted_wrt_map)

lemma tracks_of_none: "playlists_ok db \<Longrightarrow> pid \<notin> pl_id ` set (playlists db) \<Longrightarrow> tracks_of pid db = []"
  by (auto simp: playlists_ok_def tracks_of_def filter_empty_conv)

lemma playlists_ok_dense: "playlists_ok db \<Longrightarrow> dense (tracks_of pid db)"
proof (cases "pid \<in> pl_id ` set (playlists db)")
  case True
  assume "playlists_ok db"
  then show ?thesis using True unfolding playlists_ok_def table_ok_def by blast
qed (simp add: tracks_of_none dense_def)

lemma track_ids_members: "playlists_ok db \<Longrightarrow> pls_track_ids pid db = members pid db"
  by (simp add: pls_track_ids_def members_def dense_sorted playlists_ok_dense)

lemma next_position_dense: "dense (tracks_of pid db) \<Longrightarrow> next_position pid db = int (length (tracks_of pid db))"
proof (cases "tracks_of pid db = []")
  case False
  assume d: "dense (tracks_of pid db)"
  let ?n = "length (tracks_of pid db)"
  have "Max (set (map pt_position (tracks_of pid db))) = Max (int ` {0..<?n})"
    using d by (simp add: dense_def)
  also have "\<dots> = int (?n - 1)"
    using False by (intro Max_eqI) auto
  finally show ?thesis using False by (simp add: next_position_def of_nat_diff Suc_leI)
qed (simp add: next_position_def)

text \<open>The rows a membership write inserts.\<close>

definition track_rows :: "string \<Rightarrow> nat \<Rightarrow> string list \<Rightarrow> playlist_track_row list" where
  "track_rows pid n ts =
     map (\<lambda>(i, t). \<lparr>pt_playlist_id = pid, pt_position = int i, pt_track_id = t\<rparr>) (enumerate n ts)"

lemma track_rows_simps [simp]:
  "track_rows pid n [] = []"
  "track_rows pid n (t # ts) =
     \<lparr>pt_playlist_id = pid, pt_position = int n, pt_track_id = t\<rparr> # track_rows pid (Suc n) ts"
  "length (track_rows pid n ts) = length ts"
  by (simp_all add: track_rows_def)

lemma track_rows_filter: "filter (\<lambda>t. pt_playlist_id t = q) (track_rows pid n ts) =
    (if q = pid then track_rows pid n ts else [])"
  by (induction ts arbitrary: n) auto

lemma track_rows_ids: "map pt_track_id (track_rows pid n ts) = ts"
  by (induction ts arbitrary: n) auto

lemma track_rows_positions: "map pt_position (track_rows pid n ts) = map int [n..<n + length ts]"
  by (induction ts arbitrary: n) (auto simp del: upt_Suc simp: upt_rec)

lemma track_rows_playlist: "r \<in> set (track_rows pid n ts) \<Longrightarrow> pt_playlist_id r = pid"
  by (induction ts arbitrary: n) auto

lemma dense_append: "dense rows \<Longrightarrow> n = length rows \<Longrightarrow> dense (rows @ track_rows pid n ts)"
  unfolding dense_def
  by (simp add: track_rows_positions upt_add_eq_append [of 0 "length rows" "length ts"] del: upt_Suc)

lemma insert_tracks_rows:
  assumes "pid \<in> pl_id ` set (playlists db)" "\<forall>r \<in> set (tracks_of pid db). pt_position r < int n"
  shows "insert_tracks pid (int n) ts db =
      Inr (db\<lparr>playlist_tracks := playlist_tracks db @ track_rows pid n ts\<rparr>)"
  using assms
proof (induction ts arbitrary: n db)
  case (Cons t ts)
  let ?row = "\<lparr>pt_playlist_id = pid, pt_position = int n, pt_track_id = t\<rparr>"
  let ?db = "db\<lparr>playlist_tracks := playlist_tracks db @ [?row]\<rparr>"
  have fresh: "(pid, int n) \<notin> (\<lambda>r. (pt_playlist_id r, pt_position r)) ` set (playlist_tracks db)"
    using Cons.prems(2) by (auto simp: tracks_of_def)
  have "insert_tracks pid (int (Suc n)) ts ?db =
      Inr (?db\<lparr>playlist_tracks := playlist_tracks ?db @ track_rows pid (Suc n) ts\<rparr>)"
    by (rule Cons.IH) (use Cons.prems in \<open>auto simp: tracks_of_def\<close>)
  then show ?case using fresh Cons.prems(1) by (simp add: add.commute)
qed simp

text \<open>What a membership write does to the two tables.\<close>

definition written_rows :: "string \<Rightarrow> track_mode \<Rightarrow> string list \<Rightarrow> gateway_db \<Rightarrow> playlist_track_row list" where
  "written_rows pid mode ts db =
     (case mode of
        ModeReplace \<Rightarrow> filter (\<lambda>t. pt_playlist_id t \<noteq> pid) (playlist_tracks db) @ track_rows pid 0 ts
      | ModeAppend \<Rightarrow> playlist_tracks db @ track_rows pid (length (tracks_of pid db))
          (dedup_by (\<lambda>t. t) (set (members pid db)) ts))"

definition touched :: "string \<Rightarrow> int \<Rightarrow> playlist_row list \<Rightarrow> playlist_row list" where
  "touched pid now = update_where (\<lambda>p. pl_id p = pid) (\<lambda>p. p\<lparr>pl_updated_ms := now\<rparr>)"

lemma set_tracks_tables:
  assumes "playlists_ok db" "pid \<in> pl_id ` set (playlists db)"
  shows "\<exists>n. pls_set_tracks pid ts mode now db =
      Inr (\<lparr>tw_added = n, tw_skipped = length ts - n\<rparr>,
           db\<lparr>playlist_tracks := written_rows pid mode ts db,
              playlists := (if 0 < n \<or> mode = ModeReplace then touched pid now (playlists db) else playlists db)\<rparr>)
    \<and> n = length (new_members mode (members pid db) ts)
          - (case mode of ModeReplace \<Rightarrow> 0 | ModeAppend \<Rightarrow> length (members pid db))"
proof (cases mode)
  case ModeReplace
  let ?db = "db\<lparr>playlist_tracks := filter (\<lambda>t. pt_playlist_id t \<noteq> pid) (playlist_tracks db)\<rparr>"
  have "insert_tracks pid (int 0) ts ?db =
      Inr (?db\<lparr>playlist_tracks := playlist_tracks ?db @ track_rows pid 0 ts\<rparr>)"
    by (rule insert_tracks_rows) (use assms(2) in \<open>auto simp: tracks_of_def\<close>)
  then show ?thesis using ModeReplace
    by (simp add: pls_set_tracks_def new_members_def written_rows_def touched_def)
next
  case ModeAppend
  let ?n = "length (tracks_of pid db)"
  let ?ts = "dedup_by (\<lambda>t. t) (set (members pid db)) ts"
  have d: "dense (tracks_of pid db)" by (rule playlists_ok_dense [OF assms(1)])
  then have "\<forall>q \<in> pt_position ` set (tracks_of pid db). q < int ?n"
    by (simp only: dense_def flip: set_map) auto
  then have "insert_tracks pid (int ?n) ?ts db =
      Inr (db\<lparr>playlist_tracks := playlist_tracks db @ track_rows pid ?n ?ts\<rparr>)"
    by (intro insert_tracks_rows [OF assms(2)]) auto
  then show ?thesis using ModeAppend
    by (simp add: pls_set_tracks_def next_position_dense [OF d] set_pt_track_id new_members_def
        written_rows_def touched_def Let_def)
qed

lemma written_rows_of:
  "filter (\<lambda>t. pt_playlist_id t = q) (written_rows pid mode ts db) =
     (if q \<noteq> pid then tracks_of q db
      else case mode of ModeReplace \<Rightarrow> track_rows pid 0 ts
           | ModeAppend \<Rightarrow> tracks_of pid db @ track_rows pid (length (tracks_of pid db))
               (dedup_by (\<lambda>t. t) (set (members pid db)) ts))"
  by (cases mode) (auto simp: written_rows_def track_rows_filter tracks_of_def intro: filter_cong)

lemma pl_ids_update_where [simp]:
  "(\<And>p. pl_id (f p) = pl_id p) \<Longrightarrow> pl_id ` set (update_where P f ps) = pl_id ` set ps"
  by (rule image_update_where)

lemma pl_ids_touched [simp]: "pl_id ` set (touched pid now ps) = pl_id ` set ps"
  by (simp add: touched_def)

lemma set_tracks_ok:
  assumes ok: "playlists_ok db" and pid: "pid \<in> pl_id ` set (playlists db)"
    and w: "pls_set_tracks pid ts mode now db = Inr (w, db')"
  shows "playlists_ok db'" "members pid db' = new_members mode (members pid db) ts"
    "q \<noteq> pid \<Longrightarrow> members q db' = members q db"
    "tw_added w + (case mode of ModeReplace \<Rightarrow> 0 | ModeAppend \<Rightarrow> length (members pid db)) = length (members pid db')"
proof -
  obtain n where r: "pls_set_tracks pid ts mode now db =
      Inr (\<lparr>tw_added = n, tw_skipped = length ts - n\<rparr>,
           db\<lparr>playlist_tracks := written_rows pid mode ts db,
              playlists := (if 0 < n \<or> mode = ModeReplace then touched pid now (playlists db) else playlists db)\<rparr>)"
    and n: "n = length (new_members mode (members pid db) ts)
          - (case mode of ModeReplace \<Rightarrow> 0 | ModeAppend \<Rightarrow> length (members pid db))"
    using set_tracks_tables [OF ok pid] by blast
  with w have db': "db' = db\<lparr>playlist_tracks := written_rows pid mode ts db,
       playlists := (if 0 < n \<or> mode = ModeReplace then touched pid now (playlists db) else playlists db)\<rparr>"
    and w': "w = \<lparr>tw_added = n, tw_skipped = length ts - n\<rparr>" by simp_all
  have tracks: "tracks_of q db' = filter (\<lambda>t. pt_playlist_id t = q) (written_rows pid mode ts db)" for q
    by (simp add: db' tracks_of_def)
  show m: "members pid db' = new_members mode (members pid db) ts"
    by (cases mode) (simp_all add: members_def tracks written_rows_of track_rows_ids new_members_def)
  show "q \<noteq> pid \<Longrightarrow> members q db' = members q db"
    by (simp add: members_def tracks written_rows_of)
  show "tw_added w + (case mode of ModeReplace \<Rightarrow> 0 | ModeAppend \<Rightarrow> length (members pid db)) = length (members pid db')"
    by (cases mode) (simp_all add: m w' n new_members_def)
  have d: "dense (tracks_of q db')" for q
    using playlists_ok_dense [OF ok, of q] dense_append [of "[]" 0 pid ts] dense_append [of "tracks_of pid db"]
    by (cases mode) (auto simp: tracks written_rows_of dense_def [of "[]"])
  have ids: "pl_id ` set (playlists db') = pl_id ` set (playlists db)"
    by (simp add: db')
  have tab: "table_ok pl_id (\<lambda>p. pl_owner_user_id p \<in> user_ids db \<and> pl_visibility p \<in> {''private'', ''shared''}) (playlists db')"
  proof -
    have "table_ok pl_id (\<lambda>p. pl_owner_user_id p \<in> user_ids db \<and> pl_visibility p \<in> {''private'', ''shared''}) (playlists db)"
      using ok unfolding playlists_ok_def by (auto elim: table_ok_mono)
    then show ?thesis by (auto simp: db' touched_def intro: table_ok_update)
  qed
  have "pt_playlist_id t \<in> pl_id ` set (playlists db)" if "t \<in> set (written_rows pid mode ts db)" for t
    using that ok pid unfolding playlists_ok_def
    by (cases mode) (auto simp: written_rows_def dest: track_rows_playlist)
  moreover have "user_ids db' = user_ids db" by (simp add: db' user_ids_def)
  ultimately show "playlists_ok db'"
    using tab d unfolding playlists_ok_def table_ok_def ids by (auto simp: db')
qed

section \<open>What a request keeps\<close>

lemma find_id_iff:
  "find (\<lambda>p. pl_id p = pid) ps = None \<longleftrightarrow> pid \<notin> pl_id ` set ps"
  by (auto simp: find_None_iff)

lemma pls_get_Some:
  "pls_get pid db = Some row \<Longrightarrow>
   \<exists>p \<in> set (playlists db). pl_id p = pid \<and> row = row_to_playlist db p"
  by (auto simp: pls_get_def dest: find_SomeD)

lemma load_owned_SomeD:
  "load_owned p pid db = Inr row \<Longrightarrow>
   \<exists>r \<in> set (playlists db). pl_id r = pid \<and> pl_owner_user_id r = pr_user_id p \<and> row = row_to_playlist db r"
  by (auto simp: load_owned_def row_to_playlist_def split: option.splits if_splits dest!: pls_get_Some)

lemma put_tracks_writes:
  "snd (put_tracks p pid ts mode now db) = db
   \<or> (can p WritePlaylist \<and> (\<exists>row. load_owned p pid db = Inr row)
      \<and> (\<exists>m w. pls_set_tracks pid ts m now db = Inr (w, snd (put_tracks p pid ts mode now db))))"
proof (cases "can p WritePlaylist \<and> (\<exists>row. load_owned p pid db = Inr row)")
  case False
  then show ?thesis by (auto simp: put_tracks_def require_write_def split: sum.splits)
next
  case True
  then obtain row where "can p WritePlaylist" "load_owned p pid db = Inr row" by blast
  then show ?thesis
    by (auto simp: put_tracks_def require_write_def split: option.splits sum.splits)
qed

text \<open>A request is refused and changes nothing, or it creates, or it works on one playlist of the caller.\<close>

lemma playlist_step_cases:
  obtains (Unchanged) "snd (playlist_step now p req db) = db"
  | (Created) name pid n where "req = PlCreateReq name pid" "pid \<notin> pl_id ` set (playlists db)"
      "pr_user_id p \<in> user_ids db" "can p WritePlaylist" "validate_name name = Inr n"
      "snd (playlist_step now p req db) = db\<lparr>playlists := playlists db @
         [\<lparr>pl_id = pid, pl_owner_user_id = pr_user_id p, pl_name = n,
           pl_visibility = ''private'', pl_created_ms = now, pl_updated_ms = now\<rparr>]\<rparr>"
  | (Patched) r name vis n v where "req = PlPatchReq (pl_id r) name vis" "r \<in> set (playlists db)"
      "pl_owner_user_id r = pr_user_id p" "can p WritePlaylist"
      "\<And>x. v = Some x \<Longrightarrow> x \<in> {''private'', ''shared''}"
      "snd (playlist_step now p req db) = db\<lparr>playlists := update_where (\<lambda>q. pl_id q = pl_id r)
                 (\<lambda>q. q\<lparr>pl_name := (case n of Some n \<Rightarrow> n | None \<Rightarrow> pl_name q),
                       pl_visibility := (case v of Some v \<Rightarrow> v | None \<Rightarrow> pl_visibility q),
                       pl_updated_ms := now\<rparr>) (playlists db)\<rparr>"
  | (Written) r ts mode m w where "req = PlTracksReq (pl_id r) ts mode" "r \<in> set (playlists db)"
      "pl_owner_user_id r = pr_user_id p" "can p WritePlaylist"
      "pls_set_tracks (pl_id r) ts m now db = Inr (w, snd (playlist_step now p req db))"
  | (Deleted) r where "req = PlDeleteReq (pl_id r)" "r \<in> set (playlists db)"
      "pl_owner_user_id r = pr_user_id p" "can p WritePlaylist"
      "snd (playlist_step now p req db) = pls_delete (pl_id r) db"
proof (cases req)
  case PlListReq
  then show ?thesis using Unchanged by (simp add: list_playlists_def)
next
  case (PlGetReq pid)
  then show ?thesis using Unchanged by (simp add: get_playlist_def split: sum.splits)
next
  case (PlCreateReq name pid)
  show ?thesis
  proof (cases "can p WritePlaylist \<and> (\<exists>n. validate_name name = Inr n) \<and> pid \<notin> pl_id ` set (playlists db)
      \<and> pr_user_id p \<in> user_ids db")
    case False
    then show ?thesis using Unchanged PlCreateReq
      by (auto simp: create_playlist_def pls_create_def require_write_def split: sum.splits if_splits)
  next
    case True
    then obtain n where "can p WritePlaylist" "validate_name name = Inr n"
      "pid \<notin> pl_id ` set (playlists db)" "pr_user_id p \<in> user_ids db" by blast
    with Created [of name pid n] show ?thesis using PlCreateReq
      by (simp add: create_playlist_def pls_create_def require_write_def)
  qed
next
  case (PlDeleteReq pid)
  show ?thesis
  proof (cases "can p WritePlaylist \<and> (\<exists>row. load_owned p pid db = Inr row)")
    case False
    then show ?thesis using Unchanged PlDeleteReq
      by (auto simp: delete_playlist_def require_write_def split: sum.splits)
  next
    case True
    then obtain row where h: "can p WritePlaylist" "load_owned p pid db = Inr row" by blast
    from load_owned_SomeD [OF h(2)] Deleted show ?thesis using PlDeleteReq h
      by (auto simp: delete_playlist_def require_write_def)
  qed
next
  case (PlPatchReq pid name vis)
  show ?thesis
  proof (cases "can p WritePlaylist \<and> (\<exists>row. load_owned p pid db = Inr row)
      \<and> (\<exists>n v. transpose_opt validate_name name = Inr n \<and> transpose_opt validate_visibility vis = Inr v)")
    case False
    then show ?thesis using Unchanged PlPatchReq
      by (auto simp: patch_playlist_def require_write_def split: sum.splits if_splits)
  next
    case True
    then obtain row n v where h: "load_owned p pid db = Inr row" "can p WritePlaylist"
      "transpose_opt validate_name name = Inr n" "transpose_opt validate_visibility vis = Inr v" by blast
    from load_owned_SomeD [OF h(1)] obtain r where r: "r \<in> set (playlists db)" "pl_id r = pid"
      "pl_owner_user_id r = pr_user_id p" by blast
    have v: "v = Some x \<Longrightarrow> x \<in> {''private'', ''shared''}" for x
      using h(4) by (auto simp: transpose_opt_def validate_visibility_def split: option.splits sum.splits if_splits)
    then have "\<not> (case v of Some v \<Rightarrow> v \<noteq> ''private'' \<and> v \<noteq> ''shared'' | None \<Rightarrow> False)"
      by (auto split: option.splits)
    with Patched [of r name vis v n] show ?thesis using PlPatchReq h r v
      by (auto simp: patch_playlist_def require_write_def pls_patch_def Let_def split: option.splits)
  qed
next
  case (PlTracksReq pid ts mode)
  then show ?thesis using Unchanged Written put_tracks_writes [of p pid ts mode now db]
    by (fastforce dest: load_owned_SomeD)
qed

lemma user_ids_playlists [simp]:
  "user_ids (db\<lparr>playlists := a\<rparr>) = user_ids db" "user_ids (db\<lparr>playlist_tracks := b\<rparr>) = user_ids db"
  by (simp_all add: user_ids_def)

lemma tracks_of_delete: "q \<noteq> pid \<Longrightarrow> tracks_of q (pls_delete pid db) = tracks_of q db"
  by (auto simp: pls_delete_def tracks_of_def intro: filter_cong)

lemma pls_delete_ok: "playlists_ok db \<Longrightarrow> playlists_ok (pls_delete pid db)"
proof -
  assume ok: "playlists_ok db"
  have p: "playlists (pls_delete pid db) = filter (\<lambda>p. pl_id p \<noteq> pid) (playlists db)"
    "user_ids (pls_delete pid db) = user_ids db"
    by (simp_all add: pls_delete_def)
  have "pt_playlist_id t \<in> pl_id ` {p \<in> set (playlists db). pl_id p \<noteq> pid}"
    if "t \<in> set (playlist_tracks (pls_delete pid db))" for t
    using that ok by (auto simp: pls_delete_def playlists_ok_def)
  then show ?thesis using ok
    by (auto simp: playlists_ok_def p tracks_of_delete intro!: table_ok_mono [OF table_ok_filter])
qed

lemma playlist_step_ok:
  assumes ok: "playlists_ok db"
  shows "playlists_ok (snd (playlist_step now p req db))"
proof (cases rule: playlist_step_cases [where now = now and p = p and req = req and db = db])
  case Unchanged
  then show ?thesis using ok by simp
next
  case (Created name pid n)
  have "tracks_of pid db = []" by (rule tracks_of_none [OF ok Created(2)])
  then show ?thesis using ok Created
    by (auto simp: playlists_ok_def Created(6) dense_def intro!: table_ok_append)
next
  case (Patched r name vis n v)
  then show ?thesis using ok
    by (auto simp: playlists_ok_def Patched(6) intro!: table_ok_update split: option.splits)
next
  case (Written r ts mode m w)
  then show ?thesis using set_tracks_ok(1) [OF ok _ Written(5)] by simp
next
  case (Deleted r)
  then show ?thesis using pls_delete_ok [OF ok] by simp
qed

text \<open>The other tables are never touched.\<close>

lemma insert_tracks_other: "insert_tracks pid pos ts db = Inr db' \<Longrightarrow>
    \<exists>rows. db' = db\<lparr>playlist_tracks := rows\<rparr>"
proof (induction pid pos ts db rule: insert_tracks.induct)
  case (1 pid pos db)
  then show ?case by (auto intro: exI [of _ "playlist_tracks db"])
next
  case (2 pid pos t ts db)
  then show ?case by (fastforce split: if_splits)
qed

lemma set_tracks_other:
  assumes "pls_set_tracks pid ts mode now db = Inr (w, db')"
  shows "\<exists>ps rows. db' = db\<lparr>playlists := ps, playlist_tracks := rows\<rparr>"
proof -
  obtain pos xs db1 db2 rows ps where h: "insert_tracks pid pos xs db1 = Inr db2"
    "db1 = db\<lparr>playlist_tracks := rows\<rparr>" "db' = db2\<lparr>playlists := ps\<rparr>"
  proof (cases mode)
    case ModeReplace
    then show ?thesis using assms that
      by (auto simp: pls_set_tracks_def Let_def split: sum.splits if_splits)
  next
    case ModeAppend
    let ?xs = "dedup_by (\<lambda>t. t) (pt_track_id ` set (tracks_of pid db)) ts"
    obtain db2 where i: "insert_tracks pid (next_position pid db) ?xs db = Inr db2"
      using assms ModeAppend by (auto simp: pls_set_tracks_def Let_def split: sum.splits)
    then have "db' = db2\<lparr>playlists := playlists db'\<rparr>"
      using assms ModeAppend by (auto simp: pls_set_tracks_def Let_def split: if_splits)
    then show ?thesis by (intro that [OF i, of "playlist_tracks db"]) simp_all
  qed
  from insert_tracks_other [OF h(1)] obtain rows' where "db2 = db1\<lparr>playlist_tracks := rows'\<rparr>" by blast
  with h(2,3) have "db' = db\<lparr>playlists := ps, playlist_tracks := rows'\<rparr>" by (cases db) simp
  then show ?thesis by blast
qed

lemma playlist_step_other:
  "\<exists>ps rows. snd (playlist_step now p req db) = db\<lparr>playlists := ps, playlist_tracks := rows\<rparr>"
proof (cases rule: playlist_step_cases [where now = now and p = p and req = req and db = db])
  case Unchanged
  then show ?thesis by (intro exI [of _ "playlists db"] exI [of _ "playlist_tracks db"]) simp
next
  case (Created name pid n)
  show ?thesis unfolding Created(6) by (rule exI, rule exI [of _ "playlist_tracks db"]) simp
next
  case (Patched r name vis n v)
  show ?thesis unfolding Patched(6) by (rule exI, rule exI [of _ "playlist_tracks db"]) simp
next
  case (Written r ts mode m w)
  then show ?thesis using set_tracks_other by blast
next
  case (Deleted r)
  show ?thesis unfolding Deleted(5) pls_delete_def by blast
qed

section \<open>Each caller sees its own part of the tables\<close>

definition readable :: "int \<Rightarrow> playlist_row \<Rightarrow> bool" where
  "readable uid r \<longleftrightarrow> pl_owner_user_id r = uid \<or> pl_visibility r = ''shared''"

definition readable_ids :: "int \<Rightarrow> gateway_db \<Rightarrow> string set" where
  "readable_ids uid db = pl_id ` set (filter (readable uid) (playlists db))"

text \<open>The database without the playlists that \<open>uid\<close> may not read.\<close>

definition without_hidden :: "int \<Rightarrow> gateway_db \<Rightarrow> gateway_db" where
  "without_hidden uid db =
     db\<lparr>playlists := filter (readable uid) (playlists db),
        playlist_tracks := filter (\<lambda>t. pt_playlist_id t \<in> readable_ids uid db) (playlist_tracks db)\<rparr>"

lemma without_hidden_simps [simp]:
  "playlists (without_hidden uid db) = filter (readable uid) (playlists db)"
  "user_ids (without_hidden uid db) = user_ids db"
  by (simp_all add: without_hidden_def user_ids_def)

lemma hidden_tracks: "pid \<in> readable_ids uid db \<Longrightarrow> tracks_of pid (without_hidden uid db) = tracks_of pid db"
  by (auto simp: without_hidden_def tracks_of_def intro: filter_cong)

lemma hidden_row: "r \<in> set (playlists db) \<Longrightarrow> readable uid r \<Longrightarrow>
    row_to_playlist (without_hidden uid db) r = row_to_playlist db r"
  by (simp add: row_to_playlist_def hidden_tracks readable_ids_def)

lemma find_filter:
  "distinct (map key xs) \<Longrightarrow> find (\<lambda>x. key x = k) (filter Q xs) =
     (case find (\<lambda>x. key x = k) xs of None \<Rightarrow> None | Some x \<Rightarrow> if Q x then Some x else None)"
proof (induction xs)
  case (Cons x xs)
  have "find (\<lambda>x. key x = key y) (filter Q xs) = None" if "key y \<notin> key ` set xs" for y
    using that by (auto simp: find_None_iff) (metis imageI)
  with Cons show ?case by auto
qed simp

lemma playlists_ok_distinct: "playlists_ok db \<Longrightarrow> distinct (map pl_id (playlists db))"
  by (simp add: playlists_ok_def table_ok_def)

lemma hidden_get:
  assumes "playlists_ok db"
  shows "pls_get pid (without_hidden uid db) =
    (case pls_get pid db of None \<Rightarrow> None
     | Some i \<Rightarrow> if pi_owner_user_id i = uid \<or> pi_visibility i = ''shared'' then Some i else None)"
proof (cases "find (\<lambda>p. pl_id p = pid) (playlists db)")
  case None
  then show ?thesis by (simp add: pls_get_def find_filter [OF playlists_ok_distinct [OF assms]])
next
  case (Some r)
  then have "readable uid r \<Longrightarrow> row_to_playlist (without_hidden uid db) r = row_to_playlist db r"
    by (auto intro: hidden_row dest: find_SomeD)
  with Some show ?thesis
    by (simp add: pls_get_def find_filter [OF playlists_ok_distinct [OF assms]])
      (simp add: readable_def row_to_playlist_def)
qed

lemma hidden_load:
  assumes "playlists_ok db"
  shows "load_readable p pid (without_hidden (pr_user_id p) db) = load_readable p pid db"
    "load_owned p pid (without_hidden (pr_user_id p) db) = load_owned p pid db"
  by (simp_all add: load_readable_def load_owned_def hidden_get [OF assms] split: option.splits)

lemma load_readable_id: "load_readable p pid db = Inr row \<Longrightarrow> pid \<in> readable_ids (pr_user_id p) db"
  by (force simp: load_readable_def readable_ids_def readable_def row_to_playlist_def
      split: option.splits if_splits dest!: pls_get_Some)

lemma load_owned_id: "load_owned p pid db = Inr row \<Longrightarrow> pid \<in> readable_ids (pr_user_id p) db"
  by (force simp: readable_ids_def readable_def dest!: load_owned_SomeD)

lemma hidden_list: "pls_list_visible uid (without_hidden uid db) = pls_list_visible uid db"
proof -
  let ?v = "filter (readable uid) (playlists db)"
  have "row_to_playlist (without_hidden uid db) r = row_to_playlist db r"
    if "r \<in> set (sort_key (\<lambda>p. - pl_updated_ms p) ?v)" for r
    using that by (simp add: hidden_row)
  then have "map (row_to_playlist (without_hidden uid db)) (sort_key (\<lambda>p. - pl_updated_ms p) ?v)
      = map (row_to_playlist db) (sort_key (\<lambda>p. - pl_updated_ms p) ?v)"
    by (intro map_cong) simp_all
  moreover have "(\<lambda>p. pl_owner_user_id p = uid \<or> pl_visibility p = ''shared'') = readable uid"
    by (simp add: fun_eq_iff readable_def)
  ultimately show ?thesis by (simp add: pls_list_visible_def)
qed

lemma filter_update_where:
  "(\<And>x. P x \<Longrightarrow> Q (f x) = Q x) \<Longrightarrow> filter Q (update_where P f xs) = update_where P f (filter Q xs)"
  by (induction xs) auto

lemma filter_update_where_in:
  "(\<And>x. x \<in> set xs \<Longrightarrow> P x \<Longrightarrow> Q (f x) = Q x) \<Longrightarrow>
   filter Q (update_where P f xs) = update_where P f (filter Q xs)"
  by (induction xs) auto

lemma readable_ids_upd [simp]:
  "readable_ids uid (db\<lparr>playlist_tracks := rows\<rparr>) = readable_ids uid db"
  by (simp add: readable_ids_def)

lemma without_hidden_tracks:
  "pid \<in> readable_ids uid db \<Longrightarrow> \<forall>t \<in> set rows. pt_playlist_id t = pid \<Longrightarrow>
   (without_hidden uid db)\<lparr>playlist_tracks := playlist_tracks (without_hidden uid db) @ rows\<rparr> =
   without_hidden uid (db\<lparr>playlist_tracks := playlist_tracks db @ rows\<rparr>)"
  by (simp add: without_hidden_def filter_id_conv [THEN iffD2])

lemma insert_tracks_hidden:
  "pid \<in> readable_ids uid db \<Longrightarrow>
   insert_tracks pid pos ts (without_hidden uid db) =
     map_sum id (without_hidden uid) (insert_tracks pid pos ts db)"
proof (induction ts arbitrary: pos db)
  case (Cons t ts)
  let ?row = "\<lparr>pt_playlist_id = pid, pt_position = pos, pt_track_id = t\<rparr>"
  have key: "(pid, pos) \<in> (\<lambda>r. (pt_playlist_id r, pt_position r)) ` set (playlist_tracks (without_hidden uid db))
      \<longleftrightarrow> (pid, pos) \<in> (\<lambda>r. (pt_playlist_id r, pt_position r)) ` set (playlist_tracks db)"
    using Cons.prems by (auto simp: without_hidden_def image_iff)
  have ids: "pid \<in> pl_id ` set (playlists db)" "pid \<in> pl_id ` set (playlists (without_hidden uid db))"
    using Cons.prems by (auto simp: readable_ids_def)
  have next_db: "(without_hidden uid db)\<lparr>playlist_tracks := playlist_tracks (without_hidden uid db) @ [?row]\<rparr> =
      without_hidden uid (db\<lparr>playlist_tracks := playlist_tracks db @ [?row]\<rparr>)"
    by (rule without_hidden_tracks [OF Cons.prems]) simp
  show ?case
    using Cons.IH [of "db\<lparr>playlist_tracks := playlist_tracks db @ [?row]\<rparr>" "pos + 1"] Cons.prems
    unfolding insert_tracks.simps key next_db using ids by simp
qed simp

lemma without_hidden_touch:
  "(without_hidden uid db)\<lparr>playlists := touched pid now (playlists (without_hidden uid db))\<rparr> =
   without_hidden uid (db\<lparr>playlists := touched pid now (playlists db)\<rparr>)"
proof -
  have "filter (readable uid) (touched pid now (playlists db)) = touched pid now (filter (readable uid) (playlists db))"
    unfolding touched_def by (rule filter_update_where) (simp add: readable_def)
  then show ?thesis by (simp add: without_hidden_def readable_ids_def)
qed

lemma set_tracks_hidden:
  assumes "pid \<in> readable_ids uid db"
  shows "pls_set_tracks pid ts mode now (without_hidden uid db) =
     map_sum id (map_prod id (without_hidden uid)) (pls_set_tracks pid ts mode now db)"
proof -
  have finish: "insert_tracks pid pos xs (without_hidden uid db0) = map_sum id (without_hidden uid) (insert_tracks pid pos xs db0)"
    if "readable_ids uid db0 = readable_ids uid db" for pos xs db0
    by (rule insert_tracks_hidden) (simp add: that assms)
  have cut: "(without_hidden uid db)\<lparr>playlist_tracks := filter (\<lambda>t. pt_playlist_id t \<noteq> pid)
        (playlist_tracks (without_hidden uid db))\<rparr> =
      without_hidden uid (db\<lparr>playlist_tracks := filter (\<lambda>t. pt_playlist_id t \<noteq> pid) (playlist_tracks db)\<rparr>)"
    by (simp add: without_hidden_def conj_commute)
  show ?thesis
  proof (cases mode)
    case ModeReplace
    show ?thesis
      by (simp only: pls_set_tracks_def ModeReplace track_mode.case Let_def prod.case cut touched_def [symmetric]
          finish readable_ids_upd) (simp split: sum.split flip: without_hidden_touch)
  next
    case ModeAppend
    show ?thesis
      by (simp only: pls_set_tracks_def ModeAppend track_mode.case Let_def prod.case touched_def [symmetric]
          finish hidden_tracks [OF assms] next_position_def)
        (simp split: sum.split flip: without_hidden_touch)
  qed
qed

lemma hidden_update:
  assumes "\<And>r. r \<in> set (playlists db) \<Longrightarrow> pl_id r = pid \<Longrightarrow> readable uid (f r) = readable uid r"
    "\<And>r. pl_id (f r) = pl_id r"
  shows "without_hidden uid (db\<lparr>playlists := update_where (\<lambda>r. pl_id r = pid) f (playlists db)\<rparr>) =
     (without_hidden uid db)\<lparr>playlists := update_where (\<lambda>r. pl_id r = pid) f (filter (readable uid) (playlists db))\<rparr>"
proof -
  have "filter (readable uid) (update_where (\<lambda>r. pl_id r = pid) f (playlists db))
      = update_where (\<lambda>r. pl_id r = pid) f (filter (readable uid) (playlists db))"
    by (rule filter_update_where_in) (rule assms(1))
  then show ?thesis by (simp add: without_hidden_def readable_ids_def assms(2) del: set_filter)
qed

lemma update_where_origin:
  assumes "q \<in> set (update_where P f ps)" "\<And>r. pl_id (f r) = pl_id r" "\<And>r. pl_owner_user_id (f r) = pl_owner_user_id r"
  shows "\<exists>r \<in> set ps. pl_id r = pl_id q \<and> pl_owner_user_id r = pl_owner_user_id q"
proof -
  obtain r where "r \<in> set ps" "q = (if P r then f r else r)"
    using assms(1) by (auto simp: in_update_where)
  then show ?thesis using assms(2,3) by (intro bexI [of _ r]) auto
qed

lemma hidden_patch:
  assumes "playlists_ok db" "load_owned p pid db = Inr row"
  shows "pls_patch pid name vis now (without_hidden (pr_user_id p) db) =
     map_sum id (map_prod id (without_hidden (pr_user_id p))) (pls_patch pid name vis now db)"
proof -
  let ?uid = "pr_user_id p"
  let ?f = "\<lambda>q. q\<lparr>pl_name := (case name of Some n \<Rightarrow> n | None \<Rightarrow> pl_name q),
                 pl_visibility := (case vis of Some v \<Rightarrow> v | None \<Rightarrow> pl_visibility q),
                 pl_updated_ms := now\<rparr>"
  let ?db = "db\<lparr>playlists := update_where (\<lambda>r. pl_id r = pid) ?f (playlists db)\<rparr>"
  obtain r where r: "r \<in> set (playlists db)" "pl_id r = pid" "pl_owner_user_id r = ?uid"
    using load_owned_SomeD [OF assms(2)] by blast
  have mine: "pl_owner_user_id q = ?uid" if "q \<in> set (playlists db)" "pl_id q = pid" for q
    using same_key_same_elem [OF playlists_ok_distinct [OF assms(1)] that(1) r(1)] that(2) r by simp
  have upd: "without_hidden ?uid ?db =
     (without_hidden ?uid db)\<lparr>playlists := update_where (\<lambda>r. pl_id r = pid) ?f (filter (readable ?uid) (playlists db))\<rparr>"
    by (rule hidden_update) (auto simp: readable_def dest: mine)
  have ex: "(\<exists>q \<in> set (filter (readable ?uid) (playlists db)). pl_id q = pid) \<longleftrightarrow> (\<exists>q \<in> set (playlists db). pl_id q = pid)"
    using r by (auto simp: readable_def)
  have up: "playlists ?db = update_where (\<lambda>r. pl_id r = pid) ?f (playlists db)" by simp
  have dist: "distinct (map pl_id (playlists ?db))"
    using playlists_ok_distinct [OF assms(1)] by (simp add: map_update_where)
  obtain q where q: "q \<in> set (playlists ?db)" "pl_id q = pid" "pl_owner_user_id q = ?uid"
    and fq: "find (\<lambda>q. pl_id q = pid) (playlists ?db) = Some q"
  proof -
    have "?f r \<in> set (playlists ?db)" using r by (auto simp: in_update_where intro!: bexI [of _ r])
    then obtain q where f: "find (\<lambda>q. pl_id q = pid) (playlists ?db) = Some q"
      using find_Some_ex [of "?f r" "playlists ?db" "\<lambda>q. pl_id q = pid"] r(2) by auto
    have q: "q \<in> set (playlists ?db)" "pl_id q = pid"
      using find_SomeD [OF f] by simp_all
    obtain q0 where q0: "q0 \<in> set (playlists db)" "pl_id q0 = pl_id q" "pl_owner_user_id q0 = pl_owner_user_id q"
      using update_where_origin [OF q(1) [unfolded up]] by auto
    have "pl_owner_user_id q = ?uid" using mine [OF q0(1)] q0(2,3) q(2) by simp
    from that [OF q this f] show ?thesis .
  qed
  then have rd: "readable ?uid q" by (simp add: readable_def)
  have "find (\<lambda>q. pl_id q = pid) (playlists (without_hidden ?uid ?db)) = Some q"
    using find_filter [OF dist, of pid "readable ?uid"] fq rd by simp
  then have "pls_get pid (without_hidden ?uid ?db) = pls_get pid ?db"
    unfolding pls_get_def fq using hidden_row [OF q(1) rd] by simp
  then show ?thesis
    unfolding pls_patch_def Let_def without_hidden_simps ex by (simp add: upd)
qed

lemma hidden_delete:
  assumes "pid \<in> readable_ids uid db"
  shows "pls_delete pid (without_hidden uid db) = without_hidden uid (pls_delete pid db)"
proof -
  have ids: "readable_ids uid (pls_delete pid db) = readable_ids uid db - {pid}"
    by (auto simp: readable_ids_def pls_delete_def)
  have "pid \<in> pl_id ` set (playlists db)" "pid \<in> pl_id ` set (filter (readable uid) (playlists db))"
    using assms by (auto simp: readable_ids_def)
  then show ?thesis
    unfolding pls_delete_def without_hidden_def ids [unfolded pls_delete_def]
    by (simp add: conj_commute del: set_filter)
qed

lemma hidden_append:
  assumes "playlists_ok db" "pl_id r \<notin> pl_id ` set (playlists db)" "readable uid r"
  shows "without_hidden uid (db\<lparr>playlists := playlists db @ [r]\<rparr>) =
     (without_hidden uid db)\<lparr>playlists := filter (readable uid) (playlists db) @ [r]\<rparr>"
proof -
  have "pt_playlist_id t \<noteq> pl_id r" if "t \<in> set (playlist_tracks db)" for t
    using assms(1,2) that unfolding playlists_ok_def by metis
  then have "filter (\<lambda>t. pt_playlist_id t \<in> insert (pl_id r) (readable_ids uid db)) (playlist_tracks db)
      = filter (\<lambda>t. pt_playlist_id t \<in> readable_ids uid db) (playlist_tracks db)"
    by (intro filter_cong) auto
  moreover have "readable_ids uid (db\<lparr>playlists := playlists db @ [r]\<rparr>) = insert (pl_id r) (readable_ids uid db)"
    using assms(3) by (auto simp: readable_ids_def)
  ultimately show ?thesis using assms(3) by (cases db) (simp add: without_hidden_def)
qed

text \<open>The answers and effects of a caller's requests are those on its own part of the tables.\<close>

lemma playlist_step_hidden:
  assumes ok: "playlists_ok db" and fresh: "\<And>name pid. req = PlCreateReq name pid \<Longrightarrow> pid \<notin> pl_id ` set (playlists db)"
  shows "playlist_step now p req (without_hidden (pr_user_id p) db) =
     map_prod id (without_hidden (pr_user_id p)) (playlist_step now p req db)"
proof (cases req)
  case PlListReq
  then show ?thesis by (simp add: list_playlists_def hidden_list)
next
  case (PlGetReq pid)
  have "pls_track_ids pid (without_hidden (pr_user_id p) db) = pls_track_ids pid db"
    if "load_readable p pid db = Inr row" for row
    using load_readable_id [OF that] by (simp add: pls_track_ids_def hidden_tracks)
  then show ?thesis using PlGetReq
    by (auto simp: get_playlist_def hidden_load [OF ok] split: sum.splits)
next
  case (PlCreateReq name pid)
  then have "pid \<notin> pl_id ` set (playlists db)" using fresh by blast
  then have create: "pls_create pid (pr_user_id p) n now (without_hidden (pr_user_id p) db) =
      map_sum id (map_prod id (without_hidden (pr_user_id p))) (pls_create pid (pr_user_id p) n now db)" for n
    using hidden_append [OF ok, of "\<lparr>pl_id = pid, pl_owner_user_id = pr_user_id p, pl_name = n,
        pl_visibility = ''private'', pl_created_ms = now, pl_updated_ms = now\<rparr>" "pr_user_id p"]
    by (auto simp: pls_create_def readable_def)
  show ?thesis using PlCreateReq
    by (auto simp: create_playlist_def require_write_def create split: sum.splits)
next
  case (PlPatchReq pid name vis)
  show ?thesis
  proof (cases "load_owned p pid db")
    case (Inr row)
    show ?thesis using PlPatchReq Inr
      by (auto simp: patch_playlist_def hidden_load [OF ok] hidden_patch [OF ok Inr]
          split: sum.splits option.splits)
  qed (use PlPatchReq in \<open>simp add: patch_playlist_def hidden_load [OF ok] split: sum.splits\<close>)
next
  case (PlTracksReq pid ts mode)
  show ?thesis
  proof (cases "load_owned p pid db")
    case (Inr row)
    show ?thesis using PlTracksReq Inr
      by (auto simp: put_tracks_def hidden_load [OF ok] set_tracks_hidden [OF load_owned_id [OF Inr]]
          split: sum.splits option.splits)
  qed (use PlTracksReq in \<open>simp add: put_tracks_def hidden_load [OF ok] split: sum.splits\<close>)
next
  case (PlDeleteReq pid)
  show ?thesis
  proof (cases "load_owned p pid db")
    case (Inr row)
    show ?thesis using PlDeleteReq Inr
      by (auto simp: delete_playlist_def hidden_load [OF ok] hidden_delete [OF load_owned_id [OF Inr]]
          split: sum.splits)
  qed (use PlDeleteReq in \<open>simp add: delete_playlist_def hidden_load [OF ok] split: sum.splits\<close>)
qed

section \<open>Nobody changes a playlist of somebody else\<close>

definition others :: "int \<Rightarrow> playlist_row list \<Rightarrow> playlist_row list" where
  "others uid ps = filter (\<lambda>r. pl_owner_user_id r \<noteq> uid) ps"

lemma others_update_where:
  "(\<And>r. r \<in> set ps \<Longrightarrow> P r \<Longrightarrow> pl_owner_user_id r = uid) \<Longrightarrow> (\<And>r. pl_owner_user_id (f r) = pl_owner_user_id r) \<Longrightarrow>
   others uid (update_where P f ps) = others uid ps"
  by (induction ps) (auto simp: others_def)

lemma others_kept:
  assumes ok: "playlists_ok db"
  shows "others (pr_user_id p) (playlists (snd (playlist_step now p req db))) = others (pr_user_id p) (playlists db)
    \<and> (\<forall>r \<in> set (others (pr_user_id p) (playlists db)).
         members (pl_id r) (snd (playlist_step now p req db)) = members (pl_id r) db)"
proof -
  have mine: "pl_owner_user_id q = pr_user_id p"
    if "r \<in> set (playlists db)" "pl_owner_user_id r = pr_user_id p" "q \<in> set (playlists db)" "pl_id q = pl_id r" for r q
    using same_key_same_elem [OF playlists_ok_distinct [OF ok] that(3,1)] that(2,4) by simp
  show ?thesis
  proof (cases rule: playlist_step_cases [where now = now and p = p and req = req and db = db])
    case Unchanged
    then show ?thesis by simp
  next
    case (Created name pid n)
    show ?thesis unfolding Created(6) by (simp add: others_def members_def)
  next
    case (Patched r name vis n v)
    have "others (pr_user_id p) (update_where (\<lambda>q. pl_id q = pl_id r)
                 (\<lambda>q. q\<lparr>pl_name := (case n of Some n \<Rightarrow> n | None \<Rightarrow> pl_name q),
                       pl_visibility := (case v of Some v \<Rightarrow> v | None \<Rightarrow> pl_visibility q),
                       pl_updated_ms := now\<rparr>) (playlists db)) = others (pr_user_id p) (playlists db)"
      by (rule others_update_where) (simp_all add: mine [OF Patched(2,3)])
    then show ?thesis unfolding Patched(6) by (simp add: members_def)
  next
    case (Written r ts mode m w)
    have pid: "pl_id r \<in> pl_id ` set (playlists db)" using Written(2) by simp
    obtain n where "pls_set_tracks (pl_id r) ts m now db = Inr (\<lparr>tw_added = n, tw_skipped = length ts - n\<rparr>,
        db\<lparr>playlist_tracks := written_rows (pl_id r) m ts db,
           playlists := (if 0 < n \<or> m = ModeReplace then touched (pl_id r) now (playlists db) else playlists db)\<rparr>)"
      using set_tracks_tables [OF ok pid] by blast
    with Written(5) have "snd (playlist_step now p req db) = db\<lparr>playlist_tracks := written_rows (pl_id r) m ts db,
              playlists := (if 0 < n \<or> m = ModeReplace then touched (pl_id r) now (playlists db) else playlists db)\<rparr>"
      by simp
    moreover have "others (pr_user_id p) (touched (pl_id r) now (playlists db)) = others (pr_user_id p) (playlists db)"
      unfolding touched_def by (rule others_update_where) (simp_all add: mine [OF Written(2,3)])
    moreover have "pl_id q \<noteq> pl_id r" if "q \<in> set (others (pr_user_id p) (playlists db))" for q
      using that mine [OF Written(2,3), of q] by (auto simp: others_def)
    ultimately show ?thesis using set_tracks_ok(3) [OF ok pid Written(5)] by simp
  next
    case (Deleted r)
    have ne: "pl_id q \<noteq> pl_id r" if "q \<in> set (playlists db)" "pl_owner_user_id q \<noteq> pr_user_id p" for q
      using that mine [OF Deleted(2,3), of q] by auto
    then have "others (pr_user_id p) (playlists (pls_delete (pl_id r) db)) = others (pr_user_id p) (playlists db)"
      by (auto simp: others_def pls_delete_def intro!: filter_cong)
    then show ?thesis unfolding Deleted(5)
      using ne by (simp add: others_def members_def tracks_of_delete)
  qed
qed

lemma guests_change_nothing: "\<not> can p WritePlaylist \<Longrightarrow> snd (playlist_step now p req db) = db"
  by (cases rule: playlist_step_cases [where now = now and p = p and req = req and db = db]) simp_all

text \<open>Deleting users takes their playlists with them and leaves the other ones in order.\<close>

lemma delete_users_playlists_ok:
  assumes ok: "playlists_ok db"
  shows "playlists_ok (delete_users_where P db)"
proof -
  let ?db = "delete_users_where P db"
  let ?gone = "deleted_ids P db"
  have ps: "playlists ?db = filter (\<lambda>r. pl_owner_user_id r \<notin> ?gone) (playlists db)"
    and ts: "playlist_tracks ?db = filter (\<lambda>t. pt_playlist_id t \<notin>
        pl_id ` set (filter (\<lambda>r. pl_owner_user_id r \<in> ?gone) (playlists db))) (playlist_tracks db)"
    by (simp_all add: delete_users_where_def Let_def deleted_ids_def)
  have kept: "tracks_of (pl_id r) ?db = tracks_of (pl_id r) db" if "r \<in> set (playlists ?db)" for r
  proof -
    have r: "r \<in> set (playlists db)" "pl_owner_user_id r \<notin> ?gone" using that by (simp_all add: ps)
    have "pl_id r \<notin> pl_id ` set (filter (\<lambda>r. pl_owner_user_id r \<in> ?gone) (playlists db))"
    proof
      assume "pl_id r \<in> pl_id ` set (filter (\<lambda>r. pl_owner_user_id r \<in> ?gone) (playlists db))"
      then obtain q where q: "q \<in> set (playlists db)" "pl_owner_user_id q \<in> ?gone" "pl_id r = pl_id q" by auto
      from same_key_same_elem [OF playlists_ok_distinct [OF ok] r(1) q(1,3)] r(2) q(2) show False by simp
    qed
    then show ?thesis unfolding tracks_of_def ts filter_filter by (intro filter_cong refl) metis
  qed
  have "table_ok pl_id (\<lambda>p. pl_owner_user_id p \<in> user_ids db \<and> pl_visibility p \<in> {''private'', ''shared''}
         \<and> dense (tracks_of (pl_id p) db)) (playlists ?db)"
    unfolding ps by (rule table_ok_filter) (use ok in \<open>simp add: playlists_ok_def\<close>)
  then have "table_ok pl_id (\<lambda>p. pl_owner_user_id p \<in> user_ids ?db \<and> pl_visibility p \<in> {''private'', ''shared''}
         \<and> dense (tracks_of (pl_id p) ?db)) (playlists ?db)"
    by (rule table_ok_mono) (simp add: kept user_ids_delete, simp add: ps)
  moreover have "pt_playlist_id t \<in> pl_id ` set (playlists ?db)" if "t \<in> set (playlist_tracks ?db)" for t
  proof -
    have "t \<in> set (playlist_tracks db)" using that by (simp add: ts)
    then obtain r where "r \<in> set (playlists db)" "pl_id r = pt_playlist_id t"
      using ok by (auto simp: playlists_ok_def)
    then show ?thesis using that by (force simp: ts ps)
  qed
  ultimately show ?thesis by (simp add: playlists_ok_def)
qed

section \<open>Properties\<close>

fun minted_id :: "playlist_request \<Rightarrow> string set" where
  "minted_id (PlCreateReq name pid) = {pid}"
| "minted_id _ = {}"

text \<open>
  C24. Playlists are private. As long as a new playlist gets an id that no playlist has, what a
  caller is answered is what it would be answered if the private playlists of other users did not
  exist, and its effect on the rest is the same; no request changes a playlist of another user (name,
  visibility, times or tracks, shared or not), no request breaks the order of a membership, and a
  guest changes nothing.
\<close>

theorem playlists_are_private:
  assumes "playlists_ok db" "minted_id req \<inter> pl_id ` set (playlists db) = {}"
  shows "playlist_step now p req (without_hidden (pr_user_id p) db) =
      map_prod id (without_hidden (pr_user_id p)) (playlist_step now p req db)
    \<and> others (pr_user_id p) (playlists (snd (playlist_step now p req db))) = others (pr_user_id p) (playlists db)
    \<and> (\<forall>r \<in> set (others (pr_user_id p) (playlists db)).
         pls_track_ids (pl_id r) (snd (playlist_step now p req db)) = pls_track_ids (pl_id r) db)
    \<and> playlists_ok (snd (playlist_step now p req db))
    \<and> (pr_role p = Guest \<longrightarrow> snd (playlist_step now p req db) = db)"
proof -
  have ok: "playlists_ok (snd (playlist_step now p req db))" by (rule playlist_step_ok [OF assms(1)])
  have "playlist_step now p req (without_hidden (pr_user_id p) db) =
      map_prod id (without_hidden (pr_user_id p)) (playlist_step now p req db)"
    by (rule playlist_step_hidden [OF assms(1)]) (use assms(2) in auto)
  moreover have "pr_role p = Guest \<Longrightarrow> snd (playlist_step now p req db) = db"
    by (rule guests_change_nothing) (simp add: can_def)
  ultimately show ?thesis
    using others_kept [OF assms(1), of p now req] ok by (simp add: track_ids_members [OF ok] track_ids_members [OF assms(1)])
qed

definition demo_lists :: gateway_db where
  "demo_lists = empty_db\<lparr>users := [\<lparr>u_id = 1, u_username = Some ''owner'', u_display_name = None,
       u_role = ''admin'', u_password_hash = None, u_host_user_id = None, u_expires_at = None, u_created_at = 0\<rparr>,
       \<lparr>u_id = 2, u_username = Some ''ann'', u_display_name = None,
       u_role = ''user'', u_password_hash = None, u_host_user_id = None, u_expires_at = None, u_created_at = 0\<rparr>],
     playlists := [\<lparr>pl_id = ''a'', pl_owner_user_id = 1, pl_name = ''mine'', pl_visibility = ''private'',
         pl_created_ms = 1, pl_updated_ms = 1\<rparr>,
       \<lparr>pl_id = ''b'', pl_owner_user_id = 2, pl_name = ''hers'', pl_visibility = ''private'',
         pl_created_ms = 2, pl_updated_ms = 2\<rparr>],
     playlist_tracks := [\<lparr>pt_playlist_id = ''a'', pt_position = 0, pt_track_id = ''t1''\<rparr>,
       \<lparr>pt_playlist_id = ''b'', pt_position = 0, pt_track_id = ''t2''\<rparr>,
       \<lparr>pt_playlist_id = ''a'', pt_position = 1, pt_track_id = ''t3''\<rparr>]\<rparr>"

theorem playlists_are_private_witness:
  "others 1 (playlists (snd (playlist_step 9 owner (PlDeleteReq ''b'') demo_lists))) = others 1 (playlists demo_lists)
   \<and> fst (playlist_step 9 owner (PlDeleteReq ''b'') demo_lists) = PlError S_NOT_FOUND ''playlist not found''"
proof (rule conjI)
  have ok: "playlists_ok demo_lists" by code_simp
  have fresh: "minted_id (PlDeleteReq ''b'') \<inter> pl_id ` set (playlists demo_lists) = {}" by simp
  show "others 1 (playlists (snd (playlist_step 9 owner (PlDeleteReq ''b'') demo_lists))) = others 1 (playlists demo_lists)"
    using playlists_are_private [OF ok fresh, of 9 owner] by (simp add: owner_def OWNER_USER_ID_def)
  show "fst (playlist_step 9 owner (PlDeleteReq ''b'') demo_lists) = PlError S_NOT_FOUND ''playlist not found''"
    by code_simp
qed

text \<open>
  A membership write is an edit of a list: a successful \<open>PUT\<close> replaces the ordered track ids by
  the given ones, or appends those of them that are not in the list yet, each once; the counts it
  answers add up to the number of ids given, no other playlist changes, and appending to a list
  without repetitions leaves one without repetitions.
\<close>

theorem membership_write_is_list_edit:
  assumes "playlists_ok db" "put_tracks p pid ts mode now db = (PlWrite w, db')"
  shows "pls_track_ids pid db' =
      (if mode = Some ''append''
       then pls_track_ids pid db @ dedup_by (\<lambda>t. t) (set (pls_track_ids pid db)) ts else ts)
    \<and> (\<forall>q. q \<noteq> pid \<longrightarrow> pls_track_ids q db' = pls_track_ids q db)
    \<and> tw_added w + tw_skipped w = length ts
    \<and> (mode = Some ''append'' \<and> distinct (pls_track_ids pid db) \<longrightarrow> distinct (pls_track_ids pid db'))"
proof -
  let ?m = "if mode = Some ''append'' then ModeAppend else ModeReplace"
  obtain row where h: "load_owned p pid db = Inr row" "pls_set_tracks pid ts ?m now db = Inr (w, db')"
    using assms(2) by (auto simp: put_tracks_def require_write_def split: sum.splits if_splits option.splits)
  obtain r where "r \<in> set (playlists db)" "pl_id r = pid"
    using load_owned_SomeD [OF h(1)] by blast
  then have pid: "pid \<in> pl_id ` set (playlists db)" by auto
  note res = set_tracks_ok [OF assms(1) pid h(2)]
  have "tw_added w + tw_skipped w = length ts"
    using h(2) length_dedup_by [of "\<lambda>t. t" _ ts] unfolding pls_set_tracks_def
    by (auto simp: Let_def split: sum.splits if_splits)
  moreover have "distinct (xs @ dedup_by (\<lambda>t. t) (set xs) ts)" if "distinct xs" for xs :: "string list"
    using distinct_append_dedup_by [of "\<lambda>t. t" xs ts] that by simp
  ultimately show ?thesis
    using res(2,3) by (simp add: track_ids_members [OF res(1)] track_ids_members [OF assms(1)] new_members_def)
qed

theorem membership_write_is_list_edit_witness:
  "pls_track_ids ''a'' (snd (put_tracks owner ''a'' [''t3'', ''t4'', ''t4''] (Some ''append'') 9 demo_lists))
   = [''t1'', ''t3'', ''t4'']"
proof -
  have ok: "playlists_ok demo_lists" by code_simp
  have "put_tracks owner ''a'' [''t3'', ''t4'', ''t4''] (Some ''append'') 9 demo_lists =
      (PlWrite \<lparr>tw_added = 1, tw_skipped = 2\<rparr>,
       snd (put_tracks owner ''a'' [''t3'', ''t4'', ''t4''] (Some ''append'') 9 demo_lists))"
    by code_simp
  from membership_write_is_list_edit [OF ok this]
  have "pls_track_ids ''a'' (snd (put_tracks owner ''a'' [''t3'', ''t4'', ''t4''] (Some ''append'') 9 demo_lists)) =
      pls_track_ids ''a'' demo_lists @ dedup_by (\<lambda>t. t) (set (pls_track_ids ''a'' demo_lists)) [''t3'', ''t4'', ''t4'']"
    by simp
  also have "\<dots> = [''t1'', ''t3'', ''t4'']" by code_simp
  finally show ?thesis .
qed

end
