(* ===== verification/Lrc.thy ===== *)
theory Lrc
  imports Http_Text "HOL-Library.Sublist"
begin

text \<open>
  The LRC parser of the gateway (\<open>music-gateway/src/lyrics/lrc.rs\<close>). Arithmetic on \<open>i64\<close> wraps, as
  in the release profile of the workspace, which leaves overflow checks off; a division by zero
  panics in every profile and is the value \<open>Inl DivisionByZero\<close>. Text is ASCII where it is trimmed.

  Lemmas: what a document parses to is sorted and not before the start of the track; a document
  written line by line parses back to its lines; no document panics whose runs of digits are
  shorter than 67, and one with a longer run does.
\<close>

record lyric_line =
  ll_start_ms :: int
  ll_text :: string

datatype lrc_panic = DivisionByZero

section \<open>Machine integers and strings\<close>

text \<open>\<open>a / b\<close> rounds towards zero.\<close>

definition i64_quot :: "int \<Rightarrow> int \<Rightarrow> int" where
  "i64_quot a b = sgn a * sgn b * (\<bar>a\<bar> div \<bar>b\<bar>)"

definition is_digit :: "char \<Rightarrow> bool" where
  "is_digit c \<longleftrightarrow> 48 \<le> byte c \<and> byte c \<le> 57"

text \<open>\<open>str::parse::<i64>\<close>.\<close>

definition parse_i64 :: "string \<Rightarrow> int option" where
  "parse_i64 s =
     (let (neg, ds) = (case s of
            [] \<Rightarrow> (False, [])
          | c # cs \<Rightarrow> if c = CHR ''-'' then (True, cs) else if c = CHR ''+'' then (False, cs) else (False, s))
      in if ds = [] \<or> (\<exists>c \<in> set ds. \<not> is_digit c) then None
         else let v = int (digits_val 0 ds); x = (if neg then - v else v)
              in if is_i64 x then Some x else None)"

definition trim_start :: "string \<Rightarrow> string" where
  "trim_start s = dropWhile is_ws s"

definition trim_end :: "string \<Rightarrow> string" where
  "trim_end s = rev (dropWhile is_ws (rev s))"

definition strip_suffix :: "char \<Rightarrow> string \<Rightarrow> string option" where
  "strip_suffix c s = (if s \<noteq> [] \<and> last s = c then Some (butlast s) else None)"

definition rsplit_once :: "char \<Rightarrow> string \<Rightarrow> (string \<times> string) option" where
  "rsplit_once d s = map_option (\<lambda>(a, b). (rev b, rev a)) (split_once d (rev s))"

text \<open>\<open>str::lines\<close>: a carriage return before the line feed goes with it.\<close>

definition newline :: char where
  "newline = CHR 0x0A"

definition str_lines :: "string \<Rightarrow> string list" where
  "str_lines s =
     (let parts = split_on newline s;
          ended = map (\<lambda>l. case strip_suffix (CHR 0x0D) l of Some l' \<Rightarrow> l' | None \<Rightarrow> l) (butlast parts)
      in ended @ (if last parts = [] then [] else [last parts]))"

fun collect_opt :: "('a \<Rightarrow> 'b option) \<Rightarrow> 'a list \<Rightarrow> 'b list option" where
  "collect_opt f [] = Some []"
| "collect_opt f (x # xs) =
     (case f x of None \<Rightarrow> None | Some y \<Rightarrow> map_option ((#) y) (collect_opt f xs))"

section \<open>Timestamps\<close>

definition frac_exponent :: "nat \<Rightarrow> nat" where
  "frac_exponent len = (if len < 2 ^ 32 then len else 3) - 3"

definition frac_ms :: "string \<Rightarrow> lrc_panic + int option" where
  "frac_ms frac =
     (let digits = takeWhile is_digit frac
      in if digits = [] then Inr None
         else case parse_i64 digits of
           None \<Rightarrow> Inr None
         | Some v \<Rightarrow>
             if length digits = 1 then Inr (Some (i64_wrap (v * 100)))
             else if length digits = 2 then Inr (Some (i64_wrap (v * 10)))
             else let p = i64_wrap (10 ^ frac_exponent (length digits))
                  in if p = 0 then Inl DivisionByZero else Inr (Some (i64_quot v p)))"

fun unit_ms :: "int list \<Rightarrow> int option" where
  "unit_ms [m, s] = Some (i64_wrap (m * 60000 + s * 1000))"
| "unit_ms [h, m, s] = Some (i64_wrap (h * 3600000 + m * 60000 + s * 1000))"
| "unit_ms _ = None"

definition parse_timestamp :: "string \<Rightarrow> lrc_panic + int option" where
  "parse_timestamp inner0 =
     (let inner = trim inner0
      in if inner = [] \<or> \<not> is_digit (hd inner) then Inr None
         else let (time_part, frac_part) =
                (case split_once CHR ''.'' inner of
                   Some (t, f) \<Rightarrow> (t, Some f)
                 | None \<Rightarrow>
                     if length (filter (\<lambda>c. c = CHR '':'') inner) = 2
                     then (case rsplit_once CHR '':'' inner of
                             Some (t, f) \<Rightarrow> (t, Some f) | None \<Rightarrow> (inner, None))
                     else (inner, None))
           in case collect_opt (\<lambda>part. parse_i64 (trim part)) (split_on CHR '':'' time_part) of
                None \<Rightarrow> Inr None
              | Some units \<Rightarrow>
                  (case unit_ms units of
                     None \<Rightarrow> Inr None
                   | Some total_ms \<Rightarrow>
                       (case frac_part of
                          None \<Rightarrow> Inr (Some total_ms)
                        | Some frac \<Rightarrow>
                            (case frac_ms frac of
                               Inl e \<Rightarrow> Inl e
                             | Inr None \<Rightarrow> Inr None
                             | Inr (Some f) \<Rightarrow> Inr (Some (i64_wrap (total_ms + f)))))))"

section \<open>Lines\<close>

lemma split_once_length: "split_once d s = Some (a, b) \<Longrightarrow> length b < length s"
  by (induction s arbitrary: a b) (auto split: if_splits)

lemma strip_prefix_length: "strip_prefix p s = Some r \<Longrightarrow> length r + length p = length s"
  by (induction p s rule: strip_prefix.induct) (auto split: if_splits)

lemma trim_start_length: "length (trim_start s) \<le> length s"
  by (simp add: trim_start_def length_dropWhile_le)

lemma scan_decreases:
  "strip_prefix ''['' rest = Some stripped \<Longrightarrow> split_once CHR '']'' stripped = Some (inner, after) \<Longrightarrow>
   length (trim_start after) < length rest"
  using split_once_length [of "CHR '']''" stripped inner after] trim_start_length [of after]
    strip_prefix_length [of "''[''" rest stripped] by simp

text \<open>The loop over the leading brackets of a line.\<close>

function scan_brackets :: "string \<Rightarrow> bool \<Rightarrow> int list \<Rightarrow> lrc_panic + (int list \<times> bool \<times> string)" where
  "scan_brackets rest saw stamps =
     (case strip_prefix ''['' rest of
        None \<Rightarrow> Inr (stamps, saw, rest)
      | Some stripped \<Rightarrow>
          (case split_once CHR '']'' stripped of
             None \<Rightarrow> Inr (stamps, saw, rest)
           | Some (inner, after) \<Rightarrow>
               (case parse_timestamp inner of
                  Inl e \<Rightarrow> Inl e
                | Inr None \<Rightarrow> scan_brackets (trim_start after) True stamps
                | Inr (Some ms) \<Rightarrow> scan_brackets (trim_start after) True (stamps @ [ms]))))"
  by pat_completeness auto

termination
  by (relation "measure (\<lambda>(rest, _, _). length rest)") (auto simp: scan_decreases)

declare scan_brackets.simps [simp del]

definition split_line :: "string \<Rightarrow> lrc_panic + (int list \<times> string)" where
  "split_line line =
     (case scan_brackets (trim_start line) False [] of
        Inl e \<Rightarrow> Inl e
      | Inr (stamps, saw, rest) \<Rightarrow>
          if saw \<and> stamps = [] then Inr ([], []) else Inr (stamps, trim_end rest))"

definition find_offset :: "string \<Rightarrow> int" where
  "find_offset raw =
     (case first_some (\<lambda>line.
         case Option.bind (strip_prefix ''[offset:'' (trim line)) (strip_suffix CHR '']'') of
           None \<Rightarrow> None
         | Some inner \<Rightarrow>
             let v = trim inner; v = (case strip_prefix ''+'' v of Some w \<Rightarrow> w | None \<Rightarrow> v)
             in parse_i64 v) (str_lines raw) of
        Some ms \<Rightarrow> ms
      | None \<Rightarrow> 0)"

fun drop_tags :: "nat \<Rightarrow> string \<Rightarrow> string" where
  "drop_tags depth [] = []"
| "drop_tags depth (c # cs) =
     (if c = CHR ''<'' then drop_tags (depth + 1) cs
      else if c = CHR ''>'' then drop_tags (depth - 1) cs
      else if depth = 0 then c # drop_tags depth cs
      else drop_tags depth cs)"

definition strip_word_tags :: "string \<Rightarrow> string" where
  "strip_word_tags text = (if CHR ''<'' \<notin> set text then trim text else trim (drop_tags 0 text))"

section \<open>Documents\<close>

fun timed_lines :: "int \<Rightarrow> string list \<Rightarrow> lrc_panic + lyric_line list" where
  "timed_lines offset_ms [] = Inr []"
| "timed_lines offset_ms (l # ls) =
     (case split_line l of
        Inl e \<Rightarrow> Inl e
      | Inr (stamps, text) \<Rightarrow>
          (case timed_lines offset_ms ls of
             Inl e \<Rightarrow> Inl e
           | Inr rest \<Rightarrow>
               Inr (map (\<lambda>stamp. \<lparr>ll_start_ms = max 0 (i64_wrap (stamp - offset_ms)),
                                  ll_text = strip_word_tags text\<rparr>) stamps @ rest)))"

definition parse_lrc :: "string \<Rightarrow> lrc_panic + lyric_line list" where
  "parse_lrc raw =
     (case timed_lines (find_offset raw) (str_lines raw) of
        Inl e \<Rightarrow> Inl e
      | Inr out \<Rightarrow> Inr (sort_key ll_start_ms out))"

fun plain_lines :: "string list \<Rightarrow> lrc_panic + string list" where
  "plain_lines [] = Inr []"
| "plain_lines (l # ls) =
     (case split_line l of
        Inl e \<Rightarrow> Inl e
      | Inr (stamps, text) \<Rightarrow>
          (case plain_lines ls of
             Inl e \<Rightarrow> Inl e
           | Inr rest \<Rightarrow>
               Inr (if stamps = [] \<and> text = [] then rest
                    else let text = strip_word_tags text in if text = [] then rest else text # rest)))"

fun join_with :: "string \<Rightarrow> string list \<Rightarrow> string" where
  "join_with sep [] = []"
| "join_with sep [x] = x"
| "join_with sep (x # y # ys) = x @ sep @ join_with sep (y # ys)"

definition to_plain :: "string \<Rightarrow> lrc_panic + string" where
  "to_plain raw =
     (case plain_lines (str_lines raw) of Inl e \<Rightarrow> Inl e | Inr ls \<Rightarrow> Inr (join_with [newline] ls))"

fun any_stamped :: "string list \<Rightarrow> lrc_panic + bool" where
  "any_stamped [] = Inr False"
| "any_stamped (l # ls) =
     (case split_line l of
        Inl e \<Rightarrow> Inl e
      | Inr (stamps, _) \<Rightarrow> if stamps \<noteq> [] then Inr True else any_stamped ls)"

definition is_synced :: "string \<Rightarrow> lrc_panic + bool" where
  "is_synced raw = any_stamped (str_lines raw)"

section \<open>What a document parses to\<close>

lemma timed_lines_nonneg: "timed_lines off ls = Inr out \<Longrightarrow> l \<in> set out \<Longrightarrow> 0 \<le> ll_start_ms l"
  by (induction ls arbitrary: out) (auto split: sum.splits prod.splits)

lemma timed_lines_any: "timed_lines off ls = Inr out \<Longrightarrow> any_stamped ls = Inr (out \<noteq> [])"
proof (induction ls arbitrary: out)
  case (Cons l ls)
  obtain stamps body rest where h: "split_line l = Inr (stamps, body)" "timed_lines off ls = Inr rest"
    "out = map (\<lambda>stamp. \<lparr>ll_start_ms = max 0 (i64_wrap (stamp - off)), ll_text = strip_word_tags body\<rparr>) stamps @ rest"
    using Cons.prems by (auto split: sum.splits prod.splits)
  show ?case
    by (cases "stamps = []") (simp_all add: h Cons.IH [OF h(2)])
qed simp

lemma timed_lines_texts: "timed_lines off ls = Inr out \<Longrightarrow> l \<in> set out \<Longrightarrow> ll_text l \<in> range strip_word_tags"
  by (induction ls arbitrary: out) (auto split: sum.splits prod.splits)

section \<open>Which documents panic\<close>

lemma split_once_Some: "split_once d s = Some (a, b) \<Longrightarrow> s = a @ d # b \<and> d \<notin> set a"
  by (induction s arbitrary: a b) (auto split: if_splits)

lemma rsplit_once_Some: "rsplit_once d s = Some (a, b) \<Longrightarrow> s = a @ d # b"
proof -
  assume "rsplit_once d s = Some (a, b)"
  then obtain x y where "split_once d (rev s) = Some (x, y)" "a = rev y" "b = rev x"
    by (auto simp: rsplit_once_def)
  with split_once_Some [of d "rev s" x y] show ?thesis by (simp add: rev_swap)
qed

lemma sublist_trim_start: "sublist (trim_start s) s"
  by (simp add: trim_start_def suffix_dropWhile suffix_imp_sublist)

lemma sublist_trim_end: "sublist (trim_end s) s"
proof -
  have "prefix (trim_end s) s"
    using suffix_dropWhile [of is_ws "rev s"] by (simp add: trim_end_def suffix_to_prefix)
  then show ?thesis by (rule prefix_imp_sublist)
qed

lemma trim_split: "trim s = trim_end (trim_start s)"
  by (simp add: trim_def trim_start_def trim_end_def)

lemma sublist_trim: "sublist (trim s) s"
  unfolding trim_split by (rule sublist_order.order_trans [OF sublist_trim_end sublist_trim_start])

lemma sublist_split_once:
  "split_once d s = Some (a, b) \<Longrightarrow> sublist a s" "split_once d s = Some (a, b) \<Longrightarrow> sublist b s"
  by (auto dest!: split_once_Some simp: sublist_append sublist_Cons_right)

lemma sublist_rsplit_once: "rsplit_once d s = Some (a, b) \<Longrightarrow> sublist b s"
  by (auto dest!: rsplit_once_Some simp: sublist_append sublist_Cons_right)

lemma split_on_nonempty: "split_on d s \<noteq> []"
  by (induction s) (auto split: list.splits)

lemma sublist_split_on: "p \<in> set (split_on d s) \<Longrightarrow> sublist p s"
proof (induction s arbitrary: p)
  case (Cons c cs)
  have hd_prefix: "prefix (hd (split_on d s)) s" for s
    by (induction s) (auto split: list.splits)
  have "sublist x (c # cs)" if "x \<in> set (split_on d cs)" for x
    using Cons.IH [OF that] by (simp add: sublist_Cons_right)
  moreover have "sublist (c # hd (split_on d cs)) (c # cs)"
    by (rule prefix_imp_sublist) (simp add: hd_prefix)
  ultimately show ?case using Cons.prems split_on_nonempty [of d cs]
    by (auto split: if_splits list.splits)
qed simp

lemma sublist_str_lines: "l \<in> set (str_lines s) \<Longrightarrow> sublist l s"
proof -
  assume l: "l \<in> set (str_lines s)"
  obtain p where p: "p \<in> set (split_on newline s)" "prefix l p"
  proof -
    have "prefix (butlast q) q" for q :: string by (simp add: prefixeq_butlast)
    then have "prefix (case strip_suffix (CHR 0x0D) q of Some l' \<Rightarrow> l' | None \<Rightarrow> q) q" for q
      by (auto simp: strip_suffix_def)
    with l that last_in_set [OF split_on_nonempty [of newline s]] show ?thesis
      by (auto simp: str_lines_def Let_def split: if_splits dest!: in_set_butlastD)
  qed
  show "sublist l s"
    using sublist_order.order_trans [OF prefix_imp_sublist [OF p(2)] sublist_split_on [OF p(1)]] .
qed

lemma strip_prefix_Some: "strip_prefix p s = Some r \<Longrightarrow> s = p @ r"
  by (induction p s rule: strip_prefix.induct) (auto split: if_splits)

text \<open>A run of digits of the length at which the scale of a fraction wraps around to zero.\<close>

definition has_long_run :: "string \<Rightarrow> bool" where
  "has_long_run s \<longleftrightarrow> (\<exists>ds. sublist ds s \<and> (\<forall>c \<in> set ds. is_digit c) \<and> 67 \<le> length ds)"

lemma long_run_mono: "has_long_run t \<Longrightarrow> sublist t s \<Longrightarrow> has_long_run s"
  unfolding has_long_run_def using sublist_order.order_trans by blast

lemma i64_wrap_0: "i64_wrap x = 0 \<longleftrightarrow> x mod 18446744073709551616 = 0"
proof -
  have "i64_wrap x = 0 \<longleftrightarrow> (x + 9223372036854775808) mod 18446744073709551616 = 9223372036854775808 mod (18446744073709551616 :: int)"
    by (simp add: i64_wrap_def)
  also have "\<dots> \<longleftrightarrow> x mod 18446744073709551616 = 0"
    unfolding mod_eq_dvd_iff dvd_eq_mod_eq_0 by simp
  finally show ?thesis .
qed

lemma pow10_wrap: "i64_wrap (10 ^ e) = 0 \<longleftrightarrow> 64 \<le> e"
proof -
  have "i64_wrap (10 ^ e) = 0 \<longleftrightarrow> (2 :: int) ^ 64 dvd 10 ^ e"
    unfolding dvd_eq_mod_eq_0 using i64_wrap_0 [of "10 ^ e"] by simp
  also have "\<dots> \<longleftrightarrow> 64 \<le> e"
  proof
    assume dvd: "(2 :: int) ^ 64 dvd 10 ^ e"
    have "(10 :: int) ^ e = 2 ^ e * 5 ^ e" by (simp flip: power_mult_distrib)
    moreover have "coprime ((2 :: int) ^ 64) (5 ^ e)"
      by (simp only: coprime_power_left_iff coprime_power_right_iff coprime_left_2_iff_odd) simp
    ultimately have "(2 :: int) ^ 64 dvd 2 ^ e" using dvd by (simp add: coprime_dvd_mult_left_iff del: power_numeral_even)
    then have "(2 :: int) ^ 64 \<le> 2 ^ e" by (rule zdvd_imp_le) simp
    then show "64 \<le> e" by (rule power_le_imp_le_exp [rotated]) simp
  next
    assume "64 \<le> e"
    then have "(2 :: int) ^ 64 dvd 2 ^ e" by (rule le_imp_power_dvd)
    moreover have "(10 :: int) ^ e = 2 ^ e * 5 ^ e" by (simp flip: power_mult_distrib)
    ultimately show "(2 :: int) ^ 64 dvd 10 ^ e" by simp
  qed
  finally show ?thesis .
qed

lemma frac_ms_panic: "frac_ms f = Inl e \<Longrightarrow> has_long_run f"
proof -
  assume p: "frac_ms f = Inl e"
  then have "64 \<le> frac_exponent (length (takeWhile is_digit f))"
    by (auto simp: frac_ms_def Let_def pow10_wrap split: if_splits option.splits)
  then have "67 \<le> length (takeWhile is_digit f)" by (simp add: frac_exponent_def split: if_splits)
  moreover have "sublist (takeWhile is_digit f) f" by (simp add: takeWhile_is_prefix prefix_imp_sublist)
  ultimately show ?thesis unfolding has_long_run_def by (auto dest: set_takeWhileD)
qed

lemma parse_timestamp_panic: "parse_timestamp inner = Inl e \<Longrightarrow> has_long_run inner"
proof -
  assume p: "parse_timestamp inner = Inl e"
  let ?i = "trim inner"
  have "\<exists>t f. (split_once CHR ''.'' ?i = Some (t, f) \<or> rsplit_once CHR '':'' ?i = Some (t, f)) \<and> frac_ms f = Inl e"
    using p by (auto simp: parse_timestamp_def Let_def split: if_splits option.splits prod.splits sum.splits)
  then obtain f where "sublist f ?i" "frac_ms f = Inl e"
    by (auto dest: sublist_split_once sublist_rsplit_once)
  with long_run_mono [OF frac_ms_panic] sublist_order.order_trans [OF _ sublist_trim] show ?thesis by blast
qed

lemma scan_brackets_panic: "scan_brackets rest saw stamps = Inl e \<Longrightarrow> has_long_run rest"
proof (induction rest saw stamps rule: scan_brackets.induct)
  case (1 rest saw stamps)
  obtain stripped inner after where s: "strip_prefix ''['' rest = Some stripped" "split_once CHR '']'' stripped = Some (inner, after)"
    using "1.prems" by (auto simp: scan_brackets.simps [of rest] split: option.splits)
  have sub: "sublist stripped rest"
    using strip_prefix_Some [OF s(1)] by (simp add: sublist_Cons_right)
  note subs = sublist_order.order_trans [OF _ sub] sublist_split_once [OF s(2)]
  show ?case
  proof (cases "parse_timestamp inner")
    case (Inl e')
    then show ?thesis using long_run_mono [OF parse_timestamp_panic] subs by blast
  next
    case (Inr v)
    then have "has_long_run (trim_start after)"
      using "1.prems" "1.IH" s by (auto simp: scan_brackets.simps [of rest] split: option.splits)
    moreover have "sublist (trim_start after) rest"
      using sublist_order.order_trans [OF sublist_trim_start] subs by blast
    ultimately show ?thesis by (rule long_run_mono)
  qed
qed

lemma split_line_panic: "split_line line = Inl e \<Longrightarrow> has_long_run line"
  using long_run_mono [OF scan_brackets_panic sublist_trim_start]
  by (auto simp: split_line_def split: sum.splits if_splits prod.splits)

lemma lines_panic:
  "timed_lines off ls = Inl e \<Longrightarrow> \<exists>l \<in> set ls. has_long_run l"
  "plain_lines ls = Inl e \<Longrightarrow> \<exists>l \<in> set ls. has_long_run l"
  "any_stamped ls = Inl e \<Longrightarrow> \<exists>l \<in> set ls. has_long_run l"
  by (induction ls) (auto split: sum.splits prod.splits if_splits simp: Let_def dest: split_line_panic)

lemma document_panic:
  "parse_lrc raw = Inl e \<Longrightarrow> has_long_run raw"
  "to_plain raw = Inl e \<Longrightarrow> has_long_run raw"
  "is_synced raw = Inl e \<Longrightarrow> has_long_run raw"
  using lines_panic long_run_mono [OF _ sublist_str_lines]
  by (fastforce simp: parse_lrc_def to_plain_def is_synced_def split: sum.splits)+

section \<open>Documents in the standard form\<close>

text \<open>\<open>[mm:ss.xxx]\<close> and the document of a list of lines.\<close>

definition pad :: "nat \<Rightarrow> nat \<Rightarrow> string" where
  "pad k n = replicate (k - length (nat_str n)) CHR ''0'' @ nat_str n"

definition stamp_str :: "nat \<Rightarrow> string" where
  "stamp_str ms = pad 2 (ms div 60000) @ '':'' @ pad 2 (ms div 1000 mod 60) @ ''.'' @ pad 3 (ms mod 1000)"

definition lrc_line :: "lyric_line \<Rightarrow> string" where
  "lrc_line l = ''['' @ stamp_str (nat (ll_start_ms l)) @ '']'' @ ll_text l"

definition lrc_document :: "lyric_line list \<Rightarrow> string" where
  "lrc_document ls = concat (map (\<lambda>l. lrc_line l @ [newline]) ls)"

text \<open>Lines that the format can carry.\<close>

definition plain_line :: "lyric_line \<Rightarrow> bool" where
  "plain_line l \<longleftrightarrow> 0 \<le> ll_start_ms l \<and> ll_start_ms l \<le> i64_max
     \<and> trim (ll_text l) = ll_text l \<and> set (ll_text l) \<inter> {newline, CHR 0x0D, CHR ''<''} = {}
     \<and> (ll_text l = [] \<or> hd (ll_text l) \<noteq> CHR ''['')"

lemma is_digit_digit_char: "d < 10 \<Longrightarrow> is_digit (digit_char d)"
  by (simp add: is_digit_def byte_def of_digit_char)

lemma nat_str_is_digit: "c \<in> set (nat_str n) \<Longrightarrow> is_digit c"
  by (drule nat_str_digits) (auto simp: is_digit_def byte_def)

lemma pad_is_digit: "c \<in> set (pad k n) \<Longrightarrow> is_digit c"
  by (auto simp: pad_def is_digit_def [of "CHR ''0''"] byte_def dest: nat_str_is_digit)

lemma pad_nonempty: "pad k n \<noteq> []"
  by (simp add: pad_def nat_str_nonempty)

lemma digits_val_zeros: "digits_val 0 (replicate k CHR ''0'' @ s) = digits_val 0 s"
  by (induction k) simp_all

lemma digits_val_pad: "digits_val 0 (pad k n) = n"
  by (simp add: pad_def digits_val_zeros digits_val_nat_str)

lemma length_nat_str_le: "0 < k \<Longrightarrow> n < 10 ^ k \<Longrightarrow> length (nat_str n) \<le> k"
proof (induction n arbitrary: k rule: nat_str.induct)
  case (1 n)
  show ?case
  proof (cases "n < 10")
    case False
    with "1.prems" have "1 < k" by (cases "k = 1") auto
    then obtain j where j: "k = Suc j" "0 < j" by (cases k) auto
    have "n div 10 < 10 ^ j" using "1.prems"(2) j(1) by (simp add: less_mult_imp_div_less mult.commute)
    from "1.IH" [OF False j(2) this] False j show ?thesis by (subst nat_str.simps) simp
  qed (use "1.prems" in \<open>simp add: nat_str.simps [of n]\<close>)
qed

lemma length_pad: "0 < k \<Longrightarrow> n < 10 ^ k \<Longrightarrow> length (pad k n) = k"
  by (simp add: pad_def length_nat_str_le)

lemma is_digit_not:
  "is_digit c \<Longrightarrow> c \<noteq> CHR '':''" "is_digit c \<Longrightarrow> c \<noteq> CHR ''.''" "is_digit c \<Longrightarrow> c \<noteq> CHR '']''"
  "is_digit c \<Longrightarrow> c \<noteq> CHR ''-''" "is_digit c \<Longrightarrow> c \<noteq> CHR ''+''" "is_digit c \<Longrightarrow> c \<noteq> newline"
  "is_digit c \<Longrightarrow> \<not> is_ws c" "is_digit c \<Longrightarrow> c \<noteq> CHR 0x0D" "is_digit c \<Longrightarrow> c \<noteq> CHR ''o''"
  by (auto simp: is_digit_def is_ws_def byte_def newline_def)

lemma trim_no_ws: "(\<And>c. c \<in> set s \<Longrightarrow> \<not> is_ws c) \<Longrightarrow> trim s = s"
proof -
  assume n: "\<And>c. c \<in> set s \<Longrightarrow> \<not> is_ws c"
  have "dropWhile is_ws t = t" if "set t \<subseteq> set s" for t
    using n that by (cases t) auto
  then show ?thesis by (simp add: trim_def)
qed

lemma parse_i64_digits:
  assumes "\<And>c. c \<in> set s \<Longrightarrow> is_digit c" "s \<noteq> []" "int (digits_val 0 s) \<le> i64_max"
  shows "parse_i64 s = Some (int (digits_val 0 s))"
proof -
  obtain c cs where s: "s = c # cs" using assms(2) by (cases s) auto
  then have "is_digit c" using assms(1) by simp
  then have "c \<noteq> CHR ''-''" "c \<noteq> CHR ''+''" by (auto dest: is_digit_not)
  then show ?thesis using assms s by (auto simp: parse_i64_def Let_def is_i64_def i64_min_def)
qed

lemma parse_pad: "int n \<le> i64_max \<Longrightarrow> parse_i64 (trim (pad k n)) = Some (int n)"
  using parse_i64_digits [of "pad k n"] trim_no_ws [of "pad k n"]
  by (simp add: pad_is_digit pad_nonempty digits_val_pad is_digit_not)

lemma split_once_at: "d \<notin> set a \<Longrightarrow> split_once d (a @ d # b) = Some (a, b)"
  by (induction a) auto

lemma split_on_at: "d \<notin> set a \<Longrightarrow> split_on d (a @ d # b) = a # split_on d b"
  by (induction a) auto

lemma split_on_none: "d \<notin> set a \<Longrightarrow> split_on d a = [a]"
  by (induction a) auto

lemma i64_wrap_id: "is_i64 x \<Longrightarrow> i64_wrap x = x"
  by (simp add: i64_wrap_def is_i64_def i64_min_def i64_max_def)

lemma seconds: "a * 60 + b = q \<Longrightarrow> a * 60000 + b * 1000 = q * (1000 :: nat)"
  by simp

lemma parse_stamp:
  assumes "int ms \<le> i64_max"
  shows "parse_timestamp (stamp_str ms) = Inr (Some (int ms))"
proof -
  let ?m = "pad 2 (ms div 60000)" and ?s = "pad 2 (ms div 1000 mod 60)" and ?f = "pad 3 (ms mod 1000)"
  have digit: "is_digit c" if "c \<in> set ?m \<union> set ?s \<union> set ?f" for c
    using that pad_is_digit by blast
  have noton: "CHR ''.'' \<notin> set (?m @ '':'' @ ?s)" "CHR '':'' \<notin> set ?m" "CHR '':'' \<notin> set ?s"
    using digit is_digit_not by auto
  have nows: "trim (stamp_str ms) = stamp_str ms"
    by (rule trim_no_ws) (use digit is_digit_not in \<open>auto simp: stamp_str_def is_ws_def byte_def\<close>)
  have head: "stamp_str ms \<noteq> []" "is_digit (hd (stamp_str ms))"
    using pad_nonempty [of 2 "ms div 60000"] digit by (auto simp: stamp_str_def hd_append)
  have dot: "split_once CHR ''.'' (stamp_str ms) = Some (?m @ '':'' @ ?s, ?f)"
    using split_once_at [OF noton(1), of ?f] by (simp add: stamp_str_def)
  have colon: "split_on CHR '':'' (?m @ '':'' @ ?s) = [?m, ?s]"
    using split_on_at [OF noton(2), of ?s] by (simp add: split_on_none [OF noton(3)])
  have vals: "parse_i64 (trim ?m) = Some (int (ms div 60000))" "parse_i64 (trim ?s) = Some (int (ms div 1000 mod 60))"
    by (rule parse_pad, use assms in \<open>simp add: i64_max_def\<close>)+
  have take: "takeWhile is_digit ?f = ?f" using digit by (simp add: takeWhile_eq_all_conv)
  have len: "length ?f = 3" by (rule length_pad) simp_all
  have pf: "parse_i64 ?f = Some (int (ms mod 1000))"
    using parse_pad [of "ms mod 1000" 3] trim_no_ws [of ?f] digit is_digit_not by (simp add: i64_max_def)
  have frac: "frac_ms ?f = Inr (Some (int (ms mod 1000)))"
    unfolding frac_ms_def take Let_def pf len
    by (simp add: pad_nonempty frac_exponent_def i64_wrap_def i64_quot_def sgn_if)
  have whole: "unit_ms [int (ms div 60000), int (ms div 1000 mod 60)] = Some (int (ms div 1000 * 1000))"
  proof -
    have "ms div 60000 = ms div 1000 div 60" by (simp flip: div_mult2_eq)
    then have "ms div 60000 * 60000 + ms div 1000 mod 60 * 1000 = ms div 1000 * 1000"
      using seconds [OF div_mult_mod_eq [of "ms div 1000" 60]] by simp
    from arg_cong [OF this, of int]
    have "int (ms div 60000) * 60000 + int (ms div 1000 mod 60) * 1000 = int (ms div 1000 * 1000)"
      by simp
    moreover have "is_i64 (int (ms div 1000 * 1000))"
      using assms by (simp add: is_i64_def i64_min_def i64_max_def)
    ultimately show ?thesis by (simp only: unit_ms.simps i64_wrap_id)
  qed
  have "i64_wrap (int (ms div 1000 * 1000) + int (ms mod 1000)) = int ms"
  proof -
    have "int (ms div 1000 * 1000) + int (ms mod 1000) = int ms"
      using div_mult_mod_eq [of ms 1000] by (metis of_nat_add)
    moreover have "i64_wrap (int ms) = int ms"
      by (rule i64_wrap_id) (use assms in \<open>simp add: is_i64_def i64_min_def i64_max_def\<close>)
    ultimately show ?thesis by (simp only:)
  qed
  moreover have "collect_opt (\<lambda>part. parse_i64 (trim part)) (split_on CHR '':'' (?m @ '':'' @ ?s)) =
      Some [int (ms div 60000), int (ms div 1000 mod 60)]"
    by (simp only: colon collect_opt.simps vals option.case option.map)
  ultimately show ?thesis
    using head by (simp only: parse_timestamp_def nows Let_def dot option.case prod.case whole frac sum.case
        if_False not_True_eq_False simp_thms)
qed

lemma trim_start_id: "trim s = s \<Longrightarrow> trim_start s = s"
proof (cases s)
  case (Cons c cs)
  assume t: "trim s = s"
  show ?thesis
  proof (cases "is_ws c")
    case True
    then have "length (trim_start s) < length s"
      using length_dropWhile_le [of is_ws cs] by (simp add: trim_start_def Cons)
    moreover have "length (trim s) \<le> length (trim_start s)"
      unfolding trim_split by (rule sublist_length_le [OF sublist_trim_end])
    ultimately show ?thesis using t by simp
  qed (simp add: trim_start_def Cons)
qed (simp add: trim_start_def)

lemma trim_end_id: "trim s = s \<Longrightarrow> trim_end s = s"
  using trim_start_id [of s] by (simp add: trim_split)

lemma stamp_chars: "c \<in> set (stamp_str ms) \<Longrightarrow> is_digit c \<or> c = CHR '':'' \<or> c = CHR ''.''"
  by (auto simp: stamp_str_def dest: pad_is_digit)

lemma split_lrc_line:
  assumes "plain_line l"
  shows "split_line (lrc_line l) = Inr ([ll_start_ms l], ll_text l)"
proof -
  let ?st = "stamp_str (nat (ll_start_ms l))"
  have start: "trim_start (lrc_line l) = lrc_line l"
    by (simp add: lrc_line_def trim_start_def is_ws_def byte_def)
  have bracket: "split_once CHR '']'' (?st @ '']'' @ ll_text l) = Some (?st, ll_text l)"
    using split_once_at [of "CHR '']''" ?st "ll_text l"] stamp_chars [of "CHR '']''"] is_digit_not(3) by auto
  have stamp: "parse_timestamp ?st = Inr (Some (ll_start_ms l))"
    using parse_stamp [of "nat (ll_start_ms l)"] assms by (simp add: plain_line_def)
  have body: "trim_start (ll_text l) = ll_text l" "trim_end (ll_text l) = ll_text l"
    using assms trim_start_id trim_end_id by (auto simp: plain_line_def)
  have stop: "strip_prefix ''['' (ll_text l) = None"
    using assms by (cases "ll_text l") (auto simp: plain_line_def)
  have "scan_brackets (lrc_line l) False [] = Inr ([ll_start_ms l], True, ll_text l)"
    using bracket stamp
    by (subst scan_brackets.simps) (simp add: lrc_line_def body scan_brackets.simps [of "ll_text l"] stop)
  then show ?thesis by (simp add: split_line_def start body)
qed

lemma split_on_document:
  assumes "\<forall>l \<in> set ls. plain_line l"
  shows "split_on newline (lrc_document ls) = map lrc_line ls @ [[]]"
  using assms
proof (induction ls)
  case (Cons l ls)
  have "newline \<notin> set (lrc_line l)"
    using Cons.prems stamp_chars [of newline] is_digit_not(6) by (auto simp: lrc_line_def plain_line_def newline_def)
  from split_on_at [OF this, of "lrc_document ls"] Cons show ?case by (simp add: lrc_document_def)
qed (simp add: lrc_document_def)

lemma str_lines_document:
  assumes "\<forall>l \<in> set ls. plain_line l"
  shows "str_lines (lrc_document ls) = map lrc_line ls"
proof -
  have "strip_suffix (CHR 0x0D) (lrc_line l) = None" if "l \<in> set ls" for l
  proof -
    have "CHR 0x0D \<notin> set (lrc_line l)"
      using assms that stamp_chars [of "CHR 0x0D"] is_digit_not(8) by (auto simp: lrc_line_def plain_line_def)
    then show ?thesis by (auto simp: strip_suffix_def dest: last_in_set)
  qed
  then have "map (\<lambda>l. case strip_suffix (CHR 0x0D) l of Some l' \<Rightarrow> l' | None \<Rightarrow> l) (map lrc_line ls) = map lrc_line ls"
    by simp
  then show ?thesis by (simp add: str_lines_def Let_def split_on_document [OF assms] butlast_append)
qed

lemma find_offset_document:
  assumes "\<forall>l \<in> set ls. plain_line l"
  shows "find_offset (lrc_document ls) = 0"
proof -
  have no: "strip_prefix ''[offset:'' (trim (lrc_line l)) = None" for l
  proof -
    let ?rest = "stamp_str (nat (ll_start_ms l)) @ '']'' @ ll_text l"
    obtain c cs where c: "stamp_str (nat (ll_start_ms l)) = c # cs" "is_digit c"
      using pad_nonempty [of 2 "nat (ll_start_ms l) div 60000"] pad_is_digit [of _ 2 "nat (ll_start_ms l) div 60000"]
      by (cases "pad 2 (nat (ll_start_ms l) div 60000)") (auto simp: stamp_str_def)
    have "trim_start (lrc_line l) = lrc_line l"
      by (simp add: lrc_line_def trim_start_def is_ws_def byte_def)
    then have "prefix (trim (lrc_line l)) (lrc_line l)"
      unfolding trim_split using suffix_dropWhile [of is_ws "rev (lrc_line l)"]
      by (simp add: trim_end_def suffix_to_prefix)
    then obtain zs where zs: "lrc_line l = trim (lrc_line l) @ zs" by (auto elim: prefixE)
    show ?thesis
    proof (rule ccontr)
      assume "strip_prefix ''[offset:'' (trim (lrc_line l)) \<noteq> None"
      then obtain r where "trim (lrc_line l) = ''[offset:'' @ r" by (auto dest: strip_prefix_Some)
      with zs have "lrc_line l = ''[offset:'' @ r @ zs" by simp
      then have "c = CHR ''o''" by (simp add: lrc_line_def c)
      with c(2) show False by (simp add: is_digit_def byte_def)
    qed
  qed
  have "first_some f (map lrc_line ls) = None" if "\<And>l. f (lrc_line l) = None" for f :: "string \<Rightarrow> int option"
    using that by (induction ls) auto
  then show ?thesis unfolding find_offset_def str_lines_document [OF assms] by (simp add: no)
qed

lemma timed_lines_document:
  assumes "\<forall>l \<in> set ls. plain_line l"
  shows "timed_lines 0 (map lrc_line ls) = Inr ls"
  using assms
proof (induction ls)
  case (Cons l ls)
  then have l: "plain_line l" by simp
  have "strip_word_tags (ll_text l) = ll_text l" "0 \<le> ll_start_ms l" "is_i64 (ll_start_ms l)"
    using l by (auto simp: plain_line_def strip_word_tags_def is_i64_def i64_min_def)
  then show ?case using Cons by (simp add: split_lrc_line [OF l] i64_wrap_id)
qed simp

section \<open>Properties\<close>

text \<open>
  C25. Writing timed lines in the standard form and parsing the document gives the lines back, in the
  order of their time stamps and with equal time stamps in document order: nothing is lost, changed
  or added, for every time an \<open>i64\<close> of milliseconds can hold and every text that is trimmed, has no line
  break and no angle bracket and does not start with a square one.
\<close>

theorem lrc_roundtrip:
  assumes "\<forall>l \<in> set ls. plain_line l"
  shows "parse_lrc (lrc_document ls) = Inr (sort_key ll_start_ms ls)"
  by (simp add: parse_lrc_def find_offset_document [OF assms] str_lines_document [OF assms]
      timed_lines_document [OF assms])

theorem lrc_roundtrip_witness:
  "parse_lrc (lrc_document [\<lparr>ll_start_ms = 61520, ll_text = ''b''\<rparr>, \<lparr>ll_start_ms = 5, ll_text = []\<rparr>])
   = Inr [\<lparr>ll_start_ms = 5, ll_text = []\<rparr>, \<lparr>ll_start_ms = 61520, ll_text = ''b''\<rparr>]"
proof -
  have "\<forall>l \<in> set [\<lparr>ll_start_ms = 61520, ll_text = ''b''\<rparr>, \<lparr>ll_start_ms = 5, ll_text = []\<rparr>]. plain_line l"
    by code_simp
  from lrc_roundtrip [OF this] show ?thesis by simp
qed

text \<open>
  What any document parses to. A document without a run of 67 digits does not panic the parser; what it
  parses to is in the order of its time stamps, none of them negative, and is empty exactly when
  the document is not synced. A longer run of digits in a fraction does panic it, by a division by
  a power of ten that has wrapped around to zero.
\<close>

theorem lrc_parses:
  assumes "\<not> has_long_run raw"
  shows "(\<exists>out. parse_lrc raw = Inr out \<and> sorted (map ll_start_ms out)
      \<and> (\<forall>l \<in> set out. 0 \<le> ll_start_ms l) \<and> is_synced raw = Inr (out \<noteq> []))
    \<and> (\<exists>p. to_plain raw = Inr p)
    \<and> parse_lrc (''[00:01.'' @ replicate 67 CHR ''0'' @ '']x'') = Inl DivisionByZero"
proof (intro conjI)
  obtain out where p: "timed_lines (find_offset raw) (str_lines raw) = Inr out"
    using document_panic(1) [of raw] assms
    by (cases "timed_lines (find_offset raw) (str_lines raw)") (auto simp: parse_lrc_def)
  have "sort_key ll_start_ms out = [] \<longleftrightarrow> out = []"
    by (metis length_0_conv length_sort)
  then show "\<exists>out. parse_lrc raw = Inr out \<and> sorted (map ll_start_ms out)
      \<and> (\<forall>l \<in> set out. 0 \<le> ll_start_ms l) \<and> is_synced raw = Inr (out \<noteq> [])"
    using timed_lines_any [OF p] timed_lines_nonneg [OF p]
    by (intro exI [of _ "sort_key ll_start_ms out"]) (simp add: parse_lrc_def p is_synced_def)
  show "\<exists>p. to_plain raw = Inr p"
    using document_panic(2) [of raw] assms by (cases "to_plain raw") auto
  show "parse_lrc (''[00:01.'' @ replicate 67 CHR ''0'' @ '']x'') = Inl DivisionByZero"
    by code_simp
qed

lemma short_document: "length raw < 67 \<Longrightarrow> \<not> has_long_run raw"
  unfolding has_long_run_def using sublist_length_le by force

theorem lrc_parses_witness: "\<exists>out. parse_lrc ''[00:30:25]x'' = Inr out \<and> sorted (map ll_start_ms out)"
proof -
  have "\<not> has_long_run ''[00:30:25]x''" by (rule short_document) simp
  from lrc_parses [OF this] show ?thesis by blast
qed

end
