(* ===== verification/Keyed_Store.thy ===== *)
theory Keyed_Store
  imports Gateway_Db
begin

text \<open>
  The interface of a table that is read, written and deleted by one key (\<open>SELECT ... WHERE key = ?\<close>,
  \<open>INSERT ... ON CONFLICT DO UPDATE\<close>, \<open>DELETE ... WHERE key = ?\<close>): the caches of lyrics and of
  browse responses. \<open>keyed_store\<close> states what its clients rely on; \<open>upsert_row\<close> is the statement on
  a list of rows.
\<close>

locale keyed_store =
  fixes look :: "'k \<Rightarrow> 't \<Rightarrow> 'v option"
    and put :: "'v \<Rightarrow> 't \<Rightarrow> 't"
    and del :: "'k \<Rightarrow> 't \<Rightarrow> 't"
    and key :: "'v \<Rightarrow> 'k"
  assumes look_put: "look k (put v t) = (if k = key v then Some v else look k t)"
    and look_del: "look k (del j t) = (if k = j then None else look k t)"
begin

lemma look_put_same: "look (key v) (put v t) = Some v"
  by (simp add: look_put)

lemma look_put_other: "k \<noteq> key v \<Longrightarrow> look k (put v t) = look k t"
  by (simp add: look_put)

text \<open>The last write of a key is what is read.\<close>

lemma look_puts:
  "look k (fold put vs t) = (case find (\<lambda>v. key v = k) (rev vs) of Some v \<Rightarrow> Some v | None \<Rightarrow> look k t)"
proof (induction vs rule: rev_induct)
  case (snoc v vs)
  then show ?case by (auto simp: look_put)
qed simp

lemma put_after_del: "look k (put v (del (key v) t)) = look k (put v t)"
  by (simp add: look_put look_del)

end

definition upsert_row :: "('r \<Rightarrow> 'k) \<Rightarrow> 'r \<Rightarrow> 'r list \<Rightarrow> 'r list" where
  "upsert_row key r t =
     (if \<exists>c \<in> set t. key c = key r then update_where (\<lambda>c. key c = key r) (\<lambda>_. r) t else t @ [r])"

lemma find_upsert_row:
  "find (\<lambda>c. key c = k) (upsert_row key r t) =
     (if k = key r then Some r else find (\<lambda>c. key c = k) t)"
proof (cases "\<exists>c \<in> set t. key c = key r")
  case True
  then have "find (\<lambda>c. key c = k) (update_where (\<lambda>c. key c = key r) (\<lambda>_. r) t) =
      (if k = key r then Some r else find (\<lambda>c. key c = k) t)"
  proof (induction t)
    case (Cons c t)
    show ?case
    proof (cases "\<exists>c \<in> set t. key c = key r")
      case True
      from Cons.IH [OF this] show ?thesis by auto
    next
      case False
      then have "update_where (\<lambda>c. key c = key r) (\<lambda>_. r) t = t" by (intro update_where_none) auto
      with Cons.prems False show ?thesis by auto
    qed
  qed simp
  with True show ?thesis by (simp add: upsert_row_def)
next
  case False
  then have "find (\<lambda>c. key c = key r) t = None" by (auto simp: find_None_iff)
  with False show ?thesis by (auto simp: upsert_row_def find_snoc split: option.split)
qed

lemma find_delete_row:
  "find (\<lambda>c. key c = k) (filter (\<lambda>c. key c \<noteq> j) t) = (if k = j then None else find (\<lambda>c. key c = k) t)"
  by (induction t) auto

lemma map_upsert_existing: "map key (update_where (\<lambda>c. key c = key r) (\<lambda>_. r) t) = map key t"
  by (induction t) auto

lemma upsert_row_keys: "key ` set (upsert_row key r t) = insert (key r) (key ` set t)"
proof (cases "\<exists>c \<in> set t. key c = key r")
  case True
  then have "key ` set (upsert_row key r t) = key ` set t"
    using map_upsert_existing [of key r t] by (simp add: upsert_row_def flip: set_map)
  with True show ?thesis by (metis image_eqI insert_absorb)
qed (simp add: upsert_row_def)

lemma upsert_row_distinct: "distinct (map key t) \<Longrightarrow> distinct (map key (upsert_row key r t))"
  by (auto simp: upsert_row_def map_upsert_existing)

end
