(* ===== verification/Lyrics.thy ===== *)
theory Lyrics
  imports Lrc Keyed_Store Complex_Main
begin

text \<open>
  The gateway's lyrics: the cache table (\<open>music-recommend/src/lyrics.rs\<close>), the tiered resolver
  (\<open>music-gateway/src/lyrics/resolver.rs\<close>) with the provider entry of \<open>lrclib.rs\<close>, and the two
  endpoints (\<open>handlers.rs\<close>). What Navidrome, the provider and the metadata table answer are fields of
  \<open>lyrics_env\<close>, functions of the question, \<open>Inl ()\<close> for a failed call. A duration is a
  rational number; \<open>serde\<close> restores the lines it wrote. SQL errors are not modelled, a panic of the
  LRC parser is.

  Lemmas: a row read is the row written; a failure is never cached; the file's own tags win, and a
  fuzzy match is taken only within the tolerance.
\<close>

section \<open>The cache\<close>

datatype lyrics_source = Navidrome | Lrclib | NoLyrics

fun source_str :: "lyrics_source \<Rightarrow> string" where
  "source_str Navidrome = ''navidrome''"
| "source_str Lrclib = ''lrclib''"
| "source_str NoLyrics = ''none''"

definition source_parse :: "string \<Rightarrow> lyrics_source" where
  "source_parse s = (if s = ''navidrome'' then Navidrome else if s = ''lrclib'' then Lrclib else NoLyrics)"

datatype match_kind = Exact | NoAlbum | Search

fun match_str :: "match_kind \<Rightarrow> string" where
  "match_str Exact = ''exact''"
| "match_str NoAlbum = ''no_album''"
| "match_str Search = ''search''"

definition match_parse :: "string \<Rightarrow> match_kind option" where
  "match_parse s =
     (if s = ''exact'' then Some Exact else if s = ''no_album'' then Some NoAlbum
      else if s = ''search'' then Some Search else None)"

record lyrics_row =
  ly_track_id :: string
  ly_source :: lyrics_source
  ly_match_kind :: "match_kind option"
  ly_synced :: bool
  ly_instrumental :: bool
  ly_plain_text :: "string option"
  ly_lines :: "lyric_line list"
  ly_provider_id :: "string option"
  ly_fetched_at :: int
  ly_expires_at :: int

definition lyrics_miss :: "string \<Rightarrow> int \<Rightarrow> int \<Rightarrow> lyrics_row" where
  "lyrics_miss tid now ttl =
     \<lparr>ly_track_id = tid, ly_source = NoLyrics, ly_match_kind = None, ly_synced = False,
      ly_instrumental = False, ly_plain_text = None, ly_lines = [], ly_provider_id = None,
      ly_fetched_at = now, ly_expires_at = i64_sat (now + ttl)\<rparr>"

definition is_expired :: "lyrics_row \<Rightarrow> int \<Rightarrow> bool" where
  "is_expired r now \<longleftrightarrow> ly_expires_at r \<le> now"

definition has_text :: "lyrics_row \<Rightarrow> bool" where
  "has_text r \<longleftrightarrow> ly_lines r \<noteq> [] \<or> ly_plain_text r \<noteq> None"

text \<open>The columns of \<open>track_lyrics\<close>; \<open>lines_json\<close> by the lines it encodes.\<close>

record lyrics_cols =
  lc_track_id :: string
  lc_source :: string
  lc_match_kind :: "string option"
  lc_synced :: int
  lc_instrumental :: int
  lc_plain_text :: "string option"
  lc_lines_json :: "lyric_line list option"
  lc_provider_id :: "string option"
  lc_fetched_at :: int
  lc_expires_at :: int

type_synonym lyrics_table = "lyrics_cols list"

definition to_cols :: "lyrics_row \<Rightarrow> lyrics_cols" where
  "to_cols r =
     \<lparr>lc_track_id = ly_track_id r, lc_source = source_str (ly_source r),
      lc_match_kind = map_option match_str (ly_match_kind r),
      lc_synced = (if ly_synced r then 1 else 0), lc_instrumental = (if ly_instrumental r then 1 else 0),
      lc_plain_text = ly_plain_text r, lc_lines_json = (if ly_lines r = [] then None else Some (ly_lines r)),
      lc_provider_id = ly_provider_id r, lc_fetched_at = ly_fetched_at r, lc_expires_at = ly_expires_at r\<rparr>"

definition row_to_lyrics :: "lyrics_cols \<Rightarrow> lyrics_row" where
  "row_to_lyrics c =
     \<lparr>ly_track_id = lc_track_id c, ly_source = source_parse (lc_source c),
      ly_match_kind = Option.bind (lc_match_kind c) match_parse,
      ly_synced = (lc_synced c \<noteq> 0), ly_instrumental = (lc_instrumental c \<noteq> 0),
      ly_plain_text = lc_plain_text c,
      ly_lines = (case lc_lines_json c of Some ls \<Rightarrow> ls | None \<Rightarrow> []),
      ly_provider_id = lc_provider_id c, ly_fetched_at = lc_fetched_at c, ly_expires_at = lc_expires_at c\<rparr>"

definition lyrics_get :: "string \<Rightarrow> lyrics_table \<Rightarrow> lyrics_row option" where
  "lyrics_get tid t = map_option row_to_lyrics (find (\<lambda>c. lc_track_id c = tid) t)"

definition lyrics_upsert :: "lyrics_row \<Rightarrow> lyrics_table \<Rightarrow> lyrics_table" where
  "lyrics_upsert r t = upsert_row lc_track_id (to_cols r) t"

definition lyrics_delete :: "string \<Rightarrow> lyrics_table \<Rightarrow> lyrics_table" where
  "lyrics_delete tid t = filter (\<lambda>c. lc_track_id c \<noteq> tid) t"

section \<open>What the sources answer\<close>

record subsonic_line =
  sl_start_ms :: "int option"
  sl_text :: string

record structured_lyrics =
  sb_synced :: bool
  sb_lines :: "subsonic_line list"

record lrclib_hit =
  lh_id :: int
  lh_duration :: "rat option"
  lh_instrumental :: bool
  lh_plain :: "string option"
  lh_synced :: "string option"

definition has_content :: "lrclib_hit \<Rightarrow> bool" where
  "has_content h \<longleftrightarrow> lh_instrumental h
     \<or> (case lh_synced h of Some s \<Rightarrow> trim s \<noteq> [] | None \<Rightarrow> False)
     \<or> (case lh_plain h of Some s \<Rightarrow> trim s \<noteq> [] | None \<Rightarrow> False)"

record lookup_key =
  lk_artist :: string
  lk_title :: string
  lk_album :: "string option"
  lk_duration :: "nat option"

record lyrics_env =
  le_navidrome :: "string \<Rightarrow> unit + structured_lyrics list"
  le_metadata :: "string \<Rightarrow> unit + lookup_key option"
  le_song :: "string \<Rightarrow> unit + (string option \<times> string \<times> string option \<times> nat option)"
  le_get :: "string \<Rightarrow> string \<Rightarrow> string option \<Rightarrow> nat option \<Rightarrow> unit + lrclib_hit option"
  le_search :: "string \<Rightarrow> string \<Rightarrow> unit + lrclib_hit list"

record lyrics_cfg =
  lg_external :: bool
  lg_hit_ttl :: int
  lg_miss_ttl :: int
  lg_tolerance :: nat

definition days_to_ms :: "nat \<Rightarrow> int" where
  "days_to_ms days = int days * 24 * 60 * 60 * 1000"

datatype resolve_error = Disabled | ProviderUnavailable

section \<open>Rows from answers\<close>

definition row_from_navidrome :: "string \<Rightarrow> structured_lyrics list \<Rightarrow> int \<Rightarrow> int \<Rightarrow> lyrics_row option" where
  "row_from_navidrome tid blocks now ttl =
     (let synced = find (\<lambda>b. sb_synced b \<and> (\<exists>l \<in> set (sb_lines b). sl_start_ms l \<noteq> None)) blocks;
          block = (case synced of Some b \<Rightarrow> Some b
                   | None \<Rightarrow> find (\<lambda>b. \<exists>l \<in> set (sb_lines b). trim (sl_text l) \<noteq> []) blocks)
      in case block of
           None \<Rightarrow> None
         | Some b \<Rightarrow>
             let lines = List.map_filter (\<lambda>l. map_option (\<lambda>s. \<lparr>ll_start_ms = max 0 s, ll_text = trim (sl_text l)\<rparr>)
                           (sl_start_ms l)) (sb_lines b);
                 plain = filter (\<lambda>t. t \<noteq> []) (map (\<lambda>l. trim (sl_text l)) (sb_lines b))
             in if lines = [] \<and> plain = [] then None
                else Some \<lparr>ly_track_id = tid, ly_source = Navidrome, ly_match_kind = None,
                  ly_synced = (lines \<noteq> []), ly_instrumental = False,
                  ly_plain_text = (if plain \<noteq> [] then Some (join_with [newline] plain) else None),
                  ly_lines = lines, ly_provider_id = None,
                  ly_fetched_at = now, ly_expires_at = i64_sat (now + ttl)\<rparr>)"

definition row_from_lrclib :: "string \<Rightarrow> lrclib_hit \<Rightarrow> match_kind \<Rightarrow> int \<Rightarrow> int \<Rightarrow> lrc_panic + lyrics_row" where
  "row_from_lrclib tid hit kind now ttl =
     (let synced_text = (case lh_synced hit of Some s \<Rightarrow> s | None \<Rightarrow> [])
      in case parse_lrc synced_text of
           Inl e \<Rightarrow> Inl e
         | Inr lines \<Rightarrow>
             (case (case Option.bind (lh_plain hit) (\<lambda>s. if trim s \<noteq> [] then Some (trim s) else None) of
                      Some s \<Rightarrow> Inr (Some s)
                    | None \<Rightarrow>
                        (case to_plain synced_text of
                           Inl e \<Rightarrow> Inl e
                         | Inr derived \<Rightarrow> Inr (if derived \<noteq> [] then Some derived else None))) of
                Inl e \<Rightarrow> Inl e
              | Inr plain_text \<Rightarrow>
                  Inr \<lparr>ly_track_id = tid, ly_source = Lrclib, ly_match_kind = Some kind,
                    ly_synced = (lines \<noteq> []), ly_instrumental = lh_instrumental hit,
                    ly_plain_text = plain_text, ly_lines = lines,
                    ly_provider_id = Some (int_str (lh_id hit)),
                    ly_fetched_at = now, ly_expires_at = i64_sat (now + ttl)\<rparr>))"

text \<open>\<open>f64::round\<close>: halves away from zero.\<close>

definition round_away :: "rat \<Rightarrow> int" where
  "round_away d = (if 0 \<le> d then \<lfloor>d + 1 / 2\<rfloor> else - \<lfloor>- d + 1 / 2\<rfloor>)"

definition within_tolerance :: "nat \<Rightarrow> nat \<Rightarrow> lrclib_hit \<Rightarrow> bool" where
  "within_tolerance ours tolerance h \<longleftrightarrow>
     (case lh_duration h of None \<Rightarrow> False
      | Some d \<Rightarrow> \<bar>max (round_away d) 0 - int ours\<bar> \<le> int tolerance)"

definition has_synced :: "lrclib_hit \<Rightarrow> lrc_panic + bool" where
  "has_synced h = (case lh_synced h of None \<Rightarrow> Inr False | Some s \<Rightarrow> is_synced s)"

text \<open>\<open>Iterator::find\<close> with a predicate that may panic.\<close>

fun find_or_panic :: "('a \<Rightarrow> 'e + bool) \<Rightarrow> 'a list \<Rightarrow> 'e + 'a option" where
  "find_or_panic P [] = Inr None"
| "find_or_panic P (x # xs) =
     (case P x of Inl e \<Rightarrow> Inl e | Inr b \<Rightarrow> if b then Inr (Some x) else find_or_panic P xs)"

definition pick_candidate :: "lrclib_hit list \<Rightarrow> nat \<Rightarrow> nat \<Rightarrow> lrc_panic + lrclib_hit option" where
  "pick_candidate candidates ours tolerance =
     (case find_or_panic (\<lambda>h. if within_tolerance ours tolerance h then has_synced h else Inr False) candidates of
        Inl e \<Rightarrow> Inl e
      | Inr (Some h) \<Rightarrow> Inr (Some h)
      | Inr None \<Rightarrow> Inr (find (\<lambda>h. within_tolerance ours tolerance h \<and> has_content h) candidates))"

section \<open>The resolver\<close>

definition non_blank :: "string option \<Rightarrow> string option" where
  "non_blank a = (case a of Some s \<Rightarrow> if trim s \<noteq> [] then Some s else None | None \<Rightarrow> None)"

definition find_lookup_key :: "lyrics_env \<Rightarrow> string \<Rightarrow> unit + lookup_key option" where
  "find_lookup_key env tid =
     (case le_metadata env tid of
        Inr (Some m) \<Rightarrow> Inr (Some (m\<lparr>lk_album := non_blank (lk_album m)\<rparr>))
      | Inl _ \<Rightarrow> Inl ()
      | Inr None \<Rightarrow>
          (case le_song env tid of
             Inl _ \<Rightarrow> Inl ()
           | Inr (artist, title, album, duration) \<Rightarrow>
               let artist = (case artist of Some a \<Rightarrow> a | None \<Rightarrow> [])
               in if trim artist = [] \<or> trim title = [] then Inr None
                  else Inr (Some \<lparr>lk_artist = artist, lk_title = title, lk_album = non_blank album,
                     lk_duration = duration\<rparr>)))"

text \<open>A tier that asks for one entry: it answers, has nothing, or could not be evaluated.\<close>

datatype tier = Answer lyrics_row | Nothing | Failed

definition entry_tier ::
  "string \<Rightarrow> unit + lrclib_hit option \<Rightarrow> match_kind \<Rightarrow> int \<Rightarrow> int \<Rightarrow> lrc_panic + tier" where
  "entry_tier tid reply kind now ttl =
     (case reply of
        Inr (Some hit) \<Rightarrow>
          if has_content hit
          then (case row_from_lrclib tid hit kind now ttl of Inl e \<Rightarrow> Inl e | Inr r \<Rightarrow> Inr (Answer r))
          else Inr Nothing
      | Inr None \<Rightarrow> Inr Nothing
      | Inl _ \<Rightarrow> Inr Failed)"

definition search_tier ::
  "lyrics_env \<Rightarrow> lyrics_cfg \<Rightarrow> string \<Rightarrow> lookup_key \<Rightarrow> int \<Rightarrow> lrc_panic + tier" where
  "search_tier env cfg tid key now =
     (case lk_duration key of
        None \<Rightarrow> Inr Nothing
      | Some ours \<Rightarrow>
          (case le_search env (lk_artist key) (lk_title key) of
             Inl _ \<Rightarrow> Inr Failed
           | Inr candidates \<Rightarrow>
               (case pick_candidate candidates ours (lg_tolerance cfg) of
                  Inl e \<Rightarrow> Inl e
                | Inr None \<Rightarrow> Inr Nothing
                | Inr (Some hit) \<Rightarrow>
                    (case row_from_lrclib tid hit Search now (lg_hit_ttl cfg) of
                       Inl e \<Rightarrow> Inl e | Inr r \<Rightarrow> Inr (Answer r)))))"

definition exact_tier ::
  "lyrics_env \<Rightarrow> lyrics_cfg \<Rightarrow> string \<Rightarrow> lookup_key \<Rightarrow> int \<Rightarrow> lrc_panic + tier" where
  "exact_tier env cfg tid key now =
     (if lk_album key = None then Inr Nothing
      else entry_tier tid (le_get env (lk_artist key) (lk_title key) (lk_album key) (lk_duration key))
             Exact now (lg_hit_ttl cfg))"

definition album_free_tier ::
  "lyrics_env \<Rightarrow> lyrics_cfg \<Rightarrow> string \<Rightarrow> lookup_key \<Rightarrow> int \<Rightarrow> lrc_panic + tier" where
  "album_free_tier env cfg tid key now =
     entry_tier tid (le_get env (lk_artist key) (lk_title key) None (lk_duration key))
       (if lk_album key \<noteq> None then NoAlbum else Exact) now (lg_hit_ttl cfg)"

text \<open>The tiers in order: the first answer ends the search, a failure is remembered.\<close>

fun run_tiers :: "bool \<Rightarrow> (unit \<Rightarrow> lrc_panic + tier) list \<Rightarrow> lrc_panic + (unit + lyrics_row option)" where
  "run_tiers saw_error [] = Inr (if saw_error then Inl () else Inr None)"
| "run_tiers saw_error (t # ts) =
     (case t () of
        Inl e \<Rightarrow> Inl e
      | Inr (Answer r) \<Rightarrow> Inr (Inr (Some r))
      | Inr Nothing \<Rightarrow> run_tiers saw_error ts
      | Inr Failed \<Rightarrow> run_tiers True ts)"

definition resolve_external ::
  "lyrics_env \<Rightarrow> lyrics_cfg \<Rightarrow> string \<Rightarrow> lookup_key \<Rightarrow> int \<Rightarrow> lrc_panic + (unit + lyrics_row option)" where
  "resolve_external env cfg tid key now =
     run_tiers False
       [\<lambda>_. exact_tier env cfg tid key now, \<lambda>_. album_free_tier env cfg tid key now,
        \<lambda>_. search_tier env cfg tid key now]"

type_synonym resolved = "(lrc_panic + (resolve_error + lyrics_row)) \<times> lyrics_table"

definition resolve_uncached :: "lyrics_env \<Rightarrow> lyrics_cfg \<Rightarrow> string \<Rightarrow> int \<Rightarrow> lyrics_table \<Rightarrow> resolved" where
  "resolve_uncached env cfg tid now t =
     (let stale = lyrics_get tid t;
          (own, saw_error) = (case le_navidrome env tid of
             Inr blocks \<Rightarrow> (row_from_navidrome tid blocks now (lg_hit_ttl cfg), False)
           | Inl _ \<Rightarrow> (None, True))
      in case own of
           Some r \<Rightarrow> (Inr (Inr r), lyrics_upsert r t)
         | None \<Rightarrow>
             let (key, saw_error) = (case find_lookup_key env tid of
                   Inr k \<Rightarrow> (k, saw_error) | Inl _ \<Rightarrow> (None, True));
                 ext = (if lg_external cfg
                        then (case key of Some k \<Rightarrow> resolve_external env cfg tid k now | None \<Rightarrow> Inr (Inr None))
                        else Inr (Inr None))
             in case ext of
                  Inl e \<Rightarrow> (Inl e, t)
                | Inr (Inr (Some r)) \<Rightarrow> (Inr (Inr r), lyrics_upsert r t)
                | Inr ext \<Rightarrow>
                    if saw_error \<or> ext = Inl ()
                    then (case stale of
                            Some r \<Rightarrow> (Inr (Inr r), t)
                          | None \<Rightarrow> (Inr (Inl ProviderUnavailable), t))
                    else let m = lyrics_miss tid now (lg_miss_ttl cfg)
                         in (Inr (Inr m), lyrics_upsert m t))"

definition fresh_cached :: "string \<Rightarrow> int \<Rightarrow> lyrics_table \<Rightarrow> lyrics_row option" where
  "fresh_cached tid now t =
     (case lyrics_get tid t of Some r \<Rightarrow> if is_expired r now then None else Some r | None \<Rightarrow> None)"

text \<open>One \<open>resolve\<close> that runs alone; \<open>Single_Flight\<close> has the interleavings.\<close>

definition lyrics_resolve :: "lyrics_env \<Rightarrow> lyrics_cfg \<Rightarrow> string \<Rightarrow> bool \<Rightarrow> int \<Rightarrow> lyrics_table \<Rightarrow> resolved" where
  "lyrics_resolve env cfg tid force now t =
     (case (if force then None else fresh_cached tid now t) of
        Some r \<Rightarrow> (Inr (Inr r), t)
      | None \<Rightarrow> resolve_uncached env cfg tid now t)"

section \<open>The endpoints\<close>

definition refresh_lyrics ::
  "lyrics_env \<Rightarrow> lyrics_cfg option \<Rightarrow> principal \<Rightarrow> string \<Rightarrow> int \<Rightarrow> lyrics_table
     \<Rightarrow> (status + (lrc_panic + (resolve_error + lyrics_row))) \<times> lyrics_table" where
  "refresh_lyrics env cfg p tid now t =
     (if \<not> can p WriteTaste then (Inl S_FORBIDDEN, t)
      else case cfg of
        None \<Rightarrow> (Inl S_NOT_FOUND, t)
      | Some cfg \<Rightarrow>
          (case lyrics_resolve env cfg tid True now (lyrics_delete tid t) of (r, t') \<Rightarrow> (Inr r, t')))"

definition get_lyrics ::
  "lyrics_env \<Rightarrow> lyrics_cfg option \<Rightarrow> string \<Rightarrow> int \<Rightarrow> lyrics_table
     \<Rightarrow> (status + (lrc_panic + (resolve_error + lyrics_row))) \<times> lyrics_table" where
  "get_lyrics env cfg tid now t =
     (case cfg of
        None \<Rightarrow> (Inl S_NOT_FOUND, t)
      | Some cfg \<Rightarrow> (case lyrics_resolve env cfg tid False now t of (r, t') \<Rightarrow> (Inr r, t')))"

section \<open>The cache holds what was written\<close>

lemma lyrics_cols_roundtrip [simp]: "row_to_lyrics (to_cols r) = r"
proof -
  have "source_parse (source_str s) = s" for s by (cases s) (simp_all add: source_parse_def)
  moreover have "Option.bind (map_option match_str k) match_parse = k" for k
  proof (cases k)
    case (Some m)
    then show ?thesis by (cases m) (simp_all add: match_parse_def)
  qed simp
  ultimately show ?thesis by (cases r) (simp add: row_to_lyrics_def to_cols_def)
qed

lemma lc_track_id_to_cols [simp]: "lc_track_id (to_cols r) = ly_track_id r"
  by (simp add: to_cols_def)

interpretation lyrics: keyed_store lyrics_get lyrics_upsert lyrics_delete ly_track_id
  by unfold_locales
    (simp_all add: lyrics_get_def lyrics_upsert_def lyrics_delete_def find_upsert_row find_delete_row)

section \<open>What the tiers conclude\<close>

text \<open>Every source that was consulted answered, and none had anything.\<close>

definition all_answered :: "lyrics_env \<Rightarrow> lyrics_cfg \<Rightarrow> string \<Rightarrow> int \<Rightarrow> bool" where
  "all_answered env cfg tid now \<longleftrightarrow>
     (case le_navidrome env tid of Inl _ \<Rightarrow> False
      | Inr blocks \<Rightarrow> row_from_navidrome tid blocks now (lg_hit_ttl cfg) = None)
     \<and> (case find_lookup_key env tid of Inl _ \<Rightarrow> False | Inr None \<Rightarrow> True
        | Inr (Some key) \<Rightarrow>
            \<not> lg_external cfg
            \<or> (exact_tier env cfg tid key now = Inr Nothing \<and> album_free_tier env cfg tid key now = Inr Nothing
               \<and> search_tier env cfg tid key now = Inr Nothing))"

lemma row_from_lrclib_id:
  "row_from_lrclib tid hit kind now ttl = Inr r \<Longrightarrow> ly_track_id r = tid \<and> ly_source r = Lrclib \<and> ly_match_kind r = Some kind"
  by (auto simp: row_from_lrclib_def Let_def split: sum.splits)

lemma row_from_navidrome_id:
  "row_from_navidrome tid blocks now ttl = Some r \<Longrightarrow> ly_track_id r = tid \<and> ly_source r = Navidrome"
  by (auto simp: row_from_navidrome_def Let_def split: option.splits if_splits)

lemma tier_row:
  "entry_tier tid reply kind now ttl = Inr (Answer r) \<Longrightarrow> ly_track_id r = tid \<and> ly_source r = Lrclib \<and> ly_match_kind r = Some kind"
  "search_tier env cfg tid key now = Inr (Answer r) \<Longrightarrow> ly_track_id r = tid \<and> ly_source r = Lrclib \<and> ly_match_kind r = Some Search"
  by (auto simp: entry_tier_def search_tier_def split: sum.splits option.splits if_splits dest: row_from_lrclib_id)

lemma external_row:
  "resolve_external env cfg tid key now = Inr (Inr (Some r)) \<Longrightarrow> ly_track_id r = tid \<and> ly_source r = Lrclib"
  by (auto simp: resolve_external_def exact_tier_def album_free_tier_def
      split: sum.splits tier.splits if_splits dest: tier_row)

lemma external_nothing:
  "resolve_external env cfg tid key now = Inr (Inr None) \<Longrightarrow>
   exact_tier env cfg tid key now = Inr Nothing \<and> album_free_tier env cfg tid key now = Inr Nothing
   \<and> search_tier env cfg tid key now = Inr Nothing"
  by (auto simp: resolve_external_def split: sum.splits tier.splits if_splits)

lemma resolve_uncached_outcome:
  assumes "resolve_uncached env cfg tid now t = (out, t')"
  shows "(\<exists>r. out = Inr (Inr r) \<and> t' = lyrics_upsert r t \<and> ly_track_id r = tid
            \<and> (ly_source r = NoLyrics \<longrightarrow> all_answered env cfg tid now))
       \<or> t' = t \<and> ((\<exists>e. out = Inl e) \<or> (\<exists>r. out = Inr (Inr r) \<and> lyrics_get tid t = Some r)
            \<or> out = Inr (Inl ProviderUnavailable) \<and> lyrics_get tid t = None)"
proof -
  define own where "own = (case le_navidrome env tid of
             Inr blocks \<Rightarrow> (row_from_navidrome tid blocks now (lg_hit_ttl cfg), False)
           | Inl _ \<Rightarrow> (None, True))"
  define ky where "ky = (case find_lookup_key env tid of Inr k \<Rightarrow> (k, snd own) | Inl _ \<Rightarrow> (None, True))"
  define ext where "ext = (if lg_external cfg
        then (case fst ky of Some k \<Rightarrow> resolve_external env cfg tid k now | None \<Rightarrow> Inr (Inr None))
        else Inr (Inr None))"
  have res: "resolve_uncached env cfg tid now t =
      (case fst own of Some r \<Rightarrow> (Inr (Inr r), lyrics_upsert r t)
       | None \<Rightarrow>
          (case ext of
             Inl e \<Rightarrow> (Inl e, t)
           | Inr (Inr (Some r)) \<Rightarrow> (Inr (Inr r), lyrics_upsert r t)
           | Inr x \<Rightarrow>
               if snd ky \<or> x = Inl ()
               then (case lyrics_get tid t of
                       Some r \<Rightarrow> (Inr (Inr r), t) | None \<Rightarrow> (Inr (Inl ProviderUnavailable), t))
               else (Inr (Inr (lyrics_miss tid now (lg_miss_ttl cfg))),
                     lyrics_upsert (lyrics_miss tid now (lg_miss_ttl cfg)) t)))"
    unfolding resolve_uncached_def Let_def split_beta own_def [symmetric] ky_def [symmetric] ext_def [symmetric]
    by (rule refl)
  have own: "fst own = Some r \<Longrightarrow> ly_track_id r = tid \<and> ly_source r = Navidrome" for r
    by (auto simp: own_def split: sum.splits dest: row_from_navidrome_id)
  have ext: "ext = Inr (Inr (Some r)) \<Longrightarrow> ly_track_id r = tid \<and> ly_source r = Lrclib" for r
    by (auto simp: ext_def split: if_splits option.splits dest: external_row)
  have answered: "all_answered env cfg tid now" if no: "fst own = None" "ext = Inr (Inr None)" "\<not> snd ky"
  proof -
    obtain blocks where b: "le_navidrome env tid = Inr blocks" "row_from_navidrome tid blocks now (lg_hit_ttl cfg) = None"
      using no(1,3) by (auto simp: own_def ky_def split: sum.splits)
    obtain k where k: "find_lookup_key env tid = Inr k" "fst ky = k"
      using no(3) by (auto simp: ky_def split: sum.splits)
    show ?thesis using no(2) b k external_nothing
      by (auto simp: all_answered_def ext_def split: option.splits if_splits)
  qed
  show ?thesis
  proof (cases "fst own")
    case (Some r)
    with assms own [OF Some] show ?thesis by (auto simp: res)
  next
    case None
    consider (panic) e where "ext = Inl e" | (hit) r where "ext = Inr (Inr (Some r))"
      | (unsure) x where "ext = Inr x" "x = Inl () \<or> x = Inr None" "snd ky \<or> x = Inl ()"
      | (sure) "ext = Inr (Inr None)" "\<not> snd ky"
    proof (cases ext)
      case (Inr x)
      show ?thesis
      proof (cases x)
        case (Inl u)
        then show ?thesis using that(3) [of x] Inr by simp
      next
        case (Inr y)
        then show ?thesis using that(2,3,4) \<open>ext = Inr x\<close> by (cases y) auto
      qed
    qed (use that(1) in blast)
    then show ?thesis
    proof cases
      case panic
      then show ?thesis using assms None by (auto simp: res)
    next
      case (hit r)
      with assms None have "out = Inr (Inr r)" "t' = lyrics_upsert r t" by (auto simp: res)
      with ext [OF hit] show ?thesis by simp
    next
      case (unsure x)
      then show ?thesis using assms None by (auto simp: res split: option.splits)
    next
      case sure
      let ?m = "lyrics_miss tid now (lg_miss_ttl cfg)"
      from sure assms None have "out = Inr (Inr ?m)" "t' = lyrics_upsert ?m t" by (auto simp: res)
      moreover have "ly_track_id ?m = tid" by (simp add: lyrics_miss_def)
      ultimately show ?thesis using answered [OF None sure] by blast
    qed
  qed
qed

section \<open>Properties\<close>

text \<open>
  C26. A failure is never cached. Resolving a track changes the cache only by storing the row it
  answers, for this track; the row says that there are no lyrics only when every source was
  consulted and answered. When a source could not be reached and none had lyrics, the answer is the
  row that was cached, expired or not, or the error, and the cache is as before. A row answered
  is what the cache holds afterwards.
\<close>

theorem lyrics_failure_not_cached:
  assumes "lyrics_resolve env cfg tid force now t = (out, t')"
  shows "(t' \<noteq> t \<longrightarrow> (\<exists>r. out = Inr (Inr r) \<and> t' = lyrics_upsert r t \<and> ly_track_id r = tid
              \<and> (ly_source r = NoLyrics \<longrightarrow> all_answered env cfg tid now)))
    \<and> (\<forall>r. out = Inr (Inr r) \<longrightarrow> lyrics_get tid t' = Some r)
    \<and> (\<forall>e. out = Inr (Inl e) \<longrightarrow> e = ProviderUnavailable \<and> t' = t \<and> (force \<or> fresh_cached tid now t = None)
          \<and> lyrics_get tid t = None)
    \<and> (\<forall>k. k \<noteq> tid \<longrightarrow> lyrics_get k t' = lyrics_get k t)"
proof (cases "if force then None else fresh_cached tid now t")
  case (Some r)
  then have "out = Inr (Inr r)" "t' = t" "lyrics_get tid t = Some r"
    using assms by (auto simp: lyrics_resolve_def fresh_cached_def split: if_splits option.splits)
  then show ?thesis by simp
next
  case None
  then have "resolve_uncached env cfg tid now t = (out, t')"
    using assms unfolding lyrics_resolve_def by (simp only: option.case)
  from resolve_uncached_outcome [OF this] None show ?thesis
    by (auto simp: lyrics.look_put split: if_splits)
qed

definition demo_down :: lyrics_env where
  "demo_down = \<lparr>le_navidrome = (\<lambda>_. Inr []), le_metadata = (\<lambda>_. Inr (Some \<lparr>lk_artist = ''a'', lk_title = ''t'',
       lk_album = None, lk_duration = Some 180\<rparr>)), le_song = (\<lambda>_. Inl ()), le_get = (\<lambda>_ _ _ _. Inl ()),
     le_search = (\<lambda>_ _. Inr [\<lparr>lh_id = 1, lh_duration = Some 220, lh_instrumental = False, lh_plain = None,
       lh_synced = Some ''[00:01.00]live''\<rparr>])\<rparr>"

definition demo_cfg :: lyrics_cfg where
  "demo_cfg = \<lparr>lg_external = True, lg_hit_ttl = days_to_ms 180, lg_miss_ttl = days_to_ms 7, lg_tolerance = 2\<rparr>"

theorem lyrics_failure_not_cached_witness:
  "lyrics_resolve demo_down demo_cfg ''x'' False 5 [] = (Inr (Inl ProviderUnavailable), [])
   \<and> lyrics_get ''x'' [] = None"
proof (rule conjI)
  show r: "lyrics_resolve demo_down demo_cfg ''x'' False 5 [] = (Inr (Inl ProviderUnavailable), [])"
    by code_simp
  show "lyrics_get ''x'' [] = None"
    using lyrics_failure_not_cached [OF r] by simp
qed

text \<open>
  The order of the sources. Usable words in the file's own tags are the answer whatever the provider
  says, also when it cannot be reached; an answer of the fuzzy search is a candidate whose stated
  duration, rounded, is within the tolerance, and is given only when both exact lookups had
  nothing to offer.
\<close>

theorem lyrics_tier_order:
  assumes "resolve_uncached env cfg tid now t = (Inr (Inr r), t')"
  shows "(\<forall>blocks own. le_navidrome env tid = Inr blocks \<and> row_from_navidrome tid blocks now (lg_hit_ttl cfg) = Some own
            \<longrightarrow> r = own \<and> ly_source r = Navidrome)
    \<and> (t' \<noteq> t \<and> ly_match_kind r = Some Search \<longrightarrow>
        (\<exists>key ours hit. find_lookup_key env tid = Inr (Some key) \<and> lk_duration key = Some ours
           \<and> within_tolerance ours (lg_tolerance cfg) hit
           \<and> row_from_lrclib tid hit Search now (lg_hit_ttl cfg) = Inr r
           \<and> (\<forall>a. exact_tier env cfg tid key now \<noteq> Inr (Answer a) \<and> album_free_tier env cfg tid key now \<noteq> Inr (Answer a))))"
proof (intro conjI allI impI)
  fix blocks own
  assume "le_navidrome env tid = Inr blocks \<and> row_from_navidrome tid blocks now (lg_hit_ttl cfg) = Some own"
  then show "r = own" "ly_source r = Navidrome"
    using assms by (auto simp: resolve_uncached_def Let_def dest: row_from_navidrome_id)
next
  assume h: "t' \<noteq> t \<and> ly_match_kind r = Some Search"
  have own: "ly_match_kind q = None" if "row_from_navidrome tid blocks now ttl = Some q" for q blocks ttl
    using that by (auto simp: row_from_navidrome_def Let_def split: option.splits if_splits)
  obtain key where key: "find_lookup_key env tid = Inr (Some key)" "resolve_external env cfg tid key now = Inr (Inr (Some r))"
    using assms h
    by (auto simp: resolve_uncached_def Let_def lyrics_miss_def split: sum.splits option.splits if_splits dest: own)
  have "search_tier env cfg tid key now = Inr (Answer r)
      \<and> (\<forall>a. exact_tier env cfg tid key now \<noteq> Inr (Answer a) \<and> album_free_tier env cfg tid key now \<noteq> Inr (Answer a))"
    using key(2) h
    by (auto simp: resolve_external_def exact_tier_def album_free_tier_def
        split: sum.splits tier.splits if_splits dest: tier_row)
  moreover obtain ours hit where "lk_duration key = Some ours" "within_tolerance ours (lg_tolerance cfg) hit"
    "row_from_lrclib tid hit Search now (lg_hit_ttl cfg) = Inr r"
  proof -
    have found: "find_or_panic P xs = Inr (Some x) \<Longrightarrow> P x = Inr True" for P :: "lrclib_hit \<Rightarrow> lrc_panic + bool" and xs x
      by (induction xs) (auto split: sum.splits if_splits)
    have picked: "within_tolerance ours tol hit" if "pick_candidate cs ours tol = Inr (Some hit)" for cs ours tol hit
      using that by (auto simp: pick_candidate_def split: sum.splits option.splits dest!: found find_SomeD split: if_splits)
    obtain ours cs hit where h: "lk_duration key = Some ours" "pick_candidate cs ours (lg_tolerance cfg) = Inr (Some hit)"
      "row_from_lrclib tid hit Search now (lg_hit_ttl cfg) = Inr r"
      using calculation by (auto simp: search_tier_def split: option.splits sum.splits)
    from that [OF h(1) picked [OF h(2)] h(3)] show ?thesis .
  qed
  ultimately show "\<exists>key ours hit. find_lookup_key env tid = Inr (Some key) \<and> lk_duration key = Some ours
           \<and> within_tolerance ours (lg_tolerance cfg) hit
           \<and> row_from_lrclib tid hit Search now (lg_hit_ttl cfg) = Inr r
           \<and> (\<forall>a. exact_tier env cfg tid key now \<noteq> Inr (Answer a) \<and> album_free_tier env cfg tid key now \<noteq> Inr (Answer a))"
    using key(1) by blast
qed

definition demo_tags :: "structured_lyrics list" where
  "demo_tags = [\<lparr>sb_synced = True, sb_lines = [\<lparr>sl_start_ms = Some 10, sl_text = '' la ''\<rparr>]\<rparr>]"

definition demo_own :: lyrics_row where
  "demo_own = \<lparr>ly_track_id = ''x'', ly_source = Navidrome, ly_match_kind = None, ly_synced = True,
     ly_instrumental = False, ly_plain_text = Some ''la'', ly_lines = [\<lparr>ll_start_ms = 10, ll_text = ''la''\<rparr>],
     ly_provider_id = None, ly_fetched_at = 5, ly_expires_at = 15552000005\<rparr>"

theorem lyrics_tier_order_witness:
  "resolve_uncached (demo_down\<lparr>le_navidrome := (\<lambda>_. Inr demo_tags)\<rparr>) demo_cfg ''x'' 5 []
     = (Inr (Inr demo_own), [to_cols demo_own])
   \<and> ly_source demo_own = Navidrome"
proof (rule conjI)
  show run: "resolve_uncached (demo_down\<lparr>le_navidrome := (\<lambda>_. Inr demo_tags)\<rparr>) demo_cfg ''x'' 5 []
     = (Inr (Inr demo_own), [to_cols demo_own])" by code_simp
  have "row_from_navidrome ''x'' demo_tags 5 (lg_hit_ttl demo_cfg) = Some demo_own" by code_simp
  then show "ly_source demo_own = Navidrome"
    using lyrics_tier_order [OF run] by simp
qed

end
