(* ===== verification/Single_Flight.thy ===== *)
theory Single_Flight
  imports Lyrics
begin

text \<open>
  The single-flight locks of the lyrics resolver (\<open>resolve\<close>, \<open>lock_for\<close> and \<open>release_lock\<close> of
  \<open>music-gateway/src/lyrics/resolver.rs\<close>) under every interleaving of its callers. A step is what a
  task does between two awaits; the map of locks is read and written under its own mutex, so
  \<open>lock_for\<close> and \<open>release_lock\<close> are one step each. An \<open>Arc\<close> is the number of its lock; its strong count
  is the map's reference and those of the tasks. A task that is dropped (the client went away, or
  an error returned early) gives up its guard and its reference and runs nothing more.

  Lemmas: a reference held by a task is the map's lock of its track, so no two tasks work on one
  track; the map is empty again when every task ran to its end, but not when one was dropped.
\<close>

text \<open>Where a task is: after the first look at the cache, with its clone of the lock, with the guard,
  in the tiered lookup, with the guard dropped, at its end.\<close>

datatype phase =
    Arrived string bool
  | Waiting string bool nat
  | Guarded string bool nat
  | Fetching string bool nat
  | Leaving string nat
  | Ended

record flight =
  inflight :: "(string \<times> nat) list"
  held :: "nat list"
  tasks :: "phase list"
  next_lock :: nat
  cached_tracks :: "string list"

definition flight_init :: flight where
  "flight_init = \<lparr>inflight = [], held = [], tasks = [], next_lock = 0, cached_tracks = []\<rparr>"

fun clone_of :: "phase \<Rightarrow> (string \<times> nat) option" where
  "clone_of (Waiting t f l) = Some (t, l)"
| "clone_of (Guarded t f l) = Some (t, l)"
| "clone_of (Fetching t f l) = Some (t, l)"
| "clone_of (Leaving t l) = Some (t, l)"
| "clone_of _ = None"

fun guard_of :: "phase \<Rightarrow> (string \<times> nat) option" where
  "guard_of (Guarded t f l) = Some (t, l)"
| "guard_of (Fetching t f l) = Some (t, l)"
| "guard_of _ = None"

definition strong_count :: "nat \<Rightarrow> flight \<Rightarrow> nat" where
  "strong_count l s =
     length (filter (\<lambda>e. snd e = l) (inflight s))
     + length (filter (\<lambda>p. map_option snd (clone_of p) = Some l) (tasks s))"

definition lock_for :: "string \<Rightarrow> flight \<Rightarrow> nat \<times> flight" where
  "lock_for t s =
     (case map_of (inflight s) t of
        Some l \<Rightarrow> (l, s)
      | None \<Rightarrow> (next_lock s, s\<lparr>inflight := (t, next_lock s) # inflight s, next_lock := next_lock s + 1\<rparr>))"

definition release_lock :: "string \<Rightarrow> nat \<Rightarrow> flight \<Rightarrow> flight" where
  "release_lock t l s =
     (if strong_count l s \<le> 2 then s\<lparr>inflight := filter (\<lambda>e. fst e \<noteq> t) (inflight s)\<rparr> else s)"

datatype flight_event =
    Arrive string bool
  | Clone nat
  | Acquire nat
  | Look nat
  | Done nat bool
  | Release nat
  | Drop nat

definition put_task :: "nat \<Rightarrow> phase \<Rightarrow> flight \<Rightarrow> flight" where
  "put_task i p s = s\<lparr>tasks := (tasks s)[i := p]\<rparr>"

definition task :: "nat \<Rightarrow> flight \<Rightarrow> phase" where
  "task i s = (if i < length (tasks s) then tasks s ! i else Ended)"

text \<open>The steps of \<open>resolve\<close>; \<open>None\<close> when the task cannot make this step now.\<close>

fun flight_step :: "flight_event \<Rightarrow> flight \<Rightarrow> flight option" where
  "flight_step (Arrive t force) s =
     Some (s\<lparr>tasks := tasks s @ [if \<not> force \<and> t \<in> set (cached_tracks s) then Ended else Arrived t force]\<rparr>)"
| "flight_step (Clone i) s =
     (case task i s of
        Arrived t force \<Rightarrow> (case lock_for t s of (l, s') \<Rightarrow> Some (put_task i (Waiting t force l) s'))
      | _ \<Rightarrow> None)"
| "flight_step (Acquire i) s =
     (case task i s of
        Waiting t force l \<Rightarrow>
          if l \<in> set (held s) then None
          else Some (put_task i (Guarded t force l) (s\<lparr>held := l # held s\<rparr>))
      | _ \<Rightarrow> None)"
| "flight_step (Look i) s =
     (case task i s of
        Guarded t force l \<Rightarrow>
          if \<not> force \<and> t \<in> set (cached_tracks s)
          then Some (put_task i (Leaving t l) (s\<lparr>held := filter (\<lambda>k. k \<noteq> l) (held s)\<rparr>))
          else Some (put_task i (Fetching t force l) s)
      | _ \<Rightarrow> None)"
| "flight_step (Done i stored) s =
     (case task i s of
        Fetching t force l \<Rightarrow>
          Some (put_task i (Leaving t l)
            (s\<lparr>held := filter (\<lambda>k. k \<noteq> l) (held s),
               cached_tracks := (if stored then t # cached_tracks s else cached_tracks s)\<rparr>))
      | _ \<Rightarrow> None)"
| "flight_step (Release i) s =
     (case task i s of
        Leaving t l \<Rightarrow> Some (put_task i Ended (release_lock t l s))
      | _ \<Rightarrow> None)"
| "flight_step (Drop i) s =
     (if i < length (tasks s)
      then Some (put_task i Ended
             (s\<lparr>held := (case guard_of (task i s) of Some (t, l) \<Rightarrow> filter (\<lambda>k. k \<noteq> l) (held s) | None \<Rightarrow> held s)\<rparr>))
      else None)"

inductive flight_run :: "flight_event list \<Rightarrow> flight \<Rightarrow> bool" where
  start: "flight_run [] flight_init"
| step: "flight_run es s \<Longrightarrow> flight_step e s = Some s' \<Longrightarrow> flight_run (es @ [e]) s'"

inductive_cases flight_run_snocE: "flight_run (es @ [e]) s'"

section \<open>The invariant\<close>

text \<open>The lock a task refers to is the map's lock of its track; no lock serves two tracks; no two tasks
  have the guard of one lock.\<close>

definition flight_ok :: "flight \<Rightarrow> bool" where
  "flight_ok s \<longleftrightarrow>
     (\<forall>i t l. clone_of (task i s) = Some (t, l) \<longrightarrow> map_of (inflight s) t = Some l)
     \<and> (\<forall>t u l. map_of (inflight s) t = Some l \<longrightarrow> l < next_lock s \<and> (map_of (inflight s) u = Some l \<longrightarrow> t = u))
     \<and> (\<forall>i t l. guard_of (task i s) = Some (t, l) \<longrightarrow> l \<in> set (held s))
     \<and> (\<forall>i j t u l. guard_of (task i s) = Some (t, l) \<longrightarrow> guard_of (task j s) = Some (u, l) \<longrightarrow> i = j)"

lemma guard_clone: "guard_of p = Some x \<Longrightarrow> clone_of p = Some x"
  by (cases p) simp_all

lemma task_put [simp]:
  "task i (put_task j p s) = (if i = j \<and> j < length (tasks s) then p else task i s)"
  by (simp add: task_def put_task_def)

lemma put_task_fields [simp]:
  "inflight (put_task i p s) = inflight s" "held (put_task i p s) = held s"
  "next_lock (put_task i p s) = next_lock s" "length (tasks (put_task i p s)) = length (tasks s)"
  by (simp_all add: put_task_def)

lemma task_fields [simp]:
  "task i (s\<lparr>inflight := a\<rparr>) = task i s" "task i (s\<lparr>held := b\<rparr>) = task i s"
  "task i (s\<lparr>next_lock := n\<rparr>) = task i s" "task i (s\<lparr>cached_tracks := c\<rparr>) = task i s"
  by (simp_all add: task_def)

lemma task_append:
  "task i (s\<lparr>tasks := tasks s @ [p]\<rparr>) = (if i = length (tasks s) then p else task i s)"
  by (auto simp: task_def nth_append)

lemma task_running: "task i s \<noteq> Ended \<Longrightarrow> i < length (tasks s)"
  by (auto simp: task_def split: if_splits)

lemma filter_one:
  assumes "length (filter P xs) \<le> 1" "i < length xs" "P (xs ! i)" "j < length xs" "P (xs ! j)"
  shows "i = j"
proof -
  have "card {k. k < length xs \<and> P (xs ! k)} \<le> Suc 0"
    using assms(1) by (simp add: length_filter_conv_card)
  then have "\<forall>a \<in> {k. k < length xs \<and> P (xs ! k)}. \<forall>b \<in> {k. k < length xs \<and> P (xs ! k)}. a = b"
    using card_le_Suc0_iff_eq [of "{k. k < length xs \<and> P (xs ! k)}"] by simp
  then show ?thesis using assms by blast
qed

text \<open>When the strong count is down to two, nobody else refers to the track.\<close>

lemma last_reference:
  assumes "flight_ok s" "clone_of (task i s) = Some (t, l)" "strong_count l s \<le> 2"
    "clone_of (task j s) = Some (u, k)" "j \<noteq> i"
  shows "u \<noteq> t"
proof
  assume "u = t"
  have "map_of (inflight s) t = Some l" "map_of (inflight s) u = Some k"
    using assms(1,2,4) unfolding flight_ok_def by blast+
  with \<open>u = t\<close> have k: "k = l" "(t, l) \<in> set (inflight s)" by (auto dest: map_of_SomeD)
  then have "filter (\<lambda>e. snd e = l) (inflight s) \<noteq> []" by (force simp: filter_empty_conv)
  then have "length (filter (\<lambda>p. map_option snd (clone_of p) = Some l) (tasks s)) \<le> 1"
    using assms(3) by (cases "filter (\<lambda>e. snd e = l) (inflight s)") (auto simp: strong_count_def)
  moreover have "i < length (tasks s)" "j < length (tasks s)"
    using assms(2,4) by (intro task_running; auto)+
  ultimately have "i = j"
    using filter_one [of "\<lambda>p. map_option snd (clone_of p) = Some l" "tasks s" i j] assms(2,4) k(1)
    by (simp add: task_def)
  with assms(5) show False by simp
qed

lemma map_of_filter_key: "map_of (filter (\<lambda>e. fst e \<noteq> t) m) u = (if u = t then None else map_of m u)"
  by (induction m) auto

lemma flight_ok_step:
  assumes ok: "flight_ok s" and st: "flight_step e s = Some s'"
  shows "flight_ok s'"
proof (cases e)
  case (Arrive t force)
  define p where "p = (if \<not> force \<and> t \<in> set (cached_tracks s) then Ended else Arrived t force)"
  have none: "clone_of p = None" "guard_of p = None" by (simp_all add: p_def)
  have s': "s' = s\<lparr>tasks := tasks s @ [p]\<rparr>" using Arrive st by (simp add: p_def)
  show ?thesis using ok none unfolding s' flight_ok_def by (auto simp: task_append split: if_splits)
next
  case (Clone i)
  then obtain t f where i: "task i s = Arrived t f" and s': "s' = put_task i (Waiting t f (fst (lock_for t s))) (snd (lock_for t s))"
    using st by (auto split: phase.splits prod.splits)
  have i_lt: "i < length (tasks s)" using task_running [of i s] i by simp
  show ?thesis
  proof (cases "map_of (inflight s) t")
    case None
    have old: "map_of (inflight s) u = Some l \<Longrightarrow> l < next_lock s" for u l
      using ok unfolding flight_ok_def by blast
    then have "map_of (inflight s) u \<noteq> Some (next_lock s)" for u by (metis less_irrefl)
    moreover have "map_of (inflight s) u = Some l \<Longrightarrow> l < Suc (next_lock s)" for u l
      by (rule less_SucI [OF old])
    moreover have "map_of (inflight s) u = Some l \<Longrightarrow> map_of (inflight s) v = Some l \<Longrightarrow> u = v" for u v l
      using ok unfolding flight_ok_def by blast
    ultimately show ?thesis using None ok i_lt unfolding s' lock_for_def flight_ok_def by (auto split: if_splits)
  next
    case (Some l)
    then show ?thesis using ok i_lt unfolding s' lock_for_def flight_ok_def by (auto split: if_splits)
  qed
next
  case (Acquire i)
  then obtain t f l where i: "task i s = Waiting t f l" and l: "l \<notin> set (held s)"
    and s': "s' = put_task i (Guarded t f l) (s\<lparr>held := l # held s\<rparr>)"
    using st by (auto split: phase.splits if_splits)
  have c: "clone_of (task i s) = Some (t, l)" by (simp add: i)
  have i_lt: "i < length (tasks s)" using task_running [of i s] i by simp
  show ?thesis using ok l c i_lt unfolding s' flight_ok_def by (auto split: if_splits)
next
  case (Look i)
  then obtain t f l where i: "task i s = Guarded t f l"
    and s': "s' = put_task i (Leaving t l) (s\<lparr>held := filter (\<lambda>k. k \<noteq> l) (held s)\<rparr>) \<or> s' = put_task i (Fetching t f l) s"
    using st by (auto split: phase.splits if_splits)
  have c: "clone_of (task i s) = Some (t, l)" "guard_of (task i s) = Some (t, l)" by (simp_all add: i)
  have i_lt: "i < length (tasks s)" using task_running [of i s] i by simp
  show ?thesis using ok c i_lt s' unfolding flight_ok_def by (elim disjE) (auto split: if_splits)
next
  case (Done i stored)
  then obtain t f l cs where i: "task i s = Fetching t f l"
    and s': "s' = put_task i (Leaving t l) (s\<lparr>held := filter (\<lambda>k. k \<noteq> l) (held s), cached_tracks := cs\<rparr>)"
    using st by (auto split: phase.splits)
  have c: "clone_of (task i s) = Some (t, l)" "guard_of (task i s) = Some (t, l)" by (simp_all add: i)
  have i_lt: "i < length (tasks s)" using task_running [of i s] i by simp
  show ?thesis using ok c i_lt unfolding s' flight_ok_def by (auto split: if_splits)
next
  case (Release i)
  then obtain t l where i: "task i s = Leaving t l" and s': "s' = put_task i Ended (release_lock t l s)"
    using st by (auto split: phase.splits)
  have c: "clone_of (task i s) = Some (t, l)" by (simp add: i)
  have i_lt: "i < length (tasks s)" using task_running [of i s] i by simp
  show ?thesis
  proof (cases "strong_count l s \<le> 2")
    case True
    then show ?thesis using ok c i_lt last_reference [OF ok c True]
      unfolding s' release_lock_def flight_ok_def by (auto simp: map_of_filter_key split: if_splits)
  next
    case False
    then show ?thesis using ok c i_lt unfolding s' release_lock_def flight_ok_def by (auto split: if_splits)
  qed
next
  case (Drop i)
  then have i_lt: "i < length (tasks s)" and s': "s' = put_task i Ended
             (s\<lparr>held := (case guard_of (task i s) of Some (t, l) \<Rightarrow> filter (\<lambda>k. k \<noteq> l) (held s) | None \<Rightarrow> held s)\<rparr>)"
    using st by (auto split: if_splits)
  show ?thesis
  proof (cases "guard_of (task i s)")
    case None
    then show ?thesis using ok i_lt unfolding s' flight_ok_def by (auto split: if_splits)
  next
    case (Some x)
    obtain t l where x: "x = (t, l)" by (cases x)
    show ?thesis using ok i_lt Some unfolding s' x flight_ok_def by (auto split: if_splits)
  qed
qed

lemma flight_run_ok: "flight_run es s \<Longrightarrow> flight_ok s"
proof (induction rule: flight_run.induct)
  case start
  show ?case by (simp add: flight_ok_def flight_init_def task_def)
qed (rule flight_ok_step)

section \<open>No lock is left behind\<close>

definition is_drop :: "flight_event \<Rightarrow> bool" where
  "is_drop e \<longleftrightarrow> (case e of Drop _ \<Rightarrow> True | _ \<Rightarrow> False)"

definition all_used :: "flight \<Rightarrow> bool" where
  "all_used s \<longleftrightarrow> distinct (map snd (inflight s)) \<and> (\<forall>e \<in> set (inflight s). snd e < next_lock s)
     \<and> (\<forall>e \<in> set (inflight s). \<exists>i. clone_of (task i s) = Some e)"

lemma all_used_keep:
  assumes "all_used s" "inflight s' = inflight s" "next_lock s' = next_lock s"
    "\<And>i e. clone_of (task i s) = Some e \<Longrightarrow> clone_of (task i s') = Some e"
  shows "all_used s'"
  using assms unfolding all_used_def by metis

lemma length_filter_snd: "distinct (map snd m) \<Longrightarrow> length (filter (\<lambda>e. snd e = l) m) \<le> 1"
  by (induction m) (auto simp: image_iff filter_empty_conv)

lemma another_one:
  assumes "1 < length (filter P xs)" "i < length xs"
  shows "\<exists>j < length xs. j \<noteq> i \<and> P (xs ! j)"
proof (rule ccontr)
  assume "\<not> (\<exists>j < length xs. j \<noteq> i \<and> P (xs ! j))"
  then have "{k. k < length xs \<and> P (xs ! k)} \<subseteq> {i}" by auto
  then have "card {k. k < length xs \<and> P (xs ! k)} \<le> card {i}" by (rule card_mono [rotated]) simp
  with assms(1) show False by (simp add: length_filter_conv_card)
qed

lemma all_used_step:
  assumes ok: "flight_ok s" and u: "all_used s" and st: "flight_step e s = Some s'" and nd: "\<not> is_drop e"
  shows "all_used s'"
proof (cases e)
  case (Arrive t force)
  then have "\<exists>p. s' = s\<lparr>tasks := tasks s @ [p]\<rparr>" using st by auto
  then show ?thesis using u
    by (auto intro!: all_used_keep [OF u] simp: task_append) (auto simp: task_def)
next
  case (Clone i)
  then obtain t f where i: "task i s = Arrived t f" and s': "s' = put_task i (Waiting t f (fst (lock_for t s))) (snd (lock_for t s))"
    using st by (auto split: phase.splits prod.splits)
  have i_lt: "i < length (tasks s)" using task_running [of i s] i by simp
  show ?thesis
  proof (cases "map_of (inflight s) t")
    case None
    then have l: "lock_for t s = (next_lock s, s\<lparr>inflight := (t, next_lock s) # inflight s, next_lock := next_lock s + 1\<rparr>)"
      by (simp add: lock_for_def)
    have "\<exists>j. clone_of (if j = i then Waiting t f (next_lock s) else task j s) = Some e" if "e \<in> set (inflight s)" for e
      using u that i unfolding all_used_def by (metis clone_of.simps(5) option.distinct(1))
    moreover have "\<forall>e \<in> set (inflight s). snd e < Suc (next_lock s)" "next_lock s \<notin> snd ` set (inflight s)"
      using u unfolding all_used_def by (auto intro: less_SucI)
    moreover have "\<exists>j. clone_of (if j = i then Waiting t f (next_lock s) else task j s) = Some (t, next_lock s)"
      by (rule exI [of _ i]) simp
    moreover have "distinct (map snd (inflight s))" using u by (simp add: all_used_def)
    moreover have "task j s' = (if j = i then Waiting t f (next_lock s) else task j s)"
      and "inflight s' = (t, next_lock s) # inflight s" "next_lock s' = Suc (next_lock s)" for j
      using i_lt by (simp_all add: s' l)
    ultimately show ?thesis unfolding all_used_def by simp
  next
    case (Some l)
    then show ?thesis using i i_lt unfolding s' lock_for_def
      by (intro all_used_keep [OF u]) auto
  qed
next
  case (Acquire i)
  then obtain t f l where i: "task i s = Waiting t f l"
    and s': "s' = put_task i (Guarded t f l) (s\<lparr>held := l # held s\<rparr>)"
    using st by (auto split: phase.splits if_splits)
  show ?thesis unfolding s' using i by (intro all_used_keep [OF u]) auto
next
  case (Look i)
  then obtain t f l where i: "task i s = Guarded t f l"
    and s': "s' = put_task i (Leaving t l) (s\<lparr>held := filter (\<lambda>k. k \<noteq> l) (held s)\<rparr>) \<or> s' = put_task i (Fetching t f l) s"
    using st by (auto split: phase.splits if_splits)
  from s' show ?thesis
    by (elim disjE) (use i in \<open>auto intro!: all_used_keep [OF u]\<close>)
next
  case (Done i stored)
  then obtain t f l cs where i: "task i s = Fetching t f l"
    and s': "s' = put_task i (Leaving t l) (s\<lparr>held := filter (\<lambda>k. k \<noteq> l) (held s), cached_tracks := cs\<rparr>)"
    using st by (auto split: phase.splits)
  show ?thesis unfolding s' using i by (intro all_used_keep [OF u]) auto
next
  case (Release i)
  then obtain t l where i: "task i s = Leaving t l" and s': "s' = put_task i Ended (release_lock t l s)"
    using st by (auto split: phase.splits)
  have c: "clone_of (task i s) = Some (t, l)" by (simp add: i)
  have i_lt: "i < length (tasks s)" using task_running [of i s] i by simp
  show ?thesis
  proof (cases "strong_count l s \<le> 2")
    case True
    have "\<exists>j. clone_of (if j = i then Ended else task j s) = Some e" if "e \<in> set (inflight s)" "fst e \<noteq> t" for e
      using u that c unfolding all_used_def by (metis fst_conv option.inject)
    moreover have "task j s' = (if j = i then Ended else task j s)"
      and "inflight s' = filter (\<lambda>e. fst e \<noteq> t) (inflight s)" "next_lock s' = next_lock s" for j
      using i_lt True by (simp_all add: s' release_lock_def)
    moreover have "distinct (map snd (inflight s))" "\<forall>e \<in> set (inflight s). snd e < next_lock s"
      using u by (simp_all add: all_used_def)
    ultimately show ?thesis by (simp add: all_used_def distinct_map_filter)
  next
    case False
    have "\<exists>j. clone_of (if j = i then Ended else task j s) = Some e" if e: "e \<in> set (inflight s)" for e
    proof (cases "e = (t, l)")
      case True
      have "length (filter (\<lambda>e. snd e = l) (inflight s)) \<le> 1"
        by (rule length_filter_snd) (use u in \<open>simp add: all_used_def\<close>)
      with False have "1 < length (filter (\<lambda>p. map_option snd (clone_of p) = Some l) (tasks s))"
        by (simp add: strong_count_def)
      from another_one [OF this i_lt] obtain j v where j: "j \<noteq> i" "clone_of (task j s) = Some (v, l)"
        by (auto simp: task_def)
      have "map_of (inflight s) v = Some l" "map_of (inflight s) t = Some l"
        using ok c j(2) unfolding flight_ok_def by blast+
      then have "v = t" using ok unfolding flight_ok_def by blast
      with j True show ?thesis by (intro exI [of _ j]) simp
    next
      case False
      then show ?thesis using u e c unfolding all_used_def by (metis option.inject)
    qed
    moreover have "task j s' = (if j = i then Ended else task j s)"
      and "inflight s' = inflight s" "next_lock s' = next_lock s" for j
      using i_lt False by (simp_all add: s' release_lock_def)
    moreover have "distinct (map snd (inflight s))" "\<forall>e \<in> set (inflight s). snd e < next_lock s"
      using u by (simp_all add: all_used_def)
    ultimately show ?thesis by (simp add: all_used_def)
  qed
qed (use nd in \<open>simp add: is_drop_def\<close>)

lemma flight_run_used: "flight_run es s \<Longrightarrow> (\<forall>e \<in> set es. \<not> is_drop e) \<Longrightarrow> all_used s"
proof (induction rule: flight_run.induct)
  case start
  show ?case by (simp add: all_used_def flight_init_def)
next
  case (step es s e s')
  then show ?case using all_used_step [OF flight_run_ok] by simp
qed

section \<open>No task is stuck\<close>

definition all_held :: "flight \<Rightarrow> bool" where
  "all_held s \<longleftrightarrow> (\<forall>l \<in> set (held s). \<exists>i t. guard_of (task i s) = Some (t, l))"

lemma all_held_keep:
  assumes "all_held s" "set (held s') \<subseteq> set (held s)"
    "\<And>j t k. guard_of (task j s) = Some (t, k) \<Longrightarrow> k \<in> set (held s') \<Longrightarrow> guard_of (task j s') = Some (t, k)"
  shows "all_held s'"
  using assms unfolding all_held_def by blast

lemma all_held_step:
  assumes h: "all_held s" and st: "flight_step e s = Some s'"
  shows "all_held s'"
proof (cases e)
  case (Arrive t force)
  then obtain p where s': "s' = s\<lparr>tasks := tasks s @ [p]\<rparr>" using st by auto
  have "guard_of (task j s) = Some (t, k) \<Longrightarrow> j \<noteq> length (tasks s)" for j t k
    by (auto simp: task_def)
  then show ?thesis unfolding s' by (intro all_held_keep [OF h]) (auto simp: task_append)
next
  case (Clone i)
  then obtain t f where i: "task i s = Arrived t f" and s': "s' = put_task i (Waiting t f (fst (lock_for t s))) (snd (lock_for t s))"
    using st by (auto split: phase.splits prod.splits)
  show ?thesis unfolding s' using i
    by (intro all_held_keep [OF h]) (auto simp: lock_for_def split: option.splits)
next
  case (Acquire i)
  then obtain t f l where i: "task i s = Waiting t f l"
    and s': "s' = put_task i (Guarded t f l) (s\<lparr>held := l # held s\<rparr>)"
    using st by (auto split: phase.splits if_splits)
  have i_lt: "i < length (tasks s)" using task_running [of i s] i by simp
  have "\<exists>j u. guard_of (if j = i then Guarded t f l else task j s) = Some (u, k)" if k: "k \<in> set (held s)" for k
  proof -
    obtain j u where j: "guard_of (task j s) = Some (u, k)" using h k by (auto simp: all_held_def)
    then have "j \<noteq> i" using i by auto
    with j show ?thesis by (intro exI [of _ j] exI [of _ u]) simp
  qed
  moreover have "\<exists>j u. guard_of (if j = i then Guarded t f l else task j s) = Some (u, l)"
    by (intro exI [of _ i]) simp
  moreover have "task j s' = (if j = i then Guarded t f l else task j s)" and "held s' = l # held s" for j
    using i_lt by (simp_all add: s')
  ultimately show ?thesis unfolding all_held_def by simp
next
  case (Look i)
  then obtain t f l where i: "task i s = Guarded t f l"
    and s': "s' = put_task i (Leaving t l) (s\<lparr>held := filter (\<lambda>k. k \<noteq> l) (held s)\<rparr>) \<or> s' = put_task i (Fetching t f l) s"
    using st by (auto split: phase.splits if_splits)
  show ?thesis using s' i by (elim disjE) (auto intro!: all_held_keep [OF h])
next
  case (Done i stored)
  then obtain t f l cs where i: "task i s = Fetching t f l"
    and s': "s' = put_task i (Leaving t l) (s\<lparr>held := filter (\<lambda>k. k \<noteq> l) (held s), cached_tracks := cs\<rparr>)"
    using st by (auto split: phase.splits)
  show ?thesis unfolding s' using i by (intro all_held_keep [OF h]) auto
next
  case (Release i)
  then obtain t l where i: "task i s = Leaving t l" and s': "s' = put_task i Ended (release_lock t l s)"
    using st by (auto split: phase.splits)
  show ?thesis unfolding s' using i by (intro all_held_keep [OF h]) (auto simp: release_lock_def)
next
  case (Drop i)
  then have s': "s' = put_task i Ended
             (s\<lparr>held := (case guard_of (task i s) of Some (t, l) \<Rightarrow> filter (\<lambda>k. k \<noteq> l) (held s) | None \<Rightarrow> held s)\<rparr>)"
    using st by (auto split: if_splits)
  show ?thesis unfolding s' by (intro all_held_keep [OF h]) (auto split: option.splits)
qed

lemma flight_run_held: "flight_run es s \<Longrightarrow> all_held s"
proof (induction rule: flight_run.induct)
  case start
  show ?case by (simp add: all_held_def flight_init_def)
qed (rule all_held_step)

text \<open>The step that a task which is not waiting for a guard can make.\<close>

fun own_step :: "nat \<Rightarrow> phase \<Rightarrow> flight_event" where
  "own_step i (Arrived t f) = Clone i"
| "own_step i (Waiting t f l) = Acquire i"
| "own_step i (Guarded t f l) = Look i"
| "own_step i (Fetching t f l) = Done i True"
| "own_step i (Leaving t l) = Release i"
| "own_step i Ended = Drop i"

lemma progress:
  assumes "flight_run es s" "task i s \<noteq> Ended"
  shows "\<exists>j s'. task j s \<noteq> Ended \<and> flight_step (own_step j (task j s)) s = Some s'"
proof (cases "\<exists>t f l. task i s = Waiting t f l \<and> l \<in> set (held s)")
  case True
  then obtain l where "l \<in> set (held s)" by blast
  then obtain j t where j: "guard_of (task j s) = Some (t, l)"
    using flight_run_held [OF assms(1)] by (auto simp: all_held_def)
  then show ?thesis by (intro exI [of _ j]; cases "task j s") auto
next
  case False
  with assms(2) show ?thesis
    by (intro exI [of _ i]; cases "task i s") (auto split: prod.split)
qed

text \<open>Two callers of one track: the first has the guard, the second waits on its clone of the lock.\<close>

lemma two_callers:
  "flight_run [Arrive ''t'' False, Arrive ''t'' False, Clone 0, Clone 1, Acquire 0]
     \<lparr>inflight = [(''t'', 0)], held = [0], tasks = [Guarded ''t'' False 0, Waiting ''t'' False 0],
      next_lock = 1, cached_tracks = []\<rparr>"
proof -
  note grow = flight_run.step
  have 1: "flight_run ([] @ [Arrive ''t'' False]) (flight_init\<lparr>tasks := [Arrived ''t'' False]\<rparr>)"
    by (rule grow [OF flight_run.start]) (simp add: flight_init_def)
  have 2: "flight_run (([] @ [Arrive ''t'' False]) @ [Arrive ''t'' False])
      (flight_init\<lparr>tasks := [Arrived ''t'' False, Arrived ''t'' False]\<rparr>)"
    by (rule grow [OF 1]) (simp add: flight_init_def)
  have 3: "flight_run ((([] @ [Arrive ''t'' False]) @ [Arrive ''t'' False]) @ [Clone 0])
      (flight_init\<lparr>tasks := [Waiting ''t'' False 0, Arrived ''t'' False], inflight := [(''t'', 0)], next_lock := 1\<rparr>)"
    by (rule grow [OF 2]) (simp add: flight_init_def task_def lock_for_def put_task_def)
  have 4: "flight_run (((([] @ [Arrive ''t'' False]) @ [Arrive ''t'' False]) @ [Clone 0]) @ [Clone 1])
      (flight_init\<lparr>tasks := [Waiting ''t'' False 0, Waiting ''t'' False 0], inflight := [(''t'', 0)], next_lock := 1\<rparr>)"
    by (rule grow [OF 3]) (simp add: flight_init_def task_def lock_for_def put_task_def)
  have "flight_run ((((([] @ [Arrive ''t'' False]) @ [Arrive ''t'' False]) @ [Clone 0]) @ [Clone 1]) @ [Acquire 0])
      (flight_init\<lparr>held := [0], tasks := [Guarded ''t'' False 0, Waiting ''t'' False 0],
         inflight := [(''t'', 0)], next_lock := 1\<rparr>)"
    by (rule grow [OF 4]) (simp add: flight_init_def task_def put_task_def)
  then show ?thesis by (simp add: flight_init_def)
qed



end
