(* ===== verification/Audio_Cache.thy ===== *)
theory Audio_Cache
  imports Keyed_Store Http_Text "HOL-Library.List_Lexorder" "HOL-Library.Product_Lexorder"
begin

text \<open>
  The on-disk audio cache of the client (\<open>music-cache/src/audio.rs\<close>): the table \<open>audio_entries\<close> as a
  list of rows in insertion order, the blob directory as a map from paths to bytes, the two byte
  budgets. SHA-256 is the field \<open>sha256\<close> of the environment; what the file system answers is an
  \<open>audio_io\<close>. SQLite statements succeed. Times are milliseconds from the Unix epoch.

  Lemmas: no two keys share a serialisation or a path; every operation keeps the table and the
  blobs in step; what eviction removes and what it keeps; what happens to pinned rows.
\<close>

section \<open>Keys and rows\<close>

record audio_key =
  ak_track_id :: string
  ak_bitrate :: "32 word option"
  ak_codec :: string

definition canonical :: "audio_key \<Rightarrow> string" where
  "canonical k =
     ak_track_id k @ ''|''
     @ (case ak_bitrate k of Some b \<Rightarrow> nat_str (unat b) | None \<Rightarrow> ''orig'') @ ''|'' @ ak_codec k"

record audio_env =
  cache_root :: string
  sha256 :: "string \<Rightarrow> string"

definition lower_hex :: "nat \<Rightarrow> char" where
  "lower_hex d = (if d < 10 then char_of (48 + d) else char_of (87 + d))"

definition hex_bytes :: "string \<Rightarrow> string" where
  "hex_bytes s = concat (map (\<lambda>c. [lower_hex (byte c div 16), lower_hex (byte c mod 16)]) s)"

definition blob_filename :: "audio_env \<Rightarrow> audio_key \<Rightarrow> string" where
  "blob_filename env k = hex_bytes (sha256 env (canonical k))"

definition blob_path_for :: "audio_env \<Rightarrow> audio_key \<Rightarrow> string" where
  "blob_path_for env k = cache_root env @ ''/blobs/'' @ blob_filename env k"

text \<open>\<open>with_extension\<close> on a file name that has no dot.\<close>

definition tmp_path_for :: "audio_env \<Rightarrow> audio_key \<Rightarrow> string" where
  "tmp_path_for env k = blob_path_for env k @ ''.tmp''"

record audio_row =
  au_key :: string
  au_track_id :: string
  au_bitrate :: "int option"
  au_codec :: string
  au_blob_path :: string
  au_bytes :: int
  au_last_accessed :: int
  au_pinned :: bool

record audio_entry =
  ae_key :: audio_key
  ae_blob_path :: string
  ae_bytes :: nat
  ae_last_accessed :: int
  ae_pinned :: bool

definition systemtime_to_millis_i64 :: "int \<Rightarrow> int" where
  "systemtime_to_millis_i64 t = (if t < 0 then 0 else min t i64_max)"

definition u64_to_i64 :: "nat \<Rightarrow> int" where
  "u64_to_i64 v = min (int v) i64_max"

definition i64_to_u64 :: "int \<Rightarrow> nat" where
  "i64_to_u64 v = nat v"

definition row_to_entry :: "audio_row \<Rightarrow> audio_entry" where
  "row_to_entry r =
     \<lparr>ae_key = \<lparr>ak_track_id = au_track_id r,
        ak_bitrate = (case au_bitrate r of
           None \<Rightarrow> None
         | Some b \<Rightarrow> if 0 \<le> b \<and> b < 2 ^ 32 then Some (word_of_int b) else None),
        ak_codec = au_codec r\<rparr>,
      ae_blob_path = au_blob_path r, ae_bytes = i64_to_u64 (au_bytes r),
      ae_last_accessed = int (i64_to_u64 (au_last_accessed r)), ae_pinned = au_pinned r\<rparr>"

datatype pin_outcome = Pinned | AlreadyPinned | PinNotInCache | WouldExceedBudget nat

datatype unpin_outcome = Unpinned | NotPinned | UnpinNotInCache

record audio_cache_stats =
  regular_count :: nat
  regular_bytes :: nat
  stats_regular_budget :: nat
  pinned_count :: nat
  pinned_bytes :: nat
  stats_pinned_budget :: nat

section \<open>The cache and its file system\<close>

record audio_cache =
  audio_rows :: "audio_row list"
  blobs :: "string \<rightharpoonup> string"
  regular_budget_bytes :: nat
  pinned_budget_bytes :: nat

definition open_cache :: "nat \<Rightarrow> nat \<Rightarrow> audio_cache" where
  "open_cache regular pinned =
     \<lparr>audio_rows = [], blobs = Map.empty, regular_budget_bytes = regular, pinned_budget_bytes = pinned\<rparr>"

datatype write_result = Written | Write_failed string | Rename_failed

text \<open>What the file system does during a call: how a write of the temporary file ends, whether an
  existing file can be removed or read, and the clock.\<close>

record audio_io =
  io_now :: int
  io_write :: write_result
  io_remove_ok :: "string \<Rightarrow> bool"
  io_read_ok :: "string \<Rightarrow> bool"

datatype audio_error = Io_error

type_synonym 'a audio_result = "(audio_error + 'a) \<times> audio_cache"

definition set_budgets :: "nat \<Rightarrow> nat \<Rightarrow> audio_cache \<Rightarrow> audio_cache" where
  "set_budgets regular pinned c = c\<lparr>regular_budget_bytes := regular, pinned_budget_bytes := pinned\<rparr>"

definition find_row :: "string \<Rightarrow> audio_row list \<Rightarrow> audio_row option" where
  "find_row k rs = find (\<lambda>r. au_key r = k) rs"

definition audio_get :: "audio_key \<Rightarrow> audio_cache \<Rightarrow> audio_entry option" where
  "audio_get k c = map_option row_to_entry (find_row (canonical k) (audio_rows c))"

text \<open>\<open>ORDER BY f LIMIT 1\<close>: the first of the least rows.\<close>

definition first_by :: "('r \<Rightarrow> 'k :: linorder) \<Rightarrow> 'r list \<Rightarrow> 'r option" where
  "first_by f rs = (if rs = [] then None else Some (arg_min_list f rs))"

definition find_by_track :: "string \<Rightarrow> audio_cache \<Rightarrow> audio_entry option" where
  "find_by_track tid c =
     map_option row_to_entry
       (first_by (\<lambda>r. (\<not> au_pinned r, - au_last_accessed r))
          (filter (\<lambda>r. au_track_id r = tid) (audio_rows c)))"

text \<open>\<open>tokio::fs::remove_file\<close>, with \<open>NotFound\<close> ignored.\<close>

definition remove_blob :: "audio_io \<Rightarrow> string \<Rightarrow> audio_cache \<Rightarrow> unit audio_result" where
  "remove_blob io p c =
     (if blobs c p = None then (Inr (), c)
      else if io_remove_ok io p then (Inr (), c\<lparr>blobs := (blobs c)(p := None)\<rparr>)
      else (Inl Io_error, c))"

definition delete_row :: "string \<Rightarrow> audio_row list \<Rightarrow> audio_row list" where
  "delete_row k rs = filter (\<lambda>r. au_key r \<noteq> k) rs"

definition bytes_of :: "audio_row list \<Rightarrow> int" where
  "bytes_of rs = sum_list (map au_bytes rs)"

abbreviation regular :: "audio_row list \<Rightarrow> audio_row list" where
  "regular rs \<equiv> filter (\<lambda>r. \<not> au_pinned r) rs"

abbreviation pinned :: "audio_row list \<Rightarrow> audio_row list" where
  "pinned rs \<equiv> filter au_pinned rs"

text \<open>\<open>ORDER BY last_accessed_at ASC, key ASC\<close>; text is compared byte by byte.\<close>

definition lru_key :: "audio_row \<Rightarrow> int \<times> nat list" where
  "lru_key r = (au_last_accessed r, map byte (au_key r))"

lemma delete_row_shorter:
  "r \<in> set (regular rs) \<Longrightarrow> length (regular (delete_row (au_key r) rs)) < length (regular rs)"
proof -
  assume r: "r \<in> set (regular rs)"
  have "regular (delete_row (au_key r) rs) = filter (\<lambda>x. au_key x \<noteq> au_key r) (regular rs)"
    by (simp add: delete_row_def conj_commute)
  moreover have "length (filter (\<lambda>x. au_key x \<noteq> au_key r) (regular rs)) < length (regular rs)"
    by (rule length_filter_less [OF r]) simp
  ultimately show ?thesis by simp
qed

lemma first_by_in: "first_by f rs = Some r \<Longrightarrow> r \<in> set rs"
  by (auto simp: first_by_def arg_min_list_in split: if_splits)

lemma first_by_least: "first_by f rs = Some r \<Longrightarrow> x \<in> set rs \<Longrightarrow> f r \<le> f x"
  by (auto simp: first_by_def f_arg_min_list_f split: if_splits)

lemma remove_blob_rows [simp]: "audio_rows (snd (remove_blob io p c)) = audio_rows c"
  by (simp add: remove_blob_def)

function evict_lru_to_fit :: "audio_io \<Rightarrow> audio_cache \<Rightarrow> nat audio_result" where
  "evict_lru_to_fit io c =
     (let total = i64_to_u64 (bytes_of (regular (audio_rows c)));
          count = length (regular (audio_rows c))
      in if total \<le> regular_budget_bytes c \<or> count \<le> 1 then (Inr total, c)
         else case first_by lru_key (regular (audio_rows c)) of
                None \<Rightarrow> (Inr total, c)
              | Some r \<Rightarrow>
                  (case remove_blob io (au_blob_path r) c of
                     (Inl e, c') \<Rightarrow> (Inl e, c')
                   | (Inr _, c') \<Rightarrow>
                       evict_lru_to_fit io (c'\<lparr>audio_rows := delete_row (au_key r) (audio_rows c')\<rparr>)))"
  by pat_completeness auto
termination
proof (relation "measure (\<lambda>(io, c). length (regular (audio_rows c)))", goal_cases)
  case (2 io c total count r res c' u)
  have "audio_rows c' = audio_rows c"
    using remove_blob_rows [of io "au_blob_path r" c] by (simp flip: 2(5))
  then show ?case using delete_row_shorter [OF first_by_in [OF 2(4)]] by simp
qed simp

declare evict_lru_to_fit.simps [simp del]

section \<open>Operations\<close>

text \<open>The upsert keeps the pinned flag of a row that is there.\<close>

definition new_row :: "audio_env \<Rightarrow> audio_io \<Rightarrow> audio_key \<Rightarrow> string \<Rightarrow> audio_row list \<Rightarrow> audio_row" where
  "new_row env io k body rs =
     \<lparr>au_key = canonical k, au_track_id = ak_track_id k, au_bitrate = map_option uint (ak_bitrate k),
      au_codec = ak_codec k, au_blob_path = blob_path_for env k, au_bytes = u64_to_i64 (length body),
      au_last_accessed = systemtime_to_millis_i64 (io_now io),
      au_pinned = (case find_row (canonical k) rs of Some r \<Rightarrow> au_pinned r | None \<Rightarrow> False)\<rparr>"

text \<open>The temporary file, then the rename.\<close>

definition write_blob :: "audio_env \<Rightarrow> audio_io \<Rightarrow> audio_key \<Rightarrow> string \<Rightarrow> audio_cache \<Rightarrow> unit audio_result" where
  "write_blob env io k body c =
     (let tmp = tmp_path_for env k
      in case io_write io of
           Write_failed part \<Rightarrow> (Inl Io_error, c\<lparr>blobs := (blobs c)(tmp \<mapsto> part)\<rparr>)
         | Rename_failed \<Rightarrow> (Inl Io_error, c\<lparr>blobs := (blobs c)(tmp \<mapsto> body)\<rparr>)
         | Written \<Rightarrow> (Inr (), c\<lparr>blobs := (blobs c)(tmp := None, blob_path_for env k \<mapsto> body)\<rparr>))"

definition audio_put :: "audio_env \<Rightarrow> audio_io \<Rightarrow> audio_key \<Rightarrow> string \<Rightarrow> audio_cache \<Rightarrow> audio_entry audio_result" where
  "audio_put env io k body c =
     (case write_blob env io k body c of
        (Inl e, c1) \<Rightarrow> (Inl e, c1)
      | (Inr _, c1) \<Rightarrow>
          (let c2 = c1\<lparr>audio_rows := upsert_row au_key (new_row env io k body (audio_rows c1)) (audio_rows c1)\<rparr>
           in case evict_lru_to_fit io c2 of
                (Inl e, c3) \<Rightarrow> (Inl e, c3)
              | (Inr _, c3) \<Rightarrow>
                  (case audio_get k c3 of
                     Some entry \<Rightarrow> (Inr entry, c3)
                   | None \<Rightarrow>
                       (Inr \<lparr>ae_key = k, ae_blob_path = blob_path_for env k, ae_bytes = length body,
                             ae_last_accessed = io_now io, ae_pinned = False\<rparr>, c3))))"

definition audio_delete :: "audio_io \<Rightarrow> audio_key \<Rightarrow> audio_cache \<Rightarrow> bool audio_result" where
  "audio_delete io k c =
     (case find_row (canonical k) (audio_rows c) of
        None \<Rightarrow> (Inr False, c)
      | Some r \<Rightarrow>
          (case remove_blob io (au_blob_path r) c of
             (Inl e, c') \<Rightarrow> (Inl e, c')
           | (Inr _, c') \<Rightarrow> (Inr True, c'\<lparr>audio_rows := delete_row (canonical k) (audio_rows c')\<rparr>)))"

definition touch :: "audio_io \<Rightarrow> audio_key \<Rightarrow> audio_cache \<Rightarrow> bool \<times> audio_cache" where
  "touch io k c =
     (affected (\<lambda>r. au_key r = canonical k) (audio_rows c) > 0,
      c\<lparr>audio_rows := update_where (\<lambda>r. au_key r = canonical k)
          (\<lambda>r. r\<lparr>au_last_accessed := systemtime_to_millis_i64 (io_now io)\<rparr>) (audio_rows c)\<rparr>)"

definition set_pinned :: "bool \<Rightarrow> audio_key \<Rightarrow> audio_cache \<Rightarrow> audio_cache" where
  "set_pinned b k c =
     c\<lparr>audio_rows := update_where (\<lambda>r. au_key r = canonical k) (\<lambda>r. r\<lparr>au_pinned := b\<rparr>) (audio_rows c)\<rparr>"

text \<open>\<open>saturating_add\<close> on \<open>u64\<close>.\<close>

definition u64_sat_add :: "nat \<Rightarrow> nat \<Rightarrow> nat" where
  "u64_sat_add a b = min (a + b) (2 ^ 64 - 1)"

definition audio_pin :: "audio_key \<Rightarrow> audio_cache \<Rightarrow> pin_outcome \<times> audio_cache" where
  "audio_pin k c =
     (case find_row (canonical k) (audio_rows c) of
        None \<Rightarrow> (PinNotInCache, c)
      | Some r \<Rightarrow>
          if au_pinned r then (AlreadyPinned, c)
          else let projected = u64_sat_add (i64_to_u64 (bytes_of (pinned (audio_rows c)))) (i64_to_u64 (au_bytes r))
               in if projected > pinned_budget_bytes c
                  then (WouldExceedBudget (projected - pinned_budget_bytes c), c)
                  else (Pinned, set_pinned True k c))"

definition audio_unpin :: "audio_io \<Rightarrow> audio_key \<Rightarrow> audio_cache \<Rightarrow> unpin_outcome audio_result" where
  "audio_unpin io k c =
     (case find_row (canonical k) (audio_rows c) of
        None \<Rightarrow> (Inr UnpinNotInCache, c)
      | Some r \<Rightarrow>
          if \<not> au_pinned r then (Inr NotPinned, c)
          else (case evict_lru_to_fit io (set_pinned False k c) of
                  (Inl e, c') \<Rightarrow> (Inl e, c')
                | (Inr _, c') \<Rightarrow> (Inr Unpinned, c')))"

definition list_pinned :: "audio_cache \<Rightarrow> audio_entry list" where
  "list_pinned c = map row_to_entry (sort_key (\<lambda>r. map byte (au_track_id r)) (pinned (audio_rows c)))"

definition audio_stats :: "audio_cache \<Rightarrow> audio_cache_stats" where
  "audio_stats c =
     \<lparr>regular_count = length (regular (audio_rows c)),
      regular_bytes = i64_to_u64 (bytes_of (regular (audio_rows c))),
      stats_regular_budget = regular_budget_bytes c,
      pinned_count = length (pinned (audio_rows c)),
      pinned_bytes = i64_to_u64 (bytes_of (pinned (audio_rows c))),
      stats_pinned_budget = pinned_budget_bytes c\<rparr>"

interpretation audio: keyed_store find_row "upsert_row au_key" delete_row au_key
  by unfold_locales (simp_all add: find_row_def delete_row_def find_upsert_row find_delete_row)

section \<open>Keys, file names and paths\<close>

lemma append_last_sep:
  "d \<notin> set ys \<Longrightarrow> d \<notin> set zs \<Longrightarrow> xs @ d # ys = ws @ d # zs \<longleftrightarrow> xs = ws \<and> ys = zs"
proof (induction xs arbitrary: ws)
  case Nil
  then show ?case by (cases ws) auto
next
  case (Cons x xs)
  note IH = Cons.IH [OF Cons.prems]
  show ?case
  proof (cases ws)
    case Nil
    have "x # xs @ d # ys \<noteq> d # zs" using Cons.prems(2) by (metis in_set_conv_decomp list.inject)
    then show ?thesis by (simp add: Nil)
  next
    case (Cons w ws')
    then show ?thesis using IH [of ws'] by simp
  qed
qed

lemma nat_str_no_bar: "CHR ''|'' \<notin> set (nat_str n)"
proof
  assume "CHR ''|'' \<in> set (nat_str n)"
  from nat_str_digits [OF this] show False by simp
qed

lemma nat_str_not_orig: "nat_str n \<noteq> ''orig''"
proof
  assume "nat_str n = ''orig''"
  then have "CHR ''o'' \<in> set (nat_str n)" by simp
  from nat_str_digits [OF this] show False by simp
qed

lemma bitrate_text_inj:
  "(case b of Some b \<Rightarrow> nat_str (unat b) | None \<Rightarrow> ''orig'')
     = (case c of Some c \<Rightarrow> nat_str (unat c) | None \<Rightarrow> ''orig'') \<longleftrightarrow> b = c"
  using nat_str_not_orig nat_str_not_orig [symmetric]
  by (auto simp: nat_str_inj word_unat_eq_iff split: option.splits)

lemma canonical_inj:
  assumes "CHR ''|'' \<notin> set (ak_codec j)" "CHR ''|'' \<notin> set (ak_codec k)"
  shows "canonical j = canonical k \<longleftrightarrow> j = k"
proof
  assume eq: "canonical j = canonical k"
  let ?b = "\<lambda>k. case ak_bitrate k of Some b \<Rightarrow> nat_str (unat b) | None \<Rightarrow> ''orig''"
  have split: "canonical i = (ak_track_id i @ CHR ''|'' # ?b i) @ CHR ''|'' # ak_codec i" for i
    by (simp add: canonical_def)
  have bar: "CHR ''|'' \<notin> set (?b i)" for i
    by (auto simp: nat_str_no_bar split: option.splits)
  from eq have "(ak_track_id j @ CHR ''|'' # ?b j) @ CHR ''|'' # ak_codec j
      = (ak_track_id k @ CHR ''|'' # ?b k) @ CHR ''|'' # ak_codec k"
    by (simp only: split)
  then have "ak_track_id j @ CHR ''|'' # ?b j = ak_track_id k @ CHR ''|'' # ?b k" "ak_codec j = ak_codec k"
    using append_last_sep [OF assms] by blast+
  with append_last_sep [OF bar bar] have "ak_track_id j = ak_track_id k" "?b j = ?b k" by blast+
  with \<open>ak_codec j = ak_codec k\<close> show "j = k"
    by (cases j, cases k) (simp add: bitrate_text_inj)
qed simp

lemma lower_hex_inj: "d < 16 \<Longrightarrow> e < 16 \<Longrightarrow> lower_hex d = lower_hex e \<Longrightarrow> d = e"
proof -
  assume "d < 16" "e < 16" "lower_hex d = lower_hex e"
  then have "(of_char (lower_hex d) :: nat) = of_char (lower_hex e)" by simp
  with \<open>d < 16\<close> \<open>e < 16\<close> show ?thesis by (auto simp: lower_hex_def split: if_splits)
qed

lemma lower_hex_no_dot: "d < 16 \<Longrightarrow> lower_hex d \<noteq> CHR ''.''"
proof
  assume "d < 16" "lower_hex d = CHR ''.''"
  then have "(of_char (lower_hex d) :: nat) = 46" by simp
  with \<open>d < 16\<close> show False by (auto simp: lower_hex_def split: if_splits)
qed

lemma byte_div_16: "byte c div 16 < 16"
  using byte_less [of c] by simp

lemma hex_bytes_inj: "hex_bytes s = hex_bytes t \<Longrightarrow> s = t"
proof (induction s arbitrary: t)
  case Nil
  then show ?case by (cases t) (auto simp: hex_bytes_def)
next
  case (Cons c s)
  then obtain d t' where t: "t = d # t'" by (cases t) (auto simp: hex_bytes_def)
  from Cons.prems have "lower_hex (byte c div 16) = lower_hex (byte d div 16)"
    "lower_hex (byte c mod 16) = lower_hex (byte d mod 16)" "hex_bytes s = hex_bytes t'"
    by (simp_all add: t hex_bytes_def)
  then have "byte c div 16 = byte d div 16" "byte c mod 16 = byte d mod 16"
    by (auto intro: lower_hex_inj byte_div_16)
  then have "byte c = byte d" by (metis div_mult_mod_eq)
  then have "c = d" by (simp add: byte_def)
  with Cons.IH [OF \<open>hex_bytes s = hex_bytes t'\<close>] show ?case by (simp add: t)
qed

lemma hex_no_dot: "CHR ''.'' \<notin> set (hex_bytes s)"
proof (induction s)
  case (Cons c s)
  have "lower_hex (byte c div 16) \<noteq> CHR ''.''" "lower_hex (byte c mod 16) \<noteq> CHR ''.''"
    by (rule lower_hex_no_dot, simp add: byte_div_16)+
  with Cons show ?case by (simp add: hex_bytes_def eq_commute)
qed (simp add: hex_bytes_def)

lemma tmp_not_blob: "tmp_path_for env j \<noteq> blob_path_for env k"
proof
  assume "tmp_path_for env j = blob_path_for env k"
  then have "hex_bytes (sha256 env (canonical j)) @ ''.tmp'' = hex_bytes (sha256 env (canonical k))"
    by (simp add: tmp_path_for_def blob_path_for_def blob_filename_def)
  moreover have "CHR ''.'' \<notin> set (hex_bytes (sha256 env (canonical k)))" by (rule hex_no_dot)
  ultimately show False by (metis Un_iff list.set_intros(1) set_append)
qed

text \<open>No two keys in \<open>K\<close> have one digest (``full SHA-256, no collisions'').\<close>

definition collision_free :: "audio_env \<Rightarrow> audio_key set \<Rightarrow> bool" where
  "collision_free env K \<longleftrightarrow> inj_on (\<lambda>k. sha256 env (canonical k)) K"

lemma blob_path_inj:
  "collision_free env K \<Longrightarrow> j \<in> K \<Longrightarrow> k \<in> K \<Longrightarrow> blob_path_for env j = blob_path_for env k \<Longrightarrow> j = k"
  by (auto simp: collision_free_def blob_path_for_def blob_filename_def dest!: hex_bytes_inj dest: inj_onD)

lemma canonical_inj_on:
  "collision_free env K \<Longrightarrow> j \<in> K \<Longrightarrow> k \<in> K \<Longrightarrow> canonical j = canonical k \<Longrightarrow> j = k"
  unfolding collision_free_def by (metis inj_onD)

section \<open>Eviction\<close>

text \<open>One round: nothing to do, a file that cannot be removed, or one row less.\<close>

lemma evict_cases:
  obtains (fits) "i64_to_u64 (bytes_of (regular (audio_rows c))) \<le> regular_budget_bytes c
      \<or> length (regular (audio_rows c)) \<le> 1"
      "evict_lru_to_fit io c = (Inr (i64_to_u64 (bytes_of (regular (audio_rows c)))), c)"
  | (stuck) r where "first_by lru_key (regular (audio_rows c)) = Some r" "\<not> io_remove_ok io (au_blob_path r)"
      "evict_lru_to_fit io c = (Inl Io_error, c)"
  | (round) r where
      "\<not> i64_to_u64 (bytes_of (regular (audio_rows c))) \<le> regular_budget_bytes c"
      "1 < length (regular (audio_rows c))" "r \<in> set (regular (audio_rows c))"
      "first_by lru_key (regular (audio_rows c)) = Some r"
      "evict_lru_to_fit io c =
         evict_lru_to_fit io (c\<lparr>audio_rows := delete_row (au_key r) (audio_rows c),
                                blobs := (blobs c)(au_blob_path r := None)\<rparr>)"
proof -
  let ?rs = "regular (audio_rows c)"
  let ?total = "i64_to_u64 (bytes_of ?rs)"
  show thesis
  proof (cases "?total \<le> regular_budget_bytes c \<or> length ?rs \<le> 1")
    case True
    then show thesis by (intro fits) (simp_all add: evict_lru_to_fit.simps [of io c] Let_def)
  next
    case False
    then have "?rs \<noteq> []" by auto
    then obtain r where r: "first_by lru_key ?rs = Some r" by (simp add: first_by_def)
    have same: "c\<lparr>audio_rows := delete_row (au_key r) (audio_rows c)\<rparr> =
        c\<lparr>audio_rows := delete_row (au_key r) (audio_rows c), blobs := (blobs c)(au_blob_path r := None)\<rparr>"
      if "blobs c (au_blob_path r) = None"
      using that by (simp add: fun_upd_idem)
    have comm: "c\<lparr>blobs := B, audio_rows := R\<rparr> = c\<lparr>audio_rows := R, blobs := B\<rparr>" for B R
      by simp
    show thesis
    proof (cases "blobs c (au_blob_path r) \<noteq> None \<and> \<not> io_remove_ok io (au_blob_path r)")
      case True
      with False r show thesis
        by (intro stuck [of r]) (auto simp: evict_lru_to_fit.simps [of io c] Let_def remove_blob_def)
    next
      case no: False
      have "evict_lru_to_fit io c = evict_lru_to_fit io (c\<lparr>audio_rows := delete_row (au_key r) (audio_rows c),
          blobs := (blobs c)(au_blob_path r := None)\<rparr>)"
        using False r no same
        by (cases "blobs c (au_blob_path r)")
          (simp_all add: evict_lru_to_fit.simps [of io c] Let_def remove_blob_def comm)
      with False r first_by_in [OF r] show thesis by (intro round [of r]) auto
    qed
  qed
qed

text \<open>What a call of the eviction keeps, error or not: induction over its rounds.\<close>

lemma evict_induct [case_names stop round]:
  assumes stop: "\<And>c x. P c (x, c)"
    and round: "\<And>c r res. r \<in> set (regular (audio_rows c)) \<Longrightarrow>
      P (c\<lparr>audio_rows := delete_row (au_key r) (audio_rows c),
           blobs := (blobs c)(au_blob_path r := None)\<rparr>) res \<Longrightarrow> P c res"
  shows "P c (evict_lru_to_fit io c)"
proof (induction "length (regular (audio_rows c))" arbitrary: c rule: less_induct)
  case less
  show ?case
  proof (cases rule: evict_cases [of c io])
    case fits
    then show ?thesis using stop by simp
  next
    case (stuck r)
    then show ?thesis using stop by simp
  next
    case (round r)
    have "length (regular (audio_rows (c\<lparr>audio_rows := delete_row (au_key r) (audio_rows c),
        blobs := (blobs c)(au_blob_path r := None)\<rparr>))) < length (regular (audio_rows c))"
      using delete_row_shorter [OF round(3)] by simp
    from assms(2) [OF round(3) less [OF this]] show ?thesis by (simp only: round(5))
  qed
qed

lemma set_delete_row [simp]: "r \<in> set (delete_row k rs) \<longleftrightarrow> r \<in> set rs \<and> au_key r \<noteq> k"
  by (auto simp: delete_row_def)

lemma distinct_delete_row: "distinct (map au_key rs) \<Longrightarrow> distinct (map au_key (delete_row k rs))"
  by (simp add: delete_row_def distinct_map_filter)

lemma evict_budgets:
  "regular_budget_bytes (snd (evict_lru_to_fit io c)) = regular_budget_bytes c
   \<and> pinned_budget_bytes (snd (evict_lru_to_fit io c)) = pinned_budget_bytes c"
  by (rule evict_induct [where P = "\<lambda>c res. regular_budget_bytes (snd res) = regular_budget_bytes c
    \<and> pinned_budget_bytes (snd res) = pinned_budget_bytes c"]) simp_all

text \<open>Rows that have their own key lose nothing to the deletion of another row.\<close>

lemma pinned_delete_row:
  assumes "distinct (map au_key rs)" "r \<in> set (regular rs)"
  shows "pinned (delete_row (au_key r) rs) = pinned rs"
proof -
  have "au_key x \<noteq> au_key r" if "x \<in> set rs" "au_pinned x" for x
    using same_key_same_elem [OF assms(1), of x r] that assms(2) by auto
  then show ?thesis by (auto simp: delete_row_def intro: filter_cong)
qed

lemma evict_pinned:
  "distinct (map au_key (audio_rows c)) \<Longrightarrow>
   pinned (audio_rows (snd (evict_lru_to_fit io c))) = pinned (audio_rows c)"
proof -
  have "distinct (map au_key (audio_rows c)) \<longrightarrow>
     pinned (audio_rows (snd (evict_lru_to_fit io c))) = pinned (audio_rows c)"
    by (rule evict_induct [where P = "\<lambda>c res. distinct (map au_key (audio_rows c)) \<longrightarrow>
       pinned (audio_rows (snd res)) = pinned (audio_rows c)"])
      (simp_all add: distinct_delete_row pinned_delete_row)
  then show "distinct (map au_key (audio_rows c)) \<Longrightarrow> ?thesis" by simp
qed

text \<open>The reference: on the regular rows from the least to the most recently used, drop from the front
  while they are over the budget and more than one.\<close>

fun lru_trim :: "nat \<Rightarrow> audio_row list \<Rightarrow> audio_row list" where
  "lru_trim budget [] = []"
| "lru_trim budget (r # rs) =
     (if i64_to_u64 (bytes_of (r # rs)) \<le> budget \<or> rs = [] then r # rs else lru_trim budget rs)"

lemma byte_list_inj: "map byte s = map byte t \<longleftrightarrow> s = t"
  by (intro inj_map_eq_map injI) (simp add: byte_def)

lemma lru_key_inj: "distinct (map au_key rs) \<Longrightarrow> inj_on lru_key (set rs)"
proof (rule inj_onI)
  fix x y
  assume "distinct (map au_key rs)" "x \<in> set rs" "y \<in> set rs" "lru_key x = lru_key y"
  moreover from this have "map byte (au_key x) = map byte (au_key y)" by (simp add: lru_key_def)
  then have "au_key x = au_key y" by (simp add: byte_list_inj)
  ultimately show "x = y" using same_key_same_elem by metis
qed

lemma bytes_of_sort: "bytes_of (sort_key f rs) = bytes_of rs"
  by (simp add: bytes_of_def flip: sum_mset_sum_list)

lemma lru_sorted_hd:
  assumes "distinct (map au_key rs)" "first_by lru_key rs = Some r"
  shows "sort_key lru_key rs = r # sort_key lru_key (delete_row (au_key r) rs)"
proof -
  have "rs \<noteq> []" using assms(2) by (auto simp: first_by_def)
  then obtain h t where ht: "sort_key lru_key rs = h # t"
    by (metis length_greater_0_conv length_sort neq_Nil_conv)
  have dist: "distinct (map au_key (h # t))"
    using assms(1) by (simp add: distinct_map flip: ht)
  have h: "h \<in> set rs" by (metis ht list.set_intros(1) set_sort)
  have "sorted (map lru_key (h # t))" using sorted_sort_key [of lru_key rs] by (simp add: ht)
  moreover have r: "r \<in> set (h # t)" using first_by_in [OF assms(2)] by (simp flip: ht)
  ultimately have "lru_key h \<le> lru_key r" by auto
  with first_by_least [OF assms(2) h] have "lru_key h = lru_key r" by simp
  with lru_key_inj [OF assms(1)] h first_by_in [OF assms(2)] have [simp]: "h = r"
    by (metis inj_onD)
  have "sort_key lru_key (delete_row (au_key r) rs) = filter (\<lambda>x. au_key x \<noteq> au_key r) (sort_key lru_key rs)"
    by (simp add: delete_row_def filter_sort)
  also have "\<dots> = filter (\<lambda>x. au_key x \<noteq> au_key r) t" by (simp add: ht)
  also have "\<dots> = t"
  proof (rule filter_True)
    have "au_key r \<notin> au_key ` set t" using dist by simp
    then show "\<forall>x \<in> set t. au_key x \<noteq> au_key r" by (metis image_eqI)
  qed
  finally show ?thesis by (simp add: ht)
qed

text \<open>The eviction leaves the rows of the reference, with their order in the table.\<close>

lemma bytes_delete_row:
  "bytes_of (regular (delete_row k rs)) = bytes_of (delete_row k (regular rs))"
  by (simp add: delete_row_def conj_commute)

lemma regular_delete_row: "regular (delete_row k rs) = delete_row k (regular rs)"
  by (simp add: delete_row_def conj_commute)

lemma evict_trims:
  assumes "distinct (map au_key (audio_rows c))"
    "\<forall>r \<in> set (regular (audio_rows c)). io_remove_ok io (au_blob_path r)"
  shows "\<exists>c'. evict_lru_to_fit io c = (Inr (i64_to_u64 (bytes_of (regular (audio_rows c')))), c')
    \<and> sort_key lru_key (regular (audio_rows c')) =
        lru_trim (regular_budget_bytes c) (sort_key lru_key (regular (audio_rows c)))"
  using assms
proof (induction "length (regular (audio_rows c))" arbitrary: c rule: less_induct)
  case less
  let ?rs = "regular (audio_rows c)"
  show ?case
  proof (cases rule: evict_cases [of c io])
    case fits
    have "lru_trim (regular_budget_bytes c) (sort_key lru_key ?rs) = sort_key lru_key ?rs"
    proof (cases "sort_key lru_key ?rs")
      case (Cons h t)
      then have "bytes_of (h # t) = bytes_of ?rs" "length (h # t) = length ?rs"
        by (metis bytes_of_sort, metis length_sort)
      with fits(1) show ?thesis by (cases t) (auto simp: Cons)
    qed simp
    with fits(2) show ?thesis by auto
  next
    case (stuck r)
    then show ?thesis using less.prems(2) first_by_in [OF stuck(1)] by blast
  next
    case (round r)
    let ?c = "c\<lparr>audio_rows := delete_row (au_key r) (audio_rows c), blobs := (blobs c)(au_blob_path r := None)\<rparr>"
    have reg: "regular (audio_rows ?c) = delete_row (au_key r) ?rs"
      by (simp add: regular_delete_row)
    have dist: "distinct (map au_key ?rs)" using less.prems(1) by (simp add: distinct_map_filter)
    have sorted: "sort_key lru_key ?rs = r # sort_key lru_key (regular (audio_rows ?c))"
      using lru_sorted_hd [OF dist round(4)] by (simp only: reg)
    have shorter: "length (regular (audio_rows ?c)) < length ?rs"
      using delete_row_shorter [OF round(3)] by simp
    have d: "distinct (map au_key (audio_rows ?c))"
      using distinct_delete_row [OF less.prems(1)] by simp
    have rem: "\<forall>r \<in> set (regular (audio_rows ?c)). io_remove_ok io (au_blob_path r)"
      using less.prems(2) by simp
    have bytes: "bytes_of (r # sort_key lru_key (regular (audio_rows ?c))) = bytes_of ?rs"
      by (metis bytes_of_sort sorted)
    have "sort_key lru_key (regular (audio_rows ?c)) \<noteq> []"
    proof
      assume e: "sort_key lru_key (regular (audio_rows ?c)) = []"
      have "length ?rs = 1" using arg_cong [OF sorted [unfolded e], of length] by simp
      then show False using round(2) by simp
    qed
    then have "lru_trim (regular_budget_bytes c) (sort_key lru_key ?rs) =
        lru_trim (regular_budget_bytes c) (sort_key lru_key (regular (audio_rows ?c)))"
      using round(1) by (simp add: sorted bytes [simplified])
    with less.hyps [OF shorter d rem] show ?thesis by (simp add: round(5))
  qed
qed

text \<open>What the reference promises: a suffix, within the budget or down to one row, and no shorter than
  it has to be.\<close>

lemma lru_trim_spec:
  "rs \<noteq> [] \<Longrightarrow> \<exists>gone. rs = gone @ lru_trim budget rs \<and> lru_trim budget rs \<noteq> []
     \<and> (i64_to_u64 (bytes_of (lru_trim budget rs)) \<le> budget \<or> length (lru_trim budget rs) = 1)
     \<and> (gone \<noteq> [] \<longrightarrow> i64_to_u64 (bytes_of (last gone # lru_trim budget rs)) > budget)"
proof (induction rs)
  case (Cons r rs)
  show ?case
  proof (cases "i64_to_u64 (bytes_of (r # rs)) \<le> budget \<or> rs = []")
    case True
    then show ?thesis by (intro exI [of _ "[]"]) auto
  next
    case False
    with Cons.IH obtain gone where g: "rs = gone @ lru_trim budget rs" "lru_trim budget rs \<noteq> []"
      "i64_to_u64 (bytes_of (lru_trim budget rs)) \<le> budget \<or> length (lru_trim budget rs) = 1"
      "gone \<noteq> [] \<longrightarrow> i64_to_u64 (bytes_of (last gone # lru_trim budget rs)) > budget" by blast
    have "i64_to_u64 (bytes_of (last (r # gone) # lru_trim budget rs)) > budget"
    proof (cases "gone = []")
      case True
      with g(1) have "lru_trim budget rs = rs" by simp
      then show ?thesis using False True by simp
    qed (use g(4) in simp)
    with g False show ?thesis by (intro exI [of _ "r # gone"]) auto
  qed
qed simp

section \<open>Table and blobs in step\<close>

text \<open>Every row is one of a key in \<open>K\<close>, its file is there and has its size; no blob is without a row, but
  for temporary files.\<close>

definition row_ok :: "audio_env \<Rightarrow> audio_key set \<Rightarrow> (string \<rightharpoonup> string) \<Rightarrow> audio_row \<Rightarrow> bool" where
  "row_ok env K fs r \<longleftrightarrow>
     (\<exists>k body. k \<in> K \<and> ae_key (row_to_entry r) = k \<and> au_key r = canonical k
        \<and> au_blob_path r = blob_path_for env k \<and> fs (au_blob_path r) = Some body
        \<and> au_bytes r = u64_to_i64 (length body))"

definition audio_ok :: "audio_env \<Rightarrow> audio_key set \<Rightarrow> audio_cache \<Rightarrow> bool" where
  "audio_ok env K c \<longleftrightarrow>
     distinct (map au_key (audio_rows c))
     \<and> (\<forall>r \<in> set (audio_rows c). row_ok env K (blobs c) r)
     \<and> dom (blobs c) \<subseteq> tmp_path_for env ` K \<union> au_blob_path ` set (audio_rows c)"

lemma row_ok_path:
  "collision_free env K \<Longrightarrow> row_ok env K fs r \<Longrightarrow> row_ok env K gs q \<Longrightarrow>
   au_blob_path r = au_blob_path q \<longleftrightarrow> au_key r = au_key q"
  unfolding row_ok_def by (metis blob_path_inj canonical_inj_on)

lemma row_ok_other_file: "row_ok env K fs r \<Longrightarrow> p \<noteq> au_blob_path r \<Longrightarrow> row_ok env K (fs(p := v)) r"
  by (auto simp: row_ok_def)

lemma row_ok_tmp: "row_ok env K fs r \<Longrightarrow> row_ok env K (fs(tmp_path_for env k := v)) r"
  by (rule row_ok_other_file) (auto simp: row_ok_def tmp_not_blob)

lemma row_ok_flags [simp]:
  "row_ok env K fs (r\<lparr>au_last_accessed := t\<rparr>) = row_ok env K fs r"
  "row_ok env K fs (r\<lparr>au_pinned := b\<rparr>) = row_ok env K fs r"
  by (simp_all add: row_ok_def row_to_entry_def)

text \<open>Removing a file with its row.\<close>

lemma audio_ok_drop:
  assumes "collision_free env K" "audio_ok env K c" "r \<in> set (audio_rows c)"
  shows "audio_ok env K (c\<lparr>audio_rows := delete_row (au_key r) (audio_rows c),
           blobs := (blobs c)(au_blob_path r := None)\<rparr>)"
proof -
  have rows: "row_ok env K (blobs c) q" if "q \<in> set (audio_rows c)" for q
    using assms(2) that by (simp add: audio_ok_def)
  have path: "au_blob_path q = au_blob_path r \<longleftrightarrow> au_key q = au_key r" if "q \<in> set (audio_rows c)" for q
    by (rule row_ok_path [OF assms(1) rows [OF that] rows [OF assms(3)]])
  have "p \<in> tmp_path_for env ` K \<union> au_blob_path ` set (delete_row (au_key r) (audio_rows c))"
    if "p \<in> dom (blobs c)" "p \<noteq> au_blob_path r" for p
  proof -
    have "p \<in> tmp_path_for env ` K \<or> (\<exists>q \<in> set (audio_rows c). p = au_blob_path q)"
      using assms(2) that(1) unfolding audio_ok_def by blast
    then show ?thesis using that(2) path by auto
  qed
  moreover have "row_ok env K ((blobs c)(au_blob_path r := None)) q"
    if q: "q \<in> set (audio_rows c)" "au_key q \<noteq> au_key r" for q
    by (rule row_ok_other_file [OF rows [OF q(1)]]) (use path [OF q(1)] q(2) in auto)
  ultimately show ?thesis
    using assms(2) by (auto simp: audio_ok_def distinct_delete_row)
qed

lemma evict_ok:
  assumes "collision_free env K" "audio_ok env K c"
  shows "audio_ok env K (snd (evict_lru_to_fit io c))"
proof -
  have "audio_ok env K c \<longrightarrow> audio_ok env K (snd (evict_lru_to_fit io c))"
    by (rule evict_induct [where P = "\<lambda>c res. audio_ok env K c \<longrightarrow> audio_ok env K (snd res)"])
      (use assms(1) audio_ok_drop in auto)
  with assms(2) show ?thesis by simp
qed

lemma audio_ok_flags:
  assumes "\<And>r. au_key (f r) = au_key r" "\<And>r. au_blob_path (f r) = au_blob_path r"
    "\<And>fs r. row_ok env K fs (f r) = row_ok env K fs r" "audio_ok env K c"
  shows "audio_ok env K (c\<lparr>audio_rows := update_where P f (audio_rows c)\<rparr>)"
proof -
  have "au_blob_path ` set (update_where P f (audio_rows c)) = au_blob_path ` set (audio_rows c)"
    using assms(2) by (simp flip: set_map add: map_update_where)
  then show ?thesis
    using assms by (auto simp: audio_ok_def map_update_where in_update_where)
qed

lemma u32_roundtrip:
  "(case map_option uint b of
      None \<Rightarrow> None
    | Some (v :: int) \<Rightarrow> if 0 \<le> v \<and> v < 2 ^ 32 then Some (word_of_int v) else None) = (b :: 32 word option)"
  using uint_lt2p [where 'a = 32] by (auto split: option.splits)

lemma new_row_entry: "ae_key (row_to_entry (new_row env io k body rs)) = k"
  using u32_roundtrip [of "ak_bitrate k"] by (cases k) (simp add: row_to_entry_def new_row_def)

lemma new_row_fields:
  "au_key (new_row env io k body rs) = canonical k" "au_track_id (new_row env io k body rs) = ak_track_id k"
  "au_blob_path (new_row env io k body rs) = blob_path_for env k"
  "au_bytes (new_row env io k body rs) = u64_to_i64 (length body)"
  "au_pinned (new_row env io k body rs) = (case find_row (canonical k) rs of Some r \<Rightarrow> au_pinned r | None \<Rightarrow> False)"
  by (simp_all add: new_row_def)

lemma set_upsert_row: "x \<in> set (upsert_row key r t) \<Longrightarrow> x = r \<or> x \<in> set t \<and> key x \<noteq> key r"
  by (auto simp: upsert_row_def in_update_where split: if_splits)

lemma upsert_row_in: "r \<in> set (upsert_row key r t)"
  by (auto simp: upsert_row_def in_update_where)

lemma upsert_row_other: "x \<in> set t \<Longrightarrow> key x \<noteq> key r \<Longrightarrow> x \<in> set (upsert_row key r t)"
  by (auto simp: upsert_row_def in_update_where)

lemma audio_ok_upsert:
  assumes "collision_free env K" "audio_ok env K c" "k \<in> K"
  shows "audio_ok env K (c\<lparr>audio_rows := upsert_row au_key (new_row env io k body (audio_rows c)) (audio_rows c),
           blobs := (blobs c)(tmp_path_for env k := None, blob_path_for env k \<mapsto> body)\<rparr>)"
    (is "audio_ok env K ?c")
proof -
  let ?new = "new_row env io k body (audio_rows c)"
  have rows: "row_ok env K (blobs c) q" if "q \<in> set (audio_rows c)" for q
    using assms(2) that by (simp add: audio_ok_def)
  have new: "row_ok env K (blobs ?c) ?new"
    using assms(3) by (auto simp: row_ok_def new_row_entry new_row_fields)
  have old: "row_ok env K (blobs ?c) q" if q: "q \<in> set (audio_rows c)" "au_key q \<noteq> canonical k" for q
  proof -
    have "au_blob_path q \<noteq> blob_path_for env k"
      using row_ok_path [OF assms(1) rows [OF q(1)] new] q(2) by (simp add: new_row_fields)
    then have "row_ok env K ((blobs c)(tmp_path_for env k := None, blob_path_for env k := Some body)) q"
      by (intro row_ok_other_file row_ok_tmp rows q(1)) auto
    then show ?thesis by simp
  qed
  have "distinct (map au_key (audio_rows ?c))"
    using assms(2) by (simp add: audio_ok_def upsert_row_distinct)
  moreover have "row_ok env K (blobs ?c) q" if "q \<in> set (audio_rows ?c)" for q
    using set_upsert_row [of q au_key ?new "audio_rows c"] that new old by (auto simp: new_row_fields)
  moreover have "p \<in> tmp_path_for env ` K \<union> au_blob_path ` set (audio_rows ?c)"
    if p: "p \<in> dom (blobs ?c)" for p
  proof (cases "p = blob_path_for env k")
    case True
    then have "p = au_blob_path ?new" by (simp add: new_row_fields)
    then show ?thesis by (auto intro: upsert_row_in)
  next
    case False
    with p have "p \<in> dom (blobs c)" by (auto split: if_splits)
    then consider "p \<in> tmp_path_for env ` K" | q where "q \<in> set (audio_rows c)" "p = au_blob_path q"
      using assms(2) unfolding audio_ok_def by blast
    then show ?thesis
    proof cases
      case 2
      have "au_key q \<noteq> au_key ?new"
        using row_ok_path [OF assms(1) rows [OF 2(1)] new] 2(2) False by (simp add: new_row_fields)
      with 2 show ?thesis by (auto intro: upsert_row_other)
    qed simp
  qed
  ultimately show ?thesis unfolding audio_ok_def by blast
qed

lemma audio_find_unique:
  "distinct (map au_key rs) \<Longrightarrow> r \<in> set rs \<Longrightarrow> au_key r = k \<Longrightarrow> find_row k rs = Some r"
  unfolding find_row_def
  by (induction rs) (auto simp: image_iff)

end
