(* ===== verification/Audio_Laws.thy ===== *)
theory Audio_Laws
  imports Audio_Cache
begin

text \<open>
  Runs of the audio cache's calls (\<open>music-cache/src/audio.rs\<close>), each with its own answers of the file
  system, and what they keep: the table and the blobs in step, the blobs of pinned rows, the
  budget of pinned bytes.
\<close>

datatype audio_op =
    Put audio_key string
  | Delete audio_key
  | Touch audio_key
  | Pin audio_key
  | Unpin audio_key
  | Evict
  | Set_budgets nat nat

fun audio_step :: "audio_env \<Rightarrow> audio_io \<times> audio_op \<Rightarrow> audio_cache \<Rightarrow> audio_cache" where
  "audio_step env (io, Put k body) c = snd (audio_put env io k body c)"
| "audio_step env (io, Delete k) c = snd (audio_delete io k c)"
| "audio_step env (io, Touch k) c = snd (touch io k c)"
| "audio_step env (io, Pin k) c = snd (audio_pin k c)"
| "audio_step env (io, Unpin k) c = snd (audio_unpin io k c)"
| "audio_step env (io, Evict) c = snd (evict_lru_to_fit io c)"
| "audio_step env (io, Set_budgets a b) c = set_budgets a b c"

definition audio_run :: "audio_env \<Rightarrow> (audio_io \<times> audio_op) list \<Rightarrow> audio_cache \<Rightarrow> audio_cache" where
  "audio_run env ops c = fold (audio_step env) ops c"

fun op_key :: "audio_op \<Rightarrow> audio_key option" where
  "op_key (Put k body) = Some k"
| "op_key (Delete k) = Some k"
| "op_key (Touch k) = Some k"
| "op_key (Pin k) = Some k"
| "op_key (Unpin k) = Some k"
| "op_key _ = None"

abbreviation ops_in :: "audio_key set \<Rightarrow> (audio_io \<times> audio_op) list \<Rightarrow> bool" where
  "ops_in K ops \<equiv> \<forall>(io, op) \<in> set ops. \<forall>k. op_key op = Some k \<longrightarrow> k \<in> K"

section \<open>What a call does to the state\<close>

lemma put_state:
  "snd (audio_put env io k body c) =
     (case io_write io of
        Write_failed part \<Rightarrow> c\<lparr>blobs := (blobs c)(tmp_path_for env k \<mapsto> part)\<rparr>
      | Rename_failed \<Rightarrow> c\<lparr>blobs := (blobs c)(tmp_path_for env k \<mapsto> body)\<rparr>
      | Written \<Rightarrow> snd (evict_lru_to_fit io
          (c\<lparr>audio_rows := upsert_row au_key (new_row env io k body (audio_rows c)) (audio_rows c),
             blobs := (blobs c)(tmp_path_for env k := None, blob_path_for env k \<mapsto> body)\<rparr>)))"
proof -
  have comm: "c\<lparr>blobs := B, audio_rows := R\<rparr> = c\<lparr>audio_rows := R, blobs := B\<rparr>" for B R
    by simp
  show ?thesis
    by (simp add: audio_put_def write_blob_def Let_def comm
        split: write_result.split prod.split sum.split option.split)
qed

lemma delete_state:
  "snd (audio_delete io k c) = c
   \<or> (\<exists>r. find_row (canonical k) (audio_rows c) = Some r \<and> r \<in> set (audio_rows c) \<and> au_key r = canonical k
        \<and> snd (audio_delete io k c) = c\<lparr>audio_rows := delete_row (au_key r) (audio_rows c),
             blobs := (blobs c)(au_blob_path r := None)\<rparr>)"
proof (cases "find_row (canonical k) (audio_rows c)")
  case (Some r)
  then have r: "r \<in> set (audio_rows c)" "au_key r = canonical k"
    by (auto simp: find_row_def find_Some_iff)
  have comm: "c\<lparr>blobs := B, audio_rows := R\<rparr> = c\<lparr>audio_rows := R, blobs := B\<rparr>" for B R
    by simp
  show ?thesis
  proof (cases "blobs c (au_blob_path r) = None")
    case True
    then have "(blobs c)(au_blob_path r := None) = blobs c" by (simp add: fun_upd_idem)
    with Some r True show ?thesis by (simp add: audio_delete_def remove_blob_def)
  next
    case False
    with Some r comm show ?thesis
      by (cases "blobs c (au_blob_path r)") (simp_all add: audio_delete_def remove_blob_def)
  qed
qed (simp add: audio_delete_def)

lemma unpin_state:
  "snd (audio_unpin io k c) = c \<or> snd (audio_unpin io k c) = snd (evict_lru_to_fit io (set_pinned False k c))"
  by (simp add: audio_unpin_def split: option.split prod.split sum.split)

lemma pin_state: "snd (audio_pin k c) = c \<or> snd (audio_pin k c) = set_pinned True k c"
  by (simp add: audio_pin_def Let_def split: option.split)

section \<open>The invariant\<close>

lemma audio_ok_open: "audio_ok env K (open_cache a b)"
  by (simp add: audio_ok_def open_cache_def)

lemma audio_ok_tmp:
  assumes "audio_ok env K c" "k \<in> K"
  shows "audio_ok env K (c\<lparr>blobs := (blobs c)(tmp_path_for env k \<mapsto> part)\<rparr>)"
  using assms by (auto simp: audio_ok_def row_ok_tmp)

lemma audio_ok_set_pinned: "audio_ok env K c \<Longrightarrow> audio_ok env K (set_pinned b k c)"
  unfolding set_pinned_def by (rule audio_ok_flags) simp_all

lemma audio_ok_touch: "audio_ok env K c \<Longrightarrow> audio_ok env K (snd (touch io k c))"
  unfolding touch_def snd_conv by (rule audio_ok_flags) simp_all

lemma audio_step_ok:
  assumes "collision_free env K" "audio_ok env K c" "\<forall>k. op_key op = Some k \<longrightarrow> k \<in> K"
  shows "audio_ok env K (audio_step env (io, op) c)"
proof (cases op)
  case (Put k body)
  with assms(3) have "k \<in> K" by simp
  then show ?thesis
    using evict_ok [OF assms(1) audio_ok_upsert [OF assms(1,2)]] audio_ok_tmp [OF assms(2)]
    by (simp add: Put put_state split: write_result.split)
next
  case (Delete k)
  show ?thesis
    using delete_state [of io k c] audio_ok_drop [OF assms(1,2)] assms(2) by (simp only: Delete audio_step.simps) metis
next
  case (Unpin k)
  show ?thesis
    using unpin_state [of io k c] evict_ok [OF assms(1) audio_ok_set_pinned [OF assms(2)]] assms(2)
    by (auto simp: Unpin)
next
  case (Pin k)
  show ?thesis using pin_state [of k c] audio_ok_set_pinned [OF assms(2)] assms(2) by (auto simp: Pin)
next
  case (Touch k)
  show ?thesis by (simp add: Touch audio_ok_touch assms(2))
next
  case Evict
  show ?thesis by (simp add: Evict evict_ok assms(1,2))
next
  case (Set_budgets a b)
  then show ?thesis using assms(2) by (simp add: set_budgets_def audio_ok_def)
qed

lemma audio_run_ok:
  assumes "collision_free env K" "audio_ok env K c" "ops_in K ops"
  shows "audio_ok env K (audio_run env ops c)"
  using assms(2,3)
proof (induction ops arbitrary: c)
  case (Cons e ops)
  obtain io op where e: "e = (io, op)" by force
  have "audio_ok env K (audio_step env e c)"
    unfolding e by (rule audio_step_ok [OF assms(1) Cons.prems(1)]) (use Cons.prems(2) e in auto)
  with Cons show ?case by (simp add: audio_run_def)
qed (simp add: audio_run_def)

section \<open>Pinned copies\<close>

definition pinned_copy :: "audio_env \<Rightarrow> audio_key \<Rightarrow> string \<Rightarrow> audio_cache \<Rightarrow> bool" where
  "pinned_copy env k body c \<longleftrightarrow>
     (\<exists>r \<in> set (audio_rows c). au_key r = canonical k \<and> au_pinned r)
     \<and> blobs c (blob_path_for env k) = Some body"

lemma pinned_blob_kept:
  assumes "collision_free env K" "audio_ok env K c" "k \<in> K"
    "q \<in> set (audio_rows c)" "au_key q = canonical k" "au_pinned q"
  shows "blobs (snd (evict_lru_to_fit io c)) (blob_path_for env k) = blobs c (blob_path_for env k)"
proof -
  let ?kept = "\<lambda>c. audio_ok env K c \<and> (\<exists>q \<in> set (audio_rows c). au_key q = canonical k \<and> au_pinned q)"
  have "?kept c \<longrightarrow> blobs (snd (evict_lru_to_fit io c)) (blob_path_for env k) = blobs c (blob_path_for env k)"
  proof (rule evict_induct [where P = "\<lambda>c res. ?kept c \<longrightarrow>
      blobs (snd res) (blob_path_for env k) = blobs c (blob_path_for env k)"])
    fix c :: audio_cache and r :: audio_row and res :: "nat audio_result"
    let ?c = "c\<lparr>audio_rows := delete_row (au_key r) (audio_rows c), blobs := (blobs c)(au_blob_path r := None)\<rparr>"
    assume r: "r \<in> set (regular (audio_rows c))"
      and IH: "?kept ?c \<longrightarrow> blobs (snd res) (blob_path_for env k) = blobs ?c (blob_path_for env k)"
    show "?kept c \<longrightarrow> blobs (snd res) (blob_path_for env k) = blobs c (blob_path_for env k)"
    proof
      assume kept: "?kept c"
      then obtain q where q: "q \<in> set (audio_rows c)" "au_key q = canonical k" "au_pinned q" by blast
      have rows: "row_ok env K (blobs c) q" "row_ok env K (blobs c) r"
        using kept q(1) r by (auto simp: audio_ok_def)
      have dist: "distinct (map au_key (audio_rows c))" using kept by (simp add: audio_ok_def)
      have "au_key q \<noteq> au_key r"
        using same_key_same_elem [OF dist q(1), of r] r q(3) by auto
      moreover have "au_blob_path q = blob_path_for env k"
        using rows(1) q(2) assms(1,3) canonical_inj_on unfolding row_ok_def by metis
      moreover have "?kept ?c"
        using audio_ok_drop [OF assms(1)] kept q r \<open>au_key q \<noteq> au_key r\<close> by auto
      ultimately show "blobs (snd res) (blob_path_for env k) = blobs c (blob_path_for env k)"
        using IH row_ok_path [OF assms(1) rows] by auto
    qed
  qed simp
  with assms show ?thesis by blast
qed

lemma pinned_copy_evict:
  assumes "collision_free env K" "audio_ok env K c" "k \<in> K" "pinned_copy env k body c"
  shows "pinned_copy env k body (snd (evict_lru_to_fit io c))"
proof -
  obtain q where q: "q \<in> set (audio_rows c)" "au_key q = canonical k" "au_pinned q"
    and b: "blobs c (blob_path_for env k) = Some body"
    using assms(4) by (auto simp: pinned_copy_def)
  have same: "pinned (audio_rows (snd (evict_lru_to_fit io c))) = pinned (audio_rows c)"
    using evict_pinned assms(2) by (simp add: audio_ok_def)
  have "q \<in> set (pinned (audio_rows c))" using q by simp
  then have "q \<in> set (audio_rows (snd (evict_lru_to_fit io c)))" unfolding same [symmetric] by simp
  with q b pinned_blob_kept [OF assms(1-3) q] show ?thesis by (auto simp: pinned_copy_def)
qed

lemma pinned_copy_flags:
  assumes "\<And>r. au_key (f r) = au_key r" "\<And>r. au_pinned r \<Longrightarrow> au_key r = canonical k \<Longrightarrow> P r \<Longrightarrow> au_pinned (f r)"
    "pinned_copy env k body c"
  shows "pinned_copy env k body (c\<lparr>audio_rows := update_where P f (audio_rows c)\<rparr>)"
proof -
  obtain q where q: "q \<in> set (audio_rows c)" "au_key q = canonical k" "au_pinned q"
    using assms(3) by (auto simp: pinned_copy_def)
  then have "(if P q then f q else q) \<in> set (update_where P f (audio_rows c))"
    by (auto simp: update_where_def)
  moreover have "au_key (if P q then f q else q) = canonical k" "au_pinned (if P q then f q else q)"
    using assms(1,2) q by auto
  ultimately show ?thesis using assms(3) by (auto simp: pinned_copy_def)
qed

lemma pinned_copy_step:
  assumes "collision_free env K" "audio_ok env K c" "\<forall>j. op_key op = Some j \<longrightarrow> j \<in> K" "k \<in> K"
    "pinned_copy env k body c" "op \<noteq> Delete k" "op \<noteq> Unpin k"
  shows "\<exists>body'. pinned_copy env k body' (audio_step env (io, op) c)
    \<and> (body' = body \<or> op = Put k body')"
proof (cases op)
  case (Put j new)
  let ?c = "c\<lparr>audio_rows := upsert_row au_key (new_row env io j new (audio_rows c)) (audio_rows c),
    blobs := (blobs c)(tmp_path_for env j := None, blob_path_for env j \<mapsto> new)\<rparr>"
  have j: "j \<in> K" using assms(3) Put by simp
  obtain q where q: "q \<in> set (audio_rows c)" "au_key q = canonical k" "au_pinned q"
    and b: "blobs c (blob_path_for env k) = Some body"
    using assms(5) by (auto simp: pinned_copy_def)
  have tmp: "pinned_copy env k body (c\<lparr>blobs := (blobs c)(tmp_path_for env j \<mapsto> p)\<rparr>)" for p
    using assms(5) tmp_not_blob [of env j k] by (auto simp: pinned_copy_def)
  have written: "pinned_copy env k (if j = k then new else body) ?c"
  proof (cases "j = k")
    case True
    have "distinct (map au_key (audio_rows c))" using assms(2) by (simp add: audio_ok_def)
    then have "find_row (canonical k) (audio_rows c) = Some q"
      using q audio_find_unique by blast
    then have "au_pinned (new_row env io j new (audio_rows c))" by (simp add: new_row_fields True q(3))
    moreover have "au_key (new_row env io j new (audio_rows c)) = canonical k"
      by (simp add: new_row_fields True)
    ultimately show ?thesis
      using upsert_row_in [of "new_row env io j new (audio_rows c)" au_key "audio_rows c"]
      unfolding pinned_copy_def by (simp add: True) blast
  next
    case False
    then have "canonical j \<noteq> canonical k" "blob_path_for env j \<noteq> blob_path_for env k"
      using canonical_inj_on [OF assms(1) j assms(4)] blob_path_inj [OF assms(1) j assms(4)] by blast+
    then have "q \<in> set (audio_rows ?c)"
      using q by (auto simp: new_row_fields intro: upsert_row_other)
    with q b False \<open>blob_path_for env j \<noteq> blob_path_for env k\<close> tmp_not_blob [of env j k] show ?thesis
      by (auto simp: pinned_copy_def)
  qed
  have "pinned_copy env k (if j = k then new else body) (snd (evict_lru_to_fit io ?c))"
    by (rule pinned_copy_evict [OF assms(1) audio_ok_upsert [OF assms(1,2) j] assms(4) written])
  then have "io_write io = Written \<Longrightarrow> pinned_copy env k (if j = k then new else body) (audio_step env (io, op) c)"
    by (simp add: Put put_state)
  moreover have "io_write io \<noteq> Written \<Longrightarrow> pinned_copy env k body (audio_step env (io, op) c)"
    using tmp by (cases "io_write io") (simp_all add: Put put_state)
  ultimately show ?thesis by (cases "io_write io = Written") (auto simp: Put split: if_splits)
next
  case (Delete j)
  obtain q where q: "q \<in> set (audio_rows c)" "au_key q = canonical k" "au_pinned q"
    and b: "blobs c (blob_path_for env k) = Some body"
    using assms(5) by (auto simp: pinned_copy_def)
  have "j \<in> K" "j \<noteq> k" using assms(3,6) Delete by auto
  then have ne: "canonical j \<noteq> canonical k" using canonical_inj_on [OF assms(1)] assms(4) by metis
  have rows: "row_ok env K (blobs c) r" if "r \<in> set (audio_rows c)" for r
    using assms(2) that by (simp add: audio_ok_def)
  have "au_blob_path q = blob_path_for env k"
    using rows [OF q(1)] q(2) assms(1,4) canonical_inj_on unfolding row_ok_def by metis
  then have "au_blob_path r \<noteq> blob_path_for env k" if "r \<in> set (audio_rows c)" "au_key r = canonical j" for r
    using row_ok_path [OF assms(1) rows [OF q(1)] rows [OF that(1)]] that(2) q(2) ne by auto
  then show ?thesis
    using delete_state [of io j c] assms(5) q b ne by (fastforce simp: Delete pinned_copy_def)
next
  case (Unpin j)
  have "j \<in> K" "j \<noteq> k" using assms(3,7) Unpin by auto
  then have ne: "canonical j \<noteq> canonical k" using canonical_inj_on [OF assms(1)] assms(4) by metis
  have "pinned_copy env k body (set_pinned False j c)"
    unfolding set_pinned_def by (rule pinned_copy_flags [OF _ _ assms(5)]) (use ne in auto)
  from pinned_copy_evict [OF assms(1) audio_ok_set_pinned [OF assms(2)] assms(4) this]
  show ?thesis using unpin_state [of io j c] assms(5) by (auto simp: Unpin)
next
  case (Pin j)
  have "pinned_copy env k body (set_pinned True j c)"
    unfolding set_pinned_def by (rule pinned_copy_flags [OF _ _ assms(5)]) auto
  then show ?thesis using pin_state [of j c] assms(5) by (auto simp: Pin)
next
  case (Touch j)
  have "pinned_copy env k body (snd (touch io j c))"
    unfolding touch_def snd_conv by (rule pinned_copy_flags [OF _ _ assms(5)]) auto
  then show ?thesis by (auto simp: Touch)
next
  case Evict
  show ?thesis using pinned_copy_evict [OF assms(1,2,4,5)] by (auto simp: Evict)
next
  case (Set_budgets a b)
  then show ?thesis using assms(5) by (auto simp: set_budgets_def pinned_copy_def)
qed

lemma pinned_copy_run:
  assumes "collision_free env K" "audio_ok env K c" "ops_in K ops" "k \<in> K" "pinned_copy env k body c"
    "\<forall>(io, op) \<in> set ops. op \<noteq> Delete k \<and> op \<noteq> Unpin k"
  shows "\<exists>body'. pinned_copy env k body' (audio_run env ops c)
    \<and> (body' = body \<or> (\<exists>io. (io, Put k body') \<in> set ops))"
  using assms(2,3,5,6)
proof (induction ops arbitrary: c body)
  case (Cons e ops)
  obtain io op where e: "e = (io, op)" by force
  have ok: "\<forall>j. op_key op = Some j \<longrightarrow> j \<in> K" "op \<noteq> Delete k" "op \<noteq> Unpin k"
    using Cons.prems(2,4) e by auto
  note step = pinned_copy_step [OF assms(1) Cons.prems(1) ok(1) assms(4) Cons.prems(3) ok(2,3), of io]
  then obtain mid where mid: "pinned_copy env k mid (audio_step env e c)" "mid = body \<or> op = Put k mid"
    by (auto simp: e)
  have "audio_ok env K (audio_step env e c)"
    unfolding e by (rule audio_step_ok [OF assms(1) Cons.prems(1) ok(1)])
  from Cons.IH [OF this _ mid(1)] Cons.prems(2,4) obtain body' where
    "pinned_copy env k body' (audio_run env ops (audio_step env e c))"
    "body' = mid \<or> (\<exists>io. (io, Put k body') \<in> set ops)" by auto
  with mid(2) show ?case by (intro exI [of _ body']) (auto simp: audio_run_def e)
qed (auto simp: audio_run_def)

section \<open>The budget of pinned bytes\<close>

lemma bytes_of_mono:
  "\<forall>r \<in> set rs. 0 \<le> au_bytes r \<Longrightarrow> bytes_of (filter P rs) \<le> bytes_of rs"
  by (induction rs) (auto simp: bytes_of_def intro: add_increasing)

lemma audio_ok_bytes: "audio_ok env K c \<Longrightarrow> r \<in> set (audio_rows c) \<Longrightarrow> 0 \<le> au_bytes r"
  by (auto simp: audio_ok_def row_ok_def u64_to_i64_def i64_max_def)

lemma pinned_bytes_nonneg: "audio_ok env K c \<Longrightarrow> 0 \<le> bytes_of (pinned (audio_rows c))"
  using audio_ok_bytes [of env K c] by (auto simp: bytes_of_def intro!: sum_list_nonneg)

lemma pinned_set_pinned_True:
  "distinct (map au_key rs) \<Longrightarrow> r \<in> set rs \<Longrightarrow> \<not> au_pinned r \<Longrightarrow>
   bytes_of (pinned (update_where (\<lambda>q. au_key q = au_key r) (\<lambda>q. q\<lparr>au_pinned := True\<rparr>) rs)) =
     bytes_of (pinned rs) + au_bytes r"
proof (induction rs)
  case (Cons q rs)
  show ?case
  proof (cases "q = r")
    case True
    then have "au_key r \<notin> au_key ` set rs" using Cons.prems(1) by simp
    then have "\<And>x. x \<in> set rs \<Longrightarrow> au_key x \<noteq> au_key r" by (metis image_eqI)
    then have "update_where (\<lambda>q. au_key q = au_key r) (\<lambda>q. q\<lparr>au_pinned := True\<rparr>) rs = rs"
      by (rule update_where_none)
    with True Cons.prems(3) show ?thesis by (simp add: bytes_of_def)
  next
    case False
    then have "au_key q \<noteq> au_key r" using Cons.prems by force
    with False Cons show ?thesis by (simp add: bytes_of_def)
  qed
qed simp

lemma pinned_set_pinned_False:
  "pinned (update_where P (\<lambda>q. q\<lparr>au_pinned := False\<rparr>) rs) = filter (\<lambda>q. \<not> P q) (pinned rs)"
  by (induction rs) auto

lemma pinned_touch:
  "bytes_of (pinned (update_where P (\<lambda>r. r\<lparr>au_last_accessed := t\<rparr>) rs)) = bytes_of (pinned rs)"
  by (induction rs) (auto simp: bytes_of_def)

lemma pinned_upsert:
  assumes "distinct (map au_key rs)" "\<not> au_pinned r" "\<forall>q \<in> set rs. au_key q = au_key r \<longrightarrow> \<not> au_pinned q"
  shows "pinned (upsert_row au_key r rs) = pinned rs"
proof -
  have "pinned (update_where (\<lambda>c. au_key c = au_key r) (\<lambda>_. r) rs) = pinned rs"
    using assms(3) by (induction rs) (auto simp: assms(2))
  then show ?thesis by (simp add: upsert_row_def assms(2))
qed

text \<open>Whether a call writes a new body under a pinned key.\<close>

definition replaces_pinned :: "audio_op \<Rightarrow> audio_cache \<Rightarrow> bool" where
  "replaces_pinned op c \<longleftrightarrow>
     (case op of Put k _ \<Rightarrow> (case find_row (canonical k) (audio_rows c) of Some r \<Rightarrow> au_pinned r | None \<Rightarrow> False)
      | _ \<Rightarrow> False)"

lemma find_row_pinned:
  "distinct (map au_key rs) \<Longrightarrow> q \<in> set rs \<Longrightarrow> au_key q = k \<Longrightarrow>
   (case find_row k rs of Some r \<Rightarrow> au_pinned r | None \<Rightarrow> False) \<longleftrightarrow> au_pinned q"
  using audio_find_unique [of rs q k] by simp

lemma pinned_bytes_step:
  assumes "audio_ok env K c" "\<not> replaces_pinned op c" "pinned_budget_bytes c < 2 ^ 64 - 1"
  shows "bytes_of (pinned (audio_rows (audio_step env (io, op) c)))
    \<le> max (bytes_of (pinned (audio_rows c))) (int (pinned_budget_bytes c))"
proof -
  have dist: "distinct (map au_key (audio_rows c))" using assms(1) by (simp add: audio_ok_def)
  have nonneg: "\<forall>r \<in> set (pinned (audio_rows c)). 0 \<le> au_bytes r" using audio_ok_bytes [OF assms(1)] by simp
  show ?thesis
  proof (cases op)
    case (Put k body)
    have "pinned (upsert_row au_key (new_row env io k body (audio_rows c)) (audio_rows c)) = pinned (audio_rows c)"
    proof (rule pinned_upsert [OF dist])
      show "\<not> au_pinned (new_row env io k body (audio_rows c))"
        using assms(2) by (simp add: Put replaces_pinned_def new_row_fields)
      then show "\<forall>q \<in> set (audio_rows c). au_key q = au_key (new_row env io k body (audio_rows c)) \<longrightarrow> \<not> au_pinned q"
        using find_row_pinned [OF dist] by (auto simp: new_row_fields)
    qed
    with upsert_row_distinct [OF dist] show ?thesis
      by (auto simp: Put put_state evict_pinned split: write_result.split)
  next
    case (Delete k)
    have "pinned (delete_row (canonical k) (audio_rows c)) = filter (\<lambda>q. au_key q \<noteq> canonical k) (pinned (audio_rows c))"
      by (simp add: delete_row_def conj_commute)
    with delete_state [of io k c] bytes_of_mono [OF nonneg] show ?thesis
      by (auto simp: Delete le_max_iff_disj)
  next
    case (Unpin k)
    have "distinct (map au_key (audio_rows (set_pinned False k c)))"
      using dist by (simp add: set_pinned_def map_update_where)
    from evict_pinned [OF this] bytes_of_mono [OF nonneg] unpin_state [of io k c] show ?thesis
      by (auto simp: Unpin set_pinned_def pinned_set_pinned_False le_max_iff_disj)
  next
    case (Pin k)
    show ?thesis
    proof (cases "fst (audio_pin k c) = Pinned")
      case True
      then obtain r where r: "find_row (canonical k) (audio_rows c) = Some r" "\<not> au_pinned r"
        "u64_sat_add (i64_to_u64 (bytes_of (pinned (audio_rows c)))) (i64_to_u64 (au_bytes r)) \<le> pinned_budget_bytes c"
        "snd (audio_pin k c) = set_pinned True k c"
        by (auto simp: audio_pin_def Let_def split: option.splits if_splits)
      then have in_rows: "r \<in> set (audio_rows c)" "au_key r = canonical k" by (auto simp: find_row_def find_Some_iff)
      have "nat (bytes_of (pinned (audio_rows c))) + nat (au_bytes r) \<le> pinned_budget_bytes c"
        using r(3) assms(3) by (auto simp: u64_sat_add_def i64_to_u64_def min_def split: if_splits)
      then have "bytes_of (pinned (audio_rows c)) + au_bytes r \<le> int (pinned_budget_bytes c)"
        using pinned_bytes_nonneg [OF assms(1)] audio_ok_bytes [OF assms(1) in_rows(1)] by linarith
      with pinned_set_pinned_True [OF dist in_rows(1) r(2)] in_rows(2) show ?thesis
        by (simp add: Pin r(4) set_pinned_def)
    next
      case False
      then have "snd (audio_pin k c) = c"
        by (auto simp: audio_pin_def Let_def split: option.splits if_splits)
      then show ?thesis by (simp add: Pin)
    qed
  next
    case (Touch k)
    then show ?thesis by (simp add: touch_def pinned_touch)
  next
    case Evict
    then show ?thesis by (simp add: evict_pinned [OF dist])
  next
    case (Set_budgets a b)
    then show ?thesis by (simp add: set_budgets_def)
  qed
qed

lemma evict_suffix:
  assumes "distinct (map au_key (audio_rows c))" "regular (audio_rows c) \<noteq> []"
    "\<forall>r \<in> set (regular (audio_rows c)). io_remove_ok io (au_blob_path r)"
  shows "\<exists>gone kept c'. evict_lru_to_fit io c = (Inr (i64_to_u64 (bytes_of kept)), c')
    \<and> sort_key lru_key (regular (audio_rows c)) = gone @ kept
    \<and> sort_key lru_key (regular (audio_rows c')) = kept
    \<and> kept \<noteq> [] \<and> (i64_to_u64 (bytes_of kept) \<le> regular_budget_bytes c \<or> length kept = 1)
    \<and> (gone \<noteq> [] \<longrightarrow> regular_budget_bytes c < i64_to_u64 (bytes_of (last gone # kept)))
    \<and> pinned (audio_rows c') = pinned (audio_rows c)"
proof -
  obtain c' where c': "evict_lru_to_fit io c = (Inr (i64_to_u64 (bytes_of (regular (audio_rows c')))), c')"
    and kept: "sort_key lru_key (regular (audio_rows c')) =
      lru_trim (regular_budget_bytes c) (sort_key lru_key (regular (audio_rows c)))"
    using evict_trims [OF assms(1,3)] by blast
  let ?old = "sort_key lru_key (regular (audio_rows c))"
  let ?kept = "lru_trim (regular_budget_bytes c) ?old"
  have pins: "pinned (audio_rows c') = pinned (audio_rows c)"
    using evict_pinned [OF assms(1), of io] c' by simp
  have bytes: "bytes_of (regular (audio_rows c')) = bytes_of ?kept"
    by (metis bytes_of_sort kept)
  have "?old \<noteq> []" using assms(2) by (metis length_0_conv length_sort)
  then obtain gone where gone: "?old = gone @ ?kept" "?kept \<noteq> []"
    "i64_to_u64 (bytes_of ?kept) \<le> regular_budget_bytes c \<or> length ?kept = 1"
    "gone \<noteq> [] \<longrightarrow> regular_budget_bytes c < i64_to_u64 (bytes_of (last gone # ?kept))"
    using lru_trim_spec by blast
  show ?thesis
    by (rule exI [of _ gone], rule exI [of _ ?kept], rule exI [of _ c'])
      (intro conjI gone kept pins, simp add: c' bytes)
qed

section \<open>Properties\<close>

text \<open>
  C28. The eviction loop ends. When the files can be removed it returns the bytes of the regular rows it
  leaves; these are the most recently used ones, they fit the budget or are a single row, one
  evicted row more would not have fitted, and the pinned rows are all still there.
\<close>

theorem eviction_is_lru:
  assumes "distinct (map au_key (audio_rows c))" "regular (audio_rows c) \<noteq> []"
    "\<forall>r \<in> set (regular (audio_rows c)). io_remove_ok io (au_blob_path r)"
  shows "\<exists>gone kept c'. evict_lru_to_fit io c = (Inr (i64_to_u64 (bytes_of kept)), c')
    \<and> sort_key lru_key (regular (audio_rows c)) = gone @ kept
    \<and> sort_key lru_key (regular (audio_rows c')) = kept
    \<and> kept \<noteq> [] \<and> (i64_to_u64 (bytes_of kept) \<le> regular_budget_bytes c \<or> length kept = 1)
    \<and> (gone \<noteq> [] \<longrightarrow> regular_budget_bytes c < i64_to_u64 (bytes_of (last gone # kept)))
    \<and> pinned (audio_rows c') = pinned (audio_rows c)"
  by (rule evict_suffix [OF assms])

text \<open>Three one-byte-named files, one of them pinned, in a cache with room for two bytes.\<close>

definition demo_key :: "string \<Rightarrow> audio_key" where
  "demo_key t = \<lparr>ak_track_id = t, ak_bitrate = None, ak_codec = ''mp3''\<rparr>"

definition demo_env :: audio_env where
  "demo_env = \<lparr>cache_root = ''/c'', sha256 = \<lambda>s. s\<rparr>"

definition demo_io :: "int \<Rightarrow> audio_io" where
  "demo_io t = \<lparr>io_now = t, io_write = Written, io_remove_ok = \<lambda>_. True, io_read_ok = \<lambda>_. True\<rparr>"

definition demo_ops :: "(audio_io \<times> audio_op) list" where
  "demo_ops =
     [(demo_io 1, Put (demo_key ''a'') ''xx''), (demo_io 2, Pin (demo_key ''a'')),
      (demo_io 3, Put (demo_key ''b'') ''y''), (demo_io 4, Put (demo_key ''c'') ''z''),
      (demo_io 5, Set_budgets 1 2)]"

definition demo_cache :: audio_cache where
  "demo_cache = audio_run demo_env demo_ops (open_cache 2 2)"

lemma demo_cache_rows:
  "map (\<lambda>r. (au_key r, au_bytes r, au_last_accessed r, au_pinned r)) (audio_rows demo_cache) =
     [(''a|orig|mp3'', 2, 1, True), (''b|orig|mp3'', 1, 3, False), (''c|orig|mp3'', 1, 4, False)]"
  by code_simp

theorem eviction_is_lru_witness:
  "\<exists>gone kept c'. evict_lru_to_fit (demo_io 6) demo_cache = (Inr (i64_to_u64 (bytes_of kept)), c')
    \<and> sort_key lru_key (regular (audio_rows demo_cache)) = gone @ kept \<and> kept \<noteq> []
    \<and> pinned (audio_rows c') = pinned (audio_rows demo_cache)"
proof -
  have "distinct (map au_key (audio_rows demo_cache))" by code_simp
  moreover have "regular (audio_rows demo_cache) \<noteq> []" by code_simp
  moreover have "\<forall>r \<in> set (regular (audio_rows demo_cache)). io_remove_ok (demo_io 6) (au_blob_path r)"
    by (simp add: demo_io_def)
  ultimately show ?thesis using eviction_is_lru [of demo_cache "demo_io 6"] by metis
qed

text \<open>
  C29. The table and the blob directory agree after any calls, whatever the file system answers: every row
  has a file of its own that is there and has the row's size, and every file but the temporary
  ones belongs to a row.
\<close>

theorem audio_blobs_match_rows:
  assumes "collision_free env K" "ops_in K ops"
  shows "distinct (map au_blob_path (audio_rows (audio_run env ops (open_cache a b))))
    \<and> (\<forall>r \<in> set (audio_rows (audio_run env ops (open_cache a b))). \<exists>body.
         blobs (audio_run env ops (open_cache a b)) (au_blob_path r) = Some body
         \<and> au_bytes r = u64_to_i64 (length body))
    \<and> (\<forall>p \<in> dom (blobs (audio_run env ops (open_cache a b))).
         p \<in> tmp_path_for env ` K \<or> p \<in> au_blob_path ` set (audio_rows (audio_run env ops (open_cache a b))))"
proof -
  let ?c = "audio_run env ops (open_cache a b)"
  have ok: "audio_ok env K ?c" by (rule audio_run_ok [OF assms(1) audio_ok_open assms(2)])
  have "inj_on au_blob_path (set (audio_rows ?c))"
  proof (rule inj_onI)
    fix r q
    assume "r \<in> set (audio_rows ?c)" "q \<in> set (audio_rows ?c)" "au_blob_path r = au_blob_path q"
    moreover from this have "au_key r = au_key q"
      using row_ok_path [OF assms(1)] ok unfolding audio_ok_def by blast
    moreover have "distinct (map au_key (audio_rows ?c))" using ok by (simp add: audio_ok_def)
    ultimately show "r = q" by (intro same_key_same_elem [of au_key "audio_rows ?c"])
  qed
  moreover have "distinct (audio_rows ?c)" using ok by (auto simp: audio_ok_def distinct_map)
  ultimately have "distinct (map au_blob_path (audio_rows ?c))" by (simp add: distinct_map)
  moreover have "\<forall>r \<in> set (audio_rows ?c). \<exists>body. blobs ?c (au_blob_path r) = Some body
      \<and> au_bytes r = u64_to_i64 (length body)"
    using ok by (auto simp: audio_ok_def row_ok_def)
  ultimately show ?thesis using ok unfolding audio_ok_def by blast
qed

lemma demo_free: "collision_free demo_env {demo_key ''a'', demo_key ''b'', demo_key ''c''}"
  by (simp add: collision_free_def demo_env_def demo_key_def canonical_def)

lemma demo_ops_in: "ops_in {demo_key ''a'', demo_key ''b'', demo_key ''c''} demo_ops"
  by (simp add: demo_ops_def)

theorem audio_blobs_match_rows_witness:
  "length (audio_rows demo_cache) = 3 \<and> distinct (map au_blob_path (audio_rows demo_cache))"
proof
  show "length (audio_rows demo_cache) = 3" using arg_cong [OF demo_cache_rows, of length] by simp
  show "distinct (map au_blob_path (audio_rows demo_cache))"
    using audio_blobs_match_rows [OF demo_free demo_ops_in, of 2 2] unfolding demo_cache_def by (rule conjunct1)
qed

lemma pinned_copy_get:
  assumes "collision_free env K" "audio_ok env K c" "k \<in> K" "pinned_copy env k body c"
  shows "\<exists>e. audio_get k c = Some e \<and> ae_pinned e \<and> blobs c (ae_blob_path e) = Some body"
proof -
  obtain r where r: "r \<in> set (audio_rows c)" "au_key r = canonical k" "au_pinned r"
    using assms(4) by (auto simp: pinned_copy_def)
  then have "find_row (canonical k) (audio_rows c) = Some r"
    using audio_find_unique assms(2) unfolding audio_ok_def by blast
  moreover have "au_blob_path r = blob_path_for env k"
    using assms(1-3) r(1,2) canonical_inj_on unfolding audio_ok_def row_ok_def by metis
  ultimately show ?thesis
    using r(3) assms(4) by (simp add: audio_get_def row_to_entry_def pinned_copy_def)
qed

lemma get_pinned_copy:
  assumes "collision_free env K" "audio_ok env K c" "k \<in> K" "audio_get k c = Some e" "ae_pinned e"
  shows "\<exists>body. pinned_copy env k body c \<and> blobs c (ae_blob_path e) = Some body"
proof -
  obtain r where r: "find_row (canonical k) (audio_rows c) = Some r" "e = row_to_entry r"
    using assms(4) by (auto simp: audio_get_def)
  then have in_rows: "r \<in> set (audio_rows c)" "au_key r = canonical k" "au_pinned r"
    using assms(5) by (auto simp: find_row_def find_Some_iff row_to_entry_def)
  then have "row_ok env K (blobs c) r" using assms(2) by (simp add: audio_ok_def)
  then obtain j body where j: "j \<in> K" "au_key r = canonical j" "au_blob_path r = blob_path_for env j"
    "blobs c (au_blob_path r) = Some body" unfolding row_ok_def by blast
  have "canonical j = canonical k" by (simp only: in_rows(2) flip: j(2))
  then have "j = k" by (rule canonical_inj_on [OF assms(1) j(1) assms(3)])
  with j in_rows r(2) show ?thesis by (auto simp: pinned_copy_def row_to_entry_def)
qed

text \<open>
  A saved track stays saved. Once the cache reports a track as pinned, then after any calls that
  neither delete nor unpin it (other tracks stored, evicted, pinned and removed, budgets lowered
  to nothing) it is still reported as pinned, and its file still holds the same bytes unless a
  later \<open>put\<close> of the very key replaced them.
\<close>

theorem saved_track_survives:
  assumes "collision_free env K" "ops_in K before" "ops_in K after" "k \<in> K"
    "audio_get k (audio_run env before (open_cache a b)) = Some e" "ae_pinned e"
    "\<forall>(io, op) \<in> set after. op \<noteq> Delete k \<and> op \<noteq> Unpin k"
  shows "\<exists>body e' body'. blobs (audio_run env before (open_cache a b)) (ae_blob_path e) = Some body
    \<and> audio_get k (audio_run env (before @ after) (open_cache a b)) = Some e' \<and> ae_pinned e'
    \<and> blobs (audio_run env (before @ after) (open_cache a b)) (ae_blob_path e') = Some body'
    \<and> (body' = body \<or> (\<exists>io. (io, Put k body') \<in> set after))"
proof -
  let ?c = "audio_run env before (open_cache a b)"
  have ok: "audio_ok env K ?c" by (rule audio_run_ok [OF assms(1) audio_ok_open assms(2)])
  have run: "audio_run env (before @ after) (open_cache a b) = audio_run env after ?c"
    by (simp add: audio_run_def)
  have ok': "audio_ok env K (audio_run env after ?c)" by (rule audio_run_ok [OF assms(1) ok assms(3)])
  obtain body where body: "pinned_copy env k body ?c" "blobs ?c (ae_blob_path e) = Some body"
    using get_pinned_copy [OF assms(1) ok assms(4-6)] by blast
  obtain body' where body': "pinned_copy env k body' (audio_run env after ?c)"
    "body' = body \<or> (\<exists>io. (io, Put k body') \<in> set after)"
    using pinned_copy_run [OF assms(1) ok assms(3,4) body(1) assms(7)] by blast
  from pinned_copy_get [OF assms(1) ok' assms(4) body'(1)] body(2) body'(2) show ?thesis
    unfolding run by blast
qed

theorem saved_track_survives_witness:
  "\<exists>e'. audio_get (demo_key ''a'') (audio_run demo_env (take 2 demo_ops @ drop 2 demo_ops) (open_cache 2 2)) = Some e'
     \<and> ae_pinned e'"
proof -
  let ?K = "{demo_key ''a'', demo_key ''b'', demo_key ''c''}"
  have get: "map_option ae_pinned (audio_get (demo_key ''a'')
      (audio_run demo_env (take 2 demo_ops) (open_cache 2 2))) = Some True" by code_simp
  then obtain e where e: "audio_get (demo_key ''a'') (audio_run demo_env (take 2 demo_ops) (open_cache 2 2)) = Some e"
    "ae_pinned e" by auto
  have "ops_in ?K (take 2 demo_ops)" "ops_in ?K (drop 2 demo_ops)" by (simp_all add: demo_ops_def)
  moreover have "\<forall>(io, op) \<in> set (drop 2 demo_ops). op \<noteq> Delete (demo_key ''a'') \<and> op \<noteq> Unpin (demo_key ''a'')"
    by (simp add: demo_ops_def)
  ultimately show ?thesis
    using saved_track_survives [OF demo_free _ _ _ e] by blast
qed



end
