(* ===== verification/Audio_Offline.thy ===== *)
theory Audio_Offline
  imports Audio_Laws
begin

text \<open>
  The clients of the audio cache: resolving a track's bytes (\<open>music-player/src/source.rs\<close>,
  \<open>fetch_track_bytes\<close> and \<open>play_tracks\<close> of \<open>music-cli/src/app.rs\<close>), the offline toggle, the bulk
  download and the eviction of the TUI (\<open>music-cli/src/tui/effects/downloads.rs\<close>), the classic \<open>pin\<close> and
  \<open>unpin\<close>, and the audio qualities of \<open>music-cli/src/config.rs\<close>. What the server answers to a stream
  request is a parameter; a status line is the value of a datatype with one constructor for each
  message.
\<close>

section \<open>Qualities\<close>

datatype quality = Original | Opus128 | Mp3128

fun transcode :: "quality \<Rightarrow> (string \<times> 32 word) option" where
  "transcode Original = None"
| "transcode Opus128 = Some (''opus'', 128)"
| "transcode Mp3128 = Some (''mp3'', 128)"

fun quality_codec :: "quality \<Rightarrow> string" where
  "quality_codec Original = ''stream''"
| "quality_codec Opus128 = ''opus''"
| "quality_codec Mp3128 = ''mp3''"

definition quality_bitrate :: "quality \<Rightarrow> 32 word option" where
  "quality_bitrate q = map_option snd (transcode q)"

definition all_qualities :: "quality list" where
  "all_qualities = [Original, Opus128, Mp3128]"

definition next_quality :: "quality \<Rightarrow> quality" where
  "next_quality q =
     (let i = (case find_pos (\<lambda>p. p = q) all_qualities of Some i \<Rightarrow> i | None \<Rightarrow> 0)
      in all_qualities ! ((i + 1) mod length all_qualities))"

definition audio_key_for :: "string \<Rightarrow> quality \<Rightarrow> audio_key" where
  "audio_key_for tid q = \<lparr>ak_track_id = tid, ak_bitrate = quality_bitrate q, ak_codec = quality_codec q\<rparr>"

section \<open>Resolving a track's bytes\<close>

datatype audio_resolve_error = Resolve_cache | Resolve_io | Resolve_fetch

type_synonym 'a resolved = "(audio_resolve_error + 'a) \<times> audio_cache"

text \<open>\<open>tokio::fs::read\<close>.\<close>

definition read_file :: "audio_io \<Rightarrow> string \<Rightarrow> audio_cache \<Rightarrow> string option" where
  "read_file io p c = (if io_read_ok io p then blobs c p else None)"

definition read_cached :: "audio_io \<Rightarrow> audio_key \<Rightarrow> audio_cache \<Rightarrow> string option resolved" where
  "read_cached io k c =
     (case audio_get k c of
        None \<Rightarrow> (Inr None, c)
      | Some entry \<Rightarrow>
          (let c' = snd (touch io k c)
           in case read_file io (ae_blob_path entry) c' of
                None \<Rightarrow> (Inl Resolve_io, c')
              | Some bytes \<Rightarrow> (Inr (Some bytes), c')))"

definition resolve_source ::
  "audio_env \<Rightarrow> audio_io \<Rightarrow> audio_key \<Rightarrow> string option \<Rightarrow> audio_cache \<Rightarrow> string resolved" where
  "resolve_source env io k fetch c =
     (case audio_get k c of
        Some entry \<Rightarrow>
          (let c' = snd (touch io k c)
           in case read_file io (ae_blob_path entry) c' of
                None \<Rightarrow> (Inl Resolve_io, c')
              | Some bytes \<Rightarrow> (Inr bytes, c'))
      | None \<Rightarrow>
          (case fetch of
             None \<Rightarrow> (Inl Resolve_fetch, c)
           | Some bytes \<Rightarrow>
               (case audio_put env io k bytes c of
                  (Inl _, c') \<Rightarrow> (Inl Resolve_cache, c')
                | (Inr _, c') \<Rightarrow> (Inr bytes, c'))))"

text \<open>What the server streams for a track and a quality; \<open>None\<close> when the request fails.\<close>

type_synonym network = "string \<Rightarrow> quality \<Rightarrow> string option"

definition fetch_track_bytes ::
  "audio_env \<Rightarrow> audio_io \<Rightarrow> network \<Rightarrow> string \<Rightarrow> quality \<Rightarrow> audio_cache \<Rightarrow> string resolved" where
  "fetch_track_bytes env io net tid q c =
     (let key = audio_key_for tid q
      in case read_cached io key c of
           (Inl e, c1) \<Rightarrow> (Inl e, c1)
         | (Inr (Some bytes), c1) \<Rightarrow> (Inr bytes, c1)
         | (Inr None, c1) \<Rightarrow>
             (case find_by_track tid c1 of
                None \<Rightarrow> resolve_source env io key (net tid q) c1
              | Some entry \<Rightarrow>
                  (case read_cached io (ae_key entry) c1 of
                     (Inl e, c2) \<Rightarrow> (Inl e, c2)
                   | (Inr (Some bytes), c2) \<Rightarrow> (Inr bytes, c2)
                   | (Inr None, c2) \<Rightarrow> resolve_source env io key (net tid q) c2)))"

text \<open>The classic \<open>play\<close> resolves every track before it starts; the first failure ends the command.\<close>

datatype play_error = Play_failed audio_resolve_error | Not_in_cache string

definition resolve_offline :: "audio_io \<Rightarrow> string \<Rightarrow> quality \<Rightarrow> audio_cache \<Rightarrow> (play_error + string) \<times> audio_cache" where
  "resolve_offline io tid q c =
     (case read_cached io (audio_key_for tid q) c of
        (Inl e, c1) \<Rightarrow> (Inl (Play_failed e), c1)
      | (Inr (Some bytes), c1) \<Rightarrow> (Inr bytes, c1)
      | (Inr None, c1) \<Rightarrow>
          (case find_by_track tid c1 of
             None \<Rightarrow> (Inl (Not_in_cache tid), c1)
           | Some entry \<Rightarrow>
               (case read_cached io (ae_key entry) c1 of
                  (Inl e, c2) \<Rightarrow> (Inl (Play_failed e), c2)
                | (Inr (Some bytes), c2) \<Rightarrow> (Inr bytes, c2)
                | (Inr None, c2) \<Rightarrow> (Inl (Not_in_cache tid), c2))))"

fun play_tracks ::
  "audio_env \<Rightarrow> network \<Rightarrow> bool \<Rightarrow> quality \<Rightarrow> (audio_io \<times> string) list \<Rightarrow> audio_cache
   \<Rightarrow> (play_error + string list) \<times> audio_cache" where
  "play_tracks env net offline q [] c = (Inr [], c)"
| "play_tracks env net offline q ((io, tid) # rest) c =
     (case (if offline then resolve_offline io tid q c
            else case fetch_track_bytes env io net tid q c of
                   (Inl e, c1) \<Rightarrow> (Inl (Play_failed e), c1) | (Inr b, c1) \<Rightarrow> (Inr b, c1)) of
        (Inl e, c1) \<Rightarrow> (Inl e, c1)
      | (Inr bytes, c1) \<Rightarrow>
          (case play_tracks env net offline q rest c1 of
             (Inl e, c2) \<Rightarrow> (Inl e, c2)
           | (Inr others, c2) \<Rightarrow> (Inr (bytes # others), c2)))"

section \<open>Saving for offline\<close>

datatype pin_note =
    Removed_from_offline string
  | Unpin_failed
  | Cache_error
  | Save_failed
  | Saved string
  | Already_offline string
  | Vanished_from_cache string
  | Pinned_budget_full nat

definition ensure_cached ::
  "audio_env \<Rightarrow> audio_io \<Rightarrow> network \<Rightarrow> string \<Rightarrow> quality \<Rightarrow> audio_key \<Rightarrow> audio_cache \<Rightarrow> unit resolved" where
  "ensure_cached env io net tid download key c =
     (if audio_get key c \<noteq> None then (Inr (), c)
      else case fetch_track_bytes env io net tid download c of
             (Inl e, c') \<Rightarrow> (Inl e, c')
           | (Inr _, c') \<Rightarrow> (Inr (), c'))"

text \<open>The message and whether it is an error; \<open>connected\<close> is whether the Subsonic client could be built.
  The first definition is the second half of \<open>pin_toggle\<close>.\<close>

definition pin_at_quality ::
  "audio_env \<Rightarrow> audio_io \<Rightarrow> network \<Rightarrow> bool \<Rightarrow> quality \<Rightarrow> string \<Rightarrow> string \<Rightarrow> audio_cache
   \<Rightarrow> (pin_note \<times> bool) \<times> audio_cache" where
  "pin_at_quality env io net connected download tid title c =
     (let key = audio_key_for tid download
      in if \<not> connected then ((Save_failed, True), c)
         else case ensure_cached env io net tid download key c of
                (Inl _, c1) \<Rightarrow> ((Save_failed, True), c1)
              | (Inr _, c1) \<Rightarrow>
                  (case audio_pin key c1 of
                     (Pinned, c2) \<Rightarrow> ((Saved title, False), c2)
                   | (AlreadyPinned, c2) \<Rightarrow> ((Already_offline title, False), c2)
                   | (PinNotInCache, c2) \<Rightarrow> ((Vanished_from_cache title, True), c2)
                   | (WouldExceedBudget over_by, c2) \<Rightarrow> ((Pinned_budget_full over_by, True), c2)))"

definition pin_toggle ::
  "audio_env \<Rightarrow> audio_io \<Rightarrow> network \<Rightarrow> bool \<Rightarrow> quality \<Rightarrow> string \<Rightarrow> string \<Rightarrow> audio_cache
   \<Rightarrow> (pin_note \<times> bool) \<times> audio_cache" where
  "pin_toggle env io net connected download tid title c =
     (case find_by_track tid c of
        Some entry \<Rightarrow>
          if ae_pinned entry
          then (case audio_unpin io (ae_key entry) c of
                  (Inr _, c') \<Rightarrow> ((Removed_from_offline title, False), c')
                | (Inl e, c') \<Rightarrow> ((Unpin_failed, True), c'))
          else pin_at_quality env io net connected download tid title c
      | None \<Rightarrow> pin_at_quality env io net connected download tid title c)"

record bulk_tally =
  bulk_saved :: nat
  bulk_already :: nat
  bulk_failed :: nat
  budget_hit :: bool

definition bulk_one ::
  "audio_env \<Rightarrow> network \<Rightarrow> quality \<Rightarrow> audio_io \<times> string \<Rightarrow> bulk_tally \<times> audio_cache \<Rightarrow> bulk_tally \<times> audio_cache" where
  "bulk_one env net q e s =
     (case e of (io, tid) \<Rightarrow> case s of (t, c) \<Rightarrow>
        let key = audio_key_for tid q
        in case ensure_cached env io net tid q key c of
             (Inl _, c1) \<Rightarrow> (t\<lparr>bulk_failed := bulk_failed t + 1\<rparr>, c1)
           | (Inr _, c1) \<Rightarrow>
               (case audio_pin key c1 of
                  (Pinned, c2) \<Rightarrow> (t\<lparr>bulk_saved := bulk_saved t + 1\<rparr>, c2)
                | (AlreadyPinned, c2) \<Rightarrow> (t\<lparr>bulk_already := bulk_already t + 1\<rparr>, c2)
                | (WouldExceedBudget _, c2) \<Rightarrow> (t\<lparr>budget_hit := True, bulk_failed := bulk_failed t + 1\<rparr>, c2)
                | (PinNotInCache, c2) \<Rightarrow> (t\<lparr>bulk_failed := bulk_failed t + 1\<rparr>, c2)))"

definition pin_bulk ::
  "audio_env \<Rightarrow> network \<Rightarrow> bool \<Rightarrow> quality \<Rightarrow> (audio_io \<times> string) list \<Rightarrow> audio_cache
   \<Rightarrow> bulk_tally option \<times> audio_cache" where
  "pin_bulk env net connected q ids c =
     (if \<not> connected then (None, c)
      else case fold (bulk_one env net q) ids (\<lparr>bulk_saved = 0, bulk_already = 0, bulk_failed = 0, budget_hit = False\<rparr>, c) of
             (t, c') \<Rightarrow> (Some t, c'))"

text \<open>The classic subcommands.\<close>

definition run_pin ::
  "audio_env \<Rightarrow> audio_io \<Rightarrow> network \<Rightarrow> string \<Rightarrow> quality \<Rightarrow> audio_cache
   \<Rightarrow> (audio_resolve_error + pin_outcome) \<times> audio_cache" where
  "run_pin env io net tid q c =
     (let key = audio_key_for tid q
      in case ensure_cached env io net tid q key c of
           (Inl e, c1) \<Rightarrow> (Inl e, c1)
         | (Inr _, c1) \<Rightarrow> (case audio_pin key c1 of (out, c2) \<Rightarrow> (Inr out, c2)))"

definition run_unpin :: "audio_io \<Rightarrow> string \<Rightarrow> quality \<Rightarrow> audio_cache \<Rightarrow> unpin_outcome audio_result" where
  "run_unpin io tid q c =
     (let key = (case find_by_track tid c of
                   Some entry \<Rightarrow> if ae_pinned entry then ae_key entry else audio_key_for tid q
                 | None \<Rightarrow> audio_key_for tid q)
      in audio_unpin io key c)"

text \<open>The settings effect on a running cache.\<close>

definition save_budgets :: "audio_io \<Rightarrow> nat \<Rightarrow> nat \<Rightarrow> bool \<Rightarrow> audio_cache \<Rightarrow> bool \<times> audio_cache" where
  "save_budgets io a b evict_now c =
     (let c1 = set_budgets a b c
      in if evict_now then (case evict_lru_to_fit io c1 of (Inl _, c2) \<Rightarrow> (False, c2) | (Inr _, c2) \<Rightarrow> (True, c2))
         else (True, c1))"

section \<open>What the cache finds\<close>

lemma find_by_track_row:
  assumes "find_by_track tid c = Some e"
  obtains r where "r \<in> set (audio_rows c)" "au_track_id r = tid" "e = row_to_entry r"
    "\<forall>q \<in> set (audio_rows c). au_track_id q = tid \<longrightarrow> au_pinned q \<longrightarrow> au_pinned r"
proof -
  let ?f = "\<lambda>r. (\<not> au_pinned r, - au_last_accessed r)"
  from assms obtain r where r: "first_by ?f (filter (\<lambda>r. au_track_id r = tid) (audio_rows c)) = Some r"
    "e = row_to_entry r" by (auto simp: find_by_track_def)
  have in_rows: "r \<in> set (audio_rows c)" "au_track_id r = tid" using first_by_in [OF r(1)] by auto
  have "au_pinned q \<longrightarrow> au_pinned r" if "q \<in> set (audio_rows c)" "au_track_id q = tid" for q
    using first_by_least [OF r(1), of q] that by (auto simp: less_eq_prod_def)
  with in_rows r(2) show thesis by (intro that [of r]) auto
qed

lemma find_by_track_None: "find_by_track tid c = None \<longleftrightarrow> (\<forall>r \<in> set (audio_rows c). au_track_id r \<noteq> tid)"
  by (simp add: find_by_track_def first_by_def filter_empty_conv)

lemma ok_row:
  assumes "audio_ok env K c" "r \<in> set (audio_rows c)"
  shows "au_key r = canonical (ae_key (row_to_entry r))" "ae_key (row_to_entry r) \<in> K"
    "au_blob_path r = blob_path_for env (ae_key (row_to_entry r))"
    "\<exists>body. blobs c (au_blob_path r) = Some body"
  using assms by (auto simp: audio_ok_def row_ok_def)

lemma ok_get:
  assumes "audio_ok env K c" "r \<in> set (audio_rows c)"
  shows "audio_get (ae_key (row_to_entry r)) c = Some (row_to_entry r)"
  using assms audio_find_unique [of "audio_rows c" r] ok_row(1) [OF assms]
  by (simp add: audio_get_def audio_ok_def)

text \<open>The row of a key in \<open>K\<close> has the key's track.\<close>

lemma get_row:
  assumes "collision_free env K" "audio_ok env K c" "k \<in> K" "audio_get k c = Some e"
  obtains r where "r \<in> set (audio_rows c)" "au_key r = canonical k" "e = row_to_entry r" "ae_key e = k"
proof -
  obtain r where r: "find_row (canonical k) (audio_rows c) = Some r" "e = row_to_entry r"
    using assms(4) by (auto simp: audio_get_def)
  then have in_rows: "r \<in> set (audio_rows c)" "au_key r = canonical k"
    by (auto simp: find_row_def find_Some_iff)
  then have "canonical (ae_key e) = canonical k" using ok_row(1) [OF assms(2)] r(2) by simp
  then have "ae_key e = k"
    using canonical_inj_on [OF assms(1) _ assms(3)] ok_row(2) [OF assms(2) in_rows(1)] r(2) by simp
  with in_rows r(2) show thesis by (intro that)
qed

lemma entry_simps [simp]:
  "ae_blob_path (row_to_entry r) = au_blob_path r" "ae_pinned (row_to_entry r) = au_pinned r"
  "ak_track_id (ae_key (row_to_entry r)) = au_track_id r"
  by (simp_all add: row_to_entry_def)

lemma touch_blobs [simp]: "blobs (snd (touch io k c)) = blobs c"
  by (simp add: touch_def)

text \<open>A cached copy that can be read is what is played, and the server is not asked.\<close>

lemma read_cached_hit:
  assumes "audio_get k c = Some e" "io_read_ok io (ae_blob_path e)" "blobs c (ae_blob_path e) = Some body"
  shows "read_cached io k c = (Inr (Some body), snd (touch io k c))"
  using assms by (simp add: read_cached_def Let_def read_file_def)

lemma read_cached_miss: "audio_get k c = None \<Longrightarrow> read_cached io k c = (Inr None, c)"
  by (simp add: read_cached_def)

lemma fetch_hit:
  assumes "collision_free env K" "audio_ok env K c" "audio_key_for tid quality \<in> K"
    "r \<in> set (audio_rows c)" "au_track_id r = tid" "\<forall>p. io_read_ok io p"
  shows "\<exists>q body k. q \<in> set (audio_rows c) \<and> au_track_id q = tid \<and> blobs c (au_blob_path q) = Some body
    \<and> (\<forall>net. fetch_track_bytes env io net tid quality c = (Inr body, snd (touch io k c)))"
proof (cases "audio_get (audio_key_for tid quality) c")
  case (Some e)
  obtain q where q: "q \<in> set (audio_rows c)" "e = row_to_entry q" "ae_key e = audio_key_for tid quality"
    by (rule get_row [OF assms(1-3) Some])
  have "ak_track_id (ae_key e) = tid" by (simp only: q(3) audio_key_for_def audio_key.select_convs)
  then have "au_track_id q = tid" by (simp add: q(2))
  obtain body where "blobs c (au_blob_path q) = Some body" using ok_row(4) [OF assms(2) q(1)] by blast
  with Some q(1,2) \<open>au_track_id q = tid\<close> assms(6) show ?thesis
    by (intro exI [of _ q] exI [of _ body] exI [of _ "audio_key_for tid quality"])
      (simp add: fetch_track_bytes_def read_cached_hit)
next
  case None
  obtain e where e: "find_by_track tid c = Some e"
    using find_by_track_None [of tid c] assms(4,5) by (cases "find_by_track tid c") auto
  then obtain q where q: "q \<in> set (audio_rows c)" "au_track_id q = tid" "e = row_to_entry q"
    by (rule find_by_track_row)
  obtain body where "blobs c (au_blob_path q) = Some body" using ok_row(4) [OF assms(2) q(1)] by blast
  with None e q ok_get [OF assms(2) q(1)] assms(6) show ?thesis
    by (intro exI [of _ q] exI [of _ body] exI [of _ "ae_key e"])
      (simp add: fetch_track_bytes_def read_cached_miss read_cached_hit)
qed

text \<open>
  C31. What is in the cache is played without the server, in any quality: after any calls, a track of which
  some copy is pinned, and stays neither deleted nor unpinned, resolves to the bytes of a cached
  copy of that track whatever the server would answer, also when it does not answer.
\<close>

theorem saved_track_plays_offline:
  assumes "collision_free env K" "ops_in K before" "ops_in K after" "k \<in> K" "audio_key_for (ak_track_id k) quality \<in> K"
    "audio_get k (audio_run env before (open_cache a b)) = Some e" "ae_pinned e"
    "\<forall>(io, op) \<in> set after. op \<noteq> Delete k \<and> op \<noteq> Unpin k" "\<forall>p. io_read_ok io p"
  shows "\<exists>r body c'. r \<in> set (audio_rows (audio_run env (before @ after) (open_cache a b)))
    \<and> au_track_id r = ak_track_id k
    \<and> blobs (audio_run env (before @ after) (open_cache a b)) (au_blob_path r) = Some body
    \<and> (\<forall>net. fetch_track_bytes env io net (ak_track_id k) quality
          (audio_run env (before @ after) (open_cache a b)) = (Inr body, c'))"
proof -
  let ?c = "audio_run env (before @ after) (open_cache a b)"
  have ok: "audio_ok env K (audio_run env before (open_cache a b))"
    by (rule audio_run_ok [OF assms(1) audio_ok_open assms(2)])
  have ok': "audio_ok env K ?c"
    by (rule audio_run_ok [OF assms(1) audio_ok_open]) (use assms(2,3) in auto)
  obtain body where "pinned_copy env k body (audio_run env before (open_cache a b))"
    using get_pinned_copy [OF assms(1) ok assms(4,6,7)] by blast
  from pinned_copy_run [OF assms(1) ok assms(3,4) this assms(8)] obtain body' where
    "pinned_copy env k body' ?c" by (auto simp: audio_run_def)
  from pinned_copy_get [OF assms(1) ok' assms(4) this] obtain e' where e': "audio_get k ?c = Some e'" by blast
  obtain r where r: "r \<in> set (audio_rows ?c)" "e' = row_to_entry r" "ae_key e' = k"
    by (rule get_row [OF assms(1) ok' assms(4) e'])
  then have "au_track_id r = ak_track_id k" by auto
  from fetch_hit [OF assms(1) ok' assms(5) r(1) this assms(9)] show ?thesis by blast
qed

section \<open>Saving\<close>

lemma survivor_blob:
  assumes "collision_free env K" "audio_ok env K c" "r \<in> set (audio_rows (snd (evict_lru_to_fit io c)))"
  shows "blobs (snd (evict_lru_to_fit io c)) (au_blob_path r) = blobs c (au_blob_path r)"
proof -
  let ?P = "\<lambda>c res. audio_ok env K c \<longrightarrow> r \<in> set (audio_rows (snd res)) \<longrightarrow>
    r \<in> set (audio_rows c) \<and> blobs (snd res) (au_blob_path r) = blobs c (au_blob_path r)"
  have "?P c (evict_lru_to_fit io c)"
  proof (rule evict_induct [where P = ?P])
    fix c :: audio_cache and q :: audio_row and res :: "nat audio_result"
    let ?c = "c\<lparr>audio_rows := delete_row (au_key q) (audio_rows c), blobs := (blobs c)(au_blob_path q := None)\<rparr>"
    assume q: "q \<in> set (regular (audio_rows c))" and IH: "?P ?c res"
    show "?P c res"
    proof (intro impI)
      assume ok: "audio_ok env K c" and r: "r \<in> set (audio_rows (snd res))"
      have "audio_ok env K ?c" by (rule audio_ok_drop [OF assms(1) ok]) (use q in simp)
      with IH r have step: "r \<in> set (audio_rows ?c)" "blobs (snd res) (au_blob_path r) = blobs ?c (au_blob_path r)"
        by blast+
      then have "r \<in> set (audio_rows c)" "au_key r \<noteq> au_key q" by simp_all
      moreover from this have "au_blob_path r \<noteq> au_blob_path q"
        using row_ok_path [OF assms(1)] ok q unfolding audio_ok_def by (metis filter_is_subset subsetD)
      ultimately show "r \<in> set (audio_rows c) \<and> blobs (snd res) (au_blob_path r) = blobs c (au_blob_path r)"
        using step(2) by simp
    qed
  qed simp
  with assms(2,3) show ?thesis by blast
qed

lemma find_row_update:
  "(\<And>r. au_key (f r) = au_key r) \<Longrightarrow>
   find_row k (update_where (\<lambda>r. au_key r = k) f rs) = map_option f (find_row k rs)"
  unfolding find_row_def by (induction rs) auto

lemma put_written:
  assumes "io_write io = Written"
    "evict_lru_to_fit io (c\<lparr>audio_rows := upsert_row au_key (new_row env io k body (audio_rows c)) (audio_rows c),
       blobs := (blobs c)(tmp_path_for env k := None, blob_path_for env k \<mapsto> body)\<rparr>) = (Inr n, c2)"
    "find_row (canonical k) (audio_rows c2) = Some r"
  shows "audio_put env io k body c = (Inr (row_to_entry r), c2)"
proof -
  have comm: "c\<lparr>blobs := B, audio_rows := R\<rparr> = c\<lparr>audio_rows := R, blobs := B\<rparr>" for B R by simp
  show ?thesis
    using assms(2,3) by (simp add: audio_put_def write_blob_def Let_def assms(1) comm audio_get_def)
qed

lemma lru_last:
  assumes "r \<in> set rs" "\<forall>q \<in> set rs. q \<noteq> r \<longrightarrow> lru_key q < lru_key r"
  shows "last (sort_key lru_key rs) = r"
proof -
  have "sort_key lru_key rs \<noteq> []" using assms(1) by (metis length_greater_0_conv length_pos_if_in_set length_sort)
  then have split: "sort_key lru_key rs = butlast (sort_key lru_key rs) @ [last (sort_key lru_key rs)]" by simp
  have "sorted (map lru_key (butlast (sort_key lru_key rs) @ [last (sort_key lru_key rs)]))"
    by (simp only: split [symmetric] sorted_sort_key)
  then have "lru_key q \<le> lru_key (last (sort_key lru_key rs))" if "q \<in> set (sort_key lru_key rs)" for q
    using that by (subst (asm) split) (auto simp: sorted_append)
  moreover have "last (sort_key lru_key rs) \<in> set rs"
    using last_in_set [OF \<open>sort_key lru_key rs \<noteq> []\<close>] by simp
  ultimately show ?thesis using assms by (metis leD set_sort)
qed

text \<open>A row that is newer than all others outlives the eviction.\<close>

lemma newest_survives:
  assumes "distinct (map au_key (audio_rows c))" "r \<in> set (regular (audio_rows c))"
    "\<forall>q \<in> set (regular (audio_rows c)). q \<noteq> r \<longrightarrow> au_last_accessed q < au_last_accessed r"
    "\<forall>p. io_remove_ok io p"
  shows "r \<in> set (audio_rows (snd (evict_lru_to_fit io c))) \<and> is_ok (fst (evict_lru_to_fit io c))"
proof -
  have "regular (audio_rows c) \<noteq> []" using assms(2) by (metis empty_iff empty_set)
  moreover have "\<forall>r \<in> set (regular (audio_rows c)). io_remove_ok io (au_blob_path r)" using assms(4) by simp
  ultimately obtain gone kept c' where e: "evict_lru_to_fit io c = (Inr (i64_to_u64 (bytes_of kept)), c')"
    "sort_key lru_key (regular (audio_rows c)) = gone @ kept"
    "sort_key lru_key (regular (audio_rows c')) = kept" "kept \<noteq> []"
    using evict_suffix [OF assms(1)] by blast
  have "\<forall>q \<in> set (regular (audio_rows c)). q \<noteq> r \<longrightarrow> lru_key q < lru_key r"
    using assms(3) by (auto simp: lru_key_def less_prod_def)
  then have "last kept = r" using lru_last [OF assms(2)] e(2,4) by simp
  then have "r \<in> set kept" using last_in_set [OF e(4)] by simp
  also have "set kept = set (regular (audio_rows c'))" by (metis e(3) set_sort)
  finally show ?thesis by (simp add: e(1))
qed

lemma find_row_touch:
  "find_row k (audio_rows (snd (touch io j c))) = None \<longleftrightarrow> find_row k (audio_rows c) = None"
proof -
  have "find (\<lambda>r. au_key r = k) (update_where P (\<lambda>r. r\<lparr>au_last_accessed := t\<rparr>) rs) = None
      \<longleftrightarrow> find (\<lambda>r. au_key r = k) rs = None" for P t rs
    by (induction rs) auto
  then show ?thesis by (simp add: touch_def find_row_def)
qed

lemma pinned_keys_touch:
  "map au_key (pinned (audio_rows (snd (touch io j c)))) = map au_key (pinned (audio_rows c))"
proof -
  have "map au_key (pinned (update_where P (\<lambda>r. r\<lparr>au_last_accessed := t\<rparr>) rs)) = map au_key (pinned rs)" for P t rs
    by (induction rs) auto
  then show ?thesis by (simp add: touch_def)
qed

lemma cached_elsewhere:
  assumes "audio_ok env K c" "find_by_track tid c = Some e" "audio_get (audio_key_for tid q) c = None"
    "\<forall>p. io_read_ok io p"
  shows "\<exists>c'. ensure_cached env io net tid q (audio_key_for tid q) c = (Inr (), c')
    \<and> audio_pin (audio_key_for tid q) c' = (PinNotInCache, c') \<and> map au_key (pinned (audio_rows c')) = map au_key (pinned (audio_rows c))"
proof -
  obtain r where r: "r \<in> set (audio_rows c)" "au_track_id r = tid" "e = row_to_entry r"
    using assms(2) by (rule find_by_track_row)
  obtain body where "blobs c (au_blob_path r) = Some body" using ok_row(4) [OF assms(1) r(1)] by blast
  with ok_get [OF assms(1) r(1)] assms r
  have "ensure_cached env io net tid q (audio_key_for tid q) c = (Inr (), snd (touch io (ae_key e) c))"
    by (simp add: ensure_cached_def fetch_track_bytes_def read_cached_miss read_cached_hit)
  moreover have "find_row (canonical (audio_key_for tid q)) (audio_rows (snd (touch io (ae_key e) c))) = None"
    using assms(3) by (simp add: find_row_touch audio_get_def)
  then have "audio_pin (audio_key_for tid q) (snd (touch io (ae_key e) c)) = (PinNotInCache, snd (touch io (ae_key e) c))"
    by (simp add: audio_pin_def)
  ultimately show ?thesis by (intro exI conjI) (assumption | rule pinned_keys_touch)+
qed

text \<open>
  C32. A track that was streamed at one quality cannot be saved at another. When the cache has an unpinned
  copy of the track under another quality than the download quality, saving it answers that the
  track vanished from the cache and pins nothing, the bulk download counts it as failed, and the
  classic \<open>pin\<close> ends in its internal error, whatever the server would stream: the fetch that is to
  fill the cache is answered by the copy of the other quality, which it does not store again.
\<close>

theorem streamed_track_cannot_be_saved:
  assumes "collision_free env K" "ops_in K ops" "find_by_track tid (audio_run env ops (open_cache a b)) = Some e"
    "\<not> ae_pinned e" "audio_get (audio_key_for tid q) (audio_run env ops (open_cache a b)) = None"
    "\<forall>p. io_read_ok io p"
  shows "\<exists>c'. pin_toggle env io net True q tid title (audio_run env ops (open_cache a b))
        = ((Vanished_from_cache title, True), c')
    \<and> map au_key (pinned (audio_rows c')) = map au_key (pinned (audio_rows (audio_run env ops (open_cache a b))))
    \<and> bulk_one env net q (io, tid) (t, audio_run env ops (open_cache a b)) = (t\<lparr>bulk_failed := bulk_failed t + 1\<rparr>, c')
    \<and> run_pin env io net tid q (audio_run env ops (open_cache a b)) = (Inr PinNotInCache, c')"
proof -
  have ok: "audio_ok env K (audio_run env ops (open_cache a b))"
    by (rule audio_run_ok [OF assms(1) audio_ok_open assms(2)])
  from cached_elsewhere [OF ok assms(3,5,6), of net] obtain c' where
    "ensure_cached env io net tid q (audio_key_for tid q) (audio_run env ops (open_cache a b)) = (Inr (), c')"
    "audio_pin (audio_key_for tid q) c' = (PinNotInCache, c')"
    "map au_key (pinned (audio_rows c')) = map au_key (pinned (audio_rows (audio_run env ops (open_cache a b))))"
    by blast
  then show ?thesis
    using assms(3,4) by (intro exI [of _ c']) (simp add: pin_toggle_def pin_at_quality_def bulk_one_def run_pin_def)
qed

text \<open>A track streamed in the original and saved as MP3.\<close>

definition streamed_ops :: "(audio_io \<times> audio_op) list" where
  "streamed_ops = [(demo_io 1, Put (audio_key_for ''t'' Original) ''xx'')]"

theorem streamed_track_cannot_be_saved_witness:
  "\<exists>c'. pin_toggle demo_env (demo_io 2) (\<lambda>_ _. Some ''m'') True Mp3128 ''t'' ''Song''
      (audio_run demo_env streamed_ops (open_cache 9 9)) = ((Vanished_from_cache ''Song'', True), c')
    \<and> map au_key (pinned (audio_rows c')) = []"
proof -
  let ?c = "audio_run demo_env streamed_ops (open_cache 9 9)"
  have free: "collision_free demo_env {audio_key_for ''t'' Original}" by (simp add: collision_free_def)
  have keys: "ops_in {audio_key_for ''t'' Original} streamed_ops" by (simp add: streamed_ops_def)
  have "map_option ae_pinned (find_by_track ''t'' ?c) = Some False" by code_simp
  then obtain e where e: "find_by_track ''t'' ?c = Some e" "\<not> ae_pinned e" by auto
  have none: "audio_get (audio_key_for ''t'' Mp3128) ?c = None" by code_simp
  have io: "\<forall>p. io_read_ok (demo_io 2) p" by (simp add: demo_io_def)
  have nil: "map au_key (pinned (audio_rows ?c)) = []" by code_simp
  show ?thesis
    using streamed_track_cannot_be_saved [OF free keys e none io] unfolding nil by blast
qed

theorem saved_track_plays_offline_witness:
  "\<exists>body c'. fetch_track_bytes demo_env (demo_io 9) (\<lambda>_ _. None) ''a'' Opus128
     (audio_run demo_env (take 2 demo_ops @ drop 2 demo_ops) (open_cache 2 2)) = (Inr body, c')"
proof -
  let ?K = "{demo_key ''a'', demo_key ''b'', demo_key ''c'', audio_key_for ''a'' Opus128}"
  have free: "collision_free demo_env ?K"
    by (simp add: collision_free_def demo_env_def demo_key_def canonical_def audio_key_for_def)
  have "map_option ae_pinned (audio_get (demo_key ''a'')
      (audio_run demo_env (take 2 demo_ops) (open_cache 2 2))) = Some True" by code_simp
  then obtain e where e: "audio_get (demo_key ''a'') (audio_run demo_env (take 2 demo_ops) (open_cache 2 2)) = Some e"
    "ae_pinned e" by auto
  have ops: "ops_in ?K (take 2 demo_ops)" "ops_in ?K (drop 2 demo_ops)" by (simp_all add: demo_ops_def)
  have kept: "\<forall>(io, op) \<in> set (drop 2 demo_ops). op \<noteq> Delete (demo_key ''a'') \<and> op \<noteq> Unpin (demo_key ''a'')"
    by (simp add: demo_ops_def)
  have key: "ak_track_id (demo_key ''a'') = ''a''" by (simp add: demo_key_def)
  have io: "\<forall>p. io_read_ok (demo_io 9) p" by (simp add: demo_io_def)
  show ?thesis
    using saved_track_plays_offline [OF free ops _ _ e kept io, of Opus128] unfolding key by blast
qed

text \<open>
  Saving a track that is not cached saves it: when the server streams it, the disk accepts it, the
  clock has moved on since every regular row, and the pinned budget has room, the answer is the
  success message, and the row of the download quality is pinned with the streamed bytes.
\<close>

theorem saving_pins_the_streamed_bytes:
  assumes "collision_free env K" "ops_in K ops" "audio_key_for tid q \<in> K"
    "find_by_track tid (audio_run env ops (open_cache a b)) = None"
    "net tid q = Some body" "int (length body) \<le> i64_max"
    "io_write io = Written" "\<forall>p. io_remove_ok io p"
    "\<forall>r \<in> set (regular (audio_rows (audio_run env ops (open_cache a b)))).
       au_last_accessed r < systemtime_to_millis_i64 (io_now io)"
    "bytes_of (pinned (audio_rows (audio_run env ops (open_cache a b)))) + int (length body)
       \<le> int (pinned_budget_bytes (audio_run env ops (open_cache a b)))"
  shows "\<exists>c' e. pin_toggle env io net True q tid title (audio_run env ops (open_cache a b)) = ((Saved title, False), c')
    \<and> audio_get (audio_key_for tid q) c' = Some e \<and> ae_pinned e \<and> blobs c' (ae_blob_path e) = Some body"
proof -
  let ?c = "audio_run env ops (open_cache a b)"
  let ?k = "audio_key_for tid q"
  let ?new = "new_row env io ?k body (audio_rows ?c)"
  let ?c1 = "?c\<lparr>audio_rows := upsert_row au_key ?new (audio_rows ?c),
    blobs := (blobs ?c)(tmp_path_for env ?k := None, blob_path_for env ?k \<mapsto> body)\<rparr>"
  have ok: "audio_ok env K ?c" by (rule audio_run_ok [OF assms(1) audio_ok_open assms(2)])
  have dist: "distinct (map au_key (audio_rows ?c))" using ok by (simp add: audio_ok_def)
  have none: "audio_get ?k ?c = None"
  proof (rule ccontr)
    assume "audio_get ?k ?c \<noteq> None"
    then obtain e where "audio_get ?k ?c = Some e" by blast
    then obtain r where r: "r \<in> set (audio_rows ?c)" "e = row_to_entry r" "ae_key e = ?k"
      by (rule get_row [OF assms(1) ok assms(3)])
    have "ak_track_id (ae_key e) = tid" by (simp only: r(3) audio_key_for_def audio_key.select_convs)
    then show False using assms(4) r(1,2) by (auto simp: find_by_track_None)
  qed
  then have absent: "find_row (canonical ?k) (audio_rows ?c) = None" by (simp add: audio_get_def)
  then have fresh: "\<forall>r \<in> set (audio_rows ?c). au_key r \<noteq> canonical ?k" by (auto simp: find_row_def find_None_iff)
  have unpinned: "\<not> au_pinned ?new" by (simp add: new_row_fields absent)
  have rows: "audio_rows ?c1 = audio_rows ?c @ [?new]" using fresh by (simp add: upsert_row_def new_row_fields)
  have ok1: "audio_ok env K ?c1" by (rule audio_ok_upsert [OF assms(1) ok assms(3)])
  let ?c2 = "snd (evict_lru_to_fit io ?c1)"
  have dist1: "distinct (map au_key (audio_rows ?c1))" using ok1 by (simp add: audio_ok_def)
  have "?new \<in> set (regular (audio_rows ?c1))" using unpinned by (simp only: rows) simp
  moreover have "\<forall>q \<in> set (regular (audio_rows ?c1)). q \<noteq> ?new \<longrightarrow> au_last_accessed q < au_last_accessed ?new"
    using assms(9) by (simp only: rows) (auto simp: new_row_def)
  ultimately have new: "?new \<in> set (audio_rows ?c2)" and fits: "is_ok (fst (evict_lru_to_fit io ?c1))"
    using newest_survives [OF dist1 _ _ assms(8)] by blast+
  have ok2: "audio_ok env K ?c2" by (rule evict_ok [OF assms(1) ok1])
  have dist2: "distinct (map au_key (audio_rows ?c2))" using ok2 by (simp add: audio_ok_def)
  have blob: "blobs ?c2 (blob_path_for env ?k) = Some body"
    using survivor_blob [OF assms(1) ok1 new] by (simp add: new_row_fields)
  have found: "find_row (canonical ?k) (audio_rows ?c2) = Some ?new"
    by (rule audio_find_unique [OF dist2 new]) (simp add: new_row_fields)
  obtain n where ev: "evict_lru_to_fit io ?c1 = (Inr n, ?c2)"
    using fits by (cases "evict_lru_to_fit io ?c1") (auto split: sum.splits)
  have put: "audio_put env io ?k body ?c = (Inr (row_to_entry ?new), ?c2)"
    by (rule put_written [OF assms(7) ev found])
  have ensured: "ensure_cached env io net tid q ?k ?c = (Inr (), ?c2)"
    using none assms(4,5) put
    by (simp add: ensure_cached_def fetch_track_bytes_def Let_def read_cached_miss resolve_source_def)
  have pins: "pinned (audio_rows ?c2) = pinned (audio_rows ?c)"
    using evict_pinned [OF dist1, of io] unpinned by (simp only: rows) simp
  have budget: "pinned_budget_bytes ?c2 = pinned_budget_bytes ?c" using evict_budgets [of io ?c1] by simp
  have "nat (bytes_of (pinned (audio_rows ?c))) + length body \<le> pinned_budget_bytes ?c"
    using assms(10) pinned_bytes_nonneg [OF ok] by linarith
  then have pin: "audio_pin ?k ?c2 = (Pinned, set_pinned True ?k ?c2)"
    using assms(6) unpinned
    by (simp add: audio_pin_def found pins budget u64_sat_add_def i64_to_u64_def new_row_fields u64_to_i64_def min_def)
  have "find_row (canonical ?k) (audio_rows (set_pinned True ?k ?c2)) = Some (?new\<lparr>au_pinned := True\<rparr>)"
    using find_row_update [of "\<lambda>r. r\<lparr>au_pinned := True\<rparr>" "canonical ?k" "audio_rows ?c2"] found
    by (simp add: set_pinned_def)
  then have get: "audio_get ?k (set_pinned True ?k ?c2) = Some (row_to_entry (?new\<lparr>au_pinned := True\<rparr>))"
    by (simp add: audio_get_def)
  have toggled: "pin_toggle env io net True q tid title ?c = ((Saved title, False), set_pinned True ?k ?c2)"
    using assms(4) ensured pin by (simp add: pin_toggle_def pin_at_quality_def Let_def)
  show ?thesis
    by (rule exI [of _ "set_pinned True ?k ?c2"], rule exI [of _ "row_to_entry (?new\<lparr>au_pinned := True\<rparr>)"])
      (use toggled get blob in \<open>simp add: new_row_fields set_pinned_def\<close>)
qed

theorem saving_pins_the_streamed_bytes_witness:
  "\<exists>c' e. pin_toggle demo_env (demo_io 7) (\<lambda>_ _. Some ''m'') True Original ''t'' ''Song'' (audio_run demo_env [] (open_cache 9 9))
     = ((Saved ''Song'', False), c') \<and> audio_get (audio_key_for ''t'' Original) c' = Some e \<and> ae_pinned e
     \<and> blobs c' (ae_blob_path e) = Some ''m''"
proof (rule saving_pins_the_streamed_bytes)
  show "collision_free demo_env {audio_key_for ''t'' Original}" by (simp add: collision_free_def)
  show "audio_key_for ''t'' Original \<in> {audio_key_for ''t'' Original}" by simp
qed (simp_all add: audio_run_def open_cache_def find_by_track_None demo_io_def i64_max_def bytes_of_def)

end
