(* ===== verification/Proxy.thy ===== *)
theory Proxy
  imports Browse_Cache
begin

text \<open>
  The read-only proxy to the Subsonic server (\<open>music-gateway/src/proxy.rs\<close>) with its response cache:
  method checks, cache keys, the three paths of a request (browse, cover art, pass-through), the
  placeholder detection, and the background tasks a request spawns. A request contacts the
  upstream at most once; each definition returns that contact beside the response, so that
  properties can say when there is none. \<open>form_parse\<close> is \<open>url::form_urlencoded::parse\<close>,
  \<open>px_url_ok\<close> whether the configured base parses, \<open>hue_text\<close> the two hue angles as they are printed,
  \<open>px_md5\<close> and \<open>px_sha256\<close> the digests. Database errors do not occur.
\<close>

section \<open>Environment, requests and responses\<close>

record proxy_env =
  form_parse :: "string \<Rightarrow> (string \<times> string) list"
  px_url_ok :: bool
  px_header_ok :: "string \<Rightarrow> bool"
  hue_text :: "32 word \<Rightarrow> string \<times> string"
  px_md5 :: "string \<Rightarrow> string"
  px_sha256 :: "string \<Rightarrow> string"
  navidrome_url :: string
  up_username :: string
  up_password :: string
  list_ttl_seconds :: int
  browse_ttl_seconds :: int

record up_headers =
  uh_content_type :: "string option"
  uh_accept_ranges :: "string option"
  uh_content_range :: "string option"
  uh_content_length :: "string option"

text \<open>What the upstream does: no connection, or a status, headers, and a body that may break off.\<close>

datatype upstream_reply = Unreachable | Reply nat up_headers "string option"

record upstream_request =
  ur_base :: string
  ur_path :: string
  ur_query :: "(string \<times> string) list"
  ur_range :: "string option"

record http_response =
  rs_status :: nat
  rs_body :: string
  rs_content_type :: "string option"
  rs_etag :: "string option"
  rs_cache_control :: "string option"
  rs_warning :: "string option"
  rs_ranges :: "string option \<times> string option \<times> string option"

record rest_request =
  rq_path :: string
  rq_query :: "string option"
  rq_if_none_match :: "string option"
  rq_range :: "string option"

text \<open>Background work: the spawned cache write, sweep and revalidation.\<close>

datatype bg_task = Write_entry string string int | Sweep string | Revalidate string string

record proxy_state =
  cache_entries :: cache_table
  placeholder_etags :: "string list"
  placeholder_revalidations :: "(string \<times> int) list"
  bg_tasks :: "bg_task list"

text \<open>The readings of the two clocks and the salt of one request.\<close>

record proxy_tick =
  tk_now :: int
  tk_instant :: int
  tk_salt :: string

type_synonym contact = "upstream_request option"
type_synonym 'a proxied = "'a \<times> proxy_state \<times> contact"

definition plain_response :: "nat \<Rightarrow> string \<Rightarrow> http_response" where
  "plain_response status body =
     \<lparr>rs_status = status, rs_body = body, rs_content_type = None, rs_etag = None, rs_cache_control = None,
      rs_warning = None, rs_ranges = (None, None, None)\<rparr>"

section \<open>Methods\<close>

definition STRIPPED_PARAM_KEYS :: "string list" where
  "STRIPPED_PARAM_KEYS = [''u'', ''p'', ''t'', ''s'', ''v'', ''c'', ''f'', ''seed'', ''access_token'']"

definition SUBSONIC_WRITE_METHODS :: "string list" where
  "SUBSONIC_WRITE_METHODS =
     [''star'', ''unstar'', ''setrating'', ''createplaylist'', ''updateplaylist'', ''deleteplaylist'',
      ''saveplayqueue'', ''createshare'', ''updateshare'', ''deleteshare'', ''createuser'', ''updateuser'',
      ''deleteuser'', ''changepassword'', ''createinternetradiostation'', ''updateinternetradiostation'',
      ''deleteinternetradiostation'', ''createpodcastchannel'', ''deletepodcastchannel'',
      ''deletepodcastepisode'', ''downloadpodcastepisode'', ''refreshpodcasts'', ''createbookmark'',
      ''deletebookmark'', ''startscan'', ''jukeboxcontrol'']"

definition strip_suffix_str :: "string \<Rightarrow> string \<Rightarrow> string option" where
  "strip_suffix_str suf s = map_option rev (strip_prefix (rev suf) (rev s))"

definition is_subsonic_write_method :: "string \<Rightarrow> bool" where
  "is_subsonic_write_method m =
     (let lower = map ascii_lower m;
          base = (case strip_suffix_str ''.view'' lower of Some b \<Rightarrow> b | None \<Rightarrow> lower)
      in base \<in> set SUBSONIC_WRITE_METHODS)"

definition BROWSE_METHODS :: "string list" where
  "BROWSE_METHODS = [''getAlbumList2'', ''getAlbum'', ''getArtists'', ''getArtist'', ''search3'']"

definition COVER_ART_TTL :: int where
  "COVER_ART_TTL = 30 * 24 * 60 * 60 * 1000"

definition PLACEHOLDER_DUPLICATE_THRESHOLD :: nat where
  "PLACEHOLDER_DUPLICATE_THRESHOLD = 5"

definition PLACEHOLDER_REVALIDATION_COOLDOWN :: int where
  "PLACEHOLDER_REVALIDATION_COOLDOWN = 15 * 60 * 1000"

fun contains_str :: "string \<Rightarrow> string \<Rightarrow> bool" where
  "contains_str [] p = (p = [])"
| "contains_str (c # cs) p = (starts_with (c # cs) p \<or> contains_str cs p)"

definition is_valid_subsonic_method :: "string \<Rightarrow> bool" where
  "is_valid_subsonic_method m =
     (m \<noteq> [] \<and> CHR ''/'' \<notin> set m \<and> char_of (92 :: nat) \<notin> set m \<and> \<not> contains_str m ''..'')"

section \<open>Keys and parameters\<close>

definition pair_key :: "string \<times> string \<Rightarrow> nat list \<times> nat list" where
  "pair_key p = (map byte (fst p), map byte (snd p))"

definition key_params :: "proxy_env \<Rightarrow> string \<Rightarrow> (string \<times> string) list" where
  "key_params env q = filter (\<lambda>(k, v). k \<notin> set STRIPPED_PARAM_KEYS) (form_parse env q)"

definition cache_key :: "proxy_env \<Rightarrow> string \<Rightarrow> string \<Rightarrow> string" where
  "cache_key env m q =
     m @ concat (map (\<lambda>(k, v). ''|'' @ k @ ''='' @ v) (sort_key pair_key (key_params env q)))"

text \<open>The last \<open>id\<close> and the last \<open>size\<close>.\<close>

definition cover_art_cache_key :: "proxy_env \<Rightarrow> string \<Rightarrow> string" where
  "cover_art_cache_key env q =
     (let (i, sz) = fold (\<lambda>(k, v) (i, sz). if k = ''id'' then (v, sz) else if k = ''size'' then (i, v) else (i, sz))
            (form_parse env q) ([], [])
      in ''getCoverArt|id='' @ i @ ''|size='' @ sz)"

text \<open>The first \<open>id\<close>.\<close>

definition parse_cover_art_id :: "proxy_env \<Rightarrow> string \<Rightarrow> string option" where
  "parse_cover_art_id env q = map_option snd (find (\<lambda>(k, v). k = ''id'') (form_parse env q))"

definition parse_cover_art_seed :: "proxy_env \<Rightarrow> string \<Rightarrow> string option" where
  "parse_cover_art_seed env q =
     (case find (\<lambda>(k, v). k = ''seed'') (form_parse env q) of
        Some (k, v) \<Rightarrow> if v = [] then None else Some v
      | None \<Rightarrow> None)"

definition cover_id_from_cache_key :: "string \<Rightarrow> string option" where
  "cover_id_from_cache_key k = map_option (\<lambda>rest. hd (split_on CHR ''|'' rest)) (strip_prefix ''getCoverArt|id='' k)"

definition is_cacheable :: "proxy_env \<Rightarrow> string \<Rightarrow> string \<Rightarrow> bool" where
  "is_cacheable env m q =
     (if m \<noteq> ''getAlbumList2'' then True
      else \<not> list_ex (\<lambda>(k, v). k = ''type'' \<and> v = ''random'') (form_parse env q))"

definition ttl_seconds_for :: "proxy_env \<Rightarrow> string \<Rightarrow> int" where
  "ttl_seconds_for env m =
     (if m \<in> {''getAlbumList2'', ''getArtists'', ''search3''} then list_ttl_seconds env else browse_ttl_seconds env)"

definition ensure_trailing_slash :: "string \<Rightarrow> string" where
  "ensure_trailing_slash s = (if s \<noteq> [] \<and> last s = CHR ''/'' then s else s @ ''/'')"

datatype upstream_url_error = InvalidMethod | UrlParse

fun url_error_status :: "upstream_url_error \<Rightarrow> nat" where
  "url_error_status InvalidMethod = 400"
| "url_error_status UrlParse = 500"

definition compute_token :: "proxy_env \<Rightarrow> string \<Rightarrow> string" where
  "compute_token env salt = hex_bytes (px_md5 env (up_password env @ salt))"

definition build_upstream_url ::
  "proxy_env \<Rightarrow> string \<Rightarrow> string \<Rightarrow> string \<Rightarrow> upstream_url_error + upstream_request" where
  "build_upstream_url env m q salt =
     (if \<not> is_valid_subsonic_method m then Inl InvalidMethod
      else if \<not> px_url_ok env then Inl UrlParse
      else Inr \<lparr>ur_base = ensure_trailing_slash (navidrome_url env), ur_path = ''rest/'' @ m,
             ur_query =
               [(''u'', up_username env), (''t'', compute_token env salt), (''s'', salt), (''v'', ''1.16.1''),
                (''c'', ''crates-music-gateway''), (''f'', ''json'')] @ key_params env q,
             ur_range = None\<rparr>)"

section \<open>Responses\<close>

definition subsonic_forbidden :: http_response where
  "subsonic_forbidden =
     (plain_response 403
        ''{\"subsonic-response\":{\"status\":\"failed\",\"version\":\"1.16.1\",\"error\":{\"code\":50,\"message\":\"This operation is not permitted through the gateway proxy.\"}}}'')
       \<lparr>rs_content_type := Some ''application/json''\<rparr>"

definition etag_header :: "proxy_env \<Rightarrow> string \<Rightarrow> string option" where
  "etag_header env etag = (if px_header_ok env etag then Some etag else None)"

definition not_modified :: "proxy_env \<Rightarrow> string \<Rightarrow> http_response" where
  "not_modified env etag = (plain_response 304 [])\<lparr>rs_etag := etag_header env etag\<rparr>"

definition serve_from_cache :: "proxy_env \<Rightarrow> cache_entry \<Rightarrow> http_response" where
  "serve_from_cache env e =
     (plain_response 200 (en_body e))
       \<lparr>rs_etag := etag_header env (en_etag e), rs_content_type := Some ''application/json''\<rparr>"

definition serve_stale_or_bad_gateway :: "proxy_env \<Rightarrow> cache_entry option \<Rightarrow> nat + http_response" where
  "serve_stale_or_bad_gateway env stale =
     (case stale of
        None \<Rightarrow> Inl 502
      | Some e \<Rightarrow> Inr ((serve_from_cache env e)\<lparr>rs_warning := Some ''110 - \"Response is Stale\"''\<rparr>))"

definition forward_buffered :: "nat \<Rightarrow> up_headers \<Rightarrow> string \<Rightarrow> http_response" where
  "forward_buffered status h body = (plain_response status body)\<lparr>rs_content_type := uh_content_type h\<rparr>"

definition of_bytes :: "nat list \<Rightarrow> string" where
  "of_bytes ns = map char_of ns"

definition guess_image_content_type :: "string \<Rightarrow> string" where
  "guess_image_content_type body =
     (if starts_with body (of_bytes [137, 80, 78, 71, 13, 10, 26, 10]) then ''image/png''
      else if starts_with body (of_bytes [255, 216, 255]) then ''image/jpeg''
      else if 12 \<le> length body \<and> take 4 body = ''RIFF'' \<and> take 4 (drop 8 body) = ''WEBP'' then ''image/webp''
      else if starts_with body ''<svg'' \<or> starts_with body ''<?xml'' then ''image/svg+xml; charset=utf-8''
      else ''application/octet-stream'')"

definition serve_cover_with_cc :: "proxy_env \<Rightarrow> cache_entry \<Rightarrow> string \<Rightarrow> string \<Rightarrow> http_response" where
  "serve_cover_with_cc env e content_type cache_control =
     (plain_response 200 (en_body e))
       \<lparr>rs_etag := etag_header env (en_etag e), rs_content_type := Some content_type,
        rs_cache_control := Some cache_control\<rparr>"

definition serve_cover_with_ct :: "proxy_env \<Rightarrow> cache_entry \<Rightarrow> string \<Rightarrow> http_response" where
  "serve_cover_with_ct env e content_type =
     serve_cover_with_cc env e content_type ''public, max-age=300, must-revalidate''"

definition serve_cover_from_cache :: "proxy_env \<Rightarrow> cache_entry \<Rightarrow> http_response" where
  "serve_cover_from_cache env e = serve_cover_with_ct env e (guess_image_content_type (en_body e))"

text \<open>\<open>std::str::from_utf8\<close>.\<close>

definition cont_byte :: "nat \<Rightarrow> bool" where
  "cont_byte b \<longleftrightarrow> 128 \<le> b \<and> b < 192"

fun utf8_ok :: "nat list \<Rightarrow> bool" where
  "utf8_ok [] = True"
| "utf8_ok (a # s) =
     (if a < 128 then utf8_ok s
      else if 194 \<le> a \<and> a < 224 then (case s of b # r \<Rightarrow> cont_byte b \<and> utf8_ok r | _ \<Rightarrow> False)
      else if 224 \<le> a \<and> a < 240 then
        (case s of b # c # r \<Rightarrow>
           cont_byte b \<and> cont_byte c \<and> (a = 224 \<longrightarrow> 160 \<le> b) \<and> (a = 237 \<longrightarrow> b < 160) \<and> utf8_ok r
         | _ \<Rightarrow> False)
      else if 240 \<le> a \<and> a < 245 then
        (case s of b # c # d # r \<Rightarrow>
           cont_byte b \<and> cont_byte c \<and> cont_byte d \<and> (a = 240 \<longrightarrow> 144 \<le> b) \<and> (a = 244 \<longrightarrow> b < 144) \<and> utf8_ok r
         | _ \<Rightarrow> False)
      else False)"

definition is_subsonic_json_error :: "up_headers \<Rightarrow> string \<Rightarrow> bool" where
  "is_subsonic_json_error h body =
     (case Option.bind (uh_content_type h) header_to_str of
        None \<Rightarrow> False
      | Some ct \<Rightarrow>
          starts_with ct ''application/json'' \<and> utf8_ok (map byte body)
          \<and> contains_str body ''\"subsonic-response\"'' \<and> contains_str body ''\"status\":\"failed\"'')"

section \<open>The placeholder image\<close>

definition is_our_placeholder_body :: "string \<Rightarrow> bool" where
  "is_our_placeholder_body body = (starts_with body ''<?xml'' \<or> starts_with body ''<svg'')"

definition fnv1a32 :: "string \<Rightarrow> 32 word" where
  "fnv1a32 s = fold (\<lambda>c h. (xor h (of_nat (byte c))) * 0x01000193) s 0x811C9DC5"

definition ascii_upper :: "char \<Rightarrow> char" where
  "ascii_upper c = (if 97 \<le> byte c \<and> byte c \<le> 122 then char_of (byte c - 32) else c)"

definition first_initial :: "string \<Rightarrow> string" where
  "first_initial seed =
     (case find (\<lambda>c. \<not> is_ws c) seed of
        None \<Rightarrow> ''?''
      | Some c \<Rightarrow>
          (let u = ascii_upper c
           in if u = CHR ''<'' then ''&lt;'' else if u = CHR ''>'' then ''&gt;''
              else if u = CHR ''&'' then ''&amp;'' else [u]))"

definition render_placeholder_svg :: "proxy_env \<Rightarrow> string \<Rightarrow> string" where
  "render_placeholder_svg env seed =
     (case hue_text env (fnv1a32 (if seed = [] then ''?'' else seed)) of
        (hue1, hue2) \<Rightarrow>
          ''<?xml version=\"1.0\" encoding=\"UTF-8\"?><svg xmlns=\"http://www.w3.org/2000/svg\" viewBox=\"0 0 100 100\" preserveAspectRatio=\"xMidYMid slice\" role=\"img\" aria-hidden=\"true\"><defs><linearGradient id=\"g\" x1=\"0\" y1=\"0\" x2=\"1\" y2=\"1\"><stop offset=\"0%\" stop-color=\"hsl(''
          @ hue1 @ '', 55%, 38%)\"/><stop offset=\"100%\" stop-color=\"hsl('' @ hue2
          @ '', 55%, 22%)\"/></linearGradient></defs><rect width=\"100\" height=\"100\" fill=\"url(#g)\"/><text x=\"50\" y=\"50\" text-anchor=\"middle\" dominant-baseline=\"central\" fill=\"rgba(255,255,255,0.92)\" font-family=\"system-ui, -apple-system, Segoe UI, Roboto, sans-serif\" font-weight=\"700\" font-size=\"44\" dy=\".05em\">''
          @ first_initial seed @ ''</text></svg>'')"

definition write_and_serve_placeholder ::
  "proxy_env \<Rightarrow> string \<Rightarrow> string \<Rightarrow> int \<Rightarrow> int \<Rightarrow> proxy_state \<Rightarrow> http_response \<times> proxy_state" where
  "write_and_serve_placeholder env key seed ttl now st =
     (let body = render_placeholder_svg env seed;
          entry = \<lparr>en_key = key, en_etag = etag_for (px_sha256 env) body, en_body = body,
                   en_fetched_at = now, en_ttl = ttl\<rparr>
      in (serve_cover_with_cc env entry (guess_image_content_type body) ''no-cache, must-revalidate'',
          st\<lparr>bg_tasks := bg_tasks st @ [Write_entry key body ttl]\<rparr>))"

section \<open>Placeholder detection\<close>

definition is_duplicate_cover_etag :: "string \<Rightarrow> string \<Rightarrow> cache_table \<Rightarrow> bool" where
  "is_duplicate_cover_etag etag current t =
     (let ids = List.map_filter cover_id_from_cache_key (keys_with_etag etag t);
          others = filter (\<lambda>i. \<not> starts_with i ''mf-'') (filter (\<lambda>i. i \<noteq> current) ids)
      in PLACEHOLDER_DUPLICATE_THRESHOLD \<le> card (set others))"

definition classify_as_placeholder :: "string \<Rightarrow> string \<Rightarrow> proxy_state \<Rightarrow> bool \<times> proxy_state" where
  "classify_as_placeholder etag current st =
     (if etag \<in> set (placeholder_etags st) then (True, st)
      else if \<not> is_duplicate_cover_etag etag current (cache_entries st) then (False, st)
      else (True, st\<lparr>placeholder_etags := etag # placeholder_etags st, bg_tasks := bg_tasks st @ [Sweep etag]\<rparr>))"

definition put_instant :: "string \<Rightarrow> int \<Rightarrow> (string \<times> int) list \<Rightarrow> (string \<times> int) list" where
  "put_instant k v m = (k, v) # filter (\<lambda>e. fst e \<noteq> k) m"

definition maybe_spawn_revalidation :: "int \<Rightarrow> string \<Rightarrow> string \<Rightarrow> proxy_state \<Rightarrow> proxy_state" where
  "maybe_spawn_revalidation now key q st =
     (case map_of (placeholder_revalidations st) key of
        Some last_at \<Rightarrow>
          if max 0 (now - last_at) < PLACEHOLDER_REVALIDATION_COOLDOWN then st
          else st\<lparr>placeholder_revalidations := put_instant key now (placeholder_revalidations st),
                  bg_tasks := bg_tasks st @ [Revalidate key q]\<rparr>
      | None \<Rightarrow> st\<lparr>placeholder_revalidations := put_instant key now (placeholder_revalidations st),
                  bg_tasks := bg_tasks st @ [Revalidate key q]\<rparr>)"

definition revalidate_placeholder ::
  "proxy_env \<Rightarrow> proxy_tick \<Rightarrow> (upstream_request \<Rightarrow> upstream_reply) \<Rightarrow> string \<Rightarrow> string \<Rightarrow> proxy_state
   \<Rightarrow> proxy_state \<times> contact" where
  "revalidate_placeholder env tk net key q st =
     (case build_upstream_url env ''getCoverArt'' q (tk_salt tk) of
        Inl _ \<Rightarrow> (st, None)
      | Inr url \<Rightarrow>
          (case net url of
             Unreachable \<Rightarrow> (st, Some url)
           | Reply status h body0 \<Rightarrow>
               if status \<noteq> 200 then (st, Some url)
               else (case body0 of
                       None \<Rightarrow> (st, Some url)
                     | Some body \<Rightarrow>
                         if body = [] \<or> is_subsonic_json_error h body then (st, Some url)
                         else let etag = etag_for (px_sha256 env) body
                              in if etag \<in> set (placeholder_etags st) then (st, Some url)
                                 else if is_duplicate_cover_etag etag
                                           (case cover_id_from_cache_key key of Some i \<Rightarrow> i | None \<Rightarrow> []) (cache_entries st)
                                 then (st\<lparr>placeholder_etags := etag # placeholder_etags st\<rparr>, Some url)
                                 else (st\<lparr>cache_entries :=
                                        snd (cache_put (px_sha256 env) (tk_now tk) key body COVER_ART_TTL (cache_entries st))\<rparr>,
                                       Some url))))"

section \<open>Requests\<close>

definition is_success :: "nat \<Rightarrow> bool" where
  "is_success status \<longleftrightarrow> 200 \<le> status \<and> status < 300"

definition is_server_error :: "nat \<Rightarrow> bool" where
  "is_server_error status \<longleftrightarrow> 500 \<le> status \<and> status < 600"

definition browse_proxy ::
  "proxy_env \<Rightarrow> proxy_tick \<Rightarrow> (upstream_request \<Rightarrow> upstream_reply) \<Rightarrow> string \<Rightarrow> string \<Rightarrow> string option
   \<Rightarrow> proxy_state \<Rightarrow> (nat + http_response) proxied" where
  "browse_proxy env tk net m q if_none_match st =
     (let key = cache_key env m q; now = tk_now tk; ttl = ttl_seconds_for env m * 1000;
          cached = cache_get key (cache_entries st);
          fetch =
            (case build_upstream_url env m q (tk_salt tk) of
               Inl e \<Rightarrow> (Inl (url_error_status e), st, None)
             | Inr url \<Rightarrow>
                 (case net url of
                    Unreachable \<Rightarrow> (serve_stale_or_bad_gateway env cached, st, Some url)
                  | Reply status h None \<Rightarrow> (serve_stale_or_bad_gateway env cached, st, Some url)
                  | Reply status h (Some body) \<Rightarrow>
                      if \<not> is_success status
                      then (if is_server_error status \<and> cached \<noteq> None
                            then (serve_stale_or_bad_gateway env cached, st, Some url)
                            else (Inr (forward_buffered status h body), st, Some url))
                      else let entry = \<lparr>en_key = key, en_etag = etag_for (px_sha256 env) body, en_body = body,
                                        en_fetched_at = now, en_ttl = ttl\<rparr>
                           in (Inr (serve_from_cache env entry),
                               st\<lparr>bg_tasks := bg_tasks st @ [Write_entry key body ttl]\<rparr>, Some url)))
      in case cached of
           Some entry \<Rightarrow>
             if is_fresh now entry
             then (if if_none_match = Some (en_etag entry) then (Inr (not_modified env (en_etag entry)), st, None)
                   else (Inr (serve_from_cache env entry), st, None))
             else fetch
         | None \<Rightarrow> fetch)"

definition placeholder_answer ::
  "proxy_env \<Rightarrow> proxy_tick \<Rightarrow> string \<Rightarrow> string \<Rightarrow> proxy_state \<Rightarrow> contact \<Rightarrow> (nat + http_response) proxied" where
  "placeholder_answer env tk key seed st contact =
     (case write_and_serve_placeholder env key seed COVER_ART_TTL (tk_now tk) st of
        (rs, st') \<Rightarrow> (Inr rs, st', contact))"

text \<open>A hit in the cache, and the fetch.\<close>

definition cover_art_hit ::
  "proxy_env \<Rightarrow> proxy_tick \<Rightarrow> string \<Rightarrow> string \<Rightarrow> string option \<Rightarrow> cache_entry \<Rightarrow> proxy_state
   \<Rightarrow> (nat + http_response) proxied" where
  "cover_art_hit env tk key q if_none_match entry st =
     (let cover_id = (case parse_cover_art_id env q of Some i \<Rightarrow> i | None \<Rightarrow> []);
          seed = (case parse_cover_art_seed env q of Some s \<Rightarrow> s | None \<Rightarrow> cover_id)
      in if is_our_placeholder_body (en_body entry)
         then placeholder_answer env tk key seed (maybe_spawn_revalidation (tk_instant tk) key q st) None
         else case classify_as_placeholder (en_etag entry) cover_id st of
                (True, st1) \<Rightarrow>
                  placeholder_answer env tk key seed (maybe_spawn_revalidation (tk_instant tk) key q st1) None
              | (False, st1) \<Rightarrow>
                  if if_none_match = Some (en_etag entry) then (Inr (not_modified env (en_etag entry)), st1, None)
                  else (Inr (serve_cover_from_cache env entry), st1, None))"

definition cover_art_fetch ::
  "proxy_env \<Rightarrow> proxy_tick \<Rightarrow> (upstream_request \<Rightarrow> upstream_reply) \<Rightarrow> string \<Rightarrow> string \<Rightarrow> proxy_state
   \<Rightarrow> (nat + http_response) proxied" where
  "cover_art_fetch env tk net key q st =
     (let cover_id = (case parse_cover_art_id env q of Some i \<Rightarrow> i | None \<Rightarrow> []);
          seed = (case parse_cover_art_seed env q of Some s \<Rightarrow> s | None \<Rightarrow> cover_id)
      in case build_upstream_url env ''getCoverArt'' q (tk_salt tk) of
           Inl e \<Rightarrow> (Inl (url_error_status e), st, None)
         | Inr url \<Rightarrow>
             (case net url of
                Unreachable \<Rightarrow> (Inl 502, st, Some url)
              | Reply status h None \<Rightarrow> (Inl 502, st, Some url)
              | Reply status h (Some body) \<Rightarrow>
                  if status = 404 then placeholder_answer env tk key seed st (Some url)
                  else if \<not> is_success status then (Inr (forward_buffered status h body), st, Some url)
                  else if is_subsonic_json_error h body then placeholder_answer env tk key seed st (Some url)
                  else let etag = etag_for (px_sha256 env) body
                       in if etag \<in> set (placeholder_etags st) then placeholder_answer env tk key seed st (Some url)
                          else case cache_put (px_sha256 env) (tk_now tk) key body COVER_ART_TTL (cache_entries st) of
                                 (entry, t) \<Rightarrow>
                                   (case classify_as_placeholder etag cover_id (st\<lparr>cache_entries := t\<rparr>) of
                                      (True, st1) \<Rightarrow> placeholder_answer env tk key seed st1 (Some url)
                                    | (False, st1) \<Rightarrow>
                                        (Inr (serve_cover_with_ct env entry
                                           (case uh_content_type h of Some ct \<Rightarrow> ct | None \<Rightarrow> ''application/octet-stream'')),
                                         st1, Some url))))"

definition cover_art_proxy ::
  "proxy_env \<Rightarrow> proxy_tick \<Rightarrow> (upstream_request \<Rightarrow> upstream_reply) \<Rightarrow> string \<Rightarrow> string option \<Rightarrow> proxy_state
   \<Rightarrow> (nat + http_response) proxied" where
  "cover_art_proxy env tk net q if_none_match st =
     (let key = cover_art_cache_key env q
      in case cache_get key (cache_entries st) of
           Some entry \<Rightarrow>
             if is_fresh (tk_now tk) entry then cover_art_hit env tk key q if_none_match entry st
             else cover_art_fetch env tk net key q st
         | None \<Rightarrow> cover_art_fetch env tk net key q st)"

text \<open>The body is streamed; one that breaks off is delivered as far as it came.\<close>

definition pass_through ::
  "proxy_env \<Rightarrow> proxy_tick \<Rightarrow> (upstream_request \<Rightarrow> upstream_reply) \<Rightarrow> string \<Rightarrow> string \<Rightarrow> string option \<Rightarrow> proxy_state
   \<Rightarrow> (nat + http_response) proxied" where
  "pass_through env tk net m q rng st =
     (case build_upstream_url env m q (tk_salt tk) of
        Inl e \<Rightarrow> (Inl (url_error_status e), st, None)
      | Inr url0 \<Rightarrow>
          (let url = url0\<lparr>ur_range := rng\<rparr>
           in case net url of
                Unreachable \<Rightarrow> (Inl 502, st, Some url)
              | Reply status h body \<Rightarrow>
                  (Inr ((plain_response status (case body of Some b \<Rightarrow> b | None \<Rightarrow> []))
                     \<lparr>rs_content_type := uh_content_type h,
                      rs_ranges := (uh_accept_ranges h, uh_content_range h, uh_content_length h)\<rparr>),
                   st, Some url)))"

definition proxy_inner ::
  "proxy_env \<Rightarrow> proxy_tick \<Rightarrow> (upstream_request \<Rightarrow> upstream_reply) \<Rightarrow> rest_request \<Rightarrow> proxy_state
   \<Rightarrow> (nat + http_response) proxied" where
  "proxy_inner env tk net rq st =
     (case strip_prefix ''/rest/'' (rq_path rq) of
        None \<Rightarrow> (Inl 404, st, None)
      | Some m \<Rightarrow>
          if m = [] then (Inl 404, st, None)
          else if is_subsonic_write_method m then (Inr subsonic_forbidden, st, None)
          else let q = (case rq_query rq of Some q \<Rightarrow> q | None \<Rightarrow> []);
                   if_none_match = Option.bind (rq_if_none_match rq) header_to_str
               in if m \<in> set BROWSE_METHODS \<and> is_cacheable env m q
                  then browse_proxy env tk net m q if_none_match st
                  else if m = ''getCoverArt'' then cover_art_proxy env tk net q if_none_match st
                  else pass_through env tk net m q (rq_range rq) st)"

definition proxy ::
  "proxy_env \<Rightarrow> proxy_tick \<Rightarrow> (upstream_request \<Rightarrow> upstream_reply) \<Rightarrow> rest_request \<Rightarrow> proxy_state
   \<Rightarrow> http_response proxied" where
  "proxy env tk net rq st =
     (case proxy_inner env tk net rq st of
        (Inl status, st', contact) \<Rightarrow> (plain_response status [], st', contact)
      | (Inr rs, st', contact) \<Rightarrow> (rs, st', contact))"

section \<open>Steps\<close>

text \<open>A spawned task runs at some later time, in any order; the two admin endpoints.\<close>

fun run_task ::
  "proxy_env \<Rightarrow> proxy_tick \<Rightarrow> (upstream_request \<Rightarrow> upstream_reply) \<Rightarrow> bg_task \<Rightarrow> proxy_state \<Rightarrow> proxy_state" where
  "run_task env tk net (Write_entry key body ttl) st =
     st\<lparr>cache_entries := snd (cache_put (px_sha256 env) (tk_now tk) key body ttl (cache_entries st))\<rparr>"
| "run_task env tk net (Sweep etag) st =
     st\<lparr>cache_entries := snd (delete_keys_with_etag etag (cache_entries st))\<rparr>"
| "run_task env tk net (Revalidate key q) st = fst (revalidate_placeholder env tk net key q st)"

datatype proxy_event = Request rest_request | Run nat | Invalidate | Invalidate_covers

type_synonym proxy_occurrence = "proxy_tick \<times> (upstream_request \<Rightarrow> upstream_reply) \<times> proxy_event"

fun proxy_step :: "proxy_env \<Rightarrow> proxy_occurrence \<Rightarrow> proxy_state \<Rightarrow> proxy_state" where
  "proxy_step env (tk, net, Request rq) st = fst (snd (proxy env tk net rq st))"
| "proxy_step env (tk, net, Run i) st =
     (if i < length (bg_tasks st)
      then run_task env tk net (bg_tasks st ! i) (st\<lparr>bg_tasks := remove_at i (bg_tasks st)\<rparr>)
      else st)"
| "proxy_step env (tk, net, Invalidate) st = st\<lparr>cache_entries := snd (clear_browse (cache_entries st))\<rparr>"
| "proxy_step env (tk, net, Invalidate_covers) st =
     st\<lparr>placeholder_etags := [], cache_entries := snd (clear_covers (cache_entries st))\<rparr>"

definition proxy_init :: proxy_state where
  "proxy_init = \<lparr>cache_entries = [], placeholder_etags = [], placeholder_revalidations = [], bg_tasks = []\<rparr>"

definition proxy_run :: "proxy_env \<Rightarrow> proxy_occurrence list \<Rightarrow> proxy_state \<Rightarrow> proxy_state" where
  "proxy_run env es st = fold (proxy_step env) es st"

end
