(* ===== verification/Proxy_Laws.thy ===== *)
theory Proxy_Laws
  imports Proxy
begin

text \<open>
  Properties of the proxy (\<open>music-gateway/src/proxy.rs\<close>): what reaches the upstream, what the response
  cache answers and for how long, which requests share an entry, how often a placeholder is
  looked up again.
\<close>

section \<open>Contacts with the upstream\<close>

definition gateway_params :: "proxy_env \<Rightarrow> string \<Rightarrow> (string \<times> string) list" where
  "gateway_params env salt =
     [(''u'', up_username env), (''t'', compute_token env salt), (''s'', salt), (''v'', ''1.16.1''),
      (''c'', ''crates-music-gateway''), (''f'', ''json'')]"

text \<open>The request a contact makes: the method it was asked for, with the gateway's own credentials.\<close>

definition contact_ok :: "proxy_env \<Rightarrow> proxy_tick \<Rightarrow> string \<Rightarrow> contact \<Rightarrow> bool" where
  "contact_ok env tk m contact \<longleftrightarrow>
     (\<forall>u. contact = Some u \<longrightarrow>
        is_valid_subsonic_method m \<and> ur_base u = ensure_trailing_slash (navidrome_url env) \<and> ur_path u = ''rest/'' @ m
        \<and> filter (\<lambda>p. fst p \<in> set STRIPPED_PARAM_KEYS) (ur_query u) = gateway_params env (tk_salt tk))"

lemma contact_ok_None [simp]: "contact_ok env tk m None"
  by (simp add: contact_ok_def)

lemma contact_ok_url:
  assumes "build_upstream_url env m q (tk_salt tk) = Inr url"
  shows "contact_ok env tk m (Some url)" "contact_ok env tk m (Some (url\<lparr>ur_range := r\<rparr>))"
proof -
  have own: "filter (\<lambda>p. fst p \<in> set STRIPPED_PARAM_KEYS) (gateway_params env (tk_salt tk)) = gateway_params env (tk_salt tk)"
    by (simp add: gateway_params_def STRIPPED_PARAM_KEYS_def)
  have client: "filter (\<lambda>p. fst p \<in> set STRIPPED_PARAM_KEYS) (key_params env q) = []"
    by (auto simp: key_params_def filter_empty_conv)
  have "filter (\<lambda>p. fst p \<in> set STRIPPED_PARAM_KEYS) (gateway_params env (tk_salt tk) @ key_params env q)
      = gateway_params env (tk_salt tk)"
    by (simp only: filter_append own client append_Nil2)
  moreover have "url = \<lparr>ur_base = ensure_trailing_slash (navidrome_url env), ur_path = ''rest/'' @ m,
      ur_query = gateway_params env (tk_salt tk) @ key_params env q, ur_range = None\<rparr>" "is_valid_subsonic_method m"
    using assms by (auto simp: build_upstream_url_def gateway_params_def split: if_splits)
  ultimately show "contact_ok env tk m (Some url)" "contact_ok env tk m (Some (url\<lparr>ur_range := r\<rparr>))"
    by (simp_all add: contact_ok_def)
qed

lemma contact_browse: "contact_ok env tk m (snd (snd (browse_proxy env tk net m q inm st)))"
  by (auto simp: browse_proxy_def Let_def contact_ok_url
      split: option.split sum.split upstream_reply.split)

lemma contact_pass: "contact_ok env tk m (snd (snd (pass_through env tk net m q rng st)))"
  by (auto simp: pass_through_def Let_def contact_ok_url split: sum.split upstream_reply.split)

lemma placeholder_answer_contact [simp]: "snd (snd (placeholder_answer env tk key seed st contact)) = contact"
  by (simp add: placeholder_answer_def split: prod.split)

lemma cover_art_hit_contact [simp]: "snd (snd (cover_art_hit env tk key q inm entry st)) = None"
  by (simp add: cover_art_hit_def Let_def split: prod.split bool.split)

lemma contact_cover_fetch: "contact_ok env tk ''getCoverArt'' (snd (snd (cover_art_fetch env tk net key q st)))"
  by (auto simp: cover_art_fetch_def Let_def contact_ok_url
      split: option.split sum.split upstream_reply.split prod.split bool.split)

lemma contact_cover: "contact_ok env tk ''getCoverArt'' (snd (snd (cover_art_proxy env tk net q inm st)))"
  by (simp add: cover_art_proxy_def Let_def contact_cover_fetch split: option.split)

lemma proxy_method:
  "strip_prefix ''/rest/'' (rq_path rq) = Some m \<Longrightarrow> m \<noteq> [] \<Longrightarrow> \<not> is_subsonic_write_method m \<Longrightarrow>
   proxy_inner env tk net rq st =
     (let q = (case rq_query rq of Some q \<Rightarrow> q | None \<Rightarrow> []);
          inm = Option.bind (rq_if_none_match rq) header_to_str
      in if m \<in> set BROWSE_METHODS \<and> is_cacheable env m q then browse_proxy env tk net m q inm st
         else if m = ''getCoverArt'' then cover_art_proxy env tk net q inm st
         else pass_through env tk net m q (rq_range rq) st)"
  by (simp add: proxy_inner_def)

lemma proxy_parts:
  "snd (proxy env tk net rq st) = snd (proxy_inner env tk net rq st)"
  by (simp add: proxy_def split: prod.split sum.split)

text \<open>The two spellings the guard recognises.\<close>

lemma strip_suffix_append: "strip_suffix_str suf (s @ suf) = Some s"
proof -
  have "strip_prefix p (p @ s) = Some s" for p s :: string
    by (induction p) auto
  then show ?thesis by (simp add: strip_suffix_str_def)
qed

lemma write_methods_plain: "\<forall>w \<in> set SUBSONIC_WRITE_METHODS. strip_suffix_str ''.view'' w = None"
  by code_simp

lemma write_method_spellings:
  assumes "w \<in> set SUBSONIC_WRITE_METHODS" "map ascii_lower m = w \<or> map ascii_lower m = w @ ''.view''"
  shows "is_subsonic_write_method m"
  using assms(2)
proof
  assume "map ascii_lower m = w"
  with assms(1) write_methods_plain show ?thesis by (simp add: is_subsonic_write_method_def)
next
  assume "map ascii_lower m = w @ ''.view''"
  with assms(1) strip_suffix_append [of "''.view''" w] show ?thesis by (simp add: is_subsonic_write_method_def)
qed

lemma contact_write_guard:
  "snd (snd (proxy_inner env tk net rq st)) = Some u \<Longrightarrow>
   \<exists>m. strip_prefix ''/rest/'' (rq_path rq) = Some m \<and> \<not> is_subsonic_write_method m
     \<and> contact_ok env tk m (Some u)"
proof -
  assume u: "snd (snd (proxy_inner env tk net rq st)) = Some u"
  then obtain m where m: "strip_prefix ''/rest/'' (rq_path rq) = Some m"
    by (cases "strip_prefix ''/rest/'' (rq_path rq)") (simp_all add: proxy_inner_def)
  with u have ok: "m \<noteq> []" "\<not> is_subsonic_write_method m"
    by (auto simp: proxy_inner_def split: if_splits)
  have "contact_ok env tk m (snd (snd (proxy_inner env tk net rq st)))"
    unfolding proxy_method [OF m ok] using contact_browse contact_pass contact_cover by (simp add: Let_def)
  with u m ok(2) show ?thesis by auto
qed


text \<open>A query string is read as its parts at ampersands, each split at the first equals sign.\<close>

definition demo_proxy_env :: proxy_env where
  "demo_proxy_env =
     \<lparr>form_parse = (\<lambda>q. List.map_filter (split_once CHR ''='') (split_on CHR ''&'' q)), px_url_ok = True,
      px_header_ok = (\<lambda>_. True), hue_text = (\<lambda>_. (''1.0'', ''29.0'')), px_md5 = id, px_sha256 = id,
      navidrome_url = ''http://n'', up_username = ''me'', up_password = ''pw'',
      list_ttl_seconds = 60, browse_ttl_seconds = 3600\<rparr>"

definition demo_request :: "string \<Rightarrow> string \<Rightarrow> rest_request" where
  "demo_request m q =
     \<lparr>rq_path = ''/rest/'' @ m, rq_query = Some q, rq_if_none_match = None, rq_range = None\<rparr>"

definition demo_tick :: "int \<Rightarrow> proxy_tick" where
  "demo_tick t = \<lparr>tk_now = t, tk_instant = t, tk_salt = ''xyz''\<rparr>"


section \<open>Which requests share an entry\<close>

lemma append_first_sep:
  "d \<notin> set xs \<Longrightarrow> d \<notin> set ys \<Longrightarrow> s = [] \<or> hd s = d \<Longrightarrow> t = [] \<or> hd t = d \<Longrightarrow>
   xs @ s = ys @ t \<Longrightarrow> xs = ys \<and> s = t"
proof (induction xs arbitrary: ys)
  case Nil
  then show ?case by (cases ys) auto
next
  case (Cons x xs)
  then show ?case by (cases ys) auto
qed

abbreviation key_part :: "string \<times> string \<Rightarrow> string" where
  "key_part p \<equiv> ''|'' @ fst p @ ''='' @ snd p"

definition plain_param :: "string \<times> string \<Rightarrow> bool" where
  "plain_param p \<longleftrightarrow> CHR ''|'' \<notin> set (fst p) \<and> CHR ''='' \<notin> set (fst p) \<and> CHR ''|'' \<notin> set (snd p)"

lemma key_parts_hd: "concat (map key_part ps) = [] \<or> hd (concat (map key_part ps)) = CHR ''|''"
  by (cases ps) auto

lemma key_parts_inj:
  "\<forall>p \<in> set ps. plain_param p \<Longrightarrow> \<forall>p \<in> set qs. plain_param p \<Longrightarrow>
   concat (map key_part ps) = concat (map key_part qs) \<Longrightarrow> ps = qs"
proof (induction ps arbitrary: qs)
  case Nil
  then show ?case by (cases qs) auto
next
  case (Cons p ps)
  then obtain q qs' where q: "qs = q # qs'" by (cases qs) auto
  have eq: "(fst p @ ''='' @ snd p) @ concat (map key_part ps) = (fst q @ ''='' @ snd q) @ concat (map key_part qs')"
    using Cons.prems(3) by (simp add: q)
  have plain: "plain_param p" "plain_param q" using Cons.prems(1,2) by (simp_all add: q)
  from append_first_sep [OF _ _ key_parts_hd key_parts_hd eq] plain
  have parts: "fst p @ ''='' @ snd p = fst q @ ''='' @ snd q" "concat (map key_part ps) = concat (map key_part qs')"
    by (auto simp: plain_param_def)
  have "fst p = fst q \<and> ''='' @ snd p = ''='' @ snd q"
    by (rule append_first_sep [OF _ _ _ _ parts(1), of "CHR ''=''"]) (use plain in \<open>auto simp: plain_param_def\<close>)
  then have "p = q" by (auto simp: prod_eq_iff)
  moreover have "ps = qs'" using Cons.IH [OF _ _ parts(2)] Cons.prems(1,2) by (simp add: q)
  ultimately show ?case by (simp add: q)
qed

lemma pair_key_inj: "inj_on pair_key A"
  by (rule inj_onI) (auto simp: pair_key_def byte_list_inj prod_eq_iff)

lemma sort_pairs_eq: "sort_key pair_key ps = sort_key pair_key qs \<longleftrightarrow> mset ps = mset qs"
proof
  assume "sort_key pair_key ps = sort_key pair_key qs"
  then show "mset ps = mset qs" by (metis mset_sort)
next
  assume eq: "mset ps = mset qs"
  have "sort_key pair_key ps = sort_key pair_key qs"
    by (rule sort_key_inj_key_eq [OF _ pair_key_inj]) (simp_all add: eq)
  then show "sort_key pair_key ps = sort_key pair_key qs" .
qed

lemma cache_key_parts: "cache_key env m q = m @ concat (map key_part (sort_key pair_key (key_params env q)))"
  by (simp add: cache_key_def split_def)



section \<open>Browsing through the cache\<close>

lemma browse_method_ok:
  "m \<in> set BROWSE_METHODS \<Longrightarrow> m \<noteq> [] \<and> \<not> is_subsonic_write_method m \<and> is_valid_subsonic_method m"
proof -
  have "\<forall>m \<in> set BROWSE_METHODS. m \<noteq> [] \<and> \<not> is_subsonic_write_method m \<and> is_valid_subsonic_method m" by code_simp
  then show "m \<in> set BROWSE_METHODS \<Longrightarrow> ?thesis" by blast
qed

text \<open>A request for a cacheable browse method.\<close>

definition browse_request :: "proxy_env \<Rightarrow> string \<Rightarrow> string \<Rightarrow> rest_request \<Rightarrow> bool" where
  "browse_request env m q rq \<longleftrightarrow>
     m \<in> set BROWSE_METHODS \<and> is_cacheable env m q \<and> rq_path rq = ''/rest/'' @ m
     \<and> (case rq_query rq of Some x \<Rightarrow> x | None \<Rightarrow> []) = q"

lemma browse_request_inner:
  assumes "browse_request env m q rq"
  shows "proxy_inner env tk net rq st = browse_proxy env tk net m q (Option.bind (rq_if_none_match rq) header_to_str) st"
proof -
  have "strip_prefix ''/rest/'' (rq_path rq) = Some m" using assms by (simp add: browse_request_def)
  from proxy_method [OF this] browse_method_ok [of m] assms show ?thesis
    by (simp add: browse_request_def)
qed

lemma cached_write:
  "cache_get k (cache_entries (run_task env tk net (Write_entry k body ttl) st)) =
     Some \<lparr>en_key = k, en_etag = etag_for (px_sha256 env) body, en_body = body,
        en_fetched_at = secs_i64_to_u64 (systemtime_to_secs_i64 (tk_now tk)) * 1000,
        en_ttl = secs_i64_to_u64 (duration_to_secs_i64 ttl) * 1000\<rparr>"
  by (simp add: cache_put_def cache_get_put)

lemma browse_fetch_success:
  assumes "browse_proxy env tk net m q inm st = (r, st', Some u)" "net u = Reply status h (Some body)" "is_success status"
  shows "st' = st\<lparr>bg_tasks := bg_tasks st @ [Write_entry (cache_key env m q) body (ttl_seconds_for env m * 1000)]\<rparr>"
    "r = Inr (serve_from_cache env \<lparr>en_key = cache_key env m q, en_etag = etag_for (px_sha256 env) body, en_body = body,
       en_fetched_at = tk_now tk, en_ttl = ttl_seconds_for env m * 1000\<rparr>)"
  using assms by (auto simp: browse_proxy_def Let_def split: option.splits if_splits sum.splits upstream_reply.splits)

lemma browse_hit:
  assumes "cache_get (cache_key env m q) (cache_entries st) = Some e" "is_fresh (tk_now tk) e"
  shows "browse_proxy env tk net m q inm st =
    (Inr (if inm = Some (en_etag e) then not_modified env (en_etag e) else serve_from_cache env e), st, None)"
  using assms by (simp add: browse_proxy_def)

lemma serve_same_entry:
  "en_etag e = en_etag f \<Longrightarrow> en_body e = en_body f \<Longrightarrow> serve_from_cache env e = serve_from_cache env f"
  by (simp add: serve_from_cache_def)

lemma browse_reuse:
  assumes "browse_request env m q1 rq1" "browse_request env m q2 rq2" "cache_key env m q1 = cache_key env m q2"
    "proxy env tk1 net1 rq1 st = (rs1, st1, Some u)" "net1 u = Reply status h (Some body)" "is_success status"
    "0 \<le> ttl_seconds_for env m" "ttl_seconds_for env m \<le> i64_max" "0 \<le> tk_now tk2" "tk_now tk2 \<le> i64_max"
    "tk_now tk3 < tk_now tk2 div 1000 * 1000 + ttl_seconds_for env m * 1000"
  shows "rs_status rs1 = 200 \<and> rs_body rs1 = body
    \<and> proxy env tk3 net3 rq2 (proxy_step env (tk2, net2, Run (length (bg_tasks st))) st1) =
        (if Option.bind (rq_if_none_match rq2) header_to_str = Some (etag_for (px_sha256 env) body)
         then not_modified env (etag_for (px_sha256 env) body) else rs1,
         proxy_step env (tk2, net2, Run (length (bg_tasks st))) st1, None)"
proof -
  let ?key = "cache_key env m q1"
  let ?ttl = "ttl_seconds_for env m * 1000"
  obtain r where r: "browse_proxy env tk1 net1 m q1 (Option.bind (rq_if_none_match rq1) header_to_str) st = (r, st1, Some u)"
    using assms(4) browse_request_inner [OF assms(1)] by (auto simp: proxy_def split: prod.splits sum.splits)
  note done1 = browse_fetch_success [OF r assms(5,6)]
  have rs1: "rs1 = serve_from_cache env \<lparr>en_key = ?key, en_etag = etag_for (px_sha256 env) body, en_body = body,
      en_fetched_at = tk_now tk1, en_ttl = ?ttl\<rparr>"
    using assms(4) r done1(2) browse_request_inner [OF assms(1)] by (simp add: proxy_def)
  have tasks: "bg_tasks st1 ! length (bg_tasks st) = Write_entry ?key body ?ttl" "length (bg_tasks st) < length (bg_tasks st1)"
    by (simp_all add: done1(1))
  let ?st2 = "proxy_step env (tk2, net2, Run (length (bg_tasks st))) st1"
  let ?e = "\<lparr>en_key = ?key, en_etag = etag_for (px_sha256 env) body, en_body = body,
      en_fetched_at = secs_i64_to_u64 (systemtime_to_secs_i64 (tk_now tk2)) * 1000,
      en_ttl = secs_i64_to_u64 (duration_to_secs_i64 ?ttl) * 1000\<rparr>"
  have get: "cache_get (cache_key env m q2) (cache_entries ?st2) = Some ?e"
    using tasks by (simp add: cached_write flip: assms(3) del: run_task.simps)
  have "tk_now tk2 div 1000 \<le> i64_max" using assms(9,10) by (simp add: i64_max_def)
  then have "en_fetched_at ?e = tk_now tk2 div 1000 * 1000" "en_ttl ?e = ?ttl"
    using assms(7-9) by (simp_all add: systemtime_to_secs_i64_def secs_i64_to_u64_def duration_to_secs_i64_def)
  then have "is_fresh (tk_now tk3) ?e" using assms(11) by (simp add: is_fresh_def)
  from browse_hit [OF get this] browse_request_inner [OF assms(2)]
  have "proxy env tk3 net3 rq2 ?st2 =
      (if Option.bind (rq_if_none_match rq2) header_to_str = Some (etag_for (px_sha256 env) body)
       then not_modified env (etag_for (px_sha256 env) body) else serve_from_cache env ?e, ?st2, None)"
    by (simp add: proxy_def)
  moreover have "serve_from_cache env ?e = rs1" by (simp add: rs1 serve_from_cache_def)
  ultimately show ?thesis by (simp add: rs1 serve_from_cache_def plain_response_def)
qed

text \<open>
  A browse answer is reused. After the upstream answered a cacheable browse request with a success and
  the spawned write has run, every request with the same key is answered from the cache, without
  contacting the upstream, with the same response (or 304 when it names the etag), until the time
  to live has passed since the second of the write.
\<close>

theorem browse_answer_is_reused:
  assumes "browse_request env m q1 rq1" "browse_request env m q2 rq2" "cache_key env m q1 = cache_key env m q2"
    "proxy env tk1 net1 rq1 st = (rs1, st1, Some u)" "net1 u = Reply status h (Some body)" "is_success status"
    "0 \<le> ttl_seconds_for env m" "ttl_seconds_for env m \<le> i64_max" "0 \<le> tk_now tk2" "tk_now tk2 \<le> i64_max"
    "tk_now tk3 < tk_now tk2 div 1000 * 1000 + ttl_seconds_for env m * 1000"
  shows "rs_status rs1 = 200 \<and> rs_body rs1 = body
    \<and> proxy env tk3 net3 rq2 (proxy_step env (tk2, net2, Run (length (bg_tasks st))) st1) =
        (if Option.bind (rq_if_none_match rq2) header_to_str = Some (etag_for (px_sha256 env) body)
         then not_modified env (etag_for (px_sha256 env) body) else rs1,
         proxy_step env (tk2, net2, Run (length (bg_tasks st))) st1, None)"
  by (rule browse_reuse [OF assms])

theorem browse_answer_is_reused_witness:
  "proxy demo_proxy_env (demo_tick 9000) (\<lambda>_. Unreachable) (demo_request ''getAlbum'' ''id=1&u=x'')
     (proxy_step demo_proxy_env (demo_tick 100, \<lambda>_. Unreachable, Run 0)
        (fst (snd (proxy demo_proxy_env (demo_tick 0) (\<lambda>_. Reply 200 \<lparr>uh_content_type = None, uh_accept_ranges = None,
           uh_content_range = None, uh_content_length = None\<rparr> (Some ''{}'')) (demo_request ''getAlbum'' ''id=1'') proxy_init))))
   = (fst (proxy demo_proxy_env (demo_tick 0) (\<lambda>_. Reply 200 \<lparr>uh_content_type = None, uh_accept_ranges = None,
           uh_content_range = None, uh_content_length = None\<rparr> (Some ''{}'')) (demo_request ''getAlbum'' ''id=1'') proxy_init),
      proxy_step demo_proxy_env (demo_tick 100, \<lambda>_. Unreachable, Run 0)
        (fst (snd (proxy demo_proxy_env (demo_tick 0) (\<lambda>_. Reply 200 \<lparr>uh_content_type = None, uh_accept_ranges = None,
           uh_content_range = None, uh_content_length = None\<rparr> (Some ''{}'')) (demo_request ''getAlbum'' ''id=1'') proxy_init))), None)"
proof -
  let ?h = "\<lparr>uh_content_type = None, uh_accept_ranges = None, uh_content_range = None, uh_content_length = None\<rparr>"
  let ?net = "\<lambda>_. Reply 200 ?h (Some ''{}'')"
  let ?r = "proxy demo_proxy_env (demo_tick 0) ?net (demo_request ''getAlbum'' ''id=1'') proxy_init"
  have b: "browse_request demo_proxy_env ''getAlbum'' ''id=1'' (demo_request ''getAlbum'' ''id=1'')"
    "browse_request demo_proxy_env ''getAlbum'' ''id=1&u=x'' (demo_request ''getAlbum'' ''id=1&u=x'')" by code_simp+
  have k: "cache_key demo_proxy_env ''getAlbum'' ''id=1'' = cache_key demo_proxy_env ''getAlbum'' ''id=1&u=x''" by code_simp
  have "map_option ur_path (snd (snd ?r)) = Some ''rest/getAlbum''" by code_simp
  then obtain u where "snd (snd ?r) = Some u" by auto
  then have r: "?r = (fst ?r, fst (snd ?r), Some u)" by (metis prod.collapse)
  have ttl: "ttl_seconds_for demo_proxy_env ''getAlbum'' = 3600" by code_simp
  have tasks: "length (bg_tasks proxy_init) = 0" by (simp add: proxy_init_def)
  have inm: "Option.bind (rq_if_none_match (demo_request ''getAlbum'' ''id=1&u=x'')) header_to_str = None"
    by (simp add: demo_request_def)
  have "?net u = Reply 200 ?h (Some ''{}'')" "is_success 200" by (simp_all add: is_success_def)
  from browse_answer_is_reused [OF b k r this, of "demo_tick 100" "demo_tick 9000" "\<lambda>_. Unreachable" "\<lambda>_. Unreachable"]
  show ?thesis
    by (simp only: tasks inm) (simp add: ttl demo_tick_def i64_max_def)
qed

text \<open>
  An error of the Subsonic server is cached as an answer. When the server answers a browse request
  with its error envelope (status 200, \<open>"status":"failed"\<close>), the envelope is stored like any success, and
  every request with the same key gets it until the time to live has passed, whatever the server
  would answer by then. On the cover-art path the same answer is recognised and not stored.
\<close>

theorem browse_caches_error_envelopes:
  assumes "browse_request env m q1 rq1" "browse_request env m q2 rq2" "cache_key env m q1 = cache_key env m q2"
    "proxy env tk1 net1 rq1 st = (rs1, st1, Some u)" "net1 u = Reply 200 h (Some body)" "is_subsonic_json_error h body"
    "0 \<le> ttl_seconds_for env m" "ttl_seconds_for env m \<le> i64_max" "0 \<le> tk_now tk2" "tk_now tk2 \<le> i64_max"
    "tk_now tk3 < tk_now tk2 div 1000 * 1000 + ttl_seconds_for env m * 1000" "rq_if_none_match rq2 = None"
  shows "fst (proxy env tk3 net3 rq2 (proxy_step env (tk2, net2, Run (length (bg_tasks st))) st1)) = rs1
    \<and> rs_body rs1 = body
    \<and> (\<forall>key q s. cache_entries (fst (snd (cover_art_fetch env tk1 (\<lambda>_. Reply 200 h (Some body)) key q s))) = cache_entries s
        \<and> (\<forall>t \<in> set (bg_tasks (fst (snd (cover_art_fetch env tk1 (\<lambda>_. Reply 200 h (Some body)) key q s)))).
             t \<in> set (bg_tasks s) \<or> (\<exists>seed. t = Write_entry key (render_placeholder_svg env seed) COVER_ART_TTL)))"
proof -
  have "is_success 200" by (simp add: is_success_def)
  note reuse = browse_reuse [OF assms(1-5) this assms(7-11), of net3 net2]
  have "cache_entries (fst (snd (cover_art_fetch env tk1 (\<lambda>_. Reply 200 h (Some body)) key q s))) = cache_entries s
      \<and> (\<forall>t \<in> set (bg_tasks (fst (snd (cover_art_fetch env tk1 (\<lambda>_. Reply 200 h (Some body)) key q s)))).
           t \<in> set (bg_tasks s) \<or> (\<exists>seed. t = Write_entry key (render_placeholder_svg env seed) COVER_ART_TTL))" for key q s
    using assms(6)
    by (auto simp: cover_art_fetch_def Let_def is_success_def placeholder_answer_def write_and_serve_placeholder_def
        split: sum.split)
  with reuse assms(12) show ?thesis by simp
qed

text \<open>
  C34. Browsing survives an outage. When the cache has an entry for a browse request, fresh or long expired,
  and the upstream cannot be reached, breaks off or answers with a server error, the request is
  still answered with the cached body (or 304 while it is fresh), and nothing changes.
\<close>

theorem outage_serves_cached_body:
  assumes "browse_request env m q rq" "cache_get (cache_key env m q) (cache_entries st) = Some e" "px_url_ok env"
    "\<forall>u. net u = Unreachable \<or> (\<exists>status h b. net u = Reply status h b \<and> (b = None \<or> is_server_error status))"
  shows "\<exists>rs contact. proxy env tk net rq st = (rs, st, contact)
    \<and> (rs_status rs = 200 \<and> rs_body rs = en_body e
       \<or> is_fresh (tk_now tk) e \<and> rs = not_modified env (en_etag e) \<and> contact = None)"
proof (cases "is_fresh (tk_now tk) e")
  case True
  with browse_hit [OF assms(2)] browse_request_inner [OF assms(1)] show ?thesis
    by (auto simp: proxy_def serve_from_cache_def plain_response_def)
next
  case False
  have "is_valid_subsonic_method m" using browse_method_ok [of m] assms(1) by (simp add: browse_request_def)
  then obtain url where url: "build_upstream_url env m q (tk_salt tk) = Inr url"
    using assms(3) by (simp add: build_upstream_url_def)
  have stale: "serve_stale_or_bad_gateway env (Some e) =
      Inr ((serve_from_cache env e)\<lparr>rs_warning := Some ''110 - \"Response is Stale\"''\<rparr>)"
    by (simp add: serve_stale_or_bad_gateway_def)
  have "browse_proxy env tk net m q (Option.bind (rq_if_none_match rq) header_to_str) st =
      (serve_stale_or_bad_gateway env (Some e), st, Some url)"
    using assms(2) False url spec [OF assms(4), of url]
    by (auto simp: browse_proxy_def Let_def is_success_def is_server_error_def split: option.split)
  with browse_request_inner [OF assms(1)] show ?thesis
    by (simp add: proxy_def stale serve_from_cache_def plain_response_def)
qed

section \<open>How often a placeholder is looked up again\<close>

fun is_revalidation :: "string \<Rightarrow> bg_task \<Rightarrow> bool" where
  "is_revalidation key (Revalidate k q) = (k = key)"
| "is_revalidation key _ = False"

definition pending_revalidations :: "string \<Rightarrow> proxy_state \<Rightarrow> nat" where
  "pending_revalidations key st = length (filter (is_revalidation key) (bg_tasks st))"

text \<open>The instants at which a run spawns a revalidation of a key.\<close>

fun spawn_instants :: "proxy_env \<Rightarrow> string \<Rightarrow> proxy_occurrence list \<Rightarrow> proxy_state \<Rightarrow> int list" where
  "spawn_instants env key [] st = []"
| "spawn_instants env key (e # es) st =
     (if pending_revalidations key st < pending_revalidations key (proxy_step env e st) then [tk_instant (fst e)] else [])
     @ spawn_instants env key es (proxy_step env e st)"

definition last_revalidation :: "string \<Rightarrow> proxy_state \<Rightarrow> int option" where
  "last_revalidation key st = map_of (placeholder_revalidations st) key"

text \<open>A step spawns none and keeps the recorded instant, or spawns one after the cooldown and records it.\<close>

definition revalidation_move :: "string \<Rightarrow> int \<Rightarrow> proxy_state \<Rightarrow> proxy_state \<Rightarrow> bool" where
  "revalidation_move key now st st' \<longleftrightarrow>
     (pending_revalidations key st' \<le> pending_revalidations key st \<and> last_revalidation key st' = last_revalidation key st)
     \<or> (last_revalidation key st' = Some now
        \<and> (case last_revalidation key st of None \<Rightarrow> True
           | Some t \<Rightarrow> PLACEHOLDER_REVALIDATION_COOLDOWN \<le> max 0 (now - t)))"

lemma pending_simps [simp]:
  "pending_revalidations key (st\<lparr>cache_entries := t\<rparr>) = pending_revalidations key st"
  "pending_revalidations key (st\<lparr>placeholder_etags := p\<rparr>) = pending_revalidations key st"
  "pending_revalidations key (st\<lparr>bg_tasks := bg_tasks st @ [Write_entry k b d]\<rparr>) = pending_revalidations key st"
  "pending_revalidations key (st\<lparr>placeholder_etags := p, bg_tasks := bg_tasks st @ [Sweep x]\<rparr>) = pending_revalidations key st"
  "last_revalidation key (st\<lparr>cache_entries := t\<rparr>) = last_revalidation key st"
  "last_revalidation key (st\<lparr>placeholder_etags := p\<rparr>) = last_revalidation key st"
  "last_revalidation key (st\<lparr>bg_tasks := b'\<rparr>) = last_revalidation key st"
  by (simp_all add: pending_revalidations_def last_revalidation_def)

lemma move_refl [simp]: "revalidation_move key now st st"
  by (simp add: revalidation_move_def)

lemma map_of_filter_other: "k \<noteq> j \<Longrightarrow> map_of (filter (\<lambda>e. fst e \<noteq> j) m) k = map_of m k"
  by (induction m) auto

lemma move_spawn: "revalidation_move key now st (maybe_spawn_revalidation now k q st)"
proof (cases "k = key")
  case True
  then show ?thesis
    by (auto simp: maybe_spawn_revalidation_def revalidation_move_def last_revalidation_def put_instant_def
        split: option.split)
next
  case False
  then show ?thesis
    by (auto simp: maybe_spawn_revalidation_def revalidation_move_def last_revalidation_def put_instant_def
        pending_revalidations_def map_of_filter_other split: option.split)
qed

lemma move_placeholder:
  "revalidation_move key now st s \<Longrightarrow> revalidation_move key now st (fst (snd (placeholder_answer env tk k seed s contact)))"
  by (auto simp: placeholder_answer_def write_and_serve_placeholder_def Let_def revalidation_move_def)

lemma classify_state:
  "pending_revalidations key (snd (classify_as_placeholder etag cid st)) = pending_revalidations key st
   \<and> last_revalidation key (snd (classify_as_placeholder etag cid st)) = last_revalidation key st"
  by (simp add: classify_as_placeholder_def)

lemma move_after:
  "pending_revalidations key s = pending_revalidations key st \<Longrightarrow> last_revalidation key s = last_revalidation key st \<Longrightarrow>
   revalidation_move key now s s' \<Longrightarrow> revalidation_move key now st s'"
  by (simp add: revalidation_move_def)

lemma move_hit:
  "revalidation_move key (tk_instant tk) st (fst (snd (cover_art_hit env tk k q inm entry st)))"
proof -
  obtain b s where c: "classify_as_placeholder (en_etag entry) (case parse_cover_art_id env q of Some i \<Rightarrow> i | None \<Rightarrow> []) st = (b, s)"
    by force
  then have same: "pending_revalidations key s = pending_revalidations key st" "last_revalidation key s = last_revalidation key st"
    using classify_state [of key "en_etag entry" "case parse_cover_art_id env q of Some i \<Rightarrow> i | None \<Rightarrow> []" st] by simp_all
  have moved: "revalidation_move key (tk_instant tk) st s" using same by (simp add: revalidation_move_def)
  have spawn: "revalidation_move key (tk_instant tk) st (maybe_spawn_revalidation (tk_instant tk) k q s)"
    by (rule move_after [OF same move_spawn])
  show ?thesis
    using moved move_placeholder [OF spawn] move_placeholder [OF move_spawn]
    by (simp add: cover_art_hit_def Let_def c split: bool.split)
qed

lemma move_fetch:
  "revalidation_move key (tk_instant tk) st (fst (snd (cover_art_fetch env tk net k q st)))"
proof -
  have stored: "revalidation_move key (tk_instant tk) st
      (snd (classify_as_placeholder etag cid (st\<lparr>cache_entries := t\<rparr>)))" for etag cid t
    using classify_state [of key etag cid "st\<lparr>cache_entries := t\<rparr>"] by (simp add: revalidation_move_def)
  have answered: "revalidation_move key (tk_instant tk) st (fst (snd (placeholder_answer env tk k seed st contact)))"
    for seed contact by (rule move_placeholder [OF move_refl])
  have answered': "revalidation_move key (tk_instant tk) st (fst (snd (placeholder_answer env tk k seed s contact)))"
    if "classify_as_placeholder etag cid (st\<lparr>cache_entries := t\<rparr>) = (b, s)" for seed contact etag cid t b s
    using move_placeholder [of key "tk_instant tk" st s] stored [of etag cid t] that by simp
  have plain: "revalidation_move key (tk_instant tk) st s"
    if "classify_as_placeholder etag cid (st\<lparr>cache_entries := t\<rparr>) = (b, s)" for etag cid t b s
    using stored [of etag cid t] that by simp
  show ?thesis
    by (auto simp: cover_art_fetch_def Let_def intro: answered answered' plain
        split: sum.split upstream_reply.split option.split prod.split bool.split)
qed

lemma move_proxy: "revalidation_move key (tk_instant tk) st (fst (snd (proxy env tk net rq st)))"
proof -
  have "revalidation_move key (tk_instant tk) st (fst (snd (browse_proxy env tk net m q inm st)))" for m q inm
    by (auto simp: browse_proxy_def Let_def revalidation_move_def
        split: option.split sum.split upstream_reply.split)
  moreover have "fst (snd (pass_through env tk net m q rng st)) = st" for m q rng
    by (simp add: pass_through_def Let_def split: sum.split upstream_reply.split)
  moreover have "revalidation_move key (tk_instant tk) st (fst (snd (cover_art_proxy env tk net q inm st)))" for q inm
    by (simp add: cover_art_proxy_def Let_def move_hit move_fetch split: option.split)
  ultimately have "revalidation_move key (tk_instant tk) st (fst (snd (proxy_inner env tk net rq st)))"
    by (simp add: proxy_inner_def Let_def split: option.split)
  then show ?thesis by (simp add: proxy_parts)
qed

lemma pending_remove: "pending_revalidations key (st\<lparr>bg_tasks := remove_at i (bg_tasks st)\<rparr>) \<le> pending_revalidations key st"
proof -
  have "length (filter P (remove_at i xs)) \<le> length (filter P xs)" for P and xs :: "bg_task list"
  proof -
    have "filter P (remove_at i xs) = filter P (take i xs) @ filter P (drop (Suc i) xs)" by (simp add: remove_at_def)
    moreover have "length (filter P xs) = length (filter P (take i xs)) + length (filter P (drop i xs))"
      by (metis append_take_drop_id filter_append length_append)
    moreover have "length (filter P (drop (Suc i) xs)) \<le> length (filter P (drop i xs))"
      by (cases "drop i xs") (simp_all add: drop_Suc flip: tl_drop)
    ultimately show ?thesis by simp
  qed
  then show ?thesis by (simp add: pending_revalidations_def)
qed

lemma run_task_reval:
  "bg_tasks (run_task env tk net t st) = bg_tasks st
   \<and> placeholder_revalidations (run_task env tk net t st) = placeholder_revalidations st"
  by (cases t) (auto simp: revalidate_placeholder_def Let_def split: sum.split upstream_reply.split option.split)

lemma move_step: "revalidation_move key (tk_instant (fst e)) st (proxy_step env e st)"
proof -
  obtain tk net ev where e: "e = (tk, net, ev)" by (cases e) auto
  show ?thesis
  proof (cases ev)
    case (Run i)
    have "pending_revalidations key (run_task env tk net t s) = pending_revalidations key s"
      "last_revalidation key (run_task env tk net t s) = last_revalidation key s" for t s
      using run_task_reval [of env tk net t s] by (simp_all add: pending_revalidations_def last_revalidation_def)
    then show ?thesis using pending_remove [of key i st]
      by (simp add: e Run revalidation_move_def)
  next
    case Invalidate_covers
    have "pending_revalidations key (st\<lparr>placeholder_etags := p, cache_entries := t\<rparr>) = pending_revalidations key st"
      "last_revalidation key (st\<lparr>placeholder_etags := p, cache_entries := t\<rparr>) = last_revalidation key st" for p t
      by (simp_all add: pending_revalidations_def last_revalidation_def)
    then show ?thesis by (simp add: e Invalidate_covers revalidation_move_def)
  qed (simp_all add: e move_proxy revalidation_move_def [of _ _ st "st\<lparr>cache_entries := _\<rparr>"])
qed

text \<open>While the clock does not go back, the instants of a run are apart, and after the recorded one.\<close>

lemma spawn_instants_apart:
  "sorted_wrt (\<lambda>e f. tk_instant (fst e) \<le> tk_instant (fst f)) es \<Longrightarrow>
   (case last_revalidation key st of None \<Rightarrow> True | Some t \<Rightarrow> \<forall>e \<in> set es. t \<le> tk_instant (fst e)) \<Longrightarrow>
   sorted_wrt (\<lambda>a b. a + PLACEHOLDER_REVALIDATION_COOLDOWN \<le> b) (spawn_instants env key es st)
   \<and> (case last_revalidation key st of None \<Rightarrow> True
      | Some t \<Rightarrow> \<forall>b \<in> set (spawn_instants env key es st). t + PLACEHOLDER_REVALIDATION_COOLDOWN \<le> b)"
proof (induction es arbitrary: st)
  case Nil
  then show ?case by (simp split: option.split)
next
  case (Cons e es)
  let ?st = "proxy_step env e st"
  let ?now = "tk_instant (fst e)"
  have later: "sorted_wrt (\<lambda>e f. tk_instant (fst e) \<le> tk_instant (fst f)) es" "\<forall>f \<in> set es. ?now \<le> tk_instant (fst f)"
    using Cons.prems(1) by simp_all
  have move: "revalidation_move key ?now st ?st" by (rule move_step)
  show ?case
  proof (cases "pending_revalidations key st < pending_revalidations key ?st")
    case True
    with move have new: "last_revalidation key ?st = Some ?now"
      "case last_revalidation key st of None \<Rightarrow> True | Some t \<Rightarrow> PLACEHOLDER_REVALIDATION_COOLDOWN \<le> max 0 (?now - t)"
      by (auto simp: revalidation_move_def)
    have IH: "sorted_wrt (\<lambda>a b. a + PLACEHOLDER_REVALIDATION_COOLDOWN \<le> b) (spawn_instants env key es ?st)"
      "\<forall>b \<in> set (spawn_instants env key es ?st). ?now + PLACEHOLDER_REVALIDATION_COOLDOWN \<le> b"
      using Cons.IH [OF later(1), of ?st] later(2) new(1) by simp_all
    have "0 < PLACEHOLDER_REVALIDATION_COOLDOWN" by (simp add: PLACEHOLDER_REVALIDATION_COOLDOWN_def)
    with True IH new(2) show ?thesis by (fastforce split: option.splits)
  next
    case False
    show ?thesis
    proof (cases "last_revalidation key ?st = last_revalidation key st")
      case True
      have "case last_revalidation key ?st of None \<Rightarrow> True | Some t \<Rightarrow> \<forall>e \<in> set es. t \<le> tk_instant (fst e)"
        using Cons.prems(2) True by (simp split: option.splits)
      from Cons.IH [OF later(1) this] False True show ?thesis by (simp split: option.splits)
    next
      case moved: False
      with move have new: "last_revalidation key ?st = Some ?now"
        "case last_revalidation key st of None \<Rightarrow> True | Some t \<Rightarrow> PLACEHOLDER_REVALIDATION_COOLDOWN \<le> max 0 (?now - t)"
        by (auto simp: revalidation_move_def)
      have IH: "sorted_wrt (\<lambda>a b. a + PLACEHOLDER_REVALIDATION_COOLDOWN \<le> b) (spawn_instants env key es ?st)"
        "\<forall>b \<in> set (spawn_instants env key es ?st). ?now + PLACEHOLDER_REVALIDATION_COOLDOWN \<le> b"
        using Cons.IH [OF later(1), of ?st] later(2) new(1) by simp_all
      have "0 < PLACEHOLDER_REVALIDATION_COOLDOWN" by (simp add: PLACEHOLDER_REVALIDATION_COOLDOWN_def)
      with False IH new(2) show ?thesis by (fastforce split: option.splits)
    qed
  qed
qed

text \<open>
  C36. At most one revalidation per quarter of an hour. In every run of requests, background tasks and
  invalidations, with the monotonic clock not going back, two re-fetches of the same cover key are
  spawned at least fifteen minutes apart, however many requests hit its placeholder.
\<close>

theorem revalidations_are_spaced:
  assumes "sorted_wrt (\<lambda>e f. tk_instant (fst e) \<le> tk_instant (fst f)) es"
  shows "sorted_wrt (\<lambda>a b. a + 15 * 60 * 1000 \<le> b) (spawn_instants env key es proxy_init)"
  using spawn_instants_apart [OF assms, of key proxy_init env]
  by (simp add: last_revalidation_def proxy_init_def PLACEHOLDER_REVALIDATION_COOLDOWN_def)

definition no_headers :: up_headers where
  "no_headers = \<lparr>uh_content_type = None, uh_accept_ranges = None, uh_content_range = None, uh_content_length = None\<rparr>"

definition demo_cover_run :: "proxy_occurrence list" where
  "demo_cover_run =
     (let ask = (\<lambda>t. (demo_tick t, \<lambda>_. Reply 404 no_headers (Some []), Request (demo_request ''getCoverArt'' ''id=al-1'')))
      in [ask 0, (demo_tick 1, \<lambda>_. Unreachable, Run 0), ask 2, ask 3, ask 900002])"

theorem revalidations_are_spaced_witness:
  "sorted_wrt (\<lambda>a b. a + 15 * 60 * 1000 \<le> b)
     (spawn_instants demo_proxy_env ''getCoverArt|id=al-1|size='' demo_cover_run proxy_init)"
proof -
  have "sorted_wrt (\<lambda>e f. tk_instant (fst e) \<le> tk_instant (fst f)) demo_cover_run"
    by (simp add: demo_cover_run_def Let_def demo_tick_def)
  from revalidations_are_spaced [OF this] show ?thesis .
qed

text \<open>The server answers with its error envelope first.\<close>

definition envelope :: string where
  "envelope = ''{\"subsonic-response\":{\"status\":\"failed\"}}''"

definition json_headers :: up_headers where
  "json_headers = no_headers\<lparr>uh_content_type := Some ''application/json''\<rparr>"

definition asked :: "http_response proxied" where
  "asked = proxy demo_proxy_env (demo_tick 0) (\<lambda>_. Reply 200 json_headers (Some envelope))
     (demo_request ''getAlbum'' ''id=1'') proxy_init"

lemma asked_contact: "\<exists>u. asked = (fst asked, fst (snd asked), Some u)"
proof -
  have "map_option ur_path (snd (snd asked)) = Some ''rest/getAlbum''" by code_simp
  then obtain u where "snd (snd asked) = Some u" by auto
  then show ?thesis by (metis prod.collapse)
qed

lemma demo_browse: "browse_request demo_proxy_env ''getAlbum'' ''id=1'' (demo_request ''getAlbum'' ''id=1'')"
  by code_simp

theorem browse_caches_error_envelopes_witness:
  "rs_body (fst (proxy demo_proxy_env (demo_tick 9000) (\<lambda>_. Reply 200 json_headers (Some ''{}''))
      (demo_request ''getAlbum'' ''id=1'')
      (proxy_step demo_proxy_env (demo_tick 100, \<lambda>_. Unreachable, Run 0) (fst (snd asked))))) = envelope"
proof -
  obtain u where r: "asked = (fst asked, fst (snd asked), Some u)" using asked_contact by blast
  have ttl: "ttl_seconds_for demo_proxy_env ''getAlbum'' = 3600" by code_simp
  have env: "is_subsonic_json_error json_headers envelope" by code_simp
  have tasks: "length (bg_tasks proxy_init) = 0" by (simp add: proxy_init_def)
  have inm: "rq_if_none_match (demo_request ''getAlbum'' ''id=1'') = None" by (simp add: demo_request_def)
  from browse_caches_error_envelopes [OF demo_browse demo_browse refl r [unfolded asked_def [of]] refl env, of "demo_tick 100" "demo_tick 9000"
      "\<lambda>_. Reply 200 json_headers (Some ''{}'')" "\<lambda>_. Unreachable"] inm
  show ?thesis by (simp only: tasks) (simp add: ttl demo_tick_def i64_max_def asked_def)
qed

theorem outage_serves_cached_body_witness:
  "\<exists>rs contact. proxy demo_proxy_env (demo_tick 9000000) (\<lambda>_. Unreachable) (demo_request ''getAlbum'' ''id=1'')
      (run_task demo_proxy_env (demo_tick 0) (\<lambda>_. Unreachable) (Write_entry ''getAlbum|id=1'' ''{}'' 60000) proxy_init)
    = (rs, run_task demo_proxy_env (demo_tick 0) (\<lambda>_. Unreachable) (Write_entry ''getAlbum|id=1'' ''{}'' 60000) proxy_init, contact)
    \<and> rs_status rs = 200 \<and> rs_body rs = ''{}''"
proof -
  let ?st = "run_task demo_proxy_env (demo_tick 0) (\<lambda>_. Unreachable) (Write_entry ''getAlbum|id=1'' ''{}'' 60000) proxy_init"
  have key: "cache_key demo_proxy_env ''getAlbum'' ''id=1'' = ''getAlbum|id=1''" by code_simp
  have "map_option en_body (cache_get ''getAlbum|id=1'' (cache_entries ?st)) = Some ''{}''"
    "map_option (is_fresh (tk_now (demo_tick 9000000))) (cache_get ''getAlbum|id=1'' (cache_entries ?st)) = Some False"
    by code_simp+
  then obtain e where e: "cache_get (cache_key demo_proxy_env ''getAlbum'' ''id=1'') (cache_entries ?st) = Some e"
    "en_body e = ''{}''" "\<not> is_fresh (tk_now (demo_tick 9000000)) e" by (auto simp: key)
  have ok: "px_url_ok demo_proxy_env" by (simp add: demo_proxy_env_def)
  from outage_serves_cached_body [OF demo_browse e(1) ok, of "\<lambda>_. Unreachable" "demo_tick 9000000"] e(2,3)
  show ?thesis by auto
qed

end
