(* ===== verification/Ratings.thy ===== *)
theory Ratings
  imports Principal Keyed_Store Binary_Float
begin

text \<open>
  Likes and dislikes: \<open>RatingStore\<close> (\<open>music-recommend/src/rating.rs\<close>) over the table
  \<open>entity_rating\<close>, and the endpoints of \<open>music-gateway/src/library_rating.rs\<close>.

  The table is the list of its rows; its primary key is \<open>(user_id, kind, entity_id)\<close> and its
  columns hold the on-disk strings and integers, with the \<open>CHECK\<close> constraints of the migration as
  \<open>rating_row_ok\<close>. Where \<open>ORDER BY updated_ms DESC\<close> ties, rows come in the order of the table. A
  statement that fails (\<open>db = False\<close>) leaves the table as it was.

  The store is an instance of \<open>keyed_store\<close>.
\<close>

section \<open>Kinds and verdicts\<close>

datatype rated_kind = RK_Track | RK_Album | RK_Artist

fun kind_str :: "rated_kind \<Rightarrow> string" where
  "kind_str RK_Track = ''track''"
| "kind_str RK_Album = ''album''"
| "kind_str RK_Artist = ''artist''"

definition kind_parse :: "string \<Rightarrow> rated_kind option" where
  "kind_parse s =
     (if s = ''track'' then Some RK_Track
      else if s = ''album'' then Some RK_Album
      else if s = ''artist'' then Some RK_Artist
      else None)"

datatype rating = Like | Dislike

fun rating_i64 :: "rating \<Rightarrow> int" where
  "rating_i64 Like = 1"
| "rating_i64 Dislike = - 1"

definition rating_of_i64 :: "int \<Rightarrow> rating option" where
  "rating_of_i64 v = (if v = 1 then Some Like else if v = - 1 then Some Dislike else None)"

section \<open>The table\<close>

record rating_row =
  er_user_id :: int
  er_kind :: string
  er_entity_id :: string
  er_rating :: int
  er_updated_ms :: int

type_synonym rating_table = "rating_row list"

definition rating_key :: "rating_row \<Rightarrow> int \<times> string \<times> string" where
  "rating_key r = (er_user_id r, er_kind r, er_entity_id r)"

definition rating_row_ok :: "rating_row \<Rightarrow> bool" where
  "rating_row_ok r \<longleftrightarrow> er_kind r \<in> {''track'', ''album'', ''artist''} \<and> er_rating r \<in> {- 1, 1}"

definition rating_table_ok :: "rating_table \<Rightarrow> bool" where
  "rating_table_ok t \<longleftrightarrow> list_all rating_row_ok t \<and> distinct (map rating_key t)"

section \<open>The store (rating.rs)\<close>

definition rating_set :: "int \<Rightarrow> rated_kind \<Rightarrow> string \<Rightarrow> rating \<Rightarrow> int \<Rightarrow> rating_table \<Rightarrow> rating_table" where
  "rating_set u k e v now t =
     upsert_row rating_key
       \<lparr>er_user_id = u, er_kind = kind_str k, er_entity_id = e, er_rating = rating_i64 v,
        er_updated_ms = now\<rparr> t"

definition rating_clear :: "int \<Rightarrow> rated_kind \<Rightarrow> string \<Rightarrow> rating_table \<Rightarrow> rating_table" where
  "rating_clear u k e t = filter (\<lambda>r. rating_key r \<noteq> (u, kind_str k, e)) t"

definition rating_get :: "int \<Rightarrow> rated_kind \<Rightarrow> string \<Rightarrow> rating_table \<Rightarrow> rating option" where
  "rating_get u k e t =
     (case find (\<lambda>r. rating_key r = (u, kind_str k, e)) t of
        Some r \<Rightarrow> rating_of_i64 (er_rating r)
      | None \<Rightarrow> None)"

text \<open>A \<open>HashSet\<close> of ids.\<close>

definition disliked_ids :: "int \<Rightarrow> rated_kind \<Rightarrow> rating_table \<Rightarrow> string set" where
  "disliked_ids u k t =
     set (map er_entity_id
       (filter (\<lambda>r. er_user_id r = u \<and> er_kind r = kind_str k \<and> er_rating r = - 1) t))"

definition liked_ids :: "int \<Rightarrow> rated_kind \<Rightarrow> rating_table \<Rightarrow> string list" where
  "liked_ids u k t =
     map er_entity_id
       (sort_key (\<lambda>r. - er_updated_ms r)
         (filter (\<lambda>r. er_user_id r = u \<and> er_kind r = kind_str k \<and> er_rating r = 1) t))"

definition all_ratings :: "int \<Rightarrow> rating_table \<Rightarrow> (rated_kind \<times> string \<times> rating) list" where
  "all_ratings u t =
     List.map_filter
       (\<lambda>r. case kind_parse (er_kind r) of
              None \<Rightarrow> None
            | Some k \<Rightarrow> map_option (\<lambda>v. (k, er_entity_id r, v)) (rating_of_i64 (er_rating r)))
       (sort_key (\<lambda>r. - er_updated_ms r) (filter (\<lambda>r. er_user_id r = u) t))"

text \<open>The bonus of every liked track among the candidates; the \<open>IN (...)\<close> list has no order.\<close>

definition liked_bonus_many :: "int \<Rightarrow> track_id list \<Rightarrow> fp \<Rightarrow> rating_table \<Rightarrow> (track_id \<times> fp) list" where
  "liked_bonus_many u ids bonus t =
     map (\<lambda>r. (TrackId (er_entity_id r), bonus))
       (filter (\<lambda>r. er_user_id r = u \<and> er_kind r = ''track'' \<and> er_rating r = 1
                    \<and> TrackId (er_entity_id r) \<in> set ids) t)"

section \<open>The endpoints (library_rating.rs)\<close>

definition MAX_ENTITY_ID_LEN :: nat where
  "MAX_ENTITY_ID_LEN = 256"

record rating_request =
  rq_kind :: rated_kind
  rq_id :: string
  rq_rating :: "rating option"

text \<open>A body that lacks the kind is a track's; \<open>None\<close> is a rejected payload.\<close>

definition put_rating ::
  "principal \<Rightarrow> rating_request option \<Rightarrow> int \<Rightarrow> bool \<Rightarrow> rating_table
    \<Rightarrow> ((status \<times> string) + (rated_kind \<times> string \<times> rating option)) \<times> rating_table" where
  "put_rating p payload now db t =
     (if pr_role p = Guest then (Inl (S_FORBIDDEN, ''guests cannot rate''), t)
      else case payload of
        None \<Rightarrow> (Inl (S_BAD_REQUEST, ''invalid JSON body''), t)
      | Some rq \<Rightarrow>
          if rq_id rq = [] \<or> length (rq_id rq) > MAX_ENTITY_ID_LEN
          then (Inl (S_BAD_REQUEST, ''id length out of range''), t)
          else if \<not> db then (Inl (S_INTERNAL_SERVER_ERROR, ''rating store unavailable''), t)
          else (Inr (rq_kind rq, rq_id rq, rq_rating rq),
                case rq_rating rq of
                  Some v \<Rightarrow> rating_set (pr_user_id p) (rq_kind rq) (rq_id rq) v now t
                | None \<Rightarrow> rating_clear (pr_user_id p) (rq_kind rq) (rq_id rq) t))"

definition list_ratings ::
  "principal \<Rightarrow> bool \<Rightarrow> rating_table \<Rightarrow> (status \<times> string) + (rated_kind \<times> string \<times> rating) list" where
  "list_ratings p db t =
     (if db then Inr (all_ratings (pr_user_id p) t)
      else Inl (S_INTERNAL_SERVER_ERROR, ''rating store unavailable''))"

section \<open>Reading and writing\<close>

lemma kind_str_inj [simp]: "kind_str k = kind_str j \<longleftrightarrow> k = j"
  by (cases k; cases j) simp_all

lemma kind_parse_str [simp]: "kind_parse (kind_str k) = Some k"
  by (cases k) (simp_all add: kind_parse_def)

lemma rating_roundtrip [simp]: "rating_of_i64 (rating_i64 v) = Some v"
  by (cases v) (simp_all add: rating_of_i64_def)

interpretation ratings: keyed_store
  "\<lambda>k t. find (\<lambda>r. rating_key r = k) t" "upsert_row rating_key" "\<lambda>k t. filter (\<lambda>r. rating_key r \<noteq> k) t"
  rating_key
  by unfold_locales (simp_all add: find_upsert_row find_delete_row)

lemma rating_get_set:
  "rating_get u k e (rating_set u' k' e' v now t) =
     (if (u, k, e) = (u', k', e') then Some v else rating_get u k e t)"
proof -
  let ?r = "\<lparr>er_user_id = u', er_kind = kind_str k', er_entity_id = e', er_rating = rating_i64 v,
        er_updated_ms = now\<rparr>"
  have key: "rating_key ?r = (u', kind_str k', e')" by (simp add: rating_key_def)
  show ?thesis
    by (simp add: rating_get_def rating_set_def ratings.look_put key)
qed

lemma rating_get_clear:
  "rating_get u k e (rating_clear u' k' e' t) =
     (if (u, k, e) = (u', k', e') then None else rating_get u k e t)"
  by (simp add: rating_get_def rating_clear_def ratings.look_del)

lemma rating_upsert_in: "x \<in> set (upsert_row key r t) \<Longrightarrow> x = r \<or> x \<in> set t"
  by (auto simp: upsert_row_def in_update_where split: if_splits)

lemma rating_set_ok: "rating_table_ok t \<Longrightarrow> rating_table_ok (rating_set u k e v now t)"
  by (cases k; cases v)
    (auto simp: rating_table_ok_def rating_set_def list_all_iff rating_row_ok_def
      upsert_row_distinct dest!: rating_upsert_in)

lemma rating_clear_ok: "rating_table_ok t \<Longrightarrow> rating_table_ok (rating_clear u k e t)"
  by (auto simp: rating_table_ok_def rating_clear_def list_all_iff distinct_map_filter)

lemma put_rating_ok: "rating_table_ok t \<Longrightarrow> rating_table_ok (snd (put_rating p payload now db t))"
  by (auto simp: put_rating_def rating_set_ok rating_clear_ok split: option.split)

text \<open>What is disliked is what \<open>get\<close> answers as disliked.\<close>

lemma find_by_key:
  "distinct (map key t) \<Longrightarrow> r \<in> set t \<Longrightarrow> find (\<lambda>c. key c = key r) t = Some r"
  by (induction t) auto

lemma disliked_iff_get:
  assumes "rating_table_ok t"
  shows "e \<in> disliked_ids u k t \<longleftrightarrow> rating_get u k e t = Some Dislike"
proof
  assume "e \<in> disliked_ids u k t"
  then obtain r where r: "r \<in> set t" "rating_key r = (u, kind_str k, e)" "er_rating r = - 1"
    by (auto simp: disliked_ids_def rating_key_def)
  from find_by_key [of rating_key t r] r assms
  have "find (\<lambda>c. rating_key c = (u, kind_str k, e)) t = Some r"
    by (simp add: rating_table_ok_def)
  with r show "rating_get u k e t = Some Dislike" by (simp add: rating_get_def rating_of_i64_def)
next
  assume "rating_get u k e t = Some Dislike"
  then obtain r where r: "find (\<lambda>r. rating_key r = (u, kind_str k, e)) t = Some r"
    "rating_of_i64 (er_rating r) = Some Dislike"
    by (auto simp: rating_get_def split: option.splits)
  from find_SomeD [OF r(1)] r(2) show "e \<in> disliked_ids u k t"
    by (auto simp: disliked_ids_def rating_key_def rating_of_i64_def split: if_splits)
qed

text \<open>\<open>GET /v1/library/ratings\<close> shows every verdict of the user, and only those.\<close>

lemma list_ratings_iff:
  assumes "rating_table_ok t"
  shows "(k, e, v) \<in> set (all_ratings u t) \<longleftrightarrow> rating_get u k e t = Some v"
proof
  assume "(k, e, v) \<in> set (all_ratings u t)"
  then obtain r where r: "r \<in> set t" "er_user_id r = u" "kind_parse (er_kind r) = Some k"
    "er_entity_id r = e" "rating_of_i64 (er_rating r) = Some v"
    by (auto simp: all_ratings_def map_filter_def split: option.splits)
  from r(3) have "er_kind r = kind_str k" by (auto simp: kind_parse_def split: if_splits)
  with r have key: "rating_key r = (u, kind_str k, e)" by (simp add: rating_key_def)
  from find_by_key [of rating_key t r] r(1) key assms
  have "find (\<lambda>c. rating_key c = (u, kind_str k, e)) t = Some r" by (simp add: rating_table_ok_def)
  with r(5) show "rating_get u k e t = Some v" by (simp add: rating_get_def)
next
  assume "rating_get u k e t = Some v"
  then obtain r where r: "find (\<lambda>r. rating_key r = (u, kind_str k, e)) t = Some r"
    "rating_of_i64 (er_rating r) = Some v"
    by (auto simp: rating_get_def split: option.splits)
  from find_SomeD [OF r(1)] r(2) show "(k, e, v) \<in> set (all_ratings u t)"
    by (force simp: all_ratings_def map_filter_def rating_key_def)
qed

section \<open>Properties\<close>

definition put_ratings ::
  "(principal \<times> rating_request option \<times> int \<times> bool) list \<Rightarrow> rating_table \<Rightarrow> rating_table" where
  "put_ratings rs t = fold (\<lambda>(p, payload, now, db) t. snd (put_rating p payload now db t)) rs t"

text \<open>The verdict the requests leave on an entity of a user: the last one that user's own account
  sent, if it was accepted.\<close>

definition verdict_after ::
  "int \<Rightarrow> rated_kind \<Rightarrow> string \<Rightarrow> principal \<times> rating_request option \<times> int \<times> bool
    \<Rightarrow> rating option \<Rightarrow> rating option" where
  "verdict_after u k e = (\<lambda>(p, payload, now, db) v.
     case payload of
       None \<Rightarrow> v
     | Some rq \<Rightarrow>
         if pr_user_id p = u \<and> pr_role p \<noteq> Guest \<and> rq_kind rq = k \<and> rq_id rq = e
            \<and> e \<noteq> [] \<and> length e \<le> MAX_ENTITY_ID_LEN \<and> db
         then rq_rating rq else v)"

lemma put_ratings_ok: "rating_table_ok t \<Longrightarrow> rating_table_ok (put_ratings rs t)"
  by (induction rs arbitrary: t) (auto simp: put_ratings_def put_rating_ok)

lemma put_rating_get:
  "rating_get u k e (snd (put_rating p payload now db t)) =
     verdict_after u k e (p, payload, now, db) (rating_get u k e t)"
  by (auto simp: put_rating_def verdict_after_def rating_get_set rating_get_clear
      split: option.split)

lemma put_ratings_get:
  "rating_get u k e (put_ratings rs t) = fold (verdict_after u k e) rs (rating_get u k e t)"
  by (induction rs arbitrary: t) (auto simp: put_ratings_def put_rating_get)

text \<open>
  C40. Ratings are typed, single and one's own: along any requests to the rating endpoint (guests,
  rejected payloads and failing statements included), starting from the empty table, every row
  holds a kind and a verdict its constraints allow, and no entity of a user has two rows; and the
  list a user is shown has, for each entity, exactly the last verdict that user's account sent and
  the endpoint accepted, never a guest's or another account's, and nothing once it was cleared.
\<close>

theorem ratings_typed_and_own:
  "rating_table_ok (put_ratings rs []) \<and>
   ((k, e, v) \<in> set (all_ratings u (put_ratings rs []))
      \<longleftrightarrow> fold (verdict_after u k e) rs None = Some v)"
proof -
  have ok: "rating_table_ok (put_ratings rs [])"
    by (rule put_ratings_ok) (simp add: rating_table_ok_def)
  have "rating_get u k e (put_ratings rs []) = fold (verdict_after u k e) rs None"
    using put_ratings_get [of u k e rs "[]"] by (simp add: rating_get_def)
  with ok list_ratings_iff [OF ok] show ?thesis by simp
qed

end
