(* ===== verification/Embedding_Store.thy ===== *)
theory Embedding_Store
  imports Core_Types Keyed_Store
begin

text \<open>
  The embedding table and ingest queue: \<open>EmbeddingStore\<close> of \<open>music-recommend/src/store.rs\<close> with the
  types of \<open>types.rs\<close>, over \<open>track_embeddings\<close> of \<open>migrations/0001_embeddings.sql\<close>.

  The table is the list of its rows in \<open>rowid\<close> order with the primary key \<open>(track_id,
  model_version)\<close>. Its \<open>status\<close> column is the queue. An \<open>f32\<close> of a vector is its bit pattern, a
  \<open>32 word\<close>; a blob is its bytes. Reading a NULL blob of a row that claims to be done would panic;
  it is the error \<open>Null_blob\<close>, and \<open>embeddings_ok\<close> shows it does not occur.

  Lemmas: the blob codec loses nothing; each statement keeps the invariant; a claim takes exactly
  one \<open>not_started\<close> row out of the queue.
\<close>

section \<open>Types (types.rs)\<close>

type_synonym model_version = string

record embedding_key =
  ek_track :: track_id
  ek_model :: model_version

datatype ingest_status = NotStarted | InProgress | Done | Failed

fun status_str :: "ingest_status \<Rightarrow> string" where
  "status_str NotStarted = ''not_started''"
| "status_str InProgress = ''in_progress''"
| "status_str Done = ''done''"
| "status_str Failed = ''failed''"

datatype store_error =
    CorruptVectorBlob nat
  | DimMismatch nat nat
  | InvalidStatus string
  | Null_blob

definition status_parse :: "string \<Rightarrow> store_error + ingest_status" where
  "status_parse s =
     (if s = ''not_started'' then Inr NotStarted
      else if s = ''in_progress'' then Inr InProgress
      else if s = ''done'' then Inr Done
      else if s = ''failed'' then Inr Failed
      else Inl (InvalidStatus s))"

type_synonym f32_bits = "32 word"
type_synonym vec_bits = "f32_bits list"

record embedding =
  em_key :: embedding_key
  em_vector :: vec_bits

section \<open>The blob codec\<close>

text \<open>\<open>f32::to_le_bytes\<close> and \<open>from_le_bytes\<close>.\<close>

definition to_le_bytes :: "f32_bits \<Rightarrow> 8 word list" where
  "to_le_bytes w = map (\<lambda>i. ucast (drop_bit (8 * i) w)) [0, 1, 2, 3]"

definition from_le_bytes :: "8 word \<Rightarrow> 8 word \<Rightarrow> 8 word \<Rightarrow> 8 word \<Rightarrow> f32_bits" where
  "from_le_bytes a b c d =
     ucast a + push_bit 8 (ucast b) + push_bit 16 (ucast c) + push_bit 24 (ucast d)"

definition vector_to_blob :: "vec_bits \<Rightarrow> 8 word list" where
  "vector_to_blob v = concat (map to_le_bytes v)"

fun chunks4 :: "8 word list \<Rightarrow> vec_bits" where
  "chunks4 (a # b # c # d # rest) = from_le_bytes a b c d # chunks4 rest"
| "chunks4 _ = []"

definition blob_to_vector :: "8 word list \<Rightarrow> store_error + vec_bits" where
  "blob_to_vector b =
     (if length b mod 4 \<noteq> 0 then Inl (CorruptVectorBlob (length b)) else Inr (chunks4 b))"

section \<open>The table\<close>

record embedding_row =
  te_track_id :: track_id
  te_model :: model_version
  te_dim :: nat
  te_vector :: "8 word list option"
  te_status :: ingest_status
  te_error :: "string option"
  te_created_at :: int
  te_updated_at :: int

type_synonym embedding_table = "embedding_row list"

definition te_key :: "embedding_row \<Rightarrow> embedding_key" where
  "te_key r = \<lparr>ek_track = te_track_id r, ek_model = te_model r\<rparr>"

section \<open>The store (store.rs)\<close>

definition new_row :: "embedding_key \<Rightarrow> int \<Rightarrow> embedding_row" where
  "new_row k now =
     \<lparr>te_track_id = ek_track k, te_model = ek_model k, te_dim = 0, te_vector = None,
      te_status = NotStarted, te_error = None, te_created_at = now, te_updated_at = now\<rparr>"

text \<open>\<open>INSERT OR IGNORE\<close>.\<close>

definition enqueue :: "embedding_key \<Rightarrow> int \<Rightarrow> embedding_table \<Rightarrow> embedding_table" where
  "enqueue k now t = (if \<exists>r \<in> set t. te_key r = k then t else t @ [new_row k now])"

text \<open>All chunks succeed; a failure in the middle keeps the chunks already committed, which is the
  result for that prefix of the ids.\<close>

definition enqueue_many ::
  "track_id list \<Rightarrow> model_version \<Rightarrow> int \<Rightarrow> embedding_table \<Rightarrow> nat \<times> embedding_table" where
  "enqueue_many ids mv now t =
     fold (\<lambda>i (n, t). let k = \<lparr>ek_track = i, ek_model = mv\<rparr>
                      in (if \<exists>r \<in> set t. te_key r = k then n else n + 1, enqueue k now t))
       ids (0, t)"

definition next_job :: "model_version \<Rightarrow> embedding_table \<Rightarrow> embedding_row option" where
  "next_job mv t =
     (case sort_key te_created_at (filter (\<lambda>r. te_model r = mv \<and> te_status r = NotStarted) t) of
        [] \<Rightarrow> None
      | r # _ \<Rightarrow> Some r)"

definition claim_next ::
  "model_version \<Rightarrow> int \<Rightarrow> embedding_table \<Rightarrow> embedding_key option \<times> embedding_table" where
  "claim_next mv now t =
     (case next_job mv t of
        None \<Rightarrow> (None, t)
      | Some j \<Rightarrow>
          (Some (te_key j),
           update_where (\<lambda>r. te_key r = te_key j)
             (\<lambda>r. r\<lparr>te_status := InProgress, te_updated_at := now\<rparr>) t))"

definition mark_done :: "embedding \<Rightarrow> int \<Rightarrow> embedding_table \<Rightarrow> embedding_table" where
  "mark_done e now t =
     update_where (\<lambda>r. te_key r = em_key e)
       (\<lambda>r. r\<lparr>te_status := Done, te_dim := length (em_vector e),
              te_vector := Some (vector_to_blob (em_vector e)), te_error := None,
              te_updated_at := now\<rparr>) t"

definition mark_failed :: "embedding_key \<Rightarrow> string \<Rightarrow> int \<Rightarrow> embedding_table \<Rightarrow> embedding_table" where
  "mark_failed k err now t =
     update_where (\<lambda>r. te_key r = k)
       (\<lambda>r. r\<lparr>te_status := Failed, te_error := Some err, te_updated_at := now\<rparr>) t"

definition reset_failed :: "model_version \<Rightarrow> int \<Rightarrow> embedding_table \<Rightarrow> nat \<times> embedding_table" where
  "reset_failed mv now t =
     (let P = (\<lambda>r. te_model r = mv \<and> te_status r = Failed)
      in (affected P t,
          update_where P (\<lambda>r. r\<lparr>te_status := NotStarted, te_error := None, te_updated_at := now\<rparr>) t))"

definition reset_in_progress :: "int \<Rightarrow> embedding_table \<Rightarrow> nat \<times> embedding_table" where
  "reset_in_progress now t =
     (let P = (\<lambda>r. te_status r = InProgress)
      in (affected P t, update_where P (\<lambda>r. r\<lparr>te_status := NotStarted, te_updated_at := now\<rparr>) t))"

definition row_embedding :: "embedding_row \<Rightarrow> store_error + embedding" where
  "row_embedding r =
     (case te_vector r of
        None \<Rightarrow> Inl Null_blob
      | Some b \<Rightarrow>
          (case blob_to_vector b of
             Inl e \<Rightarrow> Inl e
           | Inr v \<Rightarrow>
               if length v \<noteq> te_dim r then Inl (DimMismatch (te_dim r) (length v))
               else Inr \<lparr>em_key = te_key r, em_vector = v\<rparr>))"

definition find_row :: "embedding_key \<Rightarrow> embedding_table \<Rightarrow> embedding_row option" where
  "find_row k t = find (\<lambda>r. te_key r = k) t"

definition emb_get :: "embedding_key \<Rightarrow> embedding_table \<Rightarrow> store_error + embedding option" where
  "emb_get k t =
     (case find_row k t of
        None \<Rightarrow> Inr None
      | Some r \<Rightarrow>
          if te_status r \<noteq> Done then Inr None
          else (case row_embedding r of Inl e \<Rightarrow> Inl e | Inr v \<Rightarrow> Inr (Some v)))"

fun collect_rows :: "embedding_row list \<Rightarrow> store_error + embedding list" where
  "collect_rows [] = Inr []"
| "collect_rows (r # rs) =
     (case row_embedding r of
        Inl e \<Rightarrow> Inl e
      | Inr v \<Rightarrow> (case collect_rows rs of Inl e \<Rightarrow> Inl e | Inr vs \<Rightarrow> Inr (v # vs)))"

definition done_rows :: "model_version \<Rightarrow> embedding_table \<Rightarrow> embedding_row list" where
  "done_rows mv t =
     sort_key te_track_id
       (filter (\<lambda>r. te_model r = mv \<and> te_status r = Done \<and> te_vector r \<noteq> None) t)"

definition list_done_embeddings :: "model_version \<Rightarrow> embedding_table \<Rightarrow> store_error + embedding list" where
  "list_done_embeddings mv t = collect_rows (done_rows mv t)"

definition emb_status :: "embedding_key \<Rightarrow> embedding_table \<Rightarrow> ingest_status option" where
  "emb_status k t = map_option te_status (find_row k t)"

record status_counts =
  n_not_started :: nat
  n_in_progress :: nat
  n_done :: nat
  n_failed :: nat

definition count_status :: "model_version \<Rightarrow> ingest_status \<Rightarrow> embedding_table \<Rightarrow> nat" where
  "count_status mv s t = length (filter (\<lambda>r. te_model r = mv \<and> te_status r = s) t)"

definition counts :: "model_version \<Rightarrow> embedding_table \<Rightarrow> status_counts" where
  "counts mv t =
     \<lparr>n_not_started = count_status mv NotStarted t, n_in_progress = count_status mv InProgress t,
      n_done = count_status mv Done t, n_failed = count_status mv Failed t\<rparr>"

section \<open>The codec loses nothing\<close>

lemma status_roundtrip: "status_parse (status_str s) = Inr s"
  by (cases s) (simp_all add: status_parse_def)

lemma length_to_le_bytes [simp]: "length (to_le_bytes w) = 4"
  by (simp add: to_le_bytes_def)

lemma from_to_le_bytes:
  "from_le_bytes (ucast w) (ucast (drop_bit 8 w)) (ucast (drop_bit 16 w)) (ucast (drop_bit 24 w)) = w"
proof -
  have lt: "unat w < 2 ^ 32" using unsigned_less [of w] by simp
  then have u: "unat (ucast (drop_bit n w) :: 8 word) = unat w div 2 ^ n mod 256" for n
    by (simp add: unsigned_ucast_eq unsigned_drop_bit_eq take_bit_eq_mod drop_bit_eq_div [where 'a = nat])
  have u0: "unat (ucast w :: 8 word) = unat w mod 256"
    using u [of 0] by simp
  define n where "n = unat w"
  have split: "n = n mod 256 + 2 ^ 8 * (n div 2 ^ 8 mod 256) + 2 ^ 16 * (n div 2 ^ 16 mod 256)
      + 2 ^ 24 * (n div 2 ^ 24 mod 256)"
  proof -
    have a: "n = 256 * (n div 256) + n mod 256"
      "n div 256 = 256 * (n div 256 div 256) + n div 256 mod 256"
      "n div 65536 = 256 * (n div 65536 div 256) + n div 65536 mod 256"
      by simp_all
    have b: "n div 256 div 256 = n div 65536" "n div 65536 div 256 = n div 16777216"
      by (simp_all add: div_mult2_eq [symmetric])
    have c: "n div 16777216 mod 256 = n div 16777216"
      using lt by (simp add: n_def less_mult_imp_div_less)
    have p: "(2 :: nat) ^ 8 = 256" "(2 :: nat) ^ 16 = 65536" "(2 :: nat) ^ 24 = 16777216"
      by simp_all
    show ?thesis unfolding p using a [unfolded b] c by linarith
  qed
  have ext: "(ucast (x :: 8 word) :: f32_bits) = of_nat (unat x)" for x
    by simp
  have "from_le_bytes (ucast w) (ucast (drop_bit 8 w)) (ucast (drop_bit 16 w)) (ucast (drop_bit 24 w))
      = of_nat (n mod 256 + 2 ^ 8 * (n div 2 ^ 8 mod 256) + 2 ^ 16 * (n div 2 ^ 16 mod 256)
      + 2 ^ 24 * (n div 2 ^ 24 mod 256))"
    by (simp add: from_le_bytes_def ext u u0 n_def push_bit_eq_mult del: of_nat_unat)
  also have "\<dots> = of_nat n" by (rule arg_cong [where f = of_nat, OF split [symmetric]])
  finally show ?thesis by (simp add: n_def)
qed

lemma chunks4_append: "length xs = 4 \<Longrightarrow> chunks4 (xs @ ys) = chunks4 xs @ chunks4 ys"
  by (cases xs rule: chunks4.cases) auto

lemma length_vector_to_blob: "length (vector_to_blob v) = 4 * length v"
  by (induction v) (simp_all add: vector_to_blob_def)

lemma blob_roundtrip [simp]: "blob_to_vector (vector_to_blob v) = Inr v"
proof -
  have "chunks4 (vector_to_blob v) = v"
  proof (induction v)
    case (Cons w v)
    have "chunks4 (to_le_bytes w) = [w]"
      by (simp add: to_le_bytes_def from_to_le_bytes)
    with Cons show ?case
      by (simp add: vector_to_blob_def chunks4_append)
  qed (simp add: vector_to_blob_def)
  then show ?thesis by (simp add: blob_to_vector_def length_vector_to_blob)
qed

section \<open>The invariant\<close>

text \<open>Keys are unique; a done row has a blob that decodes to a vector of its dimension.\<close>

definition embeddings_ok :: "embedding_table \<Rightarrow> bool" where
  "embeddings_ok t \<longleftrightarrow> distinct (map te_key t)
     \<and> (\<forall>r \<in> set t. te_status r = Done \<longrightarrow> is_ok (row_embedding r))"

lemma te_key_sel [simp]: "ek_model (te_key r) = te_model r" "ek_track (te_key r) = te_track_id r"
  by (simp_all add: te_key_def)

lemma te_key_update [simp]:
  "te_key (r\<lparr>te_status := s\<rparr>) = te_key r" "te_key (r\<lparr>te_updated_at := u\<rparr>) = te_key r"
  "te_key (r\<lparr>te_error := e\<rparr>) = te_key r" "te_key (r\<lparr>te_dim := d\<rparr>) = te_key r"
  "te_key (r\<lparr>te_vector := v\<rparr>) = te_key r"
  by (simp_all add: te_key_def)

lemma row_embedding_update [simp]:
  "row_embedding (r\<lparr>te_status := s\<rparr>) = row_embedding r"
  "row_embedding (r\<lparr>te_updated_at := u\<rparr>) = row_embedding r"
  "row_embedding (r\<lparr>te_error := e\<rparr>) = row_embedding r"
  by (simp_all add: row_embedding_def split: option.split sum.split)

lemma update_where_keys:
  "(\<And>r. te_key (f r) = te_key r) \<Longrightarrow> map te_key (update_where P f t) = map te_key t"
  by (induction t) auto

lemma enqueue_ok: "embeddings_ok t \<Longrightarrow> embeddings_ok (enqueue k now t)"
  by (auto simp: embeddings_ok_def enqueue_def new_row_def te_key_def)

lemma mark_done_ok: "embeddings_ok t \<Longrightarrow> embeddings_ok (mark_done e now t)"
  by (auto simp: embeddings_ok_def mark_done_def update_where_keys in_update_where row_embedding_def
      split: if_splits)

lemma mark_failed_ok: "embeddings_ok t \<Longrightarrow> embeddings_ok (mark_failed k err now t)"
  by (auto simp: embeddings_ok_def mark_failed_def update_where_keys in_update_where split: if_splits)

lemma reset_failed_ok: "embeddings_ok t \<Longrightarrow> embeddings_ok (snd (reset_failed mv now t))"
  by (auto simp: embeddings_ok_def reset_failed_def Let_def update_where_keys in_update_where)

lemma reset_in_progress_ok: "embeddings_ok t \<Longrightarrow> embeddings_ok (snd (reset_in_progress now t))"
  by (auto simp: embeddings_ok_def reset_in_progress_def Let_def update_where_keys in_update_where
      split: if_splits)

lemma claim_next_ok: "embeddings_ok t \<Longrightarrow> embeddings_ok (snd (claim_next mv now t))"
  by (auto simp: embeddings_ok_def claim_next_def update_where_keys in_update_where
      split: option.splits if_splits)

section \<open>The queue\<close>

lemma next_job_Some:
  "next_job mv t = Some j \<Longrightarrow> j \<in> set t \<and> te_model j = mv \<and> te_status j = NotStarted"
proof -
  assume j: "next_job mv t = Some j"
  let ?s = "sort_key te_created_at (filter (\<lambda>r. te_model r = mv \<and> te_status r = NotStarted) t)"
  from j obtain rs where "?s = j # rs" by (auto simp: next_job_def split: list.splits)
  then have "j \<in> set ?s" by simp
  then show ?thesis by simp
qed

lemma next_job_None:
  "next_job mv t = None \<longleftrightarrow> (\<forall>r \<in> set t. te_model r = mv \<longrightarrow> te_status r \<noteq> NotStarted)"
proof -
  let ?s = "sort_key te_created_at (filter (\<lambda>r. te_model r = mv \<and> te_status r = NotStarted) t)"
  have "next_job mv t = None \<longleftrightarrow> ?s = []"
    by (simp add: next_job_def split: list.split)
  also have "\<dots> \<longleftrightarrow> set ?s = {}" by (simp only: set_empty)
  finally show ?thesis by auto
qed

lemma find_emb_update:
  assumes "\<And>r. te_key (f r) = te_key r"
  shows "find_row k (update_where (\<lambda>r. te_key r = j) f t) =
           (if k = j then map_option f (find_row k t) else find_row k t)"
  using assms by (induction t) (auto simp: find_row_def)

lemma find_row_key: "find_row k t = Some r \<Longrightarrow> te_key r = k \<and> r \<in> set t"
  using find_SomeD by (fastforce simp: find_row_def)

lemma find_row_in:
  "distinct (map te_key t) \<Longrightarrow> r \<in> set t \<Longrightarrow> find_row (te_key r) t = Some r"
  unfolding find_row_def by (induction t) auto

lemma emb_status_claim:
  assumes "distinct (map te_key t)" "claim_next mv now t = (Some k, t')"
  shows "emb_status k t = Some NotStarted \<and> ek_model k = mv \<and>
         emb_status j t' = (if j = k then Some InProgress else emb_status j t)"
proof -
  from assms(2) obtain r where r: "next_job mv t = Some r" "k = te_key r"
    and t': "t' = update_where (\<lambda>x. te_key x = te_key r)
             (\<lambda>x. x\<lparr>te_status := InProgress, te_updated_at := now\<rparr>) t"
    by (auto simp: claim_next_def split: option.splits)
  from next_job_Some [OF r(1)] have m: "r \<in> set t" "te_model r = mv" "te_status r = NotStarted"
    by auto
  from find_row_in [OF assms(1) m(1)] have f: "find_row k t = Some r" by (simp add: r(2))
  show ?thesis
    using f m by (auto simp: emb_status_def t' find_emb_update r(2))
qed

lemma emb_status_mark_done:
  "emb_status j (mark_done e now t) =
     (if j = em_key e then map_option (\<lambda>_. Done) (emb_status j t) else emb_status j t)"
  by (auto simp: emb_status_def mark_done_def find_emb_update option.map_comp comp_def)

lemma emb_status_mark_failed:
  "emb_status j (mark_failed k err now t) =
     (if j = k then map_option (\<lambda>_. Failed) (emb_status j t) else emb_status j t)"
  by (auto simp: emb_status_def mark_failed_def find_emb_update option.map_comp comp_def)

lemma find_row_snoc:
  "find_row k (t @ [r]) = (case find_row k t of Some x \<Rightarrow> Some x | None \<Rightarrow> if te_key r = k then Some r else None)"
  by (simp add: find_row_def find_snoc)

lemma find_row_None: "find_row k t = None \<longleftrightarrow> (\<forall>r \<in> set t. te_key r \<noteq> k)"
  by (auto simp: find_row_def find_None_iff)

lemma emb_status_enqueue:
  "emb_status j (enqueue k now t) =
     (if j = k \<and> emb_status k t = None then Some NotStarted else emb_status j t)"
proof (cases "find_row k t")
  case None
  then have "enqueue k now t = t @ [new_row k now]"
    by (auto simp: enqueue_def find_row_None)
  with None show ?thesis
    by (auto simp: emb_status_def find_row_snoc new_row_def te_key_def split: option.split)
next
  case (Some r)
  with find_row_key [OF Some] have "enqueue k now t = t" by (auto simp: enqueue_def)
  with Some show ?thesis by (simp add: emb_status_def)
qed

lemma emb_status_reset_failed:
  "emb_status j (snd (reset_failed mv now t)) =
     (if ek_model j = mv \<and> emb_status j t = Some Failed then Some NotStarted else emb_status j t)"
  by (induction t) (auto simp: reset_failed_def Let_def emb_status_def find_row_def te_key_def)

lemma emb_status_reset_in_progress:
  "emb_status j (snd (reset_in_progress now t)) =
     (if emb_status j t = Some InProgress then Some NotStarted else emb_status j t)"
  by (induction t) (auto simp: reset_in_progress_def Let_def emb_status_def find_row_def te_key_def)

lemma collect_rows_ok:
  "(\<And>r. r \<in> set rs \<Longrightarrow> is_ok (row_embedding r)) \<Longrightarrow>
   \<exists>es. collect_rows rs = Inr es \<and> map em_key es = map te_key rs"
proof (induction rs)
  case (Cons r rs)
  then obtain es where es: "collect_rows rs = Inr es" "map em_key es = map te_key rs" by auto
  from Cons.prems [of r] obtain e where e: "row_embedding r = Inr e"
    by (auto split: sum.splits)
  then have "em_key e = te_key r"
    by (auto simp: row_embedding_def split: option.splits sum.splits if_splits)
  with e es show ?case by simp
qed simp

text \<open>What \<open>get\<close> and the rebuild read is what \<open>mark_done\<close> stored.\<close>

lemma get_after_mark_done:
  assumes "emb_status (em_key e) t \<noteq> None"
  shows "emb_get (em_key e) (mark_done e now t) = Inr (Some e)"
proof -
  from assms obtain r where r: "find_row (em_key e) t = Some r"
    by (auto simp: emb_status_def)
  from find_row_key [OF r] have "te_key r = em_key e" by simp
  with r show ?thesis
    by (simp add: emb_get_def mark_done_def find_emb_update row_embedding_def)
qed

end
