(* ===== verification/Track_Meta.thy ===== *)
theory Track_Meta
  imports Http_Text Embedding_Store
begin

text \<open>
  The metadata cache of the recommender (\<open>music-recommend/src/metadata.rs\<close>): the normalization of
  titles that makes two editions of a song comparable, and the table \<open>track_metadata\<close>.

  A title is text in the sense of \<open>Http_Text\<close>: bytes, with the ASCII meaning of case, whitespace and
  letters; a byte outside ASCII counts as a letter without case. The loop of \<open>normalize_title\<close> is
  \<open>strip_editions\<close>, a function that terminates because each turn shortens the text.

  The table is the list of its rows with the primary key \<open>track_id\<close>; \<open>created_at\<close> and \<open>updated_at\<close>
  accompany the metadata. A \<open>HashMap\<close> result is an association list in table order, a \<open>HashSet\<close> a
  set; the chunking of long \<open>IN (...)\<close> lists does not show in the result.

  \<open>normal_titles_are_fixed\<close> is the promise of the comment over \<open>normalize_title\<close>.
\<close>

section \<open>Title normalization\<close>

definition is_alnum :: "char \<Rightarrow> bool" where
  "is_alnum c \<longleftrightarrow> (48 \<le> byte c \<and> byte c \<le> 57) \<or> (65 \<le> byte c \<and> byte c \<le> 90)
     \<or> (97 \<le> byte c \<and> byte c \<le> 122) \<or> 128 \<le> byte c"

definition lower :: "string \<Rightarrow> string" where
  "lower s = map ascii_lower s"

definition trim_end :: "string \<Rightarrow> string" where
  "trim_end s = rev (dropWhile is_ws (rev s))"

text \<open>\<open>str::split\<close> by a predicate on characters, and \<open>str::rfind\<close> of a character.\<close>

fun split_pred :: "(char \<Rightarrow> bool) \<Rightarrow> string \<Rightarrow> string list" where
  "split_pred P [] = [[]]"
| "split_pred P (c # cs) =
     (if P c then [] # split_pred P cs
      else (case split_pred P cs of [] \<Rightarrow> [[c]] | p # ps \<Rightarrow> (c # p) # ps))"

fun rfind :: "char \<Rightarrow> string \<Rightarrow> nat option" where
  "rfind d [] = None"
| "rfind d (c # cs) =
     (case rfind d cs of Some i \<Rightarrow> Some (Suc i) | None \<Rightarrow> if c = d then Some 0 else None)"

definition EDITION_KEYWORDS :: "string list" where
  "EDITION_KEYWORDS = [''remaster'', ''remastered'', ''live'', ''acoustic'', ''edit'', ''version'',
     ''feat'', ''featuring'', ''with'', ''deluxe'', ''expanded'']"

definition has_keyword :: "string \<Rightarrow> bool" where
  "has_keyword inner \<longleftrightarrow>
     (\<exists>kw \<in> set EDITION_KEYWORDS. kw \<in> set (split_pred (\<lambda>c. \<not> is_alnum c) inner))"

lemma length_trim_end: "length (trim_end s) \<le> length s"
  by (metis length_dropWhile_le length_rev trim_end_def)

lemma rfind_Some:
  "rfind d s = Some i \<Longrightarrow> i < length s \<and> s ! i = d \<and> d \<notin> set (drop (Suc i) s)"
proof (induction s arbitrary: i)
  case (Cons c cs)
  show ?case
  proof (cases "rfind d cs")
    case None
    then have "d \<notin> set cs"
      by (induction cs) (auto split: option.splits if_splits)
    with None Cons.prems show ?thesis by (auto split: if_splits)
  next
    case (Some j)
    with Cons show ?thesis by auto
  qed
qed simp

function strip_editions :: "string \<Rightarrow> string" where
  "strip_editions work =
     (let trimmed = trim_end work
      in if trimmed = [] \<or> last trimmed \<noteq> CHR '')'' then work
         else case rfind CHR ''('' trimmed of
           None \<Rightarrow> work
         | Some i \<Rightarrow>
             if \<not> has_keyword (take (length trimmed - 1 - (i + 1)) (drop (i + 1) trimmed)) then work
             else strip_editions (trim_end (take i trimmed)))"
  by pat_completeness auto

termination
proof (relation "measure length")
  fix work trimmed i
  assume t: "trimmed = trim_end work" and i: "rfind CHR ''('' trimmed = Some i"
  have "length (trim_end (take i trimmed)) \<le> length (take i trimmed)" by (rule length_trim_end)
  also have "\<dots> < length trimmed" using rfind_Some [OF i] by simp
  also have "\<dots> \<le> length work" by (simp add: t length_trim_end)
  finally show "(trim_end (take i trimmed), work) \<in> measure length" by simp
qed simp

declare strip_editions.simps [simp del]

text \<open>The last loop of \<open>normalize_title\<close>; the flag is \<open>last_was_ws\<close>.\<close>

fun collapse_ws :: "bool \<Rightarrow> string \<Rightarrow> string" where
  "collapse_ws prev [] = []"
| "collapse_ws prev (c # cs) =
     (if is_ws c then (if prev then collapse_ws True cs else CHR '' '' # collapse_ws True cs)
      else c # collapse_ws False cs)"

definition pop_space :: "string \<Rightarrow> string" where
  "pop_space s = (if s \<noteq> [] \<and> last s = CHR '' '' then butlast s else s)"

definition normalize_title :: "string \<Rightarrow> string" where
  "normalize_title s = pop_space (collapse_ws True (strip_editions (lower s)))"

section \<open>The cache\<close>

record track_metadata =
  tm_track_id :: track_id
  tm_artist_id :: "string option"
  tm_artist :: string
  tm_album_id :: "string option"
  tm_album :: "string option"
  tm_title :: string
  tm_title_normalized :: string
  tm_duration_seconds :: "32 word option"
  tm_genre :: "string option"
  tm_year :: "32 word option"
  tm_track_number :: "32 word option"
  tm_disc_number :: "32 word option"
  tm_bpm :: "32 word option"
  tm_musical_key :: "string option"

record meta_row =
  mr_meta :: track_metadata
  mr_created_at :: int
  mr_updated_at :: int

type_synonym meta_table = "meta_row list"

definition mr_key :: "meta_row \<Rightarrow> track_id" where
  "mr_key r = tm_track_id (mr_meta r)"

definition meta_upsert :: "track_metadata \<Rightarrow> int \<Rightarrow> meta_table \<Rightarrow> meta_table" where
  "meta_upsert m now t =
     (if \<exists>r \<in> set t. mr_key r = tm_track_id m
      then update_where (\<lambda>r. mr_key r = tm_track_id m)
             (\<lambda>r. r\<lparr>mr_meta := m, mr_updated_at := now\<rparr>) t
      else t @ [\<lparr>mr_meta = m, mr_created_at = now, mr_updated_at = now\<rparr>])"

definition meta_get :: "track_id \<Rightarrow> meta_table \<Rightarrow> track_metadata option" where
  "meta_get k t = map_option mr_meta (find (\<lambda>r. mr_key r = k) t)"

definition meta_get_many :: "track_id list \<Rightarrow> meta_table \<Rightarrow> (track_id \<times> track_metadata) list" where
  "meta_get_many ids t =
     map (\<lambda>r. (mr_key r, mr_meta r)) (filter (\<lambda>r. mr_key r \<in> set ids) t)"

definition track_ids_for_parent ::
  "(track_metadata \<Rightarrow> string option) \<Rightarrow> string list \<Rightarrow> meta_table \<Rightarrow> track_id set" where
  "track_ids_for_parent column parents t =
     set (map mr_key (filter (\<lambda>r. case column (mr_meta r) of None \<Rightarrow> False | Some p \<Rightarrow> p \<in> set parents) t))"

definition track_ids_for_albums :: "string list \<Rightarrow> meta_table \<Rightarrow> track_id set" where
  "track_ids_for_albums ids t = track_ids_for_parent tm_album_id ids t"

definition track_ids_for_artists :: "string list \<Rightarrow> meta_table \<Rightarrow> track_id set" where
  "track_ids_for_artists ids t = track_ids_for_parent tm_artist_id ids t"

definition missing_ids :: "track_id list \<Rightarrow> meta_table \<Rightarrow> track_id list" where
  "missing_ids ids t = filter (\<lambda>i. map_of (meta_get_many ids t) i = None) ids"

text \<open>\<open>LEFT JOIN ... WHERE tm.track_id IS NULL ORDER BY te.track_id LIMIT ?\<close>.\<close>

definition missing_for_model ::
  "model_version \<Rightarrow> nat \<Rightarrow> embedding_table \<Rightarrow> meta_table \<Rightarrow> track_id list" where
  "missing_for_model mv limit te t =
     take limit (sort_key (\<lambda>i. i)
       (map te_track_id (filter (\<lambda>r. te_model r = mv \<and> te_status r = Done
                                   \<and> (\<forall>m \<in> set t. mr_key m \<noteq> te_track_id r)) te)))"

definition null_genre_ids :: "nat \<Rightarrow> meta_table \<Rightarrow> track_id list" where
  "null_genre_ids limit t =
     take limit (sort_key (\<lambda>i. i) (map mr_key (filter (\<lambda>r. tm_genre (mr_meta r) = None) t)))"

definition meta_count :: "meta_table \<Rightarrow> nat" where
  "meta_count t = length t"

section \<open>Lemmas on the cache\<close>

lemma mr_key_row [simp]:
  "mr_key (r\<lparr>mr_meta := m\<rparr>) = tm_track_id m" "mr_key (r\<lparr>mr_updated_at := now\<rparr>) = mr_key r"
  "mr_key \<lparr>mr_meta = m, mr_created_at = a, mr_updated_at = b\<rparr> = tm_track_id m"
  by (simp_all add: mr_key_def)

lemma find_meta_update:
  "find (\<lambda>r. mr_key r = k) (update_where (\<lambda>r. mr_key r = tm_track_id m)
             (\<lambda>r. r\<lparr>mr_meta := m, mr_updated_at := now\<rparr>) t)
      = (if k = tm_track_id m then map_option (\<lambda>r. r\<lparr>mr_meta := m, mr_updated_at := now\<rparr>)
           (find (\<lambda>r. mr_key r = k) t) else find (\<lambda>r. mr_key r = k) t)"
  by (induction t) auto

lemma meta_get_upsert:
  "meta_get k (meta_upsert m now t) = (if k = tm_track_id m then Some m else meta_get k t)"
proof (cases "find (\<lambda>r. mr_key r = tm_track_id m) t")
  case None
  then have "\<not> (\<exists>r \<in> set t. mr_key r = tm_track_id m)" by (auto simp: find_None_iff)
  with None show ?thesis
    by (auto simp: meta_get_def meta_upsert_def find_snoc split: option.split)
next
  case (Some r)
  from find_SomeD [OF Some] have "\<exists>r \<in> set t. mr_key r = tm_track_id m" by blast
  with Some show ?thesis
    by (simp add: meta_get_def meta_upsert_def find_meta_update)
qed

lemma meta_update_keys:
  "map mr_key (update_where (\<lambda>r. mr_key r = tm_track_id m)
             (\<lambda>r. r\<lparr>mr_meta := m, mr_updated_at := now\<rparr>) t) = map mr_key t"
  by (induction t) auto

interpretation metadata: keyed_store meta_get "\<lambda>m. meta_upsert m now" "\<lambda>k t. filter (\<lambda>r. mr_key r \<noteq> k) t"
  tm_track_id
proof
  fix k m t show "meta_get k (meta_upsert m now t) = (if k = tm_track_id m then Some m else meta_get k t)"
    by (rule meta_get_upsert)
next
  fix k j t show "meta_get k (filter (\<lambda>r. mr_key r \<noteq> j) t) = (if k = j then None else meta_get k t)"
    by (auto simp: meta_get_def find_delete_row)
qed

lemma meta_upsert_keys:
  "mr_key ` set (meta_upsert m now t) = insert (tm_track_id m) (mr_key ` set t)"
proof (cases "\<exists>r \<in> set t. mr_key r = tm_track_id m")
  case True
  then have "mr_key ` set (meta_upsert m now t) = mr_key ` set t"
    using meta_update_keys [of m now t] by (simp add: meta_upsert_def flip: set_map)
  with True show ?thesis by (metis image_eqI insert_absorb)
qed (simp add: meta_upsert_def)

lemma meta_upsert_distinct:
  "distinct (map mr_key t) \<Longrightarrow> distinct (map mr_key (meta_upsert m now t))"
  by (auto simp: meta_upsert_def meta_update_keys)

lemma map_of_get_many:
  assumes "distinct (map mr_key t)"
  shows "map_of (meta_get_many ids t) k = (if k \<in> set ids then meta_get k t else None)"
  using assms by (induction t) (auto simp: meta_get_many_def meta_get_def)

lemma in_track_ids_for_parent:
  "k \<in> track_ids_for_parent column parents t \<longleftrightarrow>
     (\<exists>r \<in> set t. mr_key r = k \<and> (\<exists>p \<in> set parents. column (mr_meta r) = Some p))"
  by (fastforce simp: track_ids_for_parent_def split: option.splits)

section \<open>Normalizing twice\<close>

lemma trim_end_snoc [simp]: "trim_end (s @ [c]) = (if is_ws c then trim_end s else s @ [c])"
  by (simp add: trim_end_def)

lemma trim_end_Nil [simp]: "trim_end [] = []"
  by (simp add: trim_end_def)

lemma trim_end_last: "trim_end s \<noteq> [] \<Longrightarrow> \<not> is_ws (last (trim_end s))"
  by (induction s rule: rev_induct) auto

lemma trim_end_fixed: "s = [] \<or> \<not> is_ws (last s) \<Longrightarrow> trim_end s = s"
  by (induction s rule: rev_induct) auto

lemma trim_end_split: "\<exists>r. s = trim_end s @ r \<and> (\<forall>c \<in> set r. is_ws c)"
proof (induction s rule: rev_induct)
  case (snoc c s)
  then obtain r where "s = trim_end s @ r" "\<forall>c \<in> set r. is_ws c" by blast
  then show ?case by (cases "is_ws c") (auto intro!: exI [of _ "r @ [c]"])
qed simp

lemma collapse_ws_run: "\<forall>c \<in> set r. is_ws c \<Longrightarrow> collapse_ws True r = []"
  by (induction r) auto

lemma collapse_ws_tail:
  "\<forall>c \<in> set r. is_ws c \<Longrightarrow> collapse_ws b (s @ r) = collapse_ws b s
     \<or> collapse_ws b (s @ r) = collapse_ws b s @ '' ''"
proof (induction s arbitrary: b)
  case Nil
  then show ?case by (cases r) (auto simp: collapse_ws_run)
qed auto

lemma last_collapse_ws:
  "s \<noteq> [] \<Longrightarrow> \<not> is_ws (last s) \<Longrightarrow> collapse_ws b s \<noteq> [] \<and> last (collapse_ws b s) = last s"
proof (induction s arbitrary: b)
  case (Cons c s)
  show ?case
  proof (cases "s = []")
    case False
    with Cons have "collapse_ws b' s \<noteq> [] \<and> last (collapse_ws b' s) = last s" for b' by simp
    with False show ?thesis by simp
  qed (use Cons.prems in simp)
qed simp

lemma is_ws_space: "is_ws CHR '' ''"
  by (simp add: is_ws_def byte_def)

text \<open>Collapsing and dropping the last space is collapsing the text without its trailing
  whitespace.\<close>

lemma pop_space_collapse: "pop_space (collapse_ws True w) = collapse_ws True (trim_end w)"
proof -
  obtain r where r: "w = trim_end w @ r" "\<forall>c \<in> set r. is_ws c" using trim_end_split by blast
  let ?t = "trim_end w"
  have last: "collapse_ws True ?t = [] \<or> last (collapse_ws True ?t) \<noteq> CHR '' ''"
  proof (cases "?t = []")
    case False
    with last_collapse_ws [of ?t True] trim_end_last [of w] is_ws_space show ?thesis by metis
  qed simp
  from collapse_ws_tail [OF r(2), of True ?t] r(1)
  have "collapse_ws True w = collapse_ws True ?t \<or> collapse_ws True w = collapse_ws True ?t @ '' ''"
    by simp
  then show ?thesis
  proof
    assume "collapse_ws True w = collapse_ws True ?t"
    with last show ?thesis by (auto simp: pop_space_def)
  qed (simp add: pop_space_def)
qed

lemma lower_id_chars: "ascii_lower (ascii_lower c) = ascii_lower c"
proof (cases "65 \<le> byte c \<and> byte c \<le> 90")
  case True
  then have "byte (char_of (byte c + 32)) = byte c + 32"
    by (simp add: byte_def)
  with True show ?thesis by (simp add: ascii_lower_def)
next
  case False
  then have "ascii_lower c = c" by (auto simp: ascii_lower_def)
  then show ?thesis by simp
qed

lemma set_collapse_ws: "set (collapse_ws b s) \<subseteq> insert CHR '' '' (set s)"
  by (induction b s rule: collapse_ws.induct) auto

lemma set_trim_end: "set (trim_end s) \<subseteq> set s"
  by (auto simp: trim_end_def dest: set_dropWhileD)

lemma strip_editions_step:
  "strip_editions w = w \<or>
   (\<exists>i. rfind CHR ''('' (trim_end w) = Some i
      \<and> strip_editions w = strip_editions (trim_end (take i (trim_end w))))"
proof (cases "rfind CHR ''('' (trim_end w)")
  case None
  then show ?thesis by (subst strip_editions.simps) (simp add: Let_def)
next
  case (Some i)
  then show ?thesis
    by (subst (1 2) strip_editions.simps) (simp add: Let_def)
qed

lemma strip_editions_chars: "set (strip_editions w) \<subseteq> set w"
proof (induction w rule: measure_induct_rule [of length])
  case (less w)
  from strip_editions_step [of w] show ?case
  proof (elim disjE exE conjE)
    fix i
    assume i: "rfind CHR ''('' (trim_end w) = Some i"
      and eq: "strip_editions w = strip_editions (trim_end (take i (trim_end w)))"
    have "length (trim_end (take i (trim_end w))) \<le> length (take i (trim_end w))"
      by (rule length_trim_end)
    also have "\<dots> < length (trim_end w)" using rfind_Some [OF i] by simp
    also have "\<dots> \<le> length w" by (rule length_trim_end)
    finally have "set (strip_editions w) \<subseteq> set (trim_end (take i (trim_end w)))"
      unfolding eq by (rule less.IH)
    then show ?thesis
      using set_trim_end [of "take i (trim_end w)"] set_take_subset [of i "trim_end w"]
        set_trim_end [of w] by blast
  qed simp
qed

lemma normalize_lowered: "lower (normalize_title s) = normalize_title s"
proof -
  have "ascii_lower c = c" if "c \<in> set (normalize_title s)" for c
  proof -
    from that have "c = CHR '' '' \<or> c \<in> set (lower s)"
      using set_collapse_ws [of True "trim_end (strip_editions (lower s))"] set_trim_end
        strip_editions_chars [of "lower s"]
      unfolding normalize_title_def pop_space_collapse by blast
    then show ?thesis
      by (auto simp: lower_def lower_id_chars ascii_lower_def byte_def)
  qed
  then show ?thesis unfolding lower_def by (rule map_idI)
qed

text \<open>The words of a text do not change when its whitespace is collapsed.\<close>

definition word_list :: "string \<Rightarrow> string list" where
  "word_list s = filter (\<lambda>w. w \<noteq> []) (split_pred (\<lambda>c. \<not> is_alnum c) s)"

lemma split_pred_nonempty: "split_pred P s \<noteq> []"
  by (cases s) (auto split: list.split)

lemma ws_not_alnum: "is_ws c \<Longrightarrow> \<not> is_alnum c"
  by (auto simp: is_ws_def is_alnum_def)

lemma words_collapse:
  "word_list (collapse_ws b s) = word_list s \<and>
   (\<not> b \<longrightarrow> hd (split_pred (\<lambda>c. \<not> is_alnum c) (collapse_ws b s)) = hd (split_pred (\<lambda>c. \<not> is_alnum c) s)
      \<and> filter (\<lambda>w. w \<noteq> []) (tl (split_pred (\<lambda>c. \<not> is_alnum c) (collapse_ws b s)))
        = filter (\<lambda>w. w \<noteq> []) (tl (split_pred (\<lambda>c. \<not> is_alnum c) s)))"
proof (induction b s rule: collapse_ws.induct)
  case (2 prev c cs)
  let ?S = "split_pred (\<lambda>c. \<not> is_alnum c)"
  show ?case
  proof (cases "is_ws c")
    case True
    with 2 ws_not_alnum [OF True] ws_not_alnum [OF is_ws_space] show ?thesis
      by (cases prev) (simp_all add: word_list_def)
  next
    case False
    with 2 have IH: "word_list (collapse_ws False cs) = word_list cs"
      "hd (?S (collapse_ws False cs)) = hd (?S cs)"
      "filter (\<lambda>w. w \<noteq> []) (tl (?S (collapse_ws False cs))) = filter (\<lambda>w. w \<noteq> []) (tl (?S cs))"
      by auto
    obtain p ps where p: "?S (collapse_ws False cs) = p # ps"
      using split_pred_nonempty by (metis list.exhaust)
    obtain q qs where q: "?S cs = q # qs" using split_pred_nonempty by (metis list.exhaust)
    from IH p q have "p = q" "filter (\<lambda>w. w \<noteq> []) ps = filter (\<lambda>w. w \<noteq> []) qs" by auto
    with False p q IH(1) show ?thesis by (simp add: word_list_def)
  qed
qed (simp add: word_list_def)

lemma keyword_words: "has_keyword s \<longleftrightarrow> (\<exists>kw \<in> set EDITION_KEYWORDS. kw \<in> set (word_list s))"
  by (auto simp: has_keyword_def word_list_def EDITION_KEYWORDS_def)

lemma has_keyword_collapse: "has_keyword (collapse_ws b s) = has_keyword s"
  using words_collapse [of b s] by (simp add: keyword_words)

text \<open>A text \<open>t\<close> without trailing whitespace is left alone by the loop.\<close>

definition edition_free :: "string \<Rightarrow> bool" where
  "edition_free t \<longleftrightarrow> t = [] \<or> last t \<noteq> CHR '')'' \<or> CHR ''('' \<notin> set t
     \<or> (\<exists>p r. t = p @ CHR ''('' # r @ '')'' \<and> CHR ''('' \<notin> set r \<and> \<not> has_keyword r)"

lemma rfind_None: "rfind d s = None \<longleftrightarrow> d \<notin> set s"
  by (induction s) (auto split: option.split)

lemma rfind_append: "d \<notin> set q \<Longrightarrow> rfind d (p @ d # q) = Some (length p)"
proof (induction p)
  case Nil
  then have "rfind d q = None" by (simp add: rfind_None)
  then show ?case by simp
qed simp

lemma strip_stuck: "edition_free (trim_end w) \<Longrightarrow> strip_editions w = w"
proof -
  assume "edition_free (trim_end w)"
  then consider "trim_end w = [] \<or> last (trim_end w) \<noteq> CHR '')''" | "CHR ''('' \<notin> set (trim_end w)"
    | p r where "trim_end w = p @ CHR ''('' # r @ '')''" "CHR ''('' \<notin> set r" "\<not> has_keyword r"
    by (auto simp: edition_free_def)
  then show ?thesis
  proof cases
    case 1
    then show ?thesis by (subst strip_editions.simps) (auto simp: Let_def)
  next
    case 2
    then have "rfind CHR ''('' (trim_end w) = None" by (simp add: rfind_None)
    then show ?thesis by (subst strip_editions.simps) (auto simp: Let_def)
  next
    case (3 p r)
    then have "rfind CHR ''('' (trim_end w) = Some (length p)"
      using rfind_append [of "CHR ''(''" "r @ '')''" p] by simp
    with 3 show ?thesis by (subst strip_editions.simps) (auto simp: Let_def)
  qed
qed

lemma strip_result: "edition_free (trim_end (strip_editions w))"
proof (induction w rule: strip_editions.induct)
  case (1 w)
  let ?t = "trim_end w"
  show ?case
  proof (cases "?t = [] \<or> last ?t \<noteq> CHR '')''")
    case True
    then show ?thesis by (subst strip_editions.simps) (auto simp: Let_def edition_free_def)
  next
    case end_paren: False
    show ?thesis
    proof (cases "rfind CHR ''('' ?t")
      case None
      then have "edition_free ?t" by (simp add: edition_free_def rfind_None)
      with strip_stuck [of w] show ?thesis by simp
    next
      case (Some i)
      let ?inner = "take (length ?t - 1 - (i + 1)) (drop (i + 1) ?t)"
      from rfind_Some [OF Some] have i: "i < length ?t" "?t ! i = CHR ''(''"
        "CHR ''('' \<notin> set (drop (Suc i) ?t)" by auto
      show ?thesis
      proof (cases "has_keyword ?inner")
        case True
        with Some end_paren have eq: "strip_editions w = strip_editions (trim_end (take i ?t))"
          by (subst strip_editions.simps) (simp add: Let_def)
        from "1.IH" [OF refl end_paren Some] True show ?thesis unfolding eq by simp
      next
        case False
        have "Suc i < length ?t"
        proof (rule ccontr)
          assume "\<not> Suc i < length ?t"
          with i(1) have "last ?t = ?t ! i" using end_paren
            by (metis Suc_lessI diff_Suc_1 last_conv_nth)
          with i(2) end_paren show False by simp
        qed
        then have d: "drop (Suc i) ?t \<noteq> []" by simp
        have "last (drop (Suc i) ?t) = CHR '')''"
          using end_paren \<open>Suc i < length ?t\<close> by (simp add: last_drop)
        with d have "drop (Suc i) ?t = butlast (drop (Suc i) ?t) @ '')''"
          by (metis append_butlast_last_id)
        moreover have "butlast (drop (Suc i) ?t) = ?inner"
          by (simp add: butlast_conv_take)
        moreover have "?t = take i ?t @ CHR ''('' # drop (Suc i) ?t"
          using id_take_nth_drop [OF i(1)] i(2) by simp
        ultimately have "?t = take i ?t @ CHR ''('' # ?inner @ '')''" by metis
        moreover have "CHR ''('' \<notin> set ?inner" using i(3) by (auto dest: in_set_takeD)
        ultimately have "edition_free ?t" using False unfolding edition_free_def by blast
        with strip_stuck [of w] show ?thesis by simp
      qed
    qed
  qed
qed

lemma collapse_append: "\<not> is_ws c \<Longrightarrow> collapse_ws b (p @ c # q) = collapse_ws b p @ c # collapse_ws False q"
  by (induction p arbitrary: b) auto

lemma paren_not_ws: "\<not> is_ws CHR ''(''" "\<not> is_ws CHR '')''"
  by (simp_all add: is_ws_def byte_def)

lemma edition_free_collapse:
  assumes "edition_free t" "t = [] \<or> \<not> is_ws (last t)"
  shows "edition_free (collapse_ws True t)"
  using assms(1) [unfolded edition_free_def]
proof (elim disjE exE conjE)
  assume "t = []" then show "edition_free (collapse_ws True t)" by (simp add: edition_free_def)
next
  assume l: "last t \<noteq> CHR '')''"
  show "edition_free (collapse_ws True t)"
  proof (cases "t = []")
    case False
    with assms(2) last_collapse_ws [of t True] l show ?thesis by (simp add: edition_free_def)
  qed (simp add: edition_free_def)
next
  assume "CHR ''('' \<notin> set t"
  then show "edition_free (collapse_ws True t)"
    using set_collapse_ws [of True t] by (auto simp: edition_free_def)
next
  fix p r
  assume t: "t = p @ CHR ''('' # r @ '')''" and r: "CHR ''('' \<notin> set r" "\<not> has_keyword r"
  have "collapse_ws True t = collapse_ws True p @ CHR ''('' # collapse_ws False r @ '')''"
    using collapse_append [OF paren_not_ws(1), of True p "r @ '')''"]
      collapse_append [OF paren_not_ws(2), of False r "[]"] by (simp add: t)
  moreover have "CHR ''('' \<notin> set (collapse_ws False r)" using set_collapse_ws [of False r] r(1) by auto
  ultimately show "edition_free (collapse_ws True t)"
    using r(2) has_keyword_collapse [of False r] unfolding edition_free_def by blast
qed

lemma collapse_ws_idem: "collapse_ws b (collapse_ws b s) = collapse_ws b s"
proof (induction b s rule: collapse_ws.induct)
  case (2 prev c cs)
  then show ?case using is_ws_space by (cases "is_ws c"; cases prev) simp_all
qed simp

text \<open>Normalising a title twice changes nothing, so matching by normalised titles is an equivalence whose
  classes the normal forms represent. The normal form carries no trailing edition marker (no final
  parenthesis with one of the edition keywords in it), no trailing whitespace and no capital of
  ASCII; the loop that strips the markers always ends.\<close>

theorem normal_titles_are_fixed:
  "normalize_title (normalize_title s) = normalize_title s
   \<and> edition_free (normalize_title s)
   \<and> trim_end (normalize_title s) = normalize_title s
   \<and> lower (normalize_title s) = normalize_title s"
proof -
  let ?w = "strip_editions (lower s)"
  let ?n = "collapse_ws True (trim_end ?w)"
  have n: "normalize_title s = ?n" by (simp add: normalize_title_def pop_space_collapse)
  have tl: "trim_end ?w = [] \<or> \<not> is_ws (last (trim_end ?w))" using trim_end_last by blast
  have ln: "?n = [] \<or> \<not> is_ws (last ?n)"
    using last_collapse_ws [of "trim_end ?w" True] tl by (cases "trim_end ?w = []") simp_all
  then have te: "trim_end ?n = ?n" by (simp add: trim_end_fixed)
  have ed: "edition_free ?n" by (rule edition_free_collapse [OF strip_result tl])
  have "strip_editions ?n = ?n" by (rule strip_stuck) (simp add: te ed)
  with normalize_lowered [of s] te collapse_ws_idem [of True "trim_end ?w"] ed show ?thesis
    by (simp add: n normalize_title_def [of ?n] pop_space_collapse trim_end_fixed [OF tl])
qed

end
