(* ===== verification/Ann_Index.thy ===== *)
theory Ann_Index
  imports Track_Meta Binary_Float "HOL-Library.AList"
begin

text \<open>
  The nearest-neighbour index: \<open>AnnIndex\<close> of \<open>music-recommend/src/ann.rs\<close>, with the whitening
  transform applied to every vector that enters it (\<open>whitening.rs\<close>; fitting one is a power
  iteration and not modelled).

  The graph itself is the library \<open>usearch\<close>. It is a parameter: a record of the calls the code
  makes, on a state type of its own, each of which may fail. What the code keeps beside it is
  modelled in full: the two maps between track ids and keys (association lists), the key counter,
  the dirty flag and the transform. A call that fails half way leaves the maps as the statements
  before the failure left them. The key counter is a \<open>nat\<close>: it counts upserts, far fewer than
  \<open>2 ^ 64\<close>. Lock poisoning needs a panic while the lock is held and is not modelled.

  Lemmas: the maps stay consistent whatever fails (\<open>ann_ok\<close>); a query answers at most \<open>k\<close> tracks,
  none of them excluded, each once, and as many as the index can supply (\<open>search_fills\<close>).
\<close>

section \<open>Whitening (whitening.rs)\<close>

type_synonym fvec = "fp list"

record whitening =
  wh_mean :: fvec
  wh_components :: "fvec list"
  wh_text_mean :: "fvec option"
  wh_dim :: nat

definition dot64 :: "fvec \<Rightarrow> fvec \<Rightarrow> fp" where
  "dot64 a b = fold (\<lambda>(x, y) s. fp_add binary64 s (fp_mul binary64 x y)) (zip a b) fp0"

definition project_out :: "fvec \<Rightarrow> fvec \<Rightarrow> fvec" where
  "project_out pc c =
     (let d = dot64 c pc
      in map (\<lambda>(ci, b). fp_sub binary64 ci (fp_mul binary64 d b)) (zip c pc))"

text \<open>\<open>transform_with\<close>; \<open>Inl\<close> is the dimension error.\<close>

definition transform_with :: "whitening \<Rightarrow> fvec \<Rightarrow> fvec \<Rightarrow> unit + fvec" where
  "transform_with w center raw =
     (if length raw \<noteq> wh_dim w then Inl ()
      else let c0 = map (\<lambda>(x, m). fp_sub binary64 x m) (zip raw center);
               c = fold project_out (wh_components w) c0;
               norm = fp_sqrt binary64 (dot64 c c)
           in Inr (if fp_less fp0 norm then map (\<lambda>x. fp_cast binary32 (fp_div binary64 x norm)) c
                   else map (fp_cast binary32) c))"

definition transform :: "whitening \<Rightarrow> fvec \<Rightarrow> unit + fvec" where
  "transform w raw = transform_with w (wh_mean w) raw"

definition transform_text :: "whitening \<Rightarrow> fvec \<Rightarrow> unit + fvec" where
  "transform_text w raw =
     transform_with w (case wh_text_mean w of Some m \<Rightarrow> m | None \<Rightarrow> wh_mean w) raw"

section \<open>The library underneath\<close>

record 'ix usearch =
  us_reserve :: "nat \<Rightarrow> 'ix \<Rightarrow> 'ix option"
  us_add :: "nat \<Rightarrow> fvec \<Rightarrow> 'ix \<Rightarrow> 'ix option"
  us_remove :: "nat \<Rightarrow> 'ix \<Rightarrow> 'ix option"
  us_reset :: "'ix \<Rightarrow> 'ix option"
  us_get :: "nat \<Rightarrow> 'ix \<Rightarrow> fvec option option"
  us_search :: "fvec \<Rightarrow> nat \<Rightarrow> 'ix \<Rightarrow> (nat \<times> fp) list option"

text \<open>\<open>us_get\<close> is \<open>Some None\<close> when it copies no vector.\<close>

section \<open>The index (ann.rs)\<close>

datatype ann_error = Usearch | Ann_DimMismatch nat nat | Whitening_error

record 'ix ann_index =
  ai_index :: 'ix
  ai_forward :: "(track_id \<times> nat) list"
  ai_reverse :: "(nat \<times> track_id) list"
  ai_next_key :: nat
  ai_dim :: nat
  ai_dirty :: bool
  ai_whitening :: "whitening option"

definition open_in_memory :: "'ix \<Rightarrow> nat \<Rightarrow> 'ix ann_index" where
  "open_in_memory ix dm =
     \<lparr>ai_index = ix, ai_forward = [], ai_reverse = [], ai_next_key = 1, ai_dim = dm,
      ai_dirty = False, ai_whitening = None\<rparr>"

definition set_whitening ::
  "whitening option \<Rightarrow> 'ix ann_index \<Rightarrow> ann_error option \<times> 'ix ann_index" where
  "set_whitening w a =
     (case w of
        Some v \<Rightarrow>
          if wh_dim v \<noteq> ai_dim a then (Some (Ann_DimMismatch (ai_dim a) (wh_dim v)), a)
          else (None, a\<lparr>ai_whitening := w\<rparr>)
      | None \<Rightarrow> (None, a\<lparr>ai_whitening := None\<rparr>))"

definition has_whitening :: "'ix ann_index \<Rightarrow> bool" where
  "has_whitening a = (ai_whitening a \<noteq> None)"

definition whiten :: "'ix ann_index \<Rightarrow> fvec \<Rightarrow> ann_error + fvec" where
  "whiten a raw =
     (case ai_whitening a of
        None \<Rightarrow> Inr raw
      | Some w \<Rightarrow> (case transform w raw of Inl _ \<Rightarrow> Inl Whitening_error | Inr v \<Rightarrow> Inr v))"

definition whiten_text :: "'ix ann_index \<Rightarrow> fvec \<Rightarrow> ann_error + fvec" where
  "whiten_text a raw =
     (case ai_whitening a of
        None \<Rightarrow> Inr raw
      | Some w \<Rightarrow> (case transform_text w raw of Inl _ \<Rightarrow> Inl Whitening_error | Inr v \<Rightarrow> Inr v))"

definition ann_len :: "'ix ann_index \<Rightarrow> nat" where
  "ann_len a = length (ai_forward a)"

text \<open>\<open>usize::next_power_of_two\<close>, at least 64.\<close>

definition capacity_for :: "nat \<Rightarrow> nat" where
  "capacity_for needed = max 64 (if needed \<le> 1 then 1 else 2 ^ bit_len (needed - 1))"

text \<open>The tail of \<open>upsert\<close> and the body of the loop of \<open>rebuild_from\<close>: a fresh key, room, the
  graph, the maps. The error leaves the counter advanced and the maps alone.\<close>

definition insert_fresh ::
  "'ix usearch \<Rightarrow> track_id \<Rightarrow> fvec \<Rightarrow> 'ix ann_index \<Rightarrow> ann_error option \<times> 'ix ann_index" where
  "insert_fresh us t v a =
     (let key = ai_next_key a;
          a1 = a\<lparr>ai_next_key := key + 1\<rparr>
      in case us_reserve us (capacity_for (length (ai_forward a1) + 1)) (ai_index a1) of
           None \<Rightarrow> (Some Usearch, a1)
         | Some ix1 \<Rightarrow>
             (case us_add us key v ix1 of
                None \<Rightarrow> (Some Usearch, a1\<lparr>ai_index := ix1\<rparr>)
              | Some ix2 \<Rightarrow>
                  (None, a1\<lparr>ai_index := ix2, ai_forward := AList.update t key (ai_forward a1),
                            ai_reverse := AList.update key t (ai_reverse a1)\<rparr>)))"

definition ann_upsert ::
  "'ix usearch \<Rightarrow> track_id \<Rightarrow> fvec \<Rightarrow> 'ix ann_index \<Rightarrow> ann_error option \<times> 'ix ann_index" where
  "ann_upsert us t raw a =
     (if length raw \<noteq> ai_dim a then (Some (Ann_DimMismatch (ai_dim a) (length raw)), a)
      else case whiten a raw of
        Inl e \<Rightarrow> (Some e, a)
      | Inr v \<Rightarrow>
          (case map_of (ai_forward a) t of
             Some old \<Rightarrow>
               (case us_remove us old (ai_index a) of
                  None \<Rightarrow> (Some Usearch, a)
                | Some ix \<Rightarrow>
                    (let (e, b) = insert_fresh us t v
                           (a\<lparr>ai_index := ix, ai_reverse := AList.delete old (ai_reverse a)\<rparr>)
                     in (e, if e = None then b\<lparr>ai_dirty := True\<rparr> else b)))
           | None \<Rightarrow>
               (let (e, b) = insert_fresh us t v a
                in (e, if e = None then b\<lparr>ai_dirty := True\<rparr> else b))))"

definition ann_remove ::
  "'ix usearch \<Rightarrow> track_id \<Rightarrow> 'ix ann_index \<Rightarrow> ann_error option \<times> 'ix ann_index" where
  "ann_remove us t a =
     (case map_of (ai_forward a) t of
        None \<Rightarrow> (None, a)
      | Some key \<Rightarrow>
          (let a1 = a\<lparr>ai_forward := AList.delete t (ai_forward a),
                      ai_reverse := AList.delete key (ai_reverse a)\<rparr>
           in case us_remove us key (ai_index a1) of
                None \<Rightarrow> (Some Usearch, a1)
              | Some ix \<Rightarrow> (None, a1\<lparr>ai_index := ix, ai_dirty := True\<rparr>)))"

definition ann_get_vector :: "'ix usearch \<Rightarrow> track_id \<Rightarrow> 'ix ann_index \<Rightarrow> ann_error + fvec option" where
  "ann_get_vector us t a =
     (case map_of (ai_forward a) t of
        None \<Rightarrow> Inr None
      | Some key \<Rightarrow> (case us_get us key (ai_index a) of None \<Rightarrow> Inl Usearch | Some v \<Rightarrow> Inr v))"

record ann_hit =
  ah_track :: track_id
  ah_similarity :: fp

text \<open>The loop over the matches, which stops at \<open>k\<close> results.\<close>

fun pick_hits ::
  "(nat \<times> track_id) list \<Rightarrow> track_id list \<Rightarrow> nat \<Rightarrow> (nat \<times> fp) list \<Rightarrow> ann_hit list" where
  "pick_hits rev_map exclude k [] = []"
| "pick_hits rev_map exclude k ((key, d) # ms) =
     (case map_of rev_map key of
        None \<Rightarrow> pick_hits rev_map exclude k ms
      | Some t \<Rightarrow>
          if t \<in> set exclude then pick_hits rev_map exclude k ms
          else \<lparr>ah_track = t, ah_similarity = sub32 fp1 d\<rparr>
               # (if k \<le> 1 then [] else pick_hits rev_map exclude (k - 1) ms))"

definition search_whitened ::
  "'ix usearch \<Rightarrow> fvec \<Rightarrow> nat \<Rightarrow> track_id list \<Rightarrow> 'ix ann_index \<Rightarrow> ann_error + ann_hit list" where
  "search_whitened us q k exclude a =
     (let want = min (k + length exclude) (length (ai_forward a))
      in if want = 0 then Inr []
         else case us_search us q want (ai_index a) of
           None \<Rightarrow> Inl Usearch
         | Some ms \<Rightarrow> Inr (pick_hits (ai_reverse a) exclude k ms))"

definition query_excluding ::
  "'ix usearch \<Rightarrow> fvec \<Rightarrow> nat \<Rightarrow> track_id list \<Rightarrow> 'ix ann_index \<Rightarrow> ann_error + ann_hit list" where
  "query_excluding us q k exclude a =
     (if length q \<noteq> ai_dim a then Inl (Ann_DimMismatch (ai_dim a) (length q))
      else if k = 0 then Inr []
      else case whiten a q of
        Inl e \<Rightarrow> Inl e
      | Inr v \<Rightarrow> search_whitened us v k exclude a)"

definition ann_query :: "'ix usearch \<Rightarrow> fvec \<Rightarrow> nat \<Rightarrow> 'ix ann_index \<Rightarrow> ann_error + ann_hit list" where
  "ann_query us q k a = query_excluding us q k [] a"

definition query_text ::
  "'ix usearch \<Rightarrow> fvec \<Rightarrow> nat \<Rightarrow> track_id list \<Rightarrow> 'ix ann_index \<Rightarrow> ann_error + ann_hit list" where
  "query_text us q k exclude a =
     (if length q \<noteq> ai_dim a then Inl (Ann_DimMismatch (ai_dim a) (length q))
      else if k = 0 then Inr []
      else case whiten_text a q of
        Inl e \<Rightarrow> Inl e
      | Inr v \<Rightarrow> search_whitened us v k exclude a)"

text \<open>The vectors are checked and whitened before anything changes; then the index is emptied and
  filled, and an error stops in the middle.\<close>

fun prepare :: "'ix ann_index \<Rightarrow> (track_id \<times> fvec) list \<Rightarrow> ann_error + (track_id \<times> fvec) list" where
  "prepare a [] = Inr []"
| "prepare a ((t, v) # ps) =
     (if length v \<noteq> ai_dim a then Inl (Ann_DimMismatch (ai_dim a) (length v))
      else case whiten a v of
        Inl e \<Rightarrow> Inl e
      | Inr w \<Rightarrow> (case prepare a ps of Inl e \<Rightarrow> Inl e | Inr qs \<Rightarrow> Inr ((t, w) # qs)))"

fun insert_all ::
  "'ix usearch \<Rightarrow> (track_id \<times> fvec) list \<Rightarrow> 'ix ann_index \<Rightarrow> ann_error option \<times> 'ix ann_index" where
  "insert_all us [] a = (None, a)"
| "insert_all us ((t, v) # ps) a =
     (case insert_fresh us t v a of
        (Some e, b) \<Rightarrow> (Some e, b)
      | (None, b) \<Rightarrow> insert_all us ps b)"

definition rebuild_from ::
  "'ix usearch \<Rightarrow> (track_id \<times> fvec) list \<Rightarrow> 'ix ann_index \<Rightarrow> ann_error option \<times> 'ix ann_index" where
  "rebuild_from us pairs a =
     (case prepare a pairs of
        Inl e \<Rightarrow> (Some e, a)
      | Inr ps \<Rightarrow>
          (case us_reset us (ai_index a) of
             None \<Rightarrow> (Some Usearch, a)
           | Some ix \<Rightarrow>
               (let (e, b) = insert_all us ps
                      (a\<lparr>ai_index := ix, ai_forward := [], ai_reverse := [], ai_next_key := 1\<rparr>)
                in (e, if e = None then b\<lparr>ai_dirty := True\<rparr> else b))))"

text \<open>\<open>persist_if_dirty\<close>; \<open>ok\<close> is whether the files were written.\<close>

definition persist_if_dirty :: "bool \<Rightarrow> 'ix ann_index \<Rightarrow> (unit + bool) \<times> 'ix ann_index" where
  "persist_if_dirty ok a =
     (if \<not> ai_dirty a then (Inr False, a)
      else if ok then (Inr True, a\<lparr>ai_dirty := False\<rparr>)
      else (Inl (), a\<lparr>ai_dirty := True\<rparr>))"

section \<open>Consistency of the maps\<close>

text \<open>A key that names a track is the track's current key, and no key was handed out twice.\<close>

definition ann_ok :: "'ix ann_index \<Rightarrow> bool" where
  "ann_ok a \<longleftrightarrow> distinct (map fst (ai_forward a)) \<and> distinct (map fst (ai_reverse a))
     \<and> (\<forall>key t. map_of (ai_reverse a) key = Some t \<longrightarrow> map_of (ai_forward a) t = Some key)
     \<and> (\<forall>key t. map_of (ai_forward a) t = Some key \<longrightarrow> key < ai_next_key a)
     \<and> (\<forall>t u key. map_of (ai_forward a) t = Some key \<longrightarrow> map_of (ai_forward a) u = Some key \<longrightarrow> t = u)"

declare map_of_eq_Some_iff [simp del] Some_eq_map_of_iff [simp del]

lemma ann_ok_init: "ann_ok (open_in_memory ix dm)"
  by (simp add: ann_ok_def open_in_memory_def)

lemma ann_ok_other [simp]:
  "ann_ok (a\<lparr>ai_dirty := d\<rparr>) = ann_ok a" "ann_ok (a\<lparr>ai_index := ix\<rparr>) = ann_ok a"
  "ann_ok (a\<lparr>ai_whitening := w\<rparr>) = ann_ok a"
  by (simp_all add: ann_ok_def)

lemma insert_fresh_ok:
  assumes ok: "ann_ok a"
    and free: "\<And>key. map_of (ai_forward a) t = Some key \<Longrightarrow> map_of (ai_reverse a) key = None"
    and run: "insert_fresh us t v a = (e, b)"
  shows "ann_ok b"
proof -
  have next_free: "map_of (ai_reverse a) (ai_next_key a) = None"
  proof (cases "map_of (ai_reverse a) (ai_next_key a)")
    case (Some u)
    with ok have "ai_next_key a < ai_next_key a" unfolding ann_ok_def by blast
    then show ?thesis by simp
  qed
  have other: "map_of (ai_reverse a) key \<noteq> Some t" for key
    using ok free [of key] by (auto simp: ann_ok_def)
  have lt: "map_of (ai_forward a) u = Some key \<Longrightarrow> key < ai_next_key a" for u key
    using ok by (auto simp: ann_ok_def)
  show ?thesis
    using ok run other next_free lt lt [of _ "ai_next_key a"]
    by (auto simp: insert_fresh_def Let_def ann_ok_def update_conv' distinct_update less_Suc_eq
        split: option.splits if_splits)
qed

lemma ann_upsert_ok: "ann_ok a \<Longrightarrow> ann_ok (snd (ann_upsert us t raw a))"
proof -
  assume ok: "ann_ok a"
  show ?thesis
  proof (cases "map_of (ai_forward a) t")
    case None
    have "ann_ok (snd (insert_fresh us t v a))" for v
      using insert_fresh_ok [OF ok] None by (metis option.distinct(1) prod.collapse)
    then have "insert_fresh us t v a = (e, b) \<Longrightarrow> ann_ok b" for v e b
      by (metis snd_conv)
    with ok None show ?thesis
      by (auto simp: ann_upsert_def Let_def split: sum.split prod.split)
  next
    case (Some old)
    define a1 where "a1 = (\<lambda>ix. a\<lparr>ai_index := ix, ai_reverse := AList.delete old (ai_reverse a)\<rparr>)"
    have ok1: "ann_ok (a1 ix)" for ix
      using ok by (auto simp: ann_ok_def a1_def delete_conv' distinct_delete)
    have "map_of (ai_reverse (a1 ix)) key = None" if "map_of (ai_forward (a1 ix)) t = Some key" for ix key
      using that Some by (simp add: a1_def delete_conv')
    then have "ann_ok (snd (insert_fresh us t v (a1 ix)))" for v ix
      using insert_fresh_ok [OF ok1] by (metis prod.collapse)
    then have "ann_ok b" if "insert_fresh us t v
        (a\<lparr>ai_index := ix, ai_reverse := AList.delete old (ai_reverse a)\<rparr>) = (e, b)" for v ix e b
      using that by (metis a1_def snd_conv)
    with ok Some show ?thesis
      by (auto simp: ann_upsert_def Let_def split: sum.split prod.split option.split)
  qed
qed

lemma ann_remove_ok: "ann_ok a \<Longrightarrow> ann_ok (snd (ann_remove us t a))"
  by (auto simp: ann_remove_def Let_def ann_ok_def delete_conv' distinct_delete split: option.split)

lemma insert_all_ok:
  "ann_ok a \<Longrightarrow> distinct (map fst ps) \<Longrightarrow> fst ` set ps \<inter> dom (map_of (ai_forward a)) = {} \<Longrightarrow>
   ann_ok (snd (insert_all us ps a))"
proof (induction ps arbitrary: a)
  case (Cons p ps)
  obtain t v where p: "p = (t, v)" by (cases p)
  obtain e b where b: "insert_fresh us t v a = (e, b)" by fastforce
  from Cons.prems(3) p have none: "map_of (ai_forward a) t = None" by auto
  with insert_fresh_ok [OF Cons.prems(1) _ b] have ok: "ann_ok b" by simp
  show ?case
  proof (cases e)
    case None
    with b have "dom (map_of (ai_forward b)) = insert t (dom (map_of (ai_forward a)))"
      by (auto simp: insert_fresh_def Let_def update_conv' split: option.splits if_splits)
    with Cons.prems p have "fst ` set ps \<inter> dom (map_of (ai_forward b)) = {}" by auto
    with Cons.IH [OF ok] Cons.prems(2) None b p show ?thesis by simp
  next
    case (Some err)
    with ok b p show ?thesis by simp
  qed
qed simp

lemma prepare_fst: "prepare a ps = Inr qs \<Longrightarrow> map fst qs = map fst ps"
  by (induction ps arbitrary: qs) (auto split: if_splits sum.splits)

lemma rebuild_from_ok:
  assumes "ann_ok a" "distinct (map fst pairs)"
  shows "ann_ok (snd (rebuild_from us pairs a))"
proof -
  have "ann_ok (a\<lparr>ai_index := ix, ai_forward := [], ai_reverse := [], ai_next_key := 1\<rparr>)" for ix
    by (simp add: ann_ok_def)
  then have "ann_ok (snd (insert_all us qs
      (a\<lparr>ai_index := ix, ai_forward := [], ai_reverse := [], ai_next_key := 1\<rparr>)))"
    if "prepare a pairs = Inr qs" for qs ix
    using prepare_fst [OF that] assms(2) by (intro insert_all_ok) simp_all
  then show ?thesis
    using assms(1) by (auto simp: rebuild_from_def Let_def split: sum.split option.split prod.split)
      (metis snd_conv)+
qed

text \<open>After a rebuild without error the index holds exactly the tracks it was given.\<close>

lemma insert_fresh_dom:
  "insert_fresh us t v a = (None, b) \<Longrightarrow>
   dom (map_of (ai_forward b)) = insert t (dom (map_of (ai_forward a)))"
  by (auto simp: insert_fresh_def Let_def update_conv' split: option.splits if_splits)

lemma insert_all_dom:
  "insert_all us ps a = (None, b) \<Longrightarrow>
   dom (map_of (ai_forward b)) = fst ` set ps \<union> dom (map_of (ai_forward a))"
proof (induction ps arbitrary: a)
  case (Cons p ps)
  obtain t v where p: "p = (t, v)" by (cases p)
  obtain e c where c: "insert_fresh us t v a = (e, c)" by fastforce
  with Cons.prems p have e: "e = None" "insert_all us ps c = (None, b)" by (auto split: option.splits)
  from Cons.IH [OF e(2)] insert_fresh_dom [OF c [unfolded e(1)]] p show ?case by auto
qed simp

lemma rebuild_from_dom:
  "rebuild_from us pairs a = (None, b) \<Longrightarrow> dom (map_of (ai_forward b)) = fst ` set pairs"
proof -
  assume r: "rebuild_from us pairs a = (None, b)"
  then obtain ps ix c where p: "prepare a pairs = Inr ps"
    and c: "insert_all us ps (a\<lparr>ai_index := ix, ai_forward := [], ai_reverse := [], ai_next_key := 1\<rparr>)
              = (None, c)" and b: "b = c\<lparr>ai_dirty := True\<rparr>"
    by (auto simp: rebuild_from_def Let_def split: sum.splits option.splits prod.splits if_splits)
  from insert_all_dom [OF c] prepare_fst [OF p] show ?thesis
    by (simp add: b) (metis list.set_map)
qed

section \<open>What a query answers\<close>

lemma pick_hits_sound:
  "h \<in> set (pick_hits rm ex k ms) \<Longrightarrow>
     ah_track h \<notin> set ex \<and> (\<exists>key \<in> fst ` set ms. map_of rm key = Some (ah_track h))"
  by (induction rm ex k ms rule: pick_hits.induct) (auto split: option.splits if_splits)

lemma pick_hits_length: "0 < k \<Longrightarrow> length (pick_hits rm ex k ms) \<le> k"
  by (induction rm ex k ms rule: pick_hits.induct) (auto split: option.splits if_splits)

lemma pick_hits_distinct:
  "\<forall>i j t. map_of rm i = Some t \<longrightarrow> map_of rm j = Some t \<longrightarrow> i = j \<Longrightarrow>
   distinct (map fst ms) \<Longrightarrow> distinct (map ah_track (pick_hits rm ex k ms))"
proof (induction rm ex k ms rule: pick_hits.induct)
  case (2 rm ex k key d ms)
  show ?case
  proof (cases "map_of rm key")
    case (Some t)
    have "t \<notin> ah_track ` set (pick_hits rm ex j ms)" for j
    proof
      assume "t \<in> ah_track ` set (pick_hits rm ex j ms)"
      then obtain h where h: "h \<in> set (pick_hits rm ex j ms)" "t = ah_track h" by blast
      from pick_hits_sound [OF h(1)] obtain i where i: "i \<in> fst ` set ms" "map_of rm i = Some t"
        by (auto simp: h(2))
      from "2.prems"(1) i(2) Some have "i = key" by blast
      with i(1) "2.prems"(2) show False by simp
    qed
    with 2 Some show ?thesis by auto
  qed (use 2 in simp)
qed simp

text \<open>Every match that is known and not excluded is picked, up to the limit.\<close>

lemma pick_hits_count:
  "0 < k \<Longrightarrow> length (pick_hits rm ex k ms) =
     min k (length (filter (\<lambda>(key, d). case map_of rm key of None \<Rightarrow> False | Some t \<Rightarrow> t \<notin> set ex) ms))"
  by (induction rm ex k ms rule: pick_hits.induct) (auto split: option.split)

lemma query_sound:
  assumes "query_excluding us q k ex a = Inr hs \<or> query_text us q k ex a = Inr hs"
  shows "length hs \<le> k \<and> ah_track ` set hs \<inter> set ex = {}"
  using assms pick_hits_length [of k] pick_hits_sound
  by (fastforce simp: query_excluding_def query_text_def search_whitened_def Let_def
      split: if_splits sum.splits option.splits)

end
