(* ===== verification/Ingest.thy ===== *)
theory Ingest
  imports Ann_Index
begin

text \<open>
  The ingest pipeline (\<open>music-recommend/src/ingest.rs\<close>) over the queue of \<open>Embedding_Store\<close>, the
  metadata cache and the index: one worker's \<open>process_next\<close> and \<open>drain\<close>. \<open>Ingest_Laws\<close> holds the rest
  of the pipeline.

  What a call meets outside is an \<open>ingest_env\<close>: the answers of the metadata and audio fetchers and
  of the embedder, and whether each SQL statement succeeds. \<open>drain\<close> meets a new one per turn; it is
  a function that terminates because each turn takes a row out of the backlog.
\<close>

section \<open>One worker (ingest.rs)\<close>

datatype fetch_error = Transport string | NotFound track_id

datatype embedder_error = ModelNotLoaded | Embedder_other string

definition fetch_error_str :: "fetch_error \<Rightarrow> string" where
  "fetch_error_str e =
     (case e of Transport s \<Rightarrow> ''transport: '' @ s | NotFound t \<Rightarrow> ''not found: '' @ track_str t)"

definition format_embedder_error :: "embedder_error \<Rightarrow> string" where
  "format_embedder_error e =
     (case e of ModelNotLoaded \<Rightarrow> ''embedder: model not loaded (503)''
      | Embedder_other s \<Rightarrow> ''embedder: '' @ s)"

record ingest_env =
  ie_metadata :: "(track_id \<Rightarrow> track_metadata option) option"
  ie_fetch_clip :: "track_id \<Rightarrow> fetch_error + string"
  ie_embed_audio :: "string \<Rightarrow> embedder_error + vec_bits"
  ie_claim_ok :: bool
  ie_meta_ok :: bool
  ie_mark_ok :: bool
  ie_now :: int

text \<open>\<open>ie_metadata = None\<close> is a worker without the metadata hook.\<close>

record 'ix ingest_state =
  is_emb :: embedding_table
  is_meta :: meta_table
  is_ann :: "'ix ann_index"

datatype ingest_outcome = Embedded | Ingest_failed | Idle

definition embed_one :: "ingest_env \<Rightarrow> track_id \<Rightarrow> string + vec_bits" where
  "embed_one env t =
     (case ie_fetch_clip env t of
        Inl e \<Rightarrow> Inl (''fetch: '' @ fetch_error_str e)
      | Inr clip \<Rightarrow>
          (case ie_embed_audio env clip of
             Inl e \<Rightarrow> Inl (format_embedder_error e)
           | Inr v \<Rightarrow> Inr v))"

definition metadata_step :: "ingest_env \<Rightarrow> track_id \<Rightarrow> meta_table \<Rightarrow> meta_table" where
  "metadata_step env t tab =
     (case ie_metadata env of
        None \<Rightarrow> tab
      | Some fetch \<Rightarrow>
          (case fetch t of
             None \<Rightarrow> tab
           | Some m \<Rightarrow> if ie_meta_ok env then meta_upsert m (ie_now env) tab else tab))"

text \<open>The error is an infrastructure failure: the row stays in progress.\<close>

definition process_next ::
  "'ix usearch \<Rightarrow> model_version \<Rightarrow> ingest_env \<Rightarrow> 'ix ingest_state
    \<Rightarrow> (unit + ingest_outcome) \<times> 'ix ingest_state" where
  "process_next us mv env s =
     (if \<not> ie_claim_ok env then (Inl (), s)
      else case claim_next mv (ie_now env) (is_emb s) of
        (None, _) \<Rightarrow> (Inr Idle, s)
      | (Some k, emb1) \<Rightarrow>
          (let s1 = s\<lparr>is_emb := emb1, is_meta := metadata_step env (ek_track k) (is_meta s)\<rparr>
           in case embed_one env (ek_track k) of
                Inr v \<Rightarrow>
                  if \<not> ie_mark_ok env then (Inl (), s1)
                  else (let s2 = s1\<lparr>is_emb := mark_done \<lparr>em_key = k, em_vector = v\<rparr> (ie_now env) emb1\<rparr>
                        in (Inr Embedded,
                            s2\<lparr>is_ann := snd (ann_upsert us (ek_track k) (map decode32 v) (is_ann s2))\<rparr>))
              | Inl reason \<Rightarrow>
                  if \<not> ie_mark_ok env then (Inl (), s1)
                  else (Inr Ingest_failed, s1\<lparr>is_emb := mark_failed k reason (ie_now env) emb1\<rparr>)))"

section \<open>The backlog shrinks\<close>

lemma count_update_one:
  assumes "distinct (map te_key t)" "find_row k t = Some r" "\<And>x. te_key (f x) = te_key x"
  shows "count_status mv st (update_where (\<lambda>x. te_key x = k) f t)
           + (if te_model r = mv \<and> te_status r = st then 1 else 0)
         = count_status mv st t + (if te_model (f r) = mv \<and> te_status (f r) = st then 1 else 0)"
  using assms(1,2)
proof (induction t)
  case (Cons x t)
  show ?case
  proof (cases "te_key x = k")
    case True
    with Cons.prems have "k \<notin> te_key ` set t" "x = r" by (auto simp: find_row_def)
    then have "update_where (\<lambda>x. te_key x = k) f t = t" by (intro update_where_none) auto
    with True \<open>x = r\<close> show ?thesis by (simp add: count_status_def)
  next
    case False
    with Cons show ?thesis by (auto simp: count_status_def find_row_def split: if_splits)
  qed
qed (simp add: find_row_def)

lemma claim_next_find:
  assumes "distinct (map te_key t)" "claim_next mv now t = (Some k, t')"
  obtains r where "find_row k t = Some r" "te_status r = NotStarted" "te_model r = mv"
    "find_row k t' = Some (r\<lparr>te_status := InProgress, te_updated_at := now\<rparr>)"
    "distinct (map te_key t')"
    "t' = update_where (\<lambda>x. te_key x = k) (\<lambda>x. x\<lparr>te_status := InProgress, te_updated_at := now\<rparr>) t"
proof -
  from assms(2) obtain r where r: "next_job mv t = Some r" "k = te_key r"
    and t': "t' = update_where (\<lambda>x. te_key x = k)
             (\<lambda>x. x\<lparr>te_status := InProgress, te_updated_at := now\<rparr>) t"
    by (auto simp: claim_next_def split: option.splits)
  from next_job_Some [OF r(1)] have m: "r \<in> set t" "te_model r = mv" "te_status r = NotStarted"
    by auto
  from find_row_in [OF assms(1) m(1)] have f: "find_row k t = Some r" by (simp add: r(2))
  then have f': "find_row k t' = Some (r\<lparr>te_status := InProgress, te_updated_at := now\<rparr>)"
    by (simp add: t' find_emb_update)
  have "distinct (map te_key t')" using assms(1) by (simp add: t' update_where_keys)
  with f m f' t' show thesis by (intro that) simp_all
qed

text \<open>How a turn that claimed a row moves the counters of the model.\<close>

definition tally :: "model_version \<Rightarrow> embedding_table \<Rightarrow> nat \<times> nat \<times> nat \<times> nat" where
  "tally mv t = (count_status mv NotStarted t, count_status mv InProgress t,
                 count_status mv Done t, count_status mv Failed t)"

lemma claim_tally:
  assumes "distinct (map te_key t)" "claim_next mv now t = (Some k, t')"
  shows "count_status mv NotStarted t = Suc (count_status mv NotStarted t')"
    "count_status mv InProgress t' = Suc (count_status mv InProgress t)"
    "count_status mv Done t' = count_status mv Done t"
    "count_status mv Failed t' = count_status mv Failed t"
proof -
  obtain r where r: "find_row k t = Some r" "te_status r = NotStarted" "te_model r = mv"
    "t' = update_where (\<lambda>x. te_key x = k) (\<lambda>x. x\<lparr>te_status := InProgress, te_updated_at := now\<rparr>) t"
    using claim_next_find [OF assms] by metis
  have c: "count_status mv st t' + (if te_model r = mv \<and> te_status r = st then 1 else 0)
      = count_status mv st t + (if st = InProgress then 1 else 0)" for st
    using count_update_one [OF assms(1) r(1),
        of "\<lambda>x. x\<lparr>te_status := InProgress, te_updated_at := now\<rparr>" mv st] r(2-4) by auto
  show "count_status mv NotStarted t = Suc (count_status mv NotStarted t')"
    "count_status mv InProgress t' = Suc (count_status mv InProgress t)"
    "count_status mv Done t' = count_status mv Done t"
    "count_status mv Failed t' = count_status mv Failed t"
    using c [of NotStarted] c [of InProgress] c [of Done] c [of Failed] r(2,3) by auto
qed

lemma mark_tally:
  assumes "distinct (map te_key t)" "find_row k t = Some r" "te_status r = InProgress" "te_model r = mv"
  shows "tally mv (mark_done \<lparr>em_key = k, em_vector = v\<rparr> now t) =
           (count_status mv NotStarted t, count_status mv InProgress t - 1,
            Suc (count_status mv Done t), count_status mv Failed t)"
    and "tally mv (mark_failed k err now t) =
           (count_status mv NotStarted t, count_status mv InProgress t - 1,
            count_status mv Done t, Suc (count_status mv Failed t))"
proof -
  let ?d = "\<lambda>x. x\<lparr>te_status := Done, te_dim := length v, te_vector := Some (vector_to_blob v),
      te_error := None, te_updated_at := now\<rparr>"
  let ?f = "\<lambda>x. x\<lparr>te_status := Failed, te_error := Some err, te_updated_at := now\<rparr>"
  have d: "count_status mv st (mark_done \<lparr>em_key = k, em_vector = v\<rparr> now t)
      + (if te_status r = st then 1 else 0) = count_status mv st t + (if st = Done then 1 else 0)" for st
    using count_update_one [OF assms(1,2), of ?d mv st] assms(4) by (auto simp: mark_done_def)
  have f: "count_status mv st (mark_failed k err now t)
      + (if te_status r = st then 1 else 0) = count_status mv st t + (if st = Failed then 1 else 0)" for st
    using count_update_one [OF assms(1,2), of ?f mv st] assms(4) by (auto simp: mark_failed_def)
  show "tally mv (mark_done \<lparr>em_key = k, em_vector = v\<rparr> now t) =
           (count_status mv NotStarted t, count_status mv InProgress t - 1,
            Suc (count_status mv Done t), count_status mv Failed t)"
    using d [of NotStarted] d [of InProgress] d [of Done] d [of Failed] assms(3)
    by (auto simp: tally_def)
  show "tally mv (mark_failed k err now t) =
           (count_status mv NotStarted t, count_status mv InProgress t - 1,
            count_status mv Done t, Suc (count_status mv Failed t))"
    using f [of NotStarted] f [of InProgress] f [of Done] f [of Failed] assms(3)
    by (auto simp: tally_def)
qed

lemma process_next_tally:
  assumes d: "distinct (map te_key (is_emb s))" and run: "process_next us mv env s = (Inr oc, s')"
    and tl: "tally mv (is_emb s) = (a, b, c, e)"
  shows "(oc = Idle \<and> s' = s \<and> a = 0) \<or>
         (\<exists>a'. a = Suc a' \<and> oc = Embedded \<and> tally mv (is_emb s') = (a', b, Suc c, e)) \<or>
         (\<exists>a'. a = Suc a' \<and> oc = Ingest_failed \<and> tally mv (is_emb s') = (a', b, c, Suc e))"
proof -
  obtain ko emb1 where cl: "claim_next mv (ie_now env) (is_emb s) = (ko, emb1)" by fastforce
  show ?thesis
  proof (cases ko)
    case None
    with cl have "next_job mv (is_emb s) = None" by (auto simp: claim_next_def split: option.splits)
    then have "a = 0" using tl by (simp add: next_job_None tally_def count_status_def filter_empty_conv)
    with None cl run show ?thesis by (auto simp: process_next_def split: if_splits)
  next
    case (Some k)
    note cl' = cl [unfolded Some]
    obtain r where r: "find_row k emb1 = Some (r\<lparr>te_status := InProgress, te_updated_at := ie_now env\<rparr>)"
      "te_model r = mv" "distinct (map te_key emb1)"
      using claim_next_find [OF d cl'] by metis
    let ?r = "r\<lparr>te_status := InProgress, te_updated_at := ie_now env\<rparr>"
    from claim_tally [OF d cl'] tl have t1: "count_status mv NotStarted emb1 = a - 1" "0 < a"
      "count_status mv InProgress emb1 - 1 = b" "count_status mv Done emb1 = c"
      "count_status mv Failed emb1 = e" by (auto simp: tally_def)
    from mark_tally [OF r(3,1), of mv] r(2) t1
    have m: "tally mv (mark_done \<lparr>em_key = k, em_vector = v\<rparr> now emb1) = (a - 1, b, Suc c, e)"
      "tally mv (mark_failed k err now emb1) = (a - 1, b, c, Suc e)" for v now err
      by simp_all
    from run cl' Some m t1(2) show ?thesis
      by (auto simp: process_next_def Let_def split: if_splits sum.splits)
  qed
qed

lemma process_next_shrinks:
  assumes "process_next us mv env s = (Inr oc, s')" "oc \<noteq> Idle"
  shows "count_status mv NotStarted (is_emb s') < count_status mv NotStarted (is_emb s)"
proof -
  obtain k emb1 where cl: "claim_next mv (ie_now env) (is_emb s) = (Some k, emb1)"
    using assms by (auto simp: process_next_def split: if_splits prod.splits option.splits)
  then obtain j where j: "next_job mv (is_emb s) = Some j" "k = te_key j"
    and emb1: "emb1 = update_where (\<lambda>r. te_key r = k)
        (\<lambda>r. r\<lparr>te_status := InProgress, te_updated_at := ie_now env\<rparr>) (is_emb s)"
    by (auto simp: claim_next_def split: option.splits)
  have other: "is_emb s' = update_where (\<lambda>r. te_key r = k) f emb1"
    if "is_emb s' = update_where (\<lambda>r. te_key r = k) f emb1" for f using that .
  obtain f where s': "is_emb s' = update_where (\<lambda>r. te_key r = k) f emb1"
    and f: "\<And>r. te_status (f r) \<noteq> NotStarted"
  proof (cases "embed_one env (ek_track k)")
    case (Inl reason)
    with assms cl have "is_emb s' = mark_failed k reason (ie_now env) emb1"
      by (auto simp: process_next_def Let_def split: if_splits)
    then show thesis by (intro that) (auto simp: mark_failed_def)
  next
    case (Inr v)
    with assms cl have "is_emb s' = mark_done \<lparr>em_key = k, em_vector = v\<rparr> (ie_now env) emb1"
      by (auto simp: process_next_def Let_def split: if_splits)
    then show thesis by (intro that) (auto simp: mark_done_def)
  qed
  let ?g = "\<lambda>r. r\<lparr>te_status := InProgress, te_updated_at := ie_now env\<rparr>"
  have le: "count_status mv NotStarted (update_where P h t) \<le> count_status mv NotStarted t"
    if "\<And>r. te_status (h r) \<noteq> NotStarted" for P h t
    using that by (induction t) (auto simp: count_status_def)
  have lt: "count_status mv NotStarted (update_where P ?g t) < count_status mv NotStarted t"
    if "x \<in> set t" "P x" "te_model x = mv" "te_status x = NotStarted" for P t x
    using that
  proof (induction t)
    case (Cons y t)
    show ?case
    proof (cases "x = y")
      case True
      with Cons.prems le [of ?g P t] show ?thesis by (auto simp: count_status_def)
    next
      case False
      with Cons have "count_status mv NotStarted (update_where P ?g t) < count_status mv NotStarted t"
        by simp
      then show ?thesis by (auto simp: count_status_def)
    qed
  qed simp
  have "count_status mv NotStarted (is_emb s') \<le> count_status mv NotStarted emb1"
    unfolding s' by (rule le [OF f])
  also have "\<dots> < count_status mv NotStarted (is_emb s)"
    unfolding emb1 using next_job_Some [OF j(1)] by (intro lt [of j]) (auto simp: j(2))
  finally show ?thesis .
qed

record drain_stats =
  ds_embedded :: nat
  ds_failed :: nat

function drain ::
  "'ix usearch \<Rightarrow> model_version \<Rightarrow> (nat \<Rightarrow> ingest_env) \<Rightarrow> nat \<Rightarrow> drain_stats \<Rightarrow> 'ix ingest_state
    \<Rightarrow> (unit + drain_stats) \<times> 'ix ingest_state" where
  "drain us mv env n stats s =
     (case process_next us mv (env n) s of
        (Inl _, s') \<Rightarrow> (Inl (), s')
      | (Inr oc, s') \<Rightarrow>
          if oc = Idle then (Inr stats, s')
          else drain us mv env (Suc n)
                 (if oc = Embedded then stats\<lparr>ds_embedded := ds_embedded stats + 1\<rparr>
                  else stats\<lparr>ds_failed := ds_failed stats + 1\<rparr>) s')"
  by pat_completeness auto

termination
proof (relation "measure (\<lambda>(us, mv, env, n, stats, s). count_status mv NotStarted (is_emb s))")
  fix us :: "'ix usearch" and mv :: model_version and env :: "nat \<Rightarrow> ingest_env" and n :: nat
    and stats :: drain_stats and s y :: "'ix ingest_state" and x :: "unit + ingest_outcome" and b
  assume "(x, y) = process_next us mv (env n) s" "x = Inr b" "b \<noteq> Idle"
  then have "count_status mv NotStarted (is_emb y) < count_status mv NotStarted (is_emb s)"
    using process_next_shrinks [of us mv "env n" s b y] by simp
  then show "((us, mv, env, Suc n, if b = Embedded then stats\<lparr>ds_embedded := ds_embedded stats + 1\<rparr>
                  else stats\<lparr>ds_failed := ds_failed stats + 1\<rparr>, y), us, mv, env, n, stats, s)
    \<in> measure (\<lambda>(us, mv, env, n, stats, s). count_status mv NotStarted (is_emb s))"
    by simp
qed simp

declare drain.simps [simp del]

section \<open>Draining (property)\<close>

lemma process_next_distinct:
  "distinct (map te_key (is_emb s)) \<Longrightarrow> distinct (map te_key (is_emb (snd (process_next us mv env s))))"
proof -
  assume d: "distinct (map te_key (is_emb s))"
  obtain ko emb1 where cl: "claim_next mv (ie_now env) (is_emb s) = (ko, emb1)" by fastforce
  have "map te_key emb1 = map te_key (is_emb s)"
    using cl by (auto simp: claim_next_def update_where_keys split: option.splits)
  then have "distinct (map te_key emb1)" using d by simp
  with cl d show ?thesis
    by (auto simp: process_next_def Let_def mark_done_def mark_failed_def update_where_keys
        split: option.split sum.split prod.split)
qed

lemma process_next_ok:
  "ie_claim_ok env \<Longrightarrow> ie_mark_ok env \<Longrightarrow> \<exists>oc. fst (process_next us mv env s) = Inr oc"
  by (auto simp: process_next_def Let_def split: prod.split option.split sum.split)

lemma drain_tally:
  "(\<And>i. ie_claim_ok (env i) \<and> ie_mark_ok (env i)) \<Longrightarrow>
   distinct (map te_key (is_emb s)) \<Longrightarrow> tally mv (is_emb s) = (a, b, c, e) \<Longrightarrow>
    \<exists>x y s'. drain us mv env n stats s
        = (Inr \<lparr>ds_embedded = ds_embedded stats + x, ds_failed = ds_failed stats + y\<rparr>, s')
      \<and> x + y = a \<and> tally mv (is_emb s') = (0, b, c + x, e + y)"
proof (induction us mv env n stats s arbitrary: a c e rule: drain.induct)
  case (1 us mv env n stats s)
  obtain oc s' where run: "process_next us mv (env n) s = (Inr oc, s')"
    using process_next_ok [of "env n" us mv s] "1.prems"(1) by (metis prod.collapse)
  from process_next_distinct [OF "1.prems"(2), of us mv "env n"] run
  have d: "distinct (map te_key (is_emb s'))" by simp
  note IH = "1.IH" [OF run [symmetric] refl _ "1.prems"(1) d]
  from process_next_tally [OF "1.prems"(2) run "1.prems"(3)] show ?case
  proof (elim disjE exE conjE)
    assume "oc = Idle" "s' = s" "a = 0"
    with run "1.prems"(3) show ?thesis
      by (subst drain.simps) (auto intro!: exI [of _ "0 :: nat"])
  next
    fix a' assume oc: "a = Suc a'" "oc = Embedded" "tally mv (is_emb s') = (a', b, Suc c, e)"
    from IH [OF _ oc(3)] oc(2) obtain x y t where
      "drain us mv env (Suc n) (stats\<lparr>ds_embedded := ds_embedded stats + 1\<rparr>) s'
        = (Inr \<lparr>ds_embedded = ds_embedded stats + 1 + x, ds_failed = ds_failed stats + y\<rparr>, t)"
      "x + y = a'" "tally mv (is_emb t) = (0, b, Suc c + x, e + y)" by auto
    with run oc show ?thesis
      by (subst drain.simps) (auto intro!: exI [of _ "Suc x"] exI [of _ y])
  next
    fix a' assume oc: "a = Suc a'" "oc = Ingest_failed" "tally mv (is_emb s') = (a', b, c, Suc e)"
    from IH [OF _ oc(3)] oc(2) obtain x y t where
      "drain us mv env (Suc n) (stats\<lparr>ds_failed := ds_failed stats + 1\<rparr>) s'
        = (Inr \<lparr>ds_embedded = ds_embedded stats + x, ds_failed = ds_failed stats + 1 + y\<rparr>, t)"
      "x + y = a'" "tally mv (is_emb t) = (0, b, c + x, Suc e + y)" by auto
    with run oc show ?thesis
      by (subst drain.simps) (auto intro!: exI [of _ x] exI [of _ "Suc y"])
  qed
qed

end
