(* ===== verification/Ingest_Laws.thy ===== *)
theory Ingest_Laws
  imports Ingest
begin

text \<open>
  The rest of the ingest pipeline and its properties: rebuilding the index and booting
  (\<open>music-recommend/src/ingest.rs\<close>, \<open>boot_recommender\<close> in \<open>music-gateway/src/main.rs\<close>), the backfill of
  metadata (\<open>metadata.rs\<close>), and the pool of concurrent workers (\<open>music-gateway/src/ingest.rs\<close>).

  The backfill need not terminate and is a \<open>partial_function\<close> whose value is \<open>None\<close> when it does not.
  Between any two statements of a worker another worker, an enqueue, a retry or a restart may run;
  \<open>pool_step\<close> is that interleaving at the grain of the statements, and \<open>process_next\<close> is the run of
  one worker's steps without interruption (\<open>process_next_is_worker_run\<close>).
\<close>

section \<open>Rebuilding and booting\<close>

text \<open>\<open>rebuild_ann_from_store\<close>; a blob that does not decode is the error \<open>None\<close>.\<close>

definition rebuild_ann_from_store ::
  "'ix usearch \<Rightarrow> model_version \<Rightarrow> embedding_table \<Rightarrow> 'ix ann_index \<Rightarrow> bool \<times> 'ix ann_index" where
  "rebuild_ann_from_store us mv t a =
     (let rows = done_rows mv t;
          vs = map (\<lambda>r. blob_to_vector (the (te_vector r))) rows
      in if \<exists>v \<in> set vs. \<not> is_ok v then (False, a)
         else (let (e, b) = rebuild_from us
                     (map (\<lambda>r. (te_track_id r, case blob_to_vector (the (te_vector r)) of
                        Inr v \<Rightarrow> map decode32 v | Inl _ \<Rightarrow> [])) rows) a
               in (e = None, b)))"

text \<open>\<open>boot_recommender\<close> from the opened database and the index read from disk; \<open>model\<close> is what the
  probe of the embedder reported, \<open>wh\<close> the transform that was loaded or fitted. \<open>False\<close> is a boot
  that fails.\<close>

definition boot_recommender ::
  "'ix usearch \<Rightarrow> model_version option \<Rightarrow> whitening option \<Rightarrow> int \<Rightarrow> 'ix ingest_state
    \<Rightarrow> bool \<times> 'ix ingest_state" where
  "boot_recommender us model wh now s =
     (let emb = snd (reset_in_progress now (is_emb s)); s1 = s\<lparr>is_emb := emb\<rparr>
      in if ai_dim (is_ann s) = 0 then (False, s1)
         else case model of
           None \<Rightarrow> (True, s1)
         | Some mv \<Rightarrow>
             (let (e, a1) = (case wh of None \<Rightarrow> (None, is_ann s1)
                             | Some w \<Rightarrow> set_whitening (Some w) (is_ann s1))
              in if e \<noteq> None then (False, s1)
                 else if wh \<noteq> None \<or> ann_len a1 < n_done (counts mv emb)
                 then (let (ok, a2) = rebuild_ann_from_store us mv emb a1 in (ok, s1\<lparr>is_ann := a2\<rparr>))
                 else (True, s1\<lparr>is_ann := a1\<rparr>)))"

lemma rebuild_ann_dom:
  assumes "rebuild_ann_from_store us mv t a = (True, b)"
  shows "dom (map_of (ai_forward b)) =
           te_track_id ` {r \<in> set t. te_model r = mv \<and> te_status r = Done \<and> te_vector r \<noteq> None}"
proof -
  let ?ps = "map (\<lambda>r. (te_track_id r, case blob_to_vector (the (te_vector r)) of
                        Inr v \<Rightarrow> map decode32 v | Inl _ \<Rightarrow> [])) (done_rows mv t)"
  from assms have "rebuild_from us ?ps a = (None, b)"
    by (auto simp: rebuild_ann_from_store_def Let_def split: if_splits prod.splits)
  from rebuild_from_dom [OF this] show ?thesis
    by (simp add: image_image done_rows_def)
qed

lemma rebuild_ann_ok:
  assumes "ann_ok a" "embeddings_ok t"
  shows "ann_ok (snd (rebuild_ann_from_store us mv t a))"
proof -
  have "distinct (map te_key (done_rows mv t))"
    using assms(2) by (auto simp: done_rows_def embeddings_ok_def distinct_map intro: inj_on_subset)
  moreover have "te_key r = \<lparr>ek_track = te_track_id r, ek_model = mv\<rparr>" if "r \<in> set (done_rows mv t)" for r
    using that by (auto simp: done_rows_def te_key_def)
  ultimately have "distinct (map te_track_id (done_rows mv t))"
    by (auto simp: distinct_map inj_on_def)
  then have ok: "ann_ok (snd (rebuild_from us (map (\<lambda>r. (te_track_id r, f r)) (done_rows mv t)) a))" for f
    using assms(1) by (intro rebuild_from_ok) (simp_all add: comp_def)
  define f where "f r = (case blob_to_vector (the (te_vector r)) of
      Inr v \<Rightarrow> map decode32 v | Inl _ \<Rightarrow> [])" for r :: embedding_row
  obtain e b where b: "rebuild_from us (map (\<lambda>r. (te_track_id r, f r)) (done_rows mv t)) a = (e, b)"
    by fastforce
  from ok [of f] b have "ann_ok b" by simp
  with b assms(1) show ?thesis
    by (simp add: rebuild_ann_from_store_def Let_def f_def)
qed

text \<open>A boot that rebuilds leaves exactly the tracks of the model's done rows in the index.\<close>

lemma boot_rebuild_covers:
  assumes ok: "embeddings_ok (is_emb s)" "boot_recommender us (Some mv) wh now s = (True, s')"
    and re: "wh \<noteq> None \<or> ann_len (is_ann s) < n_done (counts mv (is_emb s))"
  shows "dom (map_of (ai_forward (is_ann s')))
           = te_track_id ` {r \<in> set (is_emb s'). te_model r = mv \<and> te_status r = Done}"
proof -
  let ?emb = "snd (reset_in_progress now (is_emb s))"
  have done_eq: "n_done (counts mv ?emb) = n_done (counts mv (is_emb s))"
  proof -
    have "count_status mv Done ?emb = count_status mv Done (is_emb s)"
    proof (induction "is_emb s" arbitrary: s)
      case (Cons r t)
      then have "count_status mv Done (snd (reset_in_progress now t)) = count_status mv Done t"
        using Cons.hyps(1) [of "s\<lparr>is_emb := t\<rparr>"] by simp
      then show ?case unfolding Cons.hyps(2) [symmetric]
        by (auto simp: count_status_def reset_in_progress_def Let_def)
    qed (simp add: count_status_def reset_in_progress_def)
    then show ?thesis by (simp add: counts_def)
  qed
  obtain a a' where reb: "rebuild_ann_from_store us mv ?emb a = (True, a')"
    "is_ann s' = a'" "is_emb s' = ?emb"
    using ok(2) re done_eq
    by (cases wh) (auto simp: boot_recommender_def Let_def split: if_splits prod.splits)
  from reset_in_progress_ok [OF ok(1), of now]
  have "te_vector r \<noteq> None" if "r \<in> set ?emb" "te_status r = Done" for r
    using that by (auto simp: embeddings_ok_def row_embedding_def split: option.splits)
  then have "{r \<in> set ?emb. te_model r = mv \<and> te_status r = Done \<and> te_vector r \<noteq> None}
      = {r \<in> set ?emb. te_model r = mv \<and> te_status r = Done}" by blast
  with rebuild_ann_dom [OF reb(1)] reb(2,3) show ?thesis by simp
qed

section \<open>Backfilling metadata (metadata.rs)\<close>

definition BACKFILL_BATCH :: nat where
  "BACKFILL_BATCH = 200"

record backfill_stats =
  bf_upserted :: nat
  bf_failed :: nat

text \<open>One batch: every missing id is fetched; what is fetched is stored. The number is the batch's
  successful upserts.\<close>

fun backfill_batch ::
  "(track_id \<Rightarrow> track_metadata option) \<Rightarrow> int \<Rightarrow> track_id list \<Rightarrow> nat \<times> nat \<Rightarrow> meta_table
    \<Rightarrow> (nat \<times> nat) \<times> meta_table" where
  "backfill_batch fetch now [] n t = (n, t)"
| "backfill_batch fetch now (i # is) (up, failed) t =
     (case fetch i of
        Some m \<Rightarrow> backfill_batch fetch now is (Suc up, failed) (meta_upsert m now t)
      | None \<Rightarrow> backfill_batch fetch now is (up, Suc failed) t)"

text \<open>The loop; the fetcher of batch \<open>n\<close> is \<open>fetch n\<close>. No statement fails here: an SQL error would
  end the loop with it.\<close>

partial_function (option) backfill_metadata ::
  "(nat \<Rightarrow> track_id \<Rightarrow> track_metadata option) \<Rightarrow> model_version \<Rightarrow> embedding_table \<Rightarrow> int \<Rightarrow> nat
    \<Rightarrow> backfill_stats \<Rightarrow> meta_table \<Rightarrow> (backfill_stats \<times> meta_table) option" where
  "backfill_metadata fetch mv te now n stats t =
     (let missing = missing_for_model mv BACKFILL_BATCH te t
      in if missing = [] then Some (stats, t)
         else case backfill_batch (fetch n) now missing (0, 0) t of
           ((up, failed), t') \<Rightarrow>
             (let stats' = stats\<lparr>bf_upserted := bf_upserted stats + up,
                                bf_failed := bf_failed stats + failed\<rparr>
              in if up = 0 then Some (stats', t')
                 else backfill_metadata fetch mv te now (Suc n) stats' t'))"

definition missing_rows :: "model_version \<Rightarrow> embedding_table \<Rightarrow> meta_table \<Rightarrow> embedding_row list" where
  "missing_rows mv te t =
     filter (\<lambda>r. te_model r = mv \<and> te_status r = Done \<and> te_track_id r \<notin> mr_key ` set t) te"

lemma missing_for_model_rows:
  "missing_for_model mv limit te t = take limit (sort_key (\<lambda>i. i) (map te_track_id (missing_rows mv te t)))"
proof -
  have eq: "(\<forall>m \<in> set t. mr_key m \<noteq> te_track_id r) \<longleftrightarrow> te_track_id r \<notin> mr_key ` set t" for r
    by force
  show ?thesis by (simp only: missing_for_model_def missing_rows_def eq)
qed

lemma backfill_batch_keys:
  assumes "\<And>i m. fetch i = Some m \<Longrightarrow> tm_track_id m = i"
  shows "backfill_batch fetch now is (up, failed) t = ((up', failed'), t') \<Longrightarrow>
    mr_key ` set t' = mr_key ` set t \<union> {i \<in> set is. fetch i \<noteq> None}
    \<and> up' = up + length (filter (\<lambda>i. fetch i \<noteq> None) is)
    \<and> failed' = failed + length (filter (\<lambda>i. fetch i = None) is)"
proof (induction "is" arbitrary: up failed t)
  case (Cons i "is")
  show ?case
  proof (cases "fetch i")
    case None
    with Cons.prems have "backfill_batch fetch now is (up, Suc failed) t = ((up', failed'), t')" by simp
    from Cons.IH [OF this] None show ?thesis by auto
  next
    case (Some m)
    with Cons.prems have "backfill_batch fetch now is (Suc up, failed) (meta_upsert m now t) = ((up', failed'), t')"
      by simp
    from Cons.IH [OF this] Some assms [OF Some] show ?thesis
      by (auto simp: meta_upsert_keys)
  qed
qed simp

lemma backfill_total:
  assumes "\<And>n i m. fetch n i = Some m \<Longrightarrow> tm_track_id m = i"
  shows "\<exists>s' t'. backfill_metadata fetch mv te now n stats t = Some (s', t')
           \<and> mr_key ` set t \<subseteq> mr_key ` set t'
           \<and> ((\<forall>n i. fetch n i \<noteq> None) \<longrightarrow> missing_rows mv te t' = [])"
proof (induction "length (missing_rows mv te t)" arbitrary: n stats t rule: less_induct)
  case less
  define missing where "missing = missing_for_model mv BACKFILL_BATCH te t"
  obtain up failed t1 where b: "backfill_batch (fetch n) now missing (0, 0) t = ((up, failed), t1)"
    by (metis prod.collapse)
  have keys: "mr_key ` set t1 = mr_key ` set t \<union> {i \<in> set missing. fetch n i \<noteq> None}"
    and up: "up = length (filter (\<lambda>i. fetch n i \<noteq> None) missing)"
    using backfill_batch_keys [OF assms b] by auto
  have sub: "set missing \<subseteq> te_track_id ` set (missing_rows mv te t)"
    by (auto simp: missing_def missing_for_model_rows dest: in_set_takeD)
  have step: "backfill_metadata fetch mv te now n stats t =
      (let stats' = stats\<lparr>bf_upserted := bf_upserted stats + up, bf_failed := bf_failed stats + failed\<rparr>
       in if up = 0 then Some (stats', t1) else backfill_metadata fetch mv te now (Suc n) stats' t1)"
    if "missing \<noteq> []"
    using that b by (subst backfill_metadata.simps) (simp add: missing_def [symmetric])
  show ?case
  proof (cases "missing = []")
    case True
    then have "sort (map te_track_id (missing_rows mv te t)) = []"
      by (simp add: missing_def missing_for_model_rows BACKFILL_BATCH_def)
    from arg_cong [OF this, of set] have "missing_rows mv te t = []" by simp
    with True show ?thesis
      by (subst backfill_metadata.simps) (simp add: missing_def [symmetric])
  next
    case False
    show ?thesis
    proof (cases "up = 0")
      case True
      have "\<not> (\<forall>n i. fetch n i \<noteq> None)"
      proof
        assume "\<forall>n i. fetch n i \<noteq> None"
        then have "filter (\<lambda>i. fetch n i \<noteq> None) missing = missing" by simp
        with up True False show False by simp
      qed
      moreover from step [OF False] True have "\<exists>s'. backfill_metadata fetch mv te now n stats t = Some (s', t1)"
        by (simp add: Let_def)
      ultimately show ?thesis using keys by blast
    next
      case pos: False
      then obtain i where i: "i \<in> set missing" "fetch n i \<noteq> None" using up
        by (metis (mono_tags, lifting) filter_False length_0_conv)
      then obtain r where r: "r \<in> set (missing_rows mv te t)" "te_track_id r = i" using sub by auto
      have "missing_rows mv te t1 = filter (\<lambda>r. te_track_id r \<notin> {i \<in> set missing. fetch n i \<noteq> None})
                (missing_rows mv te t)"
        unfolding missing_rows_def keys by (auto intro: filter_cong)
      moreover have "length (filter (\<lambda>r. te_track_id r \<notin> {i \<in> set missing. fetch n i \<noteq> None})
                (missing_rows mv te t)) < length (missing_rows mv te t)"
        using r i by (intro length_filter_less [of r]) auto
      ultimately have "length (missing_rows mv te t1) < length (missing_rows mv te t)" by simp
      from less.hyps [OF this, of "Suc n" "stats\<lparr>bf_upserted := bf_upserted stats + up,
          bf_failed := bf_failed stats + failed\<rparr>"]
      obtain s' t' where rec: "backfill_metadata fetch mv te now (Suc n)
          (stats\<lparr>bf_upserted := bf_upserted stats + up, bf_failed := bf_failed stats + failed\<rparr>) t1
          = Some (s', t')"
        "mr_key ` set t1 \<subseteq> mr_key ` set t'" "(\<forall>n i. fetch n i \<noteq> None) \<longrightarrow> missing_rows mv te t' = []"
        by blast
      have "backfill_metadata fetch mv te now n stats t = Some (s', t')"
        using step [OF False] pos rec(1) by (simp add: Let_def)
      moreover have "mr_key ` set t \<subseteq> mr_key ` set t'" using keys rec(2) by blast
      ultimately show ?thesis using rec(3) by blast
    qed
  qed
qed

text \<open>
  C39. The metadata backfill ends: whatever fetches fail, batch after batch, if each fetch that
  succeeds answers for the track it was asked about, the loop returns, keeps every row the cache
  had, and, when no fetch fails, leaves no embedded track without metadata.
\<close>

theorem backfill_terminates:
  assumes "\<And>n i m. fetch n i = Some m \<Longrightarrow> tm_track_id m = i"
  shows "\<exists>stats' t'. backfill_metadata fetch mv te now 0 \<lparr>bf_upserted = 0, bf_failed = 0\<rparr> t = Some (stats', t')
           \<and> mr_key ` set t \<subseteq> mr_key ` set t'
           \<and> ((\<forall>n i. fetch n i \<noteq> None) \<longrightarrow> (\<forall>limit. missing_for_model mv limit te t' = []))"
proof -
  have "\<exists>s' t'. backfill_metadata fetch mv te now 0 \<lparr>bf_upserted = 0, bf_failed = 0\<rparr> t = Some (s', t')
     \<and> mr_key ` set t \<subseteq> mr_key ` set t' \<and> ((\<forall>n i. fetch n i \<noteq> None) \<longrightarrow> missing_rows mv te t' = [])"
    by (rule backfill_total) (rule assms)
  then obtain s' t' where "backfill_metadata fetch mv te now 0 \<lparr>bf_upserted = 0, bf_failed = 0\<rparr> t = Some (s', t')"
    "mr_key ` set t \<subseteq> mr_key ` set t'"
    "(\<forall>n i. fetch n i \<noteq> None) \<longrightarrow> missing_rows mv te t' = []" by blast
  then show ?thesis by (intro exI [of _ s'] exI [of _ t']) (simp add: missing_for_model_rows)
qed

definition demo_meta :: "track_id \<Rightarrow> track_metadata" where
  "demo_meta i =
     \<lparr>tm_track_id = i, tm_artist_id = None, tm_artist = ''a'', tm_album_id = None, tm_album = None,
      tm_title = ''t'', tm_title_normalized = ''t'', tm_duration_seconds = None, tm_genre = None,
      tm_year = None, tm_track_number = None, tm_disc_number = None, tm_bpm = None,
      tm_musical_key = None\<rparr>"

definition demo_done :: "string \<Rightarrow> embedding_row" where
  "demo_done i =
     \<lparr>te_track_id = TrackId i, te_model = ''m'', te_dim = 0, te_vector = Some [], te_status = Done,
      te_error = None, te_created_at = 0, te_updated_at = 0\<rparr>"

theorem backfill_terminates_witness:
  "\<exists>stats' t'. backfill_metadata (\<lambda>n i. Some (demo_meta i)) ''m'' [demo_done ''x''] 5 0
       \<lparr>bf_upserted = 0, bf_failed = 0\<rparr> [] = Some (stats', t')
     \<and> missing_for_model ''m'' 10 [demo_done ''x''] t' = []"
  using backfill_terminates [of "\<lambda>n i. Some (demo_meta i)" "''m''" "[demo_done ''x'']" 5 "[]"]
  by (auto simp: demo_meta_def)

text \<open>
  The backfill can loop for ever: when the upstream answers for the one missing track with the
  metadata of another id (the fetcher stores the row under the id of the answer), every batch
  counts a success, the track stays missing, and the loop never returns. The guard against a
  livelock only stops after a batch without any success.
\<close>

definition aliased :: "nat \<Rightarrow> track_id \<Rightarrow> track_metadata option" where
  "aliased n i = Some (demo_meta (TrackId ''y''))"

lemma backfill_stuck:
  assumes "backfill_metadata fetch mv te now n stats t = Some r"
  shows "\<not> (fetch = aliased \<and> mv = ''m'' \<and> te = [demo_done ''x''] \<and> mr_key ` set t \<subseteq> {TrackId ''y''})"
proof (rule backfill_metadata.raw_induct [OF _ assms])
  fix rec fetch mv te now n stats t r
  assume IH: "\<And>fetch mv te now n stats t r. rec fetch mv te now n stats t = Some r \<Longrightarrow>
      \<not> (fetch = aliased \<and> mv = ''m'' \<and> te = [demo_done ''x''] \<and> mr_key ` set t \<subseteq> {TrackId ''y''})"
    and body: "(let missing = missing_for_model mv BACKFILL_BATCH te t
      in if missing = [] then Some (stats, t)
         else case backfill_batch (fetch n) now missing (0, 0) t of
           ((up, failed), t') \<Rightarrow>
             (let stats' = stats\<lparr>bf_upserted := bf_upserted stats + up,
                                bf_failed := bf_failed stats + failed\<rparr>
              in if up = 0 then Some (stats', t')
                 else rec fetch mv te now (Suc n) stats' t')) = Some r"
  show "\<not> (fetch = aliased \<and> mv = ''m'' \<and> te = [demo_done ''x''] \<and> mr_key ` set t \<subseteq> {TrackId ''y''})"
  proof
    assume a: "fetch = aliased \<and> mv = ''m'' \<and> te = [demo_done ''x''] \<and> mr_key ` set t \<subseteq> {TrackId ''y''}"
    have key: "tm_track_id (demo_meta i) = i" for i by (simp add: demo_meta_def)
    have "TrackId ''x'' \<notin> mr_key ` set t" using a by auto
    then have m: "missing_for_model mv BACKFILL_BATCH te t = [TrackId ''x'']"
      using a by (simp add: missing_for_model_rows missing_rows_def demo_done_def BACKFILL_BATCH_def)
    have "mr_key ` set (meta_upsert (demo_meta (TrackId ''y'')) now t) \<subseteq> {TrackId ''y''}"
      using a by (auto simp: meta_upsert_keys key)
    moreover have run: "rec fetch mv te now (Suc n) (stats\<lparr>bf_upserted := bf_upserted stats + 1,
        bf_failed := bf_failed stats + 0\<rparr>) (meta_upsert (demo_meta (TrackId ''y'')) now t) = Some r"
      using body m a by (simp add: Let_def aliased_def)
    ultimately show False using IH [OF run] a by blast
  qed
qed

lemma backfill_loops_on_aliased_ids:
  "backfill_metadata aliased ''m'' [demo_done ''x''] now n stats [] = None"
  using backfill_stuck [of aliased "''m''" "[demo_done ''x'']" now n stats "[]"]
  by (cases "backfill_metadata aliased ''m'' [demo_done ''x''] now n stats []") auto

section \<open>Draining the queue\<close>

text \<open>
  C38. Draining the ingest queue ends, with every job settled: when no SQL statement fails, whatever
  the fetchers and the embedder answer, \<open>drain\<close> returns; then no row of the model is waiting, the
  rows embedded and failed are as many as were waiting, each of them counted in the statistics, and
  the rows in progress, done and failed before are untouched in number.
\<close>

theorem drain_settles_queue:
  assumes "\<And>n. ie_claim_ok (env n) \<and> ie_mark_ok (env n)" and "embeddings_ok (is_emb s)"
  shows "\<exists>e f s'. drain us mv env 0 \<lparr>ds_embedded = 0, ds_failed = 0\<rparr> s
             = (Inr \<lparr>ds_embedded = e, ds_failed = f\<rparr>, s')
           \<and> e + f = n_not_started (counts mv (is_emb s))
           \<and> counts mv (is_emb s') =
               \<lparr>n_not_started = 0, n_in_progress = n_in_progress (counts mv (is_emb s)),
                n_done = n_done (counts mv (is_emb s)) + e,
                n_failed = n_failed (counts mv (is_emb s)) + f\<rparr>"
proof -
  obtain a b c d where t: "tally mv (is_emb s) = (a, b, c, d)" by (metis prod.collapse)
  have dist: "distinct (map te_key (is_emb s))" using assms(2) by (simp add: embeddings_ok_def)
  obtain e f s' where r: "drain us mv env 0 \<lparr>ds_embedded = 0, ds_failed = 0\<rparr> s
        = (Inr \<lparr>ds_embedded = e, ds_failed = f\<rparr>, s')" "e + f = a"
      "tally mv (is_emb s') = (0, b, c + e, d + f)"
    using drain_tally [of env s mv a b c d us 0 "\<lparr>ds_embedded = 0, ds_failed = 0\<rparr>", OF assms(1) dist t]
    by auto
  then show ?thesis using t by (auto simp: counts_def tally_def)
qed

text \<open>A small world: one track, a graph that is a list of its vectors.\<close>

definition list_index :: "(nat \<times> fvec) list usearch" where
  "list_index =
     \<lparr>us_reserve = (\<lambda>_ ix. Some ix), us_add = (\<lambda>k v ix. Some (ix @ [(k, v)])),
      us_remove = (\<lambda>k ix. Some (filter (\<lambda>p. fst p \<noteq> k) ix)), us_reset = (\<lambda>_. Some []),
      us_get = (\<lambda>k ix. Some (map_of ix k)),
      us_search = (\<lambda>q n ix. Some (take n (map (\<lambda>(k, v). (k, fp0)) ix)))\<rparr>"

definition demo_env :: ingest_env where
  "demo_env =
     \<lparr>ie_metadata = None, ie_fetch_clip = (\<lambda>_. Inr ''clip''), ie_embed_audio = (\<lambda>_. Inr [0]),
      ie_claim_ok = True, ie_meta_ok = True, ie_mark_ok = True, ie_now = 7\<rparr>"

definition demo_key :: embedding_key where
  "demo_key = \<lparr>ek_track = TrackId ''x'', ek_model = ''m''\<rparr>"

definition demo_ingest :: "(nat \<times> fvec) list ingest_state" where
  "demo_ingest = \<lparr>is_emb = [new_row demo_key 3], is_meta = [], is_ann = open_in_memory [] 1\<rparr>"

theorem drain_settles_queue_witness:
  "\<exists>e f s'. drain list_index ''m'' (\<lambda>_. demo_env) 0 \<lparr>ds_embedded = 0, ds_failed = 0\<rparr> demo_ingest
       = (Inr \<lparr>ds_embedded = e, ds_failed = f\<rparr>, s') \<and> e + f = 1"
proof -
  have "embeddings_ok (is_emb demo_ingest)"
    by (simp add: demo_ingest_def embeddings_ok_def new_row_def te_key_def)
  moreover have "n_not_started (counts ''m'' (is_emb demo_ingest)) = 1"
    by (simp add: demo_ingest_def counts_def count_status_def new_row_def demo_key_def)
  ultimately show ?thesis
    using drain_settles_queue [of "\<lambda>_. demo_env" demo_ingest list_index "''m''"]
    by (auto simp: demo_env_def)
qed

text \<open>Without a transform the boot compares only how many vectors there are: an index filled under the
  previous model is kept, and none of the tracks of the served model is in it.\<close>

definition mark_row :: "embedding_key \<Rightarrow> embedding_row" where
  "mark_row k =
     (new_row k 3)\<lparr>te_status := Done, te_dim := 1, te_vector := Some (vector_to_blob [0])\<rparr>"

definition foreign_index :: "(nat \<times> fvec) list ingest_state" where
  "foreign_index =
     \<lparr>is_emb = [mark_row demo_key],
      is_meta = [], is_ann = (open_in_memory [(1, [fp0])] 1)\<lparr>ai_forward := [(TrackId ''y'', 1)],
        ai_reverse := [(1, TrackId ''y'')], ai_next_key := 2\<rparr>\<rparr>"

lemma boot_keeps_foreign_index:
  "embeddings_ok (is_emb foreign_index) \<and> ann_ok (is_ann foreign_index)
   \<and> emb_status demo_key (is_emb foreign_index) = Some Done
   \<and> boot_recommender list_index (Some ''m'') None 9 foreign_index = (True, foreign_index)
   \<and> map_of (ai_forward (is_ann foreign_index)) (ek_track demo_key) = None"
  by (simp add: foreign_index_def mark_row_def embeddings_ok_def ann_ok_def open_in_memory_def te_key_def new_row_def
      emb_status_def find_row_def demo_key_def boot_recommender_def reset_in_progress_def counts_def
      count_status_def ann_len_def row_embedding_def)

section \<open>The pool of workers\<close>

datatype job =
    J_idle
  | J_claimed embedding_key
  | J_fetched embedding_key
  | J_embedded embedding_key "string + vec_bits"
  | J_marked embedding_key vec_bits

text \<open>The key a worker is busy with, and the one whose row it holds in progress.\<close>

fun job_key :: "job \<Rightarrow> embedding_key option" where
  "job_key J_idle = None"
| "job_key (J_claimed k) = Some k"
| "job_key (J_fetched k) = Some k"
| "job_key (J_embedded k _) = Some k"
| "job_key (J_marked k _) = Some k"

fun job_holds :: "job \<Rightarrow> embedding_key option" where
  "job_holds (J_marked _ _) = None"
| "job_holds j = job_key j"

text \<open>\<open>pl_behind\<close> records the tracks whose upsert into the index failed, which the code leaves to the
  next start.\<close>

record 'ix pool =
  pl_st :: "'ix ingest_state"
  pl_jobs :: "nat \<Rightarrow> job"
  pl_behind :: "track_id set"

definition pool_init :: "'ix \<Rightarrow> nat \<Rightarrow> 'ix pool" where
  "pool_init ix dm =
     \<lparr>pl_st = \<lparr>is_emb = [], is_meta = [], is_ann = open_in_memory ix dm\<rparr>, pl_jobs = (\<lambda>_. J_idle),
      pl_behind = {}\<rparr>"

inductive pool_step :: "'ix usearch \<Rightarrow> model_version \<Rightarrow> 'ix pool \<Rightarrow> 'ix pool \<Rightarrow> bool"
  for us :: "'ix usearch" and mv :: model_version where
  claim: "pl_jobs p w = J_idle \<Longrightarrow> claim_next mv now (is_emb (pl_st p)) = (Some k, emb) \<Longrightarrow>
    pool_step us mv p (p\<lparr>pl_st := (pl_st p)\<lparr>is_emb := emb\<rparr>, pl_jobs := (pl_jobs p)(w := J_claimed k)\<rparr>)"
| metadata: "pl_jobs p w = J_claimed k \<Longrightarrow>
    pool_step us mv p (p\<lparr>pl_st := (pl_st p)\<lparr>is_meta := metadata_step env (ek_track k) (is_meta (pl_st p))\<rparr>,
      pl_jobs := (pl_jobs p)(w := J_fetched k)\<rparr>)"
| embed: "pl_jobs p w = J_fetched k \<Longrightarrow>
    pool_step us mv p (p\<lparr>pl_jobs := (pl_jobs p)(w := J_embedded k (embed_one env (ek_track k)))\<rparr>)"
| mark_done: "pl_jobs p w = J_embedded k (Inr v) \<Longrightarrow>
    pool_step us mv p (p\<lparr>pl_st := (pl_st p)\<lparr>is_emb := mark_done \<lparr>em_key = k, em_vector = v\<rparr> now (is_emb (pl_st p))\<rparr>,
      pl_jobs := (pl_jobs p)(w := J_marked k v)\<rparr>)"
| mark_failed: "pl_jobs p w = J_embedded k (Inl reason) \<Longrightarrow>
    pool_step us mv p (p\<lparr>pl_st := (pl_st p)\<lparr>is_emb := mark_failed k reason now (is_emb (pl_st p))\<rparr>,
      pl_jobs := (pl_jobs p)(w := J_idle)\<rparr>)"
| sql_error: "pl_jobs p w = J_embedded k r \<Longrightarrow>
    pool_step us mv p (p\<lparr>pl_jobs := (pl_jobs p)(w := J_idle)\<rparr>)"
| index: "pl_jobs p w = J_marked k v \<Longrightarrow>
    ann_upsert us (ek_track k) (map decode32 v) (is_ann (pl_st p)) = (e, ann) \<Longrightarrow>
    pool_step us mv p (p\<lparr>pl_st := (pl_st p)\<lparr>is_ann := ann\<rparr>, pl_jobs := (pl_jobs p)(w := J_idle),
      pl_behind := (if e = None then pl_behind p else insert (ek_track k) (pl_behind p))\<rparr>)"
| enqueue: "pool_step us mv p (p\<lparr>pl_st := (pl_st p)\<lparr>is_emb := enqueue k now (is_emb (pl_st p))\<rparr>\<rparr>)"
| retry: "pool_step us mv p (p\<lparr>pl_st := (pl_st p)\<lparr>is_emb := snd (reset_failed mv' now (is_emb (pl_st p)))\<rparr>\<rparr>)"
| reboot: "snd (reset_in_progress now (is_emb (pl_st p))) = emb \<Longrightarrow>
    rebuild_ann_from_store us mv emb (open_in_memory ix dm) = (True, ann) \<Longrightarrow>
    pool_step us mv p (p\<lparr>pl_st := (pl_st p)\<lparr>is_emb := emb, is_ann := ann\<rparr>, pl_jobs := (\<lambda>_. J_idle),
      pl_behind := {}\<rparr>)"

text \<open>\<open>process_next\<close> is what one worker's steps do when nothing runs in between.\<close>

lemma process_next_is_worker_run:
  assumes "pl_jobs p w = J_idle" "process_next us mv env (pl_st p) = (Inr oc, s')"
  shows "\<exists>behind. (pool_step us mv)\<^sup>*\<^sup>* p (p\<lparr>pl_st := s', pl_behind := behind\<rparr>)"
proof -
  obtain ko emb where cl: "claim_next mv (ie_now env) (is_emb (pl_st p)) = (ko, emb)" by fastforce
  show ?thesis
  proof (cases ko)
    case None
    with assms(2) cl have "s' = pl_st p" by (auto simp: process_next_def split: if_splits)
    then show ?thesis by (intro exI [of _ "pl_behind p"]) simp
  next
    case (Some k)
    let ?j = "pl_jobs p"
    let ?s1 = "(pl_st p)\<lparr>is_emb := emb\<rparr>"
    let ?s2 = "?s1\<lparr>is_meta := metadata_step env (ek_track k) (is_meta (pl_st p))\<rparr>"
    have idle: "?j(w := J_idle) = ?j" using assms(1) by (metis fun_upd_triv)
    have s1: "pool_step us mv p (p\<lparr>pl_st := ?s1, pl_jobs := ?j(w := J_claimed k)\<rparr>)"
      using pool_step.claim [of p w mv "ie_now env" k emb us] assms(1) cl Some by simp
    have s2: "pool_step us mv (p\<lparr>pl_st := ?s1, pl_jobs := ?j(w := J_claimed k)\<rparr>)
        (p\<lparr>pl_st := ?s2, pl_jobs := ?j(w := J_fetched k)\<rparr>)"
      using pool_step.metadata [of "p\<lparr>pl_st := ?s1, pl_jobs := ?j(w := J_claimed k)\<rparr>" w k us mv env] by simp
    have s3: "pool_step us mv (p\<lparr>pl_st := ?s2, pl_jobs := ?j(w := J_fetched k)\<rparr>)
        (p\<lparr>pl_st := ?s2, pl_jobs := ?j(w := J_embedded k (embed_one env (ek_track k)))\<rparr>)"
      using pool_step.embed [of "p\<lparr>pl_st := ?s2, pl_jobs := ?j(w := J_fetched k)\<rparr>" w k us mv env] by simp
    from s1 s2 s3 have run: "(pool_step us mv)\<^sup>*\<^sup>* p
        (p\<lparr>pl_st := ?s2, pl_jobs := ?j(w := J_embedded k (embed_one env (ek_track k)))\<rparr>)"
      by (meson converse_rtranclp_into_rtranclp rtranclp.rtrancl_refl)
    show ?thesis
    proof (cases "embed_one env (ek_track k)")
      case (Inl reason)
      let ?p = "p\<lparr>pl_st := ?s2, pl_jobs := ?j(w := J_embedded k (Inl reason))\<rparr>"
      have "pool_step us mv ?p (p\<lparr>pl_st := ?s2\<lparr>is_emb := mark_failed k reason (ie_now env) emb\<rparr>\<rparr>)"
        using pool_step.mark_failed [of ?p w k reason us mv "ie_now env"] by (simp add: idle)
      moreover from assms(2) cl Some Inl
      have "s' = ?s2\<lparr>is_emb := mark_failed k reason (ie_now env) emb\<rparr>"
        by (auto simp: process_next_def Let_def split: if_splits)
      ultimately show ?thesis using run Inl
        by (intro exI [of _ "pl_behind p"]) (simp add: rtranclp.rtrancl_into_rtrancl)
    next
      case (Inr v)
      let ?p = "p\<lparr>pl_st := ?s2, pl_jobs := ?j(w := J_embedded k (Inr v))\<rparr>"
      let ?s3 = "?s2\<lparr>is_emb := mark_done \<lparr>em_key = k, em_vector = v\<rparr> (ie_now env) emb\<rparr>"
      let ?q = "p\<lparr>pl_st := ?s3, pl_jobs := ?j(w := J_marked k v)\<rparr>"
      obtain e ann where up: "ann_upsert us (ek_track k) (map decode32 v) (is_ann (pl_st p)) = (e, ann)"
        by fastforce
      have "pool_step us mv ?p ?q"
        using pool_step.mark_done [of ?p w k v us mv "ie_now env"] by simp
      moreover obtain b where "pool_step us mv ?q (p\<lparr>pl_st := ?s3\<lparr>is_ann := ann\<rparr>, pl_behind := b\<rparr>)"
        using pool_step.index [of ?q w k v us e ann mv] up by (simp add: idle del: if_split)
      moreover have "s' = ?s3\<lparr>is_ann := ann\<rparr>"
        using assms(2) cl Some Inr up by (auto simp: process_next_def Let_def split: if_splits)
      moreover have "(pool_step us mv)\<^sup>*\<^sup>* p ?p" using run Inr by simp
      ultimately show ?thesis
        by (intro exI [of _ b]) (simp only: rtranclp.rtrancl_into_rtrancl)
    qed
  qed
qed

section \<open>The pool keeps the queue and the index in step\<close>

lemma ann_upsert_dom:
  assumes "ann_upsert us t raw a = (e, b)"
  shows "dom (map_of (ai_forward a)) - {t} \<subseteq> dom (map_of (ai_forward b))"
    and "e = None \<Longrightarrow> t \<in> dom (map_of (ai_forward b))"
  using assms
  by (auto simp: ann_upsert_def insert_fresh_def Let_def update_conv' delete_conv' restrict_map_def
      split: if_splits option.splits sum.splits)

lemma done_row_indexed:
  assumes "embeddings_ok t" "emb_status k t = Some Done" "ek_model k = mv"
  shows "ek_track k \<in> te_track_id ` {r \<in> set t. te_model r = mv \<and> te_status r = Done \<and> te_vector r \<noteq> None}"
proof -
  from assms(2) obtain r where r: "find_row k t = Some r" "te_status r = Done"
    by (auto simp: emb_status_def)
  from find_row_key [OF r(1)] have m: "te_key r = k" "r \<in> set t" by auto
  with assms(1) r(2) have "is_ok (row_embedding r)" by (auto simp: embeddings_ok_def)
  then have "te_vector r \<noteq> None" by (auto simp: row_embedding_def split: option.splits)
  with m r(2) assms(3) show ?thesis by (auto intro!: image_eqI [of _ _ r])
qed

definition pool_ok :: "model_version \<Rightarrow> 'ix pool \<Rightarrow> bool" where
  "pool_ok mv p \<longleftrightarrow>
     embeddings_ok (is_emb (pl_st p)) \<and> ann_ok (is_ann (pl_st p))
     \<and> (\<forall>w k. job_holds (pl_jobs p w) = Some k \<longrightarrow> ek_model k = mv \<and> emb_status k (is_emb (pl_st p)) = Some InProgress)
     \<and> (\<forall>w k v. pl_jobs p w = J_marked k v \<longrightarrow> ek_model k = mv \<and> emb_status k (is_emb (pl_st p)) = Some Done)
     \<and> (\<forall>w w' k. job_key (pl_jobs p w) = Some k \<longrightarrow> job_key (pl_jobs p w') = Some k \<longrightarrow> w = w')
     \<and> (\<forall>k. ek_model k = mv \<longrightarrow> emb_status k (is_emb (pl_st p)) = Some Done \<longrightarrow>
          ek_track k \<in> dom (map_of (ai_forward (is_ann (pl_st p)))) \<or> ek_track k \<in> pl_behind p
          \<or> (\<exists>w v. pl_jobs p w = J_marked k v))"

lemma pool_okD:
  assumes "pool_ok mv p"
  shows "embeddings_ok (is_emb (pl_st p))" "ann_ok (is_ann (pl_st p))"
    "job_holds (pl_jobs p w) = Some k \<Longrightarrow> ek_model k = mv"
    "job_holds (pl_jobs p w) = Some k \<Longrightarrow> emb_status k (is_emb (pl_st p)) = Some InProgress"
    "pl_jobs p w = J_marked k v \<Longrightarrow> ek_model k = mv"
    "pl_jobs p w = J_marked k v \<Longrightarrow> emb_status k (is_emb (pl_st p)) = Some Done"
    "job_key (pl_jobs p w) = Some k \<Longrightarrow> job_key (pl_jobs p w') = Some k \<Longrightarrow> w = w'"
    "ek_model k = mv \<Longrightarrow> emb_status k (is_emb (pl_st p)) = Some Done \<Longrightarrow>
       ek_track k \<in> dom (map_of (ai_forward (is_ann (pl_st p)))) \<or> ek_track k \<in> pl_behind p
       \<or> (\<exists>w v. pl_jobs p w = J_marked k v)"
  using assms unfolding pool_ok_def by blast+

lemma pool_okI:
  assumes "embeddings_ok (is_emb (pl_st p))" "ann_ok (is_ann (pl_st p))"
    "\<And>w k. job_holds (pl_jobs p w) = Some k \<Longrightarrow>
       ek_model k = mv \<and> emb_status k (is_emb (pl_st p)) = Some InProgress"
    "\<And>w k v. pl_jobs p w = J_marked k v \<Longrightarrow>
       ek_model k = mv \<and> emb_status k (is_emb (pl_st p)) = Some Done"
    "\<And>w w' k. job_key (pl_jobs p w) = Some k \<Longrightarrow> job_key (pl_jobs p w') = Some k \<Longrightarrow> w = w'"
    "\<And>k. ek_model k = mv \<Longrightarrow> emb_status k (is_emb (pl_st p)) = Some Done \<Longrightarrow>
       ek_track k \<in> dom (map_of (ai_forward (is_ann (pl_st p)))) \<or> ek_track k \<in> pl_behind p
       \<or> (\<exists>w v. pl_jobs p w = J_marked k v)"
  shows "pool_ok mv p"
  using assms unfolding pool_ok_def by blast

lemma job_key_cases:
  "job_key j = Some k \<Longrightarrow> job_holds j = Some k \<or> (\<exists>v. j = J_marked k v)"
  by (cases j) auto

lemma job_holds_key: "job_holds j = Some k \<Longrightarrow> job_key j = Some k"
  by (cases j) auto

lemma job_holds_marked: "job_holds (J_marked k v) = Some j \<Longrightarrow> False"
  by simp

lemma pool_key_status:
  assumes "pool_ok mv p" "job_key (pl_jobs p w) = Some k"
  shows "emb_status k (is_emb (pl_st p)) = Some InProgress \<or> emb_status k (is_emb (pl_st p)) = Some Done"
  using job_key_cases [OF assms(2)] pool_okD(4,6) [OF assms(1)] by blast

text \<open>Steps of a worker that keep its key and the table: fetching the metadata and embedding.\<close>

lemma pool_ok_same_key:
  assumes ok: "pool_ok mv p" and j: "job_holds (pl_jobs p w) = Some k" "job_holds j = Some k"
    and q: "is_emb (pl_st q) = is_emb (pl_st p)" "is_ann (pl_st q) = is_ann (pl_st p)"
      "pl_behind q = pl_behind p" "pl_jobs q = (pl_jobs p)(w := j)"
  shows "pool_ok mv q"
proof -
  have k: "job_key (pl_jobs q x) = job_key (pl_jobs p x)" "job_holds (pl_jobs q x) = job_holds (pl_jobs p x)" for x
    using j q(4) job_holds_key by auto
  have m: "pl_jobs q x = J_marked i v \<longleftrightarrow> pl_jobs p x = J_marked i v" for x i v
    using j q(4) by auto
  show ?thesis
    using ok unfolding pool_ok_def q(1-3) k m .
qed

text \<open>A marked row stays marked when another worker moves on.\<close>

lemma marked_elsewhere:
  assumes "\<exists>x v. f x = J_marked k v" "\<And>v. f w \<noteq> J_marked k v"
  shows "\<exists>y u. (f(w := j)) y = J_marked k u"
proof -
  from assms(1) obtain x v where x: "f x = J_marked k v" by blast
  with assms(2) have "x \<noteq> w" by blast
  with x show ?thesis by (intro exI [of _ x]) simp
qed

lemma pool_ok_claim:
  assumes ok: "pool_ok mv p" and idle: "pl_jobs p w = J_idle"
    and c: "claim_next mv now (is_emb (pl_st p)) = (Some k, emb)"
  shows "pool_ok mv (p\<lparr>pl_st := (pl_st p)\<lparr>is_emb := emb\<rparr>, pl_jobs := (pl_jobs p)(w := J_claimed k)\<rparr>)"
proof -
  let ?t = "is_emb (pl_st p)"
  have d: "distinct (map te_key ?t)" using pool_okD(1) [OF ok] by (simp add: embeddings_ok_def)
  note st = emb_status_claim [OF d c]
  have fresh: "job_key (pl_jobs p x) \<noteq> Some k" for x
    using pool_key_status [OF ok, of x k] st by auto
  have "embeddings_ok emb" using claim_next_ok [OF pool_okD(1) [OF ok], of mv now] c by simp
  moreover have "pl_jobs p x \<noteq> J_marked k v" for x v
    using fresh [of x] by auto
  moreover have "job_holds (pl_jobs p x) \<noteq> Some k" for x
    using fresh [of x] job_holds_key by blast
  ultimately show ?thesis
  proof (intro pool_okI, goal_cases)
    case (6 i)
    then have "emb_status i ?t = Some Done" using st by (auto split: if_splits)
    from pool_okD(8) [OF ok 6(4) this] show ?case
      using marked_elsewhere [of "pl_jobs p" i w "J_claimed k"] idle by (simp del: fun_upd_apply) blast
  qed (use st fresh pool_okD(2-7) [OF ok] in \<open>auto split: if_splits\<close>)
qed

lemma pool_ok_drop:
  assumes ok: "pool_ok mv p" and j: "job_holds (pl_jobs p w) = Some k"
    and e: "embeddings_ok emb"
      "\<And>i. i \<noteq> k \<Longrightarrow> emb_status i emb = emb_status i (is_emb (pl_st p))"
      "emb_status k emb \<noteq> Some Done"
  shows "pool_ok mv (p\<lparr>pl_st := (pl_st p)\<lparr>is_emb := emb\<rparr>, pl_jobs := (pl_jobs p)(w := J_idle)\<rparr>)"
proof -
  have other: "i \<noteq> k" if "job_key (pl_jobs p x) = Some i" "x \<noteq> w" for x i
    using that pool_okD(7) [OF ok, of x k w] job_holds_key [OF j] by blast
  have notm: "pl_jobs p w \<noteq> J_marked i v" for i v using j by auto
  show ?thesis
  proof (rule pool_okI, goal_cases)
    case (3 x i)
    then have "x \<noteq> w" "job_holds (pl_jobs p x) = Some i" by (auto split: if_splits)
    then show ?case using other [of x i] job_holds_key pool_okD(3,4) [OF ok] e(2) by auto
  next
    case (4 x i v)
    then have "x \<noteq> w" "pl_jobs p x = J_marked i v" by (auto split: if_splits)
    then show ?case using other [of x i] pool_okD(5,6) [OF ok] e(2) by auto
  next
    case (6 i)
    with e(3) have n: "i \<noteq> k" by auto
    with 6(2) e(2) [OF n] have "emb_status i (is_emb (pl_st p)) = Some Done" by simp
    from pool_okD(8) [OF ok 6(1) this] show ?case
      using marked_elsewhere [of "pl_jobs p" i w J_idle] notm by (simp del: fun_upd_apply) blast
  qed (use e(1) pool_okD(2,7) [OF ok] in \<open>auto split: if_splits\<close>)
qed

lemma pool_ok_mark_done:
  assumes ok: "pool_ok mv p" and j: "pl_jobs p w = J_embedded k (Inr v)"
  shows "pool_ok mv (p\<lparr>pl_st := (pl_st p)\<lparr>is_emb := mark_done \<lparr>em_key = k, em_vector = v\<rparr> now (is_emb (pl_st p))\<rparr>,
      pl_jobs := (pl_jobs p)(w := J_marked k v)\<rparr>)"
proof -
  have h: "job_holds (pl_jobs p w) = Some k" using j by simp
  note st = pool_okD(4) [OF ok h]
  have other: "i \<noteq> k" if "job_key (pl_jobs p x) = Some i" "x \<noteq> w" for x i
    using that pool_okD(7) [OF ok, of x k w] job_holds_key [OF h] by blast
  show ?thesis
  proof (rule pool_okI, goal_cases)
    case (3 x i)
    then have "x \<noteq> w" "job_holds (pl_jobs p x) = Some i" by (auto split: if_splits)
    then show ?case
      using other [of x i] job_holds_key pool_okD(3,4) [OF ok] by (auto simp: emb_status_mark_done)
  next
    case (4 x i u)
    then show ?case
      using st pool_okD(3) [OF ok h] pool_okD(5,6) [OF ok] by (auto simp: emb_status_mark_done split: if_splits)
  next
    case (5 x y i)
    then show ?case using pool_okD(7) [OF ok] job_holds_key [OF h] by (auto split: if_splits)
  next
    case (6 i)
    show ?case
    proof (cases "i = k")
      case False
      with 6 have "emb_status i (is_emb (pl_st p)) = Some Done" by (simp add: emb_status_mark_done)
      from pool_okD(8) [OF ok 6(1) this] show ?thesis
        using marked_elsewhere [of "pl_jobs p" i w "J_marked k v"] j by (simp del: fun_upd_apply) blast
    qed auto
  qed (use mark_done_ok [OF pool_okD(1) [OF ok]] pool_okD(2) [OF ok] in simp_all)
qed

lemma pool_ok_index:
  assumes ok: "pool_ok mv p" and j: "pl_jobs p w = J_marked k v"
    and up: "ann_upsert us (ek_track k) raw (is_ann (pl_st p)) = (e, ann)"
    and b: "e \<noteq> None \<Longrightarrow> ek_track k \<in> b" "pl_behind p \<subseteq> b"
  shows "pool_ok mv (p\<lparr>pl_st := (pl_st p)\<lparr>is_ann := ann\<rparr>, pl_jobs := (pl_jobs p)(w := J_idle), pl_behind := b\<rparr>)"
proof (rule pool_okI, goal_cases)
  case 2
  show ?case using ann_upsert_ok [OF pool_okD(2) [OF ok], of us "ek_track k" raw] up by simp
next
  case (6 i)
  then have "emb_status i (is_emb (pl_st p)) = Some Done" by simp
  note c = pool_okD(8) [OF ok 6(1) this]
  have here: "ek_track k \<in> dom (map_of (ai_forward ann)) \<or> ek_track k \<in> b"
    using ann_upsert_dom(2) [OF up] b(1) by blast
  show ?case
  proof (cases "ek_track i = ek_track k")
    case True
    with here show ?thesis by (auto simp del: fun_upd_apply)
  next
    case False
    from c show ?thesis
    proof (elim disjE exE)
      assume "ek_track i \<in> dom (map_of (ai_forward (is_ann (pl_st p))))"
      with False ann_upsert_dom(1) [OF up] have "ek_track i \<in> dom (map_of (ai_forward ann))" by blast
      then show ?thesis by simp
    next
      fix x u assume "pl_jobs p x = J_marked i u"
      moreover from False j have "pl_jobs p w \<noteq> J_marked i v'" for v' by auto
      ultimately show ?thesis
        using marked_elsewhere [of "pl_jobs p" i w J_idle] by (simp del: fun_upd_apply) blast
    qed (use b(2) in auto)
  qed
qed (use pool_okD [OF ok] in \<open>auto split: if_splits\<close>)

text \<open>The tables change only in rows no worker is busy with: enqueueing and retrying.\<close>

lemma pool_ok_table:
  assumes ok: "pool_ok mv p" and e: "embeddings_ok emb"
    and same: "\<And>i. emb_status i (is_emb (pl_st p)) \<in> {Some InProgress, Some Done} \<or> emb_status i emb = Some Done \<Longrightarrow>
        emb_status i emb = emb_status i (is_emb (pl_st p))"
  shows "pool_ok mv (p\<lparr>pl_st := (pl_st p)\<lparr>is_emb := emb\<rparr>\<rparr>)"
proof (rule pool_okI, goal_cases)
  case (6 i)
  then have "emb_status i (is_emb (pl_st p)) = Some Done" using same [of i] by simp
  from pool_okD(8) [OF ok 6(1) this] show ?case by simp
next
  case (3 w i)
  then have h: "job_holds (pl_jobs p w) = Some i" by simp
  from same [of i] pool_okD(3,4) [OF ok h] show ?case by simp
next
  case (4 w i v)
  then have h: "pl_jobs p w = J_marked i v" by simp
  from same [of i] pool_okD(5,6) [OF ok h] show ?case by simp
qed (use e pool_okD(2,7) [OF ok] in auto)

lemma pool_ok_reboot:
  assumes ok: "pool_ok mv p"
    and r: "rebuild_ann_from_store us mv (snd (reset_in_progress now (is_emb (pl_st p)))) (open_in_memory ix dm) = (True, ann)"
  shows "pool_ok mv (p\<lparr>pl_st := (pl_st p)\<lparr>is_emb := snd (reset_in_progress now (is_emb (pl_st p))), is_ann := ann\<rparr>,
      pl_jobs := (\<lambda>_. J_idle), pl_behind := {}\<rparr>)"
proof -
  note e = reset_in_progress_ok [OF pool_okD(1) [OF ok], of now]
  have "ann_ok ann" using rebuild_ann_ok [OF ann_ok_init e, of us mv ix dm] r by simp
  moreover have "ek_track i \<in> dom (map_of (ai_forward ann))"
    if "ek_model i = mv" "emb_status i (snd (reset_in_progress now (is_emb (pl_st p)))) = Some Done" for i
    using done_row_indexed [OF e that(2,1)] rebuild_ann_dom [OF r] by simp
  ultimately show ?thesis using e by (intro pool_okI) auto
qed

lemma pool_step_ok:
  assumes "pool_step us mv p q" "pool_ok mv p"
  shows "pool_ok mv q"
  using assms
proof (cases rule: pool_step.cases)
  case (claim w now k emb)
  with pool_ok_claim [OF assms(2)] show ?thesis by simp
next
  case (metadata w k env)
  with pool_ok_same_key [OF assms(2), of w k "J_fetched k" q] show ?thesis by simp
next
  case (embed w k env)
  with pool_ok_same_key [OF assms(2), of w k "J_embedded k (embed_one env (ek_track k))" q] show ?thesis by simp
next
  case (mark_done w k v now)
  with pool_ok_mark_done [OF assms(2)] show ?thesis by simp
next
  case (mark_failed w k reason now)
  have "emb_status k (Embedding_Store.mark_failed k reason now (is_emb (pl_st p))) \<noteq> Some Done"
    by (auto simp: emb_status_mark_failed)
  with pool_ok_drop [OF assms(2), of w k] mark_failed_ok [OF pool_okD(1) [OF assms(2)]] mark_failed
  show ?thesis by (simp add: emb_status_mark_failed)
next
  case (sql_error w k r)
  with pool_okD(4) [OF assms(2), of w k] pool_ok_drop [OF assms(2), of w k "is_emb (pl_st p)"]
    pool_okD(1) [OF assms(2)]
  show ?thesis by simp
next
  case (index w k v e ann)
  show ?thesis
    unfolding index(1) by (rule pool_ok_index [OF assms(2) index(2,3)]) auto
next
  case (enqueue k now)
  show ?thesis unfolding enqueue(1)
    by (rule pool_ok_table [OF assms(2) enqueue_ok [OF pool_okD(1) [OF assms(2)]]])
       (auto simp: emb_status_enqueue split: if_splits)
next
  case (retry now mv')
  show ?thesis unfolding retry(1)
    by (rule pool_ok_table [OF assms(2) reset_failed_ok [OF pool_okD(1) [OF assms(2)]]])
       (auto simp: emb_status_reset_failed split: if_splits)
next
  case (reboot now emb ix dm ann)
  with pool_ok_reboot [OF assms(2)] show ?thesis by auto
qed

lemma pool_run_ok:
  "(pool_step us mv)\<^sup>*\<^sup>* p q \<Longrightarrow> pool_ok mv p \<Longrightarrow> pool_ok mv q"
  by (induction rule: rtranclp_induct) (blast intro: pool_step_ok)+

lemma pool_init_ok: "pool_ok mv (pool_init ix dm)"
  by (simp add: pool_ok_def pool_init_def embeddings_ok_def ann_ok_init emb_status_def find_row_def)


lemma demo_pool_claims:
  "(pool_step list_index ''m'')\<^sup>*\<^sup>* (pool_init [] 1)
     ((pool_init [] 1)\<lparr>pl_st := (pl_st (pool_init [] 1))\<lparr>is_emb := [(new_row demo_key 3)\<lparr>te_status := InProgress, te_updated_at := 7\<rparr>]\<rparr>,
        pl_jobs := (\<lambda>_. J_idle)(0 := J_claimed demo_key)\<rparr>)"
proof -
  let ?p = "pool_init [] 1"
  let ?q = "?p\<lparr>pl_st := (pl_st ?p)\<lparr>is_emb := [new_row demo_key 3]\<rparr>\<rparr>"
  have a: "pool_step list_index ''m'' ?p ?q"
    using pool_step.enqueue [of list_index "''m''" ?p demo_key 3] by (simp add: enqueue_def pool_init_def)
  have c: "claim_next ''m'' 7 [new_row demo_key 3]
      = (Some demo_key, [(new_row demo_key 3)\<lparr>te_status := InProgress, te_updated_at := 7\<rparr>])"
    by (simp add: claim_next_def next_job_def new_row_def demo_key_def te_key_def)
  have "pool_step list_index ''m'' ?q
     (?p\<lparr>pl_st := (pl_st ?p)\<lparr>is_emb := [(new_row demo_key 3)\<lparr>te_status := InProgress, te_updated_at := 7\<rparr>]\<rparr>,
        pl_jobs := (\<lambda>_. J_idle)(0 := J_claimed demo_key)\<rparr>)"
    using pool_step.claim [of ?q 0 "''m''" 7 demo_key _ list_index] c by (simp add: pool_init_def)
  with a show ?thesis by (meson rtranclp.rtrancl_into_rtrancl rtranclp.rtrancl_refl)
qed


end
