(* ===== verification/Clip_Fetch.thy ===== *)
theory Clip_Fetch
  imports Ingest
begin

text \<open>
  The two fetchers the gateway hands to the ingest worker (\<open>music-gateway/src/ingest.rs\<close>): the clip of a
  track, cut out of the middle, with one retry that forces a transcode when the clip is mostly a leading
  ID3 tag; and the metadata row of a track.

  The upstream is the record \<open>subsonic\<close>: the answer of \<open>getSong\<close>, and the answer of \<open>stream\<close> to the query
  parameters and the \<open>Range\<close> header it is sent. The \<open>u32\<close> rates and durations are words; the byte counts,
  which the code computes in \<open>usize\<close>, stay below \<open>2 ^ 40\<close> and are naturals.
\<close>

section \<open>Constants\<close>

definition WINDOW_SECONDS :: "32 word" where "WINDOW_SECONDS = 12"
definition TRANSCODE_MAX_BITRATE :: "32 word" where "TRANSCODE_MAX_BITRATE = 192"
definition CLIP_HEADROOM_BYTES :: nat where "CLIP_HEADROOM_BYTES = 96 * 1024"
definition MIN_AUDIO_SECONDS_AFTER_TAG :: nat where "MIN_AUDIO_SECONDS_AFTER_TAG = 2"
definition FALLBACK_FORCED_BITRATE :: "32 word" where "FALLBACK_FORCED_BITRATE = 96"

definition MAX_CLIP_BYTES :: nat where
  "MAX_CLIP_BYTES =
     (unat TRANSCODE_MAX_BITRATE * 1000 div 8) * unat WINDOW_SECONDS + CLIP_HEADROOM_BYTES"

section \<open>The pure parts\<close>

text \<open>A leading ID3v2 tag: \<open>ID3\<close>, two bytes of version, flags, four bytes of seven bits each.\<close>

definition id3_tag_len :: "string \<Rightarrow> nat option" where
  "id3_tag_len bs =
     (if length bs < 10 \<or> take 3 bs \<noteq> ''ID3'' then None
      else (let size = map byte (take 4 (drop 6 bs))
            in if \<exists>b \<in> set size. 128 \<le> b then None
               else Some (10 + fold (\<lambda>b acc. acc * 128 + b mod 128) size 0
                          + (if odd (byte (bs ! 5) div 16) then 10 else 0))))"

definition clip_needs_transcode_retry :: "string \<Rightarrow> 32 word option \<Rightarrow> bool" where
  "clip_needs_transcode_retry clip rate =
     (case id3_tag_len clip of
        None \<Rightarrow> False
      | Some tag \<Rightarrow>
          (let kbps = max (case rate of None \<Rightarrow> TRANSCODE_MAX_BITRATE | Some r \<Rightarrow> r) 1
           in length clip - tag < (unat kbps * 1000 div 8) * MIN_AUDIO_SECONDS_AFTER_TAG))"

definition forced_transcode_bitrate :: "32 word option \<Rightarrow> 32 word" where
  "forced_transcode_bitrate rate =
     (case rate of
        Some kbps \<Rightarrow> if 32 < kbps then min (kbps - 1) TRANSCODE_MAX_BITRATE else 32
      | None \<Rightarrow> FALLBACK_FORCED_BITRATE)"

definition pick_offset_seconds :: "32 word \<Rightarrow> 32 word \<Rightarrow> 32 word" where
  "pick_offset_seconds duration window =
     (if duration \<le> window then 0 else (duration - window) div 2)"

section \<open>The clip\<close>

text \<open>The query parameters of a clip, as name and number; \<open>format=mp3\<close> always accompanies them.\<close>

datatype clip_param = Format_mp3 | MaxBitRate "32 word" | TimeOffset "32 word"

definition clip_query_params :: "32 word \<Rightarrow> 32 word \<Rightarrow> clip_param list" where
  "clip_query_params offset rate =
     [Format_mp3, MaxBitRate rate] @ (if 0 < offset then [TimeOffset offset] else [])"

datatype stream_reply =
    Stream_url_error string
  | Send_failed string
  | Stream_status nat "string + string"

text \<open>\<open>Stream_status\<close> carries the status and what reading the body gives.\<close>

record subsonic =
  sub_get_song :: "track_id \<Rightarrow> string + track"
  sub_stream :: "track_id \<Rightarrow> clip_param list \<Rightarrow> nat \<times> nat \<Rightarrow> stream_reply"
  sub_status_text :: "nat \<Rightarrow> string"

text \<open>The range asked for is \<open>bytes=0-\<close> to the last byte of the window.\<close>

definition fetch_at_bitrate ::
  "subsonic \<Rightarrow> track_id \<Rightarrow> 32 word \<Rightarrow> 32 word \<Rightarrow> fetch_error + string" where
  "fetch_at_bitrate up t offset rate =
     (case sub_stream up t (clip_query_params offset rate) (0, MAX_CLIP_BYTES - 1) of
        Stream_url_error e \<Rightarrow> Inl (Transport (''stream_url: '' @ e))
      | Send_failed e \<Rightarrow> Inl (Transport (''send: '' @ e))
      | Stream_status st body \<Rightarrow>
          if st = 404 then Inl (NotFound t)
          else if \<not> (200 \<le> st \<and> st < 300) then Inl (Transport (''upstream '' @ sub_status_text up st))
          else (case body of Inl e \<Rightarrow> Inl (Transport (''body: '' @ e)) | Inr b \<Rightarrow> Inr b))"

definition song_facts :: "subsonic \<Rightarrow> track_id \<Rightarrow> 32 word \<times> 32 word option" where
  "song_facts up t =
     (case sub_get_song up t of
        Inr s \<Rightarrow> (case t_duration_seconds s of None \<Rightarrow> 0 | Some d \<Rightarrow> d, t_bit_rate_kbps s)
      | Inl _ \<Rightarrow> (0, None))"

definition fetch_clip :: "subsonic \<Rightarrow> track_id \<Rightarrow> fetch_error + string" where
  "fetch_clip up t =
     (let (duration, rate) = song_facts up t; offset = pick_offset_seconds duration WINDOW_SECONDS
      in case fetch_at_bitrate up t offset TRANSCODE_MAX_BITRATE of
           Inl e \<Rightarrow> Inl e
         | Inr clip \<Rightarrow>
             if \<not> clip_needs_transcode_retry clip rate then Inr clip
             else fetch_at_bitrate up t offset (forced_transcode_bitrate rate))"

section \<open>The metadata row\<close>

definition song_metadata :: "track \<Rightarrow> track_metadata" where
  "song_metadata s =
     \<lparr>tm_track_id = t_id s, tm_artist_id = map_option artist_str (t_artist_id s),
      tm_artist = (case t_artist_name s of None \<Rightarrow> [] | Some a \<Rightarrow> a),
      tm_album_id = map_option album_str (t_album_id s), tm_album = t_album_name s,
      tm_title = t_title s, tm_title_normalized = normalize_title (t_title s),
      tm_duration_seconds = t_duration_seconds s, tm_genre = t_genre s,
      tm_year = map_option ucast (t_year s), tm_track_number = t_track_number s,
      tm_disc_number = t_disc_number s, tm_bpm = None, tm_musical_key = None\<rparr>"

definition fetch_metadata :: "subsonic \<Rightarrow> track_id \<Rightarrow> fetch_error + track_metadata" where
  "fetch_metadata up t =
     (case sub_get_song up t of
        Inl e \<Rightarrow> Inl (Transport (''getSong: '' @ e))
      | Inr s \<Rightarrow> Inr (song_metadata s))"

section \<open>Laws\<close>

text \<open>The clip lies inside the track and is centred, up to the half second the division drops.\<close>

lemma offset_centred:
  assumes "window \<le> duration"
  shows "unat (pick_offset_seconds duration window) + unat window \<le> unat duration"
    and "unat duration - (unat (pick_offset_seconds duration window) + unat window)
           - unat (pick_offset_seconds duration window) \<le> 1"
proof -
  have "unat (pick_offset_seconds duration window) = (unat duration - unat window) div 2"
    using assms by (auto simp: pick_offset_seconds_def unat_sub unat_div word_le_nat_alt)
  moreover have "unat window \<le> unat duration" using assms by (simp add: word_le_nat_alt)
  ultimately show "unat (pick_offset_seconds duration window) + unat window \<le> unat duration"
    and "unat duration - (unat (pick_offset_seconds duration window) + unat window)
           - unat (pick_offset_seconds duration window) \<le> 1"
    by linarith+
qed

text \<open>A tag length is at least the header and below \<open>2 ^ 28 + 20\<close>: four groups of seven bits.\<close>

lemma id3_tag_len_bounds:
  assumes "id3_tag_len bs = Some n"
  shows "10 \<le> n" "n < 2 ^ 28 + 20"
proof -
  define size where "size = map byte (take 4 (drop 6 bs))"
  from assms have n: "n = 10 + fold (\<lambda>b acc. acc * 128 + b mod 128) size 0
      + (if odd (byte (bs ! 5) div 16) then 10 else 0)" and len: "10 \<le> length bs"
    by (auto simp: id3_tag_len_def Let_def size_def split: if_splits)
  from len have "length size = 4" by (simp add: size_def)
  then obtain a b c d where "size = [a, b, c, d]"
    by (auto simp: length_Suc_conv eval_nat_numeral)
  then have f: "fold (\<lambda>b acc. acc * 128 + b mod 128) size 0
      = ((a mod 128 * 128 + b mod 128) * 128 + c mod 128) * 128 + d mod 128"
    by simp
  have "a mod 128 \<le> 127" "b mod 128 \<le> 127" "c mod 128 \<le> 127" "d mod 128 \<le> 127"
    by (simp_all add: less_Suc_eq_le [symmetric])
  then have "fold (\<lambda>b acc. acc * 128 + b mod 128) size 0 \<le> 2 ^ 28 - 1"
    unfolding f by simp
  with n show "10 \<le> n" "n < 2 ^ 28 + 20" by auto
qed

text \<open>The retry asks below the source rate, except for sources at or below the floor of 32 kbps.\<close>

lemma forced_below_source:
  "32 < kbps \<Longrightarrow> forced_transcode_bitrate (Some kbps) < kbps"
  "kbps \<le> 32 \<Longrightarrow> forced_transcode_bitrate (Some kbps) = 32"
  "32 \<le> forced_transcode_bitrate rate \<and> forced_transcode_bitrate rate \<le> TRANSCODE_MAX_BITRATE"
proof -
  have dec: "kbps - 1 < kbps" "32 \<le> kbps - 1" if "32 < kbps" for kbps :: "32 word"
  proof -
    from that have g: "1 \<le> kbps" "32 < unat kbps" by (simp_all add: word_le_nat_alt word_less_nat_alt)
    then have "unat (kbps - 1) = unat kbps - 1" using unat_sub [OF g(1)] by simp
    with g show "kbps - 1 < kbps" "32 \<le> kbps - 1" by (simp_all add: word_le_nat_alt word_less_nat_alt)
  qed
  show "32 < kbps \<Longrightarrow> forced_transcode_bitrate (Some kbps) < kbps"
    using dec(1) [of kbps] by (auto simp: forced_transcode_bitrate_def min_def)
  show "kbps \<le> 32 \<Longrightarrow> forced_transcode_bitrate (Some kbps) = 32"
    by (auto simp: forced_transcode_bitrate_def)
  show "32 \<le> forced_transcode_bitrate rate \<and> forced_transcode_bitrate rate \<le> TRANSCODE_MAX_BITRATE"
    using dec(2) by (auto simp: forced_transcode_bitrate_def TRANSCODE_MAX_BITRATE_def
        FALLBACK_FORCED_BITRATE_def min_def split: option.split)
qed

end
