(* ===== verification/Queue_Filter.thy ===== *)
theory Queue_Filter
  imports Track_Meta Binary_Float "HOL-Library.Sublist"
begin

text \<open>
  The diversity filter of the recommender (\<open>music-recommend/src/queue_filter.rs\<close>) and the walks of the
  gateway over it that do not rank (\<open>walk_hard_cap\<close>, \<open>walk_off\<close> and \<open>FilterStats\<close> of
  \<open>music-gateway/src/recommend.rs\<close>).

  A filter knows the ids in the queue, how many tracks each artist has in the queue and in the slate
  so far, and which titles are there. The counts are a total function that is 0 where the
  \<open>HashMap\<close> has no entry; they stay below \<open>2 ^ 32\<close> as a queue has at most 400 tracks. A metadata lookup is
  a partial map. \<open>footprint\<close> says what the state of the filter means: it counts the tracks of the
  queue and those accepted, whatever the order of the calls.
\<close>

section \<open>Configuration\<close>

datatype filter_decision = Accept | RejectArtistCap | RejectDedup

datatype diversity_mode = HardCap | Mmr | Off

record queue_filter_config =
  qc_mode :: diversity_mode
  qc_lambda :: fp
  qc_penalty :: fp
  qc_max_per_artist :: nat
  qc_dedup :: bool

definition default_config :: queue_filter_config where
  "default_config =
     \<lparr>qc_mode = HardCap, qc_lambda = lit32 (7 / 10), qc_penalty = lit32 (15 / 100),
      qc_max_per_artist = 0, qc_dedup = True\<rparr>"

section \<open>The filter\<close>

definition artist_key :: "track_metadata \<Rightarrow> string" where
  "artist_key m =
     (case tm_artist_id m of
        Some i \<Rightarrow> if i \<noteq> [] then ''id:'' @ i else ''name:'' @ lower (trim (tm_artist m))
      | None \<Rightarrow> ''name:'' @ lower (trim (tm_artist m)))"

definition dedup_key :: "track_metadata \<Rightarrow> string" where
  "dedup_key m = artist_key m @ ''|'' @ tm_title_normalized m"

record queue_filter =
  qf_cfg :: queue_filter_config
  qf_excluded :: "track_id set"
  qf_counts :: "string \<Rightarrow> nat"
  qf_titles :: "string set"

type_synonym metadata_map = "track_id \<Rightarrow> track_metadata option"

text \<open>The effect of one known track on the counts and titles, shared by \<open>build\<close> and \<open>try_accept\<close>.\<close>

definition count_track :: "track_metadata \<Rightarrow> queue_filter \<Rightarrow> queue_filter" where
  "count_track m f =
     f\<lparr>qf_counts := (qf_counts f)(artist_key m := Suc (qf_counts f (artist_key m))),
       qf_titles := (if qc_dedup (qf_cfg f) then insert (dedup_key m) (qf_titles f) else qf_titles f)\<rparr>"

definition build_filter ::
  "track_id list \<Rightarrow> track_id option \<Rightarrow> metadata_map \<Rightarrow> queue_filter_config \<Rightarrow> queue_filter" where
  "build_filter q playing meta cfg =
     fold (\<lambda>i f.
         (let f1 = (if Some i \<noteq> playing then f\<lparr>qf_excluded := insert i (qf_excluded f)\<rparr> else f)
          in case meta i of None \<Rightarrow> f1 | Some m \<Rightarrow> count_track m f1))
       q \<lparr>qf_cfg = cfg, qf_excluded = {}, qf_counts = (\<lambda>_. 0), qf_titles = {}\<rparr>"

definition is_excluded :: "queue_filter \<Rightarrow> track_id \<Rightarrow> bool" where
  "is_excluded f i \<longleftrightarrow> i \<in> qf_excluded f"

definition try_accept :: "track_metadata option \<Rightarrow> queue_filter \<Rightarrow> filter_decision \<times> queue_filter" where
  "try_accept mo f =
     (case mo of
        None \<Rightarrow> (Accept, f)
      | Some m \<Rightarrow>
          if 0 < qc_max_per_artist (qf_cfg f)
             \<and> qc_max_per_artist (qf_cfg f) \<le> qf_counts f (artist_key m) then (RejectArtistCap, f)
          else if qc_dedup (qf_cfg f) \<and> dedup_key m \<in> qf_titles f then (RejectDedup, f)
          else (Accept, count_track m f))"

section \<open>Statistics of a walk\<close>

record filter_stats =
  fs_artist :: nat
  fs_dedup :: nat
  fs_admitted :: "fp list"
  fs_dropped :: "fp list"

definition no_stats :: filter_stats where
  "no_stats = \<lparr>fs_artist = 0, fs_dedup = 0, fs_admitted = [], fs_dropped = []\<rparr>"

definition total_dropped :: "filter_stats \<Rightarrow> nat" where
  "total_dropped s = fs_artist s + fs_dedup s"

definition record_admit :: "fp \<Rightarrow> filter_stats \<Rightarrow> filter_stats" where
  "record_admit sim s = s\<lparr>fs_admitted := fs_admitted s @ [sim]\<rparr>"

definition record_drop :: "filter_decision \<Rightarrow> fp \<Rightarrow> filter_stats \<Rightarrow> filter_stats" where
  "record_drop d sim s =
     (case d of
        RejectArtistCap \<Rightarrow> s\<lparr>fs_artist := Suc (fs_artist s), fs_dropped := fs_dropped s @ [sim]\<rparr>
      | RejectDedup \<Rightarrow> s\<lparr>fs_dedup := Suc (fs_dedup s), fs_dropped := fs_dropped s @ [sim]\<rparr>
      | Accept \<Rightarrow> s)"

fun reduce1 :: "('a \<Rightarrow> 'a \<Rightarrow> 'a) \<Rightarrow> 'a list \<Rightarrow> 'a option" where
  "reduce1 f [] = None"
| "reduce1 f (x # xs) = Some (foldl f x xs)"

definition admitted_min :: "filter_stats \<Rightarrow> fp option" where
  "admitted_min s = reduce1 fp_min (fs_admitted s)"

definition admitted_max :: "filter_stats \<Rightarrow> fp option" where
  "admitted_max s = reduce1 fp_max (fs_admitted s)"

definition dropped_max :: "filter_stats \<Rightarrow> fp option" where
  "dropped_max s = reduce1 fp_max (fs_dropped s)"

definition sim_gap :: "filter_stats \<Rightarrow> fp option" where
  "sim_gap s =
     (case (dropped_max s, admitted_min s) of
        (Some d, Some a) \<Rightarrow> Some (sub32 d a)
      | _ \<Rightarrow> None)"

datatype shortfall_reason = No_shortfall | PoolExhausted | FilterStarvedArtist | FilterStarvedDedup

fun shortfall_str :: "shortfall_reason \<Rightarrow> string" where
  "shortfall_str No_shortfall = ''none''"
| "shortfall_str PoolExhausted = ''pool_exhausted''"
| "shortfall_str FilterStarvedArtist = ''filter_starved_artist''"
| "shortfall_str FilterStarvedDedup = ''filter_starved_dedup''"

definition classify_shortfall :: "nat \<Rightarrow> nat \<Rightarrow> filter_stats \<Rightarrow> shortfall_reason" where
  "classify_shortfall results requested s =
     (if requested \<le> results then No_shortfall
      else if total_dropped s = 0 then PoolExhausted
      else if fs_dedup s \<le> fs_artist s then FilterStarvedArtist
      else FilterStarvedDedup)"

definition ids_as_json :: "string list \<Rightarrow> string" where
  "ids_as_json ids =
     (let esc = (\<lambda>c. if c = CHR 0x22 then [CHR 0x5C, CHR 0x22]
                     else if c = CHR 0x5C then [CHR 0x5C, CHR 0x5C] else [c]);
          item = (\<lambda>s. [CHR 0x22] @ concat (map esc s) @ [CHR 0x22])
      in ''['' @ (case ids of [] \<Rightarrow> [] | i # is \<Rightarrow> item i @ concat (map (\<lambda>s. '','' @ item s) is)) @ '']'')"

section \<open>The walks\<close>

text \<open>The trait \<open>CandidateLike\<close>: the two candidate types have an id and a similarity.\<close>

record 'c candidate_like =
  cl_track :: "'c \<Rightarrow> track_id"
  cl_sim :: "'c \<Rightarrow> fp"

text \<open>Candidates in order, each offered to the filter, until \<open>top_n\<close> are in; shared by the hard cap and by
  the last stage of the MMR walk, whose candidates are already stripped of the queue.\<close>

fun walk ::
  "'c candidate_like \<Rightarrow> metadata_map \<Rightarrow> nat \<Rightarrow> 'c list \<Rightarrow> queue_filter \<Rightarrow> 'c list \<Rightarrow> filter_stats
    \<Rightarrow> 'c list \<times> filter_stats" where
  "walk cl meta top_n [] f out s = (out, s)"
| "walk cl meta top_n (c # cs) f out s =
     (if top_n \<le> length out then (out, s)
      else if is_excluded f (cl_track cl c) then walk cl meta top_n cs f out s
      else case try_accept (meta (cl_track cl c)) f of
             (Accept, f') \<Rightarrow> walk cl meta top_n cs f' (out @ [c]) (record_admit (cl_sim cl c) s)
           | (d, f') \<Rightarrow> walk cl meta top_n cs f' out (record_drop d (cl_sim cl c) s))"

definition walk_hard_cap ::
  "'c candidate_like \<Rightarrow> 'c list \<Rightarrow> metadata_map \<Rightarrow> queue_filter \<Rightarrow> nat \<Rightarrow> 'c list \<times> filter_stats" where
  "walk_hard_cap cl cs meta f top_n = walk cl meta top_n cs f [] no_stats"

fun walk_off_from ::
  "'c candidate_like \<Rightarrow> queue_filter \<Rightarrow> nat \<Rightarrow> 'c list \<Rightarrow> 'c list \<Rightarrow> filter_stats \<Rightarrow> 'c list \<times> filter_stats" where
  "walk_off_from cl f top_n [] out s = (out, s)"
| "walk_off_from cl f top_n (c # cs) out s =
     (if top_n \<le> length out then (out, s)
      else if is_excluded f (cl_track cl c) then walk_off_from cl f top_n cs out s
      else walk_off_from cl f top_n cs (out @ [c]) (record_admit (cl_sim cl c) s))"

definition walk_off ::
  "'c candidate_like \<Rightarrow> 'c list \<Rightarrow> queue_filter \<Rightarrow> nat \<Rightarrow> 'c list \<times> filter_stats" where
  "walk_off cl cs f top_n = walk_off_from cl f top_n cs [] no_stats"

section \<open>What the state of a filter means\<close>

definition known :: "metadata_map \<Rightarrow> track_id list \<Rightarrow> track_metadata list" where
  "known meta ids = List.map_filter meta ids"

definition artist_count :: "metadata_map \<Rightarrow> string \<Rightarrow> track_id list \<Rightarrow> nat" where
  "artist_count meta k ids = length (filter (\<lambda>m. artist_key m = k) (known meta ids))"

definition title_keys :: "metadata_map \<Rightarrow> track_id list \<Rightarrow> string set" where
  "title_keys meta ids = dedup_key ` set (known meta ids)"

definition footprint :: "metadata_map \<Rightarrow> queue_filter \<Rightarrow> track_id list \<Rightarrow> bool" where
  "footprint meta f ids \<longleftrightarrow> (\<forall>k. qf_counts f k = artist_count meta k ids)
     \<and> qf_titles f = (if qc_dedup (qf_cfg f) then title_keys meta ids else {})"

lemma known_simps [simp]:
  "known meta [] = []"
  "known meta (i # ids) = (case meta i of None \<Rightarrow> known meta ids | Some m \<Rightarrow> m # known meta ids)"
  "known meta (ids @ js) = known meta ids @ known meta js"
  by (simp_all add: known_def List.map_filter_def split: option.split)

lemma artist_count_append [simp]:
  "artist_count meta k (ids @ js) = artist_count meta k ids + artist_count meta k js"
  by (simp add: artist_count_def)

lemma title_keys_append [simp]: "title_keys meta (ids @ js) = title_keys meta ids \<union> title_keys meta js"
  by (simp add: title_keys_def image_Un)

lemma artist_count_Cons:
  "artist_count meta k (i # ids) =
     (case meta i of None \<Rightarrow> 0 | Some m \<Rightarrow> if artist_key m = k then 1 else 0) + artist_count meta k ids"
  by (simp add: artist_count_def split: option.split)

lemma title_keys_Cons:
  "title_keys meta (i # ids) =
     (case meta i of None \<Rightarrow> {} | Some m \<Rightarrow> {dedup_key m}) \<union> title_keys meta ids"
  by (simp add: title_keys_def split: option.split)

lemma artist_count_Nil [simp]: "artist_count meta k [] = 0"
  by (simp add: artist_count_def)

lemma title_keys_Nil [simp]: "title_keys meta [] = {}"
  by (simp add: title_keys_def)

lemma footprint_count_track:
  "footprint meta f ids \<Longrightarrow> meta i = Some m \<Longrightarrow> footprint meta (count_track m f) (ids @ [i])"
  by (auto simp: footprint_def count_track_def artist_count_Cons title_keys_Cons)

lemma count_track_fields [simp]:
  "qf_cfg (count_track m f) = qf_cfg f" "qf_excluded (count_track m f) = qf_excluded f"
  by (simp_all add: count_track_def)

lemma footprint_excluded [simp]: "footprint meta (f\<lparr>qf_excluded := e\<rparr>) ids = footprint meta f ids"
  by (simp add: footprint_def)

lemma footprint_unknown: "meta i = None \<Longrightarrow> footprint meta f (ids @ [i]) = footprint meta f ids"
  by (simp add: footprint_def artist_count_Cons title_keys_Cons)

lemma build_filter_footprint:
  "footprint meta (build_filter q playing meta cfg) q
   \<and> qf_cfg (build_filter q playing meta cfg) = cfg
   \<and> qf_excluded (build_filter q playing meta cfg) = {i \<in> set q. Some i \<noteq> playing}"
proof (induction q rule: rev_induct)
  case (snoc i q)
  let ?f = "build_filter q playing meta cfg"
  have step: "build_filter (q @ [i]) playing meta cfg =
      (let f1 = (if Some i \<noteq> playing then ?f\<lparr>qf_excluded := insert i (qf_excluded ?f)\<rparr> else ?f)
       in case meta i of None \<Rightarrow> f1 | Some m \<Rightarrow> count_track m f1)"
    by (simp only: build_filter_def fold_append fold_simps comp_apply)
  show ?case
    using snoc footprint_count_track [of meta _ q i] footprint_unknown [of meta i _ q]
    by (cases "meta i") (auto simp: step Let_def)
qed (simp add: build_filter_def footprint_def)

lemma try_accept_cases:
  assumes "try_accept (meta i) f = (d, f')"
  obtains (accept) "d = Accept" "qf_cfg f' = qf_cfg f" "qf_excluded f' = qf_excluded f"
      "\<And>ids. footprint meta f ids \<Longrightarrow> footprint meta f' (ids @ [i])"
      "\<And>m. meta i = Some m \<Longrightarrow> 0 < qc_max_per_artist (qf_cfg f) \<Longrightarrow>
         qf_counts f (artist_key m) < qc_max_per_artist (qf_cfg f)"
      "\<And>m. meta i = Some m \<Longrightarrow> qc_dedup (qf_cfg f) \<Longrightarrow> dedup_key m \<notin> qf_titles f"
    | (cap) m where "d = RejectArtistCap" "f' = f" "meta i = Some m" "0 < qc_max_per_artist (qf_cfg f)"
      "qc_max_per_artist (qf_cfg f) \<le> qf_counts f (artist_key m)"
    | (dedup) m where "d = RejectDedup" "f' = f" "meta i = Some m" "qc_dedup (qf_cfg f)"
      "dedup_key m \<in> qf_titles f"
proof (cases "meta i")
  case None
  with assms show thesis by (intro accept) (auto simp: try_accept_def footprint_unknown)
next
  case (Some m)
  show thesis
  proof (cases "0 < qc_max_per_artist (qf_cfg f) \<and> qc_max_per_artist (qf_cfg f) \<le> qf_counts f (artist_key m)")
    case True
    with assms Some show thesis by (intro cap) (auto simp: try_accept_def)
  next
    case not_cap: False
    show thesis
    proof (cases "qc_dedup (qf_cfg f) \<and> dedup_key m \<in> qf_titles f")
      case True
      with assms Some not_cap show thesis by (intro dedup) (auto simp: try_accept_def)
    next
      case False
      with assms Some not_cap have "d = Accept" "f' = count_track m f"
        by (auto simp: try_accept_def split: if_splits)
      with Some not_cap False show thesis
        by (intro accept) (auto simp: footprint_count_track)
    qed
  qed
qed

text \<open>A filter that starts from a queue and accepts some tracks is the filter built from the longer queue.\<close>

lemma accepting_extends_queue:
  assumes "try_accept (meta i) (build_filter q playing meta cfg) = (Accept, f)"
  shows "qf_counts f = qf_counts (build_filter (q @ [i]) playing meta cfg)
    \<and> qf_titles f = qf_titles (build_filter (q @ [i]) playing meta cfg)"
proof -
  note b = build_filter_footprint [of meta q playing cfg]
  note b' = build_filter_footprint [of meta "q @ [i]" playing cfg]
  from assms have "footprint meta f (q @ [i]) \<and> qf_cfg f = cfg"
    by (cases rule: try_accept_cases) (use b in auto)
  with b' show ?thesis by (auto simp: footprint_def)
qed

section \<open>What a walk selects\<close>

text \<open>The invariant of a walk over the candidates \<open>seen\<close> so far: what is in the slate, and why the rest is not.\<close>

definition walk_ok ::
  "'c candidate_like \<Rightarrow> metadata_map \<Rightarrow> nat \<Rightarrow> track_id list \<Rightarrow> queue_filter \<Rightarrow> queue_filter \<Rightarrow> 'c list
    \<Rightarrow> 'c list \<Rightarrow> filter_stats \<Rightarrow> bool" where
  "walk_ok cl meta top_n q f0 f seen out s \<longleftrightarrow>
     subseq out seen \<and> length out \<le> top_n
     \<and> qf_cfg f = qf_cfg f0 \<and> qf_excluded f = qf_excluded f0
     \<and> footprint meta f (q @ map (cl_track cl) out)
     \<and> (\<forall>c \<in> set out. cl_track cl c \<notin> qf_excluded f0)
     \<and> (0 < qc_max_per_artist (qf_cfg f0) \<longrightarrow>
          (\<forall>k. artist_count meta k (q @ map (cl_track cl) out)
                 \<le> max (qc_max_per_artist (qf_cfg f0)) (artist_count meta k q)))
     \<and> (qc_dedup (qf_cfg f0) \<longrightarrow>
          distinct (map dedup_key (known meta (map (cl_track cl) out)))
          \<and> title_keys meta (map (cl_track cl) out) \<inter> title_keys meta q = {})
     \<and> fs_admitted s = map (cl_sim cl) out \<and> total_dropped s = length (fs_dropped s)
     \<and> length out + total_dropped s + length (filter (\<lambda>c. cl_track cl c \<in> qf_excluded f0) seen) = length seen
     \<and> (\<forall>c \<in> set seen. cl_track cl c \<in> qf_excluded f0 \<or> c \<in> set out
          \<or> (\<exists>m. meta (cl_track cl c) = Some m \<and>
               ((0 < qc_max_per_artist (qf_cfg f0)
                  \<and> qc_max_per_artist (qf_cfg f0) \<le> artist_count meta (artist_key m) (q @ map (cl_track cl) out))
                \<or> (qc_dedup (qf_cfg f0) \<and> dedup_key m \<in> title_keys meta (q @ map (cl_track cl) out)))))"

lemma subseq_snoc: "subseq xs ys \<Longrightarrow> subseq (xs @ [c]) (ys @ [c])"
  by (simp add: list_emb_append_mono)

lemma subseq_skip: "subseq xs ys \<Longrightarrow> subseq xs (ys @ [c])"
  using list_emb_append2 [of "(=)" xs ys "[]"] list_emb_append_mono [of "(=)" xs ys "[]" "[c]"] by simp

lemma walk_ok_excluded:
  "walk_ok cl meta n q f0 f seen out s \<Longrightarrow> is_excluded f (cl_track cl c) \<Longrightarrow>
   walk_ok cl meta n q f0 f (seen @ [c]) out s"
  by (auto simp: walk_ok_def is_excluded_def intro: subseq_skip)

lemma walk_ok_dropped:
  assumes ok: "walk_ok cl meta n q f0 f seen out s" and ex: "\<not> is_excluded f (cl_track cl c)"
    and d: "try_accept (meta (cl_track cl c)) f = (d, f')" "d \<noteq> Accept"
  shows "walk_ok cl meta n q f0 f' (seen @ [c]) out (record_drop d (cl_sim cl c) s)"
proof -
  have fp: "footprint meta f (q @ map (cl_track cl) out)" "qf_cfg f = qf_cfg f0"
    using ok by (simp_all add: walk_ok_def)
  have drop: "total_dropped (record_drop d (cl_sim cl c) s) = Suc (total_dropped s)"
    "length (fs_dropped (record_drop d (cl_sim cl c) s)) = Suc (length (fs_dropped s))"
    "fs_admitted (record_drop d (cl_sim cl c) s) = fs_admitted s"
    using d(2) by (cases d; simp add: record_drop_def total_dropped_def)+
  have why: "\<exists>m. meta (cl_track cl c) = Some m \<and>
               ((0 < qc_max_per_artist (qf_cfg f0)
                  \<and> qc_max_per_artist (qf_cfg f0) \<le> artist_count meta (artist_key m) (q @ map (cl_track cl) out))
                \<or> (qc_dedup (qf_cfg f0) \<and> dedup_key m \<in> title_keys meta (q @ map (cl_track cl) out)))"
    "f' = f"
    using d(1)
    by (cases rule: try_accept_cases; use d(2) fp in \<open>auto simp: footprint_def split: if_splits\<close>)+
  show ?thesis
    using ok ex why drop unfolding walk_ok_def is_excluded_def
    by (auto intro: subseq_skip)
qed

lemma walk_ok_admitted:
  assumes ok: "walk_ok cl meta n q f0 f seen out s" and ex: "\<not> is_excluded f (cl_track cl c)"
    and d: "try_accept (meta (cl_track cl c)) f = (Accept, f')" and room: "length out < n"
  shows "walk_ok cl meta n q f0 f' (seen @ [c]) (out @ [c]) (record_admit (cl_sim cl c) s)"
proof -
  let ?i = "cl_track cl c"
  let ?ids = "map (cl_track cl) out"
  have fp: "footprint meta f (q @ ?ids)" "qf_cfg f = qf_cfg f0" "qf_excluded f = qf_excluded f0"
    using ok by (simp_all add: walk_ok_def)
  from d obtain f': "qf_cfg f' = qf_cfg f0" "qf_excluded f' = qf_excluded f0"
      "footprint meta f' (q @ ?ids @ [?i])"
    and cap: "\<And>m. meta ?i = Some m \<Longrightarrow> 0 < qc_max_per_artist (qf_cfg f0) \<Longrightarrow>
       artist_count meta (artist_key m) (q @ ?ids) < qc_max_per_artist (qf_cfg f0)"
    and new: "\<And>m. meta ?i = Some m \<Longrightarrow> qc_dedup (qf_cfg f0) \<Longrightarrow> dedup_key m \<notin> title_keys meta (q @ ?ids)"
  proof (cases rule: try_accept_cases)
    case accept
    have "footprint meta f' (q @ ?ids @ [?i])" using accept(4) [OF fp(1)] by simp
    with accept fp that show thesis by (simp add: footprint_def)
  qed simp_all
  have counts: "artist_count meta k (q @ ?ids @ [?i])
      \<le> max (qc_max_per_artist (qf_cfg f0)) (artist_count meta k q)"
    if "0 < qc_max_per_artist (qf_cfg f0)" for k
  proof -
    have "artist_count meta k (q @ ?ids) \<le> max (qc_max_per_artist (qf_cfg f0)) (artist_count meta k q)"
      using ok that by (simp only: walk_ok_def)
    then show ?thesis using cap that by (fastforce simp: artist_count_Cons split: option.split)
  qed
  have titles: "distinct (map dedup_key (known meta (?ids @ [?i])))
       \<and> title_keys meta (?ids @ [?i]) \<inter> title_keys meta q = {}" if "qc_dedup (qf_cfg f0)"
    using ok that new by (auto simp: walk_ok_def title_keys_def split: option.split)
  have mono: "artist_count meta k (q @ ?ids) \<le> artist_count meta k (q @ ?ids @ [?i])"
    "title_keys meta (q @ ?ids) \<subseteq> title_keys meta (q @ ?ids @ [?i])" for k
    by auto
  have old: "cl_track cl x \<in> qf_excluded f0 \<or> x \<in> set out
          \<or> (\<exists>m. meta (cl_track cl x) = Some m \<and>
               ((0 < qc_max_per_artist (qf_cfg f0)
                  \<and> qc_max_per_artist (qf_cfg f0) \<le> artist_count meta (artist_key m) (q @ ?ids @ [?i]))
                \<or> (qc_dedup (qf_cfg f0) \<and> dedup_key m \<in> title_keys meta (q @ ?ids @ [?i]))))"
    if "x \<in> set seen" for x
    using ok that mono unfolding walk_ok_def by (meson le_trans subsetD)
  show ?thesis
    using ok ex f' counts titles old room fp
    unfolding walk_ok_def is_excluded_def
    by (auto intro: subseq_snoc simp: record_admit_def total_dropped_def)
qed

lemma walk_ok_walk:
  "walk_ok cl meta n q f0 f seen out s \<Longrightarrow>
   \<exists>f'. case walk cl meta n cs f out s of (out', s') \<Rightarrow>
     (\<exists>rest. cs = rest @ drop (length rest) cs \<and> (drop (length rest) cs = [] \<or> length out' = n)
        \<and> walk_ok cl meta n q f0 f' (seen @ rest) out' s')"
proof (induction cs arbitrary: f seen out s)
  case Nil
  then show ?case by auto
next
  case (Cons c cs)
  show ?case
  proof (cases "n \<le> length out")
    case True
    with Cons.prems have "length out = n" by (simp add: walk_ok_def)
    with True Cons.prems show ?thesis by (auto intro!: exI [of _ f] exI [of _ "[]"])
  next
    case room: False
    have lift: "\<exists>f'. case walk cl meta n cs g o2 s2 of (out', s') \<Rightarrow>
       (\<exists>rest. c # cs = rest @ drop (length rest) (c # cs) \<and> (drop (length rest) (c # cs) = [] \<or> length out' = n)
        \<and> walk_ok cl meta n q f0 f' (seen @ rest) out' s')"
      if "walk_ok cl meta n q f0 g (seen @ [c]) o2 s2" for g o2 s2
    proof -
      obtain out' s' where w: "walk cl meta n cs g o2 s2 = (out', s')" by fastforce
      from Cons.IH [OF that] w obtain f' rest where
        "cs = rest @ drop (length rest) cs" "drop (length rest) cs = [] \<or> length out' = n"
        "walk_ok cl meta n q f0 f' (seen @ [c] @ rest) out' s'" by auto
      with w show ?thesis by (auto intro!: exI [of _ f'] exI [of _ "c # rest"])
    qed
    show ?thesis
    proof (cases "is_excluded f (cl_track cl c)")
      case True
      with room lift [OF walk_ok_excluded [OF Cons.prems True]] show ?thesis by simp
    next
      case ex: False
      obtain d f1 where t: "try_accept (meta (cl_track cl c)) f = (d, f1)" by fastforce
      show ?thesis
      proof (cases "d = Accept")
        case True
        with room ex t lift [OF walk_ok_admitted [OF Cons.prems ex]] show ?thesis by simp
      next
        case False
        with room ex t lift [OF walk_ok_dropped [OF Cons.prems ex t False]] show ?thesis
          by (cases d) simp_all
      qed
    qed
  qed
qed

lemma walk_ok_start:
  "footprint meta f q \<Longrightarrow> walk_ok cl meta n q f f [] [] no_stats"
  by (simp add: walk_ok_def no_stats_def total_dropped_def)

text \<open>The same facts without the invariant's bookkeeping, for a walk from the start.\<close>

definition slate_ok ::
  "'c candidate_like \<Rightarrow> metadata_map \<Rightarrow> queue_filter_config \<Rightarrow> nat \<Rightarrow> track_id list \<Rightarrow> track_id set
    \<Rightarrow> 'c list \<Rightarrow> 'c list \<Rightarrow> bool" where
  "slate_ok cl meta cfg n q ex cs out \<longleftrightarrow>
     set out \<subseteq> set cs \<and> length out \<le> n \<and> cl_track cl ` set out \<inter> ex = {}
     \<and> (0 < qc_max_per_artist cfg \<longrightarrow>
          (\<forall>k. artist_count meta k (q @ map (cl_track cl) out)
                 \<le> max (qc_max_per_artist cfg) (artist_count meta k q)))
     \<and> (qc_dedup cfg \<longrightarrow>
          distinct (map dedup_key (known meta (map (cl_track cl) out)))
          \<and> title_keys meta (map (cl_track cl) out) \<inter> title_keys meta q = {})"

text \<open>Why a candidate may be missing from a slate that is not full.\<close>

definition rightly_dropped ::
  "metadata_map \<Rightarrow> queue_filter_config \<Rightarrow> track_id list \<Rightarrow> track_id set \<Rightarrow> track_id list \<Rightarrow> track_id \<Rightarrow> bool" where
  "rightly_dropped meta cfg q ex slate i \<longleftrightarrow> i \<in> ex
     \<or> (case meta i of None \<Rightarrow> False
        | Some m \<Rightarrow>
            (0 < qc_max_per_artist cfg
               \<and> qc_max_per_artist cfg \<le> artist_count meta (artist_key m) (q @ slate))
            \<or> (qc_dedup cfg \<and> dedup_key m \<in> title_keys meta (q @ slate)))"

lemma walk_from_start:
  assumes f: "footprint meta f q" and w: "walk cl meta n cs f [] no_stats = (out, s)"
  shows "slate_ok cl meta (qf_cfg f) n q (qf_excluded f) cs out"
    and "subseq out cs"
    and "length out < n \<Longrightarrow> c \<in> set cs \<Longrightarrow>
      c \<in> set out \<or> rightly_dropped meta (qf_cfg f) q (qf_excluded f) (map (cl_track cl) out) (cl_track cl c)"
    and "fs_admitted s = map (cl_sim cl) out" and "total_dropped s = length (fs_dropped s)"
    and "length out < n \<Longrightarrow>
      length out + total_dropped s + length (filter (\<lambda>c. cl_track cl c \<in> qf_excluded f) cs) = length cs"
    and "length out + total_dropped s + length (filter (\<lambda>c. cl_track cl c \<in> qf_excluded f) cs) \<le> length cs"
proof -
  from walk_ok_walk [OF walk_ok_start [OF f, of cl n], of cs] w obtain f' rest where
    r: "cs = rest @ drop (length rest) cs" "drop (length rest) cs = [] \<or> length out = n"
    and ok: "walk_ok cl meta n q f f' rest out s" by auto
  define ys where "ys = drop (length rest) cs"
  from r have cs: "cs = rest @ ys" and full: "length out < n \<Longrightarrow> rest = cs" by (auto simp: ys_def)
  have sr: "subseq out rest" using ok by (simp add: walk_ok_def)
  show "subseq out cs"
    using list_emb_append_mono [OF sr, of "[]" ys] by (simp add: cs)
  have "set out \<subseteq> set cs" using sr by (auto elim: list_emb_set simp: cs)
  with ok show "slate_ok cl meta (qf_cfg f) n q (qf_excluded f) cs out"
    unfolding walk_ok_def slate_ok_def by blast
  show "length out < n \<Longrightarrow> c \<in> set cs \<Longrightarrow>
      c \<in> set out \<or> rightly_dropped meta (qf_cfg f) q (qf_excluded f) (map (cl_track cl) out) (cl_track cl c)"
  proof -
    assume "length out < n" "c \<in> set cs"
    with full have "c \<in> set rest" by simp
    with ok have "cl_track cl c \<in> qf_excluded f \<or> c \<in> set out
          \<or> (\<exists>m. meta (cl_track cl c) = Some m \<and>
               ((0 < qc_max_per_artist (qf_cfg f)
                  \<and> qc_max_per_artist (qf_cfg f) \<le> artist_count meta (artist_key m) (q @ map (cl_track cl) out))
                \<or> (qc_dedup (qf_cfg f) \<and> dedup_key m \<in> title_keys meta (q @ map (cl_track cl) out))))"
      unfolding walk_ok_def by blast
    then show ?thesis by (auto simp: rightly_dropped_def)
  qed
  show "fs_admitted s = map (cl_sim cl) out" "total_dropped s = length (fs_dropped s)"
    using ok unfolding walk_ok_def by blast+
  have len: "length out + total_dropped s + length (filter (\<lambda>c. cl_track cl c \<in> qf_excluded f) rest) = length rest"
    using ok unfolding walk_ok_def by blast
  then show "length out < n \<Longrightarrow>
      length out + total_dropped s + length (filter (\<lambda>c. cl_track cl c \<in> qf_excluded f) cs) = length cs"
    using full by blast
  show "length out + total_dropped s + length (filter (\<lambda>c. cl_track cl c \<in> qf_excluded f) cs) \<le> length cs"
    using len length_filter_le [of "\<lambda>c. cl_track cl c \<in> qf_excluded f" ys]
    by (simp add: cs del: length_filter_le)
qed

text \<open>The classification of a shortfall: the pool was too small exactly when nothing was dropped.\<close>

lemma shortfall_meaning:
  assumes "footprint meta f q" "walk cl meta n cs f [] no_stats = (out, s)"
  shows "classify_shortfall (length out) n s = No_shortfall \<longleftrightarrow> n \<le> length out"
    and "classify_shortfall (length out) n s = PoolExhausted \<longleftrightarrow>
      length out < n \<and> out = filter (\<lambda>c. cl_track cl c \<notin> qf_excluded f) cs"
proof -
  show "classify_shortfall (length out) n s = No_shortfall \<longleftrightarrow> n \<le> length out"
    by (simp add: classify_shortfall_def)
  show "classify_shortfall (length out) n s = PoolExhausted \<longleftrightarrow>
      length out < n \<and> out = filter (\<lambda>c. cl_track cl c \<notin> qf_excluded f) cs"
  proof (cases "length out < n")
    case True
    note len = walk_from_start(6) [OF assms True]
    have kept: "length (filter (\<lambda>c. cl_track cl c \<notin> qf_excluded f) cs)
        + length (filter (\<lambda>c. cl_track cl c \<in> qf_excluded f) cs) = length cs"
      using sum_length_filter_compl [of "\<lambda>c. cl_track cl c \<in> qf_excluded f" cs] by simp
    have "filter (\<lambda>c. cl_track cl c \<notin> qf_excluded f) out = out"
      using walk_from_start(1) [OF assms] by (auto simp: slate_ok_def filter_id_conv)
    then have "subseq out (filter (\<lambda>c. cl_track cl c \<notin> qf_excluded f) cs)"
      using subseq_filter [OF walk_from_start(2) [OF assms]] by metis
    then have "out = filter (\<lambda>c. cl_track cl c \<notin> qf_excluded f) cs \<longleftrightarrow>
        length out = length (filter (\<lambda>c. cl_track cl c \<notin> qf_excluded f) cs)"
      using subseq_same_length by auto
    with len kept True show ?thesis by (auto simp: classify_shortfall_def)
  qed (simp add: classify_shortfall_def)
qed

text \<open>Two keys of the filter that name different things: an artist without a name shares the bucket
  \<open>name:\<close> with every other one, and a bar in a name or title makes two songs one.\<close>

lemma dedup_key_ambiguous:
  "dedup_key (m\<lparr>tm_artist_id := None, tm_artist := ''a|b'', tm_title_normalized := ''c''\<rparr>)
   = dedup_key (m\<lparr>tm_artist_id := None, tm_artist := ''a'', tm_title_normalized := ''b|c''\<rparr>)"
  by (simp add: dedup_key_def artist_key_def lower_def trim_def ascii_lower_def is_ws_def byte_def)

lemma nameless_artists_share_key:
  "tm_artist_id m = None \<Longrightarrow> tm_artist m = [] \<Longrightarrow> artist_key m = ''name:''"
  by (simp add: artist_key_def lower_def trim_def)

end
