(* ===== verification/Ranking.thy ===== *)
theory Ranking
  imports Queue_Filter Ann_Index
begin

text \<open>
  The rankings of the recommender: \<open>music-recommend/src/aggregate.rs\<close> (folding the neighbours of
  several seeds), \<open>mmr.rs\<close> (maximal marginal relevance with the soft artist penalty), \<open>leash.rs\<close> (the
  penalty for straying from the anchors), \<open>explore.rs\<close> (Gumbel jitter) and the rules of \<open>preference.rs\<close>.
  Arithmetic is the \<open>f32\<close> and \<open>f64\<close> arithmetic of \<open>Binary_Float\<close>; \<open>exp\<close>, \<open>tanh\<close> and \<open>ln\<close>, which the standard
  library takes from the platform, are the record \<open>libm\<close>; random draws are arguments.

  A \<open>HashMap\<close> that is only filled and then listed is an association list in the order of first
  insertion; the code sorts the entries by a comparator that breaks ties by the track id.
\<close>

section \<open>Aggregation (aggregate.rs)\<close>

record aggregated =
  ag_track :: track_id
  ag_score :: fp
  ag_hits :: nat

definition agg_cmp :: "aggregated \<Rightarrow> aggregated \<Rightarrow> ordering" where
  "agg_cmp a b =
     then_with (fp_cmp_or_eq (ag_score b) (ag_score a))
       (then_with (ord_cmp (ag_hits b) (ag_hits a)) (ord_cmp (track_str (ag_track a)) (track_str (ag_track b))))"

fun bump :: "track_id \<Rightarrow> fp \<Rightarrow> aggregated list \<Rightarrow> aggregated list" where
  "bump t x [] = [\<lparr>ag_track = t, ag_score = add32 fp0 x, ag_hits = 1\<rparr>]"
| "bump t x (a # as) =
     (if ag_track a = t then a\<lparr>ag_score := add32 (ag_score a) x, ag_hits := Suc (ag_hits a)\<rparr> # as
      else a # bump t x as)"

definition add_hit :: "fp \<Rightarrow> track_id set \<Rightarrow> ann_hit \<Rightarrow> aggregated list \<Rightarrow> aggregated list" where
  "add_hit w exclude h as =
     (if ah_track h \<in> exclude then as else bump (ah_track h) (mul32 (ah_similarity h) w) as)"

definition seed_weight :: "fp list \<Rightarrow> nat \<Rightarrow> fp" where
  "seed_weight ws i = fp_max (case nth_opt ws i of Some w \<Rightarrow> w | None \<Rightarrow> fp1) fp0"

fun add_seeds :: "fp list \<Rightarrow> track_id set \<Rightarrow> nat \<Rightarrow> ann_hit list list \<Rightarrow> aggregated list \<Rightarrow> aggregated list" where
  "add_seeds ws exclude i [] as = as"
| "add_seeds ws exclude i (hs # rest) as =
     (let w = seed_weight ws i
      in add_seeds ws exclude (Suc i) rest (if fp_eq w fp0 then as else fold (add_hit w exclude) hs as))"

definition aggregate_weighted ::
  "ann_hit list list \<Rightarrow> fp list \<Rightarrow> track_id set \<Rightarrow> nat \<Rightarrow> aggregated list" where
  "aggregate_weighted per_seed ws exclude top_n =
     (if top_n = 0 then [] else take top_n (sort_by agg_cmp (add_seeds ws exclude 0 per_seed [])))"

definition aggregate_seed_results :: "ann_hit list list \<Rightarrow> track_id set \<Rightarrow> nat \<Rightarrow> aggregated list" where
  "aggregate_seed_results per_seed exclude top_n = aggregate_weighted per_seed [] exclude top_n"

text \<open>\<open>draw i\<close> is what \<open>gen_range(0..len - i)\<close> gives.\<close>

definition swap_at :: "nat \<Rightarrow> nat \<Rightarrow> 'a list \<Rightarrow> 'a list" where
  "swap_at i j xs = xs[i := xs ! j, j := xs ! i]"

fun sample_loop :: "(nat \<Rightarrow> nat) \<Rightarrow> nat \<Rightarrow> nat \<Rightarrow> nat list \<Rightarrow> nat list \<Rightarrow> nat list" where
  "sample_loop draw i 0 pool out = out"
| "sample_loop draw i (Suc k) pool out =
     (let pool' = swap_at i (i + draw i) pool in sample_loop draw (Suc i) k pool' (out @ [pool' ! i]))"

definition sample_indices :: "(nat \<Rightarrow> nat) \<Rightarrow> nat \<Rightarrow> nat \<Rightarrow> nat list" where
  "sample_indices draw len k =
     (if len = 0 \<or> k = 0 then []
      else if len \<le> k then [0..<len]
      else sample_loop draw 0 k [0..<len] [])"

section \<open>Maximal marginal relevance (mmr.rs)\<close>

record mmr_candidate =
  mc_track :: track_id
  mc_sim :: fp
  mc_vector :: "fvec option"
  mc_artist :: "string option"
  mc_bonus :: fp

definition dot32 :: "fvec \<Rightarrow> fvec \<Rightarrow> fp" where
  "dot32 a b = fold (\<lambda>(x, y) s. add32 s (mul32 x y)) (zip a b) fp0"

definition cosine_similarity :: "fvec \<Rightarrow> fvec \<Rightarrow> fp" where
  "cosine_similarity a b =
     (if length a \<noteq> length b \<or> a = [] then fp0
      else let denom = fp_sqrt binary32 (mul32 (dot32 a a) (dot32 b b))
           in if fp_eq denom fp0 then fp0 else div32 (dot32 a b) denom)"

fun argmax_from :: "('a \<Rightarrow> fp) \<Rightarrow> nat \<Rightarrow> fp \<Rightarrow> nat \<Rightarrow> 'a list \<Rightarrow> nat" where
  "argmax_from score best_pos best i [] = best_pos"
| "argmax_from score best_pos best i (x # xs) =
     (if fp_less best (score x) then argmax_from score i (score x) (Suc i) xs
      else argmax_from score best_pos best (Suc i) xs)"

definition argmax_by :: "'a list \<Rightarrow> ('a \<Rightarrow> fp) \<Rightarrow> nat" where
  "argmax_by xs score = argmax_from score 0 (score (hd xs)) 1 (tl xs)"

definition relevance :: "mmr_candidate list \<Rightarrow> nat \<Rightarrow> fp" where
  "relevance cs i = add32 (mc_sim (cs ! i)) (mc_bonus (cs ! i))"

definition artist_penalty :: "mmr_candidate list \<Rightarrow> fp \<Rightarrow> (string \<Rightarrow> nat) \<Rightarrow> nat \<Rightarrow> fp" where
  "artist_penalty cs mu cnt i =
     (if fp_eq mu fp0 then fp0
      else case mc_artist (cs ! i) of None \<Rightarrow> fp0 | Some a \<Rightarrow> mul32 mu (lit32 (of_nat (cnt a))))"

text \<open>The first slot has no novelty term.\<close>

definition mmr_score ::
  "mmr_candidate list \<Rightarrow> fp \<Rightarrow> fp \<Rightarrow> bool \<Rightarrow> fp list \<Rightarrow> (string \<Rightarrow> nat) \<Rightarrow> nat \<Rightarrow> fp" where
  "mmr_score cs lam mu first_slot novelty cnt i =
     (if first_slot then sub32 (relevance cs i) (artist_penalty cs mu cnt i)
      else sub32 (sub32 (mul32 lam (relevance cs i)) (mul32 (sub32 fp1 lam) (novelty ! i)))
             (artist_penalty cs mu cnt i))"

definition update_novelty :: "mmr_candidate list \<Rightarrow> nat \<Rightarrow> nat list \<Rightarrow> fp list \<Rightarrow> fp list" where
  "update_novelty cs picked remaining novelty =
     (case mc_vector (cs ! picked) of
        None \<Rightarrow> novelty
      | Some v \<Rightarrow>
          fold (\<lambda>r nv. case mc_vector (cs ! r) of
                  None \<Rightarrow> nv
                | Some u \<Rightarrow> (let s = cosine_similarity v u
                            in if fp_less (nv ! r) s then nv[r := s] else nv))
            remaining novelty)"

definition bump_artist :: "string option \<Rightarrow> (string \<Rightarrow> nat) \<Rightarrow> string \<Rightarrow> nat" where
  "bump_artist a cnt = (case a of None \<Rightarrow> cnt | Some k \<Rightarrow> cnt(k := Suc (cnt k)))"

definition next_pick ::
  "mmr_candidate list \<Rightarrow> fp \<Rightarrow> fp \<Rightarrow> bool \<Rightarrow> fp list \<Rightarrow> (string \<Rightarrow> nat) \<Rightarrow> nat list \<Rightarrow> nat" where
  "next_pick cs lam mu first_slot novelty cnt remaining =
     argmax_by remaining (mmr_score cs lam mu first_slot novelty cnt)"

fun mmr_loop ::
  "mmr_candidate list \<Rightarrow> fp \<Rightarrow> fp \<Rightarrow> nat \<Rightarrow> nat list \<Rightarrow> nat list \<Rightarrow> fp list \<Rightarrow> (string \<Rightarrow> nat) \<Rightarrow> nat list" where
  "mmr_loop cs lam mu 0 selected remaining novelty cnt = selected"
| "mmr_loop cs lam mu (Suc want) selected remaining novelty cnt =
     (if remaining = [] then selected
      else let pos = next_pick cs lam mu (selected = []) novelty cnt remaining;
               picked = remaining ! pos;
               rest = remove_at pos remaining
           in mmr_loop cs lam mu want (selected @ [picked]) rest (update_novelty cs picked rest novelty)
                (bump_artist (mc_artist (cs ! picked)) cnt))"

text \<open>\<open>while selected.len() < want\<close> counts up to \<open>want\<close>; the model counts what is still wanted.\<close>

definition mmr_rerank :: "mmr_candidate list \<Rightarrow> fp \<Rightarrow> nat \<Rightarrow> fp \<Rightarrow> (string \<Rightarrow> nat) \<Rightarrow> nat list" where
  "mmr_rerank cs lam top_n penalty cnt =
     (if top_n = 0 \<or> cs = [] then []
      else mmr_loop cs (fp_clamp lam fp0 fp1) (fp_max penalty fp0) (min top_n (length cs)) []
             [0..<length cs] (replicate (length cs) fp0) cnt)"

section \<open>The leash (leash.rs)\<close>

record leash_params =
  lp_tau :: fp
  lp_lambda :: fp

definition leash_active :: "leash_params \<Rightarrow> bool" where
  "leash_active p \<longleftrightarrow> fp_less fp0 (lp_lambda p) \<and> fp_less (fp_neg fp1) (lp_tau p)"

definition leash_penalty :: "leash_params \<Rightarrow> fp \<Rightarrow> fp" where
  "leash_penalty p nearest =
     (if fp_le (lp_lambda p) fp0 then fp0
      else let gap = fp_max (sub32 (lp_tau p) nearest) fp0
           in mul32 (mul32 (lp_lambda p) gap) gap)"

definition nearest_anchor_sim :: "fvec \<Rightarrow> fvec list \<Rightarrow> fp option" where
  "nearest_anchor_sim c anchors =
     fold (\<lambda>a best.
         if length a \<noteq> length c \<or> a = [] then best
         else let s = cosine_similarity c a
              in Some (case best of None \<Rightarrow> s | Some b \<Rightarrow> fp_max b s))
       anchors None"

record leash_adjustment =
  la_track :: track_id
  la_nearest :: "fp option"
  la_penalty :: fp

record leash_stats =
  ls_demoted :: nat
  ls_measured :: nat
  ls_min :: fp
  ls_max :: fp

definition leash_one :: "fvec list \<Rightarrow> leash_params \<Rightarrow> track_id \<times> fvec option \<Rightarrow> leash_adjustment" where
  "leash_one anchors p c =
     (let nearest = (case snd c of None \<Rightarrow> None | Some v \<Rightarrow> nearest_anchor_sim v anchors)
      in \<lparr>la_track = fst c, la_nearest = nearest,
          la_penalty = (case nearest of None \<Rightarrow> fp0 | Some s \<Rightarrow> leash_penalty p s)\<rparr>)"

definition leash_apply ::
  "(track_id \<times> fvec option) list \<Rightarrow> fvec list \<Rightarrow> leash_params \<Rightarrow> leash_adjustment list \<times> leash_stats" where
  "leash_apply cs anchors p =
     (let adj = map (leash_one anchors p) cs;
          sims = List.map_filter la_nearest adj
      in (adj,
          \<lparr>ls_demoted = length (filter (\<lambda>a. la_nearest a \<noteq> None \<and> fp_less fp0 (la_penalty a)) adj),
           ls_measured = length sims,
           ls_min = (if sims = [] then fp0 else foldl fp_min (Inf True) sims),
           ls_max = (if sims = [] then fp0 else foldl fp_max (Inf False) sims)\<rparr>))"

section \<open>Exploration (explore.rs) and preference (preference.rs)\<close>

text \<open>The functions of the platform's mathematical library the crate calls.\<close>

record libm =
  lm_exp64 :: "fp \<Rightarrow> fp"
  lm_tanh32 :: "fp \<Rightarrow> fp"
  lm_ln32 :: "fp \<Rightarrow> fp"
  lm_ln2 :: fp

text \<open>\<open>u\<close> is what \<open>gen_range(f32::EPSILON..1.0)\<close> gives, and \<open>us\<close> the sequence of these draws.\<close>

definition gumbel :: "libm \<Rightarrow> fp \<Rightarrow> fp" where
  "gumbel lm u = fp_neg (lm_ln32 lm (fp_neg (lm_ln32 lm u)))"

definition perturb_scores :: "libm \<Rightarrow> (nat \<Rightarrow> fp) \<Rightarrow> fp \<Rightarrow> fp list \<Rightarrow> fp list" where
  "perturb_scores lm us temperature scores =
     (if fp_le temperature fp0 then scores
      else map (\<lambda>(i, s). add32 s (mul32 temperature (gumbel lm (us i)))) (enumerate 0 scores))"

datatype affinity_event = Aff_Like | Aff_Dislike | Aff_Play fp | Aff_Skip fp

definition event_weight :: "affinity_event \<Rightarrow> fp" where
  "event_weight e =
     (case e of
        Aff_Like \<Rightarrow> fp1
      | Aff_Dislike \<Rightarrow> fp_neg fp1
      | Aff_Play c \<Rightarrow> mul32 (lit32 (1 / 4)) (fp_clamp c fp0 fp1)
      | Aff_Skip c \<Rightarrow> mul32 (lit32 (- 1 / 2)) (sub32 fp1 (fp_clamp c fp0 fp1)))"

definition decay :: "libm \<Rightarrow> fp \<Rightarrow> int \<Rightarrow> int \<Rightarrow> fp" where
  "decay lm score dt half_life =
     (if dt \<le> 0 \<or> half_life \<le> 0 then score
      else let lambda = fp_div binary64 (lm_ln2 lm) (round_to binary64 (of_int half_life));
               factor = lm_exp64 lm (fp_mul binary64 (fp_neg lambda) (round_to binary64 (of_int dt)))
           in fp_cast binary32 (fp_mul binary64 score factor))"

definition fold_event :: "libm \<Rightarrow> fp \<Rightarrow> int \<Rightarrow> int \<Rightarrow> fp \<Rightarrow> int \<Rightarrow> fp \<times> int" where
  "fold_event lm prev prev_ms event_ms weight half_life =
     (let anchor = max prev_ms event_ms
      in (add32 (decay lm prev (i64_wrap (anchor - prev_ms)) half_life)
          (decay lm weight (i64_wrap (anchor - event_ms)) half_life),
          anchor))"

definition affinity_at :: "libm \<Rightarrow> fp \<Rightarrow> int \<Rightarrow> int \<Rightarrow> int \<Rightarrow> fp" where
  "affinity_at lm score updated now half_life =
     lm_tanh32 lm (div32 (decay lm score (i64_wrap (now - updated)) half_life) (lit32 2))"

definition preference_bonus :: "fp \<Rightarrow> fp \<Rightarrow> fp" where
  "preference_bonus affinity weight = mul32 (fp_max weight fp0) (fp_clamp affinity (fp_neg fp1) fp1)"

section \<open>What aggregation lists\<close>

lemma bump_tracks: "ag_track ` set (bump t x as) = insert t (ag_track ` set as)"
  by (induction as) auto

lemma bump_distinct: "distinct (map ag_track as) \<Longrightarrow> distinct (map ag_track (bump t x as))"
proof (induction as)
  case (Cons a as)
  have "ag_track ` set (bump t x as) = insert t (ag_track ` set as)" by (rule bump_tracks)
  with Cons show ?case by auto
qed simp

lemma add_hits_tracks:
  "ag_track ` set (fold (add_hit w ex) hs as) = ag_track ` set as \<union> {t \<in> ah_track ` set hs. t \<notin> ex}"
  by (induction hs arbitrary: as) (auto simp: add_hit_def bump_tracks)

lemma add_hits_distinct:
  "distinct (map ag_track as) \<Longrightarrow> distinct (map ag_track (fold (add_hit w ex) hs as))"
  by (induction hs arbitrary: as) (auto simp: add_hit_def bump_distinct)

lemma add_seeds_tracks:
  "ag_track ` set (add_seeds ws ex i per as) \<subseteq>
     ag_track ` set as \<union> {t. t \<notin> ex \<and> (\<exists>hs \<in> set per. t \<in> ah_track ` set hs)}"
proof (induction ws ex i per as rule: add_seeds.induct)
  case (2 ws ex i hs rest as)
  let ?as = "if fp_eq (seed_weight ws i) fp0 then as else fold (add_hit (seed_weight ws i) ex) hs as"
  have as: "ag_track ` set ?as \<subseteq> ag_track ` set as \<union> {t \<in> ah_track ` set hs. t \<notin> ex}"
    using add_hits_tracks [of "seed_weight ws i" ex hs as] by (simp split: if_split)
  have eq: "add_seeds ws ex i (hs # rest) as = add_seeds ws ex (Suc i) rest ?as"
    by (simp add: Let_def)
  have ih: "ag_track ` set (add_seeds ws ex i (hs # rest) as)
      \<subseteq> ag_track ` set ?as \<union> {t. t \<notin> ex \<and> (\<exists>hs \<in> set rest. t \<in> ah_track ` set hs)}"
    unfolding eq by (rule "2.IH" [OF refl])
  show ?case
  proof
    fix x assume "x \<in> ag_track ` set (add_seeds ws ex i (hs # rest) as)"
    from subsetD [OF ih this] subsetD [OF as, of x]
    show "x \<in> ag_track ` set as \<union> {t. t \<notin> ex \<and> (\<exists>hs \<in> set (hs # rest). t \<in> ah_track ` set hs)}"
      by (simp del: set_map image_iff split del: if_split) metis
  qed
qed simp

lemma add_seeds_distinct:
  "distinct (map ag_track as) \<Longrightarrow> distinct (map ag_track (add_seeds ws ex i per as))"
  by (induction ws ex i per as rule: add_seeds.induct) (simp_all add: Let_def add_hits_distinct)

lemma aggregate_sound:
  "t \<in> ag_track ` set (aggregate_weighted per ws ex n) \<Longrightarrow>
     t \<notin> ex \<and> (\<exists>hs \<in> set per. t \<in> ah_track ` set hs)"
  "distinct (map ag_track (aggregate_weighted per ws ex n))"
  "length (aggregate_weighted per ws ex n) \<le> n"
proof -
  have sub: "ag_track ` set (aggregate_weighted per ws ex n) \<subseteq> ag_track ` set (add_seeds ws ex 0 per [])"
    by (auto simp: aggregate_weighted_def dest: in_set_takeD)
  show "t \<in> ag_track ` set (aggregate_weighted per ws ex n) \<Longrightarrow>
     t \<notin> ex \<and> (\<exists>hs \<in> set per. t \<in> ah_track ` set hs)"
    using subsetD [OF subset_trans [OF sub add_seeds_tracks], of t] by simp
  have "distinct (map ag_track (sort_by agg_cmp (add_seeds ws ex 0 per [])))"
    by (simp add: distinct_map_sort_by add_seeds_distinct)
  then show "distinct (map ag_track (aggregate_weighted per ws ex n))"
    by (simp add: aggregate_weighted_def take_map [symmetric])
  show "length (aggregate_weighted per ws ex n) \<le> n"
    by (simp add: aggregate_weighted_def)
qed

section \<open>Sampling\<close>

lemma mset_swap_at: "i < length xs \<Longrightarrow> j < length xs \<Longrightarrow> mset (swap_at i j xs) = mset xs"
  by (simp add: swap_at_def mset_swap)

lemma length_swap_at [simp]: "length (swap_at i j xs) = length xs"
  by (simp add: swap_at_def)

lemma take_swap_at: "i \<le> j \<Longrightarrow> take i (swap_at i j xs) = take i xs"
  by (simp add: swap_at_def take_update_cancel)

lemma sample_loop_prefix:
  assumes "\<And>i. i < length pool \<Longrightarrow> i + draw i < length pool" "i + k \<le> length pool" "out = take i pool"
  shows "\<exists>pool'. mset pool' = mset pool \<and> sample_loop draw i k pool out = take (i + k) pool'"
  using assms
proof (induction draw i k pool out rule: sample_loop.induct)
  case (2 draw i k pool out)
  let ?p = "swap_at i (i + draw i) pool"
  from 2 have i: "i < length pool" "i + draw i < length pool" by auto
  then have m: "mset ?p = mset pool" by (simp add: mset_swap_at)
  have "out @ [?p ! i] = take (Suc i) ?p"
    using i "2.prems"(3) by (simp add: take_Suc_conv_app_nth take_swap_at)
  with "2.IH" [OF refl] "2.prems" obtain pool' where "mset pool' = mset ?p"
    "sample_loop draw (Suc i) k ?p (out @ [?p ! i]) = take (Suc i + k) pool'" by auto
  with m show ?case by (auto simp: Let_def)
qed auto

lemma sample_indices_sound:
  assumes "\<And>i. i < len \<Longrightarrow> i + draw i < len"
  shows "distinct (sample_indices draw len k)" "set (sample_indices draw len k) \<subseteq> {..<len}"
    "length (sample_indices draw len k) = min k len"
proof -
  have "\<exists>pool'. mset pool' = mset [0..<len] \<and> sample_indices draw len k = take k pool'"
  proof (cases "len = 0 \<or> k = 0 \<or> len \<le> k")
    case True
    then show ?thesis by (intro exI [of _ "[0..<len]"]) (auto simp: sample_indices_def)
  next
    case False
    have "\<exists>pool'. mset pool' = mset [0..<len] \<and> sample_loop draw 0 k [0..<len] [] = take (0 + k) pool'"
      by (rule sample_loop_prefix) (use assms False in simp_all)
    with False show ?thesis by (simp add: sample_indices_def)
  qed
  then obtain pool' where p: "mset pool' = mset [0..<len]" "sample_indices draw len k = take k pool'" by blast
  have d: "distinct pool'" using mset_eq_imp_distinct_iff [OF p(1)] by simp
  have s: "set pool' = {0..<len}" using mset_eq_setD [OF p(1)] by simp
  have l: "length pool' = len" using mset_eq_length [OF p(1)] by simp
  show "distinct (sample_indices draw len k)" using p(2) d by simp
  show "set (sample_indices draw len k) \<subseteq> {..<len}" using p(2) s set_take_subset [of k pool'] by auto
  show "length (sample_indices draw len k) = min k len" using p(2) l by (simp add: min.commute)
qed

section \<open>What the re-ranker selects\<close>

lemma argmax_from_bound:
  "best_pos < i \<Longrightarrow> argmax_from score best_pos best i xs < i + length xs"
proof (induction xs arbitrary: best_pos best i)
  case (Cons x xs)
  from Cons.IH [of i "Suc i" "score x"] Cons.IH [of best_pos "Suc i" best] Cons.prems show ?case by simp
qed simp

lemma argmax_by_bound: "xs \<noteq> [] \<Longrightarrow> argmax_by xs score < length xs"
  using argmax_from_bound [of 0 1 score "score (hd xs)" "tl xs"] by (cases xs) (simp_all add: argmax_by_def)

lemma argmax_from_best:
  assumes "best_pos < length ys" "score (ys ! best_pos) = best" "\<forall>y \<in> set ys. \<not> fp_less best (score y)"
  shows "\<forall>x \<in> set (ys @ xs). \<not> fp_less (score ((ys @ xs) ! argmax_from score best_pos best (length ys) xs)) (score x)"
  using assms
proof (induction xs arbitrary: ys best_pos best)
  case (Cons x xs)
  show ?case
  proof (cases "fp_less best (score x)")
    case True
    have "\<not> fp_less (score x) (score y)" if "y \<in> set ys" for y
      using Cons.prems(3) that True fp_less_trans by blast
    then have "\<forall>y \<in> set (ys @ [x]). \<not> fp_less (score x) (score y)"
      by (auto simp: fp_less_def fp_cmp_self)
    with Cons.IH [of "length ys" "ys @ [x]" "score x"] True show ?thesis by (simp add: nth_append)
  next
    case False
    with Cons.IH [of best_pos "ys @ [x]" best] Cons.prems show ?thesis by (simp add: nth_append)
  qed
qed (auto simp: nth_append)

text \<open>The pick is a candidate no other one beats.\<close>

lemma argmax_by_best:
  assumes "x \<in> set xs"
  shows "\<not> fp_less (score (xs ! argmax_by xs score)) (score x)"
proof -
  from assms obtain y ys where xs: "xs = y # ys" by (cases xs) auto
  have "\<not> fp_less (score y) (score y)" by (simp add: fp_less_def fp_cmp_self)
  then have "\<forall>z \<in> set ([y] @ ys). \<not> fp_less (score (([y] @ ys) ! argmax_from score 0 (score y) (length [y]) ys)) (score z)"
    by (intro argmax_from_best) simp_all
  moreover have "[y] @ ys = xs" "length [y] = 1" by (simp_all add: xs)
  ultimately show ?thesis using assms by (simp add: argmax_by_def xs) blast
qed

lemma nth_not_in_remove_at:
  assumes "distinct xs" "i < length xs"
  shows "xs ! i \<notin> set (remove_at i xs)"
proof -
  have "distinct (take i xs @ xs ! i # drop (Suc i) xs)"
    using id_take_nth_drop [OF assms(2)] assms(1) by simp
  then show ?thesis by (simp add: remove_at_def)
qed

lemma mmr_loop_picks:
  "distinct rem \<Longrightarrow> \<exists>picks. mmr_loop cs lam mu want sel rem nov cnt = sel @ picks
     \<and> length picks = min want (length rem) \<and> distinct picks \<and> set picks \<subseteq> set rem"
proof (induction cs lam mu want sel rem nov cnt rule: mmr_loop.induct)
  case (2 cs lam mu want sel rem nov cnt)
  show ?case
  proof (cases "rem = []")
    case False
    define pos where "pos = next_pick cs lam mu (sel = []) nov cnt rem"
    have pos: "pos < length rem" using False by (simp add: pos_def next_pick_def argmax_by_bound)
    have "distinct (remove_at pos rem)" using "2.prems" by (rule distinct_remove_at)
    from "2.IH" [OF False refl refl refl, folded pos_def, OF this] obtain picks where
      ih: "mmr_loop cs lam mu (Suc want) sel rem nov cnt = (sel @ [rem ! pos]) @ picks"
      "length picks = min want (length (remove_at pos rem))" "distinct picks"
      "set picks \<subseteq> set (remove_at pos rem)"
      using False by (auto simp: Let_def pos_def)
    have len: "length (remove_at pos rem) = length rem - 1" using pos by simp
    have new: "rem ! pos \<notin> set picks"
      using nth_not_in_remove_at [OF "2.prems" pos] ih(4) by blast
    have sub: "set (rem ! pos # picks) \<subseteq> set rem"
      using ih(4) set_remove_at_subset [of pos rem] pos by auto
    show ?thesis
      by (rule exI [of _ "rem ! pos # picks"]) (use ih(1-3) len new sub pos in auto)
  qed simp
qed simp

lemma mmr_rerank_sound:
  "distinct (mmr_rerank cs lam n mu cnt)" "set (mmr_rerank cs lam n mu cnt) \<subseteq> {..<length cs}"
  "length (mmr_rerank cs lam n mu cnt) = min n (length cs)"
proof -
  have "length (mmr_rerank cs lam n mu cnt) = min n (length cs)
      \<and> distinct (mmr_rerank cs lam n mu cnt) \<and> set (mmr_rerank cs lam n mu cnt) \<subseteq> {..<length cs}"
  proof (cases "n = 0 \<or> cs = []")
    case False
    have "distinct [0..<length cs]" by simp
    from mmr_loop_picks [OF this, of cs "fp_clamp lam fp0 fp1" "fp_max mu fp0" "min n (length cs)" "[]"
        "replicate (length cs) fp0" cnt] False
    show ?thesis by (auto simp: mmr_rerank_def)
  qed (auto simp: mmr_rerank_def)
  then show "distinct (mmr_rerank cs lam n mu cnt)" "set (mmr_rerank cs lam n mu cnt) \<subseteq> {..<length cs}"
    "length (mmr_rerank cs lam n mu cnt) = min n (length cs)" by blast+
qed

end
