(* ===== verification/Taste_Signals.thy ===== *)
theory Taste_Signals
  imports Ranking Ratings
begin

text \<open>
  What the gateway learns from listening: the event log (\<open>music-recommend/src/events.rs\<close>), the listening
  sessions (\<open>music-gateway/src/listen_session.rs\<close>), thumb votes (\<open>feedback.rs\<close>), the recency clock
  (\<open>play_history.rs\<close>), the decayed affinity counter (\<open>track_affinity.rs\<close>) and the log of served
  recommendations (\<open>provenance.rs\<close>). The handlers that write them are in \<open>Taste_Handlers\<close>.

  A table is the list of its rows in the order of their ids. JSON values are the datatype \<open>json\<close>; how
  long a value is when printed is a parameter. Client time stamps are any \<open>i64\<close>, so differences of them
  wrap (\<open>i64_wrap\<close>). Whether a statement succeeds is an argument.
\<close>

section \<open>JSON (serde_json)\<close>

datatype json =
    JNull
  | JBool bool
  | JInt int
  | JFloat fp
  | JStr string
  | JArr "json list"
  | JObj "(string \<times> json) list"

definition json_get :: "string \<Rightarrow> json \<Rightarrow> json option" where
  "json_get k v = (case v of JObj m \<Rightarrow> map_of m k | _ \<Rightarrow> None)"

text \<open>\<open>f as i64\<close> truncates and saturates; \<open>as_i64().or_else(as_f64 as i64)\<close>. An integer above
  \<open>i64::MAX\<close> is read through its \<open>f64\<close>.\<close>

definition f64_as_i64 :: "fp \<Rightarrow> int" where
  "f64_as_i64 x =
     (case x of
        NaN \<Rightarrow> 0
      | Inf s \<Rightarrow> if s then i64_max else i64_min
      | Fin q \<Rightarrow> i64_sat (if q < 0 then - \<lfloor>- q\<rfloor> else \<lfloor>q\<rfloor>))"

definition json_i64 :: "json \<Rightarrow> int option" where
  "json_i64 v =
     (case v of
        JInt n \<Rightarrow> Some (if is_i64 n then n else f64_as_i64 (round_to binary64 (of_int n)))
      | JFloat f \<Rightarrow> Some (f64_as_i64 f)
      | _ \<Rightarrow> None)"

definition extract_ms :: "string \<Rightarrow> json option \<Rightarrow> int option" where
  "extract_ms field mo =
     (case mo of
        None \<Rightarrow> None
      | Some m \<Rightarrow>
          (case json_get field m of
             None \<Rightarrow> None
           | Some v \<Rightarrow> (case json_i64 v of None \<Rightarrow> None | Some ms \<Rightarrow> if 0 \<le> ms then Some ms else None)))"

definition extract_played_ms :: "json option \<Rightarrow> int option" where
  "extract_played_ms = extract_ms ''played_ms''"

definition extract_heard_ms :: "json option \<Rightarrow> int option" where
  "extract_heard_ms = extract_ms ''heard_ms''"

definition with_fields :: "json option \<Rightarrow> (string \<times> json) list \<Rightarrow> json option" where
  "with_fields mo fs =
     (case mo of
        None \<Rightarrow> Some (JObj (fold (\<lambda>(k, v). AList.update k v) fs []))
      | Some (JObj m) \<Rightarrow> Some (JObj (fold (\<lambda>(k, v). AList.update k v) fs m))
      | Some other \<Rightarrow> Some other)"

section \<open>The event log (events.rs)\<close>

datatype event_type =
  Ev_Scrobble | Ev_Skip | Ev_Complete | Ev_Like | Ev_Unlike | Ev_Seek | Ev_Other string

fun event_str :: "event_type \<Rightarrow> string" where
  "event_str Ev_Scrobble = ''scrobble''"
| "event_str Ev_Skip = ''skip''"
| "event_str Ev_Complete = ''complete''"
| "event_str Ev_Like = ''like''"
| "event_str Ev_Unlike = ''unlike''"
| "event_str Ev_Seek = ''seek''"
| "event_str (Ev_Other s) = s"

definition event_parse :: "string \<Rightarrow> event_type" where
  "event_parse s =
     (if s = ''scrobble'' then Ev_Scrobble else if s = ''skip'' then Ev_Skip
      else if s = ''complete'' then Ev_Complete else if s = ''like'' then Ev_Like
      else if s = ''unlike'' then Ev_Unlike else if s = ''seek'' then Ev_Seek else Ev_Other s)"

record event_input =
  ei_type :: event_type
  ei_track :: track_id
  ei_occurred_at :: int
  ei_metadata :: "json option"
  ei_session :: "session_id option"

record event_row =
  er_user :: int
  er_event :: event_input
  er_received_at :: int
  er_client_id :: "string option"

type_synonym event_table = "event_row list"

text \<open>One insert: a client id the user has used before does nothing.\<close>

definition insert_event ::
  "int \<Rightarrow> int \<Rightarrow> event_input \<Rightarrow> string option \<Rightarrow> event_table \<Rightarrow> bool \<times> event_table" where
  "insert_event user now ev cid t =
     (if cid \<noteq> None \<and> (\<exists>r \<in> set t. er_user r = user \<and> er_client_id r = cid) then (False, t)
      else (True, t @ [\<lparr>er_user = user, er_event = ev, er_received_at = now, er_client_id = cid\<rparr>]))"

fun append_keyed ::
  "int \<Rightarrow> int \<Rightarrow> (event_input \<times> string option) list \<Rightarrow> event_table \<Rightarrow> bool list \<times> event_table" where
  "append_keyed user now [] t = ([], t)"
| "append_keyed user now ((ev, cid) # evs) t =
     (let (b, t1) = insert_event user now ev cid t; (bs, t2) = append_keyed user now evs t1
      in (b # bs, t2))"

definition append_batch :: "int \<Rightarrow> int \<Rightarrow> event_input list \<Rightarrow> event_table \<Rightarrow> nat \<times> event_table" where
  "append_batch user now evs t =
     (let (bs, t') = append_keyed user now (map (\<lambda>e. (e, None)) evs) t in (length (filter id bs), t'))"

text \<open>\<open>json_extract(metadata, '$.listen_session')\<close>; the gateway always stamps a string there.\<close>

definition row_listen_session :: "event_row \<Rightarrow> string option" where
  "row_listen_session r =
     (case ei_metadata (er_event r) of
        None \<Rightarrow> None
      | Some m \<Rightarrow> (case json_get ''listen_session'' m of Some (JStr s) \<Rightarrow> Some s | _ \<Rightarrow> None))"

text \<open>\<open>ORDER BY occurred_at DESC, id DESC LIMIT 1\<close>.\<close>

definition newest_first :: "event_row list \<Rightarrow> event_row list" where
  "newest_first rows = sort_key (\<lambda>r. - ei_occurred_at (er_event r)) (rev rows)"

definition last_listen_session :: "int \<Rightarrow> event_table \<Rightarrow> (string \<times> int) option" where
  "last_listen_session user t =
     (case newest_first (filter (\<lambda>r. er_user r = user \<and> row_listen_session r \<noteq> None) t) of
        [] \<Rightarrow> None
      | r # _ \<Rightarrow> Some (the (row_listen_session r), ei_occurred_at (er_event r)))"

definition event_count :: "event_table \<Rightarrow> nat" where
  "event_count t = length t"

definition recently_played :: "nat \<Rightarrow> int option \<Rightarrow> event_table \<Rightarrow> event_row list" where
  "recently_played limit since t =
     take limit (newest_first (filter (\<lambda>r. event_str (ei_type (er_event r)) = ''scrobble''
        \<and> (case since of None \<Rightarrow> True | Some s \<Rightarrow> s \<le> ei_occurred_at (er_event r))) t))"

definition recent_events :: "nat \<Rightarrow> event_table \<Rightarrow> event_row list" where
  "recent_events limit t = take limit (rev t)"

definition count_events_per_session :: "session_id list \<Rightarrow> event_table \<Rightarrow> (session_id \<times> nat) list" where
  "count_events_per_session ids t =
     filter (\<lambda>(_, n). 0 < n)
       (map (\<lambda>s. (s, length (filter (\<lambda>r. ei_session (er_event r) = Some s) t))) (remdups ids))"

definition events_by_session :: "session_id \<Rightarrow> nat \<Rightarrow> event_table \<Rightarrow> event_row list" where
  "events_by_session s limit t =
     take limit (sort_key (\<lambda>r. ei_occurred_at (er_event r)) (filter (\<lambda>r. ei_session (er_event r) = Some s) t))"

section \<open>Listening sessions (listen_session.rs)\<close>

definition LISTEN_SESSION_GAP_MS :: int where
  "LISTEN_SESSION_GAP_MS = 30 * 60000"

record listening =
  ln_id :: string
  ln_last_ms :: int

definition advance :: "listening option \<Rightarrow> int \<Rightarrow> int \<Rightarrow> int \<Rightarrow> listening" where
  "advance prev start_ms end_ms gap =
     (let fresh = \<lparr>ln_id = ''ls-'' @ int_str start_ms, ln_last_ms = end_ms\<rparr>
      in case prev of
           None \<Rightarrow> fresh
         | Some cur \<Rightarrow>
             if i64_wrap (start_ms - ln_last_ms cur) \<le> gap
             then \<lparr>ln_id = ln_id cur, ln_last_ms = max (ln_last_ms cur) end_ms\<rparr>
             else fresh)"

type_synonym listen_sessions = "int \<rightharpoonup> listening"

definition stamp ::
  "bool \<Rightarrow> event_table \<Rightarrow> int \<Rightarrow> int \<Rightarrow> int \<Rightarrow> listen_sessions \<Rightarrow> string \<times> listen_sessions" where
  "stamp lookup_ok t user start_ms end_ms ls =
     (let prev = (case ls user of
                    Some c \<Rightarrow> Some c
                  | None \<Rightarrow>
                      if lookup_ok
                      then map_option (\<lambda>(i, ms). \<lparr>ln_id = i, ln_last_ms = ms\<rparr>) (last_listen_session user t)
                      else None);
          cur = advance prev start_ms end_ms LISTEN_SESSION_GAP_MS
      in (ln_id cur, ls(user \<mapsto> cur)))"

section \<open>Votes (feedback.rs)\<close>

record feedback_row =
  fb_user :: int
  fb_track :: track_id
  fb_session :: string
  fb_vote :: int
  fb_occurred_ms :: int
  fb_received_ms :: int

type_synonym feedback_table = "feedback_row list"

text \<open>\<open>ON CONFLICT(track_id, session_id) DO UPDATE\<close> leaves the account of the row as it was.\<close>

definition feedback_record ::
  "int \<Rightarrow> track_id \<Rightarrow> string \<Rightarrow> int \<Rightarrow> int \<Rightarrow> int \<Rightarrow> feedback_table \<Rightarrow> feedback_table" where
  "feedback_record user track session vote occurred received t =
     (if \<exists>r \<in> set t. fb_track r = track \<and> fb_session r = session
      then update_where (\<lambda>r. fb_track r = track \<and> fb_session r = session)
             (\<lambda>r. r\<lparr>fb_vote := vote, fb_occurred_ms := occurred, fb_received_ms := received\<rparr>) t
      else t @ [\<lparr>fb_user = user, fb_track = track, fb_session = session, fb_vote = vote,
                 fb_occurred_ms = occurred, fb_received_ms = received\<rparr>])"

definition feedback_clear :: "track_id \<Rightarrow> string \<Rightarrow> feedback_table \<Rightarrow> feedback_table" where
  "feedback_clear track session t = filter (\<lambda>r. \<not> (fb_track r = track \<and> fb_session r = session)) t"

definition count_votes :: "int \<Rightarrow> feedback_row list \<Rightarrow> nat" where
  "count_votes v rows = length (filter (\<lambda>r. fb_vote r = v) rows)"

definition feedback_for_track :: "int \<Rightarrow> track_id \<Rightarrow> feedback_table \<Rightarrow> nat \<times> nat" where
  "feedback_for_track user track t =
     (let rows = filter (\<lambda>r. fb_user r = user \<and> fb_track r = track) t
      in (count_votes 1 rows, count_votes (- 1) rows))"

definition downvoted_in_session :: "string \<Rightarrow> feedback_table \<Rightarrow> track_id list" where
  "downvoted_in_session session t =
     map fb_track (filter (\<lambda>r. fb_session r = session \<and> fb_vote r = - 1) t)"

record feedback_aggregate =
  fa_track :: track_id
  fa_up :: nat
  fa_down :: nat
  fa_last_ms :: int

text \<open>\<open>GROUP BY track_id ORDER BY last_voted_ms DESC, MAX(id) DESC\<close>: the groups in the order of their
  last rows, newest first, then stably by time.\<close>

definition feedback_aggregate_since :: "int option \<Rightarrow> nat \<Rightarrow> feedback_table \<Rightarrow> feedback_aggregate list" where
  "feedback_aggregate_since since limit t =
     (let rows = filter (\<lambda>r. case since of None \<Rightarrow> True | Some s \<Rightarrow> s \<le> fb_received_ms r) t;
          group = (\<lambda>i. filter (\<lambda>r. fb_track r = i) rows);
          agg = (\<lambda>i. \<lparr>fa_track = i, fa_up = count_votes 1 (group i), fa_down = count_votes (- 1) (group i),
                     fa_last_ms = Max (fb_received_ms ` set (group i))\<rparr>)
      in take limit (sort_key (\<lambda>a. - fa_last_ms a) (map agg (rev (remdups (map fb_track rows))))))"

section \<open>The recency clock (play_history.rs)\<close>

record history_row =
  ph_user :: int
  ph_track :: track_id
  ph_last_ms :: int

type_synonym history_table = "history_row list"

definition record_submission :: "int \<Rightarrow> track_id \<Rightarrow> int \<Rightarrow> history_table \<Rightarrow> history_table" where
  "record_submission user track ms t =
     (if \<exists>r \<in> set t. ph_user r = user \<and> ph_track r = track
      then update_where (\<lambda>r. ph_user r = user \<and> ph_track r = track)
             (\<lambda>r. r\<lparr>ph_last_ms := max (ph_last_ms r) ms\<rparr>) t
      else t @ [\<lparr>ph_user = user, ph_track = track, ph_last_ms = ms\<rparr>])"

definition last_played :: "int \<Rightarrow> track_id \<Rightarrow> history_table \<Rightarrow> int option" where
  "last_played user track t =
     map_option ph_last_ms (find (\<lambda>r. ph_user r = user \<and> ph_track r = track) t)"

definition played_since :: "int \<Rightarrow> int \<Rightarrow> history_table \<Rightarrow> track_id list" where
  "played_since user since t = map ph_track (filter (\<lambda>r. ph_user r = user \<and> since \<le> ph_last_ms r) t)"

section \<open>The affinity counter (track_affinity.rs)\<close>

record affinity_row =
  af_user :: int
  af_track :: track_id
  af_score :: fp
  af_updated_ms :: int
  af_plays :: nat
  af_skips :: nat
  af_likes :: nat
  af_dislikes :: nat

type_synonym affinity_table = "affinity_row list"

definition bump_counter :: "affinity_event \<Rightarrow> affinity_row \<Rightarrow> affinity_row" where
  "bump_counter e r =
     (case e of
        Aff_Like \<Rightarrow> r\<lparr>af_likes := Suc (af_likes r)\<rparr>
      | Aff_Dislike \<Rightarrow> r\<lparr>af_dislikes := Suc (af_dislikes r)\<rparr>
      | Aff_Play _ \<Rightarrow> r\<lparr>af_plays := Suc (af_plays r)\<rparr>
      | Aff_Skip _ \<Rightarrow> r\<lparr>af_skips := Suc (af_skips r)\<rparr>)"

definition apply_event ::
  "libm \<Rightarrow> int \<Rightarrow> track_id \<Rightarrow> affinity_event \<Rightarrow> int \<Rightarrow> int \<Rightarrow> affinity_table \<Rightarrow> affinity_table" where
  "apply_event lm user track e ms half_life t =
     (let mine = (\<lambda>r. af_user r = user \<and> af_track r = track);
          (prev, prev_ms) = (case find mine t of None \<Rightarrow> (fp0, ms) | Some r \<Rightarrow> (af_score r, af_updated_ms r));
          (score, updated) = fold_event lm prev prev_ms ms (event_weight e) half_life
      in if \<exists>r \<in> set t. mine r
         then update_where mine (\<lambda>r. bump_counter e (r\<lparr>af_score := score, af_updated_ms := updated\<rparr>)) t
         else t @ [bump_counter e \<lparr>af_user = user, af_track = track, af_score = score,
                                   af_updated_ms = updated, af_plays = 0, af_skips = 0, af_likes = 0,
                                   af_dislikes = 0\<rparr>])"

definition affinity_many ::
  "libm \<Rightarrow> int \<Rightarrow> track_id list \<Rightarrow> int \<Rightarrow> int \<Rightarrow> affinity_table \<Rightarrow> (track_id \<times> fp) list" where
  "affinity_many lm user ids now half_life t =
     map (\<lambda>r. (af_track r, affinity_at lm (af_score r) (af_updated_ms r) now half_life))
       (filter (\<lambda>r. af_user r = user \<and> af_track r \<in> set ids) t)"

definition affinity_row_of ::
  "libm \<Rightarrow> int \<Rightarrow> track_id \<Rightarrow> int \<Rightarrow> int \<Rightarrow> affinity_table \<Rightarrow> (fp \<times> nat \<times> nat \<times> nat \<times> nat) option" where
  "affinity_row_of lm user track now half_life t =
     map_option (\<lambda>r. (affinity_at lm (af_score r) (af_updated_ms r) now half_life,
                      af_plays r, af_skips r, af_likes r, af_dislikes r))
       (find (\<lambda>r. af_user r = user \<and> af_track r = track) t)"

section \<open>The log of recommendations (provenance.rs)\<close>

datatype rec_kind =
  Rec_Next | Rec_Station | Rec_FromSeeds | Rec_FromAny | Rec_SimilarAlbums | Rec_SimilarArtists | Rec_Other

fun rec_kind_str :: "rec_kind \<Rightarrow> string" where
  "rec_kind_str Rec_Next = ''next''"
| "rec_kind_str Rec_Station = ''station''"
| "rec_kind_str Rec_FromSeeds = ''from_seeds''"
| "rec_kind_str Rec_FromAny = ''from_any''"
| "rec_kind_str Rec_SimilarAlbums = ''similar_albums''"
| "rec_kind_str Rec_SimilarArtists = ''similar_artists''"
| "rec_kind_str Rec_Other = ''other''"

definition rec_kind_parse :: "string \<Rightarrow> rec_kind" where
  "rec_kind_parse s =
     (if s = ''next'' then Rec_Next else if s = ''station'' then Rec_Station
      else if s = ''from_seeds'' then Rec_FromSeeds else if s = ''from_any'' then Rec_FromAny
      else if s = ''similar_albums'' then Rec_SimilarAlbums
      else if s = ''similar_artists'' then Rec_SimilarArtists else Rec_Other)"

definition serves_tracks :: "rec_kind \<Rightarrow> bool" where
  "serves_tracks k \<longleftrightarrow> k \<in> {Rec_Next, Rec_Station, Rec_FromSeeds, Rec_FromAny}"

datatype outcome = Kept | Skipped | Pending

definition outcome_of_event :: "string option \<Rightarrow> outcome" where
  "outcome_of_event e =
     (if e = Some ''scrobble'' then Kept else if e = Some ''skip'' then Skipped else Pending)"

record rec_item =
  ri_entity :: string
  ri_score :: "fp option"
  ri_outcome :: "outcome option"

record rec_record =
  rr_kind :: rec_kind
  rr_session :: "string option"
  rr_model :: model_version
  rr_seeds :: "string list option"
  rr_text :: "string option"
  rr_degraded :: bool
  rr_items :: "rec_item list"

text \<open>A row of \<open>recommendation\<close> with the rows of \<open>recommendation_item\<close> that belong to it, which are
  written in the same transaction and read in the order of their ranks. The JSON of the parameters and
  of the features is only stored and is left out.\<close>

record rec_row =
  rw_id :: nat
  rw_user :: int
  rw_kind :: string
  rw_record :: rec_record
  rw_served_ms :: int

type_synonym rec_log = "rec_row list"

definition log_record :: "int \<Rightarrow> int \<Rightarrow> rec_record \<Rightarrow> rec_log \<Rightarrow> nat \<times> rec_log" where
  "log_record user now r t =
     (let i = Suc (length t)
      in (i, t @ [\<lparr>rw_id = i, rw_user = user, rw_kind = rec_kind_str (rr_kind r), rw_record = r,
                   rw_served_ms = now\<rparr>]))"

definition log_count :: "rec_log \<Rightarrow> nat" where
  "log_count t = length t"

definition served_since :: "int \<Rightarrow> int \<Rightarrow> rec_log \<Rightarrow> track_id list" where
  "served_since user since t =
     map TrackId (remdups (concat (map (\<lambda>r. map ri_entity (rr_items (rw_record r)))
       (filter (\<lambda>r. rw_user r = user \<and> since \<le> rw_served_ms r
                  \<and> rw_kind r \<in> set [''next'', ''from_seeds'', ''from_any'', ''station'']) t))))"

definition items_for :: "rec_row \<Rightarrow> rec_item list" where
  "items_for r = map (\<lambda>i. i\<lparr>ri_outcome := None\<rparr>) (rr_items (rw_record r))"

definition stored_recommendation :: "rec_row \<Rightarrow> rec_row" where
  "stored_recommendation r =
     r\<lparr>rw_record := (rw_record r)\<lparr>rr_kind := rec_kind_parse (rw_kind r), rr_items := items_for r\<rparr>\<rparr>"

definition recent_recommendations :: "nat \<Rightarrow> rec_log \<Rightarrow> rec_row list" where
  "recent_recommendations limit t = map stored_recommendation (take limit (rev t))"

definition OUTCOME_SKEW_MS :: int where "OUTCOME_SKEW_MS = 2000"
definition OUTCOME_WINDOW_MS :: int where "OUTCOME_WINDOW_MS = 6 * 60 * 60 * 1000"

text \<open>The session parameter \<open>NULL\<close> matches every row.\<close>

definition outcome_for :: "string \<Rightarrow> int \<Rightarrow> string option \<Rightarrow> event_table \<Rightarrow> outcome" where
  "outcome_for track served_ms session t =
     (let hits = filter (\<lambda>r. track_str (ei_track (er_event r)) = track
                  \<and> event_str (ei_type (er_event r)) \<in> set [''scrobble'', ''skip'']
                  \<and> served_ms - OUTCOME_SKEW_MS \<le> ei_occurred_at (er_event r)
                  \<and> ei_occurred_at (er_event r) \<le> served_ms + OUTCOME_WINDOW_MS
                  \<and> (session = None \<or> map_option session_str (ei_session (er_event r)) = session)) t
      in outcome_of_event
           (case sort_key (\<lambda>r. ei_occurred_at (er_event r)) hits of
              [] \<Rightarrow> None
            | r # _ \<Rightarrow> Some (event_str (ei_type (er_event r)))))"

definition recent_with_outcomes :: "nat \<Rightarrow> event_table \<Rightarrow> rec_log \<Rightarrow> rec_row list" where
  "recent_with_outcomes limit events t =
     map (\<lambda>r. if serves_tracks (rr_kind (rw_record r))
              then r\<lparr>rw_record := (rw_record r)\<lparr>rr_items :=
                     map (\<lambda>i. i\<lparr>ri_outcome :=
                            Some (outcome_for (ri_entity i) (rw_served_ms r) (rr_session (rw_record r)) events)\<rparr>)
                       (rr_items (rw_record r))\<rparr>\<rparr>
              else r)
       (recent_recommendations limit t)"

section \<open>Reading what was written\<close>

lemma event_roundtrip: "event_str (event_parse s) = s"
  by (simp add: event_parse_def)

lemma rec_kind_roundtrip [simp]: "rec_kind_parse (rec_kind_str k) = k"
  by (cases k) (simp_all add: rec_kind_parse_def)

lemma last_played_record:
  "last_played u i (record_submission user track ms t) =
     (if u = user \<and> i = track
      then Some (case last_played u i t of None \<Rightarrow> ms | Some old \<Rightarrow> max old ms) else last_played u i t)"
proof (cases "\<exists>r \<in> set t. ph_user r = user \<and> ph_track r = track")
  case True
  have "find (\<lambda>r. ph_user r = u \<and> ph_track r = i)
      (update_where (\<lambda>r. ph_user r = user \<and> ph_track r = track) (\<lambda>r. r\<lparr>ph_last_ms := max (ph_last_ms r) ms\<rparr>) t)
      = map_option (\<lambda>r. if u = user \<and> i = track then r\<lparr>ph_last_ms := max (ph_last_ms r) ms\<rparr> else r)
          (find (\<lambda>r. ph_user r = u \<and> ph_track r = i) t)"
    by (induction t) (auto simp: update_where_def)
  moreover from True have "find (\<lambda>r. ph_user r = user \<and> ph_track r = track) t \<noteq> None"
    by (auto simp: find_None_iff)
  ultimately show ?thesis
    using True by (auto simp: last_played_def record_submission_def option.map_comp comp_def split: option.split)
next
  case False
  then have "find (\<lambda>r. ph_user r = user \<and> ph_track r = track) t = None" by (auto simp: find_None_iff)
  with False show ?thesis
    by (auto simp: last_played_def record_submission_def find_snoc split: option.split)
qed

text \<open>The recency clock of a track is the latest of its submissions, in whatever order they arrive.\<close>

lemma last_played_submissions:
  assumes "ms \<noteq> []"
  shows "last_played user track (fold (record_submission user track) ms t) =
     Some (case last_played user track t of None \<Rightarrow> Max (set ms) | Some old \<Rightarrow> max old (Max (set ms)))"
  using assms
proof (induction ms rule: rev_nonempty_induct)
  case (single m)
  then show ?case by (simp add: last_played_record max.commute split: option.split)
next
  case (snoc m ms)
  then have "Max (set (ms @ [m])) = max (Max (set ms)) m"
    using Max_insert [of "set ms" m] by (simp add: max.commute)
  with snoc show ?case by (simp add: last_played_record ac_simps split: option.split)
qed

lemma served_since_iff:
  "i \<in> set (served_since user since t) \<longleftrightarrow>
     (\<exists>r \<in> set t. rw_user r = user \<and> since \<le> rw_served_ms r
        \<and> rw_kind r \<in> set [''next'', ''from_seeds'', ''from_any'', ''station'']
        \<and> track_str i \<in> ri_entity ` set (rr_items (rw_record r)))"
  by (cases i) (auto simp: served_since_def image_iff)

lemma served_since_record:
  "set (served_since user since (snd (log_record u now r t))) =
     set (served_since user since t) \<union>
     (if u = user \<and> since \<le> now \<and> serves_tracks (rr_kind r)
      then TrackId ` ri_entity ` set (rr_items r) else {})"
proof -
  have "rec_kind_str (rr_kind r) \<in> set [''next'', ''from_seeds'', ''from_any'', ''station'']
      \<longleftrightarrow> serves_tracks (rr_kind r)"
    by (cases "rr_kind r") (simp_all add: serves_tracks_def)
  then show ?thesis
    by (auto simp: served_since_def log_record_def Let_def image_iff)
qed

lemma sort_key_map: "sort_key f (map g xs) = map g (sort_key (\<lambda>x. f (g x)) xs)"
proof (induction xs)
  case (Cons x xs)
  have "insort_key f (g x) (map g ys) = map g (insort_key (\<lambda>x. f (g x)) x ys)" for ys
    by (induction ys) simp_all
  with Cons show ?case by simp
qed simp

text \<open>The outcome of a served track does not ask whose event it is.\<close>

lemma outcome_ignores_account:
  "outcome_for track served_ms session (map (\<lambda>r. r\<lparr>er_user := u r\<rparr>) t) = outcome_for track served_ms session t"
  by (simp add: outcome_for_def filter_map comp_def sort_key_map split: list.split)

end
