(* ===== verification/Taste_Handlers.thy ===== *)
theory Taste_Handlers
  imports Taste_Signals Track_Meta Sync_Store
begin

text \<open>
  The handlers that write what the gateway learns from listening: \<open>submit\<close> of
  \<open>music-gateway/src/events.rs\<close>, \<open>submit\<close> of \<open>recommend_feedback.rs\<close>, and what \<open>scrobble.rs\<close> does
  before it forwards the request to the proxy.

  A handler takes a \<open>taste_io\<close> (the clock, which statements succeed, the half life of the affinity
  counter, how long a JSON value is when printed), the principal, the request and the tables
  (\<open>taste_state\<close>). The scrobble handler also reads the room of its caller.

  \<open>own_taste\<close> is what the tables hold of one account, listening session and thumb votes apart. A run of
  requests changes it only by the requests of that account, guests leave no trace at all, and a batch of
  events that is sent again changes nothing.
\<close>

section \<open>State and environment\<close>

record taste_state =
  ts_events :: event_table
  ts_listen :: listen_sessions
  ts_feedback :: feedback_table
  ts_history :: history_table
  ts_affinity :: affinity_table

datatype taste_op =
    T_resume
  | T_append
  | T_history
  | T_vote
  | T_counts
  | T_affinity track_id
  | T_metadata track_id

record taste_io =
  ti_now :: int
  ti_ok :: "taste_op \<Rightarrow> bool"
  ti_libm :: libm
  ti_half_life :: int
  ti_json_len :: "json \<Rightarrow> nat"

definition opt_or :: "'a option \<Rightarrow> 'a \<Rightarrow> 'a" where
  "opt_or x d = (case x of Some v \<Rightarrow> v | None \<Rightarrow> d)"

definition fold_affinity ::
  "taste_io \<Rightarrow> int \<Rightarrow> track_id \<Rightarrow> affinity_event \<Rightarrow> int \<Rightarrow> affinity_table \<Rightarrow> affinity_table" where
  "fold_affinity io user track e ms t =
     (if ti_ok io (T_affinity track) then apply_event (ti_libm io) user track e ms (ti_half_life io) t else t)"

section \<open>Events (events.rs)\<close>

definition MAX_BATCH :: nat where "MAX_BATCH = 1000"
definition MAX_EVENT_TYPE_LEN :: nat where "MAX_EVENT_TYPE_LEN = 64"
definition MAX_EVENT_TRACK_LEN :: nat where "MAX_EVENT_TRACK_LEN = 256"
definition MAX_METADATA_BYTES :: nat where "MAX_METADATA_BYTES = 4096"
definition MAX_CLIENT_EVENT_ID_LEN :: nat where "MAX_CLIENT_EVENT_ID_LEN = 64"

record event_payload =
  ep_type :: event_type
  ep_track :: string
  ep_occurred_at :: int
  ep_metadata :: "json option"
  ep_session :: "string option"
  ep_client_id :: "string option"

definition payload_problem :: "taste_io \<Rightarrow> event_payload \<Rightarrow> string option" where
  "payload_problem io p =
     (if MAX_EVENT_TYPE_LEN < length (event_str (ep_type p)) then Some ''event_type too long''
      else if MAX_EVENT_TRACK_LEN < length (ep_track p) then Some ''track_id too long''
      else if (case ep_metadata p of Some m \<Rightarrow> MAX_METADATA_BYTES < ti_json_len io m | None \<Rightarrow> False)
      then Some ''metadata too large''
      else if (case ep_client_id p of
                 Some i \<Rightarrow> i = [] \<or> MAX_CLIENT_EVENT_ID_LEN < length i | None \<Rightarrow> False)
      then Some ''client_event_id must be 1-64 bytes''
      else None)"

fun first_problem :: "taste_io \<Rightarrow> event_payload list \<Rightarrow> string option" where
  "first_problem io [] = None"
| "first_problem io (p # ps) =
     (case payload_problem io p of Some e \<Rightarrow> Some e | None \<Rightarrow> first_problem io ps)"

fun stamp_payloads ::
  "taste_io \<Rightarrow> event_table \<Rightarrow> int \<Rightarrow> event_payload list \<Rightarrow> listen_sessions
    \<Rightarrow> (event_input \<times> string option) list \<times> listen_sessions" where
  "stamp_payloads io t user [] ls = ([], ls)"
| "stamp_payloads io t user (p # ps) ls =
     (let start = i64_wrap (ep_occurred_at p - opt_or (extract_heard_ms (ep_metadata p)) 0);
          (sid, ls1) = stamp (ti_ok io T_resume) t user start (ep_occurred_at p) ls;
          ev = \<lparr>ei_type = ep_type p, ei_track = TrackId (ep_track p), ei_occurred_at = ep_occurred_at p,
                ei_metadata = with_fields (ep_metadata p) [(''listen_session'', JStr sid)],
                ei_session = map_option SessionId (ep_session p)\<rparr>;
          (evs, ls2) = stamp_payloads io t user ps ls1
      in ((ev, ep_client_id p) # evs, ls2))"

text \<open>How far into the track a skip came, where the position and the length are known.\<close>

definition skip_completion :: "taste_io \<Rightarrow> meta_table \<Rightarrow> event_input \<Rightarrow> fp option" where
  "skip_completion io meta ev =
     (if ei_type ev \<noteq> Ev_Skip then None
      else case extract_played_ms (ei_metadata ev) of
        None \<Rightarrow> None
      | Some played \<Rightarrow>
          (case (if ti_ok io (T_metadata (ei_track ev)) then meta_get (ei_track ev) meta else None) of
             None \<Rightarrow> None
           | Some m \<Rightarrow>
               (case tm_duration_seconds m of
                  None \<Rightarrow> None
                | Some secs \<Rightarrow>
                    let ms = uint secs * 1000
                    in if 0 < ms
                       then Some (fp_cast binary32 (fp_div binary64 (round_to binary64 (of_int played))
                                                      (round_to binary64 (of_int ms))))
                       else None)))"

definition fold_skip_affinity ::
  "taste_io \<Rightarrow> meta_table \<Rightarrow> int \<Rightarrow> event_input list \<Rightarrow> affinity_table \<Rightarrow> affinity_table" where
  "fold_skip_affinity io meta user evs t =
     fold (\<lambda>ev t. case skip_completion io meta ev of
             None \<Rightarrow> t
           | Some c \<Rightarrow> fold_affinity io user (ei_track ev) (Aff_Skip c) (ei_occurred_at ev) t) evs t"

definition fresh_events :: "(event_input \<times> string option) list \<Rightarrow> bool list \<Rightarrow> event_input list" where
  "fresh_events keyed inserted = map (fst \<circ> fst) (filter snd (zip keyed inserted))"

definition events_submit ::
  "taste_io \<Rightarrow> meta_table \<Rightarrow> principal \<Rightarrow> event_payload list option \<Rightarrow> taste_state
    \<Rightarrow> ((status \<times> string) + nat) \<times> taste_state" where
  "events_submit io meta p payload st =
     (case payload of
        None \<Rightarrow> (Inl (S_BAD_REQUEST, ''invalid JSON body''), st)
      | Some ps \<Rightarrow>
          if pr_role p = Guest then (Inr 0, st)
          else if ps = [] then (Inl (S_BAD_REQUEST, ''events array must be non-empty''), st)
          else if MAX_BATCH < length ps
          then (Inl (S_PAYLOAD_TOO_LARGE, ''batch too large (max 1000 events)''), st)
          else (case first_problem io ps of
            Some msg \<Rightarrow> (Inl (S_BAD_REQUEST, msg), st)
          | None \<Rightarrow>
              let (keyed, ls) = stamp_payloads io (ts_events st) (pr_user_id p) ps (ts_listen st);
                  st1 = st\<lparr>ts_listen := ls\<rparr>
              in if \<not> ti_ok io T_append
                 then (Inl (S_INTERNAL_SERVER_ERROR, ''event log unavailable''), st1)
                 else let (inserted, evs) = append_keyed (pr_user_id p) (ti_now io) keyed (ts_events st);
                          fresh = fresh_events keyed inserted
                      in (Inr (length fresh),
                          st1\<lparr>ts_events := evs,
                              ts_affinity := fold_skip_affinity io meta (pr_user_id p) fresh (ts_affinity st)\<rparr>)))"

section \<open>Thumb votes (recommend_feedback.rs)\<close>

definition MAX_VOTE_TRACK_LEN :: nat where "MAX_VOTE_TRACK_LEN = 256"
definition MAX_SESSION_ID_LEN :: nat where "MAX_SESSION_ID_LEN = 128"

datatype vote_dir = Vote_Up | Vote_Down

fun vote_i8 :: "vote_dir \<Rightarrow> int" where
  "vote_i8 Vote_Up = 1"
| "vote_i8 Vote_Down = - 1"

fun vote_event :: "vote_dir \<Rightarrow> affinity_event" where
  "vote_event Vote_Up = Aff_Like"
| "vote_event Vote_Down = Aff_Dislike"

record feedback_request =
  fr_track :: string
  fr_vote :: "vote_dir option"
  fr_session :: string
  fr_occurred_ms :: "int option"

record feedback_response =
  fp_track :: string
  fp_up :: nat
  fp_down :: nat

definition feedback_submit ::
  "taste_io \<Rightarrow> principal \<Rightarrow> feedback_request option \<Rightarrow> taste_state
    \<Rightarrow> ((status \<times> string) + feedback_response) \<times> taste_state" where
  "feedback_submit io p payload st =
     (case payload of
        None \<Rightarrow> (Inl (S_BAD_REQUEST, ''invalid JSON body''), st)
      | Some rq \<Rightarrow>
          if fr_track rq = [] \<or> MAX_VOTE_TRACK_LEN < length (fr_track rq)
          then (Inl (S_BAD_REQUEST, ''track_id length out of range''), st)
          else if fr_session rq = [] \<or> MAX_SESSION_ID_LEN < length (fr_session rq)
          then (Inl (S_BAD_REQUEST, ''session_id length out of range''), st)
          else if pr_role p = Guest then (Inr \<lparr>fp_track = fr_track rq, fp_up = 0, fp_down = 0\<rparr>, st)
          else let track = TrackId (fr_track rq);
                   occurred = opt_or (fr_occurred_ms rq) (ti_now io)
               in if \<not> ti_ok io T_vote
                  then (Inl (S_INTERNAL_SERVER_ERROR, ''feedback store unavailable''), st)
                  else let fb = (case fr_vote rq of
                                   Some d \<Rightarrow> feedback_record (pr_user_id p) track (fr_session rq) (vote_i8 d)
                                              occurred (ti_now io) (ts_feedback st)
                                 | None \<Rightarrow> feedback_clear track (fr_session rq) (ts_feedback st));
                           af = (case fr_vote rq of
                                   Some d \<Rightarrow> fold_affinity io (pr_user_id p) track (vote_event d) occurred
                                              (ts_affinity st)
                                 | None \<Rightarrow> ts_affinity st);
                           st' = st\<lparr>ts_feedback := fb, ts_affinity := af\<rparr>
                       in if \<not> ti_ok io T_counts
                          then (Inl (S_INTERNAL_SERVER_ERROR, ''feedback store unavailable''), st')
                          else let (up, down) = feedback_for_track (pr_user_id p) track fb
                               in (Inr \<lparr>fp_track = fr_track rq, fp_up = up, fp_down = down\<rparr>, st'))"

section \<open>Scrobbles (scrobble.rs)\<close>

record scrobble_query =
  sc_id :: "string option"
  sc_submission :: "string option"
  sc_time :: "int option"

definition parse_submission :: "string option \<Rightarrow> bool" where
  "parse_submission raw \<longleftrightarrow> raw \<notin> {Some ''false'', Some ''0''}"

definition play_source_json :: "play_source \<Rightarrow> json" where
  "play_source_json s =
     JObj ((''kind'', JStr (ps_kind s)) # (case ps_id s of None \<Rightarrow> [] | Some i \<Rightarrow> [(''id'', JStr i)]))"

definition scrobble_event ::
  "track_id \<Rightarrow> int \<Rightarrow> string \<Rightarrow> play_source option \<Rightarrow> session_id option \<Rightarrow> event_input" where
  "scrobble_event track ms listen_id from session =
     \<lparr>ei_type = Ev_Scrobble, ei_track = track, ei_occurred_at = ms,
      ei_metadata = with_fields None ((''listen_session'', JStr listen_id)
        # (case from of None \<Rightarrow> [] | Some s \<Rightarrow> [(''source'', play_source_json s)])),
      ei_session = session\<rparr>"

definition scrobble_effects ::
  "taste_io \<Rightarrow> principal \<Rightarrow> scrobble_query \<Rightarrow> sync_store \<Rightarrow> taste_state \<Rightarrow> sync_store \<times> taste_state" where
  "scrobble_effects io p q sy st =
     (case sc_id q of
        None \<Rightarrow> (sy, st)
      | Some i \<Rightarrow>
          if \<not> parse_submission (sc_submission q) \<or> pr_role p = Guest then (sy, st)
          else let track = TrackId i;
                   ms = opt_or (sc_time q) (ti_now io);
                   user = pr_user_id p;
                   history = (if ti_ok io T_history then record_submission user track ms (ts_history st)
                              else ts_history st);
                   (session, sy1) = active_session_id (room_id p) sy;
                   (from, sy2) = now_playing_source (room_id p) track sy1;
                   (listen_id, ls) = stamp (ti_ok io T_resume) (ts_events st) user ms ms (ts_listen st);
                   evs = (if ti_ok io T_append
                          then snd (append_batch user (ti_now io)
                                 [scrobble_event track ms listen_id from session] (ts_events st))
                          else ts_events st)
               in (sy2, st\<lparr>ts_events := evs, ts_listen := ls, ts_history := history,
                           ts_affinity := fold_affinity io user track (Aff_Play fp1) ms (ts_affinity st)\<rparr>))"

section \<open>Runs of requests\<close>

datatype taste_request =
    Req_events principal "event_payload list option"
  | Req_feedback principal "feedback_request option"
  | Req_scrobble principal scrobble_query

fun requester :: "taste_request \<Rightarrow> principal" where
  "requester (Req_events p _) = p"
| "requester (Req_feedback p _) = p"
| "requester (Req_scrobble p _) = p"

fun taste_step :: "meta_table \<Rightarrow> taste_io \<times> taste_request \<Rightarrow> sync_store \<times> taste_state \<Rightarrow> sync_store \<times> taste_state" where
  "taste_step meta (io, Req_events p b) (sy, st) = (sy, snd (events_submit io meta p b st))"
| "taste_step meta (io, Req_feedback p b) (sy, st) = (sy, snd (feedback_submit io p b st))"
| "taste_step meta (io, Req_scrobble p q) (sy, st) = scrobble_effects io p q sy st"

definition taste_run ::
  "meta_table \<Rightarrow> (taste_io \<times> taste_request) list \<Rightarrow> sync_store \<times> taste_state \<Rightarrow> sync_store \<times> taste_state" where
  "taste_run meta rs s = fold (taste_step meta) rs s"

definition acts_for :: "int \<Rightarrow> taste_request \<Rightarrow> bool" where
  "acts_for u r \<longleftrightarrow> pr_role (requester r) \<noteq> Guest \<and> pr_user_id (requester r) = u"

record own_taste =
  ot_events :: event_table
  ot_listen :: "listening option"
  ot_history :: history_table
  ot_affinity :: affinity_table

definition own_taste :: "int \<Rightarrow> taste_state \<Rightarrow> own_taste" where
  "own_taste u st =
     \<lparr>ot_events = filter (\<lambda>r. er_user r = u) (ts_events st), ot_listen = ts_listen st u,
      ot_history = filter (\<lambda>r. ph_user r = u) (ts_history st),
      ot_affinity = filter (\<lambda>r. af_user r = u) (ts_affinity st)\<rparr>"

end
