(* ===== verification/Taste_Laws.thy ===== *)
theory Taste_Laws
  imports Taste_Handlers
begin

text \<open>
  Whose taste a run of requests changes, and what a batch that is sent twice does.
\<close>

section \<open>The rows of one account\<close>

lemma filter_update_where_other:
  assumes "\<And>r. P (f r) = P r" "\<And>r. m r \<Longrightarrow> \<not> P r"
  shows "filter P (update_where m f t) = filter P t"
  using assms by (induction t) (auto simp: update_where_def)

lemma filter_update_where_own:
  assumes "\<And>r. P (f r) = P r" "\<And>r. m r \<Longrightarrow> P r"
  shows "filter P (update_where m f t) = update_where m f (filter P t)"
  using assms by (induction t) (auto simp: update_where_def)

lemma ex_filter: "(\<And>r. m r \<Longrightarrow> P r) \<Longrightarrow> (\<exists>r \<in> set (filter P t). m r) \<longleftrightarrow> (\<exists>r \<in> set t. m r)"
  by auto

lemma find_own_rows: "(\<And>r. m r \<Longrightarrow> P r) \<Longrightarrow> find m (filter P t) = find m t"
  by (induction t) auto

lemma insert_event_own:
  "fst (insert_event u now ev cid (filter (\<lambda>r. er_user r = u) t)) = fst (insert_event u now ev cid t)"
  "filter (\<lambda>r. er_user r = u) (snd (insert_event v now ev cid t)) =
     (if v = u then snd (insert_event u now ev cid (filter (\<lambda>r. er_user r = u) t))
      else filter (\<lambda>r. er_user r = u) t)"
  by (auto simp: insert_event_def)

lemma append_keyed_own:
  "fst (append_keyed u now evs (filter (\<lambda>r. er_user r = u) t)) = fst (append_keyed u now evs t)"
  "filter (\<lambda>r. er_user r = u) (snd (append_keyed v now evs t)) =
     (if v = u then snd (append_keyed u now evs (filter (\<lambda>r. er_user r = u) t))
      else filter (\<lambda>r. er_user r = u) t)"
proof -
  show "filter (\<lambda>r. er_user r = u) (snd (append_keyed v now evs t)) =
     (if v = u then snd (append_keyed u now evs (filter (\<lambda>r. er_user r = u) t))
      else filter (\<lambda>r. er_user r = u) t)"
  proof (induction evs arbitrary: t)
    case (Cons e evs)
    from Cons.IH [of "snd (insert_event v now (fst e) (snd e) t)"] show ?case
      by (cases e) (simp add: case_prod_unfold Let_def insert_event_own)
  qed simp
  show "fst (append_keyed u now evs (filter (\<lambda>r. er_user r = u) t)) = fst (append_keyed u now evs t)"
  proof (induction evs arbitrary: t)
    case (Cons e evs)
    have "snd (insert_event u now (fst e) (snd e) (filter (\<lambda>r. er_user r = u) t)) =
        filter (\<lambda>r. er_user r = u) (snd (insert_event u now (fst e) (snd e) t))"
      by (simp add: insert_event_own(2))
    with Cons.IH [of "snd (insert_event u now (fst e) (snd e) t)"] show ?case
      by (cases e) (simp add: case_prod_unfold Let_def insert_event_own(1))
  qed simp
qed

lemma append_batch_own:
  "filter (\<lambda>r. er_user r = u) (snd (append_batch v now evs t)) =
     (if v = u then snd (append_batch u now evs (filter (\<lambda>r. er_user r = u) t))
      else filter (\<lambda>r. er_user r = u) t)"
  by (simp add: append_batch_def case_prod_unfold Let_def append_keyed_own)

lemma record_submission_own:
  "filter (\<lambda>r. ph_user r = u) (record_submission v track ms t) =
     (if v = u then record_submission u track ms (filter (\<lambda>r. ph_user r = u) t)
      else filter (\<lambda>r. ph_user r = u) t)"
proof (cases "v = u")
  case True
  have "filter (\<lambda>r. ph_user r = u) (update_where (\<lambda>r. ph_user r = u \<and> ph_track r = track)
           (\<lambda>r. r\<lparr>ph_last_ms := max (ph_last_ms r) ms\<rparr>) t) =
         update_where (\<lambda>r. ph_user r = u \<and> ph_track r = track)
           (\<lambda>r. r\<lparr>ph_last_ms := max (ph_last_ms r) ms\<rparr>) (filter (\<lambda>r. ph_user r = u) t)"
    by (rule filter_update_where_own) auto
  with True show ?thesis by (auto simp: record_submission_def)
next
  case False
  have "filter (\<lambda>r. ph_user r = u) (update_where (\<lambda>r. ph_user r = v \<and> ph_track r = track)
           (\<lambda>r. r\<lparr>ph_last_ms := max (ph_last_ms r) ms\<rparr>) t) = filter (\<lambda>r. ph_user r = u) t"
    by (rule filter_update_where_other) (use False in auto)
  with False show ?thesis by (simp add: record_submission_def)
qed

lemma bump_counter_user [simp]: "af_user (bump_counter e r) = af_user r"
  by (simp add: bump_counter_def split: affinity_event.split)

lemma apply_event_own:
  "filter (\<lambda>r. af_user r = u) (apply_event lm v track e ms hl t) =
     (if v = u then apply_event lm u track e ms hl (filter (\<lambda>r. af_user r = u) t)
      else filter (\<lambda>r. af_user r = u) t)"
proof (cases "v = u")
  case True
  have up: "filter (\<lambda>r. af_user r = u) (update_where (\<lambda>r. af_user r = u \<and> af_track r = track)
           (\<lambda>r. bump_counter e (r\<lparr>af_score := x, af_updated_ms := y\<rparr>)) t) =
         update_where (\<lambda>r. af_user r = u \<and> af_track r = track)
           (\<lambda>r. bump_counter e (r\<lparr>af_score := x, af_updated_ms := y\<rparr>)) (filter (\<lambda>r. af_user r = u) t)" for x y
    by (rule filter_update_where_own) auto
  have mine: "find (\<lambda>r. af_user r = u \<and> af_track r = track) (filter (\<lambda>r. af_user r = u) t) =
      find (\<lambda>r. af_user r = u \<and> af_track r = track) t"
    by (rule find_own_rows) simp
  have ex: "(\<exists>r \<in> set (filter (\<lambda>r. af_user r = u) t). af_user r = u \<and> af_track r = track)
      \<longleftrightarrow> (\<exists>r \<in> set t. af_user r = u \<and> af_track r = track)"
    by (rule ex_filter) simp
  show ?thesis
    unfolding apply_event_def Let_def case_prod_unfold True mine ex by (simp add: up del: bex_simps ball_simps)
next
  case False
  have up: "filter (\<lambda>r. af_user r = u) (update_where (\<lambda>r. af_user r = v \<and> af_track r = track)
           (\<lambda>r. bump_counter e (r\<lparr>af_score := x, af_updated_ms := y\<rparr>)) t) = filter (\<lambda>r. af_user r = u) t" for x y
    by (rule filter_update_where_other) (use False in auto)
  with False show ?thesis
    unfolding apply_event_def Let_def case_prod_unfold by (simp add: up)
qed

lemma fold_affinity_own:
  "filter (\<lambda>r. af_user r = u) (fold_affinity io v track e ms t) =
     (if v = u then fold_affinity io u track e ms (filter (\<lambda>r. af_user r = u) t)
      else filter (\<lambda>r. af_user r = u) t)"
  by (simp add: fold_affinity_def apply_event_own)

lemma fold_skip_affinity_own:
  "filter (\<lambda>r. af_user r = u) (fold_skip_affinity io meta v evs t) =
     (if v = u then fold_skip_affinity io meta u evs (filter (\<lambda>r. af_user r = u) t)
      else filter (\<lambda>r. af_user r = u) t)"
  by (induction evs arbitrary: t) (auto simp: fold_skip_affinity_def fold_affinity_own split: option.split)

lemma last_listen_session_own:
  "last_listen_session u (filter (\<lambda>r. er_user r = u) t) = last_listen_session u t"
  by (simp add: last_listen_session_def conj_commute)

lemma stamp_own:
  assumes "ls u = ls' u" "filter (\<lambda>r. er_user r = u) t = filter (\<lambda>r. er_user r = u) t'"
  shows "fst (stamp ok t u s e ls) = fst (stamp ok t' u s e ls')
    \<and> snd (stamp ok t u s e ls) u = snd (stamp ok t' u s e ls') u"
proof -
  have "last_listen_session u t = last_listen_session u t'"
    using last_listen_session_own [of u t] last_listen_session_own [of u t'] assms(2) by simp
  with assms(1) show ?thesis by (simp add: stamp_def Let_def split: option.split)
qed

lemma stamp_other: "v \<noteq> u \<Longrightarrow> snd (stamp ok t v s e ls) u = ls u"
  by (simp add: stamp_def Let_def)

lemma stamp_payloads_own:
  assumes "ls u = ls' u" "filter (\<lambda>r. er_user r = u) t = filter (\<lambda>r. er_user r = u) t'"
  shows "fst (stamp_payloads io t u ps ls) = fst (stamp_payloads io t' u ps ls')
    \<and> snd (stamp_payloads io t u ps ls) u = snd (stamp_payloads io t' u ps ls') u"
  using assms(1)
proof (induction ps arbitrary: ls ls')
  case (Cons p ps)
  let ?start = "i64_wrap (ep_occurred_at p - opt_or (extract_heard_ms (ep_metadata p)) 0)"
  have st: "fst (stamp (ti_ok io T_resume) t u ?start (ep_occurred_at p) ls) =
        fst (stamp (ti_ok io T_resume) t' u ?start (ep_occurred_at p) ls')
      \<and> snd (stamp (ti_ok io T_resume) t u ?start (ep_occurred_at p) ls) u =
        snd (stamp (ti_ok io T_resume) t' u ?start (ep_occurred_at p) ls') u"
    by (rule stamp_own) (use Cons.prems assms(2) in simp_all)
  show ?case
    using st Cons.IH [of "snd (stamp (ti_ok io T_resume) t u ?start (ep_occurred_at p) ls)"
        "snd (stamp (ti_ok io T_resume) t' u ?start (ep_occurred_at p) ls')"]
    by (simp add: case_prod_unfold Let_def)
qed simp

lemma stamp_payloads_other: "v \<noteq> u \<Longrightarrow> snd (stamp_payloads io t v ps ls) u = ls u"
  by (induction ps arbitrary: ls) (simp_all add: case_prod_unfold Let_def stamp_other)

section \<open>A step for another account, and a step for this one\<close>

definition same_rooms :: "sync_store \<Rightarrow> sync_store \<Rightarrow> bool" where
  "same_rooms sy sy' \<longleftrightarrow> (\<forall>r. get_room r sy = get_room r sy')"

lemma events_submit_guest: "pr_role p = Guest \<Longrightarrow> snd (events_submit io meta p b st) = st"
  by (simp add: events_submit_def split: option.split)

lemma feedback_submit_guest: "pr_role p = Guest \<Longrightarrow> snd (feedback_submit io p b st) = st"
  by (simp add: feedback_submit_def split: option.split)

lemma scrobble_guest: "pr_role p = Guest \<Longrightarrow> scrobble_effects io p q sy st = (sy, st)"
  by (simp add: scrobble_effects_def split: option.split)

text \<open>What a batch does to the tables, once it is past the checks, which ask nothing of the tables.\<close>

definition events_effect ::
  "taste_io \<Rightarrow> meta_table \<Rightarrow> int \<Rightarrow> event_payload list \<Rightarrow> taste_state \<Rightarrow> taste_state" where
  "events_effect io meta u ps st =
     (let keyed = fst (stamp_payloads io (ts_events st) u ps (ts_listen st));
          st1 = st\<lparr>ts_listen := snd (stamp_payloads io (ts_events st) u ps (ts_listen st))\<rparr>
      in if \<not> ti_ok io T_append then st1
         else st1\<lparr>ts_events := snd (append_keyed u (ti_now io) keyed (ts_events st)),
                  ts_affinity := fold_skip_affinity io meta u
                    (fresh_events keyed (fst (append_keyed u (ti_now io) keyed (ts_events st)))) (ts_affinity st)\<rparr>)"

lemma events_submit_effect:
  "(\<forall>st. snd (events_submit io meta p b st) = st)
   \<or> (\<exists>ps. \<forall>st. snd (events_submit io meta p b st) = events_effect io meta (pr_user_id p) ps st)"
proof (cases b)
  case (Some ps)
  show ?thesis
  proof (cases "pr_role p = Guest \<or> ps = [] \<or> MAX_BATCH < length ps \<or> first_problem io ps \<noteq> None")
    case True
    with Some have "\<forall>st. snd (events_submit io meta p b st) = st" by (auto simp: events_submit_def)
    then show ?thesis ..
  next
    case False
    with Some have "\<forall>st. snd (events_submit io meta p b st) = events_effect io meta (pr_user_id p) ps st"
      by (simp add: events_submit_def events_effect_def Let_def case_prod_unfold)
    then show ?thesis by blast
  qed
qed (simp add: events_submit_def)

lemma events_submit_other:
  assumes "pr_user_id p \<noteq> u"
  shows "own_taste u (snd (events_submit io meta p b st)) = own_taste u st"
  using events_submit_effect [of io meta p b] assms
  by (auto simp: events_effect_def own_taste_def Let_def append_keyed_own fold_skip_affinity_own
      stamp_payloads_other)

lemma feedback_submit_other:
  "pr_user_id p \<noteq> u \<Longrightarrow> own_taste u (snd (feedback_submit io p b st)) = own_taste u st"
  by (auto simp: feedback_submit_def own_taste_def Let_def case_prod_unfold fold_affinity_own
      split: option.split)

lemma scrobble_rooms: "same_rooms (fst (scrobble_effects io p q sy st)) sy"
  by (simp add: scrobble_effects_def same_rooms_def Let_def case_prod_unfold active_session_id_def
      now_playing_source_def touch_room_def get_room_def put_room_def split: option.split)

lemma scrobble_other:
  "pr_user_id p \<noteq> u \<Longrightarrow> own_taste u (snd (scrobble_effects io p q sy st)) = own_taste u st"
  by (auto simp: scrobble_effects_def own_taste_def Let_def case_prod_unfold append_batch_own
      record_submission_own fold_affinity_own stamp_other split: option.split)


lemma own_tasteD:
  assumes "own_taste u st = own_taste u st'"
  shows "filter (\<lambda>r. er_user r = u) (ts_events st) = filter (\<lambda>r. er_user r = u) (ts_events st')"
    "ts_listen st u = ts_listen st' u"
    "filter (\<lambda>r. ph_user r = u) (ts_history st) = filter (\<lambda>r. ph_user r = u) (ts_history st')"
    "filter (\<lambda>r. af_user r = u) (ts_affinity st) = filter (\<lambda>r. af_user r = u) (ts_affinity st')"
  using assms by (simp_all add: own_taste_def)

lemma append_keyed_same:
  assumes "filter (\<lambda>r. er_user r = u) t = filter (\<lambda>r. er_user r = u) t'"
  shows "fst (append_keyed u now evs t) = fst (append_keyed u now evs t')"
  using append_keyed_own(1) [of u now evs t] append_keyed_own(1) [of u now evs t'] assms by simp

lemma events_submit_same:
  assumes "pr_user_id p = u" and own: "own_taste u st = own_taste u st'"
  shows "own_taste u (snd (events_submit io meta p b st)) = own_taste u (snd (events_submit io meta p b st'))"
proof -
  note d = own_tasteD [OF own]
  have stamped: "fst (stamp_payloads io (ts_events st) u ps (ts_listen st))
        = fst (stamp_payloads io (ts_events st') u ps (ts_listen st'))"
    "snd (stamp_payloads io (ts_events st) u ps (ts_listen st)) u
        = snd (stamp_payloads io (ts_events st') u ps (ts_listen st')) u" for ps
    using stamp_payloads_own [of "ts_listen st" u "ts_listen st'", OF d(2) d(1)] by blast+
  have "own_taste u (events_effect io meta u ps st) = own_taste u (events_effect io meta u ps st')" for ps
  proof -
    let ?k = "fst (stamp_payloads io (ts_events st') u ps (ts_listen st'))"
    have evs: "filter (\<lambda>r. er_user r = u) (snd (append_keyed u (ti_now io) ?k (ts_events st))) =
        filter (\<lambda>r. er_user r = u) (snd (append_keyed u (ti_now io) ?k (ts_events st')))"
      by (simp only: append_keyed_own(2) refl if_True d(1))
    have aff: "filter (\<lambda>r. af_user r = u) (fold_skip_affinity io meta u es (ts_affinity st)) =
        filter (\<lambda>r. af_user r = u) (fold_skip_affinity io meta u es (ts_affinity st'))" for es
      by (simp only: fold_skip_affinity_own refl if_True d(4))
    show ?thesis
      unfolding events_effect_def own_taste_def Let_def stamped(1) append_keyed_same [OF d(1)]
      by (cases "ti_ok io T_append") (simp_all add: stamped(2) d(2-4) evs aff d(1))
  qed
  with events_submit_effect [of io meta p b] own show ?thesis unfolding assms(1) by auto
qed

lemma feedback_submit_same:
  assumes "pr_user_id p = u" and own: "own_taste u st = own_taste u st'"
  shows "own_taste u (snd (feedback_submit io p b st)) = own_taste u (snd (feedback_submit io p b st'))"
proof -
  have aff: "filter (\<lambda>r. af_user r = u) (fold_affinity io u track e ms (ts_affinity st)) =
      filter (\<lambda>r. af_user r = u) (fold_affinity io u track e ms (ts_affinity st'))" for track e ms
    by (simp only: fold_affinity_own refl if_True own_tasteD(4) [OF own])
  have effect: "own_taste u (st\<lparr>ts_feedback := fb, ts_affinity := fold_affinity io u track e ms (ts_affinity st)\<rparr>) =
      own_taste u (st'\<lparr>ts_feedback := fb', ts_affinity := fold_affinity io u track e ms (ts_affinity st')\<rparr>)"
    "own_taste u (st\<lparr>ts_feedback := fb\<rparr>) = own_taste u (st'\<lparr>ts_feedback := fb'\<rparr>)" for fb fb' track e ms
    using own aff by (simp_all add: own_taste_def)
  show ?thesis
  proof (cases b)
    case (Some rq)
    then show ?thesis
      by (cases "fr_vote rq") (simp_all add: feedback_submit_def Let_def case_prod_unfold assms(1) own effect)
  qed (simp add: feedback_submit_def own)
qed

lemma now_playing_rooms:
  "same_rooms sy sy' \<Longrightarrow> fst (now_playing_source r t sy) = fst (now_playing_source r t sy')"
  by (simp add: now_playing_source_def touch_room_def same_rooms_def Let_def)

lemma active_session_rooms:
  "same_rooms sy sy' \<Longrightarrow> fst (active_session_id r sy) = fst (active_session_id r sy')"
  "same_rooms sy sy' \<Longrightarrow> same_rooms (snd (active_session_id r sy)) (snd (active_session_id r sy'))"
  by (simp_all add: same_rooms_def read_only_calls)
     (simp add: active_session_id_def touch_room_def Let_def)

lemma scrobble_same:
  assumes "pr_user_id p = u" and own: "own_taste u st = own_taste u st'" and rooms: "same_rooms sy sy'"
  shows "own_taste u (snd (scrobble_effects io p q sy st)) = own_taste u (snd (scrobble_effects io p q sy' st'))"
proof -
  note d = own_tasteD [OF own]
  have stamped: "fst (stamp ok (ts_events st) u s e (ts_listen st)) = fst (stamp ok (ts_events st') u s e (ts_listen st'))"
    "snd (stamp ok (ts_events st) u s e (ts_listen st)) u = snd (stamp ok (ts_events st') u s e (ts_listen st')) u" for ok s e
    using stamp_own [of "ts_listen st" u "ts_listen st'", OF d(2) d(1)] by blast+
  note room = active_session_rooms [OF rooms] now_playing_rooms [OF active_session_rooms(2) [OF rooms]]
  show ?thesis
    unfolding scrobble_effects_def own_taste_def Let_def case_prod_unfold assms(1)
    using d stamped room
    by (simp add: append_batch_own record_submission_own fold_affinity_own
        split: option.split)
qed

lemma taste_step_rooms: "same_rooms (fst (taste_step meta e s)) (fst s)"
  by (cases e; cases "snd e"; cases s) (simp_all add: same_rooms_def scrobble_rooms [unfolded same_rooms_def])

lemma taste_step_guest: "pr_role (requester (snd e)) = Guest \<Longrightarrow> taste_step meta e s = s"
  by (cases e; cases "snd e"; cases s)
     (simp_all add: events_submit_guest feedback_submit_guest scrobble_guest)

lemma taste_step_other:
  "\<not> acts_for u (snd e) \<Longrightarrow> own_taste u (snd (taste_step meta e s)) = own_taste u (snd s)"
  by (cases "pr_role (requester (snd e)) = Guest"; cases e; cases "snd e"; cases s)
     (simp_all add: taste_step_guest events_submit_guest feedback_submit_guest scrobble_guest acts_for_def
      events_submit_other feedback_submit_other scrobble_other)

lemma taste_step_same:
  assumes own: "own_taste u (snd s) = own_taste u (snd s')" and rooms: "same_rooms (fst s) (fst s')"
    and acts: "acts_for u (snd e)"
  shows "own_taste u (snd (taste_step meta e s)) = own_taste u (snd (taste_step meta e s'))"
proof -
  obtain io r sy st sy' st' where eq: "e = (io, r)" "s = (sy, st)" "s' = (sy', st')" by (metis surj_pair)
  have "pr_user_id (requester r) = u" using acts by (simp add: acts_for_def eq)
  with own rooms show ?thesis
    unfolding eq
    by (cases r) (simp_all add: events_submit_same [OF _ own [unfolded eq snd_conv]]
        feedback_submit_same [OF _ own [unfolded eq snd_conv]] scrobble_same)
qed


section \<open>Batches sent again\<close>

definition recorded :: "int \<Rightarrow> event_table \<Rightarrow> string set" where
  "recorded u t = {i. \<exists>r \<in> set t. er_user r = u \<and> er_client_id r = Some i}"

lemma insert_event_recorded:
  "recorded u t \<subseteq> recorded u (snd (insert_event v now ev cid t))"
  "cid = Some i \<Longrightarrow> i \<in> recorded v (snd (insert_event v now ev cid t))"
  by (auto simp: recorded_def insert_event_def)

lemma append_keyed_mono: "recorded u t \<subseteq> recorded u (snd (append_keyed v now evs t))"
proof (induction evs arbitrary: t)
  case (Cons e evs)
  from insert_event_recorded(1) [of u t v now "fst e" "snd e"] Cons.IH [of "snd (insert_event v now (fst e) (snd e) t)"]
  show ?case by (cases e) (simp add: case_prod_unfold Let_def)
qed simp

lemma append_keyed_recorded: "(ev, Some i) \<in> set evs \<Longrightarrow> i \<in> recorded v (snd (append_keyed v now evs t))"
proof (induction evs arbitrary: t)
  case (Cons e evs)
  let ?t = "snd (insert_event v now (fst e) (snd e) t)"
  have eq: "snd (append_keyed v now (e # evs) t) = snd (append_keyed v now evs ?t)"
    by (cases e) (simp add: case_prod_unfold Let_def)
  show ?case
  proof (cases "e = (ev, Some i)")
    case True
    then have "i \<in> recorded v ?t" by (simp add: insert_event_recorded(2))
    with append_keyed_mono [of v ?t v now evs] show ?thesis unfolding eq by blast
  next
    case False
    with Cons show ?thesis unfolding eq by auto
  qed
qed simp

lemma append_keyed_resent:
  assumes "\<forall>(ev, cid) \<in> set evs. \<exists>i \<in> recorded u t. cid = Some i"
  shows "append_keyed u now evs t = (replicate (length evs) False, t)"
  using assms
proof (induction evs)
  case (Cons e evs)
  obtain ev cid where e: "e = (ev, cid)" by fastforce
  with Cons.prems have "insert_event u now ev cid t = (False, t)"
    by (auto simp: insert_event_def recorded_def)
  with Cons show ?case by (simp add: e)
qed simp

lemma stamp_payloads_ids: "map snd (fst (stamp_payloads io t u ps ls)) = map ep_client_id ps"
  by (induction ps arbitrary: ls) (simp_all add: case_prod_unfold Let_def)

lemma append_batch_mono: "recorded u t \<subseteq> recorded u (snd (append_batch v now evs t))"
  by (simp add: append_batch_def case_prod_unfold Let_def append_keyed_mono)

lemma events_submit_mono: "recorded u (ts_events st) \<subseteq> recorded u (ts_events (snd (events_submit io meta p b st)))"
proof -
  have "recorded u (ts_events st) \<subseteq> recorded u (ts_events (events_effect io meta v ps st))" for v ps
    by (simp add: events_effect_def Let_def append_keyed_mono)
  then show ?thesis using events_submit_effect [of io meta p b] by (elim disjE exE) (simp_all only: subset_refl)
qed

lemma feedback_submit_events: "ts_events (snd (feedback_submit io p b st)) = ts_events st"
  by (simp add: feedback_submit_def Let_def case_prod_unfold split: option.split)

lemma scrobble_mono:
  "recorded u (ts_events st) \<subseteq> recorded u (ts_events (snd (scrobble_effects io p q sy st)))"
  by (simp add: append_batch_mono scrobble_effects_def Let_def case_prod_unfold split: option.split)

lemma taste_step_recorded:
  "recorded u (ts_events (snd s)) \<subseteq> recorded u (ts_events (snd (taste_step meta e s)))"
  by (cases e; cases "snd e"; cases s)
     (simp_all add: events_submit_mono feedback_submit_events scrobble_mono)

lemma taste_run_recorded:
  "recorded u (ts_events (snd s)) \<subseteq> recorded u (ts_events (snd (taste_run meta rs s)))"
proof (induction rs arbitrary: s)
  case (Cons e rs)
  from taste_step_recorded [of u s meta e] Cons.IH [of "taste_step meta e s"] show ?case
    by (simp add: taste_run_def)
qed (simp add: taste_run_def)

lemma fresh_none: "fresh_events keyed (replicate n False) = []"
  by (auto simp: fresh_events_def filter_empty_conv dest: set_zip_rightD)

text \<open>
  C23. A batch of events that all carry client ids counts once: when it has been accepted, and whatever is
  requested in between, sending it again is accepted with nothing new, and neither the event log nor the
  affinities change, even if the answer to the first attempt was lost.
\<close>

theorem resent_batches_count_once:
  assumes first: "fst (events_submit io meta p (Some ps) st) = Inr n" and acct: "pr_role p \<noteq> Guest"
    and ids: "\<forall>x \<in> set ps. ep_client_id x \<noteq> None" and ok: "ti_ok io' T_append" "ti_json_len io' = ti_json_len io"
    and later: "st' = snd (taste_run meta rs (sy, snd (events_submit io meta p (Some ps) st)))"
  shows "fst (events_submit io' meta p (Some ps) st') = Inr 0
    \<and> ts_events (snd (events_submit io' meta p (Some ps) st')) = ts_events st'
    \<and> ts_affinity (snd (events_submit io' meta p (Some ps) st')) = ts_affinity st'"
proof -
  let ?u = "pr_user_id p"
  let ?k = "fst (stamp_payloads io (ts_events st) ?u ps (ts_listen st))"
  let ?k' = "fst (stamp_payloads io' (ts_events st') ?u ps (ts_listen st'))"
  have same: "first_problem io' xs = first_problem io xs" for xs
    by (induction xs) (simp_all add: payload_problem_def ok(2) cong: option.case_cong)
  from first acct have ps: "ps \<noteq> []" "\<not> MAX_BATCH < length ps" "first_problem io ps = None" "ti_ok io T_append"
    by (auto simp: events_submit_def Let_def case_prod_unfold split: if_splits option.splits)
  then have evs: "ts_events (snd (events_submit io meta p (Some ps) st)) = snd (append_keyed ?u (ti_now io) ?k (ts_events st))"
    using acct by (simp add: events_submit_def Let_def case_prod_unfold)
  have "i \<in> recorded ?u (ts_events st')" if "x \<in> set ps" "ep_client_id x = Some i" for x i
  proof -
    from that have "Some i \<in> set (map snd ?k)" by (metis stamp_payloads_ids image_eqI list.set_map)
    then obtain ev where "(ev, Some i) \<in> set ?k" by auto
    then have "i \<in> recorded ?u (ts_events (snd (events_submit io meta p (Some ps) st)))"
      unfolding evs by (rule append_keyed_recorded)
    with taste_run_recorded [of ?u "(sy, snd (events_submit io meta p (Some ps) st))" meta rs]
    show ?thesis by (auto simp: later)
  qed
  moreover have "\<exists>x \<in> set ps. ep_client_id x = cid" if "(ev, cid) \<in> set ?k'" for ev cid
  proof -
    from that have "cid \<in> set (map snd ?k')" by force
    then show ?thesis unfolding stamp_payloads_ids by auto
  qed
  ultimately have "\<forall>(ev, cid) \<in> set ?k'. \<exists>i \<in> recorded ?u (ts_events st'). cid = Some i"
    using ids by fastforce
  from append_keyed_resent [OF this] show ?thesis
    using ps acct ok(1)
    by (simp add: events_submit_def Let_def case_prod_unfold same fresh_none fold_skip_affinity_def)
qed


text \<open>A vote belongs to the track and the session alone: another account's vote replaces it and is
  credited to the first.\<close>

lemma votes_ignore_the_account:
  "feedback_record 2 t s (- 1) o2 r2 (feedback_record 1 t s 1 o1 r1 []) =
     [\<lparr>fb_user = 1, fb_track = t, fb_session = s, fb_vote = - 1, fb_occurred_ms = o2, fb_received_ms = r2\<rparr>]"
  by (simp add: feedback_record_def)

definition demo_taste_io :: taste_io where
  "demo_taste_io =
     \<lparr>ti_now = 5, ti_ok = (\<lambda>_. True), ti_libm = \<lparr>lm_exp64 = id, lm_tanh32 = id, lm_ln32 = id, lm_ln2 = fp1\<rparr>,
      ti_half_life = 1, ti_json_len = (\<lambda>_. 0)\<rparr>"

definition demo_payload :: event_payload where
  "demo_payload =
     \<lparr>ep_type = Ev_Complete, ep_track = ''t'', ep_occurred_at = 4, ep_metadata = None, ep_session = None,
      ep_client_id = Some ''e1''\<rparr>"

definition demo_taste :: taste_state where
  "demo_taste = \<lparr>ts_events = [], ts_listen = Map.empty, ts_feedback = [], ts_history = [], ts_affinity = []\<rparr>"

lemma resent_batches_count_once_witness:
  "fst (events_submit demo_taste_io [] owner (Some [demo_payload]) demo_taste) = Inr 1
   \<and> fst (events_submit demo_taste_io [] owner (Some [demo_payload])
       (snd (taste_run [] [(demo_taste_io, Req_feedback owner None)]
         (new_store, snd (events_submit demo_taste_io [] owner (Some [demo_payload]) demo_taste))))) = Inr 0"
proof -
  have first: "fst (events_submit demo_taste_io [] owner (Some [demo_payload]) demo_taste) = Inr 1"
    by (simp add: events_submit_def demo_taste_io_def demo_payload_def demo_taste_def owner_def MAX_BATCH_def
        payload_problem_def MAX_EVENT_TYPE_LEN_def MAX_EVENT_TRACK_LEN_def MAX_CLIENT_EVENT_ID_LEN_def
        insert_event_def fresh_events_def Let_def case_prod_unfold)
  have "pr_role owner \<noteq> Guest" "\<forall>x \<in> set [demo_payload]. ep_client_id x \<noteq> None" "ti_ok demo_taste_io T_append"
    by (simp_all add: owner_def demo_payload_def demo_taste_io_def)
  from resent_batches_count_once [OF first this refl refl] first show ?thesis by blast
qed

end
