(* ===== verification/Recommend.thy ===== *)
theory Recommend
  imports Taste_Signals Ingest
begin

text \<open>
  The recommendation endpoints of the gateway (\<open>music-gateway/src/recommend.rs\<close>): \<open>next\<close>, \<open>station\<close>,
  \<open>enqueue\<close>, \<open>from_seeds\<close>, \<open>from_any\<close>, \<open>similar_albums\<close> and \<open>similar_artists\<close>, with everything between
  the request and the response: exclusions, preference bonuses, slate selection, leash, exploration and
  provenance.

  A handler takes the configuration, a \<open>rec_io\<close> (the clock, the random draws, the embedder, and which of
  the lookups succeed, each of which degrades on its own in the code), the principal, the request and
  the stores (\<open>rec_state\<close>), and returns its answer with the stores. A \<open>HashSet\<close> handed over as a vector is
  listed in ascending order; its order is not observable. The order in which a \<open>HashMap\<close> lists the
  groups of \<open>group_similar_by\<close> is \<open>ro_hash\<close>. What is only recorded for diagnostics (the tracing spans, the
  JSON of the parameters) is left out.
\<close>

section \<open>State, configuration and environment\<close>

record 'ix rec_state =
  rc_ann :: "'ix ann_index"
  rc_emb :: embedding_table
  rc_meta :: meta_table
  rc_ratings :: rating_table
  rc_feedback :: feedback_table
  rc_history :: history_table
  rc_affinity :: affinity_table
  rc_log :: rec_log

record rec_config =
  cf_model :: model_version
  cf_writes :: bool
  cf_like_bonus :: fp
  cf_album_bonus :: fp
  cf_artist_bonus :: fp
  cf_leash :: leash_params
  cf_played_ms :: "int option"
  cf_served_ms :: "int option"
  cf_provenance :: bool
  cf_temperature :: fp
  cf_preference :: "(fp \<times> int) option"

text \<open>The lookups that can fail, one constructor for each call site.\<close>

datatype lookup =
    L_disliked rated_kind
  | L_expand rated_kind
  | L_liked rated_kind
  | L_like_bonus
  | L_bonus_metadata
  | L_filter_metadata
  | L_group_metadata
  | L_affinity
  | L_downvoted
  | L_played
  | L_served
  | L_embedding track_id
  | L_enqueue string
  | L_record

record rec_io =
  ro_ok :: "lookup \<Rightarrow> bool"
  ro_now :: int
  ro_draw :: "nat \<Rightarrow> nat"
  ro_jitter :: "nat \<Rightarrow> fp"
  ro_libm :: libm
  ro_embedder :: "(string \<Rightarrow> unit + fvec) option"
  ro_ready :: bool
  ro_hash :: "(string \<times> fp \<times> track_id list) list \<Rightarrow> (string \<times> fp \<times> track_id list) list"

definition MAX_N :: nat where "MAX_N = 100"
definition MAX_SEEDS :: nat where "MAX_SEEDS = 200"
definition MAX_EXCLUDE :: nat where "MAX_EXCLUDE = 1000"
definition MAX_QUEUE :: nat where "MAX_QUEUE = 400"
definition MAX_ENQUEUE_IDS :: nat where "MAX_ENQUEUE_IDS = 1000"
definition DEFAULT_SAMPLE_SIZE :: nat where "DEFAULT_SAMPLE_SIZE = 8"
definition DEFAULT_PER_SEED_N :: nat where "DEFAULT_PER_SEED_N = 20"
definition DEFAULT_TOP_N :: nat where "DEFAULT_TOP_N = 20"
definition FILTER_BUFFER_FACTOR :: nat where "FILTER_BUFFER_FACTOR = 4"
definition MMR_POOL_BUFFER_FACTOR :: nat where "MMR_POOL_BUFFER_FACTOR = 2"
definition MAX_TEXT_LEN :: nat where "MAX_TEXT_LEN = 500"
definition DEFAULT_GROUPED_PER_SEED_N :: nat where "DEFAULT_GROUPED_PER_SEED_N = 50"

definition clamp_nat :: "nat \<Rightarrow> nat \<Rightarrow> nat \<Rightarrow> nat" where
  "clamp_nat x lo hi = min (max x lo) hi"

definition or_default :: "'a option \<Rightarrow> 'a \<Rightarrow> 'a" where
  "or_default x d = (case x of Some v \<Rightarrow> v | None \<Rightarrow> d)"

section \<open>Exclusions\<close>

definition set_list :: "'a :: linorder set \<Rightarrow> 'a list" where
  "set_list A = sorted_list_of_set A"

definition expand_disliked_parents :: "rec_io \<Rightarrow> int \<Rightarrow> rated_kind \<Rightarrow> 'ix rec_state \<Rightarrow> track_id set" where
  "expand_disliked_parents io user kind st =
     (if \<not> ro_ok io (L_disliked kind) then {}
      else let parents = set_list (disliked_ids user kind (rc_ratings st))
           in if parents = [] \<or> \<not> ro_ok io (L_expand kind) then {}
              else case kind of
                     RK_Album \<Rightarrow> track_ids_for_albums parents (rc_meta st)
                   | RK_Artist \<Rightarrow> track_ids_for_artists parents (rc_meta st)
                   | RK_Track \<Rightarrow> {})"

definition disliked_exclusions :: "rec_io \<Rightarrow> int \<Rightarrow> 'ix rec_state \<Rightarrow> track_id set" where
  "disliked_exclusions io user st =
     (if ro_ok io (L_disliked RK_Track) then TrackId ` disliked_ids user RK_Track (rc_ratings st) else {})
     \<union> expand_disliked_parents io user RK_Album st \<union> expand_disliked_parents io user RK_Artist st"

definition recency_exclusions :: "rec_config \<Rightarrow> rec_io \<Rightarrow> int \<Rightarrow> 'ix rec_state \<Rightarrow> track_id set" where
  "recency_exclusions cfg io user st =
     (case cf_played_ms cfg of
        None \<Rightarrow> {}
      | Some w \<Rightarrow> if ro_ok io L_played then set (played_since user (ro_now io - w) (rc_history st)) else {})
     \<union> (if \<not> cf_provenance cfg then {}
        else case cf_served_ms cfg of
               None \<Rightarrow> {}
             | Some w \<Rightarrow> if ro_ok io L_served then set (served_since user (ro_now io - w) (rc_log st)) else {})"

text \<open>The tracks voted down in the session of the request, if it names one.\<close>

definition session_downvotes :: "rec_io \<Rightarrow> string option \<Rightarrow> 'ix rec_state \<Rightarrow> track_id list" where
  "session_downvotes io session st =
     (case session of
        None \<Rightarrow> []
      | Some s \<Rightarrow> if s \<noteq> [] \<and> ro_ok io L_downvoted then downvoted_in_session s (rc_feedback st) else [])"

section \<open>Seeds\<close>

definition stored_vector :: "'ix usearch \<Rightarrow> 'ix rec_state \<Rightarrow> track_id \<Rightarrow> fvec option" where
  "stored_vector us st t = (case ann_get_vector us t (rc_ann st) of Inr v \<Rightarrow> v | Inl _ \<Rightarrow> None)"

definition lookup_seed_vector ::
  "'ix usearch \<Rightarrow> rec_config \<Rightarrow> rec_io \<Rightarrow> 'ix rec_state \<Rightarrow> track_id \<Rightarrow> fvec option" where
  "lookup_seed_vector us cfg io st seed =
     (let raw = (if \<not> ro_ok io (L_embedding seed) then None
                 else case emb_get \<lparr>ek_track = seed, ek_model = cf_model cfg\<rparr> (rc_emb st) of
                        Inr (Some e) \<Rightarrow> Some (map decode32 (em_vector e))
                      | _ \<Rightarrow> None)
      in if has_whitening (rc_ann st) then raw
         else case stored_vector us st seed of Some v \<Rightarrow> Some v | None \<Rightarrow> raw)"

section \<open>Preference bonuses\<close>

record rescore =
  rs_user :: int
  rs_like :: fp
  rs_albums :: "string set"
  rs_artists :: "string set"
  rs_album_bonus :: fp
  rs_artist_bonus :: fp
  rs_pref :: "(fp \<times> int) option"
  rs_scale :: fp

definition liked_set :: "rec_io \<Rightarrow> int \<Rightarrow> rated_kind \<Rightarrow> 'ix rec_state \<Rightarrow> string set" where
  "liked_set io user kind st =
     (if ro_ok io (L_liked kind) then set (liked_ids user kind (rc_ratings st)) else {})"

definition rescore_ctx :: "rec_config \<Rightarrow> rec_io \<Rightarrow> int \<Rightarrow> 'ix rec_state \<Rightarrow> rescore" where
  "rescore_ctx cfg io user st =
     \<lparr>rs_user = user, rs_like = cf_like_bonus cfg, rs_albums = liked_set io user RK_Album st,
      rs_artists = liked_set io user RK_Artist st, rs_album_bonus = cf_album_bonus cfg,
      rs_artist_bonus = cf_artist_bonus cfg, rs_pref = cf_preference cfg, rs_scale = fp1\<rparr>"

definition seed_weight_total :: "fp list \<Rightarrow> fp" where
  "seed_weight_total ws = fp_max (foldl add32 fp0 (filter is_finite ws)) fp1"

type_synonym bonuses = "(track_id \<times> fp) list"

definition credit :: "track_id \<Rightarrow> fp \<Rightarrow> bonuses \<Rightarrow> bonuses" where
  "credit i b out = AList.update i (add32 (or_default (map_of out i) fp0) b) out"

definition affinity_bonuses ::
  "rec_io \<Rightarrow> rescore \<Rightarrow> track_id list \<Rightarrow> 'ix rec_state \<Rightarrow> bonuses" where
  "affinity_bonuses io rs ids st =
     (let out1 = (if ro_ok io L_like_bonus
                  then fold (\<lambda>(i, b). credit i b) (liked_bonus_many (rs_user rs) ids (rs_like rs) (rc_ratings st)) []
                  else []);
          out2 = (if (rs_albums rs \<noteq> {} \<or> rs_artists rs \<noteq> {}) \<and> ro_ok io L_bonus_metadata
                  then fold (\<lambda>(i, m) out.
                         (let o1 = (case tm_album_id m of
                                      Some a \<Rightarrow> if a \<in> rs_albums rs then credit i (rs_album_bonus rs) out else out
                                    | None \<Rightarrow> out)
                          in case tm_artist_id m of
                               Some a \<Rightarrow> if a \<in> rs_artists rs then credit i (rs_artist_bonus rs) o1 else o1
                             | None \<Rightarrow> o1))
                       (meta_get_many ids (rc_meta st)) out1
                  else out1);
          out3 = (case rs_pref rs of
                    None \<Rightarrow> out2
                  | Some (weight, half_life) \<Rightarrow>
                      if ro_ok io L_affinity
                      then fold (\<lambda>(i, a). credit i (preference_bonus a weight))
                             (affinity_many (ro_libm io) (rs_user rs) ids (ro_now io) half_life (rc_affinity st)) out2
                      else out2)
      in if fp_eq (rs_scale rs) fp1 then out3 else map (\<lambda>(i, b). (i, mul32 b (rs_scale rs))) out3)"

definition bonus_of :: "bonuses \<Rightarrow> track_id \<Rightarrow> fp" where
  "bonus_of bonuses i = or_default (map_of bonuses i) fp0"

definition blended :: "'c candidate_like \<Rightarrow> bonuses \<Rightarrow> 'c \<Rightarrow> fp" where
  "blended cl bonuses c = add32 (cl_sim cl c) (bonus_of bonuses (cl_track cl c))"

definition by_blended :: "'c candidate_like \<Rightarrow> bonuses \<Rightarrow> 'c list \<Rightarrow> 'c list" where
  "by_blended cl bonuses cs = sort_by (\<lambda>a b. fp_cmp_or_eq (blended cl bonuses b) (blended cl bonuses a)) cs"

definition presort_by_preference :: "'c candidate_like \<Rightarrow> 'c list \<Rightarrow> bonuses \<Rightarrow> 'c list" where
  "presort_by_preference cl cs bonuses = (if bonuses = [] then cs else by_blended cl bonuses cs)"

definition ann_like :: "ann_hit candidate_like" where
  "ann_like = \<lparr>cl_track = ah_track, cl_sim = ah_similarity\<rparr>"

definition agg_like :: "aggregated candidate_like" where
  "agg_like = \<lparr>cl_track = ag_track, cl_sim = ag_score\<rparr>"

definition rescore_ann_by_preference :: "ann_hit list \<Rightarrow> bonuses \<Rightarrow> ann_hit list" where
  "rescore_ann_by_preference rs bonuses = by_blended ann_like bonuses rs"

section \<open>The slate\<close>

datatype diversity_mode_wire = Wire_HardCap | Wire_Mmr | Wire_Off

fun mode_of_wire :: "diversity_mode_wire \<Rightarrow> diversity_mode" where
  "mode_of_wire Wire_HardCap = HardCap"
| "mode_of_wire Wire_Mmr = Mmr"
| "mode_of_wire Wire_Off = Off"

record queue_context =
  qx_queue :: "string list"
  qx_playing :: "string option"
  qx_max_per_artist :: "nat option"
  qx_dedup :: "bool option"
  qx_mode :: "diversity_mode_wire option"
  qx_lambda :: "fp option"
  qx_penalty :: "fp option"

definition qx_config :: "queue_context \<Rightarrow> queue_filter_config" where
  "qx_config qc =
     \<lparr>qc_mode = (case qx_mode qc of Some m \<Rightarrow> mode_of_wire m | None \<Rightarrow> qc_mode default_config),
      qc_lambda = or_default (qx_lambda qc) (qc_lambda default_config),
      qc_penalty = or_default (qx_penalty qc) (qc_penalty default_config),
      qc_max_per_artist = or_default (qx_max_per_artist qc) (qc_max_per_artist default_config),
      qc_dedup = or_default (qx_dedup qc) (qc_dedup default_config)\<rparr>"

definition filter_metadata :: "rec_io \<Rightarrow> 'ix rec_state \<Rightarrow> queue_context \<Rightarrow> track_id list \<Rightarrow> metadata_map" where
  "filter_metadata io st qc ids =
     (if ro_ok io L_filter_metadata then map_of (meta_get_many (map TrackId (qx_queue qc) @ ids) (rc_meta st))
      else Map.empty)"

definition build_filter_with_metadata ::
  "rec_io \<Rightarrow> 'ix rec_state \<Rightarrow> queue_context \<Rightarrow> track_id list \<Rightarrow> queue_filter \<times> metadata_map" where
  "build_filter_with_metadata io st qc ids =
     (let meta = filter_metadata io st qc ids
      in (build_filter (map TrackId (qx_queue qc)) (map_option TrackId (qx_playing qc)) meta (qx_config qc), meta))"

definition mmr_inputs ::
  "'ix usearch \<Rightarrow> 'ix rec_state \<Rightarrow> 'c candidate_like \<Rightarrow> metadata_map \<Rightarrow> bonuses \<Rightarrow> 'c list \<Rightarrow> mmr_candidate list" where
  "mmr_inputs us st cl meta bonuses cs =
     map (\<lambda>c. \<lparr>mc_track = cl_track cl c, mc_sim = cl_sim cl c, mc_vector = stored_vector us st (cl_track cl c),
               mc_artist = map_option artist_key (meta (cl_track cl c)), mc_bonus = bonus_of bonuses (cl_track cl c)\<rparr>) cs"

text \<open>The final loop does not ask \<open>is_excluded\<close> again; no surviving candidate is.\<close>

definition walk_mmr ::
  "'ix usearch \<Rightarrow> 'ix rec_state \<Rightarrow> 'c candidate_like \<Rightarrow> 'c list \<Rightarrow> metadata_map \<Rightarrow> queue_filter \<Rightarrow> fp \<Rightarrow> fp
    \<Rightarrow> nat \<Rightarrow> bonuses \<Rightarrow> 'c list \<times> filter_stats" where
  "walk_mmr us st cl cs meta f lam penalty top_n bonuses =
     (let surviving = filter (\<lambda>c. \<not> is_excluded f (cl_track cl c)) cs;
          order = mmr_rerank (mmr_inputs us st cl meta bonuses surviving) lam
                    (top_n * MMR_POOL_BUFFER_FACTOR) penalty (qf_counts f)
      in walk cl meta top_n (map (\<lambda>i. surviving ! i) order) f [] no_stats)"

definition apply_queue_filter ::
  "'ix usearch \<Rightarrow> rec_io \<Rightarrow> rescore \<Rightarrow> 'ix rec_state \<Rightarrow> queue_context \<Rightarrow> 'c candidate_like \<Rightarrow> 'c list
    \<Rightarrow> nat \<Rightarrow> 'c list \<times> filter_stats" where
  "apply_queue_filter us io rs st qc cl cs top_n =
     (let ids = map (cl_track cl) cs;
          (f, meta) = build_filter_with_metadata io st qc ids;
          cfg = qx_config qc
      in case qc_mode cfg of
           HardCap \<Rightarrow>
             walk_hard_cap cl (presort_by_preference cl cs (affinity_bonuses io rs ids st)) meta f top_n
         | Mmr \<Rightarrow>
             walk_mmr us st cl cs meta f (qc_lambda cfg) (qc_penalty cfg) top_n (affinity_bonuses io rs ids st)
         | Off \<Rightarrow> walk_off cl cs f top_n)"

definition select_slate ::
  "'ix usearch \<Rightarrow> rec_io \<Rightarrow> rescore \<Rightarrow> 'ix rec_state \<Rightarrow> queue_context option \<Rightarrow> 'c candidate_like \<Rightarrow> 'c list
    \<Rightarrow> nat \<Rightarrow> 'c list \<times> filter_stats" where
  "select_slate us io rs st qc cl cs top_n =
     (case qc of Some q \<Rightarrow> apply_queue_filter us io rs st q cl cs top_n | None \<Rightarrow> (cs, no_stats))"

section \<open>Leash and exploration of the aggregated candidates\<close>

definition apply_anchor_leash ::
  "'ix usearch \<Rightarrow> 'ix rec_state \<Rightarrow> string list \<Rightarrow> leash_params \<Rightarrow> aggregated list \<Rightarrow> aggregated list" where
  "apply_anchor_leash us st anchors p as =
     (if anchors = [] \<or> \<not> leash_active p \<or> as = [] then as
      else let vecs = List.map_filter (\<lambda>i. stored_vector us st (TrackId i)) (rev (remdups (rev anchors)))
           in if vecs = [] then as
              else let (adj, _) = leash_apply (map (\<lambda>a. (ag_track a, stored_vector us st (ag_track a))) as) vecs p
                   in sort_by agg_cmp
                        (map (\<lambda>(a, d). a\<lparr>ag_score := sub32 (ag_score a) (la_penalty d)\<rparr>) (zip as adj)))"

definition apply_exploration :: "rec_io \<Rightarrow> fp \<Rightarrow> aggregated list \<Rightarrow> aggregated list" where
  "apply_exploration io temperature as =
     (if fp_le temperature fp0 \<or> length as < 2 then as
      else sort_by agg_cmp
             (map (\<lambda>(a, s). a\<lparr>ag_score := s\<rparr>)
               (zip as (perturb_scores (ro_libm io) (ro_jitter io) temperature (map ag_score as)))))"

section \<open>Requests and responses\<close>

type_synonym 'a answer = "(status \<times> string) + 'a"

record recommend_item =
  it_track :: string
  it_similarity :: fp

record next_response =
  nx_seed :: string
  nx_model :: model_version
  nx_results :: "recommend_item list"

record station_response =
  sn_query :: string
  sn_model :: model_version
  sn_results :: "recommend_item list"

record from_seeds_request =
  fq_seeds :: "string list"
  fq_weights :: "fp list option"
  fq_per_seed_n :: "nat option"
  fq_sample_size :: "nat option"
  fq_top_n :: "nat option"
  fq_exclude :: "string list"
  fq_queue :: "queue_context option"
  fq_session :: "string option"
  fq_anchors :: "string list"
  fq_tau :: "fp option"
  fq_lambda :: "fp option"

record from_seeds_response =
  sr_model :: model_version
  sr_results :: "recommend_item list"
  sr_all_unindexed :: bool

record from_any_request =
  aq_candidates :: "string list"
  aq_n :: nat
  aq_queue :: "queue_context option"
  aq_session :: "string option"

record from_any_response =
  ar_seed_used :: string
  ar_model :: model_version
  ar_results :: "recommend_item list"

definition ann_item :: "ann_hit \<Rightarrow> recommend_item" where
  "ann_item h = \<lparr>it_track = track_str (ah_track h), it_similarity = ah_similarity h\<rparr>"

definition agg_item :: "aggregated \<Rightarrow> recommend_item" where
  "agg_item a = \<lparr>it_track = track_str (ag_track a), it_similarity = ag_score a\<rparr>"

definition log_item :: "string \<Rightarrow> fp \<Rightarrow> rec_item" where
  "log_item i score = \<lparr>ri_entity = i, ri_score = Some score, ri_outcome = None\<rparr>"

definition record_provenance ::
  "rec_config \<Rightarrow> rec_io \<Rightarrow> int \<Rightarrow> rec_kind \<Rightarrow> string option \<Rightarrow> string list option \<Rightarrow> string option \<Rightarrow> bool
    \<Rightarrow> rec_item list \<Rightarrow> 'ix rec_state \<Rightarrow> 'ix rec_state" where
  "record_provenance cfg io user kind session seeds txt degraded served st =
     (if cf_provenance cfg \<and> ro_ok io L_record
      then st\<lparr>rc_log := snd (log_record user (ro_now io)
             \<lparr>rr_kind = kind, rr_session = session, rr_model = cf_model cfg, rr_seeds = seeds,
              rr_text = txt, rr_degraded = degraded, rr_items = served\<rparr> (rc_log st))\<rparr>
      else st)"

abbreviation bad_request :: "string \<Rightarrow> 'a answer" where
  "bad_request msg \<equiv> Inl (S_BAD_REQUEST, msg)"

abbreviation ann_failed :: "'a answer" where
  "ann_failed \<equiv> Inl (S_INTERNAL_SERVER_ERROR, ''ann query failed'')"

section \<open>next, station and enqueue\<close>

definition recommend_next ::
  "'ix usearch \<Rightarrow> rec_config \<Rightarrow> rec_io \<Rightarrow> principal \<Rightarrow> string \<Rightarrow> nat \<Rightarrow> 'ix rec_state
    \<Rightarrow> next_response answer \<times> 'ix rec_state" where
  "recommend_next us cfg io p seed n0 st =
     (if n0 = 0 then (bad_request ''n must be >= 1'', st)
      else let room = room_id p; n = min n0 MAX_N; sid = TrackId seed
           in case lookup_seed_vector us cfg io st sid of
                None \<Rightarrow> (Inl (S_NOT_FOUND, ''seed not embedded''), st)
              | Some v \<Rightarrow>
                  let rs = rescore_ctx cfg io room st;
                      exclude = sid # set_list (disliked_exclusions io room st)
                  in case query_excluding us v (n * MMR_POOL_BUFFER_FACTOR) exclude (rc_ann st) of
                       Inl _ \<Rightarrow> (ann_failed, st)
                     | Inr hits \<Rightarrow>
                         let bonuses = affinity_bonuses io rs (map ah_track hits) st;
                             results = take n (rescore_ann_by_preference hits bonuses)
                         in (Inr \<lparr>nx_seed = seed, nx_model = cf_model cfg, nx_results = map ann_item results\<rparr>,
                             record_provenance cfg io room Rec_Next None (Some [seed]) None False
                               (map (\<lambda>h. log_item (track_str (ah_track h)) (blended ann_like bonuses h)) results) st))"

definition station ::
  "'ix usearch \<Rightarrow> rec_config \<Rightarrow> rec_io \<Rightarrow> principal \<Rightarrow> string \<Rightarrow> nat \<Rightarrow> 'ix rec_state
    \<Rightarrow> station_response answer \<times> 'ix rec_state" where
  "station us cfg io p txt n0 st =
     (let room = room_id p; trimmed = trim txt
      in if trimmed = [] then (bad_request ''text must not be empty'', st)
         else if MAX_TEXT_LEN < length trimmed then (bad_request ''text too long'', st)
         else if n0 = 0 then (bad_request ''n must be >= 1'', st)
         else case ro_embedder io of
           None \<Rightarrow> (Inl (S_SERVICE_UNAVAILABLE, ''embedder not configured''), st)
         | Some embed_text \<Rightarrow>
             if \<not> ro_ready io then (Inl (S_SERVICE_UNAVAILABLE, ''embedder not ready''), st)
             else case embed_text trimmed of
               Inl _ \<Rightarrow> (Inl (S_BAD_GATEWAY, ''embedder error''), st)
             | Inr v \<Rightarrow>
                 (case query_text us v (min n0 MAX_N) (set_list (disliked_exclusions io room st)) (rc_ann st) of
                    Inl _ \<Rightarrow> (ann_failed, st)
                  | Inr results \<Rightarrow>
                      (Inr \<lparr>sn_query = trimmed, sn_model = cf_model cfg, sn_results = map ann_item results\<rparr>,
                       record_provenance cfg io room Rec_Station None None (Some trimmed) False
                         (map (\<lambda>h. log_item (track_str (ah_track h)) (ah_similarity h)) results) st)))"

definition enqueue_tracks ::
  "rec_config \<Rightarrow> rec_io \<Rightarrow> string list option \<Rightarrow> 'ix rec_state \<Rightarrow> nat answer \<times> 'ix rec_state" where
  "enqueue_tracks cfg io payload st =
     (case payload of
        None \<Rightarrow> (bad_request ''invalid JSON body'', st)
      | Some ids \<Rightarrow>
          if MAX_ENQUEUE_IDS < length ids then (bad_request ''too many track_ids'', st)
          else if \<not> cf_writes cfg
          then (Inl (S_SERVICE_UNAVAILABLE,
                 ''embedder unreachable at boot; model_version unknown -- retry once it is up''), st)
          else let accepted = filter (\<lambda>i. ro_ok io (L_enqueue i)) (set_list (set ids))
               in (Inr (length accepted),
                   st\<lparr>rc_emb := fold (\<lambda>i. enqueue \<lparr>ek_track = TrackId i, ek_model = cf_model cfg\<rparr> (ro_now io))
                                 accepted (rc_emb st)\<rparr>))"

section \<open>from_seeds\<close>

definition queue_excludes :: "queue_context option \<Rightarrow> track_id list" where
  "queue_excludes qc =
     (case qc of None \<Rightarrow> [] | Some q \<Rightarrow> map TrackId (filter (\<lambda>i. Some i \<noteq> qx_playing q) (qx_queue q)))"

definition queue_too_long :: "queue_context option \<Rightarrow> bool" where
  "queue_too_long qc \<longleftrightarrow> (case qc of None \<Rightarrow> False | Some q \<Rightarrow> MAX_QUEUE < length (qx_queue q))"

definition from_seeds_exclusions ::
  "rec_config \<Rightarrow> rec_io \<Rightarrow> int \<Rightarrow> from_seeds_request \<Rightarrow> 'ix rec_state \<Rightarrow> track_id set" where
  "from_seeds_exclusions cfg io room req st =
     TrackId ` set (fq_seeds req) \<union> TrackId ` set (fq_exclude req) \<union> set (queue_excludes (fq_queue req))
     \<union> set (session_downvotes io (fq_session req) st) \<union> disliked_exclusions io room st
     \<union> recency_exclusions cfg io room st"

text \<open>The neighbours of each seed with a vector, and the weights that go with them.\<close>

fun fan_out ::
  "'ix usearch \<Rightarrow> rec_config \<Rightarrow> rec_io \<Rightarrow> 'ix rec_state \<Rightarrow> nat \<Rightarrow> (string \<times> fp) list
    \<Rightarrow> unit + nat \<times> ann_hit list list \<times> fp list" where
  "fan_out us cfg io st per_seed_n [] = Inr (0, [], [])"
| "fan_out us cfg io st per_seed_n ((seed, w) # rest) =
     (case lookup_seed_vector us cfg io st (TrackId seed) of
        None \<Rightarrow> fan_out us cfg io st per_seed_n rest
      | Some v \<Rightarrow>
          (case ann_query us v per_seed_n (rc_ann st) of
             Inl _ \<Rightarrow> Inl ()
           | Inr hits \<Rightarrow>
               (case fan_out us cfg io st per_seed_n rest of
                  Inl e \<Rightarrow> Inl e
                | Inr (k, per, ws) \<Rightarrow> Inr (Suc k, hits # per, w # ws))))"

definition from_seeds_guard :: "from_seeds_request \<Rightarrow> string option" where
  "from_seeds_guard req =
     (if fq_seeds req = [] then Some ''seeds must not be empty''
      else if MAX_SEEDS < length (fq_seeds req) then Some ''too many seeds''
      else if (case fq_weights req of None \<Rightarrow> False | Some w \<Rightarrow> length w \<noteq> length (fq_seeds req))
      then Some ''seed_weights length must match seeds length''
      else if MAX_EXCLUDE < length (fq_exclude req) then Some ''too many exclude_track_ids''
      else if MAX_SEEDS < length (fq_anchors req) then Some ''too many anchor_track_ids''
      else if queue_too_long (fq_queue req) then Some ''too many queue_track_ids''
      else None)"

definition sampled_seeds :: "rec_io \<Rightarrow> from_seeds_request \<Rightarrow> (string \<times> fp) list" where
  "sampled_seeds io req =
     (let sample_size = clamp_nat (or_default (fq_sample_size req) DEFAULT_SAMPLE_SIZE) 1 (length (fq_seeds req))
      in map (\<lambda>i. (fq_seeds req ! i, case fq_weights req of Some w \<Rightarrow> w ! i | None \<Rightarrow> fp1))
           (sample_indices (ro_draw io) (length (fq_seeds req)) sample_size))"

definition wanted :: "from_seeds_request \<Rightarrow> nat" where
  "wanted req = clamp_nat (or_default (fq_top_n req) DEFAULT_TOP_N) 1 MAX_N"

definition over_fetch :: "queue_context option \<Rightarrow> nat \<Rightarrow> nat" where
  "over_fetch qc n = (if qc = None then n else min (n * FILTER_BUFFER_FACTOR) MAX_N)"

definition request_leash :: "rec_config \<Rightarrow> from_seeds_request \<Rightarrow> leash_params" where
  "request_leash cfg req =
     \<lparr>lp_tau = or_default (fq_tau req) (lp_tau (cf_leash cfg)),
      lp_lambda = or_default (fq_lambda req) (lp_lambda (cf_leash cfg))\<rparr>"

definition from_seeds_pool ::
  "'ix usearch \<Rightarrow> rec_config \<Rightarrow> rec_io \<Rightarrow> int \<Rightarrow> from_seeds_request \<Rightarrow> 'ix rec_state
    \<Rightarrow> ann_hit list list \<Rightarrow> fp list \<Rightarrow> aggregated list" where
  "from_seeds_pool us cfg io room req st per ws =
     apply_exploration io (cf_temperature cfg)
       (apply_anchor_leash us st (fq_anchors req) (request_leash cfg req)
         (aggregate_weighted per ws (from_seeds_exclusions cfg io room req st)
           (over_fetch (fq_queue req) (wanted req))))"

definition from_seeds ::
  "'ix usearch \<Rightarrow> rec_config \<Rightarrow> rec_io \<Rightarrow> principal \<Rightarrow> from_seeds_request option \<Rightarrow> 'ix rec_state
    \<Rightarrow> from_seeds_response answer \<times> 'ix rec_state" where
  "from_seeds us cfg io p payload st =
     (case payload of
        None \<Rightarrow> (bad_request ''invalid JSON body'', st)
      | Some req \<Rightarrow>
          let room = room_id p
          in case from_seeds_guard req of
               Some msg \<Rightarrow> (bad_request msg, st)
             | None \<Rightarrow>
                 let per_seed_n = clamp_nat (or_default (fq_per_seed_n req) DEFAULT_PER_SEED_N) 1 MAX_N
                 in case fan_out us cfg io st per_seed_n (sampled_seeds io req) of
                      Inl _ \<Rightarrow> (ann_failed, st)
                    | Inr (indexed, per, ws) \<Rightarrow>
                        let rs = (rescore_ctx cfg io room st)\<lparr>rs_scale := seed_weight_total ws\<rparr>;
                            pool = from_seeds_pool us cfg io room req st per ws;
                            (filtered, _) = select_slate us io rs st (fq_queue req) agg_like pool (wanted req)
                        in (Inr \<lparr>sr_model = cf_model cfg, sr_results = map agg_item filtered,
                                 sr_all_unindexed = (indexed = 0)\<rparr>,
                            record_provenance cfg io room Rec_FromSeeds (fq_session req) (Some (fq_seeds req))
                              None (indexed = 0)
                              (map (\<lambda>a. log_item (track_str (ag_track a)) (ag_score a)) filtered) st))"

section \<open>from_any\<close>

definition from_any_guard :: "from_any_request \<Rightarrow> string option" where
  "from_any_guard req =
     (if aq_candidates req = [] then Some ''candidate_seeds must not be empty''
      else if MAX_SEEDS < length (aq_candidates req) then Some ''too many candidate_seeds''
      else if aq_n req = 0 then Some ''n must be >= 1''
      else if queue_too_long (aq_queue req) then Some ''too many queue_track_ids''
      else None)"

definition from_any_excludes :: "rec_io \<Rightarrow> int \<Rightarrow> from_any_request \<Rightarrow> 'ix rec_state \<Rightarrow> track_id list" where
  "from_any_excludes io room req st =
     queue_excludes (aq_queue req) @ session_downvotes io (aq_session req) st
     @ set_list (disliked_exclusions io room st)"

text \<open>The loop over the candidates, which ends at the first that has a vector.\<close>

fun try_candidates ::
  "'ix usearch \<Rightarrow> rec_config \<Rightarrow> rec_io \<Rightarrow> int \<Rightarrow> from_any_request \<Rightarrow> string list \<Rightarrow> 'ix rec_state
    \<Rightarrow> from_any_response answer \<times> 'ix rec_state" where
  "try_candidates us cfg io room req [] st = (Inl (S_NOT_FOUND, ''no candidate seed is indexed''), st)"
| "try_candidates us cfg io room req (cand # rest) st =
     (case lookup_seed_vector us cfg io st (TrackId cand) of
        None \<Rightarrow> try_candidates us cfg io room req rest st
      | Some v \<Rightarrow>
          let n = min (aq_n req) MAX_N
          in case query_excluding us v (over_fetch (aq_queue req) n)
                    (TrackId cand # from_any_excludes io room req st) (rc_ann st) of
               Inl _ \<Rightarrow> (ann_failed, st)
             | Inr results \<Rightarrow>
                 let (filtered, _) = select_slate us io (rescore_ctx cfg io room st) st (aq_queue req) ann_like results n
                 in (Inr \<lparr>ar_seed_used = cand, ar_model = cf_model cfg, ar_results = map ann_item filtered\<rparr>,
                     record_provenance cfg io room Rec_FromAny (aq_session req) (Some (aq_candidates req)) None False
                       (map (\<lambda>h. log_item (track_str (ah_track h)) (ah_similarity h)) filtered) st))"

definition from_any ::
  "'ix usearch \<Rightarrow> rec_config \<Rightarrow> rec_io \<Rightarrow> principal \<Rightarrow> from_any_request option \<Rightarrow> 'ix rec_state
    \<Rightarrow> from_any_response answer \<times> 'ix rec_state" where
  "from_any us cfg io p payload st =
     (case payload of
        None \<Rightarrow> (bad_request ''invalid JSON body'', st)
      | Some req \<Rightarrow>
          (case from_any_guard req of
             Some msg \<Rightarrow> (bad_request msg, st)
           | None \<Rightarrow> try_candidates us cfg io (room_id p) req (aq_candidates req) st))"

section \<open>similar_albums and similar_artists\<close>

datatype group_by = By_Album | By_Artist

record similar_request =
  sq_seeds :: "string list"
  sq_exclude :: "string list"
  sq_n :: nat
  sq_per_seed_n :: "nat option"
  sq_sample_size :: "nat option"

record grouped =
  gr_key :: string
  gr_score :: fp
  gr_supporting :: nat

record similar_response =
  sm_model :: model_version
  sm_results :: "grouped list"
  sm_all_unindexed :: bool

fun fan_out_excluding ::
  "'ix usearch \<Rightarrow> rec_config \<Rightarrow> rec_io \<Rightarrow> 'ix rec_state \<Rightarrow> nat \<Rightarrow> track_id list \<Rightarrow> string list
    \<Rightarrow> unit + nat \<times> ann_hit list" where
  "fan_out_excluding us cfg io st per_seed_n exclude [] = Inr (0, [])"
| "fan_out_excluding us cfg io st per_seed_n exclude (seed # rest) =
     (case lookup_seed_vector us cfg io st (TrackId seed) of
        None \<Rightarrow> fan_out_excluding us cfg io st per_seed_n exclude rest
      | Some v \<Rightarrow>
          (case query_excluding us v per_seed_n exclude (rc_ann st) of
             Inl _ \<Rightarrow> Inl ()
           | Inr hits \<Rightarrow>
               (case fan_out_excluding us cfg io st per_seed_n exclude rest of
                  Inl e \<Rightarrow> Inl e
                | Inr (k, all) \<Rightarrow> Inr (Suc k, hits @ all))))"

definition group_key :: "group_by \<Rightarrow> track_metadata \<Rightarrow> string option" where
  "group_key g m = (case g of By_Album \<Rightarrow> tm_album_id m | By_Artist \<Rightarrow> tm_artist_id m)"

fun add_to_group ::
  "string \<Rightarrow> ann_hit \<Rightarrow> (string \<times> fp \<times> track_id list) list \<Rightarrow> (string \<times> fp \<times> track_id list) list" where
  "add_to_group k h [] = [(k, add32 fp0 (ah_similarity h), [ah_track h])]"
| "add_to_group k h ((j, score, ts) # gs) =
     (if j = k then (j, add32 score (ah_similarity h), List.insert (ah_track h) ts) # gs
      else (j, score, ts) # add_to_group k h gs)"

definition group_hits ::
  "group_by \<Rightarrow> metadata_map \<Rightarrow> string list \<Rightarrow> ann_hit list \<Rightarrow> (string \<times> fp \<times> track_id list) list" where
  "group_hits g meta exclude hits =
     fold (\<lambda>h gs. case meta (ah_track h) of
             None \<Rightarrow> gs
           | Some m \<Rightarrow> (case group_key g m of
                         None \<Rightarrow> gs
                       | Some k \<Rightarrow> if k \<in> set exclude then gs else add_to_group k h gs))
       hits []"

definition rank_groups :: "nat \<Rightarrow> (string \<times> fp \<times> track_id list) list \<Rightarrow> grouped list" where
  "rank_groups n groups =
     take n (sort_by (\<lambda>a b. fp_cmp_or_eq (gr_score b) (gr_score a))
       (map (\<lambda>(k, score, ts). \<lparr>gr_key = k, gr_score = score, gr_supporting = length ts\<rparr>) groups))"

definition group_similar_by ::
  "'ix usearch \<Rightarrow> rec_config \<Rightarrow> rec_io \<Rightarrow> int \<Rightarrow> similar_request \<Rightarrow> group_by \<Rightarrow> 'ix rec_state
    \<Rightarrow> (grouped list \<times> bool) answer \<times> 'ix rec_state" where
  "group_similar_by us cfg io user req g st =
     (if sq_seeds req = [] then (bad_request ''seed_track_ids must not be empty'', st)
      else if MAX_SEEDS < length (sq_seeds req) then (bad_request ''too many seed_track_ids'', st)
      else if sq_n req = 0 then (bad_request ''n must be >= 1'', st)
      else let n = min (sq_n req) MAX_N;
               per_seed_n = clamp_nat (or_default (sq_per_seed_n req) DEFAULT_GROUPED_PER_SEED_N) 1 MAX_N;
               sample_size = clamp_nat (or_default (sq_sample_size req) DEFAULT_SAMPLE_SIZE) 1 (length (sq_seeds req));
               sampled = map (\<lambda>i. sq_seeds req ! i)
                           (sample_indices (ro_draw io) (length (sq_seeds req)) sample_size);
               exclude = map TrackId (sq_seeds req) @ set_list (disliked_exclusions io user st);
               kind = (case g of By_Album \<Rightarrow> Rec_SimilarAlbums | By_Artist \<Rightarrow> Rec_SimilarArtists)
           in case fan_out_excluding us cfg io st per_seed_n exclude sampled of
                Inl _ \<Rightarrow> (ann_failed, st)
              | Inr (indexed, hits) \<Rightarrow>
                  if indexed = 0
                  then (Inr ([], True),
                        record_provenance cfg io user kind None (Some (sq_seeds req)) None True [] st)
                  else let meta = (if ro_ok io L_group_metadata
                                   then map_of (meta_get_many (map ah_track hits) (rc_meta st)) else Map.empty);
                           groups = ro_hash io (group_hits g meta (sq_exclude req) hits);
                           results = rank_groups n groups
                       in (Inr (results, False),
                           record_provenance cfg io user kind None (Some (sq_seeds req)) None False
                             (map (\<lambda>r. log_item (gr_key r) (gr_score r)) results) st))"

definition similar ::
  "'ix usearch \<Rightarrow> rec_config \<Rightarrow> rec_io \<Rightarrow> principal \<Rightarrow> similar_request option \<Rightarrow> group_by \<Rightarrow> 'ix rec_state
    \<Rightarrow> similar_response answer \<times> 'ix rec_state" where
  "similar us cfg io p payload g st =
     (case payload of
        None \<Rightarrow> (bad_request ''invalid JSON body'', st)
      | Some req \<Rightarrow>
          (case group_similar_by us cfg io (room_id p) req g st of
             (Inl e, st') \<Rightarrow> (Inl e, st')
           | (Inr (groups, unindexed), st') \<Rightarrow>
               (Inr \<lparr>sm_model = cf_model cfg, sm_results = groups, sm_all_unindexed = unindexed\<rparr>, st')))"

definition similar_albums ::
  "'ix usearch \<Rightarrow> rec_config \<Rightarrow> rec_io \<Rightarrow> principal \<Rightarrow> similar_request option \<Rightarrow> 'ix rec_state
    \<Rightarrow> similar_response answer \<times> 'ix rec_state" where
  "similar_albums us cfg io p payload st = similar us cfg io p payload By_Album st"

definition similar_artists ::
  "'ix usearch \<Rightarrow> rec_config \<Rightarrow> rec_io \<Rightarrow> principal \<Rightarrow> similar_request option \<Rightarrow> 'ix rec_state
    \<Rightarrow> similar_response answer \<times> 'ix rec_state" where
  "similar_artists us cfg io p payload st = similar us cfg io p payload By_Artist st"

end
