(* ===== verification/Recommend_Laws.thy ===== *)
theory Recommend_Laws
  imports Recommend
begin

text \<open>
  What the recommendation endpoints promise: disliked tracks are never served, \<open>from_seeds\<close> serves
  nothing the request, the session or the recency windows rule out, a slate keeps the limits of the
  queue it continues, and a lookup that fails costs a bonus or an exclusion but never the answer.
\<close>

section \<open>Slates\<close>

lemma subseq_distinct: "subseq xs ys \<Longrightarrow> distinct (map f ys) \<Longrightarrow> distinct (map f xs)"
proof (induction rule: list_emb.induct)
  case (list_emb_Cons2 x y xs ys)
  then have "set xs \<subseteq> set ys" by (auto elim: list_emb_set)
  with list_emb_Cons2 show ?case by auto
qed auto

lemma walk_off_from_eq:
  "length out \<le> n \<Longrightarrow> fst (walk_off_from cl f n cs out s) =
     out @ take (n - length out) (filter (\<lambda>c. cl_track cl c \<notin> qf_excluded f) cs)"
proof (induction cs arbitrary: out s)
  case (Cons c cs)
  show ?case
  proof (cases "n \<le> length out \<or> cl_track cl c \<in> qf_excluded f")
    case True
    with Cons show ?thesis by (auto simp: is_excluded_def)
  next
    case False
    then have "n - length out = Suc (n - Suc (length out))" by (simp add: Suc_diff_Suc)
    with False Cons.IH [of "out @ [c]"] show ?thesis by (simp add: is_excluded_def)
  qed
qed simp

lemma walk_off_eq: "fst (walk_off cl cs f n) = take n (filter (\<lambda>c. cl_track cl c \<notin> qf_excluded f) cs)"
  by (simp add: walk_off_def walk_off_from_eq)

text \<open>What any diversity mode guarantees of a slate over candidates \<open>cs\<close>.\<close>

definition slate_from :: "'c candidate_like \<Rightarrow> 'c list \<Rightarrow> nat \<Rightarrow> 'c list \<Rightarrow> bool" where
  "slate_from cl cs n out \<longleftrightarrow> set out \<subseteq> set cs \<and> length out \<le> n
     \<and> (distinct (map (cl_track cl) cs) \<longrightarrow> distinct (map (cl_track cl) out))"

lemma by_blended_list: "mset (by_blended cl b cs) = mset cs"
  by (simp add: by_blended_def mset_sort_by)

lemma presort_list: "mset (presort_by_preference cl cs b) = mset cs"
  by (simp add: presort_by_preference_def by_blended_list)

lemma set_presort [simp]: "set (presort_by_preference cl cs b) = set cs"
  by (metis presort_list set_mset_mset)

lemma distinct_presort: "distinct (map f (presort_by_preference cl cs b)) = distinct (map f cs)"
  by (rule mset_eq_imp_distinct_iff) (simp add: presort_list)

lemma mmr_pool_list:
  fixes surviving
  assumes "distinct order" "set order \<subseteq> {..<length surviving}"
  shows "set (map ((!) surviving) order) \<subseteq> set surviving"
    and "distinct (map f surviving) \<Longrightarrow> distinct (map f (map ((!) surviving) order))"
proof -
  show "set (map ((!) surviving) order) \<subseteq> set surviving" using assms(2) by (auto simp: subset_iff)
  assume d: "distinct (map f surviving)"
  have "inj_on (\<lambda>i. f (surviving ! i)) (set order)"
  proof (rule inj_onI)
    fix i j assume "i \<in> set order" "j \<in> set order" "f (surviving ! i) = f (surviving ! j)"
    with assms(2) d show "i = j"
      by (auto simp: distinct_conv_nth subset_iff)
  qed
  with assms(1) show "distinct (map f (map ((!) surviving) order))"
    by (simp add: distinct_map comp_inj_on_iff image_image inj_on_def)
qed

text \<open>The candidates of each mode, in the order in which they meet the filter.\<close>

definition slate_order ::
  "'ix usearch \<Rightarrow> rec_io \<Rightarrow> rescore \<Rightarrow> 'ix rec_state \<Rightarrow> queue_context \<Rightarrow> 'c candidate_like \<Rightarrow> 'c list
    \<Rightarrow> nat \<Rightarrow> 'c list" where
  "slate_order us io rs st qc cl cs n =
     (let ids = map (cl_track cl) cs;
          (f, meta) = build_filter_with_metadata io st qc ids;
          surviving = filter (\<lambda>c. \<not> is_excluded f (cl_track cl c)) cs
      in case qc_mode (qx_config qc) of
           HardCap \<Rightarrow> presort_by_preference cl cs (affinity_bonuses io rs ids st)
         | Mmr \<Rightarrow> map ((!) surviving)
                   (mmr_rerank (mmr_inputs us st cl meta (affinity_bonuses io rs ids st) surviving)
                     (qc_lambda (qx_config qc)) (n * MMR_POOL_BUFFER_FACTOR) (qc_penalty (qx_config qc)) (qf_counts f))
         | Off \<Rightarrow> cs)"

lemma slate_order_list:
  "set (slate_order us io rs st qc cl cs n) \<subseteq> set cs"
  "distinct (map (cl_track cl) cs) \<Longrightarrow> distinct (map (cl_track cl) (slate_order us io rs st qc cl cs n))"
proof -
  define f where "f = fst (build_filter_with_metadata io st qc (map (cl_track cl) cs))"
  define meta where "meta = snd (build_filter_with_metadata io st qc (map (cl_track cl) cs))"
  define surviving where "surviving = filter (\<lambda>c. \<not> is_excluded f (cl_track cl c)) cs"
  define order where "order = mmr_rerank
    (mmr_inputs us st cl meta (affinity_bonuses io rs (map (cl_track cl) cs) st) surviving)
    (qc_lambda (qx_config qc)) (n * MMR_POOL_BUFFER_FACTOR) (qc_penalty (qx_config qc)) (qf_counts f)"
  have o: "distinct order" "set order \<subseteq> {..<length surviving}"
    using mmr_rerank_sound(1,2) [of "mmr_inputs us st cl meta (affinity_bonuses io rs (map (cl_track cl) cs) st) surviving"]
    by (simp_all add: order_def mmr_inputs_def)
  have eq: "slate_order us io rs st qc cl cs n = (case qc_mode (qx_config qc) of
           HardCap \<Rightarrow> presort_by_preference cl cs (affinity_bonuses io rs (map (cl_track cl) cs) st)
         | Mmr \<Rightarrow> map ((!) surviving) order | Off \<Rightarrow> cs)"
    by (simp only: slate_order_def f_def meta_def surviving_def order_def case_prod_unfold Let_def)
  have "set surviving \<subseteq> set cs" by (auto simp: surviving_def)
  with mmr_pool_list(1) [OF o] show "set (slate_order us io rs st qc cl cs n) \<subseteq> set cs"
    unfolding eq by (cases "qc_mode (qx_config qc)") auto
  assume "distinct (map (cl_track cl) cs)"
  moreover from this have "distinct (map (cl_track cl) surviving)"
    by (simp add: surviving_def distinct_map_filter)
  ultimately show "distinct (map (cl_track cl) (slate_order us io rs st qc cl cs n))"
    unfolding eq using mmr_pool_list(2) [OF o, of "cl_track cl"]
    by (cases "qc_mode (qx_config qc)") (auto simp: distinct_presort)
qed

lemma apply_queue_filter_walk:
  assumes "qc_mode (qx_config qc) \<noteq> Off"
  shows "apply_queue_filter us io rs st qc cl cs n =
     (let (f, meta) = build_filter_with_metadata io st qc (map (cl_track cl) cs)
      in walk cl meta n (slate_order us io rs st qc cl cs n) f [] no_stats)"
  using assms
  by (cases "qc_mode (qx_config qc)")
     (simp_all add: apply_queue_filter_def slate_order_def walk_hard_cap_def walk_mmr_def Let_def case_prod_unfold)

lemma filter_footprint:
  assumes "build_filter_with_metadata io st qc ids = (f, meta)"
  shows "footprint meta f (map TrackId (qx_queue qc))" "qf_cfg f = qx_config qc"
    "qf_excluded f = {i \<in> TrackId ` set (qx_queue qc). Some i \<noteq> map_option TrackId (qx_playing qc)}"
  using assms build_filter_footprint [of "filter_metadata io st qc ids" "map TrackId (qx_queue qc)"
      "map_option TrackId (qx_playing qc)" "qx_config qc"]
  by (auto simp: build_filter_with_metadata_def Let_def)

lemma apply_queue_filter_slate: "slate_from cl cs n (fst (apply_queue_filter us io rs st qc cl cs n))"
proof (cases "qc_mode (qx_config qc) = Off")
  case True
  let ?f = "fst (build_filter_with_metadata io st qc (map (cl_track cl) cs))"
  have "fst (apply_queue_filter us io rs st qc cl cs n) =
      take n (filter (\<lambda>c. cl_track cl c \<notin> qf_excluded ?f) cs)"
    using True by (simp add: apply_queue_filter_def Let_def case_prod_unfold walk_off_eq)
  moreover have "set (take n (filter P cs)) \<subseteq> set cs" for P by (auto dest: in_set_takeD)
  moreover have "distinct (map (cl_track cl) (take n (filter P cs)))" if "distinct (map (cl_track cl) cs)" for P
    using that by (simp add: take_map [symmetric] distinct_map_filter)
  ultimately show ?thesis by (simp add: slate_from_def)
next
  case False
  obtain f meta where b: "build_filter_with_metadata io st qc (map (cl_track cl) cs) = (f, meta)" by fastforce
  obtain out s where w: "walk cl meta n (slate_order us io rs st qc cl cs n) f [] no_stats = (out, s)" by fastforce
  from False b w have out: "fst (apply_queue_filter us io rs st qc cl cs n) = out"
    by (simp add: apply_queue_filter_walk)
  note ws = walk_from_start [OF filter_footprint(1) [OF b] w]
  from ws(2) have sub: "set out \<subseteq> set (slate_order us io rs st qc cl cs n)" by (auto elim: list_emb_set)
  show ?thesis
    unfolding out slate_from_def
    using sub slate_order_list [where us = us and io = io and rs = rs and st = st and qc = qc and cl = cl and cs = cs and n = n] ws(1) subseq_distinct [OF ws(2), of "cl_track cl"]
    by (auto simp: slate_ok_def)
qed

lemma select_slate_sound:
  assumes "length cs \<le> n \<or> qc \<noteq> None"
  shows "slate_from cl cs n (fst (select_slate us io rs st qc cl cs n))"
  using assms apply_queue_filter_slate
  by (cases qc) (simp_all add: select_slate_def slate_from_def)

section \<open>What is excluded\<close>

lemma set_set_list [simp]: "finite A \<Longrightarrow> set (set_list A) = A"
  by (simp add: set_list_def)

lemma finite_disliked [simp]: "finite (disliked_ids u k t)"
  by (simp add: disliked_ids_def)

lemma finite_parents [simp]: "finite (track_ids_for_parent column ps t)"
  by (simp add: track_ids_for_parent_def)

lemma finite_exclusions [simp]: "finite (disliked_exclusions io u st)"
proof -
  have "finite (expand_disliked_parents io u k st)" for k
    by (cases k) (simp_all add: expand_disliked_parents_def Let_def track_ids_for_albums_def track_ids_for_artists_def)
  then show ?thesis by (simp add: disliked_exclusions_def)
qed

text \<open>A track the account has disliked, or that is known to be on a disliked album or by a disliked artist.\<close>

definition disliked_by :: "int \<Rightarrow> 'ix rec_state \<Rightarrow> track_id \<Rightarrow> bool" where
  "disliked_by u st t \<longleftrightarrow> t \<in> TrackId ` disliked_ids u RK_Track (rc_ratings st)
     \<or> (\<exists>r \<in> set (rc_meta st). mr_key r = t
          \<and> ((\<exists>a \<in> disliked_ids u RK_Album (rc_ratings st). tm_album_id (mr_meta r) = Some a)
             \<or> (\<exists>a \<in> disliked_ids u RK_Artist (rc_ratings st). tm_artist_id (mr_meta r) = Some a)))"

lemma disliked_exclusions_iff:
  assumes "\<And>k. ro_ok io (L_disliked k) \<and> ro_ok io (L_expand k)"
  shows "t \<in> disliked_exclusions io u st \<longleftrightarrow> disliked_by u st t"
proof -
  have parents: "t \<in> expand_disliked_parents io u k st \<longleftrightarrow>
      (\<exists>r \<in> set (rc_meta st). mr_key r = t \<and> (\<exists>a \<in> disliked_ids u k (rc_ratings st).
         (case k of RK_Album \<Rightarrow> tm_album_id (mr_meta r) | RK_Artist \<Rightarrow> tm_artist_id (mr_meta r) | RK_Track \<Rightarrow> None) = Some a))"
    for k
  proof -
    have "set_list (disliked_ids u k (rc_ratings st)) = [] \<longleftrightarrow> disliked_ids u k (rc_ratings st) = {}"
      by (simp add: set_list_def)
    then show ?thesis
      using assms [of k]
      by (cases k) (auto simp: expand_disliked_parents_def Let_def track_ids_for_albums_def
          track_ids_for_artists_def in_track_ids_for_parent)
  qed
  show ?thesis
    using assms [of RK_Track] unfolding disliked_exclusions_def disliked_by_def Un_iff parents by auto
qed

section \<open>What each endpoint draws its answer from\<close>

lemma query_excludingD:
  "query_excluding us v k ex a = Inr hs \<Longrightarrow> length hs \<le> k"
  "query_excluding us v k ex a = Inr hs \<Longrightarrow> h \<in> set hs \<Longrightarrow> ah_track h \<notin> set ex"
  "query_text us v k ex a = Inr hs \<Longrightarrow> length hs \<le> k"
  "query_text us v k ex a = Inr hs \<Longrightarrow> h \<in> set hs \<Longrightarrow> ah_track h \<notin> set ex"
  using query_sound [of us v k ex a hs] by auto

definition item_tracks :: "recommend_item list \<Rightarrow> track_id list" where
  "item_tracks is = map (\<lambda>i. TrackId (it_track i)) is"

lemma track_id_str [simp]: "TrackId (track_str t) = t"
  by (cases t) simp

lemma item_tracks_simps [simp]:
  "item_tracks (map ann_item hs) = map ah_track hs" "item_tracks (map agg_item as) = map ag_track as"
  by (simp_all add: item_tracks_def ann_item_def agg_item_def)

lemma next_answer:
  assumes "fst (recommend_next us cfg io p seed n st) = Inr r"
  shows "length (nx_results r) \<le> min n MAX_N"
    "t \<in> set (item_tracks (nx_results r)) \<Longrightarrow> t \<noteq> TrackId seed \<and> t \<notin> disliked_exclusions io (room_id p) st"
proof -
  from assms obtain v hits b where
    q: "query_excluding us v (min n MAX_N * MMR_POOL_BUFFER_FACTOR)
          (TrackId seed # set_list (disliked_exclusions io (room_id p) st)) (rc_ann st) = Inr hits"
    and r: "nx_results r = map ann_item (take (min n MAX_N) (rescore_ann_by_preference hits b))"
    by (auto simp: recommend_next_def Let_def split: if_splits option.splits sum.splits)
  show "length (nx_results r) \<le> min n MAX_N" by (simp only: r length_map length_take min.cobounded2)
  have "set (rescore_ann_by_preference hits b) = set hits"
    by (simp add: rescore_ann_by_preference_def by_blended_def)
  then show "t \<in> set (item_tracks (nx_results r)) \<Longrightarrow> t \<noteq> TrackId seed \<and> t \<notin> disliked_exclusions io (room_id p) st"
    using query_excludingD(2) [OF q] by (auto simp: r dest!: in_set_takeD)
qed

lemma station_answer:
  assumes "fst (station us cfg io p prompt n st) = Inr r"
  shows "length (sn_results r) \<le> min n MAX_N"
    "t \<in> set (item_tracks (sn_results r)) \<Longrightarrow> t \<notin> disliked_exclusions io (room_id p) st"
proof -
  from assms obtain v hits where
    q: "query_text us v (min n MAX_N) (set_list (disliked_exclusions io (room_id p) st)) (rc_ann st) = Inr hits"
    and r: "sn_results r = map ann_item hits"
    by (auto simp: station_def Let_def split: if_splits option.splits sum.splits)
  show "length (sn_results r) \<le> min n MAX_N" using query_excludingD(3) [OF q] by (simp add: r)
  show "t \<in> set (item_tracks (sn_results r)) \<Longrightarrow> t \<notin> disliked_exclusions io (room_id p) st"
    using query_excludingD(4) [OF q] by (auto simp: r)
qed

lemma over_fetch_None: "over_fetch None n = n"
  by (simp add: over_fetch_def)

lemma from_any_answer:
  assumes "fst (from_any us cfg io p (Some req) st) = Inr r"
  shows "length (ar_results r) \<le> min (aq_n req) MAX_N"
    "t \<in> set (item_tracks (ar_results r)) \<Longrightarrow> t \<noteq> TrackId (ar_seed_used r)
       \<and> t \<notin> set (from_any_excludes io (room_id p) req st)"
proof -
  have loop: "length (ar_results r) \<le> min (aq_n req) MAX_N
      \<and> (\<forall>t \<in> set (item_tracks (ar_results r)). t \<noteq> TrackId (ar_seed_used r)
           \<and> t \<notin> set (from_any_excludes io room req st))"
    if "fst (try_candidates us cfg io room req cands st) = Inr r" for room cands
    using that
  proof (induction cands)
    case (Cons cand rest)
    show ?case
    proof (cases "lookup_seed_vector us cfg io st (TrackId cand)")
      case None
      with Cons show ?thesis by simp
    next
      case (Some v)
      let ?n = "min (aq_n req) MAX_N"
      let ?rs = "rescore_ctx cfg io room st"
      from Cons.prems Some obtain hits where
        q: "query_excluding us v (over_fetch (aq_queue req) ?n) (TrackId cand # from_any_excludes io room req st)
              (rc_ann st) = Inr hits"
        and r: "ar_seed_used r = cand"
          "ar_results r = map ann_item (fst (select_slate us io ?rs st (aq_queue req) ann_like hits ?n))"
        by (auto simp: Let_def case_prod_unfold split: sum.splits)
      have "slate_from ann_like hits ?n (fst (select_slate us io ?rs st (aq_queue req) ann_like hits ?n))"
        using query_excludingD(1) [OF q] by (intro select_slate_sound) (auto simp: over_fetch_def)
      then show ?thesis
        using query_excludingD(2) [OF q] by (auto simp: r slate_from_def)
    qed
  qed simp
  from assms have "fst (try_candidates us cfg io (room_id p) req (aq_candidates req) st) = Inr r"
    by (simp add: from_any_def split: option.splits)
  from loop [OF this] show "length (ar_results r) \<le> min (aq_n req) MAX_N"
    "t \<in> set (item_tracks (ar_results r)) \<Longrightarrow> t \<noteq> TrackId (ar_seed_used r)
       \<and> t \<notin> set (from_any_excludes io (room_id p) req st)" by auto
qed

lemma map_zip_update:
  "length ys = length xs \<Longrightarrow> (\<And>a y. f (g a y) = f a) \<Longrightarrow> map f (map (\<lambda>(a, y). g a y) (zip xs ys)) = map f xs"
  by (rule nth_equalityI) (auto simp del: map_map)

lemma mset_map_sort_by: "mset (map f (sort_by cmp xs)) = mset (map f xs)"
  by (simp add: mset_sort_by)

text \<open>The pool of \<open>from_seeds\<close>: leash and exploration only reorder it.\<close>

lemma leash_tracks:
  "mset (map ag_track (apply_anchor_leash us st anchors p as)) = mset (map ag_track as)"
proof -
  define adj where "adj vecs = fst (leash_apply (map (\<lambda>a. (ag_track a, stored_vector us st (ag_track a))) as) vecs p)" for vecs
  have "length (adj vecs) = length as" for vecs by (simp add: adj_def leash_apply_def Let_def)
  then have "map ag_track (map (\<lambda>(a, d). a\<lparr>ag_score := sub32 (ag_score a) (la_penalty d)\<rparr>) (zip as (adj vecs)))
      = map ag_track as" for vecs
    by (intro map_zip_update) simp_all
  then have "mset (map ag_track (sort_by agg_cmp
      (map (\<lambda>(a, d). a\<lparr>ag_score := sub32 (ag_score a) (la_penalty d)\<rparr>) (zip as (adj vecs))))) = mset (map ag_track as)" for vecs
    by (simp only: mset_map_sort_by)
  then show ?thesis
    by (simp add: apply_anchor_leash_def Let_def case_prod_unfold adj_def del: mset_map)
qed

lemma exploration_tracks: "mset (map ag_track (apply_exploration io t as)) = mset (map ag_track as)"
proof -
  define ss where "ss = perturb_scores (ro_libm io) (ro_jitter io) t (map ag_score as)"
  have "length ss = length as" by (simp add: ss_def perturb_scores_def)
  then have "map ag_track (map (\<lambda>(a, s). a\<lparr>ag_score := s\<rparr>) (zip as ss)) = map ag_track as"
    by (intro map_zip_update) simp_all
  then have "mset (map ag_track (sort_by agg_cmp (map (\<lambda>(a, s). a\<lparr>ag_score := s\<rparr>) (zip as ss)))) = mset (map ag_track as)"
    by (simp only: mset_map_sort_by)
  then show ?thesis by (simp add: apply_exploration_def ss_def del: mset_map)
qed

lemma pool_tracks:
  "mset (map ag_track (from_seeds_pool us cfg io room req st per ws)) =
     mset (map ag_track (aggregate_weighted per ws (from_seeds_exclusions cfg io room req st)
       (over_fetch (fq_queue req) (wanted req))))"
  by (simp add: from_seeds_pool_def exploration_tracks leash_tracks del: mset_map)

lemma pool_sound:
  "length (from_seeds_pool us cfg io room req st per ws) \<le> over_fetch (fq_queue req) (wanted req)"
  "distinct (map ag_track (from_seeds_pool us cfg io room req st per ws))"
  "a \<in> set (from_seeds_pool us cfg io room req st per ws) \<Longrightarrow> ag_track a \<notin> from_seeds_exclusions cfg io room req st"
proof -
  note m = pool_tracks [of us cfg io room req st per ws]
  show "length (from_seeds_pool us cfg io room req st per ws) \<le> over_fetch (fq_queue req) (wanted req)"
    using mset_eq_length [OF m] aggregate_sound(3) by (metis length_map)
  show "distinct (map ag_track (from_seeds_pool us cfg io room req st per ws))"
    using mset_eq_imp_distinct_iff [OF m] aggregate_sound(2) by blast
  assume "a \<in> set (from_seeds_pool us cfg io room req st per ws)"
  then have "ag_track a \<in> ag_track ` set (aggregate_weighted per ws (from_seeds_exclusions cfg io room req st)
       (over_fetch (fq_queue req) (wanted req)))"
    using mset_eq_setD [OF m] by auto
  from aggregate_sound(1) [OF this] show "ag_track a \<notin> from_seeds_exclusions cfg io room req st" by blast
qed

lemma from_seeds_success:
  assumes "fst (from_seeds us cfg io p (Some req) st) = Inr r"
  obtains indexed per ws where
    "fan_out us cfg io st (clamp_nat (or_default (fq_per_seed_n req) DEFAULT_PER_SEED_N) 1 MAX_N)
       (sampled_seeds io req) = Inr (indexed, per, ws)"
    "from_seeds_guard req = None"
    "sr_results r = map agg_item (fst (select_slate us io ((rescore_ctx cfg io (room_id p) st)\<lparr>rs_scale := seed_weight_total ws\<rparr>)
       st (fq_queue req) agg_like (from_seeds_pool us cfg io (room_id p) req st per ws) (wanted req)))"
  using assms
  by (auto simp: from_seeds_def Let_def case_prod_unfold split: option.splits sum.splits)

lemma from_seeds_answer:
  assumes "fst (from_seeds us cfg io p (Some req) st) = Inr r"
  shows "length (sr_results r) \<le> wanted req" "distinct (item_tracks (sr_results r))"
    "t \<in> set (item_tracks (sr_results r)) \<Longrightarrow> t \<notin> from_seeds_exclusions cfg io (room_id p) req st"
proof -
  from from_seeds_success [OF assms] obtain indexed per ws where
    r: "sr_results r = map agg_item (fst (select_slate us io ((rescore_ctx cfg io (room_id p) st)\<lparr>rs_scale := seed_weight_total ws\<rparr>)
       st (fq_queue req) agg_like (from_seeds_pool us cfg io (room_id p) req st per ws) (wanted req)))"
    by blast
  note pool = pool_sound [where us = us and cfg = cfg and io = io and room = "room_id p" and req = req and st = st
      and per = per and ws = ws]
  have "length (from_seeds_pool us cfg io (room_id p) req st per ws) \<le> wanted req \<or> fq_queue req \<noteq> None"
    using pool(1) by (auto simp: over_fetch_def)
  note s = select_slate_sound [OF this, where cl = agg_like and us = us and io = io and st = st
      and rs = "(rescore_ctx cfg io (room_id p) st)\<lparr>rs_scale := seed_weight_total ws\<rparr>"]
  show "length (sr_results r) \<le> wanted req" using s by (simp add: r slate_from_def)
  show "distinct (item_tracks (sr_results r))" using s pool(2) by (simp add: r slate_from_def agg_like_def)
  show "t \<in> set (item_tracks (sr_results r)) \<Longrightarrow> t \<notin> from_seeds_exclusions cfg io (room_id p) req st"
    using s pool(3) by (auto simp: r slate_from_def)
qed

lemma wanted_bounds: "1 \<le> wanted req" "wanted req \<le> MAX_N"
  by (auto simp: wanted_def clamp_nat_def MAX_N_def)


section \<open>Requests\<close>

datatype rec_request =
    RQ_next principal string nat
  | RQ_station principal string nat
  | RQ_enqueue "string list option"
  | RQ_from_seeds principal "from_seeds_request option"
  | RQ_from_any principal "from_any_request option"
  | RQ_similar principal "similar_request option" group_by

text \<open>The tracks a request is answered with, none on an error, and the stores after it.\<close>

fun rec_step ::
  "'ix usearch \<Rightarrow> rec_config \<Rightarrow> rec_io \<times> rec_request \<Rightarrow> 'ix rec_state \<Rightarrow> track_id list \<times> 'ix rec_state" where
  "rec_step us cfg (io, RQ_next p seed n) st =
     (let (a, st') = recommend_next us cfg io p seed n st
      in (case a of Inl _ \<Rightarrow> [] | Inr r \<Rightarrow> item_tracks (nx_results r), st'))"
| "rec_step us cfg (io, RQ_station p prompt n) st =
     (let (a, st') = station us cfg io p prompt n st
      in (case a of Inl _ \<Rightarrow> [] | Inr r \<Rightarrow> item_tracks (sn_results r), st'))"
| "rec_step us cfg (io, RQ_enqueue b) st = ([], snd (enqueue_tracks cfg io b st))"
| "rec_step us cfg (io, RQ_from_seeds p b) st =
     (let (a, st') = from_seeds us cfg io p b st
      in (case a of Inl _ \<Rightarrow> [] | Inr r \<Rightarrow> item_tracks (sr_results r), st'))"
| "rec_step us cfg (io, RQ_from_any p b) st =
     (let (a, st') = from_any us cfg io p b st
      in (case a of Inl _ \<Rightarrow> [] | Inr r \<Rightarrow> item_tracks (ar_results r), st'))"
| "rec_step us cfg (io, RQ_similar p b g) st = ([], snd (similar us cfg io p b g st))"

fun request_room :: "rec_request \<Rightarrow> int option" where
  "request_room (RQ_next p _ _) = Some (room_id p)"
| "request_room (RQ_station p _ _) = Some (room_id p)"
| "request_room (RQ_enqueue _) = None"
| "request_room (RQ_from_seeds p _) = Some (room_id p)"
| "request_room (RQ_from_any p _) = Some (room_id p)"
| "request_room (RQ_similar p _ _) = Some (room_id p)"

definition rec_run ::
  "'ix usearch \<Rightarrow> rec_config \<Rightarrow> (rec_io \<times> rec_request) list \<Rightarrow> 'ix rec_state \<Rightarrow> 'ix rec_state" where
  "rec_run us cfg rs st = fold (\<lambda>e st. snd (rec_step us cfg e st)) rs st"

text \<open>
  C16. Whatever endpoint is asked, by the host or a guest of the room: no answer holds a track its account
  has disliked, nor one known to be on an album or by an artist it has disliked, and no answer is longer
  than a hundred tracks. The lookups of the dislikes and of their tracks succeed.
\<close>

theorem disliked_tracks_never_served:
  assumes "\<forall>k. ro_ok io (L_disliked k) \<and> ro_ok io (L_expand k)" "request_room r = Some room"
  shows "(\<forall>t \<in> set (fst (rec_step us cfg (io, r) st)). \<not> disliked_by room st t)
    \<and> length (fst (rec_step us cfg (io, r) st)) \<le> 100"
proof -
  have d: "disliked_by u st t \<longleftrightarrow> t \<in> disliked_exclusions io u st" for u t
    by (rule disliked_exclusions_iff [symmetric]) (use assms(1) in blast)
  show ?thesis
  proof (cases r)
    case (RQ_next p seed n)
    with assms(2) next_answer [of us cfg io p seed n st] show ?thesis
      by (cases "fst (recommend_next us cfg io p seed n st)")
         (fastforce simp: case_prod_unfold Let_def d item_tracks_def MAX_N_def)+
  next
    case (RQ_station p prompt n)
    with assms(2) station_answer [of us cfg io p prompt n st] show ?thesis
      by (cases "fst (station us cfg io p prompt n st)")
         (fastforce simp: case_prod_unfold Let_def d item_tracks_def MAX_N_def)+
  next
    case (RQ_from_seeds p b)
    show ?thesis
    proof (cases "fst (from_seeds us cfg io p b st)")
      case (Inr a)
      then obtain req where b: "b = Some req" by (cases b) (simp_all add: from_seeds_def)
      note ans = from_seeds_answer [OF Inr [unfolded b]]
      have "length (sr_results a) \<le> 100" using ans(1) wanted_bounds(2) [of req] by (simp add: MAX_N_def)
      moreover have "t \<notin> disliked_exclusions io room st" if "t \<in> set (item_tracks (sr_results a))" for t
        using ans(3) [OF that] assms(2) by (simp add: from_seeds_exclusions_def RQ_from_seeds)
      ultimately show ?thesis
        using Inr by (simp add: RQ_from_seeds case_prod_unfold Let_def d item_tracks_def)
    qed (simp add: RQ_from_seeds case_prod_unfold Let_def)
  next
    case (RQ_from_any p b)
    show ?thesis
    proof (cases "fst (from_any us cfg io p b st)")
      case (Inr a)
      then obtain req where b: "b = Some req" by (cases b) (simp_all add: from_any_def)
      note ans = from_any_answer [OF Inr [unfolded b]]
      have "length (ar_results a) \<le> 100" using ans(1) by (simp add: MAX_N_def)
      moreover have "t \<notin> disliked_exclusions io room st" if "t \<in> set (item_tracks (ar_results a))" for t
        using ans(2) [OF that] assms(2) by (auto simp: from_any_excludes_def RQ_from_any)
      ultimately show ?thesis
        using Inr by (simp add: RQ_from_any case_prod_unfold Let_def d item_tracks_def)
    qed (simp add: RQ_from_any case_prod_unfold Let_def)
  qed simp_all
qed

section \<open>The log\<close>

lemma record_provenance_log [simp]:
  "\<exists>rows. rc_log (record_provenance cfg io u k s seeds prompt dg served st) = rc_log st @ rows"
  by (simp add: record_provenance_def log_record_def Let_def)

lemma try_candidates_log [simp]: "\<exists>rows. rc_log (snd (try_candidates us cfg io room req cands st)) = rc_log st @ rows"
proof (induction cands)
  case (Cons c cs)
  then show ?case
    using record_provenance_log
    by (auto simp: Let_def case_prod_unfold split: option.split sum.split)
qed simp

lemma rec_step_log: "\<exists>rows. rc_log (snd (rec_step us cfg e st)) = rc_log st @ rows"
proof -
  obtain io r where e: "e = (io, r)" by fastforce
  show ?thesis
  proof (cases r)
    case (RQ_similar p b g)
    have "\<exists>rows. rc_log (snd (group_similar_by us cfg io u req g st)) = rc_log st @ rows" for u req
      by (simp add: group_similar_by_def Let_def case_prod_unfold split: sum.split)
    moreover have "snd (similar us cfg io p b g st) =
        (case b of None \<Rightarrow> st | Some req \<Rightarrow> snd (group_similar_by us cfg io (room_id p) req g st))"
      by (simp add: similar_def case_prod_unfold split: option.split sum.split prod.split)
    ultimately show ?thesis by (simp add: e RQ_similar split: option.split)
  qed (simp_all add: e case_prod_unfold recommend_next_def station_def enqueue_tracks_def from_seeds_def
        from_any_def Let_def split: option.split sum.split)
qed

lemma rec_run_log: "\<exists>rows. rc_log (rec_run us cfg rs st) = rc_log st @ rows"
proof (induction rs arbitrary: st)
  case (Cons e rs)
  from rec_step_log [of us cfg e st] Cons.IH [of "snd (rec_step us cfg e st)"] show ?case
    by (auto simp: rec_run_def)
qed (simp add: rec_run_def)

text \<open>What is served is logged as served.\<close>

lemma served_since_mono: "set (served_since u since t) \<subseteq> set (served_since u since (t @ rows))"
  by (auto simp: served_since_def)

lemma served_logged:
  assumes "cf_provenance cfg" "ro_ok io L_record" "since \<le> ro_now io" "serves_tracks k"
  shows "TrackId ` set (map ri_entity served) \<subseteq>
    set (served_since u since (rc_log (record_provenance cfg io u k s seeds prompt dg served st)))"
  using assms served_since_record [of u since u "ro_now io"] by (auto simp: record_provenance_def)


lemma log_entities [simp]:
  "map ri_entity (map (\<lambda>h. log_item (f h) (g h)) hs) = map f hs"
  by (simp add: log_item_def)

lemma next_logged:
  assumes "fst (recommend_next us cfg io p seed n st) = Inr r"
  shows "\<exists>s sd tx dg served. snd (recommend_next us cfg io p seed n st) =
      record_provenance cfg io (room_id p) Rec_Next s sd tx dg served st
    \<and> map ri_entity served = map it_track (nx_results r)"
  using assms
  by (auto simp: recommend_next_def Let_def ann_item_def log_item_def comp_def split: if_splits option.splits sum.splits
      intro!: exI)

lemma station_logged:
  assumes "fst (station us cfg io p prompt n st) = Inr r"
  shows "\<exists>s sd tx dg served. snd (station us cfg io p prompt n st) =
      record_provenance cfg io (room_id p) Rec_Station s sd tx dg served st
    \<and> map ri_entity served = map it_track (sn_results r)"
  using assms
  by (auto simp: station_def Let_def ann_item_def log_item_def comp_def split: if_splits option.splits sum.splits
      intro!: exI)

lemma from_seeds_logged:
  assumes "fst (from_seeds us cfg io p b st) = Inr r"
  shows "\<exists>s sd tx dg served. snd (from_seeds us cfg io p b st) =
      record_provenance cfg io (room_id p) Rec_FromSeeds s sd tx dg served st
    \<and> map ri_entity served = map it_track (sr_results r)"
  using assms
  by (auto simp: from_seeds_def Let_def agg_item_def log_item_def comp_def case_prod_unfold
      split: if_splits option.splits sum.splits intro!: exI)

lemma from_any_logged:
  assumes "fst (from_any us cfg io p b st) = Inr r"
  shows "\<exists>s sd tx dg served. snd (from_any us cfg io p b st) =
      record_provenance cfg io (room_id p) Rec_FromAny s sd tx dg served st
    \<and> map ri_entity served = map it_track (ar_results r)"
proof -
  have loop: "\<exists>s sd tx dg served. snd (try_candidates us cfg io room req cands st) =
      record_provenance cfg io room Rec_FromAny s sd tx dg served st
    \<and> map ri_entity served = map it_track (ar_results r)"
    if "fst (try_candidates us cfg io room req cands st) = Inr r" for room req cands
    using that
  proof (induction cands)
    case (Cons c cs)
    then show ?case
      by (cases "lookup_seed_vector us cfg io st (TrackId c)")
         (auto simp: Let_def ann_item_def log_item_def comp_def case_prod_unfold split: sum.splits intro!: exI)
  qed simp
  from assms obtain req where "b = Some req" "from_any_guard req = None"
    by (auto simp: from_any_def split: option.splits)
  with assms loop show ?thesis by (simp add: from_any_def)
qed

lemma step_logged:
  assumes "cf_provenance cfg" "ro_ok io L_record" "since \<le> ro_now io" "request_room r = Some room"
    "t \<in> set (fst (rec_step us cfg (io, r) st))"
  shows "t \<in> set (served_since room since (rc_log (snd (rec_step us cfg (io, r) st))))"
proof -
  have main: "t \<in> set (served_since room since (rc_log st'))"
    if "\<exists>s sd tx dg served. st' = record_provenance cfg io room k s sd tx dg served st
       \<and> map ri_entity served = map it_track items'" "serves_tracks k" "t \<in> set (item_tracks items')"
    for st' k items'
  proof -
    from that(1) obtain s sd tx dg served where st': "st' = record_provenance cfg io room k s sd tx dg served st"
      and ent: "map ri_entity served = map it_track items'" by blast
    have "t \<in> TrackId ` set (map ri_entity served)" using that(3) by (auto simp: ent item_tracks_def)
    with served_logged [OF assms(1-3) that(2), of served room s sd tx dg st] show ?thesis by (auto simp: st')
  qed
  show ?thesis
  proof (cases r)
    case (RQ_next p seed n)
    show ?thesis
    proof (cases "fst (recommend_next us cfg io p seed n st)")
      case (Inr a)
      with assms(4,5) main [of _ Rec_Next] next_logged [OF Inr] show ?thesis
        by (simp add: RQ_next case_prod_unfold Let_def serves_tracks_def)
    qed (use assms(5) in \<open>simp add: RQ_next case_prod_unfold Let_def\<close>)
  next
    case (RQ_station p prompt n)
    show ?thesis
    proof (cases "fst (station us cfg io p prompt n st)")
      case (Inr a)
      with assms(4,5) main [of _ Rec_Station] station_logged [OF Inr] show ?thesis
        by (simp add: RQ_station case_prod_unfold Let_def serves_tracks_def)
    qed (use assms(5) in \<open>simp add: RQ_station case_prod_unfold Let_def\<close>)
  next
    case (RQ_from_seeds p b)
    show ?thesis
    proof (cases "fst (from_seeds us cfg io p b st)")
      case (Inr a)
      with assms(4,5) main [of _ Rec_FromSeeds] from_seeds_logged [OF Inr] show ?thesis
        by (simp add: RQ_from_seeds case_prod_unfold Let_def serves_tracks_def)
    qed (use assms(5) in \<open>simp add: RQ_from_seeds case_prod_unfold Let_def\<close>)
  next
    case (RQ_from_any p b)
    show ?thesis
    proof (cases "fst (from_any us cfg io p b st)")
      case (Inr a)
      with assms(4,5) main [of _ Rec_FromAny] from_any_logged [OF Inr] show ?thesis
        by (simp add: RQ_from_any case_prod_unfold Let_def serves_tracks_def)
    qed (use assms(5) in \<open>simp add: RQ_from_any case_prod_unfold Let_def\<close>)
  qed (use assms(5) in simp_all)
qed

text \<open>
  C17. Autoplay does not repeat itself: while the cooldown is on and recommendations are logged, a station
  refill holds no track that any endpoint has answered the same room with within the window, whoever asked
  then and whatever was asked in between.
\<close>

theorem served_tracks_rest:
  assumes cfg: "cf_provenance cfg" "cf_served_ms cfg = Some w"
    and first: "ro_ok io1 L_record" "request_room r = Some (room_id p)"
    and second: "fst (from_seeds us cfg io2 p b st2) = Inr a" "ro_ok io2 L_served"
    and between: "st2 = rec_run us cfg rs (snd (rec_step us cfg (io1, r) st1))"
    and window: "ro_now io2 - w \<le> ro_now io1"
  shows "set (fst (rec_step us cfg (io1, r) st1)) \<inter> set (item_tracks (sr_results a)) = {}"
proof -
  obtain req where b: "b = Some req" using second(1) by (cases b) (simp_all add: from_seeds_def)
  have "t \<notin> set (item_tracks (sr_results a))" if t: "t \<in> set (fst (rec_step us cfg (io1, r) st1))" for t
  proof -
    have "t \<in> set (served_since (room_id p) (ro_now io2 - w) (rc_log (snd (rec_step us cfg (io1, r) st1))))"
      by (rule step_logged [OF cfg(1) first(1) window first(2) t])
    with rec_run_log [of us cfg rs "snd (rec_step us cfg (io1, r) st1)"]
    have "t \<in> set (served_since (room_id p) (ro_now io2 - w) (rc_log st2))"
      using served_since_mono unfolding between by (metis subsetD)
    with cfg second(2) have "t \<in> from_seeds_exclusions cfg io2 (room_id p) req st2"
      by (simp add: from_seeds_exclusions_def recency_exclusions_def)
    with from_seeds_answer(3) [OF second(1) [unfolded b]] show ?thesis by blast
  qed
  then show ?thesis by blast
qed

text \<open>
  C18. A \<open>from_seeds\<close> answer has no duplicates, no more tracks than asked for, and none of: the seeds,
  whether sampled or not; the ids the request excludes; the queue but for the track that is playing; the
  tracks voted down in the session it names; the tracks its account played within the window.
\<close>

theorem from_seeds_keeps_out:
  assumes ans: "fst (from_seeds us cfg io p (Some req) st) = Inr r"
    and ok: "ro_ok io L_downvoted" "ro_ok io L_played" and t: "t \<in> set (item_tracks (sr_results r))"
  shows "distinct (item_tracks (sr_results r)) \<and> length (sr_results r) \<le> max 1 (or_default (fq_top_n req) 20)
    \<and> track_str t \<notin> set (fq_seeds req) \<and> track_str t \<notin> set (fq_exclude req)
    \<and> (\<forall>q. fq_queue req = Some q \<longrightarrow> Some (track_str t) \<noteq> qx_playing q \<longrightarrow> track_str t \<notin> set (qx_queue q))
    \<and> (\<forall>s v. fq_session req = Some s \<longrightarrow> s \<noteq> [] \<longrightarrow> v \<in> set (rc_feedback st) \<longrightarrow> fb_session v = s
         \<longrightarrow> fb_vote v = - 1 \<longrightarrow> fb_track v \<noteq> t)
    \<and> (\<forall>w h. cf_played_ms cfg = Some w \<longrightarrow> h \<in> set (rc_history st) \<longrightarrow> ph_user h = room_id p
         \<longrightarrow> ro_now io - w \<le> ph_last_ms h \<longrightarrow> ph_track h \<noteq> t)"
proof -
  note a = from_seeds_answer [OF ans]
  from a(3) [OF t] have out: "t \<notin> TrackId ` set (fq_seeds req)" "t \<notin> TrackId ` set (fq_exclude req)"
    "t \<notin> set (queue_excludes (fq_queue req))" "t \<notin> set (session_downvotes io (fq_session req) st)"
    "t \<notin> recency_exclusions cfg io (room_id p) st"
    by (simp_all add: from_seeds_exclusions_def)
  have inj: "track_str t \<in> A \<longleftrightarrow> t \<in> TrackId ` A" for A by (cases t) auto
  have "wanted req \<le> max 1 (or_default (fq_top_n req) 20)"
    by (simp add: wanted_def clamp_nat_def DEFAULT_TOP_N_def)
  moreover have "track_str t \<notin> set (qx_queue q)" if "fq_queue req = Some q" "Some (track_str t) \<noteq> qx_playing q" for q
    using out(3) that by (cases t) (auto simp: queue_excludes_def)
  moreover have "fb_track v \<noteq> t" if "fq_session req = Some s" "s \<noteq> []" "v \<in> set (rc_feedback st)" "fb_session v = s"
      "fb_vote v = - 1" for s v
    using out(4) that ok(1) by (auto simp: session_downvotes_def downvoted_in_session_def)
  moreover have "ph_track h \<noteq> t" if "cf_played_ms cfg = Some w" "h \<in> set (rc_history st)" "ph_user h = room_id p"
      "ro_now io - w \<le> ph_last_ms h" for w h
    using out(5) that ok(2) by (auto simp: recency_exclusions_def played_since_def)
  ultimately show ?thesis
    using a(1,2) out(1,2) unfolding inj by (auto simp del: subset_iff)
qed


section \<open>The limits of a slate\<close>

lemma known_cong: "(\<And>t. t \<in> set ids \<Longrightarrow> meta t = meta' t) \<Longrightarrow> known meta ids = known meta' ids"
  by (induction ids) (auto split: option.split)

lemma map_of_get_many_first: "map_of (meta_get_many ids t) k = (if k \<in> set ids then meta_get k t else None)"
  by (induction t) (auto simp: meta_get_many_def meta_get_def)

text \<open>The slate keeps the limits of the queue it continues, by the metadata the gateway holds.\<close>

definition keeps_limits :: "'ix rec_state \<Rightarrow> queue_context \<Rightarrow> track_id list \<Rightarrow> bool" where
  "keeps_limits st q slate \<longleftrightarrow>
     (let meta = (\<lambda>t. meta_get t (rc_meta st)); queue = map TrackId (qx_queue q)
      in (\<forall>k. 0 < or_default (qx_max_per_artist q) 0 \<longrightarrow>
            artist_count meta k (queue @ slate) \<le> max (or_default (qx_max_per_artist q) 0) (artist_count meta k queue))
         \<and> (or_default (qx_dedup q) True \<longrightarrow>
              distinct (map dedup_key (known meta slate)) \<and> title_keys meta slate \<inter> title_keys meta queue = {}))"

lemma slate_keeps_limits:
  assumes "qx_mode q \<noteq> Some Wire_Off" "ro_ok io L_filter_metadata"
  shows "keeps_limits st q (map (cl_track cl) (fst (select_slate us io rs st (Some q) cl cs n)))"
proof -
  obtain f meta where b: "build_filter_with_metadata io st q (map (cl_track cl) cs) = (f, meta)" by fastforce
  obtain out s where w: "walk cl meta n (slate_order us io rs st q cl cs n) f [] no_stats = (out, s)" by fastforce
  have mode: "qc_mode (qx_config q) \<noteq> Off"
    using assms(1) by (cases "qx_mode q"; cases "the (qx_mode q)") (simp_all add: qx_config_def default_config_def)
  then have out: "fst (select_slate us io rs st (Some q) cl cs n) = out"
    using b w by (simp add: select_slate_def apply_queue_filter_walk)
  note ok = walk_from_start(1) [OF filter_footprint(1) [OF b] w]
  have "set out \<subseteq> set cs"
    using walk_from_start(2) [OF filter_footprint(1) [OF b] w] slate_order_list(1) [of us io rs st q cl cs n]
    by (auto elim: list_emb_set)
  moreover have "meta t = meta_get t (rc_meta st)" if "t \<in> set (map TrackId (qx_queue q) @ map (cl_track cl) cs)" for t
    using b that assms(2)
    by (auto simp: build_filter_with_metadata_def Let_def filter_metadata_def map_of_get_many_first)
  ultimately have sub: "set out \<subseteq> set cs" and all: "\<And>t. t \<in> set (map TrackId (qx_queue q) @ map (cl_track cl) cs) \<Longrightarrow> meta t = meta_get t (rc_meta st)"
    by blast+
  have "known meta ids = known (\<lambda>t. meta_get t (rc_meta st)) ids"
    if "set ids \<subseteq> set (map TrackId (qx_queue q) @ map (cl_track cl) out)" for ids
  proof (rule known_cong)
    fix t assume "t \<in> set ids"
    with that have "t \<in> set (map TrackId (qx_queue q) @ map (cl_track cl) out)" by blast
    with sub have "t \<in> set (map TrackId (qx_queue q) @ map (cl_track cl) cs)" by auto
    with all show "meta t = meta_get t (rc_meta st)" by blast
  qed
  then have k: "known meta (map TrackId (qx_queue q)) = known (\<lambda>t. meta_get t (rc_meta st)) (map TrackId (qx_queue q))"
    "known meta (map (cl_track cl) out) = known (\<lambda>t. meta_get t (rc_meta st)) (map (cl_track cl) out)"
    by simp_all
  have cfg: "qc_max_per_artist (qf_cfg f) = or_default (qx_max_per_artist q) 0"
    "qc_dedup (qf_cfg f) = or_default (qx_dedup q) True"
    by (simp_all add: filter_footprint(2) [OF b] qx_config_def default_config_def)
  show ?thesis
    using ok unfolding out keeps_limits_def slate_ok_def cfg Let_def artist_count_def title_keys_def known_simps k
    by blast
qed

text \<open>
  C19. A slate that continues a queue keeps its limits, on both endpoints that take one and in every
  diversity mode but ``off'': no artist exceeds the cap through the slate, counted over the queue and the
  slate together, and no title of the slate is in the queue or twice in the slate.
\<close>

theorem slates_keep_queue_limits:
  assumes "qx_mode q \<noteq> Some Wire_Off" "ro_ok io L_filter_metadata"
  shows "(fst (from_seeds us cfg io p (Some req) st) = Inr r \<longrightarrow> fq_queue req = Some q \<longrightarrow>
        keeps_limits st q (item_tracks (sr_results r)))
    \<and> (fst (from_any us cfg io p (Some areq) st) = Inr a \<longrightarrow> aq_queue areq = Some q \<longrightarrow>
        keeps_limits st q (item_tracks (ar_results a)))"
proof (intro conjI impI)
  note limits = slate_keeps_limits [OF assms]
  show "keeps_limits st q (item_tracks (sr_results r))"
    if "fst (from_seeds us cfg io p (Some req) st) = Inr r" "fq_queue req = Some q"
    using that limits [where cl = agg_like] by (elim from_seeds_success) (simp add: agg_like_def)
  have loop: "keeps_limits st q (item_tracks (ar_results a))"
    if "fst (try_candidates us cfg io room areq cands st) = Inr a" "aq_queue areq = Some q" for room cands
    using that
  proof (induction cands)
    case (Cons c cs)
    then show ?case
      using limits [where cl = ann_like]
      by (cases "lookup_seed_vector us cfg io st (TrackId c)")
         (auto simp: Let_def case_prod_unfold ann_like_def split: sum.splits)
  qed simp
  show "keeps_limits st q (item_tracks (ar_results a))"
    if "fst (from_any us cfg io p (Some areq) st) = Inr a" "aq_queue areq = Some q"
    using that loop by (auto simp: from_any_def split: option.splits)
qed

section \<open>Lookups that fail\<close>

text \<open>\<open>io\<close>, but with every lookup apart from the embeddings succeeding or failing as \<open>ok\<close> says.\<close>

definition with_lookups :: "(lookup \<Rightarrow> bool) \<Rightarrow> rec_io \<Rightarrow> rec_io" where
  "with_lookups ok io = io\<lparr>ro_ok := (\<lambda>l. case l of L_embedding t \<Rightarrow> ro_ok io (L_embedding t) | _ \<Rightarrow> ok l)\<rparr>"

lemma lookup_seed_with [simp]: "lookup_seed_vector us cfg (with_lookups ok io) st t = lookup_seed_vector us cfg io st t"
  by (simp add: lookup_seed_vector_def with_lookups_def)

lemma fan_out_with [simp]: "fan_out us cfg (with_lookups ok io) st n seeds = fan_out us cfg io st n seeds"
  by (induction us cfg io st n seeds rule: fan_out.induct) (simp_all cong: option.case_cong sum.case_cong)

lemma sampled_with [simp]: "sampled_seeds (with_lookups ok io) req = sampled_seeds io req"
  by (simp add: sampled_seeds_def with_lookups_def)


section \<open>Similar albums and artists\<close>

definition groups_ok ::
  "group_by \<Rightarrow> metadata_map \<Rightarrow> string list \<Rightarrow> track_id set \<Rightarrow> (string \<times> fp \<times> track_id list) list \<Rightarrow> bool" where
  "groups_ok g meta exclude hits gs \<longleftrightarrow> distinct (map fst gs)
     \<and> (\<forall>(k, score, ts) \<in> set gs. k \<notin> set exclude \<and> ts \<noteq> [] \<and> distinct ts
          \<and> (\<forall>t \<in> set ts. t \<in> hits \<and> (\<exists>m. meta t = Some m \<and> group_key g m = Some k)))"

lemma add_to_group_keys: "fst ` set (add_to_group k h gs) = insert k (fst ` set gs)"
  by (induction k h gs rule: add_to_group.induct) auto

lemma add_to_group_ok:
  assumes "groups_ok g meta exclude hits gs" "ah_track h \<in> hits" "meta (ah_track h) = Some m"
    "group_key g m = Some k" "k \<notin> set exclude"
  shows "groups_ok g meta exclude hits (add_to_group k h gs)"
  using assms
proof (induction k h gs rule: add_to_group.induct)
  case (2 k h j score ts gs)
  then have tail: "groups_ok g meta exclude hits gs" "j \<notin> fst ` set gs" by (auto simp: groups_ok_def)
  show ?case
  proof (cases "j = k")
    case True
    have "List.insert (ah_track h) ts \<noteq> []" by (simp add: List.insert_def, auto)
    with 2 True show ?thesis by (auto simp: groups_ok_def)
  next
    case False
    with 2 tail have "groups_ok g meta exclude hits (add_to_group k h gs)" by blast
    moreover have "j \<notin> fst ` set (add_to_group k h gs)" using tail(2) False by (simp add: add_to_group_keys)
    ultimately show ?thesis using 2(2) False by (auto simp: groups_ok_def)
  qed
qed (auto simp: groups_ok_def)

lemma group_hits_ok: "groups_ok g meta exclude (ah_track ` set hits) (group_hits g meta exclude hits)"
proof -
  have "groups_ok g meta exclude H (fold (\<lambda>h gs. case meta (ah_track h) of
             None \<Rightarrow> gs
           | Some m \<Rightarrow> (case group_key g m of
                         None \<Rightarrow> gs
                       | Some k \<Rightarrow> if k \<in> set exclude then gs else add_to_group k h gs)) hits gs)"
    if "groups_ok g meta exclude H gs" "ah_track ` set hits \<subseteq> H" for gs H
    using that
    by (induction hits arbitrary: gs) (auto intro: add_to_group_ok split: option.split)
  from this [where gs = "[]" and H = "ah_track ` set hits"] show ?thesis unfolding group_hits_def by (simp add: groups_ok_def)
qed

lemma fan_out_excluding_sound:
  "fan_out_excluding us cfg io st n ex seeds = Inr (k, hits) \<Longrightarrow> h \<in> set hits \<Longrightarrow> ah_track h \<notin> set ex"
proof (induction seeds arbitrary: k hits)
  case (Cons s seeds)
  show ?case
  proof (cases "lookup_seed_vector us cfg io st (TrackId s)")
    case None
    with Cons show ?thesis by simp
  next
    case (Some v)
    with Cons.prems obtain hs k' rest where q: "query_excluding us v n ex (rc_ann st) = Inr hs"
      "fan_out_excluding us cfg io st n ex seeds = Inr (k', rest)" "hits = hs @ rest"
      by (auto split: sum.splits)
    with Cons.IH [OF q(2)] query_excludingD(2) [OF q(1)] Cons.prems(2) show ?thesis by auto
  qed
qed simp

lemma rank_groups_ok:
  assumes "groups_ok g meta exclude hits gs"
  shows "distinct (map gr_key (rank_groups n gs)) \<and> length (rank_groups n gs) \<le> n"
    and "x \<in> set (rank_groups n gs) \<Longrightarrow> gr_key x \<notin> set exclude
           \<and> (\<exists>ts. card ts = gr_supporting x \<and> 0 < card ts
                \<and> (\<forall>t \<in> ts. t \<in> hits \<and> (\<exists>m. meta t = Some m \<and> group_key g m = Some (gr_key x))))"
proof -
  define listed where "listed = map (\<lambda>(k, score, ts). \<lparr>gr_key = k, gr_score = score, gr_supporting = length ts\<rparr>) gs"
  have keys: "map gr_key listed = map fst gs" by (simp add: listed_def case_prod_unfold)
  have rank: "rank_groups n gs = take n (sort_by (\<lambda>a b. fp_cmp_or_eq (gr_score b) (gr_score a)) listed)"
    by (simp add: rank_groups_def listed_def)
  show "distinct (map gr_key (rank_groups n gs)) \<and> length (rank_groups n gs) \<le> n"
    using assms keys by (simp add: rank take_map [symmetric] distinct_map_sort_by groups_ok_def)
  assume "x \<in> set (rank_groups n gs)"
  then have "x \<in> set listed" unfolding rank by (auto dest: in_set_takeD)
  then obtain k score ts where "(k, score, ts) \<in> set gs" "x = \<lparr>gr_key = k, gr_score = score, gr_supporting = length ts\<rparr>"
    by (auto simp: listed_def)
  with assms show "gr_key x \<notin> set exclude
      \<and> (\<exists>ts. card ts = gr_supporting x \<and> 0 < card ts
           \<and> (\<forall>t \<in> ts. t \<in> hits \<and> (\<exists>m. meta t = Some m \<and> group_key g m = Some (gr_key x))))"
    by (auto simp: groups_ok_def distinct_card intro!: exI [of _ "set ts"])
qed

text \<open>
  C21. The groups of \<open>similar_albums\<close> and \<open>similar_artists\<close> are distinct, at most as many as asked for, none
  of them an excluded one, and each is supported by as many tracks as it says: at least one, all of this
  group by the metadata the gateway holds, none of them a seed or disliked. A hash map lists each entry
  once.
\<close>

theorem similar_groups_supported:
  assumes ans: "fst (similar us cfg io p (Some req) g st) = Inr r"
    and hash: "\<forall>gs. mset (ro_hash io gs) = mset gs"
    and dislikes: "\<forall>k. ro_ok io (L_disliked k) \<and> ro_ok io (L_expand k)"
  shows "distinct (map gr_key (sm_results r)) \<and> length (sm_results r) \<le> min (sq_n req) MAX_N
    \<and> (\<forall>x \<in> set (sm_results r). gr_key x \<notin> set (sq_exclude req)
         \<and> (\<exists>ts. card ts = gr_supporting x \<and> 0 < card ts
              \<and> (\<forall>t \<in> ts. track_str t \<notin> set (sq_seeds req) \<and> \<not> disliked_by (room_id p) st t
                   \<and> (\<exists>m. meta_get t (rc_meta st) = Some m \<and> group_key g m = Some (gr_key x)))))"
proof (cases "sm_results r = []")
  case False
  let ?ex = "map TrackId (sq_seeds req) @ set_list (disliked_exclusions io (room_id p) st)"
  from ans False obtain n seeds k hits meta where
    fan: "fan_out_excluding us cfg io st n ?ex seeds = Inr (k, hits)"
    and meta: "meta = (if ro_ok io L_group_metadata
        then map_of (meta_get_many (map ah_track hits) (rc_meta st)) else Map.empty)"
    and res: "sm_results r = rank_groups (min (sq_n req) MAX_N) (ro_hash io (group_hits g meta (sq_exclude req) hits))"
    by (auto simp: similar_def group_similar_by_def Let_def case_prod_unfold split: if_splits sum.splits prod.splits)
  define gs where "gs = ro_hash io (group_hits g meta (sq_exclude req) hits)"
  have perm: "mset gs = mset (group_hits g meta (sq_exclude req) hits)" using hash by (simp add: gs_def)
  have "groups_ok g meta (sq_exclude req) (ah_track ` set hits) gs"
    using group_hits_ok [of g meta "sq_exclude req" hits] mset_eq_setD [OF perm]
      mset_eq_imp_distinct_iff [of "map fst gs" "map fst (group_hits g meta (sq_exclude req) hits)"] perm
    by (simp add: groups_ok_def)
  note ranked = rank_groups_ok [where n = "min (sq_n req) MAX_N", OF this, folded res [folded gs_def]]
  have served: "track_str t \<notin> set (sq_seeds req) \<and> \<not> disliked_by (room_id p) st t
      \<and> (meta t = Some m \<longrightarrow> meta_get t (rc_meta st) = Some m)" if "t \<in> ah_track ` set hits" for t m
  proof -
    from that fan_out_excluding_sound [OF fan] have "t \<notin> set ?ex" by blast
    moreover have "t \<in> disliked_exclusions io (room_id p) st \<longleftrightarrow> disliked_by (room_id p) st t"
      by (rule disliked_exclusions_iff) (use dislikes in blast)
    moreover have "meta t = Some m \<longrightarrow> meta_get t (rc_meta st) = Some m"
      using that by (auto simp: meta map_of_get_many_first split: if_splits)
    ultimately show ?thesis by (cases t) auto
  qed
  have "\<exists>ts. card ts = gr_supporting x \<and> 0 < card ts
      \<and> (\<forall>t \<in> ts. track_str t \<notin> set (sq_seeds req) \<and> \<not> disliked_by (room_id p) st t
           \<and> (\<exists>m. meta_get t (rc_meta st) = Some m \<and> group_key g m = Some (gr_key x)))"
    if "x \<in> set (sm_results r)" for x
    using ranked(2) [OF that] served by meson
  with ranked show ?thesis by blast
qed simp


section \<open>A concrete catalogue\<close>

definition demo_us :: "unit usearch" where
  "demo_us =
     \<lparr>us_reserve = (\<lambda>_ ix. Some ix), us_add = (\<lambda>_ _ ix. Some ix), us_remove = (\<lambda>_ ix. Some ix), us_reset = Some,
      us_get = (\<lambda>_ _. Some (Some [fp1])), us_search = (\<lambda>_ n _. Some (take n [(1, fp0), (2, fp0), (3, fp0)]))\<rparr>"

definition demo_meta :: track_metadata where
  "demo_meta =
     \<lparr>tm_track_id = TrackId ''c'', tm_artist_id = Some ''ar'', tm_artist = ''A'', tm_album_id = Some ''al'',
      tm_album = None, tm_title = ''t'', tm_title_normalized = ''t'', tm_duration_seconds = None,
      tm_genre = None, tm_year = None, tm_track_number = None, tm_disc_number = None, tm_bpm = None,
      tm_musical_key = None\<rparr>"

definition demo_rec :: "unit rec_state" where
  "demo_rec =
     \<lparr>rc_ann = \<lparr>ai_index = (), ai_forward = [(TrackId ''a'', 1), (TrackId ''b'', 2), (TrackId ''c'', 3)],
               ai_reverse = [(1, TrackId ''a''), (2, TrackId ''b''), (3, TrackId ''c'')], ai_next_key = 4,
               ai_dim = 1, ai_dirty = False, ai_whitening = None\<rparr>,
      rc_emb = [], rc_meta = [\<lparr>mr_meta = demo_meta, mr_created_at = 0, mr_updated_at = 0\<rparr>],
      rc_ratings = [\<lparr>er_user_id = OWNER_USER_ID, er_kind = ''track'', er_entity_id = ''b'', er_rating = - 1,
                     er_updated_ms = 0\<rparr>],
      rc_feedback = [], rc_history = [], rc_affinity = [], rc_log = []\<rparr>"

definition demo_cfg :: rec_config where
  "demo_cfg =
     \<lparr>cf_model = ''m'', cf_writes = True, cf_like_bonus = fp1, cf_album_bonus = fp1, cf_artist_bonus = fp1,
      cf_leash = \<lparr>lp_tau = fp0, lp_lambda = fp0\<rparr>, cf_played_ms = Some 50, cf_served_ms = Some 50,
      cf_provenance = True, cf_temperature = fp0, cf_preference = None\<rparr>"

definition demo_io :: rec_io where
  "demo_io =
     \<lparr>ro_ok = (\<lambda>_. True), ro_now = 100, ro_draw = (\<lambda>_. 0), ro_jitter = (\<lambda>_. fp1),
      ro_libm = \<lparr>lm_exp64 = id, lm_tanh32 = id, lm_ln32 = id, lm_ln2 = fp1\<rparr>,
      ro_embedder = Some (\<lambda>_. Inr [fp1]), ro_ready = True, ro_hash = id\<rparr>"

definition demo_queue :: queue_context where
  "demo_queue =
     \<lparr>qx_queue = [''x''], qx_playing = None, qx_max_per_artist = Some 1, qx_dedup = None, qx_mode = None,
      qx_lambda = None, qx_penalty = None\<rparr>"

definition demo_request :: "queue_context option \<Rightarrow> from_seeds_request" where
  "demo_request q =
     \<lparr>fq_seeds = [''a''], fq_weights = None, fq_per_seed_n = None, fq_sample_size = None, fq_top_n = None,
      fq_exclude = [], fq_queue = q, fq_session = Some ''s'', fq_anchors = [], fq_tau = None, fq_lambda = None\<rparr>"

definition demo_ann :: "unit ann_index" where "demo_ann = rc_ann demo_rec"

lemma demo_fields [simp]:
  "ro_ok demo_io = (\<lambda>_. True)" "ro_now demo_io = 100" "ro_draw demo_io = (\<lambda>_. 0)" "ro_hash demo_io = id"
  "cf_model demo_cfg = ''m''" "cf_provenance demo_cfg" "cf_played_ms demo_cfg = Some 50"
  "cf_served_ms demo_cfg = Some 50" "cf_temperature demo_cfg = fp0" "cf_preference demo_cfg = None"
  "rc_ann demo_rec = demo_ann" "rc_meta demo_rec = [\<lparr>mr_meta = demo_meta, mr_created_at = 0, mr_updated_at = 0\<rparr>]"
  "rc_feedback demo_rec = []" "rc_history demo_rec = []" "rc_affinity demo_rec = []" "rc_log demo_rec = []"
  by (simp_all add: demo_io_def demo_cfg_def demo_rec_def demo_ann_def)

lemma demo_exclusions [simp]:
  assumes "rc_ratings st = rc_ratings demo_rec"
  shows "disliked_exclusions demo_io OWNER_USER_ID st = {TrackId ''b''}"
  using assms by (simp add: disliked_exclusions_def expand_disliked_parents_def disliked_ids_def set_list_def demo_rec_def)

lemma demo_likes [simp]:
  assumes "rc_ratings st = rc_ratings demo_rec"
  shows "affinity_bonuses demo_io ((rescore_ctx demo_cfg demo_io OWNER_USER_ID st)\<lparr>rs_scale := x\<rparr>) ids st = []"
    "affinity_bonuses demo_io (rescore_ctx demo_cfg demo_io OWNER_USER_ID st) ids st = []"
  using assms
  by (simp_all add: affinity_bonuses_def rescore_ctx_def liked_set_def liked_ids_def liked_bonus_many_def demo_rec_def
      Let_def)

lemma demo_seed [simp]:
  assumes "rc_ann st = demo_ann"
  shows "lookup_seed_vector demo_us demo_cfg demo_io st (TrackId ''a'') = Some [fp1]"
  using assms
  by (simp add: lookup_seed_vector_def has_whitening_def stored_vector_def ann_get_vector_def demo_ann_def
      demo_rec_def demo_us_def)

lemma demo_query:
  "\<exists>x. query_excluding demo_us [fp1] 40 [TrackId ''a'', TrackId ''b''] demo_ann =
     Inr [\<lparr>ah_track = TrackId ''c'', ah_similarity = x\<rparr>]"
  "\<exists>x y z. query_excluding demo_us [fp1] 20 [] demo_ann =
     Inr [\<lparr>ah_track = TrackId ''a'', ah_similarity = x\<rparr>, \<lparr>ah_track = TrackId ''b'', ah_similarity = y\<rparr>,
          \<lparr>ah_track = TrackId ''c'', ah_similarity = z\<rparr>]"
  by (simp_all add: query_excluding_def search_whitened_def whiten_def demo_ann_def demo_rec_def demo_us_def Let_def)

lemma demo_owner [simp]: "room_id owner = OWNER_USER_ID"
  by (simp add: room_id_def owner_def)

lemma sort_single [simp]: "sort_by cmp [x] = [x]"
  by (simp add: sort_by_def)

lemma demo_next:
  "\<exists>x sc. recommend_next demo_us demo_cfg demo_io owner ''a'' 20 demo_rec =
     (Inr \<lparr>nx_seed = ''a'', nx_model = ''m'', nx_results = [\<lparr>it_track = ''c'', it_similarity = x\<rparr>]\<rparr>,
      record_provenance demo_cfg demo_io OWNER_USER_ID Rec_Next None (Some [''a'']) None False
        [log_item ''c'' sc] demo_rec)"
  using demo_query(1)
  by (auto simp: recommend_next_def Let_def MAX_N_def MMR_POOL_BUFFER_FACTOR_def set_list_def
     rescore_ann_by_preference_def by_blended_def ann_item_def ann_like_def)

lemma disliked_tracks_never_served_witness:
  "fst (rec_step demo_us demo_cfg (demo_io, RQ_next owner ''a'' 20) demo_rec) = [TrackId ''c'']
   \<and> \<not> disliked_by OWNER_USER_ID demo_rec (TrackId ''c'') \<and> disliked_by OWNER_USER_ID demo_rec (TrackId ''b'')"
proof -
  have "fst (rec_step demo_us demo_cfg (demo_io, RQ_next owner ''a'' 20) demo_rec) = [TrackId ''c'']"
    using demo_next by (auto simp: item_tracks_def)
  moreover have "disliked_by OWNER_USER_ID demo_rec (TrackId ''b'')"
    by (simp add: disliked_by_def disliked_ids_def demo_rec_def)
  ultimately show ?thesis
    using disliked_tracks_never_served [of demo_io "RQ_next owner ''a'' 20" OWNER_USER_ID demo_us demo_cfg demo_rec]
    by simp
qed

lemma demo_refill:
  assumes "rc_ann st = demo_ann" "rc_ratings st = rc_ratings demo_rec" "rc_feedback st = []" "rc_history st = []"
    "rc_meta st = rc_meta demo_rec" "TrackId ''c'' \<notin> set (served_since OWNER_USER_ID 50 (rc_log st))" "q = None \<or> q = Some demo_queue"
  shows "\<exists>r x. fst (from_seeds demo_us demo_cfg demo_io owner (Some (demo_request q)) st) = Inr r
    \<and> sr_results r = [\<lparr>it_track = ''c'', it_similarity = x\<rparr>]"
proof -
  have ex: "from_seeds_exclusions demo_cfg demo_io OWNER_USER_ID (demo_request q) st =
      {TrackId ''a'', TrackId ''b''} \<union> TrackId ` set (case q of None \<Rightarrow> [] | Some q \<Rightarrow> qx_queue q)
      \<union> set (served_since OWNER_USER_ID 50 (rc_log st))"
    using assms(7)
    by (elim disjE) (simp_all add: assms(2-4) from_seeds_exclusions_def demo_request_def queue_excludes_def demo_queue_def session_downvotes_def
        downvoted_in_session_def recency_exclusions_def played_since_def insert_commute Un_ac split: option.split)
  have fan: "fan_out demo_us demo_cfg demo_io st 20 [(''a'', fp1)] = Inr (1, [hits], [fp1])"
    if "query_excluding demo_us [fp1] 20 [] demo_ann = Inr hits" for hits
    using that assms(1) by (simp add: ann_query_def)
  obtain x y z where q: "query_excluding demo_us [fp1] 20 [] demo_ann =
     Inr [\<lparr>ah_track = TrackId ''a'', ah_similarity = x\<rparr>, \<lparr>ah_track = TrackId ''b'', ah_similarity = y\<rparr>,
          \<lparr>ah_track = TrackId ''c'', ah_similarity = z\<rparr>]" (is "_ = Inr ?hits")
    using demo_query(2) by blast
  have w: "seed_weight [fp1] 0 = fp1" "\<not> fp_eq fp1 fp0" by (simp_all add: seed_weight_def nth_opt_def fp_max_def fp_eq_def fp_less_def fp_cmp_def fp0_def fp1_def)
  let ?E = "from_seeds_exclusions demo_cfg demo_io OWNER_USER_ID (demo_request q) st"
  have E: "TrackId ''a'' \<in> ?E" "TrackId ''b'' \<in> ?E" "TrackId ''c'' \<notin> ?E"
    unfolding ex using assms(6,7) by (auto simp: demo_queue_def)
  have more: "over_fetch (fq_queue (demo_request q)) (wanted (demo_request q)) \<noteq> 0"
    using wanted_bounds(1) [of "demo_request q"] by (auto simp: over_fetch_def FILTER_BUFFER_FACTOR_def MAX_N_def)
  have agg: "add_seeds [fp1] ?E 0 [?hits] [] =
      [\<lparr>ag_track = TrackId ''c'', ag_score = add32 fp0 (mul32 z fp1), ag_hits = 1\<rparr>]"
    by (simp add: w add_hit_def E)
  have "fq_anchors (demo_request q) = []" by (simp add: demo_request_def)
  then have pool: "\<exists>a. ag_track a = TrackId ''c'' \<and>
      from_seeds_pool demo_us demo_cfg demo_io OWNER_USER_ID (demo_request q) st [?hits] [fp1] = [a]"
    using more by (simp add: from_seeds_pool_def aggregate_weighted_def agg apply_anchor_leash_def
        apply_exploration_def take_Cons' del: add_seeds.simps)
  then obtain a where a: "ag_track a = TrackId ''c''"
    "from_seeds_pool demo_us demo_cfg demo_io OWNER_USER_ID (demo_request q) st [?hits] [fp1] = [a]" by blast
  have slate: "fst (select_slate demo_us demo_io ((rescore_ctx demo_cfg demo_io OWNER_USER_ID st)\<lparr>rs_scale := x\<rparr>) st
      (fq_queue (demo_request q)) agg_like [a] 20) = [a]" for x
    using assms(2,7)
  proof (elim disjE)
    assume q: "q = Some demo_queue"
    show ?thesis
      using assms(2,5) a(1)
      by (simp add: q demo_request_def select_slate_def apply_queue_filter_def Let_def case_prod_unfold qx_config_def
          demo_queue_def default_config_def or_default_def presort_by_preference_def walk_hard_cap_def agg_like_def
          build_filter_with_metadata_def filter_metadata_def build_filter_def is_excluded_def try_accept_def
          meta_get_many_def mr_key_def demo_meta_def)
  qed (simp add: demo_request_def select_slate_def)
  have "from_seeds_guard (demo_request q) = None" "wanted (demo_request q) = 20"
    "sampled_seeds demo_io (demo_request q) = [(''a'', fp1)]"
    "clamp_nat (or_default (fq_per_seed_n (demo_request q)) DEFAULT_PER_SEED_N) 1 MAX_N = 20"
    using assms(7)
    by (auto simp: from_seeds_guard_def demo_request_def MAX_SEEDS_def MAX_EXCLUDE_def queue_too_long_def demo_queue_def
        MAX_QUEUE_def wanted_def clamp_nat_def or_default_def DEFAULT_TOP_N_def MAX_N_def sampled_seeds_def
        sample_indices_def DEFAULT_SAMPLE_SIZE_def DEFAULT_PER_SEED_N_def)
  with fan [OF q] a slate show ?thesis
    by (simp add: from_seeds_def Let_def case_prod_unfold agg_item_def)
qed


lemma from_seeds_succeeds:
  assumes "from_seeds_guard req = None" "fan_out us cfg io st
      (clamp_nat (or_default (fq_per_seed_n req) DEFAULT_PER_SEED_N) 1 MAX_N) (sampled_seeds io req) \<noteq> Inl ()"
  shows "\<exists>a. fst (from_seeds us cfg io p (Some req) st) = Inr a"
  using assms by (simp add: from_seeds_def Let_def case_prod_unfold split: sum.split)

lemma from_seeds_keeps_out_witness:
  "\<exists>r. fst (from_seeds demo_us demo_cfg demo_io owner (Some (demo_request None)) demo_rec) = Inr r
     \<and> item_tracks (sr_results r) = [TrackId ''c''] \<and> ''c'' \<notin> set (fq_seeds (demo_request None))"
proof -
  obtain r x where r: "fst (from_seeds demo_us demo_cfg demo_io owner (Some (demo_request None)) demo_rec) = Inr r"
    "sr_results r = [\<lparr>it_track = ''c'', it_similarity = x\<rparr>]"
    using demo_refill [of demo_rec None] by (auto simp: served_since_def)
  then have t: "TrackId ''c'' \<in> set (item_tracks (sr_results r))" by (simp add: item_tracks_def)
  have ok: "ro_ok demo_io L_downvoted" "ro_ok demo_io L_played" by simp_all
  from from_seeds_keeps_out [OF r(1) ok t] have "''c'' \<notin> set (fq_seeds (demo_request None))" by simp
  with r show ?thesis by (simp add: item_tracks_def)
qed

lemma served_tracks_rest_witness:
  "\<exists>a. fst (rec_step demo_us demo_cfg (demo_io, RQ_next owner ''a'' 20) demo_rec) = [TrackId ''c'']
     \<and> fst (from_seeds demo_us demo_cfg demo_io owner (Some (demo_request None))
         (rec_run demo_us demo_cfg [(demo_io, RQ_enqueue None)]
           (snd (rec_step demo_us demo_cfg (demo_io, RQ_next owner ''a'' 20) demo_rec)))) = Inr a
     \<and> TrackId ''c'' \<notin> set (item_tracks (sr_results a))"
proof -
  let ?st1 = "snd (rec_step demo_us demo_cfg (demo_io, RQ_next owner ''a'' 20) demo_rec)"
  let ?st2 = "rec_run demo_us demo_cfg [(demo_io, RQ_enqueue None)] ?st1"
  have served: "fst (rec_step demo_us demo_cfg (demo_io, RQ_next owner ''a'' 20) demo_rec) = [TrackId ''c'']"
    using demo_next by (auto simp: item_tracks_def)
  have st2: "?st2 = ?st1" by (simp add: rec_run_def enqueue_tracks_def)
  have "rc_ann ?st1 = demo_ann" using demo_next by (auto simp: record_provenance_def)
  then have "fan_out demo_us demo_cfg demo_io ?st1 20 [(''a'', fp1)] \<noteq> Inl ()"
    using demo_query(2) by (auto simp: ann_query_def)
  moreover have "from_seeds_guard (demo_request None) = None"
    "sampled_seeds demo_io (demo_request None) = [(''a'', fp1)]"
    "clamp_nat (or_default (fq_per_seed_n (demo_request None)) DEFAULT_PER_SEED_N) 1 MAX_N = 20"
    by (simp_all add: from_seeds_guard_def demo_request_def MAX_SEEDS_def MAX_EXCLUDE_def queue_too_long_def
        clamp_nat_def or_default_def MAX_N_def sampled_seeds_def sample_indices_def DEFAULT_SAMPLE_SIZE_def
        DEFAULT_PER_SEED_N_def)
  ultimately obtain a where a: "fst (from_seeds demo_us demo_cfg demo_io owner (Some (demo_request None)) ?st2) = Inr a"
    unfolding st2 using from_seeds_succeeds by metis
  have "set (fst (rec_step demo_us demo_cfg (demo_io, RQ_next owner ''a'' 20) demo_rec))
      \<inter> set (item_tracks (sr_results a)) = {}"
    by (rule served_tracks_rest [where w = 50, OF _ _ _ _ a _ refl]) simp_all
  with served a show ?thesis by auto
qed

lemma slates_keep_queue_limits_witness:
  "\<exists>r. fst (from_seeds demo_us demo_cfg demo_io owner (Some (demo_request (Some demo_queue))) demo_rec) = Inr r
     \<and> item_tracks (sr_results r) = [TrackId ''c''] \<and> keeps_limits demo_rec demo_queue [TrackId ''c'']"
proof -
  obtain r x where r: "fst (from_seeds demo_us demo_cfg demo_io owner (Some (demo_request (Some demo_queue))) demo_rec) = Inr r"
    "sr_results r = [\<lparr>it_track = ''c'', it_similarity = x\<rparr>]"
    using demo_refill [of demo_rec "Some demo_queue"] by (auto simp: served_since_def)
  have t: "item_tracks (sr_results r) = [TrackId ''c'']" by (simp add: r(2) item_tracks_def)
  have "qx_mode demo_queue \<noteq> Some Wire_Off" "ro_ok demo_io L_filter_metadata"
    "fq_queue (demo_request (Some demo_queue)) = Some demo_queue"
    by (simp_all add: demo_queue_def demo_request_def)
  with slates_keep_queue_limits [of demo_queue demo_io demo_us demo_cfg owner "demo_request (Some demo_queue)" demo_rec r]
  have "keeps_limits demo_rec demo_queue (item_tracks (sr_results r))" using r(1) by blast
  with r(1) t show ?thesis by simp
qed

definition demo_similar :: similar_request where
  "demo_similar = \<lparr>sq_seeds = [''a''], sq_exclude = [], sq_n = 5, sq_per_seed_n = Some 40, sq_sample_size = None\<rparr>"

lemma similar_groups_supported_witness:
  "\<exists>r. fst (similar demo_us demo_cfg demo_io owner (Some demo_similar) By_Album demo_rec) = Inr r
     \<and> map gr_key (sm_results r) = [''al''] \<and> distinct (map gr_key (sm_results r))"
proof -
  obtain x where q: "query_excluding demo_us [fp1] 40 [TrackId ''a'', TrackId ''b''] demo_ann =
     Inr [\<lparr>ah_track = TrackId ''c'', ah_similarity = x\<rparr>]"
    using demo_query(1) by blast
  let ?hit = "\<lparr>ah_track = TrackId ''c'', ah_similarity = x\<rparr>"
  have fan: "fan_out_excluding demo_us demo_cfg demo_io demo_rec 40 [TrackId ''a'', TrackId ''b''] [''a''] = Inr (1, [?hit])"
    using q by simp
  have "map_of (meta_get_many [TrackId ''c''] (rc_meta demo_rec)) (TrackId ''c'') = Some demo_meta"
    by (simp add: meta_get_many_def mr_key_def demo_meta_def)
  moreover have "group_key By_Album demo_meta = Some ''al''" by (simp add: group_key_def demo_meta_def)
  ultimately have groups: "group_hits By_Album (map_of (meta_get_many [TrackId ''c''] (rc_meta demo_rec))) [] [?hit] =
      [(''al'', add32 fp0 x, [TrackId ''c''])]"
    by (simp add: group_hits_def)
  have "group_similar_by demo_us demo_cfg demo_io OWNER_USER_ID demo_similar By_Album demo_rec =
      (Inr ([\<lparr>gr_key = ''al'', gr_score = add32 fp0 x, gr_supporting = 1\<rparr>], False),
       record_provenance demo_cfg demo_io OWNER_USER_ID Rec_SimilarAlbums None (Some [''a'']) None False
         [log_item ''al'' (add32 fp0 x)] demo_rec)"
  proof -
    have sizes: "clamp_nat (or_default (Some 40) DEFAULT_GROUPED_PER_SEED_N) 1 MAX_N = 40" "min 5 MAX_N = 5"
      "clamp_nat (or_default None DEFAULT_SAMPLE_SIZE) 1 (length [''a'']) = 1" "\<not> MAX_SEEDS < length [''a'']"
      by (simp_all add: clamp_nat_def or_default_def MAX_N_def MAX_SEEDS_def DEFAULT_SAMPLE_SIZE_def)
    have sample: "map (\<lambda>i. [''a''] ! i) (sample_indices (ro_draw demo_io) (length [''a'']) 1) = [''a'']"
      by (simp add: sample_indices_def)
    have ex: "map TrackId [''a''] @ set_list (disliked_exclusions demo_io OWNER_USER_ID demo_rec) = [TrackId ''a'', TrackId ''b'']"
      by (simp add: set_list_def)
    have req: "sq_seeds demo_similar = [''a'']" "sq_exclude demo_similar = []" "sq_n demo_similar = 5"
      "sq_per_seed_n demo_similar = Some 40" "sq_sample_size demo_similar = None"
      by (simp_all add: demo_similar_def)
    show ?thesis
      unfolding group_similar_by_def req Let_def sizes sample ex fan
      using groups by (simp add: rank_groups_def log_item_def MAX_SEEDS_def del: demo_fields(12))
  qed
  then have "\<exists>r. fst (similar demo_us demo_cfg demo_io owner (Some demo_similar) By_Album demo_rec) = Inr r
     \<and> map gr_key (sm_results r) = [''al'']"
    by (simp only: similar_def option.case demo_owner prod.case sum.case fst_conv) simp
  then obtain r where r: "fst (similar demo_us demo_cfg demo_io owner (Some demo_similar) By_Album demo_rec) = Inr r"
    "map gr_key (sm_results r) = [''al'']" by (elim exE conjE) (rule that)
  have "\<forall>gs. mset (ro_hash demo_io gs) = mset gs" "\<forall>k. ro_ok demo_io (L_disliked k) \<and> ro_ok demo_io (L_expand k)"
    by simp_all
  from similar_groups_supported [OF r(1) this] have "distinct (map gr_key (sm_results r))" by (rule conjunct1)
  with r show ?thesis by (intro exI [of _ r] conjI)
qed

end
