(* ===== verification/Spec2Isabelle.thy ===== *)
theory Spec2Isabelle
  imports Tui_Autoplay Sync_Store Refresh_Families Owner_Slot Account_Laws Playlists Single_Flight Audio_Offline Proxy_Laws
    Ratings Ingest_Laws Clip_Fetch Taste_Laws Recommend_Laws
begin

text \<open>
  A verification library for the Rust workspace under \<open>src/crates\<close>: a self-hosted music system in
  which a gateway (\<open>music-gateway\<close>) authenticates clients, forwards browsing and streaming to a
  Subsonic server with durable caches in front of it, keeps playlists and shared listening rooms; a
  small crate (\<open>music-sync\<close>) defines the state machine of such a room, a crate (\<open>music-cache\<close>) the
  caches, and a terminal client (\<open>music-cli\<close>, on top of \<open>music-player\<close>) plays the music and
  replicates the room.

  \<^bold>\<open>How the parts interact.\<close> Clients send \<open>SyncOp\<close>s over REST; the gateway's \<open>SyncStore\<close> applies them
  in arrival order to the room of the caller's \<open>Principal\<close>, writes the session table through, and
  broadcasts each accepted operation with the version it produced. A client adopts a snapshot,
  applies the broadcast operations with the same state machine, and asks for a new snapshot when a
  version is missing. Who the caller is comes out of the bearer authentication, over the tokens the
  OAuth endpoints mint into the state database. Browsing goes through the proxy handler, which
  answers from the browse cache or asks upstream; audio goes through the clients' audio cache, keyed
  by track and transcoding, which playback fills and the downloads pin. What clients report about
  listening (events, thumb votes, scrobbles, ratings) is kept per account; the ingest turns tracks into
  vectors; and the recommendation endpoints draw on both to continue the queue of a room, recording what
  they served so that it rests for a while.

  \<^bold>\<open>Foundations.\<close>
  \<^item> \<open>Prelude\<close>: the Rust standard-library operations the sources use, with their lemmas.
  \<^item> \<open>Core_Types\<close> (\<open>music-core/src\<close>): ids, tracks, ratings, queue items.
  \<^item> \<open>Linearizer\<close>, \<open>Metered\<close>: the interfaces, as locales. \<open>linearizer\<close> is what distributing a state
    machine by a log of its accepted operations relies on; \<open>metered\<close> and \<open>single_use\<close> are what
    ``this credential works at most so many times'' relies on.
  \<^item> \<open>Keyed_Store\<close>: the locale \<open>keyed_store\<close>, what a client of a persisted map relies on (a lookup
    after an insert, after a removal, after an insert elsewhere). It is interpreted on the lyrics
    table, on the audio cache and on the browse cache.

  \<^bold>\<open>Shared rooms.\<close>
  \<^item> \<open>Sync_State\<close> (\<open>music-sync/src\<close>): the room state and \<open>apply\<close>, every operation; the invariants of
    the queue and its cursor, what each edit keeps, which operations fail. It interprets \<open>linearizer\<close>.
  \<^item> \<open>Session_Store\<close> (\<open>music-recommend/src/sessions.rs\<close>): the durable session table.
  \<^item> \<open>Principal\<close> (\<open>music-gateway/src/principal.rs\<close>): roles, capabilities, the room of a principal.
  \<^item> \<open>Sync_Store\<close> (\<open>music-gateway/src/sync\<close>): the registry of rooms, duplicate suppression by
    operation id, the REST handlers, the frames a subscriber sees; convergence of subscribers,
    isolation of rooms, agreement of the session table with the rooms.

  \<^bold>\<open>The terminal client.\<close>
  \<^item> \<open>Play_Queue\<close>, \<open>Player\<close> (\<open>music-player/src/queue.rs, player.rs\<close>): the local transport queue and
    the handle of the audio thread.
  \<^item> \<open>Tui_App\<close> (\<open>tui/state.rs, signal.rs, events.rs\<close>): the playback part of the client's state and
    its listening signals.
  \<^item> \<open>Tui_Room\<close> (\<open>tui/update/room.rs\<close>): the replica of the room. \<open>replica_within_history\<close> composes it
    with the gateway's frames: whatever arrives, it shows a state the server was in.
  \<^item> \<open>Tui_Playback\<close>, \<open>Tui_Autoplay\<close> (\<open>tui/update/playback.rs, autoplay.rs, mod.rs\<close>): transport and
    queue gestures, failing tracks, autoplay refills.

  \<^bold>\<open>Accounts and credentials of the gateway.\<close>
  \<^item> \<open>Gateway_Db\<close>, \<open>Oauth_Store\<close> (\<open>migrations\<close>, \<open>oauth/storage.rs\<close>): the tables with their constraints
    and every statement of \<open>OauthStore\<close>. \<open>Db_Integrity\<close> proves that each statement keeps the keys,
    \<open>Db_History\<close> that each one only moves credentials forward (consumed stays consumed, revoked stays
    revoked, no lifetime is extended).
  \<^item> \<open>Rate_Limit\<close> (\<open>ratelimit.rs\<close>), \<open>Http_Text\<close> (the text handling of \<open>oauth/handlers.rs\<close> and
    \<open>auth.rs\<close>).
  \<^item> \<open>Oauth_Handlers\<close> (\<open>oauth/handlers.rs\<close>), \<open>Accounts\<close> (\<open>auth.rs\<close>, \<open>users.rs\<close>, \<open>guest_codes.rs\<close>, the
    bootstrap in \<open>main.rs\<close>): the endpoints.
  \<^item> \<open>Gateway\<close>: the requests composed into one step function \<open>gw_step\<close>; runs are lists of requests with
    their clock readings. The properties of runs are in \<open>Credentials\<close> (codes and refresh tokens
    succeed at most once, guest codes at most as often as their cap; interpretations of \<open>single_use\<close>
    and \<open>metered\<close>), \<open>Refresh_Families\<close> (reuse kills a family), \<open>Owner_Slot\<close> (account 1 is permanent)
    and \<open>Account_Laws\<close> (authentication, deletion, password reset, lockout).

  \<^bold>\<open>Libraries and caches.\<close>
  \<^item> \<open>Playlists\<close> (\<open>music-recommend/src/playlists.rs\<close>, \<open>music-gateway/src/playlists.rs\<close>): the playlist
    tables and the handlers over them; refinement of position edits by edits of a list, privacy.
  \<^item> \<open>Lrc\<close> (\<open>music-gateway/src/lyrics/lrc.rs\<close>): the parser of timed lyrics, with its release-profile
    arithmetic. \<open>Lyrics\<close> (\<open>lyrics/mod.rs\<close> and its store): the cache of lyrics and the resolver in front
    of the providers. \<open>Single_Flight\<close>: concurrent resolvers as an interleaving of steps; at most one
    of them is upstream for a track.
  \<^item> \<open>Audio_Cache\<close> (\<open>music-cache/src/audio.rs\<close>): rows and blob files of the audio cache, pins, budgets
    and eviction. \<open>Audio_Laws\<close> is about runs of it, \<open>Audio_Offline\<close> about its clients (the streaming
    source of the player and the downloads of the terminal client).
  \<^item> \<open>Browse_Cache\<close> (\<open>music-cache/src/lib.rs\<close>), \<open>Proxy\<close> (\<open>music-gateway/src/proxy.rs\<close>): the response
    cache and the whole proxy handler (write guard, authentication of the upstream request, cache
    keys, time to live, revalidation, fallback when upstream is out, cover art colours).
    \<open>Proxy_Laws\<close> composes requests into runs.

  \<^bold>\<open>The recommender.\<close>
  \<^item> \<open>Binary_Float\<close>: \<open>f32\<close> and \<open>f64\<close> arithmetic as IEEE 754 defines it (exact result, rounded to
    nearest, ties to even), over rationals, with the comparisons of Rust and its stable \<open>sort_by\<close>.
  \<^item> \<open>Ratings\<close> (\<open>music-recommend/src/rating.rs\<close>, \<open>music-gateway/src/library_rating.rs\<close>): likes and
    dislikes of tracks, albums and artists, with an interpretation of \<open>keyed_store\<close>.
  \<^item> \<open>Embedding_Store\<close> (\<open>store.rs\<close>, \<open>types.rs\<close>), \<open>Track_Meta\<close> (\<open>metadata.rs\<close>): the ingest queue with
    its vectors, the metadata cache (again a \<open>keyed_store\<close>) and the normalisation of titles.
  \<^item> \<open>Ann_Index\<close> (\<open>ann.rs\<close>, and the application of a transform of \<open>whitening.rs\<close>): the index of
    vectors with its two maps between tracks and the keys of the graph.
  \<^item> \<open>Ingest\<close>, \<open>Ingest_Laws\<close>, \<open>Clip_Fetch\<close> (\<open>ingest.rs\<close> of both crates, \<open>boot_recommender\<close> of
    \<open>main.rs\<close>): the workers that download, embed and index; the pool of concurrent workers as an
    interleaving of statements and its invariant \<open>pool_ok\<close>.

  \<^item> \<open>Queue_Filter\<close> (\<open>queue_filter.rs\<close> and the walks of \<open>music-gateway/src/recommend.rs\<close>): the artist cap
    and the title dedup of a slate; \<open>footprint\<close> says what the state of the filter counts.
  \<^item> \<open>Ranking\<close> (\<open>aggregate.rs\<close>, \<open>mmr.rs\<close>, \<open>leash.rs\<close>, \<open>explore.rs\<close>, \<open>preference.rs\<close>): aggregation over seeds,
    maximal marginal relevance, the leash and the affinity rules, in the arithmetic of \<open>Binary_Float\<close>.
  \<^item> \<open>Taste_Signals\<close> (\<open>events.rs\<close>, \<open>feedback.rs\<close>, \<open>play_history.rs\<close>, \<open>track_affinity.rs\<close>, \<open>provenance.rs\<close>,
    \<open>music-gateway/src/listen_session.rs\<close>): every statement over the tables of listening signals and of
    served recommendations. \<open>Taste_Handlers\<close> (\<open>music-gateway/src/events.rs\<close>, \<open>recommend_feedback.rs\<close>,
    \<open>scrobble.rs\<close>): the endpoints that write them; \<open>Taste_Laws\<close>: runs of these endpoints change what is
    kept of an account only by its own requests, and a batch sent twice counts once.
  \<^item> \<open>Recommend\<close> (\<open>music-gateway/src/recommend.rs\<close>): the endpoints \<open>next\<close>, \<open>station\<close>, \<open>enqueue\<close>,
    \<open>from_seeds\<close>, \<open>from_any\<close>, \<open>similar_albums\<close>, \<open>similar_artists\<close>. \<open>Recommend_Laws\<close>: what they never serve,
    the limits a slate keeps, and that a failing lookup never fails a refill; its concrete catalogue
    \<open>demo_\<close> runs them in the witnesses.

  \<^bold>\<open>Parameters.\<close> SHA-256, Argon2, base64 and the validity of header values are fields of the record
  \<open>gw_env\<close>; the random bytes of a minted secret are an argument of the request that mints it. The
  properties that need it assume that hashing does not collide on the secrets of the run (\<open>sound\<close>);
  each has a witness with a concrete environment. The clock (\<open>SystemTime\<close> and \<open>Instant\<close>) is an
  argument of each step. The lyrics providers are the record \<open>lyrics_env\<close>, the digest and the file
  system of the audio cache are \<open>audio_env\<close> with the outcomes of each write, and upstream, MD5 and
  the decoding of images are \<open>proxy_env\<close> and the replies given to each step. The graph of \<open>usearch\<close> is
  the record \<open>usearch\<close> of its operations, which may fail; the fetchers and the embedder of the ingest
  are \<open>ingest_env\<close>, and the Subsonic client below them is \<open>subsonic\<close>. The exponential, tangent and
  logarithm of the platform are \<open>libm\<close>. The clock, the random draws, the embedder and the outcome of
  each lookup of the recommender are \<open>rec_io\<close> and \<open>taste_io\<close>; a property that fixes none of them
  holds for every one.

  \<^bold>\<open>Bounds.\<close> Integers that can wrap are words (room versions and positions are \<open>64 word\<close>); the
  properties that count versions assume fewer than \<open>2 ^ 64 - 1\<close> operations, and the time stamps of
  \<open>Lrc\<close> wrap at 64 bits as the release profile does. No definition uses fuel: the loops either run
  over a finite list, or (the bracket scanner of \<open>Lrc\<close>, the eviction of \<open>Audio_Cache\<close>, the loop over
  edition markers of \<open>Track_Meta\<close>, the draining of the ingest queue) are functions with a measure that
  each turn decreases. The metadata backfill may run forever and is a \<open>partial_function\<close>; that it ends
  under its hypothesis is proved as such.

  \<^bold>\<open>Not modelled.\<close> The fitting of whitening transforms and of projections (and with it the endpoint
  \<open>refit_whitening\<close>), the embedder clients, the files of the vector index, the wire format of Subsonic,
  the full-text search, the reports of the diagnostics page, the JSON of the parameters the
  recommender records for them, command-line and configuration parsing, the effects and the views of the
  terminal client, its browsing panes, the benchmark and process start-up are outside the library; the
  component list of the manifest gives the reason for each.
\<close>

end
